(* ===== verification/Prelude.thy ===== *)
theory Prelude
  imports Main "HOL-Library.Word" "HOL-Library.Char_ord" "HOL-Library.List_Lexorder"
    "HOL-Library.AList" "HOL-Library.Multiset"
begin

text \<open>
  What every component shares: the machine integers of Go, error values, the parts of the
  Go standard library the sources call (\<open>strings\<close>, \<open>strconv\<close>, \<open>sort\<close>, \<open>time\<close>,
  \<open>hash/fnv\<close>), the two loop shapes the sources repeat (a loop that keeps the best element,
  a loop that keeps the first of several equal elements), and the locale of strict weak orders
  under which sorting and selection are proved correct once.
  Strings are byte strings; the classification of white space and letters is that of ASCII.
\<close>

unbundle bit_operations_syntax

named_theorems go_defs \<open>definitions of the Go standard library model\<close>
named_theorems go_simps \<open>rewrite rules for the Go standard library model\<close>

type_synonym u8 = "8 word"
type_synonym u16 = "16 word"
type_synonym u32 = "32 word"
type_synonym u64 = "64 word"
type_synonym 'a slice = "'a list"
type_synonym ('k, 'v) gomap = "('k \<times> 'v) list"


section \<open>Errors\<close>

text \<open>
  \<open>errors.New m\<close> is \<open>Errorf m []\<close>; \<open>fmt.Errorf f a\<^sub>1 \<dots> a\<^sub>n\<close> is \<open>Errorf f [a\<^sub>1, \<dots>, a\<^sub>n]\<close>
  with the arguments as strings, and \<open>Wrapf\<close> when the format has a \<open>%w\<close> verb.
\<close>

datatype error =
    Errorf (err_format: string) (err_args: "string list")
  | Wrapf (err_format: string) (err_args: "string list") (err_wrapped: error)

type_synonym 'a result = "error + 'a"

fun render :: "string \<Rightarrow> string list \<Rightarrow> string \<Rightarrow> string" where
  "render [] args w = []"
| "render [c] args w = [c]"
| "render (c # d # cs) args w =
     (if c = CHR ''%'' then
        (if d = CHR ''w'' then w @ render cs args w
         else (case args of [] \<Rightarrow> render cs args w | a # as \<Rightarrow> a @ render cs as w))
      else c # render (d # cs) args w)"

text \<open>The message of an error, \<open>err.Error()\<close>.\<close>

primrec error_Error :: "error \<Rightarrow> string" where
  "error_Error (Errorf f args) = render f args []"
| "error_Error (Wrapf f args e) = render f args (error_Error e)"


section \<open>Maps\<close>

text \<open>
  A Go map is an association list without duplicate keys, in the order in which \<open>range\<close> happens to
  visit it: \<open>m[k] = v\<close> is \<open>AList.update\<close>, \<open>delete(m, k)\<close> is \<open>AList.delete\<close>, \<open>v, ok := m[k]\<close> is
  \<open>map_of\<close>, and \<open>m[k]\<close> is the zero value when the key is missing. A set of keys is a list.
\<close>

definition gomap_get :: "'v \<Rightarrow> ('k, 'v) gomap \<Rightarrow> 'k \<Rightarrow> 'v" where
  "gomap_get zero m k = (case map_of m k of None \<Rightarrow> zero | Some v \<Rightarrow> v)"

lemma gomap_get_update: "gomap_get z (AList.update k v m) = (gomap_get z m)(k := v)"
  by (auto simp: gomap_get_def update_conv' fun_eq_iff)

lemma gomap_get_delete: "gomap_get z (AList.delete k m) = (gomap_get z m)(k := z)"
  by (auto simp: gomap_get_def delete_conv' fun_eq_iff)

text \<open>\<open>for _, x := range xs { m[key(x)] = x }\<close>.\<close>

definition gomap_index :: "('a \<Rightarrow> 'k) \<Rightarrow> 'a list \<Rightarrow> ('k, 'a) gomap" where
  "gomap_index key xs = fold (\<lambda>x. AList.update (key x) x) xs []"

lemma distinct_gomap_index: "distinct (map fst (gomap_index key xs))"
proof -
  have "distinct (map fst m) \<Longrightarrow> distinct (map fst (fold (\<lambda>x. AList.update (key x) x) xs m))" for m
    by (induction xs arbitrary: m) (simp_all add: distinct_update)
  then show ?thesis by (simp add: gomap_index_def)
qed

lemma gomap_index_distinct:
  assumes "distinct (map key xs)"
  shows "gomap_index key xs = map (\<lambda>x. (key x, x)) xs"
proof -
  have "fold (\<lambda>x. AList.update (key x) x) xs m = m @ map (\<lambda>x. (key x, x)) xs"
    if "distinct (map key xs)" "set (map key xs) \<inter> fst ` set m = {}" for m
    using that
  proof (induction xs arbitrary: m)
    case (Cons x xs)
    have "AList.update (key x) x m = m @ [(key x, x)]" if "key x \<notin> fst ` set m" for m
      using that by (induction m) auto
    with Cons show ?case by (auto simp: image_iff)
  qed simp
  from this [of "[]"] assms show ?thesis by (simp add: gomap_index_def)
qed


section \<open>Loops that may return an error\<close>

primrec fold_result :: "('a \<Rightarrow> 's \<Rightarrow> 's result) \<Rightarrow> 'a list \<Rightarrow> 's \<Rightarrow> 's result" where
  "fold_result f [] s = Inr s"
| "fold_result f (x # xs) s = (case f x s of Inl e \<Rightarrow> Inl e | Inr s' \<Rightarrow> fold_result f xs s')"

text \<open>\<open>x, err := r; if err != nil { return err }; f(x)\<close>.\<close>

definition bind_result :: "'a result \<Rightarrow> ('a \<Rightarrow> 'b result) \<Rightarrow> 'b result" where
  "bind_result r f = (case r of Inl e \<Rightarrow> Inl e | Inr x \<Rightarrow> f x)"

lemma bind_result_simps [simp]: "bind_result (Inl e) f = Inl e" "bind_result (Inr x) f = f x"
  by (simp_all add: bind_result_def)

lemma bind_result_Inr: "bind_result r f = Inr y \<longleftrightarrow> (\<exists>x. r = Inr x \<and> f x = Inr y)"
  by (cases r) auto

text \<open>Two runs of a loop or of a sequence stay related, errors being equal, when their steps do.\<close>

lemma rel_bind_result:
  "rel_sum (=) R r r' \<Longrightarrow> (\<And>x x'. R x x' \<Longrightarrow> rel_sum (=) S (f x) (f' x')) \<Longrightarrow>
   rel_sum (=) S (bind_result r f) (bind_result r' f')"
  by (cases r; cases r') auto

lemma rel_fold_result:
  assumes "R s s'" and "\<And>x s s'. x \<in> set xs \<Longrightarrow> R s s' \<Longrightarrow> rel_sum (=) R (f x s) (f' x s')"
  shows "rel_sum (=) R (fold_result f xs s) (fold_result f' xs s')"
  using assms
proof (induction xs arbitrary: s s')
  case (Cons x xs)
  have "rel_sum (=) R (f x s) (f' x s')" using Cons.prems by simp
  then show ?case
    using Cons.prems(2) by (cases "f x s"; cases "f' x s'") (auto intro!: Cons.IH)
qed simp

text \<open>The same with the index of \<open>for i, x := range xs\<close>.\<close>

primrec fold_result_idx :: "(nat \<Rightarrow> 'a \<Rightarrow> 's \<Rightarrow> 's result) \<Rightarrow> nat \<Rightarrow> 'a list \<Rightarrow> 's \<Rightarrow> 's result" where
  "fold_result_idx f i [] s = Inr s"
| "fold_result_idx f i (x # xs) s =
     (case f i x s of Inl e \<Rightarrow> Inl e | Inr s' \<Rightarrow> fold_result_idx f (Suc i) xs s')"

lemma fold_result_invariant:
  assumes "fold_result f xs s = Inr s'" and "I s"
    and "\<And>x s s'. x \<in> set xs \<Longrightarrow> I s \<Longrightarrow> f x s = Inr s' \<Longrightarrow> I s'"
  shows "I s'"
  using assms
proof (induction xs arbitrary: s)
  case Nil
  then show ?case by simp
next
  case (Cons x xs)
  from Cons.prems(1) obtain t where "f x s = Inr t" and t: "fold_result f xs t = Inr s'"
    by (auto split: sum.splits)
  with Cons.prems(2,3) have "I t" by auto
  show ?case
    by (rule Cons.IH [OF t \<open>I t\<close>]) (auto intro: Cons.prems(3))
qed

text \<open>The same with the elements handled so far: what a loop that ends without an error has established of all.\<close>

lemma fold_result_history:
  assumes "fold_result f xs s = Inr s'" and "I [] s"
    and "\<And>handled x s s'. I handled s \<Longrightarrow> f x s = Inr s' \<Longrightarrow> I (handled @ [x]) s'"
  shows "I xs s'"
proof -
  have "fold_result f xs s = Inr s' \<Longrightarrow> I handled s \<Longrightarrow> I (handled @ xs) s'" for handled
  proof (induction xs arbitrary: handled s)
    case (Cons x xs)
    from Cons.prems(1) obtain t where "f x s = Inr t" and t: "fold_result f xs t = Inr s'"
      by (auto split: sum.splits)
    with Cons.prems(2) assms(3) have "I (handled @ [x]) t" by auto
    from Cons.IH [OF t this] show ?case by simp
  qed simp
  from this [of "[]"] assms(1,2) show ?thesis by simp
qed

text \<open>A loop of checks succeeds exactly if every check does, when the checks do not depend on the state.\<close>

lemma fold_result_accepts:
  assumes "J s"
    and "\<And>x s. x \<in> set xs \<Longrightarrow> J s \<Longrightarrow> (\<exists>s'. f x s = Inr s') \<longleftrightarrow> P x"
    and "\<And>x s s'. x \<in> set xs \<Longrightarrow> J s \<Longrightarrow> f x s = Inr s' \<Longrightarrow> J s'"
  shows "(\<exists>s'. fold_result f xs s = Inr s') \<longleftrightarrow> (\<forall>x \<in> set xs. P x)"
  using assms
proof (induction xs arbitrary: s)
  case Nil
  then show ?case by simp
next
  case (Cons x xs)
  show ?case
  proof (cases "f x s")
    case (Inl e)
    with Cons.prems(1) Cons.prems(2) [of x s] show ?thesis by simp
  next
    case (Inr t)
    with Cons.prems(1,3) have "J t" by auto
    then have "(\<exists>s'. fold_result f xs t = Inr s') \<longleftrightarrow> (\<forall>x \<in> set xs. P x)"
      by (rule Cons.IH) (rule Cons.prems(2), simp, assumption, rule Cons.prems(3), auto)
    with Inr Cons.prems(1) Cons.prems(2) [of x s] show ?thesis by simp
  qed
qed

lemma fold_result_append:
  "fold_result f (xs @ ys) s =
     (case fold_result f xs s of Inl e \<Rightarrow> Inl e | Inr s' \<Rightarrow> fold_result f ys s')"
  by (induction xs arbitrary: s) (auto split: sum.splits)

lemma fold_result_idx_invariant:
  assumes "fold_result_idx f i xs s = Inr s'" and "I s"
    and "\<And>j x s s'. x \<in> set xs \<Longrightarrow> I s \<Longrightarrow> f j x s = Inr s' \<Longrightarrow> I s'"
  shows "I s'"
  using assms
proof (induction xs arbitrary: s i)
  case Nil
  then show ?case by simp
next
  case (Cons x xs)
  from Cons.prems(1) obtain t where "f i x s = Inr t" and t: "fold_result_idx f (Suc i) xs t = Inr s'"
    by (auto split: sum.splits)
  with Cons.prems(2,3) have "I t" by auto
  show ?case
    by (rule Cons.IH [OF t \<open>I t\<close>]) (auto intro: Cons.prems(3))
qed

text \<open>
  What a loop whose body checks each element and records it in a list of those seen has
  established when it ends without an error.
\<close>

lemma fold_result_idx_seen:
  assumes "fold_result_idx f i xs seen = Inr seen'"
    and "\<And>j x s s'. f j x s = Inr s' \<Longrightarrow> P x \<and> k x \<notin> set s \<and> s' = k x # s"
  shows "(\<forall>x \<in> set xs. P x) \<and> distinct (map k xs) \<and> set (map k xs) \<inter> set seen = {} \<and>
    seen' = rev (map k xs) @ seen"
  using assms(1)
proof (induction xs arbitrary: i seen)
  case Nil
  then show ?case by simp
next
  case (Cons x xs)
  from Cons.prems obtain s where s: "f i x seen = Inr s"
    and rest: "fold_result_idx f (Suc i) xs s = Inr seen'"
    by (auto split: sum.splits)
  from assms(2) [OF s] have x: "P x" "k x \<notin> set seen" "s = k x # seen" by auto
  from Cons.IH [OF rest] x show ?case by auto
qed

text \<open>
  A validation function is a sequence of checks, the first failing one of which is returned:
  \<open>if c { return e }\<close> is \<open>fail_if c e\<close>, and \<open>if err := f(); err != nil { return g(err) }\<close> is
  \<open>wrap_error g f\<close>.
\<close>

definition fail_if :: "bool \<Rightarrow> error \<Rightarrow> unit result" where
  "fail_if c e = (if c then Inl e else Inr ())"

definition wrap_error :: "(error \<Rightarrow> error) \<Rightarrow> 'a result \<Rightarrow> unit result" where
  "wrap_error g r = (case r of Inl e \<Rightarrow> Inl (g e) | Inr _ \<Rightarrow> Inr ())"

primrec first_error :: "unit result list \<Rightarrow> unit result" where
  "first_error [] = Inr ()"
| "first_error (r # rs) = (case r of Inl e \<Rightarrow> Inl e | Inr _ \<Rightarrow> first_error rs)"

text \<open>\<open>for i, x := range xs { \<dots> }\<close> with a body of checks, without and with a set of keys seen.\<close>

definition range_check :: "(nat \<Rightarrow> 'a \<Rightarrow> unit result) \<Rightarrow> 'a list \<Rightarrow> unit result" where
  "range_check body xs = fold_result_idx (\<lambda>i x _. body i x) 0 xs ()"

definition range_seen ::
    "('a \<Rightarrow> 'k) \<Rightarrow> (nat \<Rightarrow> 'a \<Rightarrow> 'k list \<Rightarrow> unit result) \<Rightarrow> 'a list \<Rightarrow> 'k list \<Rightarrow> 'k list result" where
  "range_seen key body xs seen =
     fold_result_idx
       (\<lambda>i x seen. case body i x seen of Inl e \<Rightarrow> Inl e | Inr _ \<Rightarrow> Inr (key x # seen)) 0 xs seen"

definition is_ok :: "'a result \<Rightarrow> bool" where
  "is_ok r \<longleftrightarrow> (case r of Inl e \<Rightarrow> False | Inr _ \<Rightarrow> True)"

lemma is_ok_simps [simp]: "is_ok (Inr x)" "\<not> is_ok (Inl e)"
  by (simp_all add: is_ok_def)

lemma is_ok_fail_if [simp]: "is_ok (fail_if c e) \<longleftrightarrow> \<not> c"
  by (simp add: fail_if_def)

lemma is_ok_wrap_error [simp]: "is_ok (wrap_error g r) \<longleftrightarrow> is_ok r"
  by (simp add: wrap_error_def is_ok_def split: sum.splits)

lemma is_ok_if [simp]: "is_ok (if c then r else r') \<longleftrightarrow> (if c then is_ok r else is_ok r')"
  by simp

lemma is_ok_first_error [simp]: "is_ok (first_error rs) \<longleftrightarrow> (\<forall>r \<in> set rs. is_ok r)"
  by (induction rs) (auto simp: is_ok_def split: sum.splits)

declare first_error.simps [simp del]

lemma is_ok_fold_idx_unit:
  "is_ok (fold_result_idx (\<lambda>i x _. body i x) n xs ()) \<longleftrightarrow> (\<forall>i < length xs. is_ok (body (n + i) (xs ! i)))"
proof (induction xs arbitrary: n)
  case (Cons x xs)
  have "(\<forall>i < length (x # xs). is_ok (body (n + i) ((x # xs) ! i))) \<longleftrightarrow>
      is_ok (body n x) \<and> (\<forall>i < length xs. is_ok (body (Suc n + i) (xs ! i)))"
    by (auto simp: less_Suc_eq_0_disj)
  with Cons show ?case by (cases "body n x") simp_all
qed simp

lemma is_ok_range_check:
  assumes "\<And>i x. x \<in> set xs \<Longrightarrow> is_ok (body i x) \<longleftrightarrow> P x"
  shows "is_ok (range_check body xs) \<longleftrightarrow> (\<forall>x \<in> set xs. P x)"
  using assms unfolding range_check_def is_ok_fold_idx_unit by (auto simp: all_set_conv_all_nth)

lemma is_ok_range_checkD:
  assumes "is_ok (range_check body xs)" and "x \<in> set xs"
  shows "\<exists>i. is_ok (body i x)"
  using assms unfolding range_check_def is_ok_fold_idx_unit by (auto simp: in_set_conv_nth)

lemma is_ok_Inr: "is_ok r \<longleftrightarrow> (\<exists>x. r = Inr x)"
  by (cases r) simp_all

lemma is_ok_bind_result: "is_ok (bind_result r f) \<longleftrightarrow> (\<exists>x. r = Inr x \<and> is_ok (f x))"
  by (cases r) simp_all

lemma is_ok_range_seen:
  assumes "\<And>i x s. x \<in> set xs \<Longrightarrow> is_ok (body i x s) \<longleftrightarrow> P x \<and> key x \<notin> set s"
  shows "is_ok (range_seen key body xs seen) \<longleftrightarrow>
    (\<forall>x \<in> set xs. P x) \<and> distinct (map key xs) \<and> set (map key xs) \<inter> set seen = {}"
proof -
  let ?f = "\<lambda>i x seen. case body i x seen of Inl e \<Rightarrow> Inl e | Inr _ \<Rightarrow> Inr (key x # seen)"
  have "is_ok (fold_result_idx ?f n ys seen) \<longleftrightarrow>
    (\<forall>x \<in> set ys. P x) \<and> distinct (map key ys) \<and> set (map key ys) \<inter> set seen = {}"
    if "set ys \<subseteq> set xs" for n ys
    using that
  proof (induction ys arbitrary: n seen)
    case (Cons y ys)
    have y: "is_ok (body n y seen) \<longleftrightarrow> P y \<and> key y \<notin> set seen"
      using assms Cons.prems by simp
    show ?case
    proof (cases "body n y seen")
      case (Inl e)
      with y show ?thesis by auto
    next
      case (Inr u)
      with y Cons.IH [of "Suc n" "key y # seen"] Cons.prems show ?thesis by auto
    qed
  qed simp
  then show ?thesis by (simp add: range_seen_def)
qed

lemma range_seen_sound:
  assumes "is_ok (range_seen key body xs [])"
    and body: "\<And>i x s. is_ok (body i x s) \<Longrightarrow> P x \<and> key x \<notin> set s"
  shows "(\<forall>x \<in> set xs. P x) \<and> distinct (map key xs)"
proof -
  let ?f = "\<lambda>i x seen. case body i x seen of Inl e \<Rightarrow> Inl e | Inr _ \<Rightarrow> Inr (key x # seen)"
  from assms(1) obtain seen where "fold_result_idx ?f 0 xs [] = Inr seen"
    by (auto simp: is_ok_def range_seen_def split: sum.splits)
  moreover have "P x \<and> key x \<notin> set s \<and> s' = key x # s" if "?f j x s = Inr s'" for j x s s'
    using that body [of j x s] by (cases "body j x s") auto
  ultimately show ?thesis
    by (rule fold_result_idx_seen [where P = P and k = key, THEN conjE]) auto
qed

lemma range_seen_Inr: "range_seen key body xs seen = Inr seen' \<Longrightarrow> seen' = rev (map key xs) @ seen"
proof -
  let ?f = "\<lambda>i x seen. case body i x seen of Inl e \<Rightarrow> Inl e | Inr _ \<Rightarrow> Inr (key x # seen)"
  have "fold_result_idx ?f n xs seen = Inr seen' \<Longrightarrow> seen' = rev (map key xs) @ seen" for n
    by (induction xs arbitrary: n seen) (auto split: sum.splits)
  then show "range_seen key body xs seen = Inr seen' \<Longrightarrow> seen' = rev (map key xs) @ seen"
    by (simp add: range_seen_def)
qed


section \<open>Strings\<close>

definition is_space :: "char \<Rightarrow> bool" where
  "is_space c \<longleftrightarrow> of_char c \<in> {9, 10, 11, 12, 13, 32 :: nat}"

definition strings_TrimSpace :: "string \<Rightarrow> string" where
  "strings_TrimSpace s = rev (dropWhile is_space (rev (dropWhile is_space s)))"

definition to_lower_char :: "char \<Rightarrow> char" where
  "to_lower_char c =
     (if 65 \<le> (of_char c :: nat) \<and> (of_char c :: nat) \<le> 90 then char_of (of_char c + 32 :: nat) else c)"

definition strings_ToLower :: "string \<Rightarrow> string" where
  "strings_ToLower = map to_lower_char"

definition strings_HasPrefix :: "string \<Rightarrow> string \<Rightarrow> bool" where
  "strings_HasPrefix s p \<longleftrightarrow> take (length p) s = p"

definition strings_HasSuffix :: "string \<Rightarrow> string \<Rightarrow> bool" where
  "strings_HasSuffix s p \<longleftrightarrow> length p \<le> length s \<and> drop (length s - length p) s = p"

definition strings_TrimPrefix :: "string \<Rightarrow> string \<Rightarrow> string" where
  "strings_TrimPrefix s p = (if strings_HasPrefix s p then drop (length p) s else s)"

definition strings_TrimSuffix :: "string \<Rightarrow> string \<Rightarrow> string" where
  "strings_TrimSuffix s p = (if strings_HasSuffix s p then take (length s - length p) s else s)"

fun strings_Join :: "string list \<Rightarrow> string \<Rightarrow> string" where
  "strings_Join [] sep = []"
| "strings_Join [x] sep = x"
| "strings_Join (x # y # xs) sep = x @ sep @ strings_Join (y # xs) sep"

text \<open>\<open>strings.Split\<close> on a separator of one byte.\<close>

fun strings_Split :: "string \<Rightarrow> char \<Rightarrow> string list" where
  "strings_Split [] c = [[]]"
| "strings_Split (x # xs) c =
     (if x = c then [] # strings_Split xs c
      else (case strings_Split xs c of [] \<Rightarrow> [[x]] | y # ys \<Rightarrow> (x # y) # ys))"

fun strings_Contains :: "string \<Rightarrow> string \<Rightarrow> bool" where
  "strings_Contains [] p = (p = [])"
| "strings_Contains (x # xs) p = (strings_HasPrefix (x # xs) p \<or> strings_Contains xs p)"

definition strings_ContainsAny :: "string \<Rightarrow> string \<Rightarrow> bool" where
  "strings_ContainsAny s chars = list_ex (\<lambda>c. List.member chars c) s"

text \<open>\<open>strings.ReplaceAll\<close> of a one-byte pattern.\<close>

definition strings_ReplaceAll :: "string \<Rightarrow> char \<Rightarrow> string \<Rightarrow> string" where
  "strings_ReplaceAll s c r = concat (map (\<lambda>x. if x = c then r else [x]) s)"

definition digit_char :: "nat \<Rightarrow> char" where
  "digit_char d = char_of (if d < 10 then 48 + d else 87 + d)"

fun digits_base :: "nat \<Rightarrow> nat \<Rightarrow> string" where
  "digits_base b n =
     (if n < b \<or> b < 2 then [digit_char n] else digits_base b (n div b) @ [digit_char (n mod b)])"

declare digits_base.simps [simp del]

definition nat_Itoa :: "nat \<Rightarrow> string" where
  "nat_Itoa = digits_base 10"

definition strconv_Itoa :: "int \<Rightarrow> string" where
  "strconv_Itoa i = (if i < 0 then CHR ''-'' # nat_Itoa (nat (- i)) else nat_Itoa (nat i))"

definition bool_String :: "bool \<Rightarrow> string" where
  "bool_String b = (if b then ''true'' else ''false'')"

text \<open>The byte that separates the parts of composite keys.\<close>

abbreviation NUL :: string where
  "NUL \<equiv> [CHR 0x00]"

lemma set_strings_Split_no_sep: "l \<in> set (strings_Split s c) \<Longrightarrow> c \<notin> set l"
  by (induction s c arbitrary: l rule: strings_Split.induct) (auto split: if_splits list.splits)

lemma strings_Split_neq_Nil [simp]: "strings_Split s c \<noteq> []"
  by (induction s c rule: strings_Split.induct) (auto split: list.splits)

text \<open>Splitting and joining with the same separator gives the string back.\<close>

lemma strings_Join_Split: "strings_Join (strings_Split s c) [c] = s"
proof (induction s c rule: strings_Split.induct)
  case (2 x xs c)
  show ?case
  proof (cases "x = c")
    case True
    with 2 show ?thesis
      by (cases "strings_Split xs c") auto
  next
    case False
    obtain y ys where ys: "strings_Split xs c = y # ys"
      by (cases "strings_Split xs c") auto
    with 2 False show ?thesis
      by (cases ys) auto
  qed
qed simp


section \<open>Hashing: 32-bit FNV-1a\<close>

definition fnv_step :: "u32 \<Rightarrow> u8 \<Rightarrow> u32" where
  "fnv_step h b = (h XOR ucast b) * 16777619"

definition fnv_New32a :: "u8 list \<Rightarrow> u32" where
  "fnv_New32a bs = foldl fnv_step 2166136261 bs"

definition string_bytes :: "string \<Rightarrow> u8 list" where
  "string_bytes s = map of_char s"


section \<open>Time\<close>

text \<open>
  An instant is the number of nanoseconds since the zero time, a duration a signed 64-bit
  number of nanoseconds; \<open>Sub\<close> saturates.
\<close>

type_synonym time = int
type_synonym duration = int

abbreviation (input) zero_time :: time where
  "zero_time \<equiv> 0"

definition time_IsZero :: "time \<Rightarrow> bool" where
  "time_IsZero t \<longleftrightarrow> t = 0"

definition max_duration :: duration where
  "max_duration = 2 ^ 63 - 1"

definition time_Sub :: "time \<Rightarrow> time \<Rightarrow> duration" where
  "time_Sub t u = max (- (2 ^ 63)) (min max_duration (t - u))"

definition second :: duration where
  "second = 1000000000"

lemma time_Sub_exact: "\<bar>t - u\<bar> \<le> max_duration \<Longrightarrow> time_Sub t u = t - u"
  by (simp add: time_Sub_def max_duration_def)


section \<open>Sorting with a comparison function\<close>

text \<open>
  \<open>sort.SliceStable\<close> and \<open>slices.SortFunc\<close>: insertion that never moves an element in front of
  an equivalent one. Where the sources use the unstable sort, the elements compared as
  equivalent are equal, or any order of them is allowed and the stable one is taken.
\<close>

primrec insert_by :: "('a \<Rightarrow> 'a \<Rightarrow> bool) \<Rightarrow> 'a \<Rightarrow> 'a list \<Rightarrow> 'a list" where
  "insert_by lt x [] = [x]"
| "insert_by lt x (y # ys) = (if lt y x then y # insert_by lt x ys else x # y # ys)"

definition sort_SliceStable :: "('a \<Rightarrow> 'a \<Rightarrow> bool) \<Rightarrow> 'a list \<Rightarrow> 'a list" where
  "sort_SliceStable lt xs = foldr (insert_by lt) xs []"

lemma sort_SliceStable_Nil [simp]: "sort_SliceStable lt [] = []"
  by (simp add: sort_SliceStable_def)

lemma sort_SliceStable_Cons [simp]:
  "sort_SliceStable lt (x # xs) = insert_by lt x (sort_SliceStable lt xs)"
  by (simp add: sort_SliceStable_def)

lemma mset_insert_by [simp]: "mset (insert_by lt x xs) = add_mset x (mset xs)"
  by (induction xs) auto

lemma mset_sort_SliceStable [simp]: "mset (sort_SliceStable lt xs) = mset xs"
  by (induction xs) auto

lemma set_sort_SliceStable [simp]: "set (sort_SliceStable lt xs) = set xs"
  by (metis mset_sort_SliceStable set_mset_mset)

lemma length_sort_SliceStable [simp]: "length (sort_SliceStable lt xs) = length xs"
  by (metis mset_sort_SliceStable size_mset)

lemma distinct_sort_SliceStable [simp]: "distinct (sort_SliceStable lt xs) = distinct xs"
  by (metis mset_sort_SliceStable mset_eq_imp_distinct_iff)

lemma distinct_map_sort_SliceStable [simp]:
  "distinct (map f (sort_SliceStable lt xs)) = distinct (map f xs)"
  by (metis mset_map mset_sort_SliceStable mset_eq_imp_distinct_iff)


section \<open>Keeping the best element\<close>

text \<open>
  The loop \<open>for x in xs { if selected == nil || better(x, selected) { selected = x } }\<close>.
\<close>

definition keep_better :: "('a \<Rightarrow> 'a \<Rightarrow> bool) \<Rightarrow> 'a \<Rightarrow> 'a option \<Rightarrow> 'a option" where
  "keep_better better x sel =
     (case sel of None \<Rightarrow> Some x | Some s \<Rightarrow> if better x s then Some x else Some s)"

definition select_best :: "('a \<Rightarrow> 'a \<Rightarrow> bool) \<Rightarrow> 'a list \<Rightarrow> 'a option" where
  "select_best better xs = fold (keep_better better) xs None"

lemma fold_keep_better_Some: "\<exists>y. fold (keep_better better) xs (Some s) = Some y \<and> (y = s \<or> y \<in> set xs)"
  by (induction xs arbitrary: s) (force simp: keep_better_def)+

lemma select_best_mem: "select_best better xs = Some y \<Longrightarrow> y \<in> set xs"
  using fold_keep_better_Some [of better "tl xs" "hd xs"]
  by (cases xs) (auto simp: select_best_def keep_better_def)

lemma select_best_None [simp]: "select_best better xs = None \<longleftrightarrow> xs = []"
  using fold_keep_better_Some [of better "tl xs" "hd xs"]
  by (cases xs) (auto simp: select_best_def keep_better_def)


section \<open>Strict weak orders\<close>

text \<open>
  The contract a comparison function has to meet: asymmetric, and incomparability is
  transitive. It is stated as \<open>negative transitivity\<close>, which is the form the proofs use.
\<close>

locale strict_weak_order =
  fixes lt :: "'a \<Rightarrow> 'a \<Rightarrow> bool"
  assumes swo_asym: "lt x y \<Longrightarrow> \<not> lt y x"
    and swo_ntrans: "\<not> lt x y \<Longrightarrow> \<not> lt y z \<Longrightarrow> \<not> lt x z"
begin

lemma swo_irrefl: "\<not> lt x x"
  using swo_asym by blast

lemma swo_trans: "lt x y \<Longrightarrow> lt y z \<Longrightarrow> lt x z"
  using swo_asym swo_ntrans by blast

lemma sorted_insert_by:
  "sorted_wrt (\<lambda>x y. \<not> lt y x) xs \<Longrightarrow> sorted_wrt (\<lambda>x y. \<not> lt y x) (insert_by lt x xs)"
proof (induction xs)
  case (Cons y ys)
  have set_ins: "set (insert_by lt x ys) = insert x (set ys)"
    by (metis mset_insert_by set_mset_add_mset_insert set_mset_mset)
  show ?case
  proof (cases "lt y x")
    case True
    with Cons show ?thesis by (auto simp: set_ins dest: swo_asym)
  next
    case False
    with Cons.prems show ?thesis by (auto dest: swo_ntrans)
  qed
qed simp

lemma sorted_sort_SliceStable: "sorted_wrt (\<lambda>x y. \<not> lt y x) (sort_SliceStable lt xs)"
  by (induction xs) (auto intro: sorted_insert_by)

text \<open>Sorting a sorted list changes nothing.\<close>

lemma sort_SliceStable_idem:
  "sorted_wrt (\<lambda>x y. \<not> lt y x) xs \<Longrightarrow> sort_SliceStable lt xs = xs"
proof (induction xs)
  case (Cons x xs)
  then have "sort_SliceStable lt xs = xs" and "\<forall>y \<in> set xs. \<not> lt y x" by auto
  then show ?case by (cases xs) auto
qed simp

text \<open>Nothing in the list precedes the head of the sorted list.\<close>

lemma sorted_hd_least:
  "sorted_wrt (\<lambda>x y. \<not> lt y x) (y # ys) \<Longrightarrow> x \<in> set (y # ys) \<Longrightarrow> \<not> lt x y"
  using swo_irrefl by auto

lemma fold_keep_better_max:
  "fold (keep_better lt) xs (Some s) = Some y \<Longrightarrow> \<not> lt s y \<and> (\<forall>x \<in> set xs. \<not> lt x y)"
proof (induction xs arbitrary: s)
  case Nil
  then show ?case using swo_irrefl by simp
next
  case (Cons x xs)
  show ?case
  proof (cases "lt x s")
    case True
    with Cons have "\<not> lt x y \<and> (\<forall>x \<in> set xs. \<not> lt x y)"
      by (auto simp: keep_better_def)
    with True show ?thesis
      using swo_trans by auto
  next
    case False
    with Cons have "\<not> lt s y \<and> (\<forall>x \<in> set xs. \<not> lt x y)"
      by (auto simp: keep_better_def)
    with False show ?thesis
      using swo_ntrans by auto
  qed
qed

text \<open>Reading \<open>lt x y\<close> as \<open>x is better than y\<close>: nothing in the list is better than the selected element.\<close>

lemma select_best_max: "select_best lt xs = Some y \<Longrightarrow> x \<in> set xs \<Longrightarrow> \<not> lt x y"
  using fold_keep_better_max [of "tl xs" "hd xs" y]
  by (cases xs) (auto simp: select_best_def keep_better_def)

text \<open>Two orders of the same elements select elements of the same rank.\<close>

lemma select_best_perm:
  assumes "set xs = set ys" and "select_best lt xs = Some x" and "select_best lt ys = Some y"
  shows "\<not> lt x y \<and> \<not> lt y x"
  using assms select_best_max select_best_mem by metis

end

text \<open>The usual comparison function: by a first key, and by a second one where the first keys agree.\<close>

lemma lexicographic_strict_weak_order:
  fixes f :: "'a \<Rightarrow> 'k::linorder" and g :: "'a \<Rightarrow> 'l::linorder"
  shows "strict_weak_order (\<lambda>a b. if f a \<noteq> f b then f a < f b else g a < g b)"
proof
  fix x y z
  show "(if f x \<noteq> f y then f x < f y else g x < g y) \<Longrightarrow> \<not> (if f y \<noteq> f x then f y < f x else g y < g x)"
    by (cases "f x = f y") (simp_all add: order_less_not_sym)
  assume "\<not> (if f x \<noteq> f y then f x < f y else g x < g y)" "\<not> (if f y \<noteq> f z then f y < f z else g y < g z)"
  then have "f y \<le> f x" "f z \<le> f y" "f x = f y \<Longrightarrow> g y \<le> g x" "f y = f z \<Longrightarrow> g z \<le> g y"
    by (auto split: if_splits)
  then show "\<not> (if f x \<noteq> f z then f x < f z else g x < g z)"
    by (metis leD order_antisym order_trans)
qed

text \<open>A contract with no ties: incomparable elements are equal.\<close>

locale strict_total_order = strict_weak_order +
  assumes sto_total: "x \<noteq> y \<Longrightarrow> lt x y \<or> lt y x"
begin

lemma select_best_unique:
  assumes "set xs = set ys"
  shows "select_best lt xs = select_best lt ys"
proof (cases "select_best lt xs")
  case None
  with assms show ?thesis
    by (metis select_best_None set_empty)
next
  case (Some x)
  with assms have "ys \<noteq> []"
    by (metis select_best_None set_empty option.distinct(1))
  then obtain y where y: "select_best lt ys = Some y"
    by (metis select_best_None option.exhaust)
  from select_best_perm [OF assms Some y] sto_total have "x = y" by blast
  with Some y show ?thesis by simp
qed

lemma sorted_unique:
  "mset xs = mset ys \<Longrightarrow> sorted_wrt (\<lambda>x y. \<not> lt y x) xs \<Longrightarrow> sorted_wrt (\<lambda>x y. \<not> lt y x) ys \<Longrightarrow> xs = ys"
proof (induction xs arbitrary: ys)
  case Nil
  then show ?case by simp
next
  case (Cons x xs)
  from Cons.prems(1) obtain y ys' where ys: "ys = y # ys'"
    by (cases ys) auto
  have "x \<in> set ys" and "y \<in> set (x # xs)"
    using Cons.prems(1) ys by (metis list.set_intros(1) set_mset_mset)+
  with Cons.prems(2,3) ys have "\<not> lt y x" and "\<not> lt x y"
    using swo_irrefl by auto
  then have "x = y" using sto_total by blast
  with Cons.prems ys have "xs = ys'"
    by (intro Cons.IH) auto
  with \<open>x = y\<close> ys show ?case by simp
qed

lemma sorted_distinct_strict: "distinct xs \<Longrightarrow> sorted_wrt (\<lambda>x y. \<not> lt y x) xs \<Longrightarrow> sorted_wrt lt xs"
proof (induction xs)
  case (Cons x xs)
  have "lt x y" if "y \<in> set xs" for y
    using that Cons.prems sto_total [of x y] by auto
  with Cons show ?case by simp
qed simp

text \<open>The order in which the elements arrive does not change the sorted list.\<close>

lemma sort_SliceStable_perm:
  "mset xs = mset ys \<Longrightarrow> sort_SliceStable lt xs = sort_SliceStable lt ys"
  by (rule sorted_unique) (auto intro: sorted_sort_SliceStable)

end

text \<open>The order of strings and of other linearly ordered types, as \<open>sort.Strings\<close> uses it.\<close>

interpretation lin: strict_total_order "(<) :: 'a::linorder \<Rightarrow> 'a \<Rightarrow> bool"
  by unfold_locales auto

definition sort_Strings :: "string list \<Rightarrow> string list" where
  "sort_Strings = sort_SliceStable (<)"

lemma sort_Strings_sorted: "sorted (sort_Strings xs)"
  using lin.sorted_sort_SliceStable [of xs]
  by (simp add: sort_Strings_def not_less)

lemma set_sort_Strings [simp]: "set (sort_Strings xs) = set xs"
  by (simp add: sort_Strings_def)


section \<open>Keeping the first of several equal elements\<close>

text \<open>
  The loop with a \<open>seen\<close> map: an element is skipped when one with the same key was kept before.
\<close>

fun dedupe_by :: "('a \<Rightarrow> 'k) \<Rightarrow> 'k list \<Rightarrow> 'a list \<Rightarrow> 'a list" where
  "dedupe_by key seen [] = []"
| "dedupe_by key seen (x # xs) =
     (if List.member seen (key x) then dedupe_by key seen xs
      else x # dedupe_by key (key x # seen) xs)"

lemma keys_dedupe_by: "key ` set (dedupe_by key seen xs) = key ` set xs - set seen"
  by (induction key seen xs rule: dedupe_by.induct) auto

lemma dedupe_by_subset: "set (dedupe_by key seen xs) \<subseteq> set xs"
  by (induction key seen xs rule: dedupe_by.induct) auto

lemma distinct_dedupe_by: "distinct (map key (dedupe_by key seen xs))"
proof (induction key seen xs rule: dedupe_by.induct)
  case (2 key seen x xs)
  then show ?case
    using keys_dedupe_by [of key "key x # seen" xs] by auto
qed simp

lemma set_dedupe_by_inj: "inj_on key (set xs) \<Longrightarrow> set (dedupe_by key [] xs) = set xs"
proof
  assume inj: "inj_on key (set xs)"
  show "set xs \<subseteq> set (dedupe_by key [] xs)"
  proof
    fix x assume x: "x \<in> set xs"
    then have "key x \<in> key ` set (dedupe_by key [] xs)"
      by (simp add: keys_dedupe_by)
    then obtain y where "y \<in> set (dedupe_by key [] xs)" and "key y = key x" by auto
    with inj x show "x \<in> set (dedupe_by key [] xs)"
      using dedupe_by_subset [of key "[]" xs] by (auto simp: inj_on_def)
  qed
qed (rule dedupe_by_subset)

lemma set_dedupe_id [simp]: "set (dedupe_by (\<lambda>x. x) [] xs) = set xs"
  by (rule set_dedupe_by_inj) (simp add: inj_on_def)

lemma length_dedupe_by: "length (dedupe_by key seen xs) \<le> length xs"
  by (induction key seen xs rule: dedupe_by.induct) auto


section \<open>Bits of words\<close>

lemma word_eq_iff_bits:
  fixes a b :: "'a::len word"
  shows "a = b \<longleftrightarrow> (\<forall>i < LENGTH('a). bit a i = bit b i)"
  by (auto intro: bit_word_eqI)

lemma uint_drop_bit_div:
  fixes a :: "'a::len word"
  shows "uint (drop_bit k a) = uint a div 2 ^ k"
  by (simp only: unsigned_drop_bit_eq) (simp add: drop_bit_eq_div bintr_uint)

lemma xor_eq_0_iff:
  fixes a b :: "'a::len word"
  shows "a XOR b = 0 \<longleftrightarrow> a = b"
  by (auto simp: word_eq_iff_bits bit_xor_iff)

lemma drop_bit_eq_iff_div:
  fixes a b :: "'a::len word"
  shows "drop_bit k a = drop_bit k b \<longleftrightarrow> uint a div 2 ^ k = uint b div 2 ^ k"
  by (metis uint_drop_bit_div word_uint_eq_iff)

lemma int_or_mask:
  fixes x :: int
  shows "x OR mask k = x div 2 ^ k * 2 ^ k + (2 ^ k - 1)"
proof -
  have "x OR mask k = push_bit k (drop_bit k x) OR mask k"
    by (auto simp: bit_eq_iff bit_or_iff bit_mask_iff bit_push_bit_iff bit_drop_bit_eq)
  also have "\<dots> = push_bit k (drop_bit k x) + mask k"
    by (rule disjunctive_add [symmetric]) (auto simp: bit_push_bit_iff bit_mask_iff)
  finally show ?thesis
    by (simp add: push_bit_eq_mult drop_bit_eq_div mask_eq_exp_minus_1)
qed

lemma uint_or_mask:
  fixes a :: "'a::len word"
  shows "k \<le> LENGTH('a) \<Longrightarrow> uint (a OR mask k) = uint a div 2 ^ k * 2 ^ k + (2 ^ k - 1)"
  by (simp add: unsigned_or_eq uint_mask_eq int_or_mask min_def)

lemma int_div_mult_le:
  fixes x :: int
  assumes "0 < d"
  shows "x div d * d \<le> x" and "x < x div d * d + d"
proof -
  have "x div d * d + x mod d = x" by simp
  moreover have "0 \<le> x mod d" and "x mod d < d" using assms by simp_all
  ultimately show "x div d * d \<le> x" and "x < x div d * d + d" by linarith+
qed

lemma uint_and_not_mask:
  fixes a :: "'a::len word"
  shows "uint (a AND NOT (mask k)) = uint a div 2 ^ k * 2 ^ k"
proof -
  have "a AND NOT (mask k) = push_bit k (drop_bit k a)"
    by (auto simp: word_eq_iff_bits bit_and_iff bit_not_iff bit_mask_iff bit_push_bit_iff bit_drop_bit_eq)
  then have "uint (a AND NOT (mask k)) = uint (push_bit k (drop_bit k a))"
    by (rule arg_cong)
  also have "\<dots> = take_bit LENGTH('a) (uint a div 2 ^ k * 2 ^ k)"
    unfolding unsigned_push_bit_eq uint_drop_bit_div by (simp only: push_bit_eq_mult)
  also have "\<dots> = uint a div 2 ^ k * 2 ^ k"
  proof (rule take_bit_int_eq_self)
    show "uint a div 2 ^ k * 2 ^ k < 2 ^ LENGTH('a)"
      by (rule le_less_trans [OF int_div_mult_le(1) uint_bounded]) simp
  qed (simp add: pos_imp_zdiv_nonneg_iff)
  finally show ?thesis .
qed

lemma int_div_eq_interval:
  fixes x y d :: int
  assumes "0 < d"
  shows "x div d = y div d \<longleftrightarrow> x div d * d \<le> y \<and> y \<le> x div d * d + (d - 1)"
proof
  assume "x div d = y div d"
  then show "x div d * d \<le> y \<and> y \<le> x div d * d + (d - 1)"
    using int_div_mult_le [OF assms, of y] by simp
next
  assume "x div d * d \<le> y \<and> y \<le> x div d * d + (d - 1)"
  then have "y div d = x div d"
    by (intro int_div_pos_eq [where r = "y - x div d * d"]) auto
  then show "x div d = y div d" by simp
qed

lemma mult_add_eq_iff_div_mod:
  fixes i :: nat
  shows "r < d \<Longrightarrow> d * q + r = i \<longleftrightarrow> i div d = q \<and> i mod d = r"
  by auto

end
