(* ===== verification/Netip.thy ===== *)
theory Netip
  imports Prelude
begin

text \<open>
  The part of Go's \<open>net/netip\<close> the sources use: addresses, prefixes, masking, containment,
  ordering and text. The last sections hold the facts every component needs about them: a
  valid prefix contains exactly the addresses of its family that agree with it on its top
  bits, these are an interval, and byte arrays and words carry the same bits.
\<close>

section \<open>Agreement on the top bits of a word\<close>

definition top_match :: "nat \<Rightarrow> 'a::len word \<Rightarrow> 'a word \<Rightarrow> bool" where
  "top_match n a b \<longleftrightarrow> drop_bit (LENGTH('a) - n) (a XOR b) = 0"

text \<open>The mask of the top \<open>n\<close> bits (\<open>mask6\<close> of \<open>netip\<close>).\<close>

definition top_mask :: "nat \<Rightarrow> 'a::len word" where
  "top_mask n = NOT (mask (LENGTH('a) - n))"


section \<open>Addresses\<close>

datatype addr = ZeroAddr | V4 u32 | V6 "128 word" string

definition addr_IsValid :: "addr \<Rightarrow> bool" where
  "addr_IsValid ip \<longleftrightarrow> ip \<noteq> ZeroAddr"

fun addr_Is4 :: "addr \<Rightarrow> bool" where
  "addr_Is4 (V4 w) = True"
| "addr_Is4 ip = False"

fun addr_Is6 :: "addr \<Rightarrow> bool" where
  "addr_Is6 (V6 w z) = True"
| "addr_Is6 ip = False"

fun addr_BitLen :: "addr \<Rightarrow> nat" where
  "addr_BitLen ZeroAddr = 0"
| "addr_BitLen (V4 w) = 32"
| "addr_BitLen (V6 w z) = 128"

fun addr_Zone :: "addr \<Rightarrow> string" where
  "addr_Zone (V6 w z) = z"
| "addr_Zone ip = ''''"

fun addr_withoutZone :: "addr \<Rightarrow> addr" where
  "addr_withoutZone (V6 w z) = V6 w ''''"
| "addr_withoutZone ip = ip"

definition addr_IsUnspecified :: "addr \<Rightarrow> bool" where
  "addr_IsUnspecified ip \<longleftrightarrow> ip = V4 0 \<or> ip = V6 0 ''''"

text \<open>The numeric value of an address within its family.\<close>

fun addr_value :: "addr \<Rightarrow> int" where
  "addr_value ZeroAddr = 0"
| "addr_value (V4 w) = uint w"
| "addr_value (V6 w z) = uint w"

definition addr_Compare :: "addr \<Rightarrow> addr \<Rightarrow> int" where
  "addr_Compare a b =
     (if addr_BitLen a < addr_BitLen b then -1
      else if addr_BitLen b < addr_BitLen a then 1
      else if addr_value a < addr_value b then -1
      else if addr_value b < addr_value a then 1
      else if addr_Zone a < addr_Zone b then -1
      else if addr_Zone b < addr_Zone a then 1
      else 0)"

instantiation addr :: linorder
begin

definition less_addr :: "addr \<Rightarrow> addr \<Rightarrow> bool" where
  "less_addr a b \<longleftrightarrow> addr_Compare a b < 0"

definition less_eq_addr :: "addr \<Rightarrow> addr \<Rightarrow> bool" where
  "less_eq_addr a b \<longleftrightarrow> addr_Compare a b \<le> 0"

instance
proof
  fix a b c :: addr
  show "(a < b) = (a \<le> b \<and> \<not> b \<le> a)"
    by (auto simp: less_addr_def less_eq_addr_def addr_Compare_def)
  show "a \<le> a"
    by (simp add: less_eq_addr_def addr_Compare_def)
  show "a \<le> b \<Longrightarrow> b \<le> c \<Longrightarrow> a \<le> c"
    unfolding less_eq_addr_def addr_Compare_def by (auto split: if_splits)
  show "a \<le> b \<Longrightarrow> b \<le> a \<Longrightarrow> a = b"
    unfolding less_eq_addr_def addr_Compare_def
    by (cases a; cases b) (auto simp: word_uint_eq_iff split: if_splits)
  show "a \<le> b \<or> b \<le> a"
    by (auto simp: less_eq_addr_def addr_Compare_def)
qed

end


section \<open>Byte arrays\<close>

text \<open>Big-endian bytes of a word and back.\<close>

definition word_bytes :: "'a::len word \<Rightarrow> u8 list" where
  "word_bytes w = map (\<lambda>k. ucast (drop_bit (8 * k) w)) (rev [0..<LENGTH('a) div 8])"

definition bytes_word :: "u8 list \<Rightarrow> 'a::len word" where
  "bytes_word bs = foldl (\<lambda>acc b. push_bit 8 acc OR ucast b) 0 bs"

text \<open>An IPv4 address as it is embedded in IPv6, \<open>::ffff:a.b.c.d\<close>.\<close>

definition v4_mapped :: "u32 \<Rightarrow> 128 word" where
  "v4_mapped w = push_bit 32 65535 OR ucast w"

fun addr_Is4In6 :: "addr \<Rightarrow> bool" where
  "addr_Is4In6 (V6 w z) = (drop_bit 32 w = 65535)"
| "addr_Is4In6 ip = False"

definition addr_AddrFrom4 :: "u8 list \<Rightarrow> addr" where
  "addr_AddrFrom4 bs = V4 (bytes_word bs)"

definition addr_AddrFrom16 :: "u8 list \<Rightarrow> addr" where
  "addr_AddrFrom16 bs = V6 (bytes_word bs) ''''"

text \<open>\<open>As4\<close> panics on the zero address and on IPv6 addresses that embed no IPv4 address.\<close>

fun addr_As4 :: "addr \<Rightarrow> u8 list option" where
  "addr_As4 ZeroAddr = None"
| "addr_As4 (V4 w) = Some (word_bytes w)"
| "addr_As4 (V6 w z) = (if addr_Is4In6 (V6 w z) then Some (word_bytes (ucast w :: u32)) else None)"

fun addr_As16 :: "addr \<Rightarrow> u8 list" where
  "addr_As16 ZeroAddr = replicate 16 0"
| "addr_As16 (V4 w) = word_bytes (v4_mapped w)"
| "addr_As16 (V6 w z) = word_bytes w"


section \<open>Text\<close>

definition v4_String :: "u32 \<Rightarrow> string" where
  "v4_String w = strings_Join (map (\<lambda>b. nat_Itoa (unat b)) (word_bytes w)) ''.''"

text \<open>The eight 16-bit groups of an IPv6 address, and where its longest run of zero groups is.\<close>

definition v6_groups :: "128 word \<Rightarrow> nat list" where
  "v6_groups w = map (\<lambda>k. unat (ucast (drop_bit (16 * k) w) :: u16)) (rev [0..<8])"

fun zero_run :: "nat list \<Rightarrow> nat" where
  "zero_run [] = 0"
| "zero_run (g # gs) = (if g = 0 then Suc (zero_run gs) else 0)"

definition better_zero_run :: "nat list \<Rightarrow> nat \<Rightarrow> nat \<times> nat \<Rightarrow> nat \<times> nat" where
  "better_zero_run gs i best =
     (let l = zero_run (drop i gs) in
      if 2 \<le> l \<and> snd best - fst best < l then (i, i + l) else best)"

definition longest_zero_run :: "nat list \<Rightarrow> nat \<times> nat" where
  "longest_zero_run gs = fold (better_zero_run gs) [0..<8] (255, 255)"

definition hex_groups :: "nat list \<Rightarrow> string" where
  "hex_groups gs = strings_Join (map (digits_base 16) gs) '':''"

definition v6_String :: "128 word \<Rightarrow> string" where
  "v6_String w =
     (let gs = v6_groups w; (s, e) = longest_zero_run gs in
      if s = 255 then hex_groups gs
      else hex_groups (take s gs) @ ''::'' @ hex_groups (drop e gs))"

fun addr_String :: "addr \<Rightarrow> string" where
  "addr_String ZeroAddr = ''invalid IP''"
| "addr_String (V4 w) = v4_String w"
| "addr_String (V6 w z) =
     (if addr_Is4In6 (V6 w z) then ''::ffff:'' @ v4_String (ucast w) else v6_String w) @
     (if z = '''' then '''' else ''%'' @ z)"


section \<open>Prefixes\<close>

text \<open>
  The second field is \<open>bitsPlusOne\<close>: 0 for an invalid prefix, else one more than the number
  of bits.
\<close>

datatype prefix = Prefix (prefix_Addr: addr) (bitsPlusOne: nat)

definition zero_prefix :: prefix where
  "zero_prefix = Prefix ZeroAddr 0"

definition prefix_IsValid :: "prefix \<Rightarrow> bool" where
  "prefix_IsValid p \<longleftrightarrow> 0 < bitsPlusOne p"

definition prefix_Bits :: "prefix \<Rightarrow> int" where
  "prefix_Bits p = int (bitsPlusOne p) - 1"

definition netip_PrefixFrom :: "addr \<Rightarrow> int \<Rightarrow> prefix" where
  "netip_PrefixFrom ip bits =
     Prefix (addr_withoutZone ip)
       (if ip \<noteq> ZeroAddr \<and> 0 \<le> bits \<and> bits \<le> int (addr_BitLen ip) then nat bits + 1 else 0)"

text \<open>\<open>Addr.Prefix\<close>; its error is dropped, as \<open>Masked\<close> drops it.\<close>

fun addr_Prefix :: "addr \<Rightarrow> int \<Rightarrow> prefix" where
  "addr_Prefix ZeroAddr b = zero_prefix"
| "addr_Prefix (V4 w) b =
     (if b < 0 \<or> 32 < b then zero_prefix else netip_PrefixFrom (V4 (w AND top_mask (nat b))) b)"
| "addr_Prefix (V6 w z) b =
     (if b < 0 \<or> 128 < b then zero_prefix else netip_PrefixFrom (V6 (w AND top_mask (nat b)) z) b)"

definition prefix_Masked :: "prefix \<Rightarrow> prefix" where
  "prefix_Masked p = addr_Prefix (prefix_Addr p) (prefix_Bits p)"

definition prefix_Contains :: "prefix \<Rightarrow> addr \<Rightarrow> bool" where
  "prefix_Contains p ip =
     (if \<not> prefix_IsValid p \<or> addr_Zone ip \<noteq> '''' then False
      else (case (prefix_Addr p, ip) of
          (V4 v, V4 w) \<Rightarrow> drop_bit (nat (32 - prefix_Bits p)) (w XOR v) = 0
        | (V6 v z, V6 w z') \<Rightarrow> (w XOR v) AND top_mask (nat (prefix_Bits p)) = 0
        | _ \<Rightarrow> False))"

definition prefix_String :: "prefix \<Rightarrow> string" where
  "prefix_String p =
     (if \<not> prefix_IsValid p then ''invalid Prefix''
      else addr_String (prefix_Addr p) @ ''/'' @ strconv_Itoa (prefix_Bits p))"

text \<open>
  What every value of type \<open>netip.Prefix\<close> satisfies, since its fields are private and set by
  the functions above only: no zone, and at most as many bits as the address has.
\<close>

fun prefix_wf :: "prefix \<Rightarrow> bool" where
  "prefix_wf (Prefix ip b) =
     ((ip = ZeroAddr \<longrightarrow> b = 0) \<and> addr_Zone ip = '''' \<and> b \<le> addr_BitLen ip + 1)"

definition prefix_addrs :: "prefix \<Rightarrow> addr set" where
  "prefix_addrs p = {ip. prefix_Contains p ip}"


section \<open>Facts about agreement on the top bits\<close>

lemma top_match_drop_bit:
  fixes a b :: "'a::len word"
  shows "top_match n a b \<longleftrightarrow> drop_bit (LENGTH('a) - n) a = drop_bit (LENGTH('a) - n) b"
  by (simp add: top_match_def drop_bit_xor xor_eq_0_iff)

lemma top_match_bits:
  fixes a b :: "'a::len word"
  shows "top_match n a b \<longleftrightarrow> (\<forall>i < LENGTH('a). LENGTH('a) - n \<le> i \<longrightarrow> bit a i = bit b i)"
proof -
  let ?k = "LENGTH('a) - n"
  have "top_match n a b \<longleftrightarrow> (\<forall>j < LENGTH('a). bit a (?k + j) = bit b (?k + j))"
    by (simp add: top_match_drop_bit word_eq_iff_bits bit_drop_bit_eq)
  also have "\<dots> \<longleftrightarrow> (\<forall>i < LENGTH('a). ?k \<le> i \<longrightarrow> bit a i = bit b i)" (is "?l = ?r")
  proof
    assume l: ?l
    show ?r
    proof (intro allI impI)
      fix i assume "i < LENGTH('a)" and "?k \<le> i"
      then show "bit a i = bit b i"
        using l [rule_format, of "i - ?k"] by simp
    qed
  next
    assume ?r
    then show ?l
      by (metis bit_imp_le_length le_add1)
  qed
  finally show ?thesis .
qed

lemma top_match_div:
  fixes a b :: "'a::len word"
  shows "top_match n a b \<longleftrightarrow>
    uint a div 2 ^ (LENGTH('a) - n) = uint b div 2 ^ (LENGTH('a) - n)"
  by (simp only: top_match_drop_bit drop_bit_eq_iff_div)

lemma top_match_refl [simp]: "top_match n a a"
  by (simp add: top_match_drop_bit)

lemma top_match_sym: "top_match n a b \<longleftrightarrow> top_match n b a"
  by (auto simp: top_match_drop_bit)

lemma top_match_trans: "top_match n a b \<Longrightarrow> top_match n b c \<Longrightarrow> top_match n a c"
  by (simp add: top_match_drop_bit)

lemma top_match_mono: "top_match m a b \<Longrightarrow> n \<le> m \<Longrightarrow> top_match n a b"
  by (auto simp: top_match_bits)

lemma top_match_full [simp]:
  fixes a b :: "'a::len word"
  shows "LENGTH('a) \<le> n \<Longrightarrow> top_match n a b \<longleftrightarrow> a = b"
  by (auto simp: top_match_bits word_eq_iff_bits)

lemma top_match_0 [simp]: "top_match 0 a b"
  by (simp add: top_match_bits)

lemma xor_and_top_mask:
  fixes a b :: "'a::len word"
  shows "(a XOR b) AND top_mask n = 0 \<longleftrightarrow> top_match n a b"
  by (auto simp: top_mask_def top_match_bits word_eq_iff_bits bit_and_iff bit_not_iff bit_mask_iff
      bit_xor_iff)

lemma bit_and_top_mask:
  fixes a :: "'a::len word"
  shows "bit (a AND top_mask n) i \<longleftrightarrow> bit a i \<and> LENGTH('a) - n \<le> i"
  by (auto simp: top_mask_def bit_and_iff bit_not_iff bit_mask_iff dest: bit_imp_le_length)

lemma top_match_masked [simp]: "top_match n (a AND top_mask n) b \<longleftrightarrow> top_match n a b"
  by (simp add: top_match_bits bit_and_top_mask)

lemma masked_idem [simp]:
  fixes a :: "'a::len word"
  shows "a AND top_mask n AND top_mask n = a AND top_mask n"
  by (simp add: and.assoc)

lemma masked_eq_iff:
  fixes a b :: "'a::len word"
  shows "a AND top_mask n = b AND top_mask n \<longleftrightarrow> top_match n a b"
  by (auto simp: word_eq_iff_bits bit_and_top_mask top_match_bits)

text \<open>The words that agree with \<open>a\<close> on the top \<open>n\<close> bits are an interval.\<close>

lemma top_match_interval:
  fixes a b :: "'a::len word"
  shows "top_match n a b \<longleftrightarrow> a AND top_mask n \<le> b \<and> b \<le> a OR mask (LENGTH('a) - n)"
proof -
  define k where "k = LENGTH('a) - n"
  have "k \<le> LENGTH('a)" by (simp add: k_def)
  then show ?thesis
    by (simp add: top_match_div word_le_def uint_and_not_mask uint_or_mask int_div_eq_interval
        top_mask_def flip: k_def)
qed


section \<open>Facts about prefixes\<close>

lemma prefix_valid_cases [consumes 2, case_names V4 V6]:
  assumes "prefix_wf p" and "prefix_IsValid p"
  obtains w n where "p = Prefix (V4 w) (Suc n)" and "n \<le> 32"
  | w n where "p = Prefix (V6 w '''') (Suc n)" and "n \<le> 128"
proof (cases p)
  case (Prefix ip b)
  with assms show ?thesis
    by (cases ip; cases b) (auto simp: prefix_IsValid_def intro: that)
qed

lemma prefix_IsValid_Prefix [simp]: "prefix_IsValid (Prefix ip (Suc n))"
  by (simp add: prefix_IsValid_def)

lemma prefix_Bits_Suc [simp]: "prefix_Bits (Prefix ip (Suc n)) = int n"
  by (simp add: prefix_Bits_def)

lemma zero_prefix_invalid [simp]: "\<not> prefix_IsValid zero_prefix"
  by (simp add: prefix_IsValid_def zero_prefix_def)

lemma prefix_wf_zero [simp]: "prefix_wf zero_prefix"
  by (simp add: zero_prefix_def)

lemma prefix_wf_PrefixFrom [simp]: "prefix_wf (netip_PrefixFrom ip bits)"
  by (cases ip) (auto simp: netip_PrefixFrom_def)

lemma prefix_wf_addr_Prefix [simp]: "prefix_wf (addr_Prefix ip b)"
  by (cases ip) (auto simp: zero_prefix_def)

lemma prefix_wf_Masked [simp]: "prefix_wf (prefix_Masked p)"
  by (simp add: prefix_Masked_def)

lemma prefix_Masked_V4 [simp]:
  "n \<le> 32 \<Longrightarrow> prefix_Masked (Prefix (V4 w) (Suc n)) = Prefix (V4 (w AND top_mask n)) (Suc n)"
  by (simp add: prefix_Masked_def netip_PrefixFrom_def)

lemma prefix_Masked_V6 [simp]:
  "n \<le> 128 \<Longrightarrow> prefix_Masked (Prefix (V6 w z) (Suc n)) = Prefix (V6 (w AND top_mask n) '''') (Suc n)"
  by (simp add: prefix_Masked_def netip_PrefixFrom_def)

lemma prefix_Masked_invalid: "\<not> prefix_IsValid p \<Longrightarrow> prefix_Masked p = zero_prefix"
  by (cases p; cases "prefix_Addr p") (auto simp: prefix_Masked_def prefix_Bits_def prefix_IsValid_def)

lemma prefix_Masked_IsValid [simp]: "prefix_wf p \<Longrightarrow> prefix_IsValid (prefix_Masked p) \<longleftrightarrow> prefix_IsValid p"
proof (cases "prefix_IsValid p")
  case True
  assume "prefix_wf p"
  then show ?thesis using True by (cases p rule: prefix_valid_cases) auto
qed (simp add: prefix_Masked_invalid)

lemma prefix_Masked_idem [simp]: "prefix_Masked (prefix_Masked p) = prefix_Masked p"
proof (cases p)
  case (Prefix a n)
  then show ?thesis
    by (cases a; cases n)
      (auto simp: prefix_Masked_def prefix_Bits_def netip_PrefixFrom_def zero_prefix_def)
qed

lemma prefix_Contains_V4 [simp]:
  "n \<le> 32 \<Longrightarrow> prefix_Contains (Prefix (V4 v) (Suc n)) ip \<longleftrightarrow> (\<exists>w. ip = V4 w \<and> top_match n v w)"
  by (cases ip) (auto simp: prefix_Contains_def top_match_def xor.commute nat_diff_distrib)

lemma prefix_Contains_V6 [simp]:
  "n \<le> 128 \<Longrightarrow>
   prefix_Contains (Prefix (V6 v z) (Suc n)) ip \<longleftrightarrow> (\<exists>w. ip = V6 w '''' \<and> top_match n v w)"
  by (cases ip) (auto simp: prefix_Contains_def xor_and_top_mask top_match_sym)

lemma prefix_Contains_invalid: "\<not> prefix_IsValid p \<Longrightarrow> \<not> prefix_Contains p ip"
  by (simp add: prefix_Contains_def)

lemma prefix_Contains_ZeroAddr [simp]: "\<not> prefix_Contains p ZeroAddr"
  by (simp add: prefix_Contains_def split: addr.splits)

lemma prefix_Contains_Masked [simp]:
  "prefix_wf p \<Longrightarrow> prefix_Contains (prefix_Masked p) ip \<longleftrightarrow> prefix_Contains p ip"
proof (cases "prefix_IsValid p")
  case True
  assume "prefix_wf p"
  then show ?thesis using True by (cases p rule: prefix_valid_cases) auto
qed (simp add: prefix_Masked_invalid prefix_Contains_invalid)

lemma prefix_Contains_own_addr [simp]:
  "prefix_wf p \<Longrightarrow> prefix_IsValid p \<Longrightarrow> prefix_Contains p (prefix_Addr p)"
  by (cases p rule: prefix_valid_cases) auto

lemma prefix_addrs_Masked [simp]: "prefix_wf p \<Longrightarrow> prefix_addrs (prefix_Masked p) = prefix_addrs p"
  by (simp add: prefix_addrs_def)

lemma prefix_Contains_family:
  "prefix_wf p \<Longrightarrow> prefix_Contains p ip \<Longrightarrow> addr_Is4 ip = addr_Is4 (prefix_Addr p)"
proof (cases "prefix_IsValid p")
  case True
  assume wf: "prefix_wf p" and c: "prefix_Contains p ip"
  from wf True show ?thesis using c by (cases p rule: prefix_valid_cases) auto
qed (simp add: prefix_Contains_invalid)

text \<open>A prefix of full length contains its own address only.\<close>

lemma prefix_Contains_host:
  assumes "ip \<noteq> ZeroAddr" and "addr_Zone ip = ''''"
  shows "prefix_Contains (netip_PrefixFrom ip (int (addr_BitLen ip))) a \<longleftrightarrow> a = ip"
proof -
  have "(33 :: nat) = Suc 32" and "(129 :: nat) = Suc 128" by simp_all
  with assms show ?thesis
    by (cases ip) (auto simp: netip_PrefixFrom_def simp del: Suc_numeral)
qed


section \<open>Facts about byte arrays\<close>

lemma length_word_bytes [simp]: "length (word_bytes (w :: 'a::len word)) = LENGTH('a) div 8"
  by (simp add: word_bytes_def)

lemma bytes_word_snoc: "bytes_word (bs @ [b]) = push_bit 8 (bytes_word bs) OR ucast b"
  by (simp add: bytes_word_def)

lemma bit_bytes_word:
  "i < LENGTH('a::len) \<Longrightarrow>
   bit (bytes_word bs :: 'a word) i \<longleftrightarrow> i div 8 < length bs \<and> bit (bs ! (length bs - 1 - i div 8)) (i mod 8)"
proof (induction bs arbitrary: i rule: rev_induct)
  case Nil
  then show ?case by (simp add: bytes_word_def)
next
  case (snoc b bs)
  show ?case
  proof (cases "i < 8")
    case True
    with snoc.prems show ?thesis
      by (simp add: bytes_word_snoc bit_or_iff bit_push_bit_iff bit_ucast_iff nth_append)
  next
    case False
    then have "\<not> bit b i"
      using bit_imp_le_length [of b i] by auto
    moreover have "(i - 8) div 8 = i div 8 - 1" and "(i - 8) mod 8 = i mod 8"
      using False by (simp_all add: le_div_geq le_mod_geq)
    moreover have "0 < i div 8"
      using False by (simp add: div_greater_zero_iff)
    ultimately show ?thesis
      using snoc.prems False snoc.IH [of "i - 8"]
      by (auto simp: bytes_word_snoc bit_or_iff bit_push_bit_iff bit_ucast_iff nth_append less_diff_conv2)
  qed
qed

lemma bit_word_bytes:
  fixes w :: "'a::len word"
  assumes "k < LENGTH('a) div 8" and "j < 8"
  shows "bit (word_bytes w ! (LENGTH('a) div 8 - 1 - k)) j \<longleftrightarrow> bit w (8 * k + j)"
  using assms by (simp add: word_bytes_def rev_nth bit_ucast_iff bit_drop_bit_eq)

lemma bytes_word_word_bytes [simp]:
  fixes w :: "'a::len word"
  assumes "LENGTH('a) mod 8 = 0"
  shows "bytes_word (word_bytes w) = w"
proof (rule bit_word_eqI)
  fix i assume i: "i < LENGTH('a)"
  from assms obtain m where "LENGTH('a) = 8 * m" by auto
  with i have "i div 8 < LENGTH('a) div 8" by auto
  with i show "bit (bytes_word (word_bytes w) :: 'a word) i \<longleftrightarrow> bit w i"
    using bit_word_bytes [of "i div 8" "i mod 8" w] by (simp add: bit_bytes_word)
qed

text \<open>Or-ing a bit into one byte of the array sets one bit of the word.\<close>

lemma bytes_word_or_bit:
  fixes w :: "'a::len word"
  assumes "LENGTH('a) mod 8 = 0" and "n < LENGTH('a)"
  shows "bytes_word ((word_bytes w)[n div 8 := word_bytes w ! (n div 8) OR push_bit (7 - n mod 8) 1]) =
    (w OR push_bit (LENGTH('a) - 1 - n) 1)" (is "bytes_word ?bs = ?rhs")
proof (rule bit_word_eqI)
  fix i assume i: "i < LENGTH('a)"
  let ?L = "LENGTH('a)"
  from assms(1) obtain m where L: "?L = 8 * m" by auto
  with i assms(2) have im: "i div 8 < m" and nm: "n div 8 < m" by auto
  have L8: "?L div 8 = m" using L by simp
  have idx: "m - 1 - i div 8 = n div 8 \<longleftrightarrow> i div 8 = m - 1 - n div 8"
    using im nm by auto
  have "n = 8 * (n div 8) + n mod 8" and "n mod 8 < 8" by simp_all
  then have "?L - 1 - n = 8 * (m - 1 - n div 8) + (7 - n mod 8)"
    using nm L by arith
  moreover have "8 * (m - 1 - n div 8) + (7 - n mod 8) = i \<longleftrightarrow>
      i div 8 = m - 1 - n div 8 \<and> i mod 8 = 7 - n mod 8"
    by (rule mult_add_eq_iff_div_mod) simp
  ultimately have pos: "?L - 1 - n = i \<longleftrightarrow> i div 8 = m - 1 - n div 8 \<and> i mod 8 = 7 - n mod 8"
    by simp
  have "bit (word_bytes w ! (m - 1 - i div 8)) (i mod 8) \<longleftrightarrow> bit w i"
    using bit_word_bytes [of "i div 8" "i mod 8" w] im L8 by simp
  moreover have "bit (bytes_word ?bs :: 'a word) i \<longleftrightarrow> bit (?bs ! (m - 1 - i div 8)) (i mod 8)"
    using i im by (simp add: bit_bytes_word L8)
  moreover have "bit (?bs ! (m - 1 - i div 8)) (i mod 8) \<longleftrightarrow>
      bit (word_bytes w ! (m - 1 - i div 8)) (i mod 8) \<or> ?L - 1 - n = i"
    unfolding pos by (cases "m - 1 - i div 8 = n div 8")
      (use nm L8 idx in \<open>auto simp: bit_or_iff bit_exp_iff\<close>)
  moreover have "bit ?rhs i \<longleftrightarrow> bit w i \<or> ?L - 1 - n = i"
    using i by (auto simp: bit_or_iff bit_exp_iff)
  ultimately show "bit (bytes_word ?bs :: 'a word) i \<longleftrightarrow> bit ?rhs i"
    by simp
qed

end
