(* ===== verification/PrefixRange.thy ===== *)
theory PrefixRange
  imports Netip
begin

text \<open>
  Prefixes as ranges of addresses.  The order of addresses restricted to one family, the last
  address of a prefix, inclusion and overlap of prefixes.  The repository computes the last
  address of a prefix in five places; the locale \<open>last_addr\<close> is what their callers rely on, and
  each implementation is an interpretation of it in the theory of its component.
\<close>

section \<open>Order of addresses\<close>

lemma less_addr_V4 [simp]: "V4 v < V4 w \<longleftrightarrow> v < w"
  by (auto simp: less_addr_def addr_Compare_def word_less_def)

lemma less_addr_V6 [simp]: "V6 v '''' < V6 w '''' \<longleftrightarrow> v < w"
  by (auto simp: less_addr_def addr_Compare_def word_less_def)

lemma less_eq_addr_V4 [simp]: "V4 v \<le> V4 w \<longleftrightarrow> v \<le> w"
  by (auto simp: less_eq_addr_def addr_Compare_def word_le_def)

lemma less_eq_addr_V6 [simp]: "V6 v '''' \<le> V6 w '''' \<longleftrightarrow> v \<le> w"
  by (auto simp: less_eq_addr_def addr_Compare_def word_le_def)

text \<open>Addresses of one family and without a zone.\<close>

fun same_family :: "addr \<Rightarrow> addr \<Rightarrow> bool" where
  "same_family (V4 v) (V4 w) = True"
| "same_family (V6 v y) (V6 w z) = (y = '''' \<and> z = '''')"
| "same_family a b = False"

lemma same_family_trans: "same_family a b \<Longrightarrow> same_family a c \<Longrightarrow> same_family b c"
  by (cases a; cases b; cases c) auto

lemma same_family_Contains:
  "prefix_wf p \<Longrightarrow> prefix_Contains p a \<Longrightarrow> prefix_Contains p b \<Longrightarrow> same_family a b"
  by (metis prefix_Contains_V4 prefix_Contains_V6 prefix_Contains_invalid prefix_valid_cases
      same_family.simps(1,2))

text \<open>A prefix is convex in this order.\<close>

lemma prefix_Contains_convex:
  assumes wf: "prefix_wf p" and a: "prefix_Contains p a" and b: "prefix_Contains p b"
    and c: "same_family a c" "a \<le> c" "c \<le> b"
  shows "prefix_Contains p c"
proof -
  have "prefix_IsValid p" using a prefix_Contains_invalid by blast
  with wf show ?thesis
  proof (cases p rule: prefix_valid_cases)
    case (V4 w n)
    with a b c show ?thesis
      by (cases c) (auto simp: top_match_interval)
  next
    case (V6 w n)
    with a b c show ?thesis
      by (cases c) (auto simp: top_match_interval)
  qed
qed

lemma prefix_Addr_least:
  assumes "prefix_wf p" and "prefix_Contains (prefix_Masked p) x"
  shows "prefix_Addr (prefix_Masked p) \<le> x"
proof -
  have "prefix_IsValid p" using assms prefix_Contains_invalid by fastforce
  with assms(1) show ?thesis
    using assms(2) by (cases p rule: prefix_valid_cases) (auto simp: top_match_interval)
qed


section \<open>Inclusion and overlap\<close>

lemma top_match_subset:
  fixes a b :: "'a::len word"
  assumes "n \<le> LENGTH('a)"
  shows "(\<forall>w. top_match m b w \<longrightarrow> top_match n a w) \<longleftrightarrow> n \<le> m \<and> top_match n a b"
proof
  assume sub: "\<forall>w. top_match m b w \<longrightarrow> top_match n a w"
  then have ab: "top_match n a b" by simp
  moreover have "n \<le> m"
  proof (rule ccontr)
    assume "\<not> n \<le> m"
    then have lt: "LENGTH('a) - n < LENGTH('a) - m" "LENGTH('a) - n < LENGTH('a)" using assms by auto
    let ?w = "b XOR push_bit (LENGTH('a) - n) 1"
    have bit: "bit ?w i \<longleftrightarrow> bit b i \<noteq> (i = LENGTH('a) - n)" for i
      using lt by (auto simp: bit_xor_iff bit_exp_iff)
    then have "top_match m b ?w" using lt by (auto simp: top_match_bits)
    with sub ab have "top_match n b ?w" using top_match_sym top_match_trans by blast
    then have "bit b (LENGTH('a) - n) = bit ?w (LENGTH('a) - n)"
      using lt unfolding top_match_bits by blast
    then show False unfolding bit by blast
  qed
  ultimately show "n \<le> m \<and> top_match n a b" by simp
next
  assume "n \<le> m \<and> top_match n a b"
  then show "\<forall>w. top_match m b w \<longrightarrow> top_match n a w"
    using top_match_mono top_match_trans by blast
qed

theorem prefix_addrs_subset_iff:
  assumes "prefix_wf p" and "prefix_IsValid p" and "prefix_wf q" and "prefix_IsValid q"
  shows "prefix_addrs q \<subseteq> prefix_addrs p \<longleftrightarrow>
    prefix_Bits p \<le> prefix_Bits q \<and> prefix_Contains p (prefix_Addr q)"
  using assms(1,2)
proof (cases p rule: prefix_valid_cases)
  case p: (V4 v n)
  from assms(3,4) show ?thesis
  proof (cases q rule: prefix_valid_cases)
    case (V4 w m)
    with p top_match_subset [of n m w v] show ?thesis by (auto simp: prefix_addrs_def)
  next
    case (V6 w m)
    with p show ?thesis by (auto simp: prefix_addrs_def intro!: exI [of _ w])
  qed
next
  case p: (V6 v n)
  from assms(3,4) show ?thesis
  proof (cases q rule: prefix_valid_cases)
    case (V4 w m)
    with p show ?thesis by (auto simp: prefix_addrs_def intro!: exI [of _ w])
  next
    case (V6 w m)
    with p top_match_subset [of n m w v] show ?thesis by (auto simp: prefix_addrs_def)
  qed
qed

text \<open>Two prefixes overlap only if one of them contains the address of the other.\<close>

lemma top_match_coarser: "top_match n v x \<Longrightarrow> top_match m w x \<Longrightarrow> n \<le> m \<Longrightarrow> top_match n v w"
  using top_match_mono top_match_sym top_match_trans by blast

lemma prefix_Contains_coarser:
  assumes "prefix_wf p" and "prefix_wf q" and "prefix_Contains p x" and "prefix_Contains q x"
    and "prefix_Bits p \<le> prefix_Bits q"
  shows "prefix_Contains p (prefix_Addr q)"
proof -
  have "prefix_IsValid p" and q: "prefix_IsValid q" using assms prefix_Contains_invalid by blast+
  with assms(1) show ?thesis
  proof (cases p rule: prefix_valid_cases)
    case p: (V4 v n)
    from assms(2) q show ?thesis
    proof (cases q rule: prefix_valid_cases)
      case (V4 w m)
      with p assms(3-5) show ?thesis by (auto intro: top_match_coarser)
    next
      case (V6 w m)
      with p assms(3,4) show ?thesis by auto
    qed
  next
    case p: (V6 v n)
    from assms(2) q show ?thesis
    proof (cases q rule: prefix_valid_cases)
      case (V4 w m)
      with p assms(3,4) show ?thesis by auto
    next
      case (V6 w m)
      with p assms(3-5) show ?thesis by (auto intro: top_match_coarser)
    qed
  qed
qed

lemma prefix_overlap_subset:
  assumes "prefix_wf p" and "prefix_wf q" and "prefix_Contains p x" and "prefix_Contains q x"
  shows "prefix_addrs q \<subseteq> prefix_addrs p \<or> prefix_addrs p \<subseteq> prefix_addrs q"
proof -
  have "prefix_IsValid p" "prefix_IsValid q" using assms prefix_Contains_invalid by blast+
  with assms prefix_Contains_coarser show ?thesis
    by (cases "prefix_Bits p \<le> prefix_Bits q") (auto simp: prefix_addrs_subset_iff)
qed


section \<open>The last address\<close>

definition prefix_last :: "prefix \<Rightarrow> addr" where
  "prefix_last p =
     (case prefix_Addr p of
        V4 w \<Rightarrow> V4 (w OR mask (33 - bitsPlusOne p))
      | V6 w z \<Rightarrow> V6 (w OR mask (129 - bitsPlusOne p)) ''''
      | ZeroAddr \<Rightarrow> ZeroAddr)"

lemma prefix_last_greatest:
  assumes "prefix_wf p" and "prefix_IsValid p"
  shows "prefix_Contains p (prefix_last p) \<and> (\<forall>x. prefix_Contains p x \<longrightarrow> x \<le> prefix_last p)"
  using assms
proof (cases p rule: prefix_valid_cases)
  case (V4 w n)
  have "top_match n w (w OR mask (32 - n))"
    by (auto simp: top_match_bits bit_or_iff bit_mask_iff)
  with V4 show ?thesis by (auto simp: prefix_last_def top_match_interval)
next
  case (V6 w n)
  have "top_match n w (w OR mask (128 - n))"
    by (auto simp: top_match_bits bit_or_iff bit_mask_iff)
  with V6 show ?thesis by (auto simp: prefix_last_def top_match_interval)
qed

lemma prefix_last_Masked: "prefix_wf p \<Longrightarrow> prefix_IsValid p \<Longrightarrow> prefix_last (prefix_Masked p) = prefix_last p"
  by (cases p rule: prefix_valid_cases)
    (auto simp: prefix_last_def word_eq_iff_bits bit_or_iff bit_mask_iff bit_and_top_mask)

text \<open>What the callers of a last-address routine rely on: the two tests they make with it.\<close>

locale last_addr =
  fixes last_of :: "prefix \<Rightarrow> addr" and family :: "prefix \<Rightarrow> bool"
  assumes last_of: "prefix_wf p \<Longrightarrow> prefix_IsValid p \<Longrightarrow> family p \<Longrightarrow> last_of p = prefix_last p"
begin

lemma last_of_greatest:
  "prefix_wf p \<Longrightarrow> prefix_IsValid p \<Longrightarrow> family p \<Longrightarrow>
   prefix_Contains p (last_of p) \<and> (\<forall>x. prefix_Contains p x \<longrightarrow> x \<le> last_of p)"
  using last_of prefix_last_greatest by metis

text \<open>Both ends of a masked prefix lie in another one exactly if all of it does.\<close>

lemma both_ends:
  assumes "prefix_wf p" and "prefix_wf q" and "prefix_IsValid q" and "family q"
    and "prefix_Masked q = q"
  shows "prefix_Contains p (prefix_Addr q) \<and> prefix_Contains p (last_of q) \<longleftrightarrow>
    prefix_addrs q \<subseteq> prefix_addrs p"
proof
  assume ends: "prefix_Contains p (prefix_Addr q) \<and> prefix_Contains p (last_of q)"
  show "prefix_addrs q \<subseteq> prefix_addrs p"
  proof
    fix x assume "x \<in> prefix_addrs q"
    then have "prefix_Contains q x" by (simp add: prefix_addrs_def)
    moreover from this have "prefix_Addr q \<le> x"
      using prefix_Addr_least [OF assms(2), of x] assms(5) by simp
    ultimately show "x \<in> prefix_addrs p"
      using ends last_of_greatest [OF assms(2-4)]
        prefix_Contains_convex [OF assms(1), of "prefix_Addr q" "last_of q" x]
        same_family_Contains [OF assms(2) prefix_Contains_own_addr [OF assms(2,3)]]
      by (simp add: prefix_addrs_def)
  qed
next
  assume "prefix_addrs q \<subseteq> prefix_addrs p"
  with last_of_greatest [OF assms(2-4)] prefix_Contains_own_addr [OF assms(2,3)]
  show "prefix_Contains p (prefix_Addr q) \<and> prefix_Contains p (last_of q)"
    by (auto simp: prefix_addrs_def)
qed

text \<open>The test of \<open>prefixContainsPrefix\<close>, which does not mask its arguments, decides inclusion.\<close>

lemma contains_prefix:
  assumes "prefix_wf p" and "prefix_wf q" and "prefix_IsValid q \<Longrightarrow> family q"
  shows "prefix_IsValid p \<and> prefix_IsValid q \<and> addr_Is4 (prefix_Addr p) = addr_Is4 (prefix_Addr q) \<and>
      prefix_Bits p \<le> prefix_Bits q \<and> prefix_Contains p (prefix_Addr q) \<and> prefix_Contains p (last_of q) \<longleftrightarrow>
    prefix_IsValid p \<and> prefix_IsValid q \<and> prefix_addrs q \<subseteq> prefix_addrs p"
proof (cases "prefix_IsValid p \<and> prefix_IsValid q")
  case True
  with last_of_greatest [OF assms(2)] assms(3) have "last_of q \<in> prefix_addrs q"
    by (simp add: prefix_addrs_def)
  with True show ?thesis
    using prefix_addrs_subset_iff [OF assms(1) _ assms(2)] prefix_Contains_family [OF assms(1)]
    by (auto simp: prefix_addrs_def)
qed auto

end


section \<open>Setting the host bits of a byte array\<close>

definition or_bit :: "nat \<Rightarrow> nat \<Rightarrow> u8 list \<Rightarrow> u8 list" where
  "or_bit off n bytes =
     bytes[n div 8 + off := bytes ! (n div 8 + off) OR push_bit (7 - n mod 8) 1]"

lemma word_bytes_bytes_word:
  assumes "LENGTH('a::len) = 8 * length bs"
  shows "word_bytes (bytes_word bs :: 'a word) = bs"
proof (rule nth_equalityI)
  show len: "length (word_bytes (bytes_word bs :: 'a word)) = length bs" using assms by simp
  fix i assume "i < length (word_bytes (bytes_word bs :: 'a word))"
  with len have i: "i < length bs" by simp
  let ?k = "length bs - 1 - i"
  have div: "LENGTH('a) div 8 = length bs" using assms by simp
  show "word_bytes (bytes_word bs :: 'a word) ! i = bs ! i"
  proof (rule bit_eqI)
    fix j assume "possible_bit TYPE(u8) j"
    then have j: "j < 8" by simp
    have "bit (word_bytes (bytes_word bs :: 'a word) ! i) j \<longleftrightarrow> bit (bytes_word bs :: 'a word) (8 * ?k + j)"
      using bit_word_bytes [where 'a = 'a, of ?k j] i j by (simp add: div)
    also have "\<dots> \<longleftrightarrow> bit (bs ! i) j"
      using i j assms by (subst bit_bytes_word) auto
    finally show "bit (word_bytes (bytes_word bs :: 'a word) ! i) j = bit (bs ! i) j" .
  qed
qed

lemma or_bit_word_bytes:
  fixes w :: "'a::len word"
  assumes "LENGTH('a) mod 8 = 0" and "n < LENGTH('a)"
  shows "or_bit 0 n (word_bytes w) = word_bytes (w OR push_bit (LENGTH('a) - 1 - n) 1)"
proof -
  have "LENGTH('a) = 8 * length (or_bit 0 n (word_bytes w))"
    using assms(1) by (auto simp: or_bit_def)
  then have "word_bytes (bytes_word (or_bit 0 n (word_bytes w)) :: 'a word) = or_bit 0 n (word_bytes w)"
    by (rule word_bytes_bytes_word)
  with bytes_word_or_bit [OF assms] show ?thesis by (simp add: or_bit_def)
qed

lemma fold_or_bit_word_bytes:
  fixes w :: "'a::len word"
  assumes "LENGTH('a) mod 8 = 0" and "n \<le> LENGTH('a)"
  shows "fold (or_bit 0) [n..<LENGTH('a)] (word_bytes w) = word_bytes (w OR mask (LENGTH('a) - n))"
  using assms(2)
proof (induction "LENGTH('a) - n" arbitrary: n w)
  case 0
  then show ?case by simp
next
  case (Suc d)
  then have n: "n < LENGTH('a)" and d: "d = LENGTH('a) - Suc n" by auto
  have "(w OR push_bit (LENGTH('a) - 1 - n) 1) OR mask (LENGTH('a) - Suc n) = w OR mask (LENGTH('a) - n)"
    using n by (auto simp: word_eq_iff_bits bit_or_iff bit_mask_iff bit_exp_iff)
  with Suc.hyps(1) [OF d, of "w OR push_bit (LENGTH('a) - 1 - n) 1"] n show ?case
    by (simp add: upt_conv_Cons or_bit_word_bytes [OF assms(1) n])
qed

lemma or_bit_append: "or_bit (length xs) n (xs @ ys) = xs @ or_bit 0 n ys"
  using list_update_append [of xs ys "n div 8 + length xs"] by (simp add: or_bit_def nth_append)

lemma fold_or_bit_append: "fold (or_bit (length xs)) ns (xs @ ys) = xs @ fold (or_bit 0) ns ys"
  by (induction ns arbitrary: ys) (simp_all add: or_bit_append)

text \<open>Masked prefixes of the same length that share an address are equal.\<close>

lemma masked_prefix_unique:
  assumes "prefix_Masked p = p" and "prefix_Masked q = q" and "prefix_Contains p x" and "prefix_Contains q x"
    and "prefix_Bits p = prefix_Bits q"
  shows "p = q"
proof -
  have wf: "prefix_wf p" "prefix_wf q" using assms(1,2) prefix_wf_Masked by metis+
  have "prefix_Addr (prefix_Masked p) = prefix_Addr (prefix_Masked q)"
  proof -
    have "prefix_Contains p (prefix_Addr q)" "prefix_Contains q (prefix_Addr p)"
      using prefix_Contains_coarser [OF wf assms(3,4)] prefix_Contains_coarser [OF wf(2,1) assms(4,3)] assms(5) by simp_all
    then show ?thesis
      using prefix_Addr_least [OF wf(1), of "prefix_Addr q"] prefix_Addr_least [OF wf(2), of "prefix_Addr p"] assms(1,2)
      by simp
  qed
  with assms(1,2,5) show ?thesis
    by (cases p; cases q) (simp add: prefix_Bits_def)
qed

end
