(* ===== verification/Ipam.thy ===== *)
theory Ipam
  imports PrefixRange
begin

text \<open>
  The address allocator of \<open>internal/ipam/allocator.go\<close>: its state, its three operations, and
  the step relation of a sequence of calls. Each operation runs under the allocator's mutex,
  so calls are atomic steps. A Go panic is an outcome of its own.
\<close>

section \<open>State and results\<close>

datatype 'a outcome = Return 'a | Fail error | Panic string

record Allocator =
  alloc_prefix :: prefix
  reserved :: "addr set"
  excluded :: "prefix list"
  allocated :: "string \<rightharpoonup> addr"
  owners :: "addr \<rightharpoonup> string"


section \<open>Last address of a prefix\<close>

fun fill_host_bytes :: "nat \<Rightarrow> int \<Rightarrow> u8 list \<Rightarrow> u8 list" where
  "fill_host_bytes 0 hostBits raw = raw"
| "fill_host_bytes (Suc i) hostBits raw =
     (if hostBits \<le> 0 then raw
      else if 8 \<le> hostBits then fill_host_bytes i (hostBits - 8) (raw[i := 255])
      else fill_host_bytes i 0 (raw[i := raw ! i OR (push_bit (nat hostBits) 1 - 1)]))"

definition ipam_prefixLastAddr :: "prefix \<Rightarrow> addr" where
  "ipam_prefixLastAddr p =
     (let addr = prefix_Addr (prefix_Masked p); bits = prefix_Bits p in
      case addr of
        V4 value \<Rightarrow>
          (let hostBits = 32 - bits;
               value = (if 0 < hostBits then value OR (push_bit (nat hostBits) 1 - 1) else value)
           in addr_AddrFrom4 (word_bytes value))
      | _ \<Rightarrow> addr_AddrFrom16 (fill_host_bytes 16 (128 - bits) (addr_As16 addr)))"

definition ipam_prefixContainsAny :: "prefix list \<Rightarrow> addr \<Rightarrow> bool" where
  "ipam_prefixContainsAny prefixes ip = list_ex (\<lambda>p. prefix_Contains p ip) prefixes"


section \<open>Successor of an address\<close>

definition big_SetBytes :: "u8 list \<Rightarrow> int" where
  "big_SetBytes bs = foldl (\<lambda>acc b. acc * 256 + uint b) 0 bs"

text \<open>\<open>FillBytes\<close> of a 16-byte buffer panics when the number does not fit.\<close>

definition big_FillBytes16 :: "int \<Rightarrow> u8 list option" where
  "big_FillBytes16 n =
     (if n < 2 ^ 128 then Some (word_bytes (word_of_int n :: 128 word)) else None)"

definition addrToBig :: "addr \<Rightarrow> int" where
  "addrToBig a = big_SetBytes (addr_As16 a)"

definition bigToAddr :: "int \<Rightarrow> bool \<Rightarrow> addr option" where
  "bigToAddr n v4 =
     (case big_FillBytes16 n of
        None \<Rightarrow> None
      | Some buf \<Rightarrow>
          (let addr = addr_AddrFrom16 buf in
           if v4 then map_option addr_AddrFrom4 (addr_As4 addr) else Some addr))"

definition nextAddr :: "addr \<Rightarrow> addr option" where
  "nextAddr a = bigToAddr (addrToBig a + 1) (addr_Is4 a)"


section \<open>Construction\<close>

definition new_check_excluded :: "prefix \<Rightarrow> prefix \<Rightarrow> Allocator \<Rightarrow> Allocator result" where
  "new_check_excluded p exclude0 a =
     (let exclude = prefix_Masked exclude0 in
      if \<not> prefix_IsValid exclude then Inl (Errorf ''excluded prefix is invalid'' [])
      else if addr_Is4 (prefix_Addr exclude) \<noteq> addr_Is4 (prefix_Addr p) then
        Inl (Errorf ''excluded prefix %s family must match prefix %s'' [prefix_String exclude, prefix_String p])
      else if \<not> prefix_Contains p (prefix_Addr exclude) \<or>
              \<not> prefix_Contains p (ipam_prefixLastAddr exclude) then
        Inl (Errorf ''excluded prefix %s is outside prefix %s'' [prefix_String exclude, prefix_String p])
      else Inr (a\<lparr>excluded := excluded a @ [exclude]\<rparr>))"

definition new_check_reserved :: "prefix \<Rightarrow> addr \<Rightarrow> Allocator \<Rightarrow> Allocator result" where
  "new_check_reserved p ip a =
     (if \<not> prefix_Contains p ip then
        Inl (Errorf ''reserved ip %s is outside prefix %s'' [addr_String ip, prefix_String p])
      else if ipam_prefixContainsAny (excluded a) ip then
        Inl (Errorf ''reserved ip %s is excluded'' [addr_String ip])
      else Inr (a\<lparr>reserved := insert ip (reserved a)\<rparr>))"

definition NewAllocatorWithExcludedPrefixes :: "prefix \<Rightarrow> prefix list \<Rightarrow> addr list \<Rightarrow> Allocator result" where
  "NewAllocatorWithExcludedPrefixes p excl resv =
     (if \<not> prefix_IsValid p then Inl (Errorf ''prefix is required'' [])
      else
        (let a = \<lparr>alloc_prefix = prefix_Masked p, reserved = {}, excluded = [],
                  allocated = Map.empty, owners = Map.empty\<rparr> in
         case fold_result (new_check_excluded p) excl a of
           Inl e \<Rightarrow> Inl e
         | Inr a' \<Rightarrow> fold_result (new_check_reserved p) resv a'))"

definition NewAllocator :: "prefix \<Rightarrow> addr list \<Rightarrow> Allocator result" where
  "NewAllocator p resv = NewAllocatorWithExcludedPrefixes p [] resv"


section \<open>Operations\<close>

definition isUnavailable :: "Allocator \<Rightarrow> addr \<Rightarrow> bool" where
  "isUnavailable a ip =
     (if ip \<in> reserved a then True
      else if ipam_prefixContainsAny (excluded a) ip then True
      else if owners a ip \<noteq> None then True
      else False)"

definition firstUsable :: "Allocator \<Rightarrow> addr option" where
  "firstUsable a = nextAddr (prefix_Addr (alloc_prefix a))"

lemma uint_push_bit_or_ucast:
  fixes x :: "128 word" and b :: "'b::len word"
  assumes "uint x < 2 ^ (128 - LENGTH('b))" and "LENGTH('b) \<le> 128"
  shows "uint (push_bit LENGTH('b) x OR ucast b) = uint x * 2 ^ LENGTH('b) + uint b"
proof -
  have exp: "(2::int) ^ (128 - LENGTH('b)) * 2 ^ LENGTH('b) = 2 ^ 128"
    using assms(2) by (simp flip: power_add)
  have b: "uint b < 2 ^ LENGTH('b)" by (rule uint_bounded)
  have "push_bit LENGTH('b) x OR ucast b = push_bit LENGTH('b) x + (ucast b :: 128 word)"
    by (rule disjunctive_add [symmetric])
      (auto simp: bit_push_bit_iff bit_ucast_iff dest: bit_imp_le_length)
  moreover have px: "uint x * 2 ^ LENGTH('b) + uint b < 2 ^ 128"
  proof -
    have "(uint x + 1) * 2 ^ LENGTH('b) \<le> 2 ^ (128 - LENGTH('b)) * 2 ^ LENGTH('b)"
      using assms(1) by (intro mult_right_mono) auto
    moreover have "(uint x + 1) * 2 ^ LENGTH('b) = uint x * 2 ^ LENGTH('b) + 2 ^ LENGTH('b)"
      by (simp add: algebra_simps)
    ultimately show ?thesis using exp b by linarith
  qed
  moreover have "uint (push_bit LENGTH('b) x) = uint x * 2 ^ LENGTH('b)"
  proof -
    have "0 \<le> uint b" by simp
    with px have "uint x * 2 ^ LENGTH('b) < 2 ^ 128" by linarith
    then show ?thesis
      unfolding unsigned_push_bit_eq by (simp add: push_bit_eq_mult take_bit_int_eq_self)
  qed
  moreover have "uint (ucast b :: 128 word) = uint b"
    using assms(2) by (simp add: unsigned_ucast_eq bintr_uint)
  ultimately show ?thesis
    by (simp add: uint_word_ariths)
qed

lemma big_SetBytes_word:
  "length bs \<le> 16 \<Longrightarrow> big_SetBytes bs = uint (bytes_word bs :: 128 word) \<and> big_SetBytes bs < 2 ^ (8 * length bs)"
proof (induction bs rule: rev_induct)
  case Nil
  then show ?case by (simp add: big_SetBytes_def bytes_word_def)
next
  case (snoc b bs)
  have step: "big_SetBytes (bs @ [b]) = big_SetBytes bs * 256 + uint b"
    by (simp add: big_SetBytes_def)
  from snoc have eq: "big_SetBytes bs = uint (bytes_word bs :: 128 word)"
    and lt: "big_SetBytes bs < 2 ^ (8 * length bs)" by auto
  have "(2::int) ^ (8 * length bs) \<le> 2 ^ 120"
    using snoc.prems by (intro power_increasing) auto
  with lt eq have "uint (bytes_word bs :: 128 word) < 2 ^ 120" by simp
  then have "uint (bytes_word (bs @ [b]) :: 128 word) = big_SetBytes bs * 256 + uint b"
    using uint_push_bit_or_ucast [of "bytes_word bs" b] eq by (simp add: bytes_word_snoc)
  moreover have "uint b < 256" using uint_bounded [of b] by simp
  ultimately show ?case
    using lt step by (simp add: power_add power_mult)
qed

lemma addrToBig_V6: "addrToBig (V6 w z) = uint w"
  using big_SetBytes_word [of "word_bytes w"] by (simp add: addrToBig_def)

lemma uint_v4_mapped: "uint (v4_mapped w) = 65535 * 2 ^ 32 + uint w"
  using uint_push_bit_or_ucast [of 65535 w] by (simp add: v4_mapped_def)

lemma addrToBig_V4: "addrToBig (V4 w) = 65535 * 2 ^ 32 + uint w"
  using big_SetBytes_word [of "word_bytes (v4_mapped w)"] by (simp add: addrToBig_def uint_v4_mapped)

lemma addrToBig_bounds: "0 \<le> addrToBig a \<and> addrToBig a < 2 ^ 128"
proof -
  have "length (addr_As16 a) = 16" by (cases a) auto
  then show ?thesis
    using big_SetBytes_word [of "addr_As16 a"] by (simp add: addrToBig_def)
qed

lemma word_neq_minus_1_uint:
  fixes w :: "'a::len word"
  shows "w = - 1 \<longleftrightarrow> uint w + 1 = 2 ^ LENGTH('a)"
proof -
  have "uint (- 1 :: 'a word) = 2 ^ LENGTH('a) - 1"
    by (simp add: unsigned_minus_1_eq_mask mask_eq_exp_minus_1)
  then show ?thesis
    by (auto simp: word_uint_eq_iff)
qed

lemma uint_plus_1_word:
  fixes w :: "'a::len word"
  assumes "w \<noteq> - 1"
  shows "uint (w + 1) = uint w + 1"
proof -
  have "uint w + 1 < 2 ^ LENGTH('a)"
    using uint_bounded [of w] assms unfolding word_neq_minus_1_uint by linarith
  then show ?thesis
    by (simp add: uint_word_ariths)
qed

lemma nextAddr_V6: "nextAddr (V6 w z) = (if w = - 1 then None else Some (V6 (w + 1) ''''))"
proof -
  have "word_of_int (uint w + 1) = w + 1"
    by simp
  moreover have "uint w + 1 < 2 ^ 128 \<longleftrightarrow> w \<noteq> - 1"
    using uint_bounded [of w] by (auto simp: word_neq_minus_1_uint)
  ultimately show ?thesis
    by (auto simp: nextAddr_def bigToAddr_def big_FillBytes16_def addrToBig_V6 addr_AddrFrom16_def)
qed

lemma nextAddr_V4: "nextAddr (V4 w) = (if w = - 1 then None else Some (V4 (w + 1)))"
proof -
  let ?n = "65535 * 2 ^ 32 + uint w + 1"
  let ?x = "word_of_int ?n :: 128 word"
  have w: "0 \<le> uint w" "uint w < 2 ^ 32" using uint_bounded [of w] by simp_all
  have n: "uint ?x = ?n"
    unfolding uint_word_of_int using w by simp
  have is4: "drop_bit 32 ?x = 65535 \<longleftrightarrow> w \<noteq> - 1"
  proof -
    have "drop_bit 32 ?x = 65535 \<longleftrightarrow> ?n div 2 ^ 32 = 65535"
      by (simp only: word_uint_eq_iff uint_drop_bit_div n) simp
    also have "\<dots> \<longleftrightarrow> uint w + 1 < 2 ^ 32"
      using w div_mult_self3 [of "2 ^ 32" 65535 "uint w + 1"]
      by (simp only: add.assoc) (auto simp: zdiv_eq_0_iff)
    finally show ?thesis
      using w by (auto simp: word_neq_minus_1_uint)
  qed
  have low: "(ucast ?x :: u32) = w + 1"
  proof -
    have "(ucast ?x :: u32) = word_of_int (uint ?x)" by (rule ucast_eq)
    also have "\<dots> = word_of_int ?n" by (simp only: n)
    finally show ?thesis by simp
  qed
  show ?thesis
    using w is4 low
    by (auto simp: nextAddr_def bigToAddr_def big_FillBytes16_def addrToBig_V4 addr_AddrFrom16_def
        addr_AddrFrom4_def)
qed

lemma addrToBig_ZeroAddr: "addrToBig ZeroAddr = 0"
  by (simp add: addrToBig_def big_SetBytes_def numeral_eq_Suc)

lemma nextAddr_big: "nextAddr ip = Some ip' \<Longrightarrow> addrToBig ip < addrToBig ip'"
proof (cases ip)
  case ZeroAddr
  assume "nextAddr ip = Some ip'"
  with ZeroAddr show ?thesis
    by (auto simp: nextAddr_def bigToAddr_def big_FillBytes16_def addr_AddrFrom16_def addrToBig_V6
        addrToBig_ZeroAddr)
next
  case (V4 w)
  assume "nextAddr ip = Some ip'"
  with V4 show ?thesis
    by (auto simp: nextAddr_V4 addrToBig_V4 uint_plus_1_word split: if_splits)
next
  case (V6 w z)
  assume "nextAddr ip = Some ip'"
  with V6 show ?thesis
    by (auto simp: nextAddr_V6 addrToBig_V6 uint_plus_1_word split: if_splits)
qed

text \<open>
  The loop of \<open>Allocate\<close>. It ends: the successor of an address is larger as a number, and
  there is none above the largest 128-bit number.
\<close>

function allocate_from :: "Allocator \<Rightarrow> addr \<Rightarrow> addr outcome" where
  "allocate_from a ip =
     (if prefix_Contains (alloc_prefix a) ip then
        (if isUnavailable a ip then
           (case nextAddr ip of
              None \<Rightarrow> Panic ''no successor address''
            | Some ip' \<Rightarrow> allocate_from a ip')
         else Return ip)
      else Fail (Errorf ''no available ip in %s'' [prefix_String (alloc_prefix a)]))"
  by pat_completeness auto
termination
proof (relation "measure (\<lambda>(a, ip). nat (2 ^ 128 - addrToBig ip))")
  fix a ip ip'
  assume "nextAddr ip = Some ip'"
  then have "addrToBig ip < addrToBig ip'" by (rule nextAddr_big)
  moreover have "addrToBig ip' < 2 ^ 128" using addrToBig_bounds by blast
  ultimately show "((a, ip'), (a, ip)) \<in> measure (\<lambda>(a, ip). nat (2 ^ 128 - addrToBig ip))"
    by simp
qed simp

declare allocate_from.simps [simp del]

definition Allocate :: "string \<Rightarrow> Allocator \<Rightarrow> (addr \<times> Allocator) outcome" where
  "Allocate owner a =
     (if owner = '''' then Fail (Errorf ''owner is required'' [])
      else case allocated a owner of
        Some ip \<Rightarrow> Return (ip, a)
      | None \<Rightarrow>
          (case firstUsable a of
             None \<Rightarrow> Panic ''no successor address''
           | Some ip0 \<Rightarrow>
               (case allocate_from a ip0 of
                  Return ip \<Rightarrow>
                    Return (ip, a\<lparr>allocated := (allocated a)(owner \<mapsto> ip),
                                  owners := (owners a)(ip \<mapsto> owner)\<rparr>)
                | Fail e \<Rightarrow> Fail e
                | Panic m \<Rightarrow> Panic m)))"

definition Reserve :: "string \<Rightarrow> addr \<Rightarrow> Allocator \<Rightarrow> Allocator result" where
  "Reserve owner ip a =
     (if owner = '''' then Inl (Errorf ''owner is required'' [])
      else if \<not> prefix_Contains (alloc_prefix a) ip then
        Inl (Errorf ''ip %s is outside prefix %s'' [addr_String ip, prefix_String (alloc_prefix a)])
      else if ip \<in> reserved a then Inl (Errorf ''ip %s is reserved'' [addr_String ip])
      else if ipam_prefixContainsAny (excluded a) ip then
        Inl (Errorf ''ip %s is excluded'' [addr_String ip])
      else if owners a ip \<noteq> None \<and> the (owners a ip) \<noteq> owner then
        Inl (Errorf ''ip %s already allocated to %s'' [addr_String ip, the (owners a ip)])
      else if allocated a owner \<noteq> None \<and> the (allocated a owner) \<noteq> ip then
        Inl (Errorf ''owner %s already allocated %s'' [owner, addr_String (the (allocated a owner))])
      else Inr (a\<lparr>allocated := (allocated a)(owner \<mapsto> ip), owners := (owners a)(ip \<mapsto> owner)\<rparr>))"

definition Release :: "string \<Rightarrow> Allocator \<Rightarrow> Allocator" where
  "Release owner a =
     (case allocated a owner of
        None \<Rightarrow> a
      | Some ip \<Rightarrow> a\<lparr>allocated := (allocated a)(owner := None), owners := (owners a)(ip := None)\<rparr>)"

section \<open>The last address of a prefix\<close>

text \<open>The loop over the bytes sets exactly the lowest \<open>hostBits\<close> bits of the array.\<close>

lemma length_fill_host_bytes [simp]: "length (fill_host_bytes i h raw) = length raw"
  by (induction i h raw rule: fill_host_bytes.induct) auto

lemma bit_255_u8: "bit (255 :: u8) t \<longleftrightarrow> t < 8"
proof -
  have "(255 :: u8) = mask 8" by (simp add: mask_eq_exp_minus_1)
  then show ?thesis by (simp only: bit_mask_iff) auto
qed

lemma bit_low_mask: "bit (push_bit n 1 - 1 :: 'a::len word) t \<longleftrightarrow> t < LENGTH('a) \<and> t < n"
proof -
  have "(push_bit n 1 - 1 :: 'a word) = mask n" by (simp add: mask_eq_exp_minus_1)
  then show ?thesis by (simp add: bit_mask_iff)
qed

lemma bit_fill_host_bytes:
  "i \<le> length raw \<Longrightarrow> j < length raw \<Longrightarrow> t < 8 \<Longrightarrow>
   bit (fill_host_bytes i h raw ! j) t \<longleftrightarrow> bit (raw ! j) t \<or> (j < i \<and> int (8 * (i - 1 - j) + t) < h)"
proof (induction i h raw rule: fill_host_bytes.induct)
  case (2 i h raw)
  consider "h \<le> 0" | "8 \<le> h" | "0 < h" "h < 8" by linarith
  then show ?case
  proof cases
    case 1
    then show ?thesis by auto
  next
    case 2
    have "int (8 * (i - 1 - j) + t) < h - 8 \<longleftrightarrow> int (8 * (i - j) + t) < h" if "j < i"
      using that by auto
    moreover have "bit (255 :: u8) t" using "2.prems" bit_255_u8 by blast
    ultimately show ?thesis
      using 2 "2.IH"(1) "2.prems" by (cases "j = i") auto
  next
    case 3
    have "\<not> int (8 * (i - j) + t) < h" if "j < i" using that 3 by auto
    moreover have "bit (push_bit (nat h) 1 - 1 :: u8) t \<longleftrightarrow> int t < h"
      using "2.prems"(3) unfolding bit_low_mask by auto
    ultimately show ?thesis
      using 3 "2.IH"(2) "2.prems" by (cases "j = i") (auto simp: bit_or_iff)
  qed
qed simp

lemma fill_host_bytes_word:
  fixes w :: "128 word"
  shows "bytes_word (fill_host_bytes 16 (int h) (word_bytes w)) = w OR mask h"
proof (rule word_eq_iff_bits [THEN iffD2], intro allI impI)
  fix i assume i: "i < LENGTH(128)"
  let ?j = "15 - i div 8"
  have k: "15 - ?j = i div 8" and lt: "i div 8 < 16" using i by auto
  have "bit (bytes_word (fill_host_bytes 16 (int h) (word_bytes w)) :: 128 word) i \<longleftrightarrow>
      bit (fill_host_bytes 16 (int h) (word_bytes w) ! ?j) (i mod 8)"
    using i lt by (simp add: bit_bytes_word)
  also have "\<dots> \<longleftrightarrow> bit (word_bytes w ! ?j) (i mod 8) \<or> 8 * (i div 8) + i mod 8 < h"
    using k by (subst bit_fill_host_bytes) auto
  also have "bit (word_bytes w ! ?j) (i mod 8) \<longleftrightarrow> bit w i"
    using bit_word_bytes [of "i div 8" "i mod 8" w] lt by simp
  finally show "bit (bytes_word (fill_host_bytes 16 (int h) (word_bytes w)) :: 128 word) i =
      bit (w OR mask h) i"
    using i by (simp add: bit_or_iff bit_mask_iff)
qed

lemma ipam_prefixLastAddr_last:
  assumes "prefix_wf p" and "prefix_IsValid p"
  shows "ipam_prefixLastAddr p = prefix_last p"
  using assms
proof (cases p rule: prefix_valid_cases)
  case (V4 w n)
  have "push_bit m (1::u32) - 1 = mask m" for m by (simp add: mask_eq_exp_minus_1)
  with V4 have "ipam_prefixLastAddr p = V4 ((w AND top_mask n) OR mask (32 - n))"
    by (auto simp: ipam_prefixLastAddr_def addr_AddrFrom4_def nat_diff_distrib simp del: push_bit_of_1)
  with V4 prefix_last_Masked [OF assms] show ?thesis by (simp add: prefix_last_def)
next
  case (V6 w n)
  then have "ipam_prefixLastAddr p = V6 ((w AND top_mask n) OR mask (128 - n)) ''''"
    using fill_host_bytes_word [of "128 - n" "w AND top_mask n"]
    by (simp add: ipam_prefixLastAddr_def addr_AddrFrom16_def)
  with V6 prefix_last_Masked [OF assms] show ?thesis by (simp add: prefix_last_def)
qed

interpretation ipam_last: last_addr ipam_prefixLastAddr "\<lambda>p. True"
  by unfold_locales (simp add: ipam_prefixLastAddr_last)

section \<open>Walking through a prefix\<close>

lemma word_less_plus_1:
  fixes v w :: "'a::len word"
  shows "v \<noteq> - 1 \<Longrightarrow> v < v + 1" and "v \<noteq> - 1 \<Longrightarrow> v < w \<Longrightarrow> v + 1 \<le> w"
  by (auto simp: word_less_def word_le_def uint_plus_1_word)

lemma nextAddr_succ:
  assumes "same_family ip ip" and "nextAddr ip = Some ip'"
  shows "ip < ip' \<and> same_family ip ip' \<and> (\<forall>x. same_family ip x \<and> ip < x \<longrightarrow> ip' \<le> x)"
proof (cases ip)
  case (V4 w)
  then have "x = V4 (case x of V4 v \<Rightarrow> v)" if "same_family ip x" for x
    using that by (cases x) auto
  with V4 assms show ?thesis
    by (auto simp: nextAddr_V4 word_less_plus_1 split: if_splits)
      (metis less_addr_V4 less_eq_addr_V4 word_less_plus_1(2))
next
  case (V6 w z)
  with assms(1) have "x = V6 (case x of V6 v z \<Rightarrow> v) ''''" if "same_family ip x" for x
    using that by (cases x) auto
  with V6 assms show ?thesis
    by (auto simp: nextAddr_V6 word_less_plus_1 split: if_splits)
      (metis less_addr_V6 less_eq_addr_V6 word_less_plus_1(2))
qed (use assms in auto)

lemma nextAddr_None:
  assumes "same_family ip x" and "nextAddr ip = None"
  shows "x \<le> ip"
  using assms
  by (cases ip; cases x) (auto simp: nextAddr_V4 nextAddr_V6 split: if_splits)

section \<open>What the allocation loop finds\<close>

definition usable :: "Allocator \<Rightarrow> addr \<Rightarrow> bool" where
  "usable a ip \<longleftrightarrow>
     prefix_Contains (alloc_prefix a) ip \<and> ip \<noteq> prefix_Addr (alloc_prefix a) \<and> \<not> isUnavailable a ip"

text \<open>The prefix reaches the last address of its family.\<close>

definition ends_at_top :: "prefix \<Rightarrow> bool" where
  "ends_at_top p \<longleftrightarrow> prefix_Contains p (V4 (- 1)) \<or> prefix_Contains p (V6 (- 1) '''')"

lemma allocate_from_spec:
  assumes "same_family ip ip"
  shows "case allocate_from a ip of
      Return ip' \<Rightarrow> prefix_Contains (alloc_prefix a) ip' \<and> \<not> isUnavailable a ip' \<and> same_family ip ip' \<and>
        ip \<le> ip' \<and> (\<forall>x. same_family ip x \<and> ip \<le> x \<and> x < ip' \<longrightarrow> isUnavailable a x)
    | Fail e \<Rightarrow> e = Errorf ''no available ip in %s'' [prefix_String (alloc_prefix a)] \<and>
        (\<exists>stop. same_family ip stop \<and> ip \<le> stop \<and> \<not> prefix_Contains (alloc_prefix a) stop \<and>
          (\<forall>x. same_family ip x \<and> ip \<le> x \<and> x < stop \<longrightarrow> isUnavailable a x))
    | Panic m \<Rightarrow> (\<forall>x. same_family ip x \<and> ip \<le> x \<longrightarrow>
        prefix_Contains (alloc_prefix a) x \<and> isUnavailable a x)"
  using assms
proof (induction a ip rule: allocate_from.induct)
  case (1 a ip)
  note unfold = allocate_from.simps [of a ip]
  show ?case
  proof (cases "prefix_Contains (alloc_prefix a) ip \<and> isUnavailable a ip")
    case False
    with "1.prems" show ?thesis by (auto simp: unfold)
  next
    case True
    show ?thesis
    proof (cases "nextAddr ip")
      case None
      then have top: "x = ip" if "same_family ip x" "ip \<le> x" for x
        using nextAddr_None [of ip x] that by auto
      show ?thesis using True None by (auto simp: unfold dest!: top)
    next
      case (Some ip')
      from nextAddr_succ [OF "1.prems" Some]
      have succ: "ip < ip'" "same_family ip ip'" "\<And>x. same_family ip x \<Longrightarrow> ip < x \<Longrightarrow> ip' \<le> x"
        by auto
      then have ip': "same_family ip' ip'" and fam: "same_family ip' x \<longleftrightarrow> same_family ip x" for x
        using same_family_trans "1.prems" by blast+
      have nxt: "x = ip \<or> ip' \<le> x" if "same_family ip x" "ip \<le> x" for x
        using succ that by force
      have rec: "allocate_from a ip = allocate_from a ip'"
        using True Some by (simp add: unfold)
      have le: "ip \<le> x" if "ip' \<le> x" for x using succ(1) that by simp
      note IH = "1.IH" [OF _ _ Some ip', unfolded fam]
      show ?thesis
      proof (cases "allocate_from a ip'")
        case (Return r)
        with IH True show ?thesis unfolding rec by (auto intro: le dest: nxt)
      next
        case (Fail e)
        with IH True obtain stop where
          "same_family ip stop" "ip' \<le> stop" "\<not> prefix_Contains (alloc_prefix a) stop"
          "\<forall>x. same_family ip x \<and> ip' \<le> x \<and> x < stop \<longrightarrow> isUnavailable a x"
          by auto
        with True have "same_family ip stop \<and> ip \<le> stop \<and> \<not> prefix_Contains (alloc_prefix a) stop \<and>
          (\<forall>x. same_family ip x \<and> ip \<le> x \<and> x < stop \<longrightarrow> isUnavailable a x)"
          by (auto intro: le dest: nxt)
        with Fail IH True show ?thesis unfolding rec by auto
      next
        case (Panic m)
        with IH True show ?thesis unfolding rec by (auto dest: nxt)
      qed
    qed
  qed
qed

section \<open>Invariant\<close>

text \<open>
  The two maps are inverse to each other, every held address lies in the prefix and is
  neither reserved nor excluded, and no address is held for the empty owner.
\<close>

definition ipam_inv :: "Allocator \<Rightarrow> bool" where
  "ipam_inv a \<longleftrightarrow>
     prefix_wf (alloc_prefix a) \<and> prefix_IsValid (alloc_prefix a) \<and>
     prefix_Masked (alloc_prefix a) = alloc_prefix a \<and>
     allocated a '''' = None \<and>
     (\<forall>owner ip. allocated a owner = Some ip \<longleftrightarrow> owners a ip = Some owner) \<and>
     (\<forall>owner ip. allocated a owner = Some ip \<longrightarrow>
        prefix_Contains (alloc_prefix a) ip \<and> ip \<notin> reserved a \<and>
        \<not> ipam_prefixContainsAny (excluded a) ip)"

lemma ipam_invD:
  assumes "ipam_inv a"
  shows "prefix_wf (alloc_prefix a)" and "prefix_IsValid (alloc_prefix a)"
    and "prefix_Masked (alloc_prefix a) = alloc_prefix a" and "allocated a '''' = None"
    and "allocated a owner = Some ip \<longleftrightarrow> owners a ip = Some owner"
    and "allocated a owner = Some ip \<Longrightarrow> prefix_Contains (alloc_prefix a) ip \<and> ip \<notin> reserved a \<and>
      \<not> ipam_prefixContainsAny (excluded a) ip"
  using assms by (auto simp: ipam_inv_def)

text \<open>Recording a free address for an owner without one, or repeating a pair, keeps the invariant.\<close>

lemma ipam_inv_assign:
  assumes "ipam_inv a" and "owner \<noteq> ''''"
    and "prefix_Contains (alloc_prefix a) ip" and "ip \<notin> reserved a"
    and "\<not> ipam_prefixContainsAny (excluded a) ip"
    and "owners a ip = None \<or> owners a ip = Some owner"
    and "allocated a owner = None \<or> allocated a owner = Some ip"
  shows "ipam_inv (a\<lparr>allocated := (allocated a)(owner \<mapsto> ip), owners := (owners a)(ip \<mapsto> owner)\<rparr>)"
proof -
  note inv = ipam_invD [OF assms(1)]
  have "allocated a o' = Some ip' \<Longrightarrow> ip' \<noteq> ip \<or> o' = owner" for o' ip'
    using assms(6) inv(5) by (metis option.distinct(1) option.inject)
  moreover have "owners a ip' = Some o' \<Longrightarrow> o' \<noteq> owner \<or> ip' = ip" for o' ip'
    using assms(7) inv(5) by (metis option.distinct(1) option.inject)
  ultimately show ?thesis
    using assms inv by (auto simp: ipam_inv_def)
qed

lemma ipam_inv_Release:
  assumes "ipam_inv a"
  shows "ipam_inv (Release owner a)"
proof (cases "allocated a owner")
  case None
  with assms show ?thesis by (simp add: Release_def)
next
  case (Some ip)
  note inv = ipam_invD [OF assms]
  have rel: "Release owner a =
      a\<lparr>allocated := (allocated a)(owner := None), owners := (owners a)(ip := None)\<rparr>"
    using Some by (simp add: Release_def)
  have "((allocated a)(owner := None)) o' = Some x \<longleftrightarrow> ((owners a)(ip := None)) x = Some o'" for o' x
    using inv(5) [of o' x] inv(5) [of owner x] inv(5) [of o' ip] inv(5) [of owner ip] Some by auto
  moreover have "prefix_Contains (alloc_prefix a) x \<and> x \<notin> reserved a \<and> \<not> ipam_prefixContainsAny (excluded a) x"
    if "((allocated a)(owner := None)) o' = Some x" for o' x
    using that inv(6) [of o' x] by (simp split: if_splits)
  moreover have "((allocated a)(owner := None)) '''' = None"
    using inv(4) by simp
  ultimately show ?thesis
    using inv(1-3) unfolding ipam_inv_def rel by (simp del: fun_upd_apply)
qed

lemma ipam_inv_Reserve: "ipam_inv a \<Longrightarrow> Reserve owner ip a = Inr a' \<Longrightarrow> ipam_inv a'"
  by (cases "owners a ip"; cases "allocated a owner") (auto simp: Reserve_def split: if_splits intro!: ipam_inv_assign)

lemma same_family_firstUsable:
  assumes "ipam_inv a"
  shows "same_family (prefix_Addr (alloc_prefix a)) (prefix_Addr (alloc_prefix a))"
  using ipam_invD [OF assms] same_family_Contains prefix_Contains_own_addr by blast

lemma ipam_inv_Allocate: 
  assumes "ipam_inv a" and "Allocate owner a = Return (ip, a')"
  shows "ipam_inv a'"
proof (cases "allocated a owner")
  case (Some held)
  with assms show ?thesis by (auto simp: Allocate_def split: if_splits)
next
  case None
  with assms(2) obtain ip0 where owner: "owner \<noteq> ''''" and ip0: "firstUsable a = Some ip0"
    and ip: "allocate_from a ip0 = Return ip"
    and a': "a' = a\<lparr>allocated := (allocated a)(owner \<mapsto> ip), owners := (owners a)(ip \<mapsto> owner)\<rparr>"
    by (auto simp: Allocate_def split: if_splits option.splits outcome.splits)
  from nextAddr_succ [OF same_family_firstUsable [OF assms(1)] ip0 [unfolded firstUsable_def]]
  have "same_family ip0 ip0" using same_family_trans by blast
  from allocate_from_spec [OF this, of a] ip
  have "prefix_Contains (alloc_prefix a) ip" and "\<not> isUnavailable a ip" by auto
  with assms(1) owner None show ?thesis
    unfolding a' by (intro ipam_inv_assign) (auto simp: isUnavailable_def split: if_splits)
qed

text \<open>A new allocator satisfies the invariant, whatever is excluded and reserved.\<close>

lemma ipam_inv_NewAllocator:
  assumes "prefix_wf p" and "NewAllocatorWithExcludedPrefixes p excl resv = Inr a"
  shows "ipam_inv a \<and> allocated a = Map.empty"
proof -
  let ?I = "\<lambda>a. alloc_prefix a = prefix_Masked p \<and> allocated a = Map.empty \<and> owners a = Map.empty"
  from assms(2) obtain a0 a1 where p: "prefix_IsValid p"
    and a0: "a0 = \<lparr>alloc_prefix = prefix_Masked p, reserved = {}, excluded = [],
                  allocated = Map.empty, owners = Map.empty\<rparr>"
    and a1: "fold_result (new_check_excluded p) excl a0 = Inr a1"
    and a: "fold_result (new_check_reserved p) resv a1 = Inr a"
    by (auto simp: NewAllocatorWithExcludedPrefixes_def Let_def split: if_splits sum.splits)
  from a1 have "?I a1"
    by (rule fold_result_invariant) (auto simp: a0 new_check_excluded_def Let_def split: if_splits)
  with a have "?I a"
    by (rule fold_result_invariant) (auto simp: new_check_reserved_def split: if_splits)
  with assms(1) p show ?thesis
    by (simp add: ipam_inv_def)
qed

section \<open>Sequences of calls\<close>

inductive ipam_step :: "Allocator \<Rightarrow> Allocator \<Rightarrow> bool" where
  allocate: "Allocate owner a = Return (ip, a') \<Longrightarrow> ipam_step a a'"
| reserve: "Reserve owner ip a = Inr a' \<Longrightarrow> ipam_step a a'"
| release: "ipam_step a (Release owner a)"

inductive ipam_reachable :: "prefix \<Rightarrow> prefix list \<Rightarrow> addr list \<Rightarrow> Allocator \<Rightarrow> bool" where
  new: "NewAllocatorWithExcludedPrefixes p excl resv = Inr a \<Longrightarrow> ipam_reachable p excl resv a"
| step: "ipam_reachable p excl resv a \<Longrightarrow> ipam_step a a' \<Longrightarrow> ipam_reachable p excl resv a'"

inductive_cases ipam_stepE: "ipam_step a a'"

lemma ipam_step_inv: "ipam_step a a' \<Longrightarrow> ipam_inv a \<Longrightarrow> ipam_inv a'"
  by (auto elim!: ipam_stepE intro: ipam_inv_Allocate ipam_inv_Reserve ipam_inv_Release)

text \<open>No call changes what the allocator was configured with.\<close>

lemma ipam_step_config:
  "ipam_step a a' \<Longrightarrow>
   alloc_prefix a' = alloc_prefix a \<and> reserved a' = reserved a \<and> excluded a' = excluded a"
  by (auto elim!: ipam_stepE simp: Allocate_def Reserve_def Release_def
      split: if_splits option.splits outcome.splits)

lemma new_check_excluded_fold:
  "fold_result (new_check_excluded p) excl a = Inr a' \<Longrightarrow>
   alloc_prefix a' = alloc_prefix a \<and> reserved a' = reserved a \<and>
   excluded a' = excluded a @ map prefix_Masked excl"
  by (induction excl arbitrary: a)
    (fastforce simp: new_check_excluded_def Let_def split: if_splits sum.splits)+

lemma new_check_reserved_fold:
  "fold_result (new_check_reserved p) resv a = Inr a' \<Longrightarrow>
   alloc_prefix a' = alloc_prefix a \<and> excluded a' = excluded a \<and> reserved a' = reserved a \<union> set resv"
  by (induction resv arbitrary: a)
    (fastforce simp: new_check_reserved_def split: if_splits sum.splits)+

lemma NewAllocator_config:
  assumes "NewAllocatorWithExcludedPrefixes p excl resv = Inr a"
  shows "alloc_prefix a = prefix_Masked p \<and> reserved a = set resv \<and> excluded a = map prefix_Masked excl"
  using assms
  by (auto simp: NewAllocatorWithExcludedPrefixes_def Let_def split: if_splits sum.splits
      dest!: new_check_excluded_fold new_check_reserved_fold)

lemma ipam_reachable_inv: 
  assumes "ipam_reachable p excl resv a" and "prefix_wf p"
  shows "ipam_inv a \<and> alloc_prefix a = prefix_Masked p \<and> reserved a = set resv \<and>
    excluded a = map prefix_Masked excl"
  using assms
proof (induction rule: ipam_reachable.induct)
  case (new p excl resv a)
  then show ?case
    using ipam_inv_NewAllocator NewAllocator_config by blast
next
  case (step p excl resv a a')
  then show ?case
    using ipam_step_inv ipam_step_config by metis
qed

lemma prefixContainsAny_Masked:
  "\<forall>e \<in> set excl. prefix_wf e \<Longrightarrow>
   ipam_prefixContainsAny (map prefix_Masked excl) ip \<longleftrightarrow> (\<exists>e \<in> set excl. prefix_Contains e ip)"
  by (auto simp: ipam_prefixContainsAny_def list_ex_iff)

lemma usable_above_base:
  assumes "ipam_inv a" and "usable a x"
  shows "same_family (prefix_Addr (alloc_prefix a)) x \<and> prefix_Addr (alloc_prefix a) < x"
proof -
  note inv = ipam_invD(1-3) [OF assms(1)]
  have "prefix_Addr (alloc_prefix a) \<le> x"
    using prefix_Addr_least [OF inv(1), of x] assms(2) inv(3) by (simp add: usable_def)
  then show ?thesis
    using same_family_Contains [OF inv(1) prefix_Contains_own_addr [OF inv(1,2)]] assms(2)
    by (auto simp: usable_def)
qed

lemma firstUsable_Some:
  assumes "ipam_inv a" and "firstUsable a = Some ip0"
  shows "same_family (prefix_Addr (alloc_prefix a)) ip0" and "same_family ip0 ip0"
    and "prefix_Addr (alloc_prefix a) < ip0"
    and "usable a x \<Longrightarrow> same_family ip0 x \<and> ip0 \<le> x"
proof -
  note succ = nextAddr_succ [OF same_family_firstUsable [OF assms(1)] assms(2) [unfolded firstUsable_def]]
  show *: "same_family (prefix_Addr (alloc_prefix a)) ip0" using succ by blast
  then show "same_family ip0 ip0" by (rule same_family_trans) (rule *)
  show "prefix_Addr (alloc_prefix a) < ip0" using succ by blast
  show "same_family ip0 x \<and> ip0 \<le> x" if "usable a x"
    using usable_above_base [OF assms(1) that] same_family_trans [OF *] succ by blast
qed

lemma ends_at_topI:
  assumes "same_family ip ip" and "\<And>x. same_family ip x \<Longrightarrow> ip \<le> x \<Longrightarrow> prefix_Contains p x"
  shows "ends_at_top p"
proof (cases ip)
  case (V4 w)
  then show ?thesis using assms(2) [of "V4 (- 1)"] by (simp add: ends_at_top_def)
next
  case (V6 w z)
  then show ?thesis using assms by (auto simp: ends_at_top_def)
qed (use assms(1) in simp)

lemma firstUsable_None:
  assumes "ipam_inv a" and "firstUsable a = None"
  shows "\<not> usable a x" and "ends_at_top (alloc_prefix a)"
proof -
  let ?base = "prefix_Addr (alloc_prefix a)"
  have top: "x \<le> ?base" if "same_family ?base x" for x
    using nextAddr_None [OF that] assms(2) by (simp add: firstUsable_def)
  show "\<not> usable a x"
    using usable_above_base [OF assms(1), of x] top [of x] by force
  show "ends_at_top (alloc_prefix a)"
    using same_family_firstUsable [OF assms(1)]
  proof (rule ends_at_topI)
    fix x assume "same_family ?base x" and "?base \<le> x"
    with top have "x = ?base" by force
    then show "prefix_Contains (alloc_prefix a) x"
      using ipam_invD(1,2) [OF assms(1)] by simp
  qed
qed

text \<open>Every address of the prefix lies below an address of its family above it.\<close>

lemma stop_above:
  assumes "ipam_inv a" and "firstUsable a = Some ip0"
    and "same_family ip0 stop" and "ip0 \<le> stop" and "\<not> prefix_Contains (alloc_prefix a) stop"
    and "prefix_Contains (alloc_prefix a) x"
  shows "x < stop"
proof (rule ccontr)
  assume "\<not> x < stop"
  then have "stop \<le> x" by simp
  moreover have "same_family (prefix_Addr (alloc_prefix a)) stop"
    using firstUsable_Some(1) [OF assms(1,2)] assms(3)
    by (cases ip0; cases stop; cases "prefix_Addr (alloc_prefix a)") auto
  moreover have "prefix_Addr (alloc_prefix a) \<le> stop"
    using firstUsable_Some(3) [OF assms(1,2)] assms(4) by simp
  ultimately show False
    using prefix_Contains_convex [of "alloc_prefix a" "prefix_Addr (alloc_prefix a)" x stop]
      ipam_invD(1,2) [OF assms(1)] assms(5,6) by simp
qed

lemma stop_above_usable:
  assumes "ipam_inv a" and "firstUsable a = Some ip0"
    and "same_family ip0 stop" and "ip0 \<le> stop" and "\<not> prefix_Contains (alloc_prefix a) stop"
    and "usable a x"
  shows "x < stop"
  using stop_above [OF assms(1-5)] assms(6) by (simp add: usable_def)

lemma stop_below_top:
  assumes "ipam_inv a" and "firstUsable a = Some ip0"
    and "same_family ip0 stop" and "ip0 \<le> stop" and "\<not> prefix_Contains (alloc_prefix a) stop"
  shows "\<not> ends_at_top (alloc_prefix a)"
proof
  assume "ends_at_top (alloc_prefix a)"
  then obtain top where top: "prefix_Contains (alloc_prefix a) top" "top = V4 (- 1) \<or> top = V6 (- 1) ''''"
    by (auto simp: ends_at_top_def)
  then have "same_family (prefix_Addr (alloc_prefix a)) top"
    using same_family_Contains prefix_Contains_own_addr ipam_invD(1,2) [OF assms(1)] by blast
  with firstUsable_Some(1) [OF assms(1,2)] assms(3) top(2) have "stop \<le> top"
    by (cases ip0; cases stop; cases "prefix_Addr (alloc_prefix a)") auto
  with stop_above [OF assms(1-5) top(1)] show False by simp
qed

text \<open>When the checks of the constructor pass.\<close>

lemma new_check_excluded_accepts:
  assumes "prefix_wf p" and "prefix_IsValid p" and "prefix_wf e"
  shows "(\<exists>a'. new_check_excluded p e a = Inr a') \<longleftrightarrow> prefix_IsValid e \<and> prefix_addrs e \<subseteq> prefix_addrs p"
proof (cases "prefix_IsValid e")
  case True
  have ends: "prefix_Contains p (prefix_Addr (prefix_Masked e)) \<and>
      prefix_Contains p (ipam_prefixLastAddr (prefix_Masked e)) \<longleftrightarrow> prefix_addrs e \<subseteq> prefix_addrs p"
    using ipam_last.both_ends [of p "prefix_Masked e"] assms True by simp
  moreover have "addr_Is4 (prefix_Addr (prefix_Masked e)) = addr_Is4 (prefix_Addr p)"
    if "prefix_Contains p (prefix_Addr (prefix_Masked e))"
    using prefix_Contains_family [OF assms(1) that] .
  ultimately show ?thesis
    using True assms(3) by (auto simp: new_check_excluded_def Let_def)
qed (use assms(3) in \<open>simp add: new_check_excluded_def\<close>)

lemma new_check_excluded_folds:
  assumes "prefix_wf p" and "prefix_IsValid p" and "\<forall>e \<in> set excl. prefix_wf e"
  shows "(\<exists>a'. fold_result (new_check_excluded p) excl a = Inr a') \<longleftrightarrow>
    (\<forall>e \<in> set excl. prefix_IsValid e \<and> prefix_addrs e \<subseteq> prefix_addrs p)"
  by (rule fold_result_accepts [where J = "\<lambda>_. True"])
    (use assms new_check_excluded_accepts in auto)

lemma new_check_reserved_folds:
  "(\<exists>a'. fold_result (new_check_reserved p) resv a = Inr a') \<longleftrightarrow>
   (\<forall>ip \<in> set resv. prefix_Contains p ip \<and> \<not> ipam_prefixContainsAny (excluded a) ip)"
  by (rule fold_result_accepts [where J = "\<lambda>s. excluded s = excluded a"])
    (auto simp: new_check_reserved_def split: if_splits)



section \<open>Properties\<close>

text \<open>
  C3. In every state reached by any sequence of \<open>Allocate\<close>, \<open>Reserve\<close> and \<open>Release\<close> calls on a
  new allocator, an address held by an owner lies in the allocator's prefix, is not one of the
  reserved addresses, lies in no excluded prefix, and is held by no other owner.
\<close>

theorem ipam_no_double_allocation:
  assumes "prefix_wf p" and "\<forall>e \<in> set excl. prefix_wf e"
    and "ipam_reachable p excl resv a"
    and "allocated a owner = Some ip"
  shows "prefix_Contains p ip \<and> ip \<notin> set resv \<and> (\<forall>e \<in> set excl. \<not> prefix_Contains e ip) \<and>
    owners a ip = Some owner \<and> (\<forall>owner'. allocated a owner' = Some ip \<longrightarrow> owner' = owner)"
proof -
  from ipam_reachable_inv [OF assms(3,1)]
  have inv: "ipam_inv a" and cfg: "alloc_prefix a = prefix_Masked p" "reserved a = set resv"
    "excluded a = map prefix_Masked excl" by auto
  from ipam_invD(5) [OF inv] assms(4) have "owners a ip = Some owner" by blast
  moreover have "owner' = owner" if "allocated a owner' = Some ip" for owner'
    using that assms(4) ipam_invD(5) [OF inv] by (metis option.inject)
  ultimately show ?thesis
    using ipam_invD(6) [OF inv assms(4)] assms(1,2) by (auto simp: cfg prefixContainsAny_Masked)
qed

theorem ipam_no_double_allocation_witness:
  "\<exists>a. ipam_reachable (Prefix (V4 0x0A000000) 31) [] [V4 0x0A000001] a \<and>
    allocated a ''vm'' = Some (V4 0x0A000002) \<and> owners a (V4 0x0A000002) = Some ''vm''"
proof -
  let ?p = "Prefix (V4 0x0A000000) 31" and ?r = "[V4 0x0A000001]"
  have *: "case NewAllocatorWithExcludedPrefixes ?p [] ?r of
      Inr a \<Rightarrow> (case Allocate ''vm'' a of
        Return (ip, a') \<Rightarrow> allocated a' ''vm'' = Some (V4 0x0A000002) | _ \<Rightarrow> False)
    | Inl e \<Rightarrow> False"
    by code_simp
  then obtain a where a: "NewAllocatorWithExcludedPrefixes ?p [] ?r = Inr a"
    by (cases "NewAllocatorWithExcludedPrefixes ?p [] ?r") simp_all
  with * obtain r where r: "Allocate ''vm'' a = Return r"
    and held: "allocated (snd r) ''vm'' = Some (V4 0x0A000002)"
    by (cases "Allocate ''vm'' a") auto
  have reach: "ipam_reachable ?p [] ?r (snd r)"
    by (rule ipam_reachable.step [OF ipam_reachable.new [OF a]],
        rule ipam_step.allocate [of "''vm''" _ "fst r"]) (simp add: r)
  have "owners (snd r) (V4 0x0A000002) = Some ''vm''"
    using ipam_no_double_allocation [OF _ _ reach held] by simp
  with reach held show ?thesis by blast
qed

text \<open>
  C17. For an owner that holds nothing, \<open>Allocate\<close> ends in one of three ways: it records and
  returns the lowest usable address (in the prefix, above the network address, not reserved,
  excluded or held); or it reports an error, and then no usable address exists and the prefix
  ends below the last address of its family; or it panics, and then no usable address exists
  and the prefix reaches the last address of its family.
\<close>

theorem Allocate_lowest_usable:
  assumes "ipam_inv a" and "owner \<noteq> ''''" and "allocated a owner = None"
  shows "case Allocate owner a of
      Return (ip, a') \<Rightarrow> usable a ip \<and> (\<forall>x. usable a x \<longrightarrow> ip \<le> x) \<and>
        a' = a\<lparr>allocated := (allocated a)(owner \<mapsto> ip), owners := (owners a)(ip \<mapsto> owner)\<rparr>
    | Fail e \<Rightarrow> (\<forall>x. \<not> usable a x) \<and> \<not> ends_at_top (alloc_prefix a) \<and>
        e = Errorf ''no available ip in %s'' [prefix_String (alloc_prefix a)]
    | Panic m \<Rightarrow> (\<forall>x. \<not> usable a x) \<and> ends_at_top (alloc_prefix a)"
proof (cases "firstUsable a")
  case None
  with assms firstUsable_None [OF assms(1) None] show ?thesis
    by (simp add: Allocate_def)
next
  case (Some ip0)
  note first = firstUsable_Some [OF assms(1) Some]
  have alloc: "Allocate owner a = (case allocate_from a ip0 of
      Return ip \<Rightarrow> Return (ip, a\<lparr>allocated := (allocated a)(owner \<mapsto> ip), owners := (owners a)(ip \<mapsto> owner)\<rparr>)
    | Fail e \<Rightarrow> Fail e | Panic m \<Rightarrow> Panic m)"
    using Some assms by (simp add: Allocate_def)
  note spec = allocate_from_spec [OF first(2), of a]
  show ?thesis
  proof (cases "allocate_from a ip0")
    case (Return ip)
    with spec have "usable a ip"
      using first(3) by (auto simp: usable_def)
    moreover have "ip \<le> x" if "usable a x" for x
    proof (rule ccontr)
      assume "\<not> ip \<le> x"
      with spec Return first(4) [OF that] have "isUnavailable a x" by simp
      with that show False by (simp add: usable_def)
    qed
    ultimately show ?thesis using Return by (simp add: alloc)
  next
    case (Fail e)
    with spec obtain stop where "same_family ip0 stop" "ip0 \<le> stop"
      "\<not> prefix_Contains (alloc_prefix a) stop"
      and below: "\<forall>x. same_family ip0 x \<and> ip0 \<le> x \<and> x < stop \<longrightarrow> isUnavailable a x" by auto
    then have "\<not> ends_at_top (alloc_prefix a)" and "\<not> usable a x" for x
      using stop_below_top [OF assms(1) Some] stop_above_usable [OF assms(1) Some] first(4) below
      unfolding usable_def by blast+
    with spec Fail show ?thesis by (simp add: alloc)
  next
    case (Panic m)
    with spec have all: "same_family ip0 x \<Longrightarrow> ip0 \<le> x \<Longrightarrow>
      prefix_Contains (alloc_prefix a) x \<and> isUnavailable a x" for x by simp
    then have "ends_at_top (alloc_prefix a)" by (intro ends_at_topI [OF first(2)]) blast
    moreover have "\<not> usable a x" for x
      using first(4) all unfolding usable_def by blast
    ultimately show ?thesis using Panic by (simp add: alloc)
  qed
qed

definition ipam_example :: Allocator where
  "ipam_example = \<lparr>alloc_prefix = Prefix (V4 0x0A000000) 31, reserved = {V4 0x0A000001}, excluded = [],
     allocated = Map.empty, owners = Map.empty\<rparr>"

lemma ipam_inv_example: "ipam_inv ipam_example"
proof -
  have "prefix_wf (alloc_prefix ipam_example) \<and> prefix_IsValid (alloc_prefix ipam_example) \<and>
    prefix_Masked (alloc_prefix ipam_example) = alloc_prefix ipam_example" by code_simp
  then show ?thesis by (simp add: ipam_inv_def) (simp add: ipam_example_def)
qed

lemma ipam_example_Allocate:
  "(case Allocate ''vm'' ipam_example of Return (ip, a') \<Rightarrow> ip = V4 0x0A000002 | _ \<Rightarrow> False)"
  by code_simp

theorem Allocate_lowest_usable_witness:
  "ipam_inv ipam_example \<and> usable ipam_example (V4 0x0A000002) \<and> \<not> usable ipam_example (V4 0x0A000001)"
  using Allocate_lowest_usable [of ipam_example "''vm''"] ipam_inv_example ipam_example_Allocate
  by (auto simp: ipam_example_def split: outcome.splits)

text \<open>
  C32. Reserving an address for an owner that holds none makes it that owner's: \<open>Allocate\<close> then
  returns it and changes nothing, a second owner is refused it, and \<open>Release\<close> restores the
  allocator exactly.
\<close>

theorem Reserve_Allocate_Release:
  assumes "ipam_inv a" and "allocated a owner = None" and "Reserve owner ip a = Inr a'"
  shows "Allocate owner a' = Return (ip, a') \<and> Release owner a' = a \<and>
    (other \<noteq> owner \<longrightarrow> (\<exists>e. Reserve other ip a' = Inl e))"
proof -
  have "owners a ip = None"
  proof (cases "owners a ip")
    case (Some o')
    with assms(3) have "o' = owner" by (simp add: Reserve_def split: if_splits)
    with Some ipam_invD(5) [OF assms(1), of owner ip] assms(2) show ?thesis by simp
  qed simp
  with assms(2,3) show ?thesis
    by (auto simp: Reserve_def Allocate_def Release_def fun_upd_idem split: if_splits)
qed

theorem Reserve_Allocate_Release_witness:
  "\<exists>a'. Reserve ''vm'' (V4 0x0A000003) ipam_example = Inr a' \<and> Release ''vm'' a' = ipam_example \<and>
    (\<exists>e. Reserve ''db'' (V4 0x0A000003) a' = Inl e)"
proof -
  have "\<exists>a'. Reserve ''vm'' (V4 0x0A000003) ipam_example = Inr a'"
  proof -
    have "prefix_Contains (alloc_prefix ipam_example) (V4 0x0A000003) \<and> V4 0x0A000003 \<notin> reserved ipam_example"
      by code_simp
    then show ?thesis
      by (simp add: Reserve_def) (simp add: ipam_example_def ipam_prefixContainsAny_def)
  qed
  with ipam_inv_example show ?thesis
    using Reserve_Allocate_Release [of ipam_example "''vm''" "V4 0x0A000003" _ "''db''"]
    by (fastforce simp: ipam_example_def)
qed

text \<open>
  A new allocator is accepted exactly if the prefix is valid, every excluded prefix is valid
  and lies in it, and every reserved address lies in it and in no excluded prefix.
\<close>

theorem NewAllocator_accepts_iff:
  assumes "prefix_wf p" and "\<forall>e \<in> set excl. prefix_wf e"
  shows "(\<exists>a. NewAllocatorWithExcludedPrefixes p excl resv = Inr a) \<longleftrightarrow>
    prefix_IsValid p \<and>
    (\<forall>e \<in> set excl. prefix_IsValid e \<and> prefix_addrs e \<subseteq> prefix_addrs p) \<and>
    (\<forall>ip \<in> set resv. prefix_Contains p ip \<and> (\<forall>e \<in> set excl. \<not> prefix_Contains e ip))"
proof (cases "prefix_IsValid p")
  case True
  let ?a = "\<lparr>alloc_prefix = prefix_Masked p, reserved = {}, excluded = [],
    allocated = Map.empty, owners = Map.empty\<rparr>"
  note excl = new_check_excluded_folds [OF assms(1) True assms(2), of ?a]
  note any = prefixContainsAny_Masked [OF assms(2)]
  show ?thesis
  proof (cases "fold_result (new_check_excluded p) excl ?a")
    case (Inl e)
    with excl True show ?thesis
      by (auto simp: NewAllocatorWithExcludedPrefixes_def)
  next
    case (Inr a)
    with excl True new_check_reserved_folds [of p resv a] new_check_excluded_fold [OF Inr] show ?thesis
      by (simp add: NewAllocatorWithExcludedPrefixes_def any)
  qed
qed (simp add: NewAllocatorWithExcludedPrefixes_def)

theorem NewAllocator_accepts_iff_witness:
  "\<exists>a. NewAllocatorWithExcludedPrefixes (Prefix (V4 0x0A000000) 25) [Prefix (V4 0x0A000080) 27]
     [V4 0x0A000001] = Inr a"
proof -
  let ?p = "Prefix (V4 0x0A000000) 25" and ?e = "Prefix (V4 0x0A000080) 27"
  have "prefix_IsValid ?p \<and> prefix_IsValid ?e \<and> prefix_Bits ?p \<le> prefix_Bits ?e \<and>
      prefix_Contains ?p (prefix_Addr ?e) \<and> prefix_Contains ?p (V4 0x0A000001) \<and>
      \<not> prefix_Contains ?e (V4 0x0A000001)"
    by code_simp
  then show ?thesis
    using NewAllocator_accepts_iff [of ?p "[?e]" "[V4 0x0A000001]"] by (simp add: prefix_addrs_subset_iff)
qed

text \<open>
  An allocator for a prefix that ends with its family's last address is accepted, and
  \<open>Allocate\<close> then panics instead of reporting that no address is left.
\<close>

theorem Allocate_panics_at_family_end:
  "case NewAllocator (Prefix (V4 0xFFFFFFFE) 32) [] of
     Inr a \<Rightarrow> (case Allocate ''a'' a of
        Return (ip, a') \<Rightarrow> ip = V4 0xFFFFFFFF \<and>
          (case Allocate ''b'' a' of Panic m \<Rightarrow> True | _ \<Rightarrow> False)
      | _ \<Rightarrow> False)
   | Inl e \<Rightarrow> False"
  by code_simp

end
