(* ===== verification/Ports.thy ===== *)
theory Ports
  imports Netip
begin

text \<open>
  Ranges of ports as aligned blocks (\<open>splitPortRange\<close>, \<open>log2\<close> of
  \<open>internal/policy/compiler.go\<close>), in the arithmetic of the source: the loop runs on unsigned
  32-bit numbers, the block sizes come from \<open>current & -current\<close>.
\<close>

section \<open>Operations\<close>

record portBlock =
  block_port :: u16
  block_prefixBits :: u8

function log2_from :: "u32 \<Rightarrow> u32 \<Rightarrow> u32" where
  "log2_from value out = (if value > 1 then log2_from (drop_bit 1 value) (out + 1) else out)"
  by pat_completeness auto

lemma unat_drop_bit_1: "unat (drop_bit (Suc 0) (w :: 'a::len word)) = unat w div 2"
  unfolding unat_drop_bit_eq by (simp add: drop_bit_Suc)

termination log2_from
  by (relation "measure (\<lambda>(value, out). unat value)") (auto simp: unat_drop_bit_1 word_less_nat_alt)

declare log2_from.simps [simp del]

definition log2 :: "u32 \<Rightarrow> u32" where
  "log2 value = log2_from value 0"

function shrink_block :: "u32 \<Rightarrow> u32 \<Rightarrow> u32" where
  "shrink_block sz remaining = (if sz > remaining then shrink_block (drop_bit 1 sz) remaining else sz)"
  by pat_completeness auto
termination
  by (relation "measure (\<lambda>(sz, remaining). unat sz)") (auto simp: unat_drop_bit_1 word_less_nat_alt)

declare shrink_block.simps [simp del]

definition block_size :: "u32 \<Rightarrow> u16 \<Rightarrow> u32" where
  "block_size current to =
     (let sz = current AND - current;
          sz = (if sz = 0 then push_bit 16 1 else sz);
          remaining = ucast to - current + 1
      in shrink_block sz remaining)"


section \<open>Sizes of blocks\<close>

lemma odd_word_and_minus:
  fixes m :: "'a::len word"
  assumes "odd m"
  shows "m AND - m = 1"
proof (rule bit_word_eqI)
  fix n assume "n < LENGTH('a)"
  have "bit m n \<longleftrightarrow> bit (m - 1) n \<or> n = 0"
    using even_bit_succ_iff [of "m - 1" n] assms by simp
  moreover have "\<not> bit (m - 1) 0" using assms by (simp add: bit_0)
  ultimately show "bit (m AND - m) n = bit 1 n"
    using \<open>n < LENGTH('a)\<close> by (auto simp: minus_eq_not_minus_1 bit_and_iff bit_not_iff bit_1_iff)
qed

lemma nat_odd_part:
  fixes n :: nat
  assumes "0 < n"
  obtains k m where "n = 2 ^ k * m" and "odd m"
  using assms
proof (induction n arbitrary: thesis rule: less_induct)
  case (less n)
  show ?case
  proof (cases "odd n")
    case True
    then show ?thesis using less.prems(1) [of 0 n] by simp
  next
    case False
    then obtain h where h: "n = 2 * h" by (auto elim: evenE)
    with less.prems(2) have "h < n" "0 < h" by auto
    with less.IH [of h] obtain k m where "h = 2 ^ k * m" "odd m" by blast
    with h less.prems(1) [of "Suc k" m] show ?thesis by simp
  qed
qed

lemma and_minus_power:
  fixes w :: "'a::len word"
  assumes "w \<noteq> 0"
  obtains k where "k < LENGTH('a)" and "w AND - w = 2 ^ k" and "2 ^ k dvd unat w"
proof -
  have "0 < unat w" using assms by (simp add: unat_gt_0)
  then obtain k m where km: "unat w = 2 ^ k * m" "odd m" by (rule nat_odd_part)
  have "w = of_nat (2 ^ k * m)" using km(1) [symmetric] by simp
  then have w: "w = push_bit k (of_nat m)" by (simp add: push_bit_eq_mult mult.commute)
  have odd: "odd (of_nat m :: 'a word)" using km(2) by (simp add: even_word_iff)
  have "- w = push_bit k (- of_nat m)" using w by (simp add: push_bit_eq_mult)
  then have "w AND - w = push_bit k (of_nat m AND - of_nat m)"
    unfolding w push_bit_and by simp
  then have "w AND - w = 2 ^ k" using odd_word_and_minus [OF odd] by simp
  moreover have "k < LENGTH('a)"
  proof (rule ccontr)
    assume "\<not> k < LENGTH('a)"
    then have "w = 0" by (auto simp: w word_eq_iff_bits bit_push_bit_iff simp del: push_bit_eq_mult)
    with assms show False by simp
  qed
  ultimately show ?thesis using that km(1) by simp
qed

lemma unat_power_u32: "k \<le> 16 \<Longrightarrow> unat (2 ^ k :: u32) = 2 ^ k"
  using unsigned_of_nat [where 'b = 32 and 'a = nat, of "2 ^ k"] by simp

lemma drop_bit_power_u32: "drop_bit 1 (2 ^ Suc k :: u32) = 2 ^ k" if "k < 16" for k
proof -
  have "unat (drop_bit 1 (2 ^ Suc k :: u32)) = unat (2 ^ k :: u32)"
    using that unat_power_u32 [of "Suc k"] unat_power_u32 [of k] by (simp add: unat_drop_bit_1)
  then show ?thesis by (simp add: word_unat_eq_iff)
qed

lemma log2_from_power: "k \<le> 16 \<Longrightarrow> log2_from (2 ^ k) out = out + of_nat k"
proof (induction k arbitrary: out)
  case 0
  then show ?case by (simp add: log2_from.simps)
next
  case (Suc k)
  have "(1 :: u32) < 2 ^ Suc k"
    using Suc.prems unat_power_u32 [of "Suc k"] one_less_power [of "2::nat" "Suc k"]
    by (simp add: word_less_nat_alt del: power_Suc)
  then show ?case
    using Suc drop_bit_power_u32 [of k] by (subst log2_from.simps) (simp del: power_Suc)
qed

lemma log2_power: "k \<le> 16 \<Longrightarrow> log2 (2 ^ k) = of_nat k"
  by (simp add: log2_def log2_from_power)

lemma shrink_block_power:
  assumes "k \<le> 16" and "remaining \<noteq> 0"
  obtains j where "j \<le> k" and "shrink_block (2 ^ k) remaining = 2 ^ j" and "2 ^ j \<le> unat remaining"
  using assms(1)
proof (induction k arbitrary: thesis)
  case 0
  have "1 \<le> unat remaining" using assms(2) by (simp add: Suc_le_eq unat_gt_0)
  then have "shrink_block 1 remaining = 1"
    by (subst shrink_block.simps) (simp add: word_less_nat_alt)
  with 0 \<open>1 \<le> unat remaining\<close> show ?case by simp
next
  case (Suc k)
  show ?case
  proof (cases "remaining < (2 ^ Suc k :: u32)")
    case True
    have "shrink_block (2 ^ Suc k) remaining = shrink_block (2 ^ k) remaining"
      using True drop_bit_power_u32 [of k] Suc.prems(2) by (subst shrink_block.simps) (simp del: power_Suc)
    with Suc show ?thesis by (metis Suc_leD le_Suc_eq)
  next
    case False
    then have "shrink_block (2 ^ Suc k) remaining = 2 ^ Suc k"
      by (subst shrink_block.simps) (simp del: power_Suc)
    moreover have "2 ^ Suc k \<le> unat remaining"
      using False unat_power_u32 [OF Suc.prems(2)] by (simp add: word_less_nat_alt not_less del: power_Suc)
    ultimately show ?thesis using Suc.prems(1) [of "Suc k"] by simp
  qed
qed

lemma unat_u16: "unat (t :: u16) < 65536"
  using unsigned_less [of t, where 'a = nat] by simp

lemma unat_ucast_u16_u32: "unat (ucast (t :: u16) :: u32) = unat t"
  using unat_u16 [of t] by (simp add: unsigned_ucast_eq take_bit_nat_eq_self)

lemma block_size_power:
  assumes "current \<le> (ucast to :: u32)"
  obtains j where "j \<le> 16" and "block_size current to = 2 ^ j" and "2 ^ j dvd unat current"
    and "unat current + 2 ^ j \<le> unat to + 1"
proof -
  have le: "unat current \<le> unat to"
    using assms by (simp add: word_le_nat_alt unat_ucast_u16_u32)
  have lt: "unat to < 2 ^ 16" using unat_u16 [of to] by simp
  let ?rem = "ucast to - current + 1 :: u32"
  have rem: "unat ?rem = unat to - unat current + 1"
    using assms le lt unat_sub [OF assms] by (simp add: unat_word_ariths unat_ucast_u16_u32)
  then have rem0: "?rem \<noteq> 0" by auto
  obtain k where k: "k \<le> 16" "2 ^ k dvd unat current"
    and size: "block_size current to = shrink_block (2 ^ k) ?rem"
  proof (cases "current = 0")
    case True
    then show ?thesis using that [of 16] by (simp add: block_size_def)
  next
    case False
    obtain k where k: "k < LENGTH(32)" "current AND - current = 2 ^ k" "2 ^ k dvd unat current"
      using and_minus_power [OF False] by blast
    have "0 < unat current" using False by (simp add: unat_gt_0)
    with k(3) have "2 ^ k \<le> unat current" by (rule dvd_imp_le)
    with le lt have "(2::nat) ^ k < 2 ^ 16" by linarith
    then have "k < 16" by (rule power_less_imp_less_exp [rotated]) simp
    moreover have "current AND - current \<noteq> 0"
      using k(2) unat_power_u32 [of k] \<open>k < 16\<close> by (metis less_imp_le power_not_zero unat_0 zero_neq_numeral)
    ultimately show ?thesis using that [of k] k by (simp add: block_size_def Let_def)
  qed
  from shrink_block_power [OF k(1) rem0] obtain j where j: "j \<le> k" "shrink_block (2 ^ k) ?rem = 2 ^ j"
    "2 ^ j \<le> unat ?rem" by blast
  have "2 ^ j dvd unat current" using j(1) k(2) by (meson dvd_trans le_imp_power_dvd)
  then show ?thesis using that [of j] j k(1) size rem le by simp
qed

text \<open>The value of the loop variable stays below \<open>2\<^sup>1\<^sup>6 + 1\<close>, so the 32-bit addition does not wrap.\<close>

lemma unat_next_block:
  assumes "current \<le> (ucast to :: u32)"
  shows "unat (current + block_size current to) = unat current + unat (block_size current to)"
    and "0 < unat (block_size current to)"
proof -
  obtain j where j: "j \<le> 16" "block_size current to = 2 ^ j" "unat current + 2 ^ j \<le> unat to + 1"
    using block_size_power [OF assms] by metis
  have "unat (block_size current to) = 2 ^ j" using j unat_power_u32 by simp
  with j unat_u16 [of to] show "unat (current + block_size current to) = unat current + unat (block_size current to)"
    and "0 < unat (block_size current to)"
    by (simp_all add: unat_word_ariths)
qed

function split_from :: "u32 \<Rightarrow> u16 \<Rightarrow> portBlock list" where
  "split_from current to =
     (if current \<le> ucast to then
        (let size = block_size current to in
         \<lparr>block_port = ucast current, block_prefixBits = ucast (16 - log2 size)\<rparr> # split_from (current + size) to)
      else [])"
  by pat_completeness auto
termination
proof (relation "measure (\<lambda>(current, to). 65537 - unat current)", goal_cases)
  case (2 current to x)
  then have "unat current \<le> unat to" by (simp add: word_le_nat_alt unat_ucast_u16_u32)
  with unat_next_block [OF 2(1)] unat_u16 [of to] 2(2) show ?case by simp
qed simp

declare split_from.simps [simp del]

definition splitPortRange :: "u16 \<Rightarrow> u16 \<Rightarrow> portBlock list" where
  "splitPortRange from to = split_from (ucast from) to"


section \<open>The blocks cover the range exactly\<close>

text \<open>A block stands for the ports that agree with its port in the leading bits.\<close>

definition block_covers :: "portBlock \<Rightarrow> u16 \<Rightarrow> bool" where
  "block_covers b x \<longleftrightarrow> top_match (unat (block_prefixBits b)) (block_port b) x"

lemma top_match_aligned:
  fixes p x :: u16
  assumes "j \<le> 16" and "2 ^ j dvd unat p"
  shows "top_match (16 - j) p x \<longleftrightarrow> unat p \<le> unat x \<and> unat x < unat p + 2 ^ j"
proof -
  obtain q where q: "unat p = 2 ^ j * q" using assms(2) by (auto elim: dvdE)
  have "top_match (16 - j) p x \<longleftrightarrow> uint p div 2 ^ j = uint x div 2 ^ j"
    using assms(1) by (simp add: top_match_div)
  also have "\<dots> \<longleftrightarrow> unat x div 2 ^ j = q"
  proof -
    have "uint w div 2 ^ j = int (unat w div 2 ^ j)" for w :: u16
      by (simp add: zdiv_int)
    then show ?thesis using q by auto
  qed
  also have "\<dots> \<longleftrightarrow> q * 2 ^ j \<le> unat x \<and> unat x < Suc q * 2 ^ j"
    using div_nat_eqI [of "2 ^ j" q "unat x"] dividend_less_div_times [of "2 ^ j" "unat x"]
      div_times_less_eq_dividend [of "unat x" "2 ^ j"]
    by (auto simp: algebra_simps)
  finally show ?thesis using q by (simp add: algebra_simps)
qed

lemma split_from_head:
  assumes "current \<le> (ucast to :: u32)"
  defines "b \<equiv> \<lparr>block_port = ucast current, block_prefixBits = ucast (16 - log2 (block_size current to))\<rparr>"
  shows "block_covers b x \<longleftrightarrow> unat current \<le> unat x \<and> unat x < unat current + unat (block_size current to)"
    and "unat current + unat (block_size current to) \<le> unat to + 1"
proof -
  obtain j where j: "j \<le> 16" "block_size current to = 2 ^ j" "2 ^ j dvd unat current"
    "unat current + 2 ^ j \<le> unat to + 1"
    using block_size_power [OF assms(1)] by metis
  have size: "unat (block_size current to) = 2 ^ j" using j unat_power_u32 by simp
  then show "unat current + unat (block_size current to) \<le> unat to + 1" using j by simp
  have "unat current < 65536"
    using assms(1) unat_u16 [of to] by (simp add: word_le_nat_alt unat_ucast_u16_u32)
  then have port: "unat (ucast current :: u16) = unat current"
    by (simp add: unsigned_ucast_eq take_bit_nat_eq_self)
  have "16 - log2 (block_size current to) = (of_nat (16 - j) :: u32)"
    using j log2_power by (simp add: of_nat_diff)
  then have "unat (ucast (16 - log2 (block_size current to)) :: u8) = 16 - j"
    by (simp add: unsigned_ucast_eq unsigned_of_nat take_bit_nat_eq_self)
  then show "block_covers b x \<longleftrightarrow> unat current \<le> unat x \<and> unat x < unat current + unat (block_size current to)"
    unfolding block_covers_def b_def using top_match_aligned [of j "ucast current"] j port size by simp
qed

lemma split_from_covers:
  "unat x \<ge> unat current \<and> x \<le> to \<longleftrightarrow> (\<exists>b \<in> set (split_from current to). block_covers b x)"
proof (induction current to rule: split_from.induct)
  case (1 current to)
  show ?case
  proof (cases "current \<le> ucast to")
    case True
    note head = split_from_head(1) [OF True, of x] split_from_head(2) [OF True]
    have "unat x \<ge> unat current \<and> x \<le> to \<longleftrightarrow>
      (unat current \<le> unat x \<and> unat x < unat current + unat (block_size current to)) \<or>
      (unat (current + block_size current to) \<le> unat x \<and> x \<le> to)"
      using head(2) unat_next_block(1) [OF True] by (auto simp: word_le_nat_alt)
    also have "\<dots> \<longleftrightarrow> (\<exists>b \<in> set (split_from current to). block_covers b x)"
      using "1.IH" [OF True refl] head(1) True by (subst split_from.simps) (simp add: Let_def)
    finally show ?thesis .
  next
    case False
    then show ?thesis
      by (subst split_from.simps) (auto simp: word_le_nat_alt unat_ucast_u16_u32)
  qed
qed

lemma split_from_disjoint:
  "sorted_wrt (\<lambda>b c. \<forall>x. \<not> (block_covers b x \<and> block_covers c x)) (split_from current to)"
proof (induction current to rule: split_from.induct)
  case (1 current to)
  show ?case
  proof (cases "current \<le> ucast to")
    case True
    have "\<not> (block_covers \<lparr>block_port = ucast current, block_prefixBits = ucast (16 - log2 (block_size current to))\<rparr> x \<and> block_covers c x)"
      if "c \<in> set (split_from (current + block_size current to) to)" for c x
      using split_from_head(1) [OF True, of x] split_from_covers [of "current + block_size current to" x to]
        unat_next_block(1) [OF True] that by auto
    with "1.IH" [OF True refl] True show ?thesis
      by (subst split_from.simps) (simp add: Let_def)
  qed (simp add: split_from.simps)
qed

text \<open>
  C20. Splitting a range of ports gives blocks that cover exactly the ports of the range, each of
  them once, for every range of 16-bit ports, the full one and the empty one included.
\<close>

theorem splitPortRange_exact:
  "(\<forall>x. (\<exists>b \<in> set (splitPortRange from to). block_covers b x) = (from \<le> x \<and> x \<le> to)) \<and>
   sorted_wrt (\<lambda>b c. \<forall>x. \<not> (block_covers b x \<and> block_covers c x)) (splitPortRange from to)"
  using split_from_covers [where current = "ucast from" and to = to] split_from_disjoint
  by (simp add: splitPortRange_def unat_ucast_u16_u32 word_le_nat_alt)

end
