(* ===== verification/ModelTypes.thy ===== *)
theory ModelTypes
  imports PrefixRange
begin

text \<open>
  The data of \<open>internal/model/model.go\<close>: one record per struct with the fields in the order of
  the source (the name of the struct first, since record fields share one name space), string
  constants for the enumerations, which are strings in the source and may hold any string before
  validation.  A pointer to a scalar is an option.  \<open>Labels\<close> is a Go map; it is a list of
  distinct keys with their values, in some iteration order.
\<close>

type_synonym Action = string
type_synonym Direction = string
type_synonym Protocol = string
type_synonym Labels = "(string, string) gomap"

abbreviation ActionAllow :: Action where "ActionAllow \<equiv> ''allow''"
abbreviation ActionDrop :: Action where "ActionDrop \<equiv> ''drop''"
abbreviation ActionReroute :: Action where "ActionReroute \<equiv> ''reroute''"
abbreviation ActionReject :: Action where "ActionReject \<equiv> ''reject''"
abbreviation ActionLog :: Action where "ActionLog \<equiv> ''log''"
abbreviation ActionSNAT :: Action where "ActionSNAT \<equiv> ''snat''"
abbreviation ActionDNAT :: Action where "ActionDNAT \<equiv> ''dnat''"
abbreviation ActionDNATSNAT :: Action where "ActionDNATSNAT \<equiv> ''dnat_and_snat''"

abbreviation DirectionIngress :: Direction where "DirectionIngress \<equiv> ''ingress''"
abbreviation DirectionEgress :: Direction where "DirectionEgress \<equiv> ''egress''"

abbreviation ProtocolAny :: Protocol where "ProtocolAny \<equiv> ''any''"
abbreviation ProtocolTCP :: Protocol where "ProtocolTCP \<equiv> ''tcp''"
abbreviation ProtocolUDP :: Protocol where "ProtocolUDP \<equiv> ''udp''"
abbreviation ProtocolICMP :: Protocol where "ProtocolICMP \<equiv> ''icmp''"
abbreviation ProtocolSCTP :: Protocol where "ProtocolSCTP \<equiv> ''sctp''"

abbreviation (input) SecurityGroupPriorityMin :: int where "SecurityGroupPriorityMin \<equiv> 1"
abbreviation (input) SecurityGroupPriorityMax :: int where "SecurityGroupPriorityMax \<equiv> 16384"
abbreviation (input) PolicyRoutePriorityMin :: int where "PolicyRoutePriorityMin \<equiv> 0"
abbreviation (input) PolicyRoutePriorityMax :: int where "PolicyRoutePriorityMax \<equiv> 32767"

record PortRange =
  port_From :: u16
  port_To :: u16

record LabelExpr =
  expr_Key :: string
  expr_Operator :: string
  expr_Values :: "string list"

record NamedPort =
  named_Name :: string
  named_Protocol :: Protocol
  named_Port :: u16

record FQDNSelector =
  fqdn_MatchName :: string
  fqdn_MatchPattern :: string

record DNSRecord =
  dns_Name :: string
  dns_IPs :: "addr list"
  dns_TTLSeconds :: u32
  dns_ObservedAt :: time

record VPC =
  vpc_Name :: string

record ProviderNetworkNode =
  pnode_Node :: string
  pnode_Interface :: string
  pnode_Interfaces :: "string list"

record ProviderNetworkQoS =
  qos_EgressRateBPS :: u64
  qos_EgressBurstBPS :: u64

record ProviderNetworkTenantQuota =
  quota_Tenant :: string
  quota_MaxSubnets :: int
  quota_MaxEndpoints :: int
  quota_MaxLoadBalancers :: int
  quota_MaxNATRules :: int
  quota_MaxPolicyRoutes :: int
  quota_MaxSecurityGroups :: int
  quota_MaxSecurityGroupRules :: int

record ProviderNetworkTenantQueuePolicy =
  queue_Tenant :: string
  queue_QueueID :: int
  queue_Protocol :: Protocol
  queue_Ports :: "PortRange list"
  queue_EndpointSelector :: Labels
  queue_EndpointExpressions :: "LabelExpr list"
  queue_IdentityGroups :: "string list"
  queue_IdentitySelector :: Labels
  queue_IdentityExpressions :: "LabelExpr list"
  queue_MinRateBPS :: u64
  queue_MaxRateBPS :: u64
  queue_BurstBPS :: u64

record ProviderNetwork =
  pnet_Name :: string
  pnet_Nodes :: "ProviderNetworkNode list"
  pnet_Isolation :: string
  pnet_ControllerTargets :: "string list"
  pnet_QoS :: ProviderNetworkQoS
  pnet_TenantQuotas :: "ProviderNetworkTenantQuota list"
  pnet_TenantQueues :: "ProviderNetworkTenantQueuePolicy list"

record IdentityGroup =
  igroup_Name :: string
  igroup_VPC :: string
  igroup_Source :: string
  igroup_ObservedAt :: time
  igroup_TTLSeconds :: u32
  igroup_EndpointIDs :: "string list"
  igroup_EndpointSelector :: Labels
  igroup_EndpointExpressions :: "LabelExpr list"

record DHCPOptions =
  dhcp_Enabled :: bool
  dhcp_LeaseTime :: u32
  dhcp_MTU :: u16
  dhcp_DNSServers :: "addr list"
  dhcp_DomainName :: string
  dhcp_SearchDomains :: "string list"

record Subnet =
  subnet_Name :: string
  subnet_VPC :: string
  subnet_CIDR :: prefix
  subnet_Gateway :: addr
  subnet_ExcludeCIDRs :: "prefix list"
  subnet_ProviderNetwork :: string
  subnet_VLAN :: u16
  subnet_DHCP :: DHCPOptions

record Endpoint =
  ep_ID :: string
  ep_VPC :: string
  ep_Subnet :: string
  ep_IP :: addr
  ep_MAC :: string
  ep_Node :: string
  ep_SecurityGroups :: "string list"
  ep_NamedPorts :: "NamedPort list"
  ep_Labels :: Labels

record RouteBFD =
  bfd_Enabled :: bool
  bfd_LogicalPort :: string
  bfd_MinTx :: u32
  bfd_MinRx :: u32
  bfd_DetectMult :: u32

record Route =
  route_Destination :: prefix
  route_NextHops :: "addr list"
  route_Blackhole :: bool
  route_BFD :: RouteBFD

record RouteTable =
  table_Name :: string
  table_VPC :: string
  table_Routes :: "Route list"

record RouteMatch =
  match_Source :: prefix
  match_Destination :: prefix
  match_Protocol :: Protocol
  match_SrcPorts :: "PortRange list"
  match_DstPorts :: "PortRange list"

record RouteAction =
  action_Type :: Action
  action_NextHops :: "addr list"

record PolicyRoute =
  proute_Name :: string
  proute_VPC :: string
  proute_Priority :: int
  proute_Match :: RouteMatch
  proute_Action :: RouteAction

record Gateway =
  gw_Name :: string
  gw_VPC :: string
  gw_Node :: string
  gw_ExternalIF :: string
  gw_LANIP :: addr
  gw_Distributed :: bool

record NATRule =
  nat_Name :: string
  nat_VPC :: string
  nat_Type :: Action
  nat_MatchCIDR :: prefix
  nat_ExternalIP :: addr
  nat_TargetIP :: addr
  nat_Protocol :: Protocol
  nat_ExternalPort :: u16
  nat_TargetPort :: u16
  nat_LogicalPort :: string
  nat_ExternalMAC :: string

record LoadBalancerBackend =
  backend_IP :: addr
  backend_Port :: u16
  backend_Healthy :: "bool option"

record LoadBalancerPort =
  lbport_Name :: string
  lbport_Port :: u16
  lbport_Protocol :: Protocol
  lbport_Backends :: "LoadBalancerBackend list"

record LoadBalancerFrontend =
  front_Name :: string
  front_VIP :: addr
  front_Port :: u16
  front_Protocol :: Protocol
  front_Backends :: "LoadBalancerBackend list"

record LoadBalancerHealthCheck =
  hc_Enabled :: bool
  hc_Interval :: u32
  hc_Timeout :: u32
  hc_SuccessCount :: u32
  hc_FailureCount :: u32

record LoadBalancer =
  lb_Name :: string
  lb_VPC :: string
  lb_VIP :: addr
  lb_Ports :: "LoadBalancerPort list"
  lb_Subnets :: "string list"
  lb_SessionAffinity :: bool
  lb_AffinityTimeout :: u32
  lb_SelectionFields :: "string list"
  lb_HealthCheck :: LoadBalancerHealthCheck

record SecurityGroupRule =
  sgr_ID :: string
  sgr_Priority :: int
  sgr_Direction :: Direction
  sgr_Protocol :: Protocol
  sgr_RemoteCIDR :: prefix
  sgr_ExceptCIDRs :: "prefix list"
  sgr_RemoteGroup :: string
  sgr_RemoteEndpointSelector :: Labels
  sgr_RemoteEndpointExprs :: "LabelExpr list"
  sgr_RemoteService :: string
  sgr_RemoteCIDRGroup :: string
  sgr_RemoteEntities :: "string list"
  sgr_RemoteFQDNs :: "FQDNSelector list"
  sgr_Ports :: "PortRange list"
  sgr_NamedPorts :: "string list"
  sgr_ICMPType :: "u8 option"
  sgr_ICMPCode :: "u8 option"
  sgr_Action :: Action
  sgr_Stateful :: bool
  sgr_Log :: bool
  sgr_Description :: string

record SecurityGroup =
  sg_Name :: string
  sg_VPC :: string
  sg_Tier :: int
  sg_DefaultDenyIngress :: "bool option"
  sg_DefaultDenyEgress :: "bool option"
  sg_Rules :: "SecurityGroupRule list"

record CIDRGroupEntry =
  entry_CIDR :: prefix
  entry_ExceptCIDRs :: "prefix list"

record CIDRGroup =
  cidrg_Name :: string
  cidrg_VPC :: string
  cidrg_CIDRs :: "prefix list"
  cidrg_Entries :: "CIDRGroupEntry list"

definition EndpointKey :: "string \<Rightarrow> string \<Rightarrow> string" where
  "EndpointKey vpc i = vpc @ NUL @ i"


section \<open>Labels and label expressions\<close>

definition labels_get :: "Labels \<Rightarrow> string \<Rightarrow> string" where
  "labels_get l k = (case map_of l k of None \<Rightarrow> '''' | Some v \<Rightarrow> v)"

definition Labels_Matches :: "Labels \<Rightarrow> Labels \<Rightarrow> bool" where
  "Labels_Matches l selector =
     (if selector = [] then False
      else list_all (\<lambda>(key, value). labels_get l key = value) selector)"

definition normalizeLabelExprOperator :: "string \<Rightarrow> string" where
  "normalizeLabelExprOperator operator =
     (let operator = strings_ToLower (strings_TrimSpace operator);
          operator = strings_ReplaceAll operator (CHR ''_'') ''''
      in strings_ReplaceAll operator (CHR ''-'') '''')"

definition LabelExpr_Matches :: "LabelExpr \<Rightarrow> Labels \<Rightarrow> bool" where
  "LabelExpr_Matches e labels =
     (let operator = normalizeLabelExprOperator (expr_Operator e);
          value = map_of labels (expr_Key e)
      in if operator = ''in'' then
           (case value of None \<Rightarrow> False | Some v \<Rightarrow> List.member (expr_Values e) v)
         else if operator = ''notin'' then
           (case value of None \<Rightarrow> True | Some v \<Rightarrow> \<not> List.member (expr_Values e) v)
         else if operator = ''exists'' then value \<noteq> None
         else if operator = ''doesnotexist'' then value = None
         else False)"

definition Labels_MatchesSelector :: "Labels \<Rightarrow> Labels \<Rightarrow> LabelExpr list \<Rightarrow> bool" where
  "Labels_MatchesSelector l selector expressions =
     (if selector = [] \<and> expressions = [] then False
      else if \<not> list_all (\<lambda>(key, value). labels_get l key = value) selector then False
      else list_all (\<lambda>e. LabelExpr_Matches e l) expressions)"

text \<open>The iteration order of either map does not matter.\<close>

lemma Labels_MatchesSelector_perm:
  assumes "mset l = mset l'" and "distinct (map fst l)" and "mset s = mset s'"
  shows "Labels_MatchesSelector l s es = Labels_MatchesSelector l' s' es"
proof -
  have "map_of l = map_of l'"
    using assms(1,2) by (metis map_of_inject_set mset_eq_imp_distinct_iff mset_eq_setD mset_map)
  then have "labels_get l = labels_get l'" and "LabelExpr_Matches e l = LabelExpr_Matches e l'" for e
    by (auto simp: labels_get_def LabelExpr_Matches_def)
  moreover have "set s = set s'" and "s = [] \<longleftrightarrow> s' = []"
    using assms(3) by (auto dest: mset_eq_setD)
  ultimately show ?thesis
    by (simp add: Labels_MatchesSelector_def list_all_iff)
qed

end
