(* ===== verification/Utf8.thy ===== *)
theory Utf8
  imports Prelude
begin

text \<open>
  The loop \<open>for _, r := range s\<close> over a string decodes UTF-8: the runes of a byte string, with
  the replacement rune for each byte that starts no valid sequence (\<open>utf8.DecodeRune\<close>).
\<close>

definition rune_error :: nat where
  "rune_error = 0xFFFD"

definition utf8_size :: "nat \<Rightarrow> nat" where
  "utf8_size p0 = (if p0 < 0xE0 then 2 else if p0 < 0xF0 then 3 else 4)"

definition utf8_low :: "nat \<Rightarrow> nat" where
  "utf8_low p0 = (if p0 = 0xE0 then 0xA0 else if p0 = 0xF0 then 0x90 else 0x80)"

definition utf8_high :: "nat \<Rightarrow> nat" where
  "utf8_high p0 = (if p0 = 0xED then 0x9F else if p0 = 0xF4 then 0x8F else 0xBF)"

definition utf8_cont :: "nat \<Rightarrow> bool" where
  "utf8_cont p \<longleftrightarrow> 0x80 \<le> p \<and> p \<le> 0xBF"

definition utf8_DecodeRune :: "nat \<Rightarrow> nat list \<Rightarrow> nat \<times> nat" where
  "utf8_DecodeRune p0 ps =
     (if p0 < 0x80 then (p0, 1)
      else if p0 < 0xC2 \<or> 0xF4 < p0 \<or> length ps + 1 < utf8_size p0 then (rune_error, 1)
      else if ps ! 0 < utf8_low p0 \<or> utf8_high p0 < ps ! 0 then (rune_error, 1)
      else if utf8_size p0 = 2 then ((p0 mod 32) * 64 + ps ! 0 mod 64, 2)
      else if \<not> utf8_cont (ps ! 1) then (rune_error, 1)
      else if utf8_size p0 = 3 then ((p0 mod 16) * 4096 + (ps ! 0 mod 64) * 64 + ps ! 1 mod 64, 3)
      else if \<not> utf8_cont (ps ! 2) then (rune_error, 1)
      else ((p0 mod 8) * 262144 + (ps ! 0 mod 64) * 4096 + (ps ! 1 mod 64) * 64 + ps ! 2 mod 64, 4))"

lemma utf8_DecodeRune_size: "1 \<le> snd (utf8_DecodeRune p0 ps)"
  by (simp add: utf8_DecodeRune_def)

function utf8_runes_of :: "nat list \<Rightarrow> nat list" where
  "utf8_runes_of [] = []"
| "utf8_runes_of (p # ps) =
     (let (r, size) = utf8_DecodeRune p ps in r # utf8_runes_of (drop (size - 1) ps))"
  by pat_completeness auto
termination
  by (relation "measure length") auto

definition utf8_runes :: "string \<Rightarrow> nat list" where
  "utf8_runes s = utf8_runes_of (map of_char s)"

lemma utf8_DecodeRune_ascii [simp]: "p < 128 \<Longrightarrow> utf8_DecodeRune p ps = (p, 1)"
  by (simp add: utf8_DecodeRune_def)

text \<open>A byte outside ASCII never starts an ASCII rune.\<close>

lemma mod_pow2_range: 
  fixes p b m :: nat
  assumes "b * m \<le> p" and "p < (b + 1) * m"
  shows "p mod m = p - b * m"
proof -
  have "p - b * m < m" using assms by (simp add: algebra_simps)
  moreover have "p = (p - b * m) + b * m" using assms(1) by simp
  ultimately show ?thesis by (metis mod_less mod_mult_self1)
qed

lemma utf8_DecodeRune_not_ascii:
  assumes "\<not> p < 128" and "p < 256"
  shows "128 \<le> fst (utf8_DecodeRune p ps)"
proof (cases "p < 0xC2 \<or> 0xF4 < p")
  case True
  with assms show ?thesis by (auto simp: utf8_DecodeRune_def rune_error_def)
next
  case False
  consider "p < 0xE0" | "p = 0xE0" | "0xE0 < p" "p < 0xF0" | "p = 0xF0" | "0xF0 < p" by linarith
  then show ?thesis
  proof cases
    case 1
    with False have "p mod 32 = p - 192" using mod_pow2_range [of 6 32 p] by simp
    with 1 False show ?thesis by (auto simp: utf8_DecodeRune_def rune_error_def utf8_size_def)
  next
    case 2
    have "ps ! 0 mod 64 = ps ! 0 - 128" if "160 \<le> ps ! 0" "ps ! 0 \<le> 191"
      using that mod_pow2_range [of 2 64 "ps ! 0"] by simp
    with 2 show ?thesis
      by (auto simp: utf8_DecodeRune_def rune_error_def utf8_size_def utf8_low_def utf8_high_def)
  next
    case 3
    then have "p mod 16 = p - 224" using mod_pow2_range [of 14 16 p] by simp
    with 3 show ?thesis
      by (auto simp: utf8_DecodeRune_def rune_error_def utf8_size_def)
  next
    case 4
    have "ps ! 0 mod 64 = ps ! 0 - 128" if "144 \<le> ps ! 0" "ps ! 0 \<le> 191"
      using that mod_pow2_range [of 2 64 "ps ! 0"] by simp
    with 4 show ?thesis
      by (auto simp: utf8_DecodeRune_def rune_error_def utf8_size_def utf8_low_def utf8_high_def)
  next
    case 5
    with False have "p mod 8 = p - 240" using mod_pow2_range [of 30 8 p] by simp
    with 5 False show ?thesis
      by (auto simp: utf8_DecodeRune_def rune_error_def utf8_size_def)
  qed
qed

lemma utf8_runes_of_ascii: "\<forall>p \<in> set ps. p < 128 \<Longrightarrow> utf8_runes_of ps = ps"
  by (induction ps) auto

lemma utf8_runes_of_all_ascii:
  "\<forall>p \<in> set ps. p < 256 \<Longrightarrow> \<forall>r \<in> set (utf8_runes_of ps). r < 128 \<Longrightarrow> \<forall>p \<in> set ps. p < 128"
proof (induction ps rule: utf8_runes_of.induct)
  case (2 p ps)
  have p: "p < 128"
    using utf8_DecodeRune_not_ascii [of p ps] 2(2,3) by (cases "utf8_DecodeRune p ps") force
  with 2 show ?case by auto
qed simp

text \<open>A test that only ASCII characters pass may be made on the runes or on the bytes.\<close>

lemma utf8_runes_all:
  assumes "\<And>r. P r \<Longrightarrow> r < 128"
  shows "(\<forall>r \<in> set (utf8_runes s). P r) \<longleftrightarrow> (\<forall>c \<in> set s. P (of_char c))"
proof -
  have bytes: "\<forall>p \<in> set (map of_char s :: nat list). p < 256" using nat_of_char_less_256 by auto
  show ?thesis
  proof
    assume "\<forall>r \<in> set (utf8_runes s). P r"
    moreover from this have "utf8_runes s = map of_char s"
      using utf8_runes_of_ascii utf8_runes_of_all_ascii [OF bytes] assms unfolding utf8_runes_def by blast
    ultimately show "\<forall>c \<in> set s. P (of_char c)" by simp
  next
    assume *: "\<forall>c \<in> set s. P (of_char c)"
    then have "utf8_runes s = map of_char s"
      using assms unfolding utf8_runes_def by (intro utf8_runes_of_ascii) auto
    with * show "\<forall>r \<in> set (utf8_runes s). P r" by simp
  qed
qed

text \<open>\<open>utf8.AppendRune\<close>, by which \<open>WriteRune\<close> and \<open>%c\<close> write a rune.\<close>

definition utf8_EncodeRune :: "nat \<Rightarrow> string" where
  "utf8_EncodeRune r =
     map char_of
      (if r < 0x80 then [r]
       else if r < 0x800 then [0xC0 + r div 64, 0x80 + r mod 64]
       else if r < 0x10000 then [0xE0 + r div 4096, 0x80 + r div 64 mod 64, 0x80 + r mod 64]
       else [0xF0 + r div 262144, 0x80 + r div 4096 mod 64, 0x80 + r div 64 mod 64, 0x80 + r mod 64])"

end
