(* ===== verification/Validate.thy ===== *)
theory Validate
  imports ModelTypes Utf8
begin

text \<open>
  The \<open>Validate\<close> methods of \<open>internal/model/model.go\<close> for names, ports, labels, prefixes,
  security groups, CIDR groups and DNS records, and the helpers they call.  Each method is the
  sequence of its checks in the order of the source; its characterisation says what an object
  that passes has.  Arguments of error messages are kept as strings; the quotes of \<open>%q\<close> are not.
\<close>

section \<open>Ports and protocols\<close>

definition validProtocol :: "Protocol \<Rightarrow> bool" where
  "validProtocol p = List.member [ProtocolAny, ProtocolTCP, ProtocolUDP, ProtocolICMP, ProtocolSCTP] p"

definition port_protocol :: "Protocol \<Rightarrow> bool" where
  "port_protocol p \<longleftrightarrow> p = ProtocolTCP \<or> p = ProtocolUDP \<or> p = ProtocolSCTP"

definition u16_String :: "u16 \<Rightarrow> string" where
  "u16_String w = nat_Itoa (unat w)"

definition PortRange_Validate :: "PortRange \<Rightarrow> unit result" where
  "PortRange_Validate p =
     first_error [
       fail_if (port_From p = 0 \<or> port_To p = 0) (Errorf ''port range must be non-zero'' []),
       fail_if (port_From p > port_To p)
         (Errorf ''port range start %d exceeds end %d'' [u16_String (port_From p), u16_String (port_To p)])]"

definition name_rune :: "nat \<Rightarrow> bool" where
  "name_rune r \<longleftrightarrow> 97 \<le> r \<and> r \<le> 122 \<or> 65 \<le> r \<and> r \<le> 90 \<or> 48 \<le> r \<and> r \<le> 57 \<or> r = 45 \<or> r = 95"

definition validateNamedPortName :: "string \<Rightarrow> unit result" where
  "validateNamedPortName name =
     first_error [
       fail_if (name = '''') (Errorf ''named port name is required'' []),
       range_check (\<lambda>_ r. fail_if (\<not> name_rune r)
         (Errorf ''named port name %q contains unsupported character %q'' [name, utf8_EncodeRune r]))
         (utf8_runes name)]"

definition NamedPort_Validate :: "NamedPort \<Rightarrow> unit result" where
  "NamedPort_Validate p =
     first_error [
       validateNamedPortName (named_Name p),
       fail_if (named_Protocol p \<noteq> ProtocolTCP \<and> named_Protocol p \<noteq> ProtocolUDP \<and>
                named_Protocol p \<noteq> ProtocolSCTP)
         (Errorf ''named port protocol must be tcp, udp, or sctp'' []),
       fail_if (named_Port p = 0) (Errorf ''named port number must be between 1 and 65535'' [])]"


section \<open>DNS names\<close>

definition dns_label_rune :: "bool \<Rightarrow> nat \<Rightarrow> bool" where
  "dns_label_rune allowWildcard r \<longleftrightarrow>
     97 \<le> r \<and> r \<le> 122 \<or> 65 \<le> r \<and> r \<le> 90 \<or> 48 \<le> r \<and> r \<le> 57 \<or> r = 45 \<or> r = 95 \<or>
     allowWildcard \<and> r = 42"

definition validate_dns_label :: "string \<Rightarrow> bool \<Rightarrow> string \<Rightarrow> unit result" where
  "validate_dns_label name allowWildcard label =
     first_error [
       fail_if (label = '''') (Errorf ''dns name %q contains empty label'' [name]),
       fail_if (length label > 63) (Errorf ''dns label %q exceeds 63 characters'' [label]),
       fail_if (strings_HasPrefix label ''-'' \<or> strings_HasSuffix label ''-'')
         (Errorf (''dns label %q must not start or end with '' @ [CHR 0x27, CHR ''-'', CHR 0x27]) [label]),
       range_check (\<lambda>_ r. fail_if (\<not> dns_label_rune allowWildcard r)
         (Errorf ''dns name %q contains unsupported character %q'' [name, utf8_EncodeRune r]))
         (utf8_runes label)]"

definition validateDNSName :: "string \<Rightarrow> bool \<Rightarrow> unit result" where
  "validateDNSName name0 allowWildcard =
     (let name1 = strings_TrimSpace name0;
          name = (if strings_HasSuffix name1 ''.'' then strings_TrimSuffix name1 ''.'' else name1)
      in first_error [
           fail_if (name1 = '''') (Errorf ''dns name is required'' []),
           fail_if (name = '''') (Errorf ''dns name must contain at least one label'' []),
           fail_if (length name > 253) (Errorf ''dns name %q exceeds 253 characters'' [name]),
           range_check (\<lambda>_ label. validate_dns_label name allowWildcard label)
             (strings_Split name (CHR ''.''))])"

definition FQDNSelector_Validate :: "FQDNSelector \<Rightarrow> unit result" where
  "FQDNSelector_Validate s =
     (let matchName = strings_TrimSpace (fqdn_MatchName s);
          matchPattern = strings_TrimSpace (fqdn_MatchPattern s)
      in if matchName = '''' \<and> matchPattern = '''' then
           Inl (Errorf ''match name or match pattern is required'' [])
         else if matchName \<noteq> '''' \<and> matchPattern \<noteq> '''' then
           Inl (Errorf ''match name and match pattern are mutually exclusive'' [])
         else if matchName \<noteq> '''' then validateDNSName matchName False
         else validateDNSName matchPattern True)"

definition DNSRecord_Validate :: "DNSRecord \<Rightarrow> unit result" where
  "DNSRecord_Validate r =
     first_error [
       wrap_error (Wrapf ''dns record name: %w'' []) (validateDNSName (dns_Name r) False),
       fail_if (dns_IPs r = []) (Errorf ''dns record ips are required'' []),
       fail_if (dns_TTLSeconds r > 0 \<and> time_IsZero (dns_ObservedAt r))
         (Errorf ''dns record observed_at is required when ttl_seconds is set'' []),
       fail_if (dns_TTLSeconds r = 0 \<and> \<not> time_IsZero (dns_ObservedAt r))
         (Errorf ''dns record observed_at requires ttl_seconds'' []),
       wrap_error id (range_seen (\<lambda>ip. ip)
         (\<lambda>i ip seenIPs. first_error [
            fail_if (\<not> addr_IsValid ip) (Errorf ''dns record ip %d is invalid'' [nat_Itoa i]),
            fail_if (addr_IsUnspecified ip) (Errorf ''dns record ip %d must not be unspecified'' [nat_Itoa i]),
            fail_if (List.member seenIPs ip) (Errorf ''dns record ip %s is duplicated'' [addr_String ip])])
         (dns_IPs r) [])]"

text \<open>\<open>IsExpired\<close> reads the clock when it is given the zero time; \<open>clock\<close> is that reading.\<close>

definition DNSRecord_IsExpired :: "DNSRecord \<Rightarrow> time \<Rightarrow> time \<Rightarrow> bool" where
  "DNSRecord_IsExpired r now0 clock =
     (if dns_TTLSeconds r = 0 then False
      else (let now = (if time_IsZero now0 then clock else now0);
                expiresAt = dns_ObservedAt r + int (unat (dns_TTLSeconds r)) * second
            in \<not> now < expiresAt))"


section \<open>Labels\<close>

abbreviation white :: string where
  "white \<equiv> [CHR '' '', CHR 0x09, CHR 0x0D, CHR 0x0A]"

definition Labels_Validate :: "Labels \<Rightarrow> unit result" where
  "Labels_Validate l =
     range_check (\<lambda>_ (key, value). first_error [
       fail_if (strings_TrimSpace key = '''') (Errorf ''label key is required'' []),
       fail_if (strings_TrimSpace value = '''') (Errorf ''label %q value is required'' [key]),
       fail_if (strings_ContainsAny key white) (Errorf ''label key %q must not contain whitespace'' [key])]) l"

definition LabelExpr_Validate :: "LabelExpr \<Rightarrow> unit result" where
  "LabelExpr_Validate e =
     (let operator = normalizeLabelExprOperator (expr_Operator e) in
      first_error [
        fail_if (strings_TrimSpace (expr_Key e) = '''') (Errorf ''label expression key is required'' []),
        fail_if (strings_ContainsAny (expr_Key e) white)
          (Errorf ''label expression key %q must not contain whitespace'' [expr_Key e]),
        (if operator = ''in'' \<or> operator = ''notin'' then
           fail_if (expr_Values e = [])
             (Errorf ''label expression %q operator %s requires values'' [expr_Key e, expr_Operator e])
         else if operator = ''exists'' \<or> operator = ''doesnotexist'' then
           fail_if (expr_Values e \<noteq> [])
             (Errorf ''label expression %q operator %s must not set values'' [expr_Key e, expr_Operator e])
         else Inl (Errorf ''unsupported label expression operator %q'' [expr_Operator e])),
        wrap_error id (range_seen (\<lambda>value. value)
          (\<lambda>i value seen. first_error [
             fail_if (strings_TrimSpace value = '''')
               (Errorf ''label expression %q value %d is required'' [expr_Key e, nat_Itoa i]),
             fail_if (List.member seen value)
               (Errorf ''label expression %q value %q is duplicated'' [expr_Key e, value])])
          (expr_Values e) [])])"


section \<open>Prefixes\<close>

definition validateMaskedPrefix :: "prefix \<Rightarrow> string \<Rightarrow> unit result" where
  "validateMaskedPrefix p name = fail_if (p \<noteq> prefix_Masked p) (Errorf ''%s must be masked'' [name])"

definition prefixLastAddr :: "prefix \<Rightarrow> addr" where
  "prefixLastAddr p =
     (let addr = prefix_Addr p in
      case addr of
        V4 raw \<Rightarrow>
          addr_AddrFrom4 (drop 12
            (fold (or_bit 12) [nat (prefix_Bits p)..<32] (replicate 12 0 @ word_bytes raw)))
      | _ \<Rightarrow> addr_AddrFrom16 (fold (or_bit 0) [nat (prefix_Bits p)..<128] (addr_As16 addr)))"

definition prefixContainsPrefix :: "prefix \<Rightarrow> prefix \<Rightarrow> bool" where
  "prefixContainsPrefix parent child \<longleftrightarrow>
     prefix_IsValid parent \<and> prefix_IsValid child \<and>
     addr_Is4 (prefix_Addr parent) = addr_Is4 (prefix_Addr child) \<and>
     prefix_Bits parent \<le> prefix_Bits child \<and>
     prefix_Contains parent (prefix_Addr child) \<and>
     prefix_Contains parent (prefixLastAddr child)"

lemma prefixLastAddr_last:
  assumes "prefix_wf p" and "prefix_IsValid p"
  shows "prefixLastAddr p = prefix_last p"
  using assms
proof (cases p rule: prefix_valid_cases)
  case (V4 w n)
  have "fold (or_bit 12) [n..<32] (replicate 12 0 @ word_bytes w) =
      replicate 12 0 @ fold (or_bit 0) [n..<32] (word_bytes w)"
    using fold_or_bit_append [of "replicate 12 0" "[n..<32]" "word_bytes w"] by simp
  with V4 fold_or_bit_word_bytes [of n w] show ?thesis
    by (simp add: prefixLastAddr_def prefix_last_def addr_AddrFrom4_def)
next
  case (V6 w n)
  with fold_or_bit_word_bytes [of n w] show ?thesis
    by (simp add: prefixLastAddr_def prefix_last_def addr_AddrFrom16_def)
qed

interpretation model_last: last_addr prefixLastAddr "\<lambda>p. True"
  by unfold_locales (simp add: prefixLastAddr_last)

lemma prefixContainsPrefix_iff:
  assumes "prefix_wf parent" and "prefix_wf child"
  shows "prefixContainsPrefix parent child \<longleftrightarrow>
    prefix_IsValid parent \<and> prefix_IsValid child \<and> prefix_addrs child \<subseteq> prefix_addrs parent"
  unfolding prefixContainsPrefix_def using model_last.contains_prefix [OF assms] by blast

section \<open>CIDR groups\<close>

definition validate_except_cidrs ::
    "prefix \<Rightarrow> (prefix \<Rightarrow> error) \<Rightarrow> (prefix \<Rightarrow> error) \<Rightarrow> prefix list \<Rightarrow> unit result" where
  "validate_except_cidrs cidr family_error contained_error excepts =
     wrap_error id (range_seen prefix_Masked
       (\<lambda>i except0 seen. first_error [
          fail_if (\<not> prefix_IsValid except0) (Errorf ''except cidr %d is invalid'' [nat_Itoa i]),
          validateMaskedPrefix except0 (''except cidr '' @ nat_Itoa i),
          (let except = prefix_Masked except0 in
           first_error [
             fail_if (addr_Is4 (prefix_Addr except) \<noteq> addr_Is4 (prefix_Addr cidr)) (family_error except),
             fail_if (\<not> prefixContainsPrefix (prefix_Masked cidr) except) (contained_error except),
             fail_if (List.member seen except) (Errorf ''except cidr %s is duplicated'' [prefix_String except])])])
       excepts [])"

definition CIDRGroupEntry_Validate :: "CIDRGroupEntry \<Rightarrow> unit result" where
  "CIDRGroupEntry_Validate e =
     (let cidr = prefix_Masked (entry_CIDR e) in
      first_error [
        fail_if (\<not> prefix_IsValid (entry_CIDR e)) (Errorf ''cidr is invalid'' []),
        validateMaskedPrefix (entry_CIDR e) ''cidr'',
        validate_except_cidrs cidr
          (\<lambda>except. Errorf ''except cidr %s family must match cidr'' [prefix_String except])
          (\<lambda>except. Errorf ''except cidr %s must be contained within cidr %s''
             [prefix_String except, prefix_String cidr])
          (entry_ExceptCIDRs e)])"

definition CIDRGroup_Validate :: "CIDRGroup \<Rightarrow> unit result" where
  "CIDRGroup_Validate g =
     first_error [
       fail_if (cidrg_Name g = '''') (Errorf ''cidr group name is required'' []),
       fail_if (cidrg_VPC g = '''') (Errorf ''cidr group vpc is required'' []),
       fail_if (cidrg_CIDRs g = [] \<and> cidrg_Entries g = []) (Errorf ''cidr group cidrs or entries are required'' []),
       (case range_seen prefix_Masked
          (\<lambda>i cidr seen. first_error [
             fail_if (\<not> prefix_IsValid cidr) (Errorf ''cidr group cidr %d is invalid'' [nat_Itoa i]),
             validateMaskedPrefix cidr (''cidr group cidr '' @ nat_Itoa i),
             fail_if (List.member seen (prefix_Masked cidr))
               (Errorf ''cidr group cidr %s is duplicated'' [prefix_String (prefix_Masked cidr)])])
          (cidrg_CIDRs g) [] of
          Inl e \<Rightarrow> Inl e
        | Inr seen \<Rightarrow>
            wrap_error id (range_seen (\<lambda>entry. prefix_Masked (entry_CIDR entry))
              (\<lambda>i entry seen. first_error [
                 wrap_error (Wrapf ''cidr group entry %d: %w'' [nat_Itoa i]) (CIDRGroupEntry_Validate entry),
                 fail_if (List.member seen (prefix_Masked (entry_CIDR entry)))
                   (Errorf ''cidr group cidr %s is duplicated'' [prefix_String (prefix_Masked (entry_CIDR entry))])])
              (cidrg_Entries g) seen))]"


section \<open>Security groups\<close>

definition remote_selectors :: "SecurityGroupRule \<Rightarrow> bool list" where
  "remote_selectors r =
     [prefix_IsValid (sgr_RemoteCIDR r),
      sgr_RemoteGroup r \<noteq> '''',
      sgr_RemoteEndpointSelector r \<noteq> [] \<or> sgr_RemoteEndpointExprs r \<noteq> [],
      sgr_RemoteService r \<noteq> '''',
      sgr_RemoteCIDRGroup r \<noteq> '''',
      sgr_RemoteEntities r \<noteq> [],
      sgr_RemoteFQDNs r \<noteq> []]"

definition remote_entities :: "string list" where
  "remote_entities =
     [''all'', ''world'', ''world-ipv4'', ''world-ipv6'', ''cluster'', ''private'', ''host'', ''remote-node'', ''none'']"

text \<open>The checks of \<open>SecurityGroupRule.Validate\<close> in two parts, up to and after the ICMP fields.\<close>

definition rule_protocol :: "SecurityGroupRule \<Rightarrow> Protocol" where
  "rule_protocol r = (if sgr_Protocol r = '''' then ProtocolAny else sgr_Protocol r)"

definition SecurityGroupRule_Validate_match :: "SecurityGroupRule \<Rightarrow> unit result" where
  "SecurityGroupRule_Validate_match r =
     (let protocol = rule_protocol r in
      first_error [
        fail_if (sgr_ID r = '''') (Errorf ''rule id is required'' []),
        fail_if (sgr_Direction r \<noteq> DirectionIngress \<and> sgr_Direction r \<noteq> DirectionEgress)
          (Errorf ''unsupported direction %q'' [sgr_Direction r]),
        fail_if (\<not> validProtocol protocol) (Errorf ''unsupported protocol %q'' [protocol]),
        fail_if (sgr_Priority r < SecurityGroupPriorityMin \<or> sgr_Priority r > SecurityGroupPriorityMax)
          (Errorf ''security group rule priority must be between %d and %d''
             [strconv_Itoa SecurityGroupPriorityMin, strconv_Itoa SecurityGroupPriorityMax]),
        fail_if (\<not> List.member [ActionAllow, ActionDrop, ActionReject, ActionLog] (sgr_Action r))
          (Errorf ''unsupported security action %q'' [sgr_Action r]),
        fail_if (sgr_Ports r \<noteq> [] \<and> \<not> port_protocol protocol \<and>
                 \<not> (protocol = ProtocolAny \<and> sgr_RemoteService r \<noteq> ''''))
          (Errorf ''ports require tcp, udp, or sctp protocol'' []),
        fail_if (sgr_NamedPorts r \<noteq> [] \<and> \<not> port_protocol protocol)
          (Errorf ''named ports require tcp, udp, or sctp protocol'' []),
        fail_if (sgr_NamedPorts r \<noteq> [] \<and> sgr_Direction r = DirectionEgress \<and> sgr_RemoteGroup r = '''' \<and>
                 sgr_RemoteEndpointSelector r = [] \<and> sgr_RemoteEndpointExprs r = [])
          (Errorf ''egress named ports require remote_group or remote_endpoint_selector'' []),
        wrap_error id (range_seen (\<lambda>name. name)
          (\<lambda>i name seen. first_error [
             wrap_error (Wrapf ''named port %d: %w'' [nat_Itoa i]) (validateNamedPortName name),
             fail_if (List.member seen name) (Errorf ''named port %s is duplicated'' [name])])
          (sgr_NamedPorts r) []),
        fail_if (sgr_ICMPType r \<noteq> None \<and> protocol \<noteq> ProtocolICMP) (Errorf ''icmp_type requires icmp protocol'' []),
        fail_if (sgr_ICMPCode r \<noteq> None \<and> protocol \<noteq> ProtocolICMP) (Errorf ''icmp_code requires icmp protocol'' []),
        fail_if (sgr_ICMPCode r \<noteq> None \<and> sgr_ICMPType r = None) (Errorf ''icmp_code requires icmp_type'' [])])"

definition SecurityGroupRule_Validate_remote :: "SecurityGroupRule \<Rightarrow> unit result" where
  "SecurityGroupRule_Validate_remote r =
      first_error [
        fail_if (length (filter id (remote_selectors r)) > 1)
          (Errorf ''remote cidr, remote group, remote endpoint selector, remote service, remote cidr group, remote entities and remote fqdns are mutually exclusive'' []),
        fail_if (sgr_RemoteService r \<noteq> '''' \<and> sgr_Direction r \<noteq> DirectionEgress)
          (Errorf ''remote service is only supported for egress rules'' []),
        wrap_error (Wrapf ''remote endpoint selector: %w'' []) (Labels_Validate (sgr_RemoteEndpointSelector r)),
        range_check (\<lambda>i expression.
            wrap_error (Wrapf ''remote endpoint expression %d: %w'' [nat_Itoa i]) (LabelExpr_Validate expression))
          (sgr_RemoteEndpointExprs r),
        wrap_error id (range_seen (\<lambda>entity. entity)
          (\<lambda>i entity seen. first_error [
             fail_if (\<not> List.member remote_entities entity)
               (Errorf ''remote entity %d: unsupported remote entity %q'' [nat_Itoa i, entity]),
             fail_if (List.member seen entity) (Errorf ''remote entity %q is duplicated'' [entity])])
          (sgr_RemoteEntities r) []),
        fail_if (List.member (sgr_RemoteEntities r) ''none'' \<and> length (sgr_RemoteEntities r) > 1)
          (Errorf ''remote entity none must not be combined with other remote entities'' []),
        fail_if (sgr_ExceptCIDRs r \<noteq> [] \<and> \<not> prefix_IsValid (sgr_RemoteCIDR r))
          (Errorf ''except cidrs require remote cidr'' []),
        (if prefix_IsValid (sgr_RemoteCIDR r) then validateMaskedPrefix (sgr_RemoteCIDR r) ''remote cidr'' else Inr ()),
        validate_except_cidrs (sgr_RemoteCIDR r)
          (\<lambda>except. Errorf ''except cidr %s family must match remote cidr'' [prefix_String except])
          (\<lambda>except. Errorf ''except cidr %s must be contained within remote cidr %s''
             [prefix_String except, prefix_String (prefix_Masked (sgr_RemoteCIDR r))])
          (sgr_ExceptCIDRs r),
        fail_if (sgr_RemoteFQDNs r \<noteq> [] \<and> sgr_Direction r \<noteq> DirectionEgress)
          (Errorf ''remote fqdns are only supported for egress rules'' []),
        range_check (\<lambda>i selector.
            wrap_error (Wrapf ''remote fqdn %d: %w'' [nat_Itoa i]) (FQDNSelector_Validate selector))
          (sgr_RemoteFQDNs r),
        wrap_error id (range_seen (\<lambda>p. p)
          (\<lambda>i p seen. first_error [
             wrap_error (Wrapf ''port range %d: %w'' [nat_Itoa i]) (PortRange_Validate p),
             fail_if (List.member seen p)
               (Errorf ''port range %d %d-%d is duplicated''
                 [nat_Itoa i, u16_String (port_From p), u16_String (port_To p)])])
          (sgr_Ports r) [])]"

definition SecurityGroupRule_Validate :: "SecurityGroupRule \<Rightarrow> unit result" where
  "SecurityGroupRule_Validate r =
     first_error [SecurityGroupRule_Validate_match r, SecurityGroupRule_Validate_remote r]"

definition SecurityGroup_Validate :: "SecurityGroup \<Rightarrow> unit result" where
  "SecurityGroup_Validate s =
     first_error [
       fail_if (sg_Name s = '''') (Errorf ''security group name is required'' []),
       fail_if (sg_VPC s = '''') (Errorf ''security group vpc is required'' []),
       fail_if (sg_Tier s < 0 \<or> sg_Tier s > 1) (Errorf ''security group tier must be between 0 and 1'' []),
       wrap_error id (range_seen sgr_ID
         (\<lambda>i rule seen. first_error [
            wrap_error (Wrapf ''security group rule %d: %w'' [nat_Itoa i]) (SecurityGroupRule_Validate rule),
            fail_if (List.member seen (sgr_ID rule))
              (Errorf ''security group rule %q is duplicated'' [sgr_ID rule])])
         (sg_Rules s) [])]"

section \<open>What the checks establish\<close>

named_theorems validate_ok \<open>characterisations of the validation functions\<close>

lemma PortRange_Validate_ok [validate_ok]:
  "is_ok (PortRange_Validate p) \<longleftrightarrow> 0 < port_From p \<and> port_From p \<le> port_To p"
  by (auto simp: PortRange_Validate_def word_gt_0 not_less)

lemma name_rune_ascii: "name_rune r \<Longrightarrow> r < 128"
  by (auto simp: name_rune_def)

lemma dns_label_rune_ascii: "dns_label_rune b r \<Longrightarrow> r < 128"
  by (auto simp: dns_label_rune_def)

lemma validateNamedPortName_ok [validate_ok]:
  "is_ok (validateNamedPortName name) \<longleftrightarrow> name \<noteq> '''' \<and> (\<forall>c \<in> set name. name_rune (of_char c))"
proof -
  have "is_ok (range_check (\<lambda>_ r. fail_if (\<not> name_rune r) (e r)) (utf8_runes name)) \<longleftrightarrow>
      (\<forall>r \<in> set (utf8_runes name). name_rune r)" for e
    by (rule is_ok_range_check) simp
  then show ?thesis
    using utf8_runes_all [where s = name, OF name_rune_ascii] by (auto simp: validateNamedPortName_def)
qed

lemma NamedPort_Validate_ok [validate_ok]:
  "is_ok (NamedPort_Validate p) \<longleftrightarrow>
   is_ok (validateNamedPortName (named_Name p)) \<and> port_protocol (named_Protocol p) \<and> named_Port p \<noteq> 0"
  by (auto simp: NamedPort_Validate_def port_protocol_def)

text \<open>A label of a host name: 1 to 63 letters, digits, hyphens and underscores, no hyphen at an end.\<close>

definition dns_label_ok :: "bool \<Rightarrow> string \<Rightarrow> bool" where
  "dns_label_ok wildcard l \<longleftrightarrow>
     l \<noteq> '''' \<and> length l \<le> 63 \<and> hd l \<noteq> CHR ''-'' \<and> last l \<noteq> CHR ''-'' \<and>
     (\<forall>c \<in> set l. dns_label_rune wildcard (of_char c))"

lemma strings_HasPrefix_char: "strings_HasPrefix s [c] \<longleftrightarrow> s \<noteq> [] \<and> hd s = c"
  by (cases s) (auto simp: strings_HasPrefix_def)

lemma strings_HasSuffix_char: "strings_HasSuffix s [c] \<longleftrightarrow> s \<noteq> [] \<and> last s = c"
  by (cases s rule: rev_cases) (auto simp: strings_HasSuffix_def)

lemma validate_dns_label_ok: "is_ok (validate_dns_label name b l) \<longleftrightarrow> dns_label_ok b l"
proof -
  have "is_ok (range_check (\<lambda>_ r. fail_if (\<not> dns_label_rune b r) (e r)) (utf8_runes l)) \<longleftrightarrow>
      (\<forall>r \<in> set (utf8_runes l). dns_label_rune b r)" for e
    by (rule is_ok_range_check) simp
  then show ?thesis
    using utf8_runes_all [where s = l, OF dns_label_rune_ascii [of b]]
    by (auto simp: validate_dns_label_def dns_label_ok_def strings_HasPrefix_char strings_HasSuffix_char)
qed

definition strip_root :: "string \<Rightarrow> string" where
  "strip_root name = (if strings_HasSuffix name ''.'' then strings_TrimSuffix name ''.'' else name)"

lemma validateDNSName_ok [validate_ok]:
  "is_ok (validateDNSName name b) \<longleftrightarrow>
   (let n = strip_root (strings_TrimSpace name) in
    n \<noteq> '''' \<and> length n \<le> 253 \<and> (\<forall>l \<in> set (strings_Split n (CHR ''.'')). dns_label_ok b l))"
proof -
  have labels: "is_ok (range_check (\<lambda>_ l. validate_dns_label n b l) ls) \<longleftrightarrow> (\<forall>l \<in> set ls. dns_label_ok b l)" for n ls
    by (rule is_ok_range_check) (simp add: validate_dns_label_ok)
  have "strip_root '''' = ''''" by (simp add: strip_root_def strings_HasSuffix_def)
  then show ?thesis
    by (auto simp: validateDNSName_def Let_def labels strip_root_def [symmetric])
qed

lemma DNSRecord_Validate_ok [validate_ok]:
  "is_ok (DNSRecord_Validate r) \<longleftrightarrow>
   is_ok (validateDNSName (dns_Name r) False) \<and> dns_IPs r \<noteq> [] \<and>
   (dns_TTLSeconds r = 0 \<longleftrightarrow> time_IsZero (dns_ObservedAt r)) \<and> distinct (dns_IPs r) \<and>
   (\<forall>ip \<in> set (dns_IPs r). addr_IsValid ip \<and> \<not> addr_IsUnspecified ip)"
proof -
  let ?body = "\<lambda>i ip seenIPs. first_error [
            fail_if (\<not> addr_IsValid ip) (Errorf ''dns record ip %d is invalid'' [nat_Itoa i]),
            fail_if (addr_IsUnspecified ip) (Errorf ''dns record ip %d must not be unspecified'' [nat_Itoa i]),
            fail_if (List.member seenIPs ip) (Errorf ''dns record ip %s is duplicated'' [addr_String ip])]"
  have "is_ok (range_seen (\<lambda>ip. ip) ?body (dns_IPs r) []) \<longleftrightarrow>
      (\<forall>ip \<in> set (dns_IPs r). addr_IsValid ip \<and> \<not> addr_IsUnspecified ip) \<and> distinct (dns_IPs r)"
    by (subst is_ok_range_seen [where P = "\<lambda>ip. addr_IsValid ip \<and> \<not> addr_IsUnspecified ip"])
      auto
  then show ?thesis
    by (auto simp: DNSRecord_Validate_def word_gt_0)
qed

lemma validateMaskedPrefix_ok [validate_ok]: "is_ok (validateMaskedPrefix p name) \<longleftrightarrow> prefix_Masked p = p"
  by (auto simp: validateMaskedPrefix_def)

lemma FQDNSelector_Validate_ok [validate_ok]:
  "is_ok (FQDNSelector_Validate s) \<longleftrightarrow>
   (strings_TrimSpace (fqdn_MatchName s) = '''') \<noteq> (strings_TrimSpace (fqdn_MatchPattern s) = '''') \<and>
   (strings_TrimSpace (fqdn_MatchName s) \<noteq> '''' \<longrightarrow> is_ok (validateDNSName (strings_TrimSpace (fqdn_MatchName s)) False)) \<and>
   (strings_TrimSpace (fqdn_MatchPattern s) \<noteq> '''' \<longrightarrow> is_ok (validateDNSName (strings_TrimSpace (fqdn_MatchPattern s)) True))"
  by (auto simp: FQDNSelector_Validate_def Let_def)

text \<open>Exceptions of a prefix: masked, distinct, and inside the prefix.\<close>

definition excepts_ok :: "prefix \<Rightarrow> prefix list \<Rightarrow> bool" where
  "excepts_ok cidr excepts \<longleftrightarrow>
     distinct excepts \<and>
     (\<forall>e \<in> set excepts. prefix_IsValid e \<and> prefix_Masked e = e \<and> prefix_addrs e \<subseteq> prefix_addrs cidr)"

lemma validate_except_cidrs_ok:
  assumes "prefix_wf cidr" and "prefix_IsValid cidr" and "\<forall>e \<in> set excepts. prefix_wf e"
  shows "is_ok (validate_except_cidrs cidr fe ce excepts) \<longleftrightarrow> excepts_ok cidr excepts"
proof -
  let ?P = "\<lambda>e. prefix_IsValid e \<and> prefix_Masked e = e \<and> prefix_addrs e \<subseteq> prefix_addrs cidr"
  have fam: "addr_Is4 (prefix_Addr e) = addr_Is4 (prefix_Addr cidr)"
    if "prefix_wf e" "prefix_IsValid e" "prefix_addrs e \<subseteq> prefix_addrs cidr" for e
  proof -
    have "prefix_Contains cidr (prefix_Addr e)"
      using that prefix_addrs_subset_iff [OF assms(1,2)] by blast
    then show ?thesis by (rule prefix_Contains_family [OF assms(1)])
  qed
  have "is_ok (validate_except_cidrs cidr fe ce excepts) \<longleftrightarrow>
      (\<forall>e \<in> set excepts. ?P e) \<and> distinct (map prefix_Masked excepts) \<and>
      set (map prefix_Masked excepts) \<inter> set [] = {}"
    unfolding validate_except_cidrs_def is_ok_wrap_error
  proof (rule is_ok_range_seen)
    fix i e s assume "e \<in> set excepts"
    with assms(3) have wf: "prefix_wf e" by simp
    then have contains: "prefixContainsPrefix (prefix_Masked cidr) e \<longleftrightarrow>
        prefix_IsValid e \<and> prefix_addrs e \<subseteq> prefix_addrs cidr"
      using assms(1,2) by (simp add: prefixContainsPrefix_iff)
    show "is_ok (first_error [
          fail_if (\<not> prefix_IsValid e) (Errorf ''except cidr %d is invalid'' [nat_Itoa i]),
          validateMaskedPrefix e (''except cidr '' @ nat_Itoa i),
          (let except = prefix_Masked e in
           first_error [
             fail_if (addr_Is4 (prefix_Addr except) \<noteq> addr_Is4 (prefix_Addr cidr)) (fe except),
             fail_if (\<not> prefixContainsPrefix (prefix_Masked cidr) except) (ce except),
             fail_if (List.member s except) (Errorf ''except cidr %s is duplicated'' [prefix_String except])])]) \<longleftrightarrow>
        ?P e \<and> prefix_Masked e \<notin> set s"
    proof (cases "prefix_IsValid e \<and> prefix_Masked e = e")
      case True
      then show ?thesis
        using fam [OF wf] by (simp add: Let_def validate_ok contains) blast
    next
      case False
      then show ?thesis by (auto simp: validate_ok)
    qed
  qed
  moreover have "map prefix_Masked excepts = excepts" if "\<forall>e \<in> set excepts. ?P e"
    using that by (auto intro: map_idI)
  ultimately show ?thesis by (auto simp: excepts_ok_def)
qed

definition entry_wf :: "CIDRGroupEntry \<Rightarrow> bool" where
  "entry_wf e \<longleftrightarrow> prefix_wf (entry_CIDR e) \<and> (\<forall>x \<in> set (entry_ExceptCIDRs e). prefix_wf x)"

definition entry_ok :: "CIDRGroupEntry \<Rightarrow> bool" where
  "entry_ok e \<longleftrightarrow> prefix_IsValid (entry_CIDR e) \<and> prefix_Masked (entry_CIDR e) = entry_CIDR e \<and>
     excepts_ok (entry_CIDR e) (entry_ExceptCIDRs e)"

lemma CIDRGroupEntry_Validate_ok:
  assumes "entry_wf e"
  shows "is_ok (CIDRGroupEntry_Validate e) \<longleftrightarrow> entry_ok e"
  using assms
  by (auto simp: CIDRGroupEntry_Validate_def Let_def validate_ok validate_except_cidrs_ok
      entry_wf_def entry_ok_def)

text \<open>
  What a validated security group rule is: the fields that select the remote side are exclusive,
  those that need a protocol or a direction have it, and lists have no duplicates.
\<close>

definition sgr_match_ok :: "SecurityGroupRule \<Rightarrow> bool" where
  "sgr_match_ok r \<longleftrightarrow>
     sgr_ID r \<noteq> '''' \<and> sgr_Direction r \<in> {DirectionIngress, DirectionEgress} \<and>
     rule_protocol r \<in> {ProtocolAny, ProtocolTCP, ProtocolUDP, ProtocolICMP, ProtocolSCTP} \<and>
     1 \<le> sgr_Priority r \<and> sgr_Priority r \<le> 16384 \<and>
     sgr_Action r \<in> {ActionAllow, ActionDrop, ActionReject, ActionLog} \<and>
     (sgr_Ports r \<noteq> [] \<longrightarrow> port_protocol (rule_protocol r) \<or> rule_protocol r = ProtocolAny \<and> sgr_RemoteService r \<noteq> '''') \<and>
     (sgr_NamedPorts r \<noteq> [] \<longrightarrow> port_protocol (rule_protocol r)) \<and>
     (sgr_NamedPorts r \<noteq> [] \<and> sgr_Direction r = DirectionEgress \<longrightarrow>
        sgr_RemoteGroup r \<noteq> '''' \<or> sgr_RemoteEndpointSelector r \<noteq> [] \<or> sgr_RemoteEndpointExprs r \<noteq> []) \<and>
     distinct (sgr_NamedPorts r) \<and> (\<forall>n \<in> set (sgr_NamedPorts r). is_ok (validateNamedPortName n)) \<and>
     (sgr_ICMPType r \<noteq> None \<longrightarrow> rule_protocol r = ProtocolICMP) \<and>
     (sgr_ICMPCode r \<noteq> None \<longrightarrow> rule_protocol r = ProtocolICMP \<and> sgr_ICMPType r \<noteq> None)"

definition sgr_remote_ok :: "SecurityGroupRule \<Rightarrow> bool" where
  "sgr_remote_ok r \<longleftrightarrow>
     length (filter id (remote_selectors r)) \<le> 1 \<and>
     (sgr_RemoteService r \<noteq> '''' \<or> sgr_RemoteFQDNs r \<noteq> [] \<longrightarrow> sgr_Direction r = DirectionEgress) \<and>
     is_ok (Labels_Validate (sgr_RemoteEndpointSelector r)) \<and>
     (\<forall>e \<in> set (sgr_RemoteEndpointExprs r). is_ok (LabelExpr_Validate e)) \<and>
     distinct (sgr_RemoteEntities r) \<and> set (sgr_RemoteEntities r) \<subseteq> set remote_entities \<and>
     (''none'' \<in> set (sgr_RemoteEntities r) \<longrightarrow> sgr_RemoteEntities r = [''none'']) \<and>
     (prefix_IsValid (sgr_RemoteCIDR r) \<longrightarrow> prefix_Masked (sgr_RemoteCIDR r) = sgr_RemoteCIDR r) \<and>
     (sgr_ExceptCIDRs r \<noteq> [] \<longrightarrow> prefix_IsValid (sgr_RemoteCIDR r)) \<and>
     excepts_ok (sgr_RemoteCIDR r) (sgr_ExceptCIDRs r) \<and>
     (\<forall>s \<in> set (sgr_RemoteFQDNs r). is_ok (FQDNSelector_Validate s)) \<and>
     distinct (sgr_Ports r) \<and> (\<forall>p \<in> set (sgr_Ports r). 0 < port_From p \<and> port_From p \<le> port_To p)"

definition sgr_wf :: "SecurityGroupRule \<Rightarrow> bool" where
  "sgr_wf r \<longleftrightarrow> prefix_wf (sgr_RemoteCIDR r) \<and> (\<forall>e \<in> set (sgr_ExceptCIDRs r). prefix_wf e)"

lemma validate_except_cidrs_Nil [simp]: "is_ok (validate_except_cidrs cidr fe ce [])"
  by (simp add: validate_except_cidrs_def range_seen_def)

lemma excepts_ok_Nil [simp]: "excepts_ok cidr []"
  by (simp add: excepts_ok_def)

lemma sgr_excepts_ok:
  assumes "sgr_wf r" and "sgr_ExceptCIDRs r \<noteq> [] \<longrightarrow> prefix_IsValid (sgr_RemoteCIDR r)"
  shows "is_ok (validate_except_cidrs (sgr_RemoteCIDR r) fe ce (sgr_ExceptCIDRs r)) \<longleftrightarrow>
    excepts_ok (sgr_RemoteCIDR r) (sgr_ExceptCIDRs r)"
  using assms validate_except_cidrs_ok by (cases "sgr_ExceptCIDRs r = []") (auto simp: sgr_wf_def)

lemma distinct_mem_singleton: "distinct xs \<Longrightarrow> x \<in> set xs \<Longrightarrow> length xs \<le> 1 \<longleftrightarrow> xs = [x]"
  by (cases xs) (auto simp: le_Suc_eq)

lemma SecurityGroupRule_Validate_match_ok: "is_ok (SecurityGroupRule_Validate_match r) \<longleftrightarrow> sgr_match_ok r"
proof -
  have names: "is_ok (range_seen (\<lambda>name. name)
          (\<lambda>i name seen. first_error [
             wrap_error (Wrapf ''named port %d: %w'' [nat_Itoa i]) (validateNamedPortName name),
             fail_if (name \<in> set seen) (Errorf ''named port %s is duplicated'' [name])])
          xs []) \<longleftrightarrow> (\<forall>n \<in> set xs. is_ok (validateNamedPortName n)) \<and> distinct xs" for xs
    by (subst is_ok_range_seen [where P = "\<lambda>n. is_ok (validateNamedPortName n)"]) auto
  show ?thesis
    unfolding SecurityGroupRule_Validate_match_def Let_def sgr_match_ok_def
    by (simp add: names validProtocol_def not_less del: not_None_eq) argo
qed

lemma SecurityGroupRule_Validate_remote_ok:
  assumes "sgr_wf r"
  shows "is_ok (SecurityGroupRule_Validate_remote r) \<longleftrightarrow> sgr_remote_ok r"
proof -
  have entities: "is_ok (range_seen (\<lambda>entity. entity)
          (\<lambda>i entity seen. first_error [
             fail_if (entity \<notin> set remote_entities)
               (Errorf ''remote entity %d: unsupported remote entity %q'' [nat_Itoa i, entity]),
             fail_if (entity \<in> set seen) (Errorf ''remote entity %q is duplicated'' [entity])])
          xs []) \<longleftrightarrow> set xs \<subseteq> set remote_entities \<and> distinct xs" for xs
    by (subst is_ok_range_seen [where P = "\<lambda>e. e \<in> set remote_entities"]) auto
  have ports: "is_ok (range_seen (\<lambda>p. p)
          (\<lambda>i p seen. first_error [
             wrap_error (Wrapf ''port range %d: %w'' [nat_Itoa i]) (PortRange_Validate p),
             fail_if (p \<in> set seen)
               (Errorf ''port range %d %d-%d is duplicated''
                 [nat_Itoa i, u16_String (port_From p), u16_String (port_To p)])])
          xs []) \<longleftrightarrow> (\<forall>p \<in> set xs. 0 < port_From p \<and> port_From p \<le> port_To p) \<and> distinct xs" for xs
    by (subst is_ok_range_seen [where P = "\<lambda>p. 0 < port_From p \<and> port_From p \<le> port_To p"])
      (auto simp: validate_ok)
  have exprs: "is_ok (range_check (\<lambda>i e. wrap_error (Wrapf ''remote endpoint expression %d: %w'' [nat_Itoa i])
          (LabelExpr_Validate e)) xs) \<longleftrightarrow> (\<forall>e \<in> set xs. is_ok (LabelExpr_Validate e))" for xs
    by (rule is_ok_range_check) simp
  have fqdns: "is_ok (range_check (\<lambda>i s. wrap_error (Wrapf ''remote fqdn %d: %w'' [nat_Itoa i])
          (FQDNSelector_Validate s)) xs) \<longleftrightarrow> (\<forall>s \<in> set xs. is_ok (FQDNSelector_Validate s))" for xs
    by (rule is_ok_range_check) simp
  have none: "(\<not> (''none'' \<in> set xs \<and> 1 < length xs)) = (''none'' \<in> set xs \<longrightarrow> xs = [''none''])"
    if "distinct xs" for xs
    using distinct_mem_singleton [OF that, of "''none''"] by (auto simp: not_less)
  note unfold = SecurityGroupRule_Validate_remote_def sgr_remote_ok_def
  show ?thesis
  proof (cases "distinct (sgr_RemoteEntities r) \<and>
      (sgr_ExceptCIDRs r \<noteq> [] \<longrightarrow> prefix_IsValid (sgr_RemoteCIDR r))")
    case False
    then show ?thesis unfolding unfold by (simp add: entities) argo
  next
    case True
    with sgr_excepts_ok [OF assms] none show ?thesis
      unfolding unfold
      by (simp add: entities ports exprs fqdns validateMaskedPrefix_ok not_less) argo
  qed
qed

text \<open>
  What an accepted rule is, in its own terms. Names, labels and host names first: letters and digits,
  text with something in it, and the words an operator may be written with.
\<close>

definition alnum :: "char \<Rightarrow> bool" where
  "alnum c \<longleftrightarrow> (of_char c :: nat) \<in> {48..57} \<union> {65..90} \<union> {97..122}"

definition blank :: "string \<Rightarrow> bool" where
  "blank s \<longleftrightarrow> (\<forall>c \<in> set s. c \<in> {CHR '' '', CHR 0x09, CHR 0x0A, CHR 0x0B, CHR 0x0C, CHR 0x0D})"

definition label_key_ok :: "string \<Rightarrow> bool" where
  "label_key_ok k \<longleftrightarrow> \<not> blank k \<and> set k \<inter> {CHR '' '', CHR 0x09, CHR 0x0D, CHR 0x0A} = {}"

definition operator_word :: "string \<Rightarrow> string" where
  "operator_word op = filter (\<lambda>c. c \<noteq> CHR ''_'' \<and> c \<noteq> CHR ''-'') (strings_ToLower (strings_TrimSpace op))"

definition label_expr_ok :: "LabelExpr \<Rightarrow> bool" where
  "label_expr_ok e \<longleftrightarrow>
     label_key_ok (expr_Key e) \<and> distinct (expr_Values e) \<and> (\<forall>v \<in> set (expr_Values e). \<not> blank v) \<and>
     (operator_word (expr_Operator e) \<in> {''in'', ''notin''} \<and> expr_Values e \<noteq> [] \<or>
      operator_word (expr_Operator e) \<in> {''exists'', ''doesnotexist''} \<and> expr_Values e = [])"

definition host_label_ok :: "bool \<Rightarrow> string \<Rightarrow> bool" where
  "host_label_ok wildcard l \<longleftrightarrow>
     l \<noteq> '''' \<and> length l \<le> 63 \<and> hd l \<noteq> CHR ''-'' \<and> last l \<noteq> CHR ''-'' \<and>
     (\<forall>c \<in> set l. alnum c \<or> c \<in> {CHR ''-'', CHR ''_''} \<or> wildcard \<and> c = CHR ''*'')"

definition host_name_ok :: "bool \<Rightarrow> string \<Rightarrow> bool" where
  "host_name_ok wildcard name \<longleftrightarrow>
     (let n = strip_root (strings_TrimSpace name) in
      n \<noteq> '''' \<and> length n \<le> 253 \<and> (\<forall>l \<in> set (strings_Split n (CHR ''.'')). host_label_ok wildcard l))"

definition fqdn_selector_ok :: "FQDNSelector \<Rightarrow> bool" where
  "fqdn_selector_ok s \<longleftrightarrow>
     (if blank (fqdn_MatchPattern s) then host_name_ok False (strings_TrimSpace (fqdn_MatchName s))
      else blank (fqdn_MatchName s) \<and> host_name_ok True (strings_TrimSpace (fqdn_MatchPattern s)))"

text \<open>The ways in which a rule may select the remote side.\<close>

datatype remote_kind = ByCIDR | ByGroup | ByEndpoints | ByService | ByCIDRGroup | ByEntities | ByFQDNs

fun selects_by :: "SecurityGroupRule \<Rightarrow> remote_kind \<Rightarrow> bool" where
  "selects_by r ByCIDR = prefix_IsValid (sgr_RemoteCIDR r)"
| "selects_by r ByGroup = (sgr_RemoteGroup r \<noteq> '''')"
| "selects_by r ByEndpoints = (sgr_RemoteEndpointSelector r \<noteq> [] \<or> sgr_RemoteEndpointExprs r \<noteq> [])"
| "selects_by r ByService = (sgr_RemoteService r \<noteq> '''')"
| "selects_by r ByCIDRGroup = (sgr_RemoteCIDRGroup r \<noteq> '''')"
| "selects_by r ByEntities = (sgr_RemoteEntities r \<noteq> [])"
| "selects_by r ByFQDNs = (sgr_RemoteFQDNs r \<noteq> [])"

text \<open>The protocol of a rule, which is any where none is given.\<close>

definition speaks :: "SecurityGroupRule \<Rightarrow> Protocol set \<Rightarrow> bool" where
  "speaks r protocols \<longleftrightarrow> (if sgr_Protocol r = '''' then ''any'' else sgr_Protocol r) \<in> protocols"

definition rule_kind_ok :: "SecurityGroupRule \<Rightarrow> bool" where
  "rule_kind_ok r \<longleftrightarrow>
     sgr_ID r \<noteq> '''' \<and> sgr_Direction r \<in> {''ingress'', ''egress''} \<and>
     speaks r {''any'', ''tcp'', ''udp'', ''icmp'', ''sctp''} \<and>
     sgr_Priority r \<in> {1..16384} \<and> sgr_Action r \<in> {''allow'', ''drop'', ''reject'', ''log''}"

text \<open>
  Ports need a protocol that has them, or any protocol towards a service; named ports always need one,
  and on egress also the endpoints that name them. ICMP types need ICMP, and codes need types.
\<close>

definition rule_ports_ok :: "SecurityGroupRule \<Rightarrow> bool" where
  "rule_ports_ok r \<longleftrightarrow>
     (sgr_Ports r \<noteq> [] \<longrightarrow> speaks r {''tcp'', ''udp'', ''sctp''} \<or> speaks r {''any''} \<and> selects_by r ByService) \<and>
     distinct (sgr_Ports r) \<and> (\<forall>p \<in> set (sgr_Ports r). 0 < port_From p \<and> port_From p \<le> port_To p) \<and>
     (sgr_NamedPorts r \<noteq> [] \<longrightarrow> speaks r {''tcp'', ''udp'', ''sctp''} \<and>
        (sgr_Direction r = ''egress'' \<longrightarrow> selects_by r ByGroup \<or> selects_by r ByEndpoints)) \<and>
     distinct (sgr_NamedPorts r) \<and>
     (\<forall>n \<in> set (sgr_NamedPorts r). n \<noteq> '''' \<and> (\<forall>c \<in> set n. alnum c \<or> c \<in> {CHR ''-'', CHR ''_''})) \<and>
     (sgr_ICMPType r \<noteq> None \<longrightarrow> speaks r {''icmp''}) \<and>
     (sgr_ICMPCode r \<noteq> None \<longrightarrow> speaks r {''icmp''} \<and> sgr_ICMPType r \<noteq> None)"

text \<open>
  The remote side: at most one way of selecting it; services and host names only on egress; well-formed
  labels, expressions and host names; known entities, none of them twice and \<open>none\<close> only alone;
  exceptions only from a masked prefix, and inside it.
\<close>

definition rule_remote_ok :: "SecurityGroupRule \<Rightarrow> bool" where
  "rule_remote_ok r \<longleftrightarrow>
     (\<forall>k k'. selects_by r k \<and> selects_by r k' \<longrightarrow> k = k') \<and>
     (selects_by r ByService \<or> selects_by r ByFQDNs \<longrightarrow> sgr_Direction r = ''egress'') \<and>
     (\<forall>(k, v) \<in> set (sgr_RemoteEndpointSelector r). label_key_ok k \<and> \<not> blank v) \<and>
     (\<forall>e \<in> set (sgr_RemoteEndpointExprs r). label_expr_ok e) \<and>
     (\<forall>s \<in> set (sgr_RemoteFQDNs r). fqdn_selector_ok s) \<and>
     distinct (sgr_RemoteEntities r) \<and>
     (sgr_RemoteEntities r = [''none''] \<or>
      set (sgr_RemoteEntities r) \<subseteq>
        {''all'', ''world'', ''world-ipv4'', ''world-ipv6'', ''cluster'', ''private'', ''host'', ''remote-node''}) \<and>
     (selects_by r ByCIDR \<longrightarrow> prefix_Masked (sgr_RemoteCIDR r) = sgr_RemoteCIDR r) \<and>
     (sgr_ExceptCIDRs r \<noteq> [] \<longrightarrow> selects_by r ByCIDR) \<and> excepts_ok (sgr_RemoteCIDR r) (sgr_ExceptCIDRs r)"

lemma TrimSpace_blank: "strings_TrimSpace s = '''' \<longleftrightarrow> blank s"
proof -
  have space: "is_space c \<longleftrightarrow> c \<in> {CHR '' '', CHR 0x09, CHR 0x0A, CHR 0x0B, CHR 0x0C, CHR 0x0D}" for c
  proof -
    have "c = d \<longleftrightarrow> (of_char c :: nat) = of_char d" for d by simp
    then show ?thesis by (simp add: is_space_def del: of_char_eq_iff) argo
  qed
  have "blank s \<longleftrightarrow> (\<forall>c \<in> set s. is_space c)" unfolding blank_def space ..
  moreover have "\<exists>c \<in> set (dropWhile is_space s). \<not> is_space c" if "\<not> (\<forall>c \<in> set s. is_space c)"
  proof -
    from that have "dropWhile is_space s \<noteq> []" by (simp add: dropWhile_eq_Nil_conv)
    then show ?thesis using hd_dropWhile list.set_sel(1) by metis
  qed
  ultimately show ?thesis
    by (auto simp: strings_TrimSpace_def dropWhile_eq_Nil_conv dest: set_dropWhileD)
qed

lemma name_rune_char: "name_rune (of_char c) \<longleftrightarrow> alnum c \<or> c \<in> {CHR ''-'', CHR ''_''}"
proof -
  have "c = d \<longleftrightarrow> (of_char c :: nat) = of_char d" for d by simp
  then show ?thesis by (auto simp: name_rune_def alnum_def simp del: of_char_eq_iff)
qed

lemma dns_label_rune_char: "dns_label_rune w (of_char c) \<longleftrightarrow> alnum c \<or> c \<in> {CHR ''-'', CHR ''_''} \<or> w \<and> c = CHR ''*''"
proof -
  have "c = d \<longleftrightarrow> (of_char c :: nat) = of_char d" for d by simp
  then show ?thesis by (auto simp: dns_label_rune_def alnum_def simp del: of_char_eq_iff)
qed

lemma host_name_ok_iff: "is_ok (validateDNSName name w) \<longleftrightarrow> host_name_ok w name"
  by (simp add: validateDNSName_ok host_name_ok_def dns_label_ok_def host_label_ok_def dns_label_rune_char Let_def)

lemma fqdn_selector_ok_iff: "is_ok (FQDNSelector_Validate s) \<longleftrightarrow> fqdn_selector_ok s"
proof -
  have "\<not> host_name_ok False ''''" by (simp add: host_name_ok_def strip_root_def strings_HasSuffix_def strings_TrimSpace_def)
  then show ?thesis
    by (auto simp: FQDNSelector_Validate_ok fqdn_selector_ok_def host_name_ok_iff TrimSpace_blank)
      (metis TrimSpace_blank)+
qed

lemma operator_word_iff: "normalizeLabelExprOperator op = operator_word op"
proof -
  have "strings_ReplaceAll s c [] = filter (\<lambda>x. x \<noteq> c) s" for s c
    by (induction s) (simp_all add: strings_ReplaceAll_def)
  then show ?thesis by (auto simp: normalizeLabelExprOperator_def operator_word_def Let_def intro!: filter_cong)
qed

lemma white_key: "strings_ContainsAny k white \<longleftrightarrow> set k \<inter> {CHR '' '', CHR 0x09, CHR 0x0D, CHR 0x0A} \<noteq> {}"
  by (auto simp: strings_ContainsAny_def list_ex_iff)

lemma label_expr_ok_iff: "is_ok (LabelExpr_Validate e) \<longleftrightarrow> label_expr_ok e"
proof -
  have "is_ok (range_seen (\<lambda>value. value)
          (\<lambda>i value seen. first_error [
             fail_if (strings_TrimSpace value = '''')
               (Errorf ''label expression %q value %d is required'' [expr_Key e, nat_Itoa i]),
             fail_if (value \<in> set seen)
               (Errorf ''label expression %q value %q is duplicated'' [expr_Key e, value])])
          xs []) \<longleftrightarrow> (\<forall>v \<in> set xs. \<not> blank v) \<and> distinct xs" for xs
    by (subst is_ok_range_seen [where P = "\<lambda>v. \<not> blank v"]) (auto simp: TrimSpace_blank)
  then show ?thesis
    by (auto simp: LabelExpr_Validate_def label_expr_ok_def label_key_ok_def operator_word_iff white_key TrimSpace_blank Let_def)
qed

lemma labels_ok_iff: "is_ok (Labels_Validate l) \<longleftrightarrow> (\<forall>(k, v) \<in> set l. label_key_ok k \<and> \<not> blank v)"
proof -
  have "is_ok (Labels_Validate l) \<longleftrightarrow> (\<forall>kv \<in> set l. label_key_ok (fst kv) \<and> \<not> blank (snd kv))"
    unfolding Labels_Validate_def
    by (rule is_ok_range_check) (auto simp: label_key_ok_def white_key TrimSpace_blank split: prod.splits)
  then show ?thesis by auto
qed

lemma at_most_one: "length (filter id (remote_selectors r)) \<le> 1 \<longleftrightarrow> (\<forall>k k'. selects_by r k \<and> selects_by r k' \<longrightarrow> k = k')"
proof -
  have all: "(\<forall>k. P k) \<longleftrightarrow> P ByCIDR \<and> P ByGroup \<and> P ByEndpoints \<and> P ByService \<and> P ByCIDRGroup \<and> P ByEntities \<and> P ByFQDNs" for P
    by (metis remote_kind.exhaust)
  show ?thesis unfolding all by (simp add: remote_selectors_def) argo
qed

lemma entities_ok_iff:
  "set xs \<subseteq> set remote_entities \<and> (''none'' \<in> set xs \<longrightarrow> xs = [''none'']) \<longleftrightarrow>
    xs = [''none''] \<or> set xs \<subseteq> {''all'', ''world'', ''world-ipv4'', ''world-ipv6'', ''cluster'', ''private'', ''host'', ''remote-node''}"
  (is "_ \<longleftrightarrow> _ \<or> set xs \<subseteq> ?K")
proof -
  have split: "set xs \<subseteq> insert x K \<and> (x \<in> set xs \<longrightarrow> xs = [x]) \<longleftrightarrow> xs = [x] \<or> set xs \<subseteq> K" if "x \<notin> K" for x :: string and K
    using that by (cases "x \<in> set xs") auto
  have "set remote_entities = insert ''none'' ?K" by (auto simp: remote_entities_def)
  moreover have "''none'' \<notin> ?K" by simp
  ultimately show ?thesis using split [of "''none''" ?K] by simp
qed

lemma sgr_match_split: "sgr_match_ok r \<and> distinct (sgr_Ports r) \<and> (\<forall>p \<in> set (sgr_Ports r). 0 < port_From p \<and> port_From p \<le> port_To p) \<longleftrightarrow>
    rule_kind_ok r \<and> rule_ports_ok r"
proof -
  have protocol: "speaks r S \<longleftrightarrow> rule_protocol r \<in> S" for S by (simp add: speaks_def rule_protocol_def)
  have ports: "port_protocol (rule_protocol r) \<longleftrightarrow> speaks r {''tcp'', ''udp'', ''sctp''}"
    by (simp add: protocol port_protocol_def)
  have names: "is_ok (validateNamedPortName n) \<longleftrightarrow> n \<noteq> '''' \<and> (\<forall>c \<in> set n. alnum c \<or> c \<in> {CHR ''-'', CHR ''_''})" for n
    by (simp only: validateNamedPortName_ok name_rune_char)
  have one: "rule_protocol r = p \<longleftrightarrow> speaks r {p}" for p by (simp add: protocol)
  have kind: "rule_kind_ok r \<longleftrightarrow> sgr_ID r \<noteq> '''' \<and> sgr_Direction r \<in> {DirectionIngress, DirectionEgress} \<and>
     rule_protocol r \<in> {ProtocolAny, ProtocolTCP, ProtocolUDP, ProtocolICMP, ProtocolSCTP} \<and>
     1 \<le> sgr_Priority r \<and> sgr_Priority r \<le> 16384 \<and> sgr_Action r \<in> {ActionAllow, ActionDrop, ActionReject, ActionLog}"
    by (simp only: rule_kind_ok_def protocol atLeastAtMost_iff) blast
  show ?thesis
    unfolding sgr_match_ok_def kind rule_ports_ok_def ports names one selects_by.simps by argo
qed


definition example_rule :: SecurityGroupRule where
  "example_rule = \<lparr>sgr_ID = ''web'', sgr_Priority = 100, sgr_Direction = DirectionIngress,
     sgr_Protocol = ProtocolTCP, sgr_RemoteCIDR = Prefix (V4 0x0A000000) 9,
     sgr_ExceptCIDRs = [Prefix (V4 0x0A010000) 17], sgr_RemoteGroup = '''',
     sgr_RemoteEndpointSelector = [], sgr_RemoteEndpointExprs = [], sgr_RemoteService = '''',
     sgr_RemoteCIDRGroup = '''', sgr_RemoteEntities = [], sgr_RemoteFQDNs = [],
     sgr_Ports = [\<lparr>port_From = 80, port_To = 88\<rparr>], sgr_NamedPorts = [''http''], sgr_ICMPType = None,
     sgr_ICMPCode = None, sgr_Action = ActionAllow, sgr_Stateful = True, sgr_Log = False,
     sgr_Description = ''''\<rparr>"

lemma example_rule_wf: "sgr_wf example_rule"
  by (simp add: sgr_wf_def example_rule_def)


text \<open>
  A CIDR group is accepted exactly if it has a name, a VPC and some prefix, and its prefixes,
  those with exceptions included, are valid, masked and pairwise distinct, with every exception
  inside the prefix it belongs to.
\<close>

theorem CIDRGroup_Validate_iff:
  assumes "\<forall>e \<in> set (cidrg_Entries g). entry_wf e"
  shows "is_ok (CIDRGroup_Validate g) \<longleftrightarrow>
    cidrg_Name g \<noteq> '''' \<and> cidrg_VPC g \<noteq> '''' \<and> (cidrg_CIDRs g \<noteq> [] \<or> cidrg_Entries g \<noteq> []) \<and>
    (\<forall>p \<in> set (cidrg_CIDRs g). prefix_IsValid p \<and> prefix_Masked p = p) \<and>
    (\<forall>e \<in> set (cidrg_Entries g). entry_ok e) \<and>
    distinct (cidrg_CIDRs g @ map entry_CIDR (cidrg_Entries g))"
proof -
  let ?P = "\<lambda>p. prefix_IsValid p \<and> prefix_Masked p = p"
  let ?body = "\<lambda>i cidr seen. first_error [
             fail_if (\<not> prefix_IsValid cidr) (Errorf ''cidr group cidr %d is invalid'' [nat_Itoa i]),
             validateMaskedPrefix cidr (''cidr group cidr '' @ nat_Itoa i),
             fail_if (prefix_Masked cidr \<in> set seen)
               (Errorf ''cidr group cidr %s is duplicated'' [prefix_String (prefix_Masked cidr)])]"
  let ?ebody = "\<lambda>i entry seen. first_error [
                 wrap_error (Wrapf ''cidr group entry %d: %w'' [nat_Itoa i]) (CIDRGroupEntry_Validate entry),
                 fail_if (prefix_Masked (entry_CIDR entry) \<in> set seen)
                   (Errorf ''cidr group cidr %s is duplicated'' [prefix_String (prefix_Masked (entry_CIDR entry))])]"
  let ?ck = "\<lambda>e. prefix_Masked (entry_CIDR e)"
  have cidrs: "is_ok (range_seen prefix_Masked ?body xs []) \<longleftrightarrow>
      (\<forall>p \<in> set xs. ?P p) \<and> distinct (map prefix_Masked xs)" for xs
    by (subst is_ok_range_seen [where P = ?P]) (auto simp: validate_ok)
  have entries: "is_ok (range_seen ?ck ?ebody (cidrg_Entries g) seen) \<longleftrightarrow>
      (\<forall>e \<in> set (cidrg_Entries g). entry_ok e) \<and> distinct (map ?ck (cidrg_Entries g)) \<and>
      set (map ?ck (cidrg_Entries g)) \<inter> set seen = {}" for seen
    by (rule is_ok_range_seen) (use assms CIDRGroupEntry_Validate_ok in simp)
  have masked: "map prefix_Masked xs = xs" if "\<forall>p \<in> set xs. ?P p" for xs
    using that by (auto intro: map_idI)
  have emasked: "map ?ck es = map entry_CIDR es" if "\<forall>e \<in> set es. entry_ok e" for es
    using that by (auto simp: entry_ok_def)
  show ?thesis
  proof (cases "range_seen prefix_Masked ?body (cidrg_CIDRs g) []")
    case (Inl e)
    then have "\<not> is_ok (range_seen prefix_Masked ?body (cidrg_CIDRs g) [])" by simp
    then have "\<not> ((\<forall>p \<in> set (cidrg_CIDRs g). ?P p) \<and> distinct (cidrg_CIDRs g))"
      unfolding cidrs using masked by metis
    with Inl show ?thesis by (auto simp: CIDRGroup_Validate_def)
  next
    case (Inr seen)
    then have "is_ok (range_seen prefix_Masked ?body (cidrg_CIDRs g) [])" by simp
    then have ok: "\<forall>p \<in> set (cidrg_CIDRs g). ?P p" "distinct (cidrg_CIDRs g)"
      unfolding cidrs using masked by metis+
    have seen: "set seen = set (cidrg_CIDRs g)"
      using range_seen_Inr [OF Inr] masked [OF ok(1)] by simp
    show ?thesis
    proof (cases "\<forall>e \<in> set (cidrg_Entries g). entry_ok e")
      case True
      with Inr ok entries [of seen] show ?thesis
        by (simp add: CIDRGroup_Validate_def seen emasked [OF True] flip: set_map) blast
    next
      case False
      with Inr entries [of seen] show ?thesis by (simp add: CIDRGroup_Validate_def)
    qed
  qed
qed

theorem CIDRGroup_Validate_iff_witness:
  "is_ok (CIDRGroup_Validate \<lparr>cidrg_Name = ''office'', cidrg_VPC = ''blue'', cidrg_CIDRs = [Prefix (V4 0xC0A80000) 17],
     cidrg_Entries = [\<lparr>entry_CIDR = Prefix (V4 0x0A000000) 9, entry_ExceptCIDRs = [Prefix (V4 0x0A010000) 17]\<rparr>]\<rparr>)"
proof -
  let ?c = "Prefix (V4 0x0A000000) 9" and ?e = "Prefix (V4 0x0A010000) 17" and ?d = "Prefix (V4 0xC0A80000) 17"
  have "prefix_Masked ?c = ?c \<and> prefix_Masked ?e = ?e \<and> prefix_Masked ?d = ?d \<and> prefix_IsValid ?c \<and>
      prefix_IsValid ?e \<and> prefix_IsValid ?d \<and> prefix_Bits ?c \<le> prefix_Bits ?e \<and>
      prefix_Contains ?c (prefix_Addr ?e)" by code_simp
  then show ?thesis
    by (subst CIDRGroup_Validate_iff) (simp_all add: entry_wf_def entry_ok_def excepts_ok_def prefix_addrs_subset_iff)
qed

end
