(* ===== verification/ValidateNet.thy ===== *)
theory ValidateNet
  imports Validate
begin

text \<open>
  The \<open>Validate\<close> methods of \<open>internal/model/model.go\<close> for subnets, endpoints, routes, gateways,
  NAT rules, load balancers, provider networks and identity groups, with the methods of these
  objects that the rest of the system calls (frontends and selection fields of a load balancer,
  expiry of an identity group).
\<close>

section \<open>Hardware addresses\<close>

text \<open>\<open>net.ParseMAC\<close>: 6, 8 or 20 bytes in pairs of digits with \<open>:\<close> or \<open>-\<close>, or in groups of four with a dot.\<close>

definition hex_digit :: "char \<Rightarrow> nat option" where
  "hex_digit c =
     (let n = of_char c :: nat in
      if 48 \<le> n \<and> n \<le> 57 then Some (n - 48)
      else if 97 \<le> n \<and> n \<le> 102 then Some (n - 87)
      else if 65 \<le> n \<and> n \<le> 70 then Some (n - 55)
      else None)"

definition hex_byte :: "char \<Rightarrow> char \<Rightarrow> u8 option" where
  "hex_byte a b =
     (case (hex_digit a, hex_digit b) of
        (Some x, Some y) \<Rightarrow> Some (of_nat (16 * x + y))
      | _ \<Rightarrow> None)"

fun parse_mac_pairs :: "char \<Rightarrow> string \<Rightarrow> u8 list option" where
  "parse_mac_pairs sep [a, b] = map_option (\<lambda>x. [x]) (hex_byte a b)"
| "parse_mac_pairs sep (a # b # c # rest) =
     (if c \<noteq> sep then None
      else case (hex_byte a b, parse_mac_pairs sep rest) of
          (Some x, Some xs) \<Rightarrow> Some (x # xs)
        | _ \<Rightarrow> None)"
| "parse_mac_pairs sep _ = None"

fun parse_mac_quads :: "string \<Rightarrow> u8 list option" where
  "parse_mac_quads [a, b, c, d] =
     (case (hex_byte a b, hex_byte c d) of (Some x, Some y) \<Rightarrow> Some [x, y] | _ \<Rightarrow> None)"
| "parse_mac_quads (a # b # c # d # e # rest) =
     (if e \<noteq> CHR ''.'' then None
      else case (hex_byte a b, hex_byte c d, parse_mac_quads rest) of
          (Some x, Some y, Some xs) \<Rightarrow> Some (x # y # xs)
        | _ \<Rightarrow> None)"
| "parse_mac_quads _ = None"

definition net_ParseMAC :: "string \<Rightarrow> u8 list result" where
  "net_ParseMAC s =
     (let parsed =
        (if length s < 14 then None
         else if s ! 2 = CHR '':'' \<or> s ! 2 = CHR ''-'' then
           (if (length s + 1) mod 3 = 0 \<and> (length s + 1) div 3 \<in> {6, 8, 20}
            then parse_mac_pairs (s ! 2) s else None)
         else if s ! 4 = CHR ''.'' then
           (if (length s + 1) mod 5 = 0 \<and> 2 * (length s + 1) div 5 \<in> {6, 8, 20}
            then parse_mac_quads s else None)
         else None)
      in case parsed of
           Some hw \<Rightarrow> Inr hw
         | None \<Rightarrow> Inl (Errorf ''address %s: invalid MAC address'' [s]))"

definition hex2 :: "u8 \<Rightarrow> string" where
  "hex2 b = [digit_char (unat b div 16), digit_char (unat b mod 16)]"

definition mac_String :: "u8 list \<Rightarrow> string" where
  "mac_String hw = strings_Join (map hex2 hw) '':''"

definition Endpoint_NormalizedMAC :: "Endpoint \<Rightarrow> string" where
  "Endpoint_NormalizedMAC e =
     (if strings_TrimSpace (ep_MAC e) = '''' then ''''
      else case net_ParseMAC (ep_MAC e) of Inl err \<Rightarrow> '''' | Inr mac \<Rightarrow> mac_String mac)"

definition GatewayMAC :: "addr \<Rightarrow> string" where
  "GatewayMAC ip =
     (let raw = (case ip of V4 w \<Rightarrow> word_bytes w | _ \<Rightarrow> drop 12 (addr_As16 ip))
      in ''0a:58:'' @ strings_Join (map hex2 raw) '':'')"


section \<open>Subnets\<close>

definition DHCPOptions_Validate :: "DHCPOptions \<Rightarrow> unit result" where
  "DHCPOptions_Validate d =
     (if \<not> dhcp_Enabled d then
        fail_if (dhcp_LeaseTime d \<noteq> 0 \<or> dhcp_MTU d \<noteq> 0 \<or> dhcp_DNSServers d \<noteq> [] \<or>
                 dhcp_DomainName d \<noteq> '''' \<or> dhcp_SearchDomains d \<noteq> [])
          (Errorf ''disabled dhcp must not set lease time, mtu, dns servers, domain name, or search domains'' [])
      else
        first_error [
          fail_if (dhcp_LeaseTime d \<noteq> 0 \<and> dhcp_LeaseTime d < 60)
            (Errorf ''dhcp lease time must be at least 60 seconds'' []),
          range_check (\<lambda>i server. first_error [
              fail_if (\<not> addr_IsValid server) (Errorf ''dhcp dns server %d is invalid'' [nat_Itoa i]),
              fail_if (addr_IsUnspecified server) (Errorf ''dhcp dns server %d must not be unspecified'' [nat_Itoa i])])
            (dhcp_DNSServers d),
          (if dhcp_DomainName d \<noteq> '''' then
             wrap_error (Wrapf ''dhcp domain name: %w'' []) (validateDNSName (dhcp_DomainName d) False)
           else Inr ()),
          range_check (\<lambda>i domain.
              wrap_error (Wrapf ''dhcp search domain %d: %w'' [nat_Itoa i]) (validateDNSName domain False))
            (dhcp_SearchDomains d)])"

definition subnet_check_exclude :: "Subnet \<Rightarrow> nat \<Rightarrow> prefix \<Rightarrow> prefix list \<Rightarrow> unit result" where
  "subnet_check_exclude s i exclude0 seen =
     (let exclude = prefix_Masked exclude0 in
      first_error [
        fail_if (\<not> prefix_IsValid exclude0) (Errorf ''subnet exclude cidr %d is invalid'' [nat_Itoa i]),
        validateMaskedPrefix exclude0 (''subnet exclude cidr '' @ nat_Itoa i),
        fail_if (addr_Is4 (prefix_Addr exclude) \<noteq> addr_Is4 (prefix_Addr (subnet_CIDR s)))
          (Errorf ''subnet exclude cidr %s family must match cidr %s''
             [prefix_String exclude, prefix_String (subnet_CIDR s)]),
        fail_if (\<not> prefix_Contains (subnet_CIDR s) (prefix_Addr exclude) \<or>
                 \<not> prefix_Contains (subnet_CIDR s) (prefixLastAddr exclude))
          (Errorf ''subnet exclude cidr %s is outside cidr %s''
             [prefix_String exclude, prefix_String (subnet_CIDR s)]),
        fail_if (exclude \<in> set seen) (Errorf ''subnet exclude cidr %s is duplicated'' [prefix_String exclude])])"

definition Subnet_Validate :: "Subnet \<Rightarrow> unit result" where
  "Subnet_Validate s =
     first_error [
       fail_if (subnet_Name s = '''') (Errorf ''subnet name is required'' []),
       fail_if (subnet_VPC s = '''') (Errorf ''subnet vpc is required'' []),
       fail_if (\<not> prefix_IsValid (subnet_CIDR s)) (Errorf ''subnet cidr is required'' []),
       validateMaskedPrefix (subnet_CIDR s) ''subnet cidr'',
       fail_if (\<not> addr_IsValid (subnet_Gateway s)) (Errorf ''subnet gateway is required'' []),
       fail_if (addr_IsUnspecified (subnet_Gateway s)) (Errorf ''subnet gateway must not be unspecified'' []),
       fail_if (\<not> prefix_Contains (subnet_CIDR s) (subnet_Gateway s))
         (Errorf ''subnet gateway %s is outside cidr %s''
            [addr_String (subnet_Gateway s), prefix_String (subnet_CIDR s)]),
       wrap_error id (range_seen prefix_Masked (subnet_check_exclude s) (subnet_ExcludeCIDRs s) []),
       fail_if (subnet_VLAN s > 4094) (Errorf ''subnet vlan must be between 1 and 4094'' []),
       fail_if (subnet_VLAN s \<noteq> 0 \<and> subnet_ProviderNetwork s = '''')
         (Errorf ''subnet vlan requires provider network'' []),
       wrap_error (Wrapf ''subnet dhcp: %w'' []) (DHCPOptions_Validate (subnet_DHCP s)),
       range_check (\<lambda>i server.
           fail_if (addr_Is4 server \<noteq> addr_Is4 (prefix_Addr (subnet_CIDR s)))
             (Errorf ''subnet dhcp: dns server %d family must match subnet cidr'' [nat_Itoa i]))
         (dhcp_DNSServers (subnet_DHCP s))]"

definition Subnet_Excludes :: "Subnet \<Rightarrow> addr \<Rightarrow> bool" where
  "Subnet_Excludes s ip = list_ex (\<lambda>exclude. prefix_Contains exclude ip) (subnet_ExcludeCIDRs s)"

section \<open>Endpoints\<close>

definition named_port_key :: "NamedPort \<Rightarrow> string" where
  "named_port_key p = named_Protocol p @ ''/'' @ named_Name p"

definition Endpoint_Validate :: "Endpoint \<Rightarrow> unit result" where
  "Endpoint_Validate e =
     first_error [
       fail_if (ep_ID e = '''') (Errorf ''endpoint id is required'' []),
       fail_if (ep_VPC e = '''') (Errorf ''endpoint vpc is required'' []),
       fail_if (ep_Subnet e = '''') (Errorf ''endpoint subnet is required'' []),
       fail_if (\<not> addr_IsValid (ep_IP e)) (Errorf ''endpoint ip is required'' []),
       fail_if (addr_IsUnspecified (ep_IP e)) (Errorf ''endpoint ip must not be unspecified'' []),
       (if strings_TrimSpace (ep_MAC e) \<noteq> '''' then
          wrap_error (Wrapf ''endpoint mac is invalid: %w'' []) (net_ParseMAC (ep_MAC e))
        else Inr ()),
       fail_if (ep_Node e = '''') (Errorf ''endpoint node is required'' []),
       wrap_error (Wrapf ''endpoint labels: %w'' []) (Labels_Validate (ep_Labels e)),
       wrap_error id (range_seen (\<lambda>group. group)
         (\<lambda>_ group seen. first_error [
            fail_if (group = '''') (Errorf ''endpoint security group is empty'' []),
            fail_if (group \<in> set seen) (Errorf ''endpoint security group %q is duplicated'' [group])])
         (ep_SecurityGroups e) []),
       wrap_error id (range_seen named_port_key
         (\<lambda>i port seen. first_error [
            wrap_error (Wrapf ''named port %d: %w'' [nat_Itoa i]) (NamedPort_Validate port),
            fail_if (named_port_key port \<in> set seen)
              (Errorf ''named port %s/%s is duplicated'' [named_Protocol port, named_Name port])])
         (ep_NamedPorts e) [])]"


section \<open>Routes\<close>

definition RouteBFD_Validate :: "RouteBFD \<Rightarrow> unit result" where
  "RouteBFD_Validate b =
     (if \<not> bfd_Enabled b then Inr ()
      else first_error [
        fail_if (strings_TrimSpace (bfd_LogicalPort b) = '''') (Errorf ''route bfd logical port is required'' []),
        fail_if (bfd_MinTx b = 0) (Errorf ''route bfd min_tx is required'' []),
        fail_if (bfd_MinRx b = 0) (Errorf ''route bfd min_rx is required'' []),
        fail_if (bfd_DetectMult b = 0) (Errorf ''route bfd detect_mult is required'' [])])"

definition RouteNextHops :: "Route \<Rightarrow> addr list" where
  "RouteNextHops r = route_NextHops r"

definition Route_Validate :: "Route \<Rightarrow> unit result" where
  "Route_Validate r =
     first_error [
       fail_if (\<not> prefix_IsValid (route_Destination r)) (Errorf ''route destination is required'' []),
       validateMaskedPrefix (route_Destination r) ''route destination'',
       (if route_Blackhole r then
          first_error [
            fail_if (route_NextHops r \<noteq> []) (Errorf ''blackhole route must not set next hop'' []),
            fail_if (bfd_Enabled (route_BFD r)) (Errorf ''blackhole route must not enable bfd'' [])]
        else
          first_error [
            fail_if (RouteNextHops r = []) (Errorf ''route next hop is required when route is not blackhole'' []),
            wrap_error id (range_seen (\<lambda>hop. hop)
              (\<lambda>_ hop seen. first_error [
                 fail_if (\<not> addr_IsValid hop) (Errorf ''route next hop is invalid'' []),
                 fail_if (addr_IsUnspecified hop) (Errorf ''route next hop must not be unspecified'' []),
                 fail_if (addr_Is4 hop \<noteq> addr_Is4 (prefix_Addr (route_Destination r)))
                   (Errorf ''route next hop family must match destination'' []),
                 fail_if (hop \<in> set seen) (Errorf ''route next hop %s is duplicated'' [addr_String hop])])
              (RouteNextHops r) []),
            RouteBFD_Validate (route_BFD r)])]"

definition RouteTable_Validate :: "RouteTable \<Rightarrow> unit result" where
  "RouteTable_Validate r =
     first_error [
       fail_if (table_Name r = '''') (Errorf ''route table name is required'' []),
       fail_if (table_VPC r = '''') (Errorf ''route table vpc is required'' []),
       range_check (\<lambda>i route. wrap_error (Wrapf ''route %d: %w'' [nat_Itoa i]) (Route_Validate route))
         (table_Routes r)]"

definition RouteMatch_Validate :: "RouteMatch \<Rightarrow> unit result" where
  "RouteMatch_Validate m =
     (let protocol = (if match_Protocol m = '''' then ProtocolAny else match_Protocol m);
          source = match_Source m; destination = match_Destination m
      in first_error [
           fail_if (\<not> validProtocol protocol) (Errorf ''unsupported protocol %q'' [protocol]),
           (if prefix_IsValid source then validateMaskedPrefix source ''source prefix'' else Inr ()),
           (if prefix_IsValid destination then validateMaskedPrefix destination ''destination prefix'' else Inr ()),
           fail_if (prefix_IsValid source \<and> prefix_IsValid destination \<and>
                    addr_Is4 (prefix_Addr source) \<noteq> addr_Is4 (prefix_Addr destination))
             (Errorf ''source and destination prefixes must use the same IP family'' []),
           fail_if (match_SrcPorts m \<noteq> [] \<and> \<not> port_protocol protocol)
             (Errorf ''src ports require tcp, udp, or sctp protocol'' []),
           fail_if (match_DstPorts m \<noteq> [] \<and> \<not> port_protocol protocol)
             (Errorf ''dst ports require tcp, udp, or sctp protocol'' []),
           range_check (\<lambda>i p. wrap_error (Wrapf ''src port range %d: %w'' [nat_Itoa i]) (PortRange_Validate p))
             (match_SrcPorts m),
           range_check (\<lambda>i p. wrap_error (Wrapf ''dst port range %d: %w'' [nat_Itoa i]) (PortRange_Validate p))
             (match_DstPorts m)])"

definition RerouteNextHops :: "RouteAction \<Rightarrow> addr list" where
  "RerouteNextHops a = action_NextHops a"

definition PolicyRoute_Validate :: "PolicyRoute \<Rightarrow> unit result" where
  "PolicyRoute_Validate r =
     (let action = proute_Action r; m = proute_Match r; nextHops = RerouteNextHops action in
      first_error [
        fail_if (proute_Name r = '''') (Errorf ''policy route name is required'' []),
        fail_if (proute_VPC r = '''') (Errorf ''policy route vpc is required'' []),
        fail_if (proute_Priority r < PolicyRoutePriorityMin \<or> proute_Priority r > PolicyRoutePriorityMax)
          (Errorf ''policy route priority must be between %d and %d''
             [strconv_Itoa PolicyRoutePriorityMin, strconv_Itoa PolicyRoutePriorityMax]),
        fail_if (action_Type action = '''') (Errorf ''policy route action is required'' []),
        fail_if (action_Type action \<notin> set [ActionAllow, ActionDrop, ActionReject, ActionReroute])
          (Errorf ''unsupported policy route action %q'' [action_Type action]),
        fail_if (action_Type action = ActionReroute \<and> nextHops = [])
          (Errorf ''policy route reroute action requires next hop'' []),
        fail_if (action_Type action \<noteq> ActionReroute \<and> nextHops \<noteq> [])
          (Errorf ''policy route next hops are only supported for reroute action'' []),
        wrap_error (Wrapf ''policy route match: %w'' []) (RouteMatch_Validate m),
        (if action_Type action = ActionReroute then
           wrap_error id (range_seen (\<lambda>hop. hop)
             (\<lambda>i hop seen. first_error [
                fail_if (\<not> addr_IsValid hop) (Errorf ''policy route reroute next hop %d is invalid'' [nat_Itoa i]),
                fail_if (addr_IsUnspecified hop)
                  (Errorf ''policy route reroute next hop %d must not be unspecified'' [nat_Itoa i]),
                fail_if (addr_Is4 hop \<noteq> addr_Is4 (hd nextHops))
                  (Errorf ''policy route reroute next hops must use the same IP family'' []),
                fail_if (hop \<in> set seen)
                  (Errorf ''policy route reroute next hop %s is duplicated'' [addr_String hop]),
                fail_if (prefix_IsValid (match_Destination m) \<and>
                         addr_Is4 hop \<noteq> addr_Is4 (prefix_Addr (match_Destination m)))
                  (Errorf ''policy route reroute next hop family must match destination'' []),
                fail_if (\<not> prefix_IsValid (match_Destination m) \<and> prefix_IsValid (match_Source m) \<and>
                         addr_Is4 hop \<noteq> addr_Is4 (prefix_Addr (match_Source m)))
                  (Errorf ''policy route reroute next hop family must match source'' [])])
             nextHops [])
         else Inr ())])"

definition Gateway_Validate :: "Gateway \<Rightarrow> unit result" where
  "Gateway_Validate g =
     first_error [
       fail_if (gw_Name g = '''') (Errorf ''gateway name is required'' []),
       fail_if (gw_VPC g = '''') (Errorf ''gateway vpc is required'' []),
       fail_if (gw_Node g = '''') (Errorf ''gateway node is required'' []),
       fail_if (strings_TrimSpace (gw_ExternalIF g) = '''') (Errorf ''gateway external_if is required'' []),
       fail_if (\<not> addr_IsValid (gw_LANIP g)) (Errorf ''gateway lan ip is required'' []),
       fail_if (addr_IsUnspecified (gw_LANIP g)) (Errorf ''gateway lan ip must not be unspecified'' [])]"

section \<open>Network address translation\<close>

definition validateDistributedNATFields :: "NATRule \<Rightarrow> unit result" where
  "validateDistributedNATFields n =
     (let hasLogicalPort = strings_TrimSpace (nat_LogicalPort n) \<noteq> '''';
          hasExternalMAC = strings_TrimSpace (nat_ExternalMAC n) \<noteq> ''''
      in if \<not> hasLogicalPort \<and> \<not> hasExternalMAC then Inr ()
         else first_error [
           fail_if (nat_Type n \<noteq> ActionDNATSNAT)
             (Errorf ''logical_port and external_mac are only supported for dnat_and_snat'' []),
           fail_if (\<not> hasLogicalPort \<or> \<not> hasExternalMAC)
             (Errorf ''logical_port and external_mac must be set together'' []),
           wrap_error (Wrapf ''external_mac is invalid: %w'' []) (net_ParseMAC (nat_ExternalMAC n))])"

text \<open>The checks shared by the two kinds of destination NAT, \<open>kind\<close> being the first word of the messages.\<close>

definition validate_dnat :: "string \<Rightarrow> string \<Rightarrow> NATRule \<Rightarrow> Protocol \<Rightarrow> unit result" where
  "validate_dnat kind protocol_message n protocol =
     (let hasPortMapping = nat_ExternalPort n \<noteq> 0 \<or> nat_TargetPort n \<noteq> 0 in
      first_error [
        fail_if (\<not> addr_IsValid (nat_TargetIP n)) (Errorf (kind @ '' target ip is required'') []),
        fail_if (addr_IsUnspecified (nat_TargetIP n)) (Errorf (kind @ '' target ip must not be unspecified'') []),
        fail_if (addr_Is4 (nat_ExternalIP n) \<noteq> addr_Is4 (nat_TargetIP n))
          (Errorf (kind @ '' external ip family must match target ip'') []),
        (if hasPortMapping then
           first_error [
             fail_if (nat_ExternalPort n = 0 \<or> nat_TargetPort n = 0)
               (Errorf (kind @ '' port mapping requires both external and target ports'') []),
             fail_if (\<not> port_protocol protocol)
               (Errorf (kind @ '' port mapping requires tcp, udp, or sctp protocol'') [])]
         else fail_if (protocol \<noteq> ProtocolAny) (Errorf (kind @ protocol_message) []))])"

definition NATRule_Validate :: "NATRule \<Rightarrow> unit result" where
  "NATRule_Validate n =
     (let protocol = (if nat_Protocol n = '''' then ProtocolAny else nat_Protocol n);
          hasPortMapping = nat_ExternalPort n \<noteq> 0 \<or> nat_TargetPort n \<noteq> 0
      in first_error [
        fail_if (nat_Name n = '''') (Errorf ''nat rule name is required'' []),
        fail_if (nat_VPC n = '''') (Errorf ''nat rule vpc is required'' []),
        fail_if (nat_Type n \<notin> set [ActionSNAT, ActionDNAT, ActionDNATSNAT])
          (Errorf ''unsupported nat action %q'' [nat_Type n]),
        fail_if (\<not> addr_IsValid (nat_ExternalIP n)) (Errorf ''nat external ip is required'' []),
        fail_if (addr_IsUnspecified (nat_ExternalIP n)) (Errorf ''nat external ip must not be unspecified'' []),
        fail_if (\<not> validProtocol protocol) (Errorf ''unsupported nat protocol %q'' [protocol]),
        validateDistributedNATFields n,
        (if nat_Type n = ActionSNAT then
           first_error [
             fail_if (\<not> prefix_IsValid (nat_MatchCIDR n)) (Errorf ''snat match cidr is required'' []),
             validateMaskedPrefix (nat_MatchCIDR n) ''snat match cidr'',
             fail_if (addr_Is4 (nat_ExternalIP n) \<noteq> addr_Is4 (prefix_Addr (nat_MatchCIDR n)))
               (Errorf ''snat external ip family must match cidr'' []),
             fail_if (addr_IsValid (nat_TargetIP n)) (Errorf ''snat target ip must be empty'' []),
             fail_if hasPortMapping (Errorf ''snat port mapping is not supported'' []),
             fail_if (protocol \<noteq> ProtocolAny) (Errorf ''snat protocol must be any'' [])]
         else if nat_Type n = ActionDNAT then
           validate_dnat ''dnat'' '' protocol must be any when port mapping is not set'' n protocol
         else if nat_Type n = ActionDNATSNAT then
           validate_dnat ''dnat_and_snat'' '' protocol must be any'' n protocol
         else Inr ())])"


section \<open>Load balancers\<close>

definition LoadBalancerBackend_Validate :: "LoadBalancerBackend \<Rightarrow> unit result" where
  "LoadBalancerBackend_Validate b =
     first_error [
       fail_if (\<not> addr_IsValid (backend_IP b)) (Errorf ''backend ip is required'' []),
       fail_if (addr_IsUnspecified (backend_IP b)) (Errorf ''backend ip must not be unspecified'' []),
       fail_if (backend_Port b = 0) (Errorf ''backend port is required'' [])]"

definition IsHealthy :: "LoadBalancerBackend \<Rightarrow> bool" where
  "IsHealthy b = (case backend_Healthy b of None \<Rightarrow> True | Some h \<Rightarrow> h)"

definition LoadBalancerHealthCheck_Validate :: "LoadBalancerHealthCheck \<Rightarrow> unit result" where
  "LoadBalancerHealthCheck_Validate h =
     (if \<not> hc_Enabled h then
        fail_if (hc_Interval h \<noteq> 0 \<or> hc_Timeout h \<noteq> 0 \<or> hc_SuccessCount h \<noteq> 0 \<or> hc_FailureCount h \<noteq> 0)
          (Errorf ''disabled health check must not set interval, timeout, success count or failure count'' [])
      else first_error [
        fail_if (hc_Interval h > 86400) (Errorf ''health check interval must be at most 86400 seconds'' []),
        fail_if (hc_Timeout h > 86400) (Errorf ''health check timeout must be at most 86400 seconds'' []),
        fail_if (hc_SuccessCount h > 255) (Errorf ''health check success count must be at most 255'' []),
        fail_if (hc_FailureCount h > 255) (Errorf ''health check failure count must be at most 255'' [])])"

definition Frontends :: "LoadBalancer \<Rightarrow> LoadBalancerFrontend list" where
  "Frontends l =
     map (\<lambda>port.
       (let protocol = (if lbport_Protocol port = '''' then ProtocolTCP else lbport_Protocol port);
            name = (if lbport_Name port = '''' then protocol @ ''-'' @ u16_String (lbport_Port port)
                    else lbport_Name port)
        in \<lparr>front_Name = name, front_VIP = lb_VIP l, front_Port = lbport_Port port,
            front_Protocol = protocol, front_Backends = lbport_Backends port\<rparr>)) (lb_Ports l)"

definition validateSelectionFields :: "LoadBalancer \<Rightarrow> unit result" where
  "validateSelectionFields l =
     wrap_error id (range_seen strings_TrimSpace
       (\<lambda>i field0 seen. (let field = strings_TrimSpace field0 in
          first_error [
            fail_if (field = '''') (Errorf ''load balancer selection field %d is empty'' [nat_Itoa i]),
            fail_if (field \<in> set seen) (Errorf ''load balancer selection field %q is duplicated'' [field]),
            (if field = ''ip_src'' \<or> field = ''ip_dst'' then
               fail_if (addr_Is6 (lb_VIP l) \<and> \<not> addr_Is4 (lb_VIP l))
                 (Errorf ''load balancer selection field %q requires IPv4 VIP'' [field])
             else if field = ''ipv6_src'' \<or> field = ''ipv6_dst'' then
               fail_if (addr_Is4 (lb_VIP l))
                 (Errorf ''load balancer selection field %q requires IPv6 VIP'' [field])
             else if field = ''tp_src'' \<or> field = ''tp_dst'' then Inr ()
             else Inl (Errorf ''unsupported load balancer selection field %q'' [field]))]))
       (lb_SelectionFields l) [])"

definition normalizedLoadBalancerSelectionFields :: "string list \<Rightarrow> string list" where
  "normalizedLoadBalancerSelectionFields fs =
     sort_Strings (filter (\<lambda>f. f \<noteq> '''') (map strings_TrimSpace fs))"

definition EffectiveSelectionFields :: "LoadBalancer \<Rightarrow> string list" where
  "EffectiveSelectionFields l =
     (let fs = normalizedLoadBalancerSelectionFields (lb_SelectionFields l) in
      if fs \<noteq> [] then fs
      else if \<not> lb_SessionAffinity l then []
      else if addr_Is6 (lb_VIP l) \<and> \<not> addr_Is4 (lb_VIP l) then [''ipv6_src'']
      else [''ip_src''])"

text \<open>\<open>netip.AddrPort.String\<close>, with brackets around IPv6 addresses.\<close>

definition addrport_String :: "addr \<Rightarrow> u16 \<Rightarrow> string" where
  "addrport_String ip port =
     (case ip of
        ZeroAddr \<Rightarrow> ''invalid AddrPort''
      | V4 w \<Rightarrow> addr_String ip @ '':'' @ u16_String port
      | V6 w z \<Rightarrow> ''['' @ addr_String ip @ '']:'' @ u16_String port)"

definition backend_key :: "LoadBalancerBackend \<Rightarrow> string" where
  "backend_key b = addrport_String (backend_IP b) (backend_Port b)"

definition frontend_key :: "LoadBalancerFrontend \<Rightarrow> string" where
  "frontend_key f = front_Protocol f @ ''/'' @ addr_String (front_VIP f) @ ''/'' @ u16_String (front_Port f)"

definition lb_check_frontend :: "LoadBalancer \<Rightarrow> nat \<Rightarrow> LoadBalancerFrontend \<Rightarrow> string list \<Rightarrow> unit result" where
  "lb_check_frontend l i f seen =
     first_error [
       fail_if (front_Port f = 0) (Errorf ''load balancer frontend %d port is required'' [nat_Itoa i]),
       fail_if (\<not> port_protocol (front_Protocol f))
         (Errorf ''unsupported load balancer protocol %q'' [front_Protocol f]),
       fail_if (front_Backends f = []) (Errorf ''load balancer frontend %d backends are required'' [nat_Itoa i]),
       fail_if (frontend_key f \<in> set seen)
         (Errorf ''load balancer frontend %s/%s:%d is duplicated''
            [addr_String (front_VIP f), front_Protocol f, u16_String (front_Port f)]),
       wrap_error id (range_seen backend_key
         (\<lambda>j backend seen. first_error [
            wrap_error (Wrapf ''load balancer frontend %d backend %d: %w'' [nat_Itoa i, nat_Itoa j])
              (LoadBalancerBackend_Validate backend),
            fail_if (addr_Is4 (backend_IP backend) \<noteq> addr_Is4 (lb_VIP l))
              (Errorf ''load balancer frontend %d backend %d ip family must match vip'' [nat_Itoa i, nat_Itoa j]),
            fail_if (backend_key backend \<in> set seen)
              (Errorf ''load balancer frontend %d backend %s is duplicated'' [nat_Itoa i, backend_key backend])])
         (front_Backends f) []),
       fail_if (length (filter IsHealthy (front_Backends f)) = 0)
         (Errorf ''load balancer frontend %d must have at least one healthy backend'' [nat_Itoa i])]"

definition LoadBalancer_Validate :: "LoadBalancer \<Rightarrow> unit result" where
  "LoadBalancer_Validate l =
     (let frontends = Frontends l in
      first_error [
        fail_if (lb_Name l = '''') (Errorf ''load balancer name is required'' []),
        fail_if (lb_VPC l = '''') (Errorf ''load balancer vpc is required'' []),
        fail_if (\<not> addr_IsValid (lb_VIP l)) (Errorf ''load balancer vip is required'' []),
        fail_if (addr_IsUnspecified (lb_VIP l)) (Errorf ''load balancer vip must not be unspecified'' []),
        fail_if (lb_Ports l = []) (Errorf ''load balancer ports are required'' []),
        fail_if (\<not> lb_SessionAffinity l \<and> lb_AffinityTimeout l \<noteq> 0)
          (Errorf ''load balancer affinity timeout requires session affinity'' []),
        fail_if (lb_AffinityTimeout l > 86400)
          (Errorf ''load balancer affinity timeout must be at most 86400 seconds'' []),
        validateSelectionFields l,
        wrap_error (Wrapf ''load balancer health check: %w'' []) (LoadBalancerHealthCheck_Validate (lb_HealthCheck l)),
        wrap_error id (range_seen frontend_key (lb_check_frontend l) frontends []),
        fail_if (hc_Enabled (lb_HealthCheck l) \<and> \<not> list_ex (\<lambda>f. front_Protocol f = ProtocolTCP) frontends)
          (Errorf ''load balancer health check requires at least one tcp frontend'' []),
        wrap_error id (range_seen (\<lambda>subnet. subnet)
          (\<lambda>i subnet seen. first_error [
             fail_if (subnet = '''') (Errorf ''load balancer subnet %d is empty'' [nat_Itoa i]),
             fail_if (subnet \<in> set seen) (Errorf ''load balancer subnet %q is duplicated'' [subnet])])
          (lb_Subnets l) [])])"

section \<open>Provider networks and identity groups\<close>

definition VPC_Validate :: "VPC \<Rightarrow> unit result" where
  "VPC_Validate v = fail_if (vpc_Name v = '''') (Errorf ''vpc name is required'' [])"

definition ProviderNetworkQoS_Validate :: "ProviderNetworkQoS \<Rightarrow> unit result" where
  "ProviderNetworkQoS_Validate q =
     fail_if (qos_EgressBurstBPS q \<noteq> 0 \<and> qos_EgressRateBPS q = 0)
       (Errorf ''egress_burst_bps requires egress_rate_bps'' [])"

definition ProviderNetworkTenantQuota_Validate :: "ProviderNetworkTenantQuota \<Rightarrow> unit result" where
  "ProviderNetworkTenantQuota_Validate q =
     first_error [
       fail_if (quota_Tenant q = '''') (Errorf ''tenant is required'' []),
       fail_if (quota_MaxSubnets q < 0) (Errorf ''max_subnets must not be negative'' []),
       fail_if (quota_MaxEndpoints q < 0) (Errorf ''max_endpoints must not be negative'' []),
       fail_if (quota_MaxLoadBalancers q < 0) (Errorf ''max_load_balancers must not be negative'' []),
       fail_if (quota_MaxNATRules q < 0) (Errorf ''max_nat_rules must not be negative'' []),
       fail_if (quota_MaxPolicyRoutes q < 0) (Errorf ''max_policy_routes must not be negative'' []),
       fail_if (quota_MaxSecurityGroups q < 0) (Errorf ''max_security_groups must not be negative'' []),
       fail_if (quota_MaxSecurityGroupRules q < 0) (Errorf ''max_security_group_rules must not be negative'' []),
       fail_if (quota_MaxSubnets q = 0 \<and> quota_MaxEndpoints q = 0 \<and> quota_MaxLoadBalancers q = 0 \<and>
                quota_MaxNATRules q = 0 \<and> quota_MaxPolicyRoutes q = 0 \<and> quota_MaxSecurityGroups q = 0 \<and>
                quota_MaxSecurityGroupRules q = 0)
         (Errorf ''max_subnets, max_endpoints, max_load_balancers, max_nat_rules, max_policy_routes, max_security_groups, or max_security_group_rules is required'' [])]"

definition check_identity_name :: "string \<Rightarrow> string \<Rightarrow> string list \<Rightarrow> unit result" where
  "check_identity_name kind name seen =
     first_error [
       fail_if (strings_TrimSpace name = '''') (Errorf (kind @ '' is required'') []),
       fail_if (strings_ContainsAny name white) (Errorf (kind @ '' %q must not contain whitespace'') [name]),
       fail_if (name \<in> set seen) (Errorf (kind @ '' %q is duplicated'') [name])]"

definition ProviderNetworkTenantQueuePolicy_Validate :: "ProviderNetworkTenantQueuePolicy \<Rightarrow> unit result" where
  "ProviderNetworkTenantQueuePolicy_Validate q =
     first_error [
       fail_if (queue_Tenant q = '''') (Errorf ''tenant is required'' []),
       fail_if (queue_Protocol q \<noteq> '''' \<and> \<not> port_protocol (queue_Protocol q))
         (Errorf ''protocol %q is invalid'' [queue_Protocol q]),
       fail_if (queue_Ports q \<noteq> [] \<and> queue_Protocol q = '''') (Errorf ''ports require protocol'' []),
       range_check (\<lambda>i port. first_error [
           wrap_error (Wrapf ''port %d: %w'' [nat_Itoa i]) (PortRange_Validate port),
           fail_if (uint (port_To port) - uint (port_From port) + 1 > 1024)
             (Errorf ''port %d range must not exceed 1024 ports'' [nat_Itoa i])])
         (queue_Ports q),
       fail_if (queue_QueueID q < 0) (Errorf ''queue_id must not be negative'' []),
       fail_if (queue_MinRateBPS q = 0 \<and> queue_MaxRateBPS q = 0)
         (Errorf ''min_rate_bps or max_rate_bps is required'' []),
       fail_if (queue_BurstBPS q \<noteq> 0 \<and> queue_MaxRateBPS q = 0) (Errorf ''burst_bps requires max_rate_bps'' []),
       (if queue_EndpointSelector q \<noteq> [] then
          wrap_error (Wrapf ''endpoint_selector: %w'' []) (Labels_Validate (queue_EndpointSelector q))
        else Inr ()),
       range_check (\<lambda>i e. wrap_error (Wrapf ''endpoint_expression %d: %w'' [nat_Itoa i]) (LabelExpr_Validate e))
         (queue_EndpointExpressions q),
       wrap_error id (range_seen (\<lambda>group. group) (\<lambda>_ group seen. check_identity_name ''identity group'' group seen)
         (queue_IdentityGroups q) []),
       (if queue_IdentitySelector q \<noteq> [] then
          wrap_error (Wrapf ''identity_selector: %w'' []) (Labels_Validate (queue_IdentitySelector q))
        else Inr ()),
       range_check (\<lambda>i e. wrap_error (Wrapf ''identity_expression %d: %w'' [nat_Itoa i]) (LabelExpr_Validate e))
         (queue_IdentityExpressions q)]"

definition labelsSelectorKey :: "Labels \<Rightarrow> string" where
  "labelsSelectorKey labels =
     (if labels = [] then ''''
      else strings_Join (map (\<lambda>key. key @ ''='' @ labels_get labels key) (sort_Strings (map fst labels))) '','')"

definition labelExpressionsSelectorKey :: "LabelExpr list \<Rightarrow> string" where
  "labelExpressionsSelectorKey expressions =
     (if expressions = [] then ''''
      else strings_Join (sort_Strings
        (map (\<lambda>e. expr_Key e @ '':'' @ normalizeLabelExprOperator (expr_Operator e) @ '':'' @
                strings_Join (sort_Strings (expr_Values e)) '','') expressions)) '';'')"

definition port_range_less :: "PortRange \<Rightarrow> PortRange \<Rightarrow> bool" where
  "port_range_less a b =
     (if port_From a \<noteq> port_From b then port_From a < port_From b else port_To a < port_To b)"

definition providerNetworkTenantQueueSelectorKey :: "ProviderNetworkTenantQueuePolicy \<Rightarrow> string" where
  "providerNetworkTenantQueueSelectorKey q =
     (let opt = (\<lambda>key value. if value = '''' then [] else [key @ value]) in
      strings_Join
        ([queue_Tenant q, queue_Protocol q] @
         map (\<lambda>p. u16_String (port_From p) @ ''-'' @ u16_String (port_To p))
           (sort_SliceStable port_range_less (queue_Ports q)) @
         opt ''selector='' (labelsSelectorKey (queue_EndpointSelector q)) @
         opt ''expressions='' (labelExpressionsSelectorKey (queue_EndpointExpressions q)) @
         (if queue_IdentityGroups q \<noteq> []
          then [''identity_groups='' @ strings_Join (sort_Strings (queue_IdentityGroups q)) '',''] else []) @
         opt ''identity_selector='' (labelsSelectorKey (queue_IdentitySelector q)) @
         opt ''identity_expressions='' (labelExpressionsSelectorKey (queue_IdentityExpressions q))) ''|'')"

definition ProviderNetworkNode_Validate :: "ProviderNetworkNode \<Rightarrow> unit result" where
  "ProviderNetworkNode_Validate n =
     first_error [
       fail_if (pnode_Node n = '''') (Errorf ''provider network node is required'' []),
       fail_if (pnode_Interface n = '''' \<and> pnode_Interfaces n = [])
         (Errorf ''provider network interface or interfaces are required'' []),
       fail_if (pnode_Interface n \<noteq> '''' \<and> pnode_Interfaces n \<noteq> [])
         (Errorf ''provider network interface and interfaces are mutually exclusive'' []),
       wrap_error id (range_seen (\<lambda>candidate. candidate)
         (\<lambda>_ candidate seen. first_error [
            fail_if (candidate = '''') (Errorf ''provider network candidate interface is required'' []),
            fail_if (candidate \<in> set seen)
              (Errorf ''provider network candidate interface %q is duplicated'' [candidate])])
         (pnode_Interfaces n) [])]"

definition ProviderNetwork_Validate :: "ProviderNetwork \<Rightarrow> unit result" where
  "ProviderNetwork_Validate p =
     first_error [
       fail_if (pnet_Name p = '''') (Errorf ''provider network name is required'' []),
       fail_if (pnet_Isolation p \<noteq> '''' \<and> pnet_Isolation p \<noteq> ''exclusive'')
         (Errorf ''provider network isolation %q is invalid'' [pnet_Isolation p]),
       wrap_error id (range_seen (\<lambda>target. target)
         (\<lambda>i target seen. first_error [
            fail_if (strings_TrimSpace target = '''')
              (Errorf ''provider network controller target %d is required'' [nat_Itoa i]),
            fail_if (target \<noteq> strings_TrimSpace target)
              (Errorf ''provider network controller target %q must not contain leading or trailing whitespace'' [target]),
            fail_if (target \<in> set seen) (Errorf ''provider network controller target %q is duplicated'' [target])])
         (pnet_ControllerTargets p) []),
       wrap_error (Wrapf ''provider network qos: %w'' []) (ProviderNetworkQoS_Validate (pnet_QoS p)),
       wrap_error id (range_seen quota_Tenant
         (\<lambda>i quota seen. first_error [
            wrap_error (Wrapf ''provider network tenant quota %d: %w'' [nat_Itoa i])
              (ProviderNetworkTenantQuota_Validate quota),
            fail_if (quota_Tenant quota \<in> set seen)
              (Errorf ''provider network tenant quota %q is duplicated'' [quota_Tenant quota])])
         (pnet_TenantQuotas p) []),
       wrap_error id (range_seen (\<lambda>q. (providerNetworkTenantQueueSelectorKey q, queue_QueueID q))
         (\<lambda>i queue seen. (let selector = providerNetworkTenantQueueSelectorKey queue in first_error [
            wrap_error (Wrapf ''provider network tenant queue %d: %w'' [nat_Itoa i])
              (ProviderNetworkTenantQueuePolicy_Validate queue),
            fail_if (selector \<in> set (map fst seen))
              (Errorf ''provider network tenant queue selector %q is duplicated'' [selector]),
            fail_if (queue_QueueID queue \<in> set (map snd seen))
              (Errorf ''provider network tenant queue id %d is duplicated'' [strconv_Itoa (queue_QueueID queue)])]))
         (pnet_TenantQueues p) []),
       fail_if (pnet_Nodes p = []) (Errorf ''provider network nodes are required'' []),
       wrap_error id (range_seen pnode_Node
         (\<lambda>i node seen. first_error [
            wrap_error (Wrapf ''provider network node %d: %w'' [nat_Itoa i]) (ProviderNetworkNode_Validate node),
            fail_if (pnode_Node node \<in> set seen)
              (Errorf ''provider network node %q is duplicated'' [pnode_Node node])])
         (pnet_Nodes p) [])]"

definition IdentityGroup_Validate :: "IdentityGroup \<Rightarrow> unit result" where
  "IdentityGroup_Validate g =
     first_error [
       fail_if (strings_TrimSpace (igroup_Name g) = '''') (Errorf ''identity group name is required'' []),
       fail_if (strings_ContainsAny (igroup_Name g) white)
         (Errorf ''identity group name %q must not contain whitespace'' [igroup_Name g]),
       fail_if (strings_TrimSpace (igroup_VPC g) = '''') (Errorf ''identity group vpc is required'' []),
       fail_if (strings_TrimSpace (igroup_Source g) \<noteq> igroup_Source g)
         (Errorf ''identity group source %q must not have leading or trailing whitespace'' [igroup_Source g]),
       fail_if (igroup_TTLSeconds g \<noteq> 0 \<and> time_IsZero (igroup_ObservedAt g))
         (Errorf ''identity group ttl_seconds requires observed_at'' []),
       wrap_error id (range_seen (\<lambda>e. e) (\<lambda>_ e seen. check_identity_name ''identity group endpoint id'' e seen)
         (igroup_EndpointIDs g) []),
       (if igroup_EndpointSelector g \<noteq> [] then
          wrap_error (Wrapf ''endpoint_selector: %w'' []) (Labels_Validate (igroup_EndpointSelector g))
        else Inr ()),
       range_check (\<lambda>i e. wrap_error (Wrapf ''endpoint_expression %d: %w'' [nat_Itoa i]) (LabelExpr_Validate e))
         (igroup_EndpointExpressions g),
       fail_if (igroup_EndpointIDs g = [] \<and> igroup_EndpointSelector g = [] \<and> igroup_EndpointExpressions g = [])
         (Errorf ''identity group requires endpoint_ids or endpoint selector'' [])]"

definition IdentityGroup_ExpiresAt :: "IdentityGroup \<Rightarrow> time" where
  "IdentityGroup_ExpiresAt g =
     (if igroup_TTLSeconds g = 0 \<or> time_IsZero (igroup_ObservedAt g) then zero_time
      else igroup_ObservedAt g + int (unat (igroup_TTLSeconds g)) * second)"

definition IdentityGroup_Expired :: "IdentityGroup \<Rightarrow> time \<Rightarrow> bool" where
  "IdentityGroup_Expired g now =
     (let expiresAt = IdentityGroup_ExpiresAt g in
      if time_IsZero expiresAt then False else \<not> now < expiresAt)"

section \<open>What the checks establish\<close>

definition dhcp_ok :: "DHCPOptions \<Rightarrow> bool" where
  "dhcp_ok d \<longleftrightarrow>
     (if dhcp_Enabled d then
        (dhcp_LeaseTime d = 0 \<or> 60 \<le> dhcp_LeaseTime d) \<and>
        (\<forall>ip \<in> set (dhcp_DNSServers d). addr_IsValid ip \<and> \<not> addr_IsUnspecified ip) \<and>
        (dhcp_DomainName d \<noteq> '''' \<longrightarrow> is_ok (validateDNSName (dhcp_DomainName d) False)) \<and>
        (\<forall>n \<in> set (dhcp_SearchDomains d). is_ok (validateDNSName n False))
      else
        dhcp_LeaseTime d = 0 \<and> dhcp_MTU d = 0 \<and> dhcp_DNSServers d = [] \<and> dhcp_DomainName d = '''' \<and>
        dhcp_SearchDomains d = [])"

lemma DHCPOptions_Validate_ok: "is_ok (DHCPOptions_Validate d) \<longleftrightarrow> dhcp_ok d"
proof -
  have servers: "is_ok (range_check (\<lambda>i server. first_error [
              fail_if (\<not> addr_IsValid server) (Errorf ''dhcp dns server %d is invalid'' [nat_Itoa i]),
              fail_if (addr_IsUnspecified server) (Errorf ''dhcp dns server %d must not be unspecified'' [nat_Itoa i])])
            xs) \<longleftrightarrow> (\<forall>ip \<in> set xs. addr_IsValid ip \<and> \<not> addr_IsUnspecified ip)" for xs
    by (rule is_ok_range_check) simp
  have domains: "is_ok (range_check (\<lambda>i domain.
              wrap_error (Wrapf ''dhcp search domain %d: %w'' [nat_Itoa i]) (validateDNSName domain False)) xs) \<longleftrightarrow>
            (\<forall>n \<in> set xs. is_ok (validateDNSName n False))" for xs
    by (rule is_ok_range_check) simp
  show ?thesis
    by (simp add: DHCPOptions_Validate_def dhcp_ok_def servers domains not_less) argo
qed

definition subnet_wf :: "Subnet \<Rightarrow> bool" where
  "subnet_wf s \<longleftrightarrow> prefix_wf (subnet_CIDR s) \<and> (\<forall>e \<in> set (subnet_ExcludeCIDRs s). prefix_wf e)"

lemma subnet_check_exclude_ok:
  assumes "prefix_wf (subnet_CIDR s)" and "prefix_IsValid (subnet_CIDR s)" and "prefix_wf e"
  shows "is_ok (subnet_check_exclude s i e seen) \<longleftrightarrow>
    (prefix_IsValid e \<and> prefix_Masked e = e \<and> prefix_addrs e \<subseteq> prefix_addrs (subnet_CIDR s)) \<and>
    prefix_Masked e \<notin> set seen"
proof (cases "prefix_IsValid e \<and> prefix_Masked e = e")
  case True
  then have "prefix_Contains (subnet_CIDR s) (prefix_Addr e) \<and> prefix_Contains (subnet_CIDR s) (prefixLastAddr e) \<longleftrightarrow>
      prefix_addrs e \<subseteq> prefix_addrs (subnet_CIDR s)"
    using model_last.both_ends [OF assms(1,3)] by simp
  with True prefix_Contains_family [OF assms(1), of "prefix_Addr e"] show ?thesis
    by (auto simp: subnet_check_exclude_def Let_def validate_ok)
qed (auto simp: subnet_check_exclude_def Let_def validate_ok)

text \<open>
  C31. A subnet is accepted exactly if it has a name and a VPC, a valid masked prefix that contains
  its gateway, pairwise distinct masked excluded ranges inside the prefix, a VLAN of at most 4094
  and only on a provider network, and consistent DHCP options with DNS servers of its family.
\<close>

theorem Subnet_Validate_iff:
  assumes "subnet_wf s"
  shows "is_ok (Subnet_Validate s) \<longleftrightarrow>
    subnet_Name s \<noteq> '''' \<and> subnet_VPC s \<noteq> '''' \<and>
    prefix_IsValid (subnet_CIDR s) \<and> prefix_Masked (subnet_CIDR s) = subnet_CIDR s \<and>
    subnet_Gateway s \<in> prefix_addrs (subnet_CIDR s) \<and> \<not> addr_IsUnspecified (subnet_Gateway s) \<and>
    distinct (subnet_ExcludeCIDRs s) \<and>
    (\<forall>e \<in> set (subnet_ExcludeCIDRs s). prefix_IsValid e \<and> prefix_Masked e = e \<and>
       prefix_addrs e \<subseteq> prefix_addrs (subnet_CIDR s)) \<and>
    unat (subnet_VLAN s) \<le> 4094 \<and> (subnet_VLAN s \<noteq> 0 \<longrightarrow> subnet_ProviderNetwork s \<noteq> '''') \<and>
    dhcp_ok (subnet_DHCP s) \<and>
    (\<forall>ip \<in> set (dhcp_DNSServers (subnet_DHCP s)). addr_Is4 ip = addr_Is4 (prefix_Addr (subnet_CIDR s)))"
proof (cases "prefix_IsValid (subnet_CIDR s)")
  case True
  let ?P = "\<lambda>e. prefix_IsValid e \<and> prefix_Masked e = e \<and> prefix_addrs e \<subseteq> prefix_addrs (subnet_CIDR s)"
  have "is_ok (range_seen prefix_Masked (subnet_check_exclude s) (subnet_ExcludeCIDRs s) []) \<longleftrightarrow>
      (\<forall>e \<in> set (subnet_ExcludeCIDRs s). ?P e) \<and> distinct (map prefix_Masked (subnet_ExcludeCIDRs s)) \<and>
      set (map prefix_Masked (subnet_ExcludeCIDRs s)) \<inter> set [] = {}"
    by (rule is_ok_range_seen) (use assms True subnet_check_exclude_ok in \<open>simp add: subnet_wf_def\<close>)
  moreover have "map prefix_Masked xs = xs" if "\<forall>e \<in> set xs. ?P e" for xs
    using that by (auto intro: map_idI)
  ultimately have excl: "is_ok (range_seen prefix_Masked (subnet_check_exclude s) (subnet_ExcludeCIDRs s) []) \<longleftrightarrow>
      (\<forall>e \<in> set (subnet_ExcludeCIDRs s). ?P e) \<and> distinct (subnet_ExcludeCIDRs s)"
    by auto
  have servers: "is_ok (range_check (\<lambda>i server.
           fail_if (addr_Is4 server \<noteq> b) (Errorf ''subnet dhcp: dns server %d family must match subnet cidr'' [nat_Itoa i]))
         xs) \<longleftrightarrow> (\<forall>ip \<in> set xs. addr_Is4 ip = b)" for xs b
    by (rule is_ok_range_check) simp
  have "unat (subnet_VLAN s) \<le> 4094 \<longleftrightarrow> subnet_VLAN s \<le> 4094"
    by (simp add: word_le_nat_alt)
  then show ?thesis
    using True
    by (simp add: Subnet_Validate_def validate_ok DHCPOptions_Validate_ok excl servers [simplified]
        addr_IsValid_def not_less) (auto simp: prefix_addrs_def)
qed (simp add: Subnet_Validate_def)

definition example_subnet :: Subnet where
  "example_subnet = \<lparr>subnet_Name = ''front'', subnet_VPC = ''blue'', subnet_CIDR = Prefix (V4 0x0A000000) 25,
     subnet_Gateway = V4 0x0A000001, subnet_ExcludeCIDRs = [Prefix (V4 0x0A000080) 27],
     subnet_ProviderNetwork = '''', subnet_VLAN = 0,
     subnet_DHCP = \<lparr>dhcp_Enabled = False, dhcp_LeaseTime = 0, dhcp_MTU = 0, dhcp_DNSServers = [],
       dhcp_DomainName = '''', dhcp_SearchDomains = []\<rparr>\<rparr>"

theorem Subnet_Validate_iff_witness: "is_ok (Subnet_Validate example_subnet)"
proof -
  let ?c = "Prefix (V4 0x0A000000) 25" and ?e = "Prefix (V4 0x0A000080) 27"
  have "prefix_Masked ?c = ?c \<and> prefix_Masked ?e = ?e \<and> prefix_IsValid ?c \<and> prefix_IsValid ?e \<and>
      prefix_Bits ?c \<le> prefix_Bits ?e \<and> prefix_Contains ?c (prefix_Addr ?e) \<and>
      prefix_Contains ?c (V4 0x0A000001)" by code_simp
  then show ?thesis
    by (subst Subnet_Validate_iff)
      (simp_all add: subnet_wf_def example_subnet_def dhcp_ok_def prefix_addrs_subset_iff
        prefix_addrs_def [of _, THEN eqset_imp_iff] addr_IsUnspecified_def)
qed

lemma lb_check_frontend_ok:
  assumes "is_ok (lb_check_frontend l i f seen)"
  shows "front_Port f \<noteq> 0 \<and> port_protocol (front_Protocol f) \<and> frontend_key f \<notin> set seen \<and>
    (\<exists>b \<in> set (front_Backends f). IsHealthy b) \<and> distinct (map backend_key (front_Backends f)) \<and>
    (\<forall>b \<in> set (front_Backends f). is_ok (LoadBalancerBackend_Validate b) \<and>
       addr_Is4 (backend_IP b) = addr_Is4 (lb_VIP l))"
proof -
  let ?P = "\<lambda>b. is_ok (LoadBalancerBackend_Validate b) \<and> addr_Is4 (backend_IP b) = addr_Is4 (lb_VIP l)"
  have "is_ok (range_seen backend_key
         (\<lambda>j backend seen. first_error [
            wrap_error (Wrapf ''load balancer frontend %d backend %d: %w'' [nat_Itoa i, nat_Itoa j])
              (LoadBalancerBackend_Validate backend),
            fail_if (addr_Is4 (backend_IP backend) \<noteq> addr_Is4 (lb_VIP l))
              (Errorf ''load balancer frontend %d backend %d ip family must match vip'' [nat_Itoa i, nat_Itoa j]),
            fail_if (backend_key backend \<in> set seen)
              (Errorf ''load balancer frontend %d backend %s is duplicated'' [nat_Itoa i, backend_key backend])])
         (front_Backends f) []) \<longleftrightarrow> (\<forall>b \<in> set (front_Backends f). ?P b) \<and>
         distinct (map backend_key (front_Backends f)) \<and> set (map backend_key (front_Backends f)) \<inter> set [] = {}"
    by (rule is_ok_range_seen) auto
  with assms show ?thesis
    unfolding lb_check_frontend_def is_ok_first_error by (auto simp: filter_empty_conv)
qed

lemma distinct_map_comp: "distinct (map (g \<circ> f) xs) \<Longrightarrow> distinct (map f xs)"
  by (auto simp: distinct_map inj_on_def)

text \<open>
  In an accepted load balancer every frontend has a port and a TCP, UDP or SCTP protocol, no
  two frontends have the same protocol and port, and the backends of each frontend are pairwise
  distinct, of the family of the VIP, and at least one of them is healthy.
\<close>

theorem LoadBalancer_Validate_sound:
  assumes "is_ok (LoadBalancer_Validate l)"
  shows "distinct (map (\<lambda>f. (front_Protocol f, front_Port f)) (Frontends l)) \<and>
    (\<forall>f \<in> set (Frontends l).
       front_VIP f = lb_VIP l \<and> front_Port f \<noteq> 0 \<and> port_protocol (front_Protocol f) \<and>
       (\<exists>b \<in> set (front_Backends f). IsHealthy b) \<and>
       distinct (map (\<lambda>b. (backend_IP b, backend_Port b)) (front_Backends f)) \<and>
       (\<forall>b \<in> set (front_Backends f). addr_Is4 (backend_IP b) = addr_Is4 (lb_VIP l) \<and> backend_Port b \<noteq> 0))"
proof -
  let ?Q = "\<lambda>f. front_Port f \<noteq> 0 \<and> port_protocol (front_Protocol f) \<and>
    (\<exists>b \<in> set (front_Backends f). IsHealthy b) \<and> distinct (map backend_key (front_Backends f)) \<and>
    (\<forall>b \<in> set (front_Backends f). is_ok (LoadBalancerBackend_Validate b) \<and>
       addr_Is4 (backend_IP b) = addr_Is4 (lb_VIP l))"
  from assms have "is_ok (range_seen frontend_key (lb_check_frontend l) (Frontends l) [])"
    by (simp add: LoadBalancer_Validate_def Let_def)
  then have "(\<forall>f \<in> set (Frontends l). ?Q f) \<and> distinct (map frontend_key (Frontends l))"
    by (rule range_seen_sound) (use lb_check_frontend_ok in blast)
  moreover have vip: "front_VIP f = lb_VIP l" if "f \<in> set (Frontends l)" for f
    using that by (auto simp: Frontends_def Let_def)
  moreover have "map frontend_key (Frontends l) =
      map ((\<lambda>(p, n). p @ ''/'' @ addr_String (lb_VIP l) @ ''/'' @ u16_String n) \<circ>
           (\<lambda>f. (front_Protocol f, front_Port f))) (Frontends l)"
    using vip by (simp add: frontend_key_def)
  moreover have "map backend_key bs =
      map ((\<lambda>(ip, n). addrport_String ip n) \<circ> (\<lambda>b. (backend_IP b, backend_Port b))) bs" for bs
    by (simp add: backend_key_def)
  ultimately show ?thesis
    by (auto simp: LoadBalancerBackend_Validate_def intro: distinct_map_comp)
qed

definition example_lb :: LoadBalancer where
  "example_lb = \<lparr>lb_Name = ''web'', lb_VPC = ''blue'', lb_VIP = V4 0x0A000064,
     lb_Ports = [\<lparr>lbport_Name = '''', lbport_Port = 80, lbport_Protocol = '''',
       lbport_Backends = [\<lparr>backend_IP = V4 0x0A00000A, backend_Port = 8, backend_Healthy = None\<rparr>,
                          \<lparr>backend_IP = V4 0x0A00000B, backend_Port = 8, backend_Healthy = Some False\<rparr>]\<rparr>],
     lb_Subnets = [''front''], lb_SessionAffinity = True, lb_AffinityTimeout = 0, lb_SelectionFields = [],
     lb_HealthCheck = \<lparr>hc_Enabled = False, hc_Interval = 0, hc_Timeout = 0, hc_SuccessCount = 0, hc_FailureCount = 0\<rparr>\<rparr>"

theorem LoadBalancer_Validate_sound_witness:
  "is_ok (LoadBalancer_Validate example_lb) \<and> (\<exists>b \<in> set (front_Backends (hd (Frontends example_lb))). IsHealthy b)"
proof -
  have ok: "is_ok (LoadBalancer_Validate example_lb)" by code_simp
  moreover have "hd (Frontends example_lb) \<in> set (Frontends example_lb)" by code_simp
  ultimately show ?thesis using LoadBalancer_Validate_sound [OF ok] by blast
qed

end
