(* ===== verification/Cidr.thy ===== *)
theory Cidr
  imports Validate
begin

text \<open>
  The arithmetic on prefixes of \<open>internal/policy/compiler.go\<close>: splitting a prefix into its two
  halves, removing one prefix from another, removing a list of exceptions, and merging sibling
  prefixes.  The lemmas relate each operation to the set of addresses it denotes.
\<close>

section \<open>Operations\<close>

definition policy_prefixLastAddr :: "prefix \<Rightarrow> addr" where
  "policy_prefixLastAddr p =
     (let addr = prefix_Addr p in
      case addr of
        V4 raw \<Rightarrow>
          addr_AddrFrom4 (drop 12
            (fold (or_bit 12) [nat (prefix_Bits p)..<32] (replicate 12 0 @ word_bytes raw)))
      | _ \<Rightarrow> addr_AddrFrom16 (fold (or_bit 0) [nat (prefix_Bits p)..<128] (addr_As16 addr)))"

definition policy_prefixContainsPrefix :: "prefix \<Rightarrow> prefix \<Rightarrow> bool" where
  "policy_prefixContainsPrefix parent child \<longleftrightarrow>
     prefix_IsValid parent \<and> prefix_IsValid child \<and>
     addr_Is4 (prefix_Addr parent) = addr_Is4 (prefix_Addr child) \<and>
     prefix_Bits parent \<le> prefix_Bits child \<and>
     prefix_Contains parent (prefix_Addr child) \<and>
     prefix_Contains parent (policy_prefixLastAddr child)"

definition setPrefixBit :: "addr \<Rightarrow> nat \<Rightarrow> addr" where
  "setPrefixBit addr n =
     (case addr of
        V4 raw \<Rightarrow> addr_AddrFrom4 (or_bit 0 n (word_bytes raw))
      | _ \<Rightarrow> addr_AddrFrom16 (or_bit 0 n (addr_As16 addr)))"

definition splitPrefix :: "prefix \<Rightarrow> prefix \<times> prefix" where
  "splitPrefix p =
     (let bits = prefix_Bits p;
          nextBits = bits + 1;
          left = prefix_Masked (netip_PrefixFrom (prefix_Addr p) nextBits);
          rightAddr = setPrefixBit (prefix_Addr p) (nat bits);
          right = prefix_Masked (netip_PrefixFrom rightAddr nextBits)
      in (left, right))"


section \<open>Containment\<close>

lemma policy_prefixLastAddr_eq: "policy_prefixLastAddr = prefixLastAddr"
  by (intro ext) (simp add: policy_prefixLastAddr_def prefixLastAddr_def)

interpretation policy_last: last_addr policy_prefixLastAddr "\<lambda>p. True"
  by unfold_locales (simp add: policy_prefixLastAddr_eq prefixLastAddr_last)

lemma policy_prefixContainsPrefix_iff:
  assumes "prefix_wf parent" and "prefix_wf child"
  shows "policy_prefixContainsPrefix parent child \<longleftrightarrow>
    prefix_IsValid parent \<and> prefix_IsValid child \<and> prefix_addrs child \<subseteq> prefix_addrs parent"
  unfolding policy_prefixContainsPrefix_def using policy_last.contains_prefix [OF assms] by blast

text \<open>A masked prefix is determined by its addresses.\<close>

definition canonical :: "prefix \<Rightarrow> bool" where
  "canonical p \<longleftrightarrow> prefix_wf p \<and> prefix_IsValid p \<and> prefix_Masked p = p"

lemma canonicalI [intro]: "prefix_wf p \<Longrightarrow> prefix_IsValid p \<Longrightarrow> canonical (prefix_Masked p)"
  by (simp add: canonical_def)

lemma canonicalD:
  "canonical p \<Longrightarrow> prefix_wf p" "canonical p \<Longrightarrow> prefix_IsValid p" "canonical p \<Longrightarrow> prefix_Masked p = p"
  by (auto simp: canonical_def)

lemma canonical_cases [consumes 1, case_names V4 V6]:
  assumes "canonical p"
  obtains w n where "p = Prefix (V4 w) (Suc n)" and "n \<le> 32" and "w AND top_mask n = w"
  | w n where "p = Prefix (V6 w '''') (Suc n)" and "n \<le> 128" and "w AND top_mask n = w"
  using canonicalD [OF assms]
  by (cases p rule: prefix_valid_cases) auto

lemma canonical_V4: "n \<le> 32 \<Longrightarrow> canonical (Prefix (V4 w) (Suc n)) \<longleftrightarrow> w AND top_mask n = w"
  by (simp add: canonical_def)

lemma canonical_V6: "n \<le> 128 \<Longrightarrow> canonical (Prefix (V6 w '''') (Suc n)) \<longleftrightarrow> w AND top_mask n = w"
  by (simp add: canonical_def)

lemma canonical_subset_iff:
  assumes "canonical p" and "canonical q"
  shows "prefix_addrs q \<subseteq> prefix_addrs p \<longleftrightarrow>
    prefix_Bits p \<le> prefix_Bits q \<and> prefix_Contains p (prefix_Addr q)"
  using prefix_addrs_subset_iff [of p q] canonicalD(1,2) [OF assms(1)] canonicalD(1,2) [OF assms(2)] by simp

lemma canonical_eq_iff:
  assumes "canonical p" and "canonical q"
  shows "prefix_addrs p = prefix_addrs q \<longleftrightarrow> p = q"
proof
  assume eq: "prefix_addrs p = prefix_addrs q"
  then have bits: "prefix_Bits p = prefix_Bits q"
    and mem: "prefix_Contains p (prefix_Addr q)"
    using canonical_subset_iff [OF assms] canonical_subset_iff [OF assms(2,1)] by auto
  from assms(1) show "p = q"
  proof (cases p rule: canonical_cases)
    case p: (V4 v n)
    from assms(2) show ?thesis
    proof (cases q rule: canonical_cases)
      case (V4 w m)
      with p bits mem masked_eq_iff [of v n w] show ?thesis by auto
    qed (use p mem in simp)
  next
    case p: (V6 v n)
    from assms(2) show ?thesis
    proof (cases q rule: canonical_cases)
      case (V6 w m)
      with p bits mem masked_eq_iff [of v n w] show ?thesis by auto
    qed (use p mem in simp)
  qed
qed simp

text \<open>Two canonical prefixes are nested or disjoint.\<close>

lemma canonical_nested:
  assumes "canonical p" and "canonical q"
  shows "prefix_addrs p \<subseteq> prefix_addrs q \<or> prefix_addrs q \<subseteq> prefix_addrs p \<or>
    prefix_addrs p \<inter> prefix_addrs q = {}"
  using prefix_overlap_subset [of p q] canonicalD(1) [OF assms(1)] canonicalD(1) [OF assms(2)]
  by (fastforce simp: prefix_addrs_def)

lemma canonical_nonempty: "canonical p \<Longrightarrow> prefix_addrs p \<noteq> {}"
  using canonicalD prefix_Contains_own_addr by (fastforce simp: prefix_addrs_def)


section \<open>Halves of a prefix\<close>

lemma top_match_Suc:
  fixes a x :: "'a::len word"
  assumes "n < LENGTH('a)"
  shows "top_match (Suc n) a x \<longleftrightarrow>
    top_match n a x \<and> (bit a (LENGTH('a) - Suc n) \<longleftrightarrow> bit x (LENGTH('a) - Suc n))"
proof -
  have "LENGTH('a) - Suc n \<le> i \<longleftrightarrow> i = LENGTH('a) - Suc n \<or> LENGTH('a) - n \<le> i" if "i < LENGTH('a)" for i
    using that assms by auto
  moreover have "LENGTH('a) - Suc n < LENGTH('a)" by simp
  ultimately show ?thesis
    unfolding top_match_bits by blast
qed

lemma masked_bit_next:
  fixes a :: "'a::len word"
  assumes "a AND top_mask n = a" and "n < LENGTH('a)"
  shows "\<not> bit a (LENGTH('a) - Suc n)"
proof
  assume "bit a (LENGTH('a) - Suc n)"
  then have "bit (a AND top_mask n) (LENGTH('a) - Suc n)" using assms(1) by simp
  with assms(2) show False unfolding bit_and_top_mask by linarith
qed

lemma top_match_halves:
  fixes a x :: "'a::len word"
  assumes "a AND top_mask n = a" and "n < LENGTH('a)"
  defines "b \<equiv> a OR push_bit (LENGTH('a) - 1 - n) 1"
  shows "top_match (Suc n) a x \<longleftrightarrow> top_match n a x \<and> \<not> bit x (LENGTH('a) - Suc n)"
    and "top_match (Suc n) b x \<longleftrightarrow> top_match n a x \<and> bit x (LENGTH('a) - Suc n)"
    and "a AND top_mask (Suc n) = a" and "b AND top_mask (Suc n) = b"
proof -
  have bit: "bit b i \<longleftrightarrow> bit a i \<or> i = LENGTH('a) - Suc n" for i
    using assms(2) by (auto simp: b_def bit_or_iff bit_exp_iff)
  then have "top_match n b x \<longleftrightarrow> top_match n a x"
    using assms(2) by (auto simp: top_match_bits)
  with bit assms(2) show "top_match (Suc n) b x \<longleftrightarrow> top_match n a x \<and> bit x (LENGTH('a) - Suc n)"
    by (simp add: top_match_Suc)
  show "top_match (Suc n) a x \<longleftrightarrow> top_match n a x \<and> \<not> bit x (LENGTH('a) - Suc n)"
    using assms(2) masked_bit_next [OF assms(1,2)] by (simp add: top_match_Suc)
  have a: "bit a i \<Longrightarrow> LENGTH('a) - n \<le> i" for i
    using assms(1) bit_and_top_mask [of a n i] by simp
  show "a AND top_mask (Suc n) = a"
    using a by (force simp: word_eq_iff_bits bit_and_top_mask)
  show "b AND top_mask (Suc n) = b"
    using a by (force simp: word_eq_iff_bits bit_and_top_mask bit)
qed

text \<open>The halves of a canonical prefix that is not a single address.\<close>

definition splittable :: "prefix \<Rightarrow> bool" where
  "splittable p \<longleftrightarrow> canonical p \<and> prefix_Bits p < int (addr_BitLen (prefix_Addr p))"

lemma splitPrefix_V4:
  assumes "n < 32" and "w AND top_mask n = w"
  shows "splitPrefix (Prefix (V4 w) (Suc n)) =
    (Prefix (V4 w) (Suc (Suc n)), Prefix (V4 (w OR push_bit (31 - n) 1)) (Suc (Suc n)))"
proof -
  have from_suc: "netip_PrefixFrom (V4 v) (int n + 1) = Prefix (V4 v) (Suc (Suc n))" for v
    using assms(1) by (simp add: netip_PrefixFrom_def nat_add_distrib)
  have "setPrefixBit (V4 w) n = V4 (w OR push_bit (31 - n) 1)"
    using or_bit_word_bytes [of n w] assms(1) by (simp add: setPrefixBit_def addr_AddrFrom4_def)
  then show ?thesis
    using top_match_halves(3,4) [of w n] assms by (simp add: splitPrefix_def from_suc)
qed

lemma splitPrefix_V6:
  assumes "n < 128" and "w AND top_mask n = w"
  shows "splitPrefix (Prefix (V6 w '''') (Suc n)) =
    (Prefix (V6 w '''') (Suc (Suc n)), Prefix (V6 (w OR push_bit (127 - n) 1) '''') (Suc (Suc n)))"
proof -
  have from_suc: "netip_PrefixFrom (V6 v '''') (int n + 1) = Prefix (V6 v '''') (Suc (Suc n))" for v
    using assms(1) by (simp add: netip_PrefixFrom_def nat_add_distrib)
  have "setPrefixBit (V6 w '''') n = V6 (w OR push_bit (127 - n) 1) ''''"
    using or_bit_word_bytes [of n w] assms(1) by (simp add: setPrefixBit_def addr_AddrFrom16_def)
  then show ?thesis
    using top_match_halves(3,4) [of w n] assms by (simp add: splitPrefix_def from_suc)
qed

lemma splitPrefix_halves:
  assumes "splittable p" and "splitPrefix p = (l, r)"
  shows "canonical l" and "canonical r"
    and "prefix_Bits l = prefix_Bits p + 1" and "prefix_Bits r = prefix_Bits p + 1"
    and "addr_BitLen (prefix_Addr l) = addr_BitLen (prefix_Addr p)"
    and "addr_BitLen (prefix_Addr r) = addr_BitLen (prefix_Addr p)"
    and "prefix_addrs l \<union> prefix_addrs r = prefix_addrs p" and "prefix_addrs l \<inter> prefix_addrs r = {}"
proof -
  from assms(1) have "canonical p" by (simp add: splittable_def)
  then have "canonical l \<and> canonical r \<and> prefix_Bits l = prefix_Bits p + 1 \<and> prefix_Bits r = prefix_Bits p + 1 \<and>
      addr_BitLen (prefix_Addr l) = addr_BitLen (prefix_Addr p) \<and>
      addr_BitLen (prefix_Addr r) = addr_BitLen (prefix_Addr p) \<and>
      prefix_addrs l \<union> prefix_addrs r = prefix_addrs p \<and> prefix_addrs l \<inter> prefix_addrs r = {}"
  proof (cases p rule: canonical_cases)
    case (V4 w n)
    with assms(1) have n: "n < 32" by (simp add: splittable_def)
    note h = top_match_halves [OF V4(3), simplified, OF n]
    from V4 assms(2) splitPrefix_V4 [OF n V4(3)] n h(3,4) show ?thesis
      by (auto simp: canonical_V4 prefix_addrs_def h(1,2))
  next
    case (V6 w n)
    with assms(1) have n: "n < 128" by (simp add: splittable_def)
    note h = top_match_halves [OF V6(3), simplified, OF n]
    from V6 assms(2) splitPrefix_V6 [OF n V6(3)] n h(3,4) show ?thesis
      by (auto simp: canonical_V6 prefix_addrs_def h(1,2))
  qed
  then show "canonical l" and "canonical r"
    and "prefix_Bits l = prefix_Bits p + 1" and "prefix_Bits r = prefix_Bits p + 1"
    and "addr_BitLen (prefix_Addr l) = addr_BitLen (prefix_Addr p)"
    and "addr_BitLen (prefix_Addr r) = addr_BitLen (prefix_Addr p)"
    and "prefix_addrs l \<union> prefix_addrs r = prefix_addrs p" and "prefix_addrs l \<inter> prefix_addrs r = {}"
    by auto
qed

section \<open>Removing a prefix\<close>

lemma canonical_Bits:
  assumes "canonical p"
  shows "0 \<le> prefix_Bits p" and "prefix_Bits p \<le> int (addr_BitLen (prefix_Addr p))"
  using assms by (cases p rule: canonical_cases; auto)+

lemma canonical_subset_family:
  assumes "canonical p" and "canonical q" and "prefix_addrs q \<subseteq> prefix_addrs p"
  shows "addr_BitLen (prefix_Addr q) = addr_BitLen (prefix_Addr p)"
proof -
  have "prefix_Contains p (prefix_Addr q)"
    using assms canonical_subset_iff by blast
  with canonicalD(1) [OF assms(1)] canonicalD(2) [OF assms(1)] show ?thesis
    by (cases p rule: prefix_valid_cases) auto
qed

lemma canonical_same_bits:
  assumes "canonical p" and "canonical q" and "prefix_addrs q \<subseteq> prefix_addrs p"
    and "prefix_Bits q \<le> prefix_Bits p"
  shows "p = q"
proof -
  have "prefix_Contains p (prefix_Addr q)"
    using assms(1-3) canonical_subset_iff by blast
  then have "prefix_Contains q (prefix_Addr p)"
    using prefix_Contains_coarser [of q p "prefix_Addr q"] canonicalD(1,2) [OF assms(1)]
      canonicalD(1,2) [OF assms(2)] assms(4) by simp
  then have "prefix_addrs p \<subseteq> prefix_addrs q"
    using canonical_subset_iff [OF assms(2,1)] assms(4) by blast
  with assms show ?thesis using canonical_eq_iff by blast
qed

lemma canonical_strict_bits:
  assumes "canonical p" and "canonical q" and "prefix_addrs q \<subset> prefix_addrs p"
  shows "prefix_Bits p < prefix_Bits q"
proof (rule ccontr)
  assume "\<not> prefix_Bits p < prefix_Bits q"
  with assms canonical_same_bits [of p q] show False by auto
qed

lemma contains_splittable:
  assumes "policy_prefixContainsPrefix (prefix_Masked b) (prefix_Masked e)"
    and "prefix_Masked b \<noteq> prefix_Masked e"
  shows "splittable (prefix_Masked b)" and "canonical (prefix_Masked e)"
    and "prefix_addrs (prefix_Masked e) \<subset> prefix_addrs (prefix_Masked b)"
proof -
  let ?b = "prefix_Masked b" and ?e = "prefix_Masked e"
  have valid: "prefix_IsValid ?b" "prefix_IsValid ?e" and sub: "prefix_addrs ?e \<subseteq> prefix_addrs ?b"
    using assms(1) policy_prefixContainsPrefix_iff [of ?b ?e] by auto
  then have can: "canonical ?b" "canonical ?e" by (simp_all add: canonical_def)
  then show strict: "prefix_addrs ?e \<subset> prefix_addrs ?b"
    using sub assms(2) canonical_eq_iff by blast
  show "canonical ?e" by (rule can)
  show "splittable ?b"
    using canonical_strict_bits [OF can strict] canonical_Bits [OF can(2)] canonical_subset_family [OF can sub] can(1)
    by (simp add: splittable_def)
qed

function subtractPrefix :: "prefix \<Rightarrow> prefix \<Rightarrow> prefix list" where
  "subtractPrefix base0 except0 =
     (let base = prefix_Masked base0; except = prefix_Masked except0 in
      if \<not> policy_prefixContainsPrefix base except then [base]
      else if base = except then []
      else (let (left, right) = splitPrefix base
            in subtractPrefix left except @ subtractPrefix right except))"
  by pat_completeness auto
termination
proof (relation "measure (\<lambda>(b, e). nat (int (addr_BitLen (prefix_Addr (prefix_Masked b))) - prefix_Bits (prefix_Masked b)))",
    goal_cases)
  case (2 base0 except0 base except lr left right)
  then have split: "splittable base" "splitPrefix base = (left, right)"
    using contains_splittable(1) [of base0 except0] by auto
  note h = splitPrefix_halves [OF split]
  from split(1) h(3,5) canonicalD(3) [OF h(1)] 2(1) show ?case by (simp add: splittable_def)
next
  case (3 base0 except0 base except lr left right)
  then have split: "splittable base" "splitPrefix base = (left, right)"
    using contains_splittable(1) [of base0 except0] by auto
  note h = splitPrefix_halves [OF split]
  from split(1) h(4,6) canonicalD(3) [OF h(2)] 3(1) show ?case by (simp add: splittable_def)
qed simp

declare subtractPrefix.simps [simp del]

text \<open>The addresses a list of prefixes covers.\<close>

definition cover :: "prefix list \<Rightarrow> addr set" where
  "cover ps = (\<Union>p \<in> set ps. prefix_addrs p)"

definition disjoint_prefixes :: "prefix list \<Rightarrow> bool" where
  "disjoint_prefixes ps \<longleftrightarrow> sorted_wrt (\<lambda>p q. prefix_addrs p \<inter> prefix_addrs q = {}) ps"

lemma cover_simps [simp]:
  "cover [] = {}" "cover (p # ps) = prefix_addrs p \<union> cover ps" "cover (ps @ qs) = cover ps \<union> cover qs"
  by (auto simp: cover_def)

lemma disjoint_prefixes_append:
  "disjoint_prefixes (ps @ qs) \<longleftrightarrow>
   disjoint_prefixes ps \<and> disjoint_prefixes qs \<and> cover ps \<inter> cover qs = {}"
  by (auto simp: disjoint_prefixes_def sorted_wrt_append cover_def)

text \<open>A child of a prefix lies strictly below another prefix only if its parent lies in it.\<close>

lemma child_strict_subset:
  assumes "canonical p" and "canonical c" and "canonical x"
    and "prefix_addrs c \<subseteq> prefix_addrs p" and "prefix_Bits c = prefix_Bits p + 1"
    and "prefix_addrs c \<subset> prefix_addrs x"
  shows "prefix_addrs p \<subseteq> prefix_addrs x"
proof -
  from canonical_nested [OF assms(1,3)] canonical_nonempty [OF assms(2)] assms(4,6)
  consider "prefix_addrs p \<subseteq> prefix_addrs x" | "prefix_addrs x \<subseteq> prefix_addrs p" by blast
  then show ?thesis
  proof cases
    case 2
    have "prefix_Bits x \<le> prefix_Bits p"
      using canonical_strict_bits [OF assms(3,2,6)] assms(5) by simp
    with canonical_same_bits [OF assms(1,3) 2] show ?thesis by simp
  qed
qed

lemma subtractPrefix_unfold:
  assumes "canonical b" and "canonical e"
  shows "subtractPrefix b e =
     (if \<not> prefix_addrs e \<subseteq> prefix_addrs b then [b]
      else if b = e then []
      else (let (l, r) = splitPrefix b in subtractPrefix l e @ subtractPrefix r e))"
proof -
  have "policy_prefixContainsPrefix b e \<longleftrightarrow> prefix_addrs e \<subseteq> prefix_addrs b"
    using assms policy_prefixContainsPrefix_iff [of b e] by (simp add: canonical_def)
  then show ?thesis
    using canonicalD(3) [OF assms(1)] canonicalD(3) [OF assms(2)]
    by (subst subtractPrefix.simps) (simp add: Let_def)
qed

text \<open>
  What removing a prefix leaves: canonical, pairwise disjoint prefixes that cover the base without
  the exception.  The last conjunct says where pieces come from: a prefix that lies strictly above
  a piece contains the exception, unless the base was left as it is.
\<close>

definition remainder :: "prefix \<Rightarrow> prefix \<Rightarrow> prefix list \<Rightarrow> bool" where
  "remainder b e ps \<longleftrightarrow>
     (\<forall>p \<in> set ps. canonical p) \<and> disjoint_prefixes ps \<and>
     cover ps = (if prefix_addrs e \<subseteq> prefix_addrs b then prefix_addrs b - prefix_addrs e else prefix_addrs b) \<and>
     (\<forall>p \<in> set ps. p = b \<or>
        (\<forall>x. canonical x \<and> prefix_addrs p \<subset> prefix_addrs x \<longrightarrow> prefix_addrs e \<subseteq> prefix_addrs x))"

lemma remainder_child:
  assumes "remainder c e ps" and "canonical b" and "canonical c" and "canonical e"
    and "prefix_addrs c \<subseteq> prefix_addrs b" and "prefix_Bits c = prefix_Bits b + 1"
    and "prefix_addrs e \<subset> prefix_addrs b"
  shows "(\<forall>p \<in> set ps. canonical p) \<and> disjoint_prefixes ps \<and> cover ps = prefix_addrs c - prefix_addrs e \<and>
    (\<forall>p \<in> set ps. \<forall>x. canonical x \<and> prefix_addrs p \<subset> prefix_addrs x \<longrightarrow> prefix_addrs e \<subseteq> prefix_addrs x)"
proof -
  have nested: "prefix_addrs e \<subseteq> prefix_addrs c \<or> prefix_addrs e \<inter> prefix_addrs c = {}"
  proof -
    have "prefix_Bits c \<le> prefix_Bits e"
      using canonical_strict_bits [OF assms(2,4,7)] assms(6) by simp
    then have "e = c" if "prefix_addrs c \<subseteq> prefix_addrs e"
      using canonical_same_bits [OF assms(4,3) that] by simp
    with canonical_nested [OF assms(4,3)] show ?thesis by blast
  qed
  have above: "prefix_addrs e \<subseteq> prefix_addrs x"
    if "canonical x" "prefix_addrs c \<subset> prefix_addrs x" for x
    using child_strict_subset [OF assms(2,3) that(1) assms(5,6) that(2)] assms(7) by blast
  have "cover ps = prefix_addrs c - prefix_addrs e"
  proof (cases "prefix_addrs e \<subseteq> prefix_addrs c")
    case True
    with assms(1) show ?thesis by (simp add: remainder_def)
  next
    case False
    with nested have "prefix_addrs c - prefix_addrs e = prefix_addrs c" by blast
    with False assms(1) show ?thesis by (simp add: remainder_def)
  qed
  moreover have "\<forall>p \<in> set ps. \<forall>x. canonical x \<and> prefix_addrs p \<subset> prefix_addrs x \<longrightarrow> prefix_addrs e \<subseteq> prefix_addrs x"
  proof (intro ballI allI impI)
    fix p x assume p: "p \<in> set ps" and x: "canonical x \<and> prefix_addrs p \<subset> prefix_addrs x"
    have "p = c \<or> (\<forall>x. canonical x \<and> prefix_addrs p \<subset> prefix_addrs x \<longrightarrow> prefix_addrs e \<subseteq> prefix_addrs x)"
      using assms(1) p unfolding remainder_def by blast
    then show "prefix_addrs e \<subseteq> prefix_addrs x"
    proof
      assume "p = c"
      with above x show ?thesis by simp
    qed (use x in blast)
  qed
  ultimately show ?thesis
    using assms(1) by (simp add: remainder_def)
qed

lemma remainder_subtractPrefix:
  assumes "canonical b" and "canonical e"
  shows "remainder b e (subtractPrefix b e)"
  using assms
proof (induction b e rule: subtractPrefix.induct)
  case (1 b e)
  note can = canonicalD(3) [OF 1(3)] canonicalD(3) [OF 1(4)]
  consider "\<not> prefix_addrs e \<subseteq> prefix_addrs b" | "b = e"
    | "prefix_addrs e \<subset> prefix_addrs b" "b \<noteq> e"
    using canonical_eq_iff [OF "1.prems"] by blast
  then show ?case
  proof cases
    case 1
    with "1.prems" show ?thesis
      by (simp add: subtractPrefix_unfold remainder_def disjoint_prefixes_def)
  next
    case 2
    with "1.prems" show ?thesis
      by (simp add: subtractPrefix_unfold remainder_def disjoint_prefixes_def)
  next
    case 3
    obtain l r where lr: "splitPrefix b = (l, r)" by (cases "splitPrefix b")
    have con: "policy_prefixContainsPrefix b e"
      using 3 policy_prefixContainsPrefix_iff "1.prems" canonicalD(1,2) by blast
    with contains_splittable [of b e] 3 can have "splittable b" by simp
    note h = splitPrefix_halves [OF this lr]
    have "remainder l e (subtractPrefix l e)" and "remainder r e (subtractPrefix r e)"
      using "1.IH" con 3 can lr h(1,2) "1.prems"(2) by simp_all
    note l = remainder_child [OF this(1) "1.prems"(1) h(1) "1.prems"(2) _ h(3) 3(1)]
      and r = remainder_child [OF this(2) "1.prems"(1) h(2) "1.prems"(2) _ h(4) 3(1)]
    have eq: "subtractPrefix b e = subtractPrefix l e @ subtractPrefix r e"
      using 3 lr by (simp add: subtractPrefix_unfold [OF "1.prems"] psubset_imp_subset)
    have sub: "prefix_addrs l \<subseteq> prefix_addrs b" "prefix_addrs r \<subseteq> prefix_addrs b" using h(7) by auto
    note l' = l [OF sub(1)] and r' = r [OF sub(2)]
    have "cover (subtractPrefix b e) = prefix_addrs b - prefix_addrs e"
      unfolding eq using l' r' h(7) by auto
    moreover have "disjoint_prefixes (subtractPrefix b e)"
      unfolding eq disjoint_prefixes_append using l' r' h(8) by auto
    moreover have "\<forall>p \<in> set (subtractPrefix b e). canonical p"
      unfolding eq using l' r' by auto
    moreover have "\<forall>p \<in> set (subtractPrefix b e).
        \<forall>x. canonical x \<and> prefix_addrs p \<subset> prefix_addrs x \<longrightarrow> prefix_addrs e \<subseteq> prefix_addrs x"
      unfolding eq set_append using l' r' by blast
    ultimately show ?thesis
      using 3(1) by (simp add: remainder_def psubset_imp_subset)
  qed
qed

section \<open>Removing a list of exceptions\<close>

definition subtract_each :: "prefix \<Rightarrow> prefix list \<Rightarrow> prefix list" where
  "subtract_each except cidrs = concat (map (\<lambda>cidr. subtractPrefix cidr except) cidrs)"

definition subtract_excepts :: "prefix list \<Rightarrow> prefix list \<Rightarrow> prefix list" where
  "subtract_excepts cidrs excepts = fold (\<lambda>except cidrs. subtract_each (prefix_Masked except) cidrs) excepts cidrs"

definition expandCIDRGroupEntry :: "CIDRGroupEntry \<Rightarrow> prefix list" where
  "expandCIDRGroupEntry entry =
     subtract_excepts [prefix_Masked (entry_CIDR entry)] (entry_ExceptCIDRs entry)"

text \<open>
  What holds after the exceptions \<open>ds\<close> have been removed from the disjoint prefixes \<open>bs\<close>: the
  pieces cover the rest, and a prefix inside one of \<open>bs\<close> and strictly above a piece contains one
  of the exceptions.
\<close>

definition removed :: "prefix list \<Rightarrow> prefix set \<Rightarrow> prefix list \<Rightarrow> bool" where
  "removed bs ds cs \<longleftrightarrow>
     (\<forall>c \<in> set cs. canonical c) \<and> disjoint_prefixes cs \<and>
     cover cs = cover bs - (\<Union>d \<in> ds. prefix_addrs d) \<and>
     (\<forall>c \<in> set cs. \<forall>x. canonical x \<and> prefix_addrs c \<subset> prefix_addrs x \<and> (\<exists>b \<in> set bs. prefix_addrs x \<subseteq> prefix_addrs b) \<longrightarrow>
        (\<exists>d \<in> ds. prefix_addrs d \<subseteq> prefix_addrs x))"

text \<open>An exception that may come next: inside one of the prefixes or outside all, above no earlier one.\<close>

definition removable :: "prefix list \<Rightarrow> prefix set \<Rightarrow> prefix \<Rightarrow> bool" where
  "removable bs ds e \<longleftrightarrow>
     canonical e \<and>
     ((\<exists>b \<in> set bs. prefix_addrs e \<subseteq> prefix_addrs b) \<or> prefix_addrs e \<inter> cover bs = {}) \<and>
     (\<forall>d \<in> ds. canonical d \<and> \<not> prefix_addrs d \<subset> prefix_addrs e)"

lemma cover_mem: "c \<in> set cs \<Longrightarrow> prefix_addrs c \<subseteq> cover cs"
  by (auto simp: cover_def)

lemma disjoint_prefixes_mem:
  assumes "disjoint_prefixes ps" and "p \<in> set ps" and "q \<in> set ps" and "p \<noteq> q"
  shows "prefix_addrs p \<inter> prefix_addrs q = {}"
  using assms
  by (induction ps) (auto simp: disjoint_prefixes_def)

lemma removed_start:
  assumes "\<forall>b \<in> set bs. canonical b" and "disjoint_prefixes bs"
  shows "removed bs {} bs"
proof -
  have strict: False if "c \<in> set bs" "b \<in> set bs" "prefix_addrs c \<subset> prefix_addrs x" "prefix_addrs x \<subseteq> prefix_addrs b" for c b x
  proof -
    from that have "c \<noteq> b" by auto
    with disjoint_prefixes_mem [OF assms(2) that(1,2)] canonical_nonempty [of c] assms(1) that show False by auto
  qed
  show ?thesis
    unfolding removed_def
  proof (intro conjI ballI allI impI)
    fix c x
    assume "c \<in> set bs" and "canonical x \<and> prefix_addrs c \<subset> prefix_addrs x \<and> (\<exists>b \<in> set bs. prefix_addrs x \<subseteq> prefix_addrs b)"
    then show "\<exists>d \<in> {}. prefix_addrs d \<subseteq> prefix_addrs x" using strict by metis
  qed (use assms in simp_all)
qed

lemma removedD:
  assumes "removed bs ds cs"
  shows "\<forall>c \<in> set cs. canonical c" and "disjoint_prefixes cs"
    and "cover cs = cover bs - (\<Union>d \<in> ds. prefix_addrs d)"
    and "c \<in> set cs \<Longrightarrow> canonical x \<Longrightarrow> prefix_addrs c \<subset> prefix_addrs x \<Longrightarrow>
      \<exists>b \<in> set bs. prefix_addrs x \<subseteq> prefix_addrs b \<Longrightarrow> \<exists>d \<in> ds. prefix_addrs d \<subseteq> prefix_addrs x"
  using assms unfolding removed_def by simp_all

lemma removed_piece:
  assumes "removed bs ds cs" and "removable bs ds e" and "c \<in> set cs"
  shows "prefix_addrs e \<subseteq> prefix_addrs c \<or> prefix_addrs e \<inter> prefix_addrs c = {}"
proof -
  have c: "canonical c" "prefix_addrs c \<subseteq> cover bs - (\<Union>d \<in> ds. prefix_addrs d)"
    using assms(1,3) cover_mem [of c cs] by (auto simp: removed_def)
  have e: "canonical e" using assms(2) by (simp add: removable_def)
  have "\<not> prefix_addrs c \<subset> prefix_addrs e"
  proof
    assume above: "prefix_addrs c \<subset> prefix_addrs e"
    with c canonical_nonempty [OF c(1)] have "prefix_addrs e \<inter> cover bs \<noteq> {}" by blast
    with assms(2) have "\<exists>b \<in> set bs. prefix_addrs e \<subseteq> prefix_addrs b" by (auto simp: removable_def)
    from removedD(4) [OF assms(1,3) e above this]
    obtain d where d: "d \<in> ds" "prefix_addrs d \<subseteq> prefix_addrs e" by blast
    with assms(2) have "prefix_addrs d = prefix_addrs e" by (auto simp: removable_def)
    with above c(2) d(1) canonical_nonempty [OF c(1)] show False by blast
  qed
  with canonical_nested [OF e c(1)] show ?thesis by blast
qed

lemma remainderD:
  assumes "remainder c e ps" and "prefix_addrs e \<subseteq> prefix_addrs c \<or> prefix_addrs e \<inter> prefix_addrs c = {}"
  shows "\<forall>p \<in> set ps. canonical p" and "disjoint_prefixes ps" and "cover ps = prefix_addrs c - prefix_addrs e"
    and "p \<in> set ps \<Longrightarrow> canonical x \<Longrightarrow> prefix_addrs p \<subset> prefix_addrs x \<Longrightarrow>
      p = c \<or> prefix_addrs e \<subseteq> prefix_addrs x"
proof -
  show "\<forall>p \<in> set ps. canonical p" and "disjoint_prefixes ps"
    using assms(1) by (auto simp: remainder_def)
  show "cover ps = prefix_addrs c - prefix_addrs e"
  proof (cases "prefix_addrs e \<subseteq> prefix_addrs c")
    case True
    with assms(1) show ?thesis by (simp add: remainder_def)
  next
    case False
    with assms(2) have "prefix_addrs c - prefix_addrs e = prefix_addrs c" by blast
    with False assms(1) show ?thesis by (simp add: remainder_def)
  qed
  show "p = c \<or> prefix_addrs e \<subseteq> prefix_addrs x"
    if "p \<in> set ps" "canonical x" "prefix_addrs p \<subset> prefix_addrs x"
    using assms(1) that unfolding remainder_def by blast
qed

lemma subtract_each_cover:
  assumes "\<forall>c \<in> set cs. canonical c" and "disjoint_prefixes cs" and "canonical e"
    and "\<forall>c \<in> set cs. prefix_addrs e \<subseteq> prefix_addrs c \<or> prefix_addrs e \<inter> prefix_addrs c = {}"
  shows "(\<forall>p \<in> set (subtract_each e cs). canonical p) \<and> disjoint_prefixes (subtract_each e cs) \<and>
    cover (subtract_each e cs) = cover cs - prefix_addrs e"
  using assms
proof (induction cs)
  case Nil
  then show ?case by (simp add: subtract_each_def disjoint_prefixes_def)
next
  case (Cons c cs)
  have eq: "subtract_each e (c # cs) = subtractPrefix c e @ subtract_each e cs"
    by (simp add: subtract_each_def)
  have "disjoint_prefixes cs" and dis: "prefix_addrs c \<inter> cover cs = {}"
    using Cons.prems(2) by (auto simp: disjoint_prefixes_def cover_def)
  with Cons have IH: "(\<forall>p \<in> set (subtract_each e cs). canonical p) \<and> disjoint_prefixes (subtract_each e cs) \<and>
    cover (subtract_each e cs) = cover cs - prefix_addrs e" by simp
  have "remainder c e (subtractPrefix c e)"
    using remainder_subtractPrefix Cons.prems(1,3) by simp
  note r = remainderD(1-3) [OF this] 
  have nest: "prefix_addrs e \<subseteq> prefix_addrs c \<or> prefix_addrs e \<inter> prefix_addrs c = {}"
    using Cons.prems(4) by simp
  have "cover (subtractPrefix c e @ subtract_each e cs) = cover (c # cs) - prefix_addrs e"
    using r(3) [OF nest] IH by auto
  moreover have "disjoint_prefixes (subtractPrefix c e @ subtract_each e cs)"
    unfolding disjoint_prefixes_append using r(2,3) [OF nest] IH dis by auto
  ultimately show ?case
    unfolding eq using r(1) [OF nest] IH by auto
qed

lemma removed_step:
  assumes "removed bs ds cs" and "removable bs ds e"
  shows "removed bs (insert e ds) (subtract_each e cs)"
proof -
  note R = removedD [OF assms(1)]
  have e: "canonical e" using assms(2) by (simp add: removable_def)
  have nest: "\<forall>c \<in> set cs. prefix_addrs e \<subseteq> prefix_addrs c \<or> prefix_addrs e \<inter> prefix_addrs c = {}"
    using removed_piece [OF assms] by blast
  note S = subtract_each_cover [OF R(1,2) e nest]
  have "cover (subtract_each e cs) = cover bs - (\<Union>d \<in> insert e ds. prefix_addrs d)"
    using S R(3) by auto
  moreover have "\<exists>d \<in> insert e ds. prefix_addrs d \<subseteq> prefix_addrs x"
    if p: "p \<in> set (subtract_each e cs)" and x: "canonical x" "prefix_addrs p \<subset> prefix_addrs x"
      and inside: "\<exists>b \<in> set bs. prefix_addrs x \<subseteq> prefix_addrs b" for p x
  proof -
    from p obtain c where c: "c \<in> set cs" and pc: "p \<in> set (subtractPrefix c e)"
      by (auto simp: subtract_each_def)
    have "remainder c e (subtractPrefix c e)"
      using remainder_subtractPrefix R(1) c e by simp
    from remainderD(4) [OF this _ pc x] nest c have "p = c \<or> prefix_addrs e \<subseteq> prefix_addrs x" by blast
    then show ?thesis
    proof
      assume "p = c"
      with removedD(4) [OF assms(1) c x(1) _ inside] x(2) show ?thesis by blast
    qed simp
  qed
  ultimately show ?thesis
    using S unfolding removed_def by simp
qed

lemma removed_fold:
  assumes "removed bs ds cs"
    and "\<forall>e \<in> set es. canonical e \<and>
      ((\<exists>b \<in> set bs. prefix_addrs e \<subseteq> prefix_addrs b) \<or> prefix_addrs e \<inter> cover bs = {})"
    and "sorted_wrt (\<lambda>e e'. \<not> prefix_addrs e \<subset> prefix_addrs e') es"
    and "\<forall>d \<in> ds. canonical d \<and> (\<forall>e \<in> set es. \<not> prefix_addrs d \<subset> prefix_addrs e)"
  shows "removed bs (ds \<union> set es) (subtract_excepts cs es)"
  using assms
proof (induction es arbitrary: ds cs)
  case Nil
  then show ?case by (simp add: subtract_excepts_def)
next
  case (Cons e es)
  have "removable bs ds e" using Cons.prems(2,4) by (simp add: removable_def)
  then have "removed bs (insert e ds) (subtract_each e cs)"
    by (rule removed_step [OF Cons.prems(1)])
  then have "removed bs (insert e ds \<union> set es) (subtract_excepts (subtract_each e cs) es)"
    by (rule Cons.IH) (use Cons.prems in auto)
  moreover have "subtract_excepts cs (e # es) = subtract_excepts (subtract_each e cs) es"
    using Cons.prems(2) canonicalD(3) by (simp add: subtract_excepts_def)
  ultimately show ?case by simp
qed

text \<open>
  C18. Removing exceptions from a prefix leaves disjoint masked prefixes that cover exactly the
  addresses of the prefix that lie in no exception, provided no exception strictly contains one
  that precedes it in the list.
\<close>

theorem subtract_excepts_exact:
  assumes "canonical b" and "\<forall>e \<in> set excepts. canonical e \<and> prefix_addrs e \<subseteq> prefix_addrs b"
    and "sorted_wrt (\<lambda>e e'. \<not> prefix_addrs e \<subset> prefix_addrs e') excepts"
  shows "cover (subtract_excepts [b] excepts) = prefix_addrs b - cover excepts \<and>
    disjoint_prefixes (subtract_excepts [b] excepts) \<and> (\<forall>p \<in> set (subtract_excepts [b] excepts). canonical p)"
proof -
  have "removed [b] {} [b]"
    by (rule removed_start) (use assms(1) in \<open>simp_all add: disjoint_prefixes_def\<close>)
  then have "removed [b] ({} \<union> set excepts) (subtract_excepts [b] excepts)"
    by (rule removed_fold) (use assms in auto)
  from removedD(1-3) [OF this] show ?thesis by (simp add: cover_def)
qed

theorem subtract_excepts_exact_witness:
  "cover (subtract_excepts [Prefix (V4 0x0A000000) 25] [Prefix (V4 0x0A000080) 27, Prefix (V4 0x0A000081) 33]) =
   prefix_addrs (Prefix (V4 0x0A000000) 25) - cover [Prefix (V4 0x0A000080) 27, Prefix (V4 0x0A000081) 33]"
proof -
  let ?b = "Prefix (V4 0x0A000000) 25" and ?e = "Prefix (V4 0x0A000080) 27" and ?f = "Prefix (V4 0x0A000081) 33"
  have *: "prefix_Masked ?b = ?b \<and> prefix_Masked ?e = ?e \<and> prefix_Masked ?f = ?f \<and> prefix_IsValid ?b \<and>
      prefix_IsValid ?e \<and> prefix_IsValid ?f \<and> prefix_Bits ?b \<le> prefix_Bits ?e \<and> prefix_Contains ?b (prefix_Addr ?e) \<and>
      prefix_Bits ?b \<le> prefix_Bits ?f \<and> prefix_Contains ?b (prefix_Addr ?f) \<and> prefix_Bits ?e < prefix_Bits ?f"
    by code_simp
  then have can: "canonical ?b" "canonical ?e" "canonical ?f" by (simp_all add: canonical_def)
  have order: "\<not> prefix_addrs ?e \<subset> prefix_addrs ?f"
    using canonical_strict_bits [OF can(3,2)] * by linarith
  have sub: "prefix_addrs ?e \<subseteq> prefix_addrs ?b" "prefix_addrs ?f \<subseteq> prefix_addrs ?b"
    using canonical_subset_iff [OF can(1,2)] canonical_subset_iff [OF can(1,3)] * by blast+
  show ?thesis
    by (rule subtract_excepts_exact [OF can(1), THEN conjunct1]) (use can(2,3) sub order in simp_all)
qed

text \<open>
  The order of the exceptions matters: with \<open>10.1.2.0/24\<close> before \<open>10.1.0.0/16\<close> the second
  exception removes nothing that is left around the first, and \<open>10.1.3.4\<close> stays covered.
\<close>

theorem nested_except_ignored:
  "V4 0x0A010304 \<in> prefix_addrs (Prefix (V4 0x0A010000) 17) \<and>
   V4 0x0A010304 \<in> cover (expandCIDRGroupEntry \<lparr>entry_CIDR = Prefix (V4 0x0A000000) 9,
      entry_ExceptCIDRs = [Prefix (V4 0x0A010200) 25, Prefix (V4 0x0A010000) 17]\<rparr>) \<and>
   is_ok (CIDRGroupEntry_Validate \<lparr>entry_CIDR = Prefix (V4 0x0A000000) 9,
      entry_ExceptCIDRs = [Prefix (V4 0x0A010200) 25, Prefix (V4 0x0A010000) 17]\<rparr>)"
proof -
  have "list_ex (\<lambda>p. prefix_Contains p (V4 0x0A010304))
      (expandCIDRGroupEntry \<lparr>entry_CIDR = Prefix (V4 0x0A000000) 9,
        entry_ExceptCIDRs = [Prefix (V4 0x0A010200) 25, Prefix (V4 0x0A010000) 17]\<rparr>)"
    by code_simp
  moreover have "prefix_Contains (Prefix (V4 0x0A010000) 17) (V4 0x0A010304) \<and>
      is_ok (CIDRGroupEntry_Validate \<lparr>entry_CIDR = Prefix (V4 0x0A000000) 9,
        entry_ExceptCIDRs = [Prefix (V4 0x0A010200) 25, Prefix (V4 0x0A010000) 17]\<rparr>)"
    by code_simp
  ultimately show ?thesis by (auto simp: cover_def prefix_addrs_def list_ex_iff)
qed

end
