(* ===== verification/Compact.thy ===== *)
theory Compact
  imports Cidr
begin

text \<open>
  Merging of sibling prefixes (\<open>compactCIDRs\<close> and its helpers) and the prefixes of the world
  entities (\<open>worldCIDRs\<close>) of \<open>internal/policy/compiler.go\<close>.
\<close>

section \<open>Operations\<close>

definition dedupeCIDRs :: "prefix list \<Rightarrow> prefix list" where
  "dedupeCIDRs cidrs = dedupe_by (\<lambda>cidr. cidr) [] cidrs"

definition cidr_less :: "prefix \<Rightarrow> prefix \<Rightarrow> bool" where
  "cidr_less left right =
     (if addr_Is4 (prefix_Addr left) \<noteq> addr_Is4 (prefix_Addr right) then addr_Is4 (prefix_Addr left)
      else if addr_Compare (prefix_Addr left) (prefix_Addr right) \<noteq> 0
      then addr_Compare (prefix_Addr left) (prefix_Addr right) < 0
      else prefix_Bits left < prefix_Bits right)"

definition sortCIDRs :: "prefix list \<Rightarrow> prefix list" where
  "sortCIDRs cidrs = sort_SliceStable cidr_less cidrs"

definition mergeSiblingCIDRs :: "prefix \<Rightarrow> prefix \<Rightarrow> prefix option" where
  "mergeSiblingCIDRs left0 right0 =
     (let left = prefix_Masked left0; right = prefix_Masked right0 in
      if \<not> prefix_IsValid left \<or> \<not> prefix_IsValid right \<or> left = right then None
      else if addr_Is4 (prefix_Addr left) \<noteq> addr_Is4 (prefix_Addr right) \<or>
              prefix_Bits left \<noteq> prefix_Bits right \<or> prefix_Bits left = 0 then None
      else
        (let parentBits = prefix_Bits left - 1;
             leftParent = prefix_Masked (netip_PrefixFrom (prefix_Addr left) parentBits);
             rightParent = prefix_Masked (netip_PrefixFrom (prefix_Addr right) parentBits)
         in if leftParent \<noteq> rightParent then None
            else (let (siblingA, siblingB) = splitPrefix leftParent in
              if left = siblingA \<and> right = siblingB \<or> left = siblingB \<and> right = siblingA
              then Some leftParent else None)))"

fun compact_pass :: "prefix list \<Rightarrow> prefix list \<times> bool" where
  "compact_pass [] = ([], False)"
| "compact_pass [x] = ([x], False)"
| "compact_pass (x # y # zs) =
     (case mergeSiblingCIDRs x y of
        Some parent \<Rightarrow> (let (out, changed) = compact_pass zs in (parent # out, True))
      | None \<Rightarrow> (let (out, changed) = compact_pass (y # zs) in (x # out, changed)))"

definition compactCIDRsOnce :: "prefix list \<Rightarrow> prefix list \<times> bool" where
  "compactCIDRsOnce cidrs = (let (out, changed) = compact_pass cidrs in (dedupeCIDRs out, changed))"

lemma compact_pass_length:
  "length (fst (compact_pass cs)) \<le> length cs \<and> (snd (compact_pass cs) \<longrightarrow> length (fst (compact_pass cs)) < length cs)"
  by (induction cs rule: compact_pass.induct) (auto split: option.splits prod.splits)

function compact_loop :: "prefix list \<Rightarrow> prefix list" where
  "compact_loop current =
     (let (next0, changed) = compactCIDRsOnce current; nxt = sortCIDRs next0 in
      if \<not> changed then nxt else compact_loop nxt)"
  by pat_completeness auto
termination
proof (relation "measure length", goal_cases)
  case (2 current r next0 changed nxt)
  then have "compactCIDRsOnce current = (next0, True)" and nxt: "nxt = sortCIDRs next0" by auto
  then have "next0 = dedupeCIDRs (fst (compact_pass current))" and "snd (compact_pass current)"
    by (auto simp: compactCIDRsOnce_def split: prod.splits)
  then have "length next0 < length current"
    using compact_pass_length [of current] length_dedupe_by [of "\<lambda>c. c" "[]" "fst (compact_pass current)"]
    by (simp add: dedupeCIDRs_def)
  with nxt show ?case by (simp add: sortCIDRs_def)
qed simp

declare compact_loop.simps [simp del]

definition compactCIDRs :: "prefix list \<Rightarrow> prefix list" where
  "compactCIDRs cidrs =
     (if length cidrs < 2 then dedupeCIDRs cidrs else compact_loop (sortCIDRs (dedupeCIDRs cidrs)))"

definition allCIDRs :: "prefix list" where
  "allCIDRs = [Prefix (V4 0) 1, Prefix (V6 0 '''') 1]"

definition string_sorted_cidrs :: "prefix list \<Rightarrow> prefix list" where
  "string_sorted_cidrs cidrs = sort_SliceStable (\<lambda>a b. prefix_String a < prefix_String b) cidrs"

definition world_step :: "prefix \<Rightarrow> prefix list \<Rightarrow> prefix list" where
  "world_step clusterCIDR0 cidrs =
     (let clusterCIDR = prefix_Masked clusterCIDR0 in
      concat (map (\<lambda>cidr.
        if addr_Is4 (prefix_Addr cidr) \<noteq> addr_Is4 (prefix_Addr clusterCIDR) then [cidr]
        else subtractPrefix cidr clusterCIDR) cidrs))"

definition worldCIDRs :: "string \<Rightarrow> (string \<Rightarrow> prefix list) \<Rightarrow> prefix list \<Rightarrow> prefix list result" where
  "worldCIDRs vpc subnetsByVPC initial =
     (let clusterCIDRs = subnetsByVPC vpc in
      if clusterCIDRs = [] then
        Inl (Errorf ''remote entity world requires at least one subnet in vpc %s'' [vpc])
      else Inr (string_sorted_cidrs (fold world_step clusterCIDRs initial)))"


section \<open>Order of prefixes\<close>

lemma addr_Compare_0 [simp]: "addr_Compare a b = 0 \<longleftrightarrow> a = b"
  using antisym [of a b] antisym [of b a]
  by (auto simp: less_eq_addr_def addr_Compare_def split: if_splits)

lemma addr_Compare_self [simp]: "addr_Compare a a = 0"
  by simp

lemma cidr_less_alt:
  "cidr_less p q \<longleftrightarrow>
   addr_Is4 (prefix_Addr p) \<and> \<not> addr_Is4 (prefix_Addr q) \<or>
   addr_Is4 (prefix_Addr p) = addr_Is4 (prefix_Addr q) \<and>
     (prefix_Addr p < prefix_Addr q \<or> prefix_Addr p = prefix_Addr q \<and> bitsPlusOne p < bitsPlusOne q)"
  by (auto simp: cidr_less_def less_addr_def prefix_Bits_def)

interpretation cidr_ord: strict_total_order cidr_less
proof
  show "cidr_less x y \<Longrightarrow> \<not> cidr_less y x" for x y
    by (auto simp: cidr_less_alt)
  show "\<not> cidr_less x y \<Longrightarrow> \<not> cidr_less y z \<Longrightarrow> \<not> cidr_less x z" for x y z
    unfolding cidr_less_alt by (auto dest: less_trans simp: not_less)
  show "x \<noteq> y \<Longrightarrow> cidr_less x y \<or> cidr_less y x" for x y
    unfolding cidr_less_alt by (cases x; cases y) auto
qed


section \<open>Merging preserves the covered addresses\<close>

lemma PrefixFrom_parent:
  assumes "canonical p" and "0 < prefix_Bits p"
  shows "splittable (prefix_Masked (netip_PrefixFrom (prefix_Addr p) (prefix_Bits p - 1)))"
  using assms(1)
proof (cases p rule: canonical_cases)
  case (V4 w n)
  with assms(2) obtain m where n: "n = Suc m" by (cases n) auto
  with V4 show ?thesis by (simp add: netip_PrefixFrom_def splittable_def canonical_def)
next
  case (V6 w n)
  with assms(2) obtain m where n: "n = Suc m" by (cases n) auto
  with V6 show ?thesis by (simp add: netip_PrefixFrom_def splittable_def canonical_def)
qed

lemma mergeSiblingCIDRs_Some:
  assumes "mergeSiblingCIDRs l r = Some p" and "canonical l" and "canonical r"
  shows "canonical p" and "prefix_addrs p = prefix_addrs l \<union> prefix_addrs r"
proof -
  note masked = canonicalD(3) [OF assms(2)] canonicalD(3) [OF assms(3)]
  let ?lp = "prefix_Masked (netip_PrefixFrom (prefix_Addr l) (prefix_Bits l - 1))"
  obtain a b where ab: "splitPrefix ?lp = (a, b)" by (cases "splitPrefix ?lp")
  have p: "p = ?lp" and bits: "prefix_Bits l \<noteq> 0" and sib: "l = a \<and> r = b \<or> l = b \<and> r = a"
    using assms(1) ab by (auto simp: mergeSiblingCIDRs_def masked Let_def split: if_splits)
  have "splittable ?lp"
    using PrefixFrom_parent [OF assms(2)] bits canonical_Bits(1) [OF assms(2)] by simp
  note h = splitPrefix_halves [OF this ab]
  show "canonical p" using \<open>splittable ?lp\<close> by (simp add: p splittable_def)
  show "prefix_addrs p = prefix_addrs l \<union> prefix_addrs r" using h(7) sib p by auto
qed

lemma compact_pass_cover:
  assumes "\<forall>c \<in> set cs. canonical c"
  shows "(\<forall>c \<in> set (fst (compact_pass cs)). canonical c) \<and> cover (fst (compact_pass cs)) = cover cs"
  using assms
proof (induction cs rule: compact_pass.induct)
  case (3 x y zs)
  show ?case
  proof (cases "mergeSiblingCIDRs x y")
    case None
    with 3 show ?thesis by (auto split: prod.splits)
  next
    case (Some p)
    with mergeSiblingCIDRs_Some [OF Some] 3 show ?thesis by (auto split: prod.splits)
  qed
qed simp_all

lemma set_dedupeCIDRs [simp]: "set (dedupeCIDRs cs) = set cs"
  by (simp add: dedupeCIDRs_def)

lemma distinct_dedupeCIDRs [simp]: "distinct (dedupeCIDRs cs)"
  using distinct_dedupe_by [of "\<lambda>c. c" "[]" cs] by (simp add: dedupeCIDRs_def)

lemma set_sortCIDRs [simp]: "set (sortCIDRs cs) = set cs"
  by (simp add: sortCIDRs_def)

lemma cover_cong: "set cs = set ds \<Longrightarrow> cover cs = cover ds"
  by (simp add: cover_def)

text \<open>No two neighbours of the list can be merged.\<close>

fun no_siblings :: "prefix list \<Rightarrow> bool" where
  "no_siblings (x # y # zs) = (mergeSiblingCIDRs x y = None \<and> no_siblings (y # zs))"
| "no_siblings _ = True"

lemma compact_pass_unchanged: "\<not> snd (compact_pass cs) \<Longrightarrow> fst (compact_pass cs) = cs \<and> no_siblings cs"
  by (induction cs rule: compact_pass.induct) (auto split: option.splits prod.splits)

lemma dedupe_by_distinct_id: "distinct xs \<Longrightarrow> set xs \<inter> set seen = {} \<Longrightarrow> dedupe_by (\<lambda>x. x) seen xs = xs"
  by (induction xs arbitrary: seen) auto

lemma compact_loop_result:
  assumes "\<forall>c \<in> set cs. canonical c" and "distinct cs" and "sortCIDRs cs = cs"
  shows "(\<forall>c \<in> set (compact_loop cs). canonical c) \<and> cover (compact_loop cs) = cover cs \<and>
    distinct (compact_loop cs) \<and> sorted_wrt cidr_less (compact_loop cs) \<and> no_siblings (compact_loop cs)"
  using assms
proof (induction "length cs" arbitrary: cs rule: less_induct)
  case (less cs)
  note 1 = less.hyps less.prems
  show ?case
  proof (cases "snd (compact_pass cs)")
    case False
    then have "compact_loop cs = cs" "no_siblings cs"
      using compact_pass_unchanged [OF False] 1(3,4)
      by (auto simp: compact_loop.simps [of cs] compactCIDRsOnce_def dedupeCIDRs_def
          dedupe_by_distinct_id split: prod.splits)
    moreover have "sorted_wrt cidr_less cs"
      using cidr_ord.sorted_sort_SliceStable [of cs] cidr_ord.sorted_distinct_strict [of cs] 1(3,4)
      by (simp add: sortCIDRs_def)
    ultimately show ?thesis using 1 by simp
  next
    case True
    let ?next = "sortCIDRs (dedupeCIDRs (fst (compact_pass cs)))"
    have loop: "compact_loop cs = compact_loop ?next"
      using True by (subst compact_loop.simps) (auto simp: compactCIDRsOnce_def split: prod.splits)
    note pass = compact_pass_cover [OF 1(2)]
    have "cover ?next = cover (fst (compact_pass cs))" by (rule cover_cong) simp
    moreover have "sortCIDRs ?next = ?next"
      unfolding sortCIDRs_def by (rule cidr_ord.sort_SliceStable_idem) (rule cidr_ord.sorted_sort_SliceStable)
    moreover have "distinct ?next" by (simp add: sortCIDRs_def)
    moreover have "length ?next < length cs"
      using True compact_pass_length [of cs] length_dedupe_by [of "\<lambda>c. c" "[]" "fst (compact_pass cs)"]
      by (simp add: sortCIDRs_def dedupeCIDRs_def)
    ultimately show ?thesis
      unfolding loop using less.hyps [of ?next] pass by simp
  qed
qed

lemma compactCIDRs_result:
  assumes "\<forall>c \<in> set cs. canonical c"
  shows "cover (compactCIDRs cs) = cover cs \<and> (\<forall>c \<in> set (compactCIDRs cs). canonical c) \<and>
    sorted_wrt cidr_less (compactCIDRs cs) \<and> no_siblings (compactCIDRs cs)"
proof (cases "length cs < 2")
  case True
  then show ?thesis
    using assms by (cases cs rule: no_siblings.cases) (auto simp: compactCIDRs_def dedupeCIDRs_def)
next
  case False
  let ?start = "sortCIDRs (dedupeCIDRs cs)"
  have "cover ?start = cover cs" by (rule cover_cong) simp
  moreover have "sortCIDRs ?start = ?start"
    unfolding sortCIDRs_def by (rule cidr_ord.sort_SliceStable_idem) (rule cidr_ord.sorted_sort_SliceStable)
  moreover have "distinct ?start" by (simp add: sortCIDRs_def)
  ultimately show ?thesis
    using compact_loop_result [of ?start] assms False by (simp add: compactCIDRs_def)
qed

text \<open>
  C19. Compacting masked prefixes keeps exactly the covered addresses; the result is strictly
  sorted and, when there were at least two prefixes, no two neighbours of it are siblings any more.
\<close>

theorem compactCIDRs_exact:
  assumes "\<forall>c \<in> set cs. canonical c"
  shows "cover (compactCIDRs cs) = cover cs \<and> (\<forall>c \<in> set (compactCIDRs cs). canonical c) \<and>
    sorted_wrt cidr_less (compactCIDRs cs) \<and> no_siblings (compactCIDRs cs)"
  using assms by (rule compactCIDRs_result)

theorem compactCIDRs_exact_witness:
  "compactCIDRs [Prefix (V4 0x0A000080) 26, Prefix (V4 0x0A000000) 27, Prefix (V4 0x0A000040) 27] =
     [Prefix (V4 0x0A000000) 25] \<and>
   cover [Prefix (V4 0x0A000000) 25] =
   cover [Prefix (V4 0x0A000080) 26, Prefix (V4 0x0A000000) 27, Prefix (V4 0x0A000040) 27]"
proof -
  let ?cs = "[Prefix (V4 0x0A000080) 26, Prefix (V4 0x0A000000) 27, Prefix (V4 0x0A000040) 27]"
  have eq: "compactCIDRs ?cs = [Prefix (V4 0x0A000000) 25]" by code_simp
  have can: "list_all canonical ?cs" by code_simp
  show ?thesis
    using compactCIDRs_exact [OF can [unfolded list_all_iff]] eq by metis
qed

section \<open>The world entities\<close>

definition family_roots :: "prefix list set" where
  "family_roots = {allCIDRs, [Prefix (V4 0) 1], [Prefix (V6 0 '''') 1]}"

lemma root_V4: "canonical (Prefix (V4 0) 1)" "prefix_addrs (Prefix (V4 0) 1) = range V4"
  by (auto simp: canonical_def prefix_addrs_def)

lemma root_V6: "canonical (Prefix (V6 0 '''') 1)" "prefix_addrs (Prefix (V6 0 '''') 1) = range (\<lambda>w. V6 w '''')"
  by (auto simp: canonical_def prefix_addrs_def)

lemma family_roots_ok:
  assumes "bs \<in> family_roots"
  shows "\<forall>b \<in> set bs. canonical b" and "disjoint_prefixes bs"
  using assms root_V4 root_V6 by (auto simp: family_roots_def allCIDRs_def disjoint_prefixes_def)

lemma canonical_in_root:
  assumes "canonical e"
  shows "prefix_addrs e \<subseteq> range V4 \<or> prefix_addrs e \<subseteq> range (\<lambda>w. V6 w '''')"
  using assms by (cases e rule: canonical_cases) (auto simp: prefix_addrs_def)

lemma family_roots_position:
  assumes "bs \<in> family_roots" and "canonical e"
  shows "(\<exists>b \<in> set bs. prefix_addrs e \<subseteq> prefix_addrs b) \<or> prefix_addrs e \<inter> cover bs = {}"
  using canonical_in_root [OF assms(2)] assms(1) root_V4(2) root_V6(2)
  by (auto simp: family_roots_def allCIDRs_def)

lemma subtractPrefix_other_family:
  assumes "canonical b" and "canonical e" and "addr_Is4 (prefix_Addr b) \<noteq> addr_Is4 (prefix_Addr e)"
  shows "subtractPrefix b e = [b]"
proof -
  have "\<not> prefix_addrs e \<subseteq> prefix_addrs b"
    using canonical_subset_iff [OF assms(1,2)] prefix_Contains_family [OF canonicalD(1) [OF assms(1)]] assms(3) by blast
  with assms show ?thesis by (simp add: subtractPrefix_unfold)
qed

lemma world_step_subtract:
  assumes "\<forall>c \<in> set cs. canonical c" and "canonical e"
  shows "world_step e cs = subtract_each (prefix_Masked e) cs"
proof -
  have "map (\<lambda>cidr. if addr_Is4 (prefix_Addr cidr) \<noteq> addr_Is4 (prefix_Addr e) then [cidr] else subtractPrefix cidr e) cs =
      map (\<lambda>cidr. subtractPrefix cidr e) cs"
    using assms subtractPrefix_other_family by (intro map_cong) auto
  then show ?thesis
    unfolding world_step_def Let_def subtract_each_def canonicalD(3) [OF assms(2)] by (rule arg_cong)
qed

lemma subtractPrefix_canonical: "canonical b \<Longrightarrow> canonical e \<Longrightarrow> p \<in> set (subtractPrefix b e) \<Longrightarrow> canonical p"
  using remainder_subtractPrefix [of b e] by (auto simp: remainder_def)

lemma fold_world_step:
  assumes "\<forall>c \<in> set cs. canonical c" and "\<forall>e \<in> set es. canonical e"
  shows "fold world_step es cs = subtract_excepts cs es"
  using assms
proof (induction es arbitrary: cs)
  case (Cons e es)
  then have "world_step e cs = subtract_each (prefix_Masked e) cs" by (simp add: world_step_subtract)
  moreover have "\<forall>c \<in> set (subtract_each (prefix_Masked e) cs). canonical c"
    using Cons.prems canonicalD(3) [of e] by (auto simp: subtract_each_def intro: subtractPrefix_canonical)
  ultimately show ?case using Cons by (simp add: subtract_excepts_def)
qed (simp add: subtract_excepts_def)

text \<open>
  C24. For a VPC with at least one subnet whose subnets are masked and do not overlap, the
  prefixes of a world entity cover exactly the addresses of its family (or of both families)
  outside the subnets of the VPC.
\<close>

theorem worldCIDRs_exact:
  assumes "subnets vpc \<noteq> []" and "\<forall>e \<in> set (subnets vpc). canonical e" and "disjoint_prefixes (subnets vpc)"
    and "bs \<in> family_roots"
  shows "\<exists>ps. worldCIDRs vpc subnets bs = Inr ps \<and> cover ps = cover bs - cover (subnets vpc) \<and>
    disjoint_prefixes (subtract_excepts bs (subnets vpc)) \<and> set ps = set (subtract_excepts bs (subnets vpc))"
proof -
  let ?ps = "subtract_excepts bs (subnets vpc)"
  have "sorted_wrt (\<lambda>e e'. \<not> prefix_addrs e \<subset> prefix_addrs e') (subnets vpc)"
    by (rule sorted_wrt_mono_rel [OF _ assms(3) [unfolded disjoint_prefixes_def]])
      (use assms(2) canonical_nonempty in blast)
  then have "removed bs ({} \<union> set (subnets vpc)) ?ps"
    using removed_start [OF family_roots_ok [OF assms(4)]] family_roots_position [OF assms(4)] assms(2)
    by (intro removed_fold) auto
  note R = removedD(1-3) [OF this]
  have "worldCIDRs vpc subnets bs = Inr (string_sorted_cidrs ?ps)"
    using assms(1) fold_world_step [OF family_roots_ok(1) [OF assms(4)] assms(2)]
    by (simp add: worldCIDRs_def)
  moreover have "cover (string_sorted_cidrs ?ps) = cover ?ps"
    by (rule cover_cong) (simp add: string_sorted_cidrs_def)
  ultimately show ?thesis
    using R(2,3) by (auto simp: cover_def string_sorted_cidrs_def)
qed

theorem worldCIDRs_exact_witness:
  "\<exists>ps. worldCIDRs ''blue'' (\<lambda>_. [Prefix (V4 0x80000000) 2]) [Prefix (V4 0) 1] = Inr ps \<and>
    cover ps = range V4 - prefix_addrs (Prefix (V4 0x80000000) 2)"
proof -
  have can: "canonical (Prefix (V4 0x80000000) 2)" by code_simp
  have "[Prefix (V4 0) 1] \<in> family_roots" by (simp add: family_roots_def)
  then show ?thesis
    using worldCIDRs_exact [of "\<lambda>_. [Prefix (V4 0x80000000) 2]" "''blue''" "[Prefix (V4 0) 1]"] can root_V4(2)
    by (auto simp: disjoint_prefixes_def)
qed

end
