(* ===== verification/Policy.thy ===== *)
theory Policy
  imports Ports ValidateNet Compact
begin

text \<open>
  The output of the policy compiler: the structs of \<open>internal/policy/compiler.go\<close>, the identity
  cache of \<open>internal/policy/identity.go\<close>, the precedence of a rule and the map entries of one
  expanded rule (\<open>compileMapEntries\<close>, \<open>l4PortPrefixes\<close>, \<open>icmpPrefixes\<close>, \<open>remoteIdentity\<close>).
  An \<open>IdentityResolver\<close> is an interface value: its method \<open>Identity\<close> is an argument of the functions
  that use it and its state is passed along.  The locale \<open>identity_resolver\<close> is its contract.
\<close>

section \<open>Data\<close>

record Rule =
  rule_ID :: string
  rule_VPC :: string
  rule_Tier :: int
  rule_Priority :: int
  rule_Direction :: Direction
  rule_Protocol :: Protocol
  rule_RemoteCIDR :: prefix
  rule_RemoteGroup :: string
  rule_RemoteService :: string
  rule_RemoteCIDRGroup :: string
  rule_RemoteEntity :: string
  rule_RemoteEndpoint :: string
  rule_RemoteFQDN :: string
  rule_Ports :: "PortRange list"
  rule_NamedPorts :: "string list"
  rule_ICMPType :: "u8 option"
  rule_ICMPCode :: "u8 option"
  rule_Action :: Action
  rule_Stateful :: bool
  rule_Log :: bool
  rule_SecurityGroup :: string

record MapKey =
  mk_RemoteIdentity :: u32
  mk_Direction :: Direction
  mk_Protocol :: Protocol
  mk_DestPort :: u16
  mk_L4PrefixBits :: u8

record MapValue =
  mv_Deny :: bool
  mv_Reject :: bool
  mv_Precedence :: u32
  mv_Stateful :: bool
  mv_Log :: bool
  mv_RequireIdentity :: bool

record MapEntry =
  me_Key :: MapKey
  me_Value :: MapValue
  me_RemoteCIDR :: prefix
  me_RuleID :: string
  me_RuleRef :: string

record Program =
  prog_EndpointID :: string
  prog_EndpointIP :: addr
  prog_MapEntries :: "MapEntry list"
  prog_Rules :: "Rule list"

record portPrefix =
  pp_port :: u16
  pp_l4PrefixBits :: u8


text \<open>The zero value \<open>Rule{}\<close>.\<close>

definition zero_Rule :: Rule where
  "zero_Rule =
     \<lparr>rule_ID = [], rule_VPC = [], rule_Tier = 0, rule_Priority = 0, rule_Direction = [], rule_Protocol = [],
      rule_RemoteCIDR = zero_prefix, rule_RemoteGroup = [], rule_RemoteService = [], rule_RemoteCIDRGroup = [],
      rule_RemoteEntity = [], rule_RemoteEndpoint = [], rule_RemoteFQDN = [], rule_Ports = [], rule_NamedPorts = [],
      rule_ICMPType = None, rule_ICMPCode = None, rule_Action = [], rule_Stateful = False, rule_Log = False,
      rule_SecurityGroup = []\<rparr>"


section \<open>Identities\<close>

definition stableIdentity :: "string \<Rightarrow> u32" where
  "stableIdentity value = push_bit 31 1 OR (fnv_New32a (string_bytes value) AND 0x7fffffff)"

definition EndpointIdentity :: "string \<Rightarrow> u32" where
  "EndpointIdentity endpointID = stableIdentity (''endpoint:'' @ endpointID)"

record IdentityCache =
  cache_entries :: "(string, u32) gomap"

definition NewIdentityCache :: IdentityCache where
  "NewIdentityCache = \<lparr>cache_entries = []\<rparr>"

definition IdentityCache_Identity :: "IdentityCache \<Rightarrow> string \<Rightarrow> u32 \<times> IdentityCache" where
  "IdentityCache_Identity c value =
     (case map_of (cache_entries c) value of
        Some i \<Rightarrow> (i, c)
      | None \<Rightarrow>
          let i = stableIdentity value
          in (i, c\<lparr>cache_entries := AList.update value i (cache_entries c)\<rparr>))"

text \<open>
  The contract of \<open>IdentityResolver\<close>: the identity of a name is a function of the name, whatever was
  asked before.  A client that threads the resolver through a list of lookups sees that function.
\<close>

locale identity_resolver =
  fixes Identity :: "'s \<Rightarrow> string \<Rightarrow> u32 \<times> 's" and valid :: "'s \<Rightarrow> bool" and identity_of :: "string \<Rightarrow> u32"
  assumes Identity_fst: "valid s \<Longrightarrow> fst (Identity s v) = identity_of v"
    and Identity_snd: "valid s \<Longrightarrow> valid (snd (Identity s v))"

definition cache_valid :: "IdentityCache \<Rightarrow> bool" where
  "cache_valid c \<longleftrightarrow> (\<forall>v i. map_of (cache_entries c) v = Some i \<longrightarrow> i = stableIdentity v)"

lemma cache_valid_New [simp]: "cache_valid NewIdentityCache"
  by (simp add: cache_valid_def NewIdentityCache_def)

interpretation cache: identity_resolver IdentityCache_Identity cache_valid stableIdentity
  by unfold_locales
    (auto simp: IdentityCache_Identity_def cache_valid_def Let_def update_conv' split: option.splits if_splits)

text \<open>A resolver without state, the meaning of every resolver that meets the contract.\<close>

definition pure_Identity :: "(string \<Rightarrow> u32) \<Rightarrow> unit \<Rightarrow> string \<Rightarrow> u32 \<times> unit" where
  "pure_Identity f s v = (f v, ())"


section \<open>Precedence\<close>

definition is_deny :: "Action \<Rightarrow> bool" where
  "is_deny action \<longleftrightarrow> action = ActionDrop \<or> action = ActionReject"

definition precedence :: "Rule \<Rightarrow> u32" where
  "precedence r =
     (let tier = (if rule_Tier r < 0 then 0 else rule_Tier r);
          tier = (if tier > 1 then 1 else tier);
          priority = (if rule_Priority r < 0 then 0 else rule_Priority r);
          priority = (if priority > SecurityGroupPriorityMax then SecurityGroupPriorityMax else priority);
          priorityScore = (if priority \<noteq> 0 then SecurityGroupPriorityMax - priority + 1 else 0);
          precedence = push_bit 31 (word_of_int (1 - tier) :: u32);
          precedence = precedence OR push_bit 1 (word_of_int priorityScore :: u32)
      in if is_deny (rule_Action r) then precedence OR 1 else precedence)"


section \<open>Map entries of a rule\<close>

definition normalizedProtocol :: "Protocol \<Rightarrow> Protocol" where
  "normalizedProtocol protocol = (if protocol = '''' then ProtocolAny else protocol)"

definition icmpPrefixes :: "Rule \<Rightarrow> portPrefix list" where
  "icmpPrefixes r =
     (case rule_ICMPType r of
        None \<Rightarrow> [\<lparr>pp_port = 0, pp_l4PrefixBits = 8\<rparr>]
      | Some t \<Rightarrow>
          let value = push_bit 8 (ucast t :: u16) in
          (case rule_ICMPCode r of
             None \<Rightarrow> [\<lparr>pp_port = value, pp_l4PrefixBits = 16\<rparr>]
           | Some c \<Rightarrow> [\<lparr>pp_port = value OR ucast c, pp_l4PrefixBits = 24\<rparr>]))"

definition block_prefix :: "portBlock \<Rightarrow> portPrefix" where
  "block_prefix block = \<lparr>pp_port = block_port block, pp_l4PrefixBits = 8 + block_prefixBits block\<rparr>"

definition l4PortPrefixes :: "Rule \<Rightarrow> portPrefix list result" where
  "l4PortPrefixes r =
     (let protocol = normalizedProtocol (rule_Protocol r) in
      if protocol = ProtocolICMP then Inr (icmpPrefixes r)
      else if rule_Ports r = [] then
        (if protocol = ProtocolAny then Inr [\<lparr>pp_port = 0, pp_l4PrefixBits = 0\<rparr>]
         else Inr [\<lparr>pp_port = 0, pp_l4PrefixBits = 8\<rparr>])
      else if protocol = ProtocolAny then Inl (Errorf ''ports require a concrete L4 protocol'' [])
      else fold_result (\<lambda>portRange out.
             case PortRange_Validate portRange of
               Inl e \<Rightarrow> Inl e
             | Inr _ \<Rightarrow> Inr (out @ map block_prefix (splitPortRange (port_From portRange) (port_To portRange))))
           (rule_Ports r) [])"

definition remoteIdentity ::
    "('s \<Rightarrow> string \<Rightarrow> u32 \<times> 's) \<Rightarrow> string \<Rightarrow> Rule \<Rightarrow> 's \<Rightarrow> u32 \<times> 's" where
  "remoteIdentity Identity localVPC0 r resolver =
     (let localVPC = (if localVPC0 = '''' then ''_global'' else localVPC0);
          scope = localVPC @ NUL;
          cidr = prefix_String (rule_RemoteCIDR r)
      in if rule_RemoteEndpoint r \<noteq> '''' then Identity resolver (''endpoint:'' @ rule_RemoteEndpoint r)
         else if rule_RemoteEntity r \<noteq> '''' then
           Identity resolver (''entity:'' @ scope @ rule_RemoteEntity r @ '':'' @ cidr)
         else if rule_RemoteService r \<noteq> '''' then
           Identity resolver (''service:'' @ scope @ rule_RemoteService r @ '':'' @ cidr)
         else if prefix_IsValid (rule_RemoteCIDR r) then Identity resolver (''cidr:'' @ scope @ cidr)
         else if rule_RemoteGroup r \<noteq> '''' then Identity resolver (''sg:'' @ scope @ rule_RemoteGroup r)
         else (0, resolver))"

definition ruleReference :: "Rule \<Rightarrow> string" where
  "ruleReference r =
     (if rule_VPC r = '''' \<and> rule_SecurityGroup r = '''' then rule_ID r
      else strings_Join [rule_VPC r, rule_SecurityGroup r, rule_ID r] ''/'')"

definition map_entry :: "Rule \<Rightarrow> portPrefix \<Rightarrow> u32 \<Rightarrow> MapEntry" where
  "map_entry r port identity =
     \<lparr>me_Key = \<lparr>mk_RemoteIdentity = identity,
                mk_Direction = rule_Direction r,
                mk_Protocol = normalizedProtocol (rule_Protocol r),
                mk_DestPort = pp_port port,
                mk_L4PrefixBits = pp_l4PrefixBits port\<rparr>,
      me_Value = \<lparr>mv_Deny = (rule_Action r = ActionDrop \<or> rule_Action r = ActionReject),
                  mv_Reject = (rule_Action r = ActionReject),
                  mv_Precedence = precedence r,
                  mv_Stateful = rule_Stateful r,
                  mv_Log = (rule_Log r \<or> rule_Action r = ActionLog),
                  mv_RequireIdentity = (rule_RemoteEndpoint r \<noteq> '''')\<rparr>,
      me_RemoteCIDR = rule_RemoteCIDR r,
      me_RuleID = rule_ID r,
      me_RuleRef = ruleReference r\<rparr>"

text \<open>A nil resolver is replaced by a new cache in \<open>remoteIdentity\<close>; the caller passes that cache here.\<close>

definition compileMapEntries ::
    "('s \<Rightarrow> string \<Rightarrow> u32 \<times> 's) \<Rightarrow> Rule \<Rightarrow> string \<Rightarrow> 's \<Rightarrow> (MapEntry list \<times> 's) result" where
  "compileMapEntries Identity r localVPC resolver =
     (case l4PortPrefixes r of
        Inl e \<Rightarrow> Inl (Wrapf ''rule %s: %w'' [rule_ID r] e)
      | Inr portPrefixes \<Rightarrow>
          Inr (fold (\<lambda>port (entries, resolver).
                 let (identity, resolver) = remoteIdentity Identity localVPC r resolver
                 in (entries @ [map_entry r port identity], resolver)) portPrefixes ([], resolver)))"

section \<open>The order of rules\<close>

text \<open>The number a rule is ranked by: the tier, the priority and the deny flag share no bits.\<close>

lemma unat_or_disjoint:
  fixes a b :: "'a::len word"
  assumes "a AND b = 0"
  shows "unat (a OR b) = unat a + unat b"
proof -
  have "unat a AND unat b = 0"
    using assms by (metis unsigned_0 unsigned_and_eq)
  then have "unat a + unat b = unat a OR unat b"
    by (metis disjunctive_add_eq_or)
  then show ?thesis
    by (simp add: unsigned_or_eq)
qed

lemma and_eq_0_low_high:
  fixes a b :: "'a::len word"
  assumes "unat b < 2 ^ k"
  shows "push_bit k a AND b = 0"
proof -
  have "unat (take_bit k b) = unat b"
    using assms by (simp add: unsigned_take_bit_eq take_bit_nat_eq_self)
  then have b: "take_bit k b = b"
    by (simp only: word_unat_eq_iff)
  have "n < k" if "bit b n" for n
    using that by (subst (asm) b [symmetric]) (simp add: bit_take_bit_iff)
  then show ?thesis
    by (auto simp: word_eq_iff_bits bit_and_iff bit_push_bit_iff not_le)
qed

definition priority_score :: "Rule \<Rightarrow> nat" where
  "priority_score r =
     (let priority = max 0 (min SecurityGroupPriorityMax (rule_Priority r))
      in if priority = 0 then 0 else nat (SecurityGroupPriorityMax - priority + 1))"

lemma priority_score_le: "priority_score r \<le> 16384"
  by (auto simp: priority_score_def Let_def)

lemma unat_of_nat_u32: "n < 2 ^ 32 \<Longrightarrow> unat (of_nat n :: u32) = n"
  by (simp add: unat_of_nat)

lemma unat_precedence:
  "unat (precedence r) =
     (if rule_Tier r \<le> 0 then 2 ^ 31 else 0) + 2 * priority_score r + (if is_deny (rule_Action r) then 1 else 0)"
proof -
  define hi :: u32 where "hi = (if rule_Tier r \<le> 0 then 1 else 0)"
  define score :: u32 where "score = of_nat (priority_score r)"
  define deny :: u32 where "deny = (if is_deny (rule_Action r) then 1 else 0)"
  have score: "unat score = priority_score r"
    using priority_score_le [of r] by (simp add: score_def unat_of_nat)
  have shifted: "unat (push_bit 1 score) = 2 * priority_score r"
    using priority_score_le [of r] score by (simp add: push_bit_eq_mult unat_word_ariths)
  have "push_bit 1 score AND deny = 0"
    by (rule and_eq_0_low_high) (simp add: deny_def)
  then have low: "unat (push_bit 1 score OR deny) = 2 * priority_score r + (if is_deny (rule_Action r) then 1 else 0)"
    by (subst unat_or_disjoint) (simp_all only: shifted, simp add: deny_def)
  have "precedence r = push_bit 31 hi OR (push_bit 1 score OR deny)"
  proof -
    consider "rule_Tier r \<le> 0" | "rule_Tier r = 1" | "1 < rule_Tier r" by linarith
    then show ?thesis
      by cases (auto simp: precedence_def Let_def hi_def score_def deny_def priority_score_def or.assoc)
  qed
  moreover have "push_bit 31 hi AND (push_bit 1 score OR deny) = 0"
    by (rule and_eq_0_low_high) (use low priority_score_le [of r] in auto)
  moreover have "unat (push_bit 31 hi) = (if rule_Tier r \<le> 0 then 2 ^ 31 else 0)"
    by (simp add: hi_def)
  ultimately show ?thesis
    by (simp only: unat_or_disjoint low)
qed

text \<open>
  Rules are ranked as the documentation of security groups says: tier 0 before tier 1, within a
  tier the smaller priority number first, and at the same tier and priority a rule that drops or
  rejects before one that does not. Two rules have the same rank exactly if they agree in all three.
\<close>

theorem precedence_order:
  assumes "rule_Tier r \<in> {0, 1}" and "rule_Tier s \<in> {0, 1}"
    and "SecurityGroupPriorityMin \<le> rule_Priority r" and "rule_Priority r \<le> SecurityGroupPriorityMax"
    and "SecurityGroupPriorityMin \<le> rule_Priority s" and "rule_Priority s \<le> SecurityGroupPriorityMax"
  shows "(precedence s < precedence r \<longleftrightarrow>
      rule_Tier r < rule_Tier s \<or>
      rule_Tier r = rule_Tier s \<and>
        (rule_Priority r < rule_Priority s \<or>
         rule_Priority r = rule_Priority s \<and> is_deny (rule_Action r) \<and> \<not> is_deny (rule_Action s))) \<and>
    (precedence s = precedence r \<longleftrightarrow>
      rule_Tier r = rule_Tier s \<and> rule_Priority r = rule_Priority s \<and>
      is_deny (rule_Action r) = is_deny (rule_Action s))"
proof -
  have score: "int (priority_score x) = 16385 - rule_Priority x"
    if "1 \<le> rule_Priority x" and "rule_Priority x \<le> 16384" for x
    using that by (simp add: priority_score_def Let_def)
  note r = score [OF assms(3,4)] and s = score [OF assms(5,6)]
  show ?thesis
    unfolding word_less_nat_alt word_unat_eq_iff unat_precedence
    using assms(1,2) r s priority_score_le [of r] priority_score_le [of s]
    by (auto; presburger)
qed

theorem precedence_order_witness:
  "\<exists>r s. precedence s < precedence r \<and> rule_Tier r = 0 \<and> rule_Tier s = 1 \<and> rule_Priority r = 300 \<and> rule_Priority s = 5"
proof -
  let ?r = "zero_Rule\<lparr>rule_Tier := 0, rule_Priority := 300\<rparr>"
  let ?s = "zero_Rule\<lparr>rule_Tier := 1, rule_Priority := 5\<rparr>"
  have "precedence ?s < precedence ?r"
    using precedence_order [of ?r ?s] by simp
  then show ?thesis by (intro exI [of _ ?r] exI [of _ ?s]) simp
qed

section \<open>Entries do not depend on the state of the resolver\<close>

definition rule_identity :: "(string \<Rightarrow> u32) \<Rightarrow> string \<Rightarrow> Rule \<Rightarrow> u32" where
  "rule_identity f localVPC r = fst (remoteIdentity (pure_Identity f) localVPC r ())"

definition rule_entries :: "(string \<Rightarrow> u32) \<Rightarrow> string \<Rightarrow> Rule \<Rightarrow> portPrefix list \<Rightarrow> MapEntry list" where
  "rule_entries f localVPC r ports = map (\<lambda>port. map_entry r port (rule_identity f localVPC r)) ports"

context identity_resolver
begin

lemma remoteIdentity_fst: "valid s \<Longrightarrow> fst (remoteIdentity Identity localVPC r s) = rule_identity identity_of localVPC r"
  by (simp add: rule_identity_def remoteIdentity_def pure_Identity_def Let_def Identity_fst)

lemma remoteIdentity_snd: "valid s \<Longrightarrow> valid (snd (remoteIdentity Identity localVPC r s))"
  by (simp add: remoteIdentity_def Let_def Identity_snd)

lemma compile_fold:
  assumes "valid s"
  shows "\<exists>s'. valid s' \<and>
    fold (\<lambda>port (entries, resolver).
        let (identity, resolver) = remoteIdentity Identity localVPC r resolver
        in (entries @ [map_entry r port identity], resolver)) ports (entries, s) =
      (entries @ rule_entries identity_of localVPC r ports, s')"
  using assms
proof (induction ports arbitrary: entries s)
  case Nil
  then show ?case by (auto simp: rule_entries_def)
next
  case (Cons port ports)
  obtain i t where t: "remoteIdentity Identity localVPC r s = (i, t)" by fastforce
  with Cons.prems have i: "i = rule_identity identity_of localVPC r" and "valid t"
    using remoteIdentity_fst [of s localVPC r] remoteIdentity_snd [of s localVPC r] by auto
  from Cons.IH [OF \<open>valid t\<close>, of "entries @ [map_entry r port i]"] show ?case
    by (auto simp: t i rule_entries_def)
qed

lemma compileMapEntries_eq:
  assumes "valid s"
  shows "(case l4PortPrefixes r of
      Inl e \<Rightarrow> compileMapEntries Identity r localVPC s = Inl (Wrapf ''rule %s: %w'' [rule_ID r] e)
    | Inr ports \<Rightarrow> \<exists>s'. valid s' \<and>
        compileMapEntries Identity r localVPC s = Inr (rule_entries identity_of localVPC r ports, s'))"
  using compile_fold [OF assms, of localVPC r _ "[]"]
  by (auto simp: compileMapEntries_def split: sum.splits)

end

end
