(* ===== verification/Expand.thy ===== *)
theory Expand
  imports Policy
begin

text \<open>
  How \<open>internal/policy/compiler.go\<close> expands one security group rule into rules with at most one
  remote prefix each: \<open>expandRule\<close> and the functions it dispatches to.  A Go map that is only looked
  up is a function to option (to a list where a missing key gives the empty slice); the map of DNS
  records is iterated over, and is an association list.  A slice that the code compares with nil is
  an option.
\<close>

record gatewayCIDR =
  gwc_node :: string
  gwc_cidr :: prefix

section \<open>Named ports, services\<close>

definition port_range_lt :: "PortRange \<Rightarrow> PortRange \<Rightarrow> bool" where
  "port_range_lt a b =
     (if port_From a \<noteq> port_From b then port_From a < port_From b else port_To a < port_To b)"

definition resolveNamedPorts ::
    "PortRange list \<Rightarrow> string list \<Rightarrow> Protocol \<Rightarrow> Endpoint \<Rightarrow> PortRange list result" where
  "resolveNamedPorts staticPorts names protocol endpoint =
     (if names = [] then Inr staticPorts
      else if protocol \<noteq> ProtocolTCP \<and> protocol \<noteq> ProtocolUDP \<and> protocol \<noteq> ProtocolSCTP then
        Inl (Errorf ''named ports require tcp, udp, or sctp protocol'' [])
      else
        (let byName = fold (\<lambda>port m. if named_Protocol port = protocol then m(named_Name port \<mapsto> named_Port port) else m)
               (ep_NamedPorts endpoint) Map.empty
         in case fold_result (\<lambda>name out.
                case byName name of
                  None \<Rightarrow> Inl (Errorf ''named port %s/%s is not defined on endpoint %s'' [protocol, name, ep_ID endpoint])
                | Some port \<Rightarrow> Inr (out @ [\<lparr>port_From = port, port_To = port\<rparr>])) names staticPorts of
              Inl e \<Rightarrow> Inl e
            | Inr out \<Rightarrow> Inr (sort_SliceStable port_range_lt out)))"

definition portRangesContain :: "PortRange list \<Rightarrow> u16 \<Rightarrow> bool" where
  "portRangesContain ranges port = list_ex (\<lambda>portRange. port_From portRange \<le> port \<and> port \<le> port_To portRange) ranges"

definition portRangesKey :: "PortRange list \<Rightarrow> string" where
  "portRangesKey ports =
     strings_Join (map (\<lambda>port. u16_String (port_From port) @ ''-'' @ u16_String (port_To port)) ports) '',''"

definition service_expand :: "Rule \<Rightarrow> LoadBalancerFrontend \<Rightarrow> Rule option" where
  "service_expand base frontend =
     (if rule_Protocol base \<noteq> '''' \<and> rule_Protocol base \<noteq> ProtocolAny \<and> rule_Protocol base \<noteq> front_Protocol frontend
      then None
      else if rule_Ports base \<noteq> [] \<and> \<not> portRangesContain (rule_Ports base) (front_Port frontend) then None
      else
        (let bits = (if addr_Is4 (front_VIP frontend) then 32 else 128);
             expanded = base\<lparr>rule_RemoteCIDR := netip_PrefixFrom (front_VIP frontend) bits\<rparr>;
             expanded = (if rule_Protocol expanded = '''' \<or> rule_Protocol expanded = ProtocolAny
                         then expanded\<lparr>rule_Protocol := front_Protocol frontend\<rparr> else expanded)
         in Some (expanded\<lparr>rule_Ports := [\<lparr>port_From = front_Port frontend, port_To = front_Port frontend\<rparr>]\<rparr>)))"

definition service_key :: "Rule \<Rightarrow> string" where
  "service_key expanded =
     prefix_String (rule_RemoteCIDR expanded) @ ''|'' @ rule_Protocol expanded @ ''|'' @ portRangesKey (rule_Ports expanded)"

definition expandServiceRule :: "Rule \<Rightarrow> (string \<rightharpoonup> LoadBalancer) \<Rightarrow> Rule list result" where
  "expandServiceRule base services =
     (case services (rule_RemoteService base) of
        None \<Rightarrow> Inl (Errorf ''rule %s references unknown remote service %s'' [rule_ID base, rule_RemoteService base])
      | Some service \<Rightarrow>
          let out = dedupe_by service_key [] (List.map_filter (service_expand base) (Frontends service))
          in if out = [] then
               Inl (Errorf ''rule %s remote service %s has no matching frontend'' [rule_ID base, rule_RemoteService base])
             else Inr out)"


section \<open>Prefixes, entities\<close>

definition expandCIDRGroupRule :: "Rule \<Rightarrow> (string \<rightharpoonup> prefix list) \<Rightarrow> Rule list result" where
  "expandCIDRGroupRule base groups =
     (case groups (rule_RemoteCIDRGroup base) of
        None \<Rightarrow> Inl (Errorf ''rule %s references unknown remote cidr group %s'' [rule_ID base, rule_RemoteCIDRGroup base])
      | Some cidrs \<Rightarrow> Inr (map (\<lambda>cidr. base\<lparr>rule_RemoteCIDR := cidr\<rparr>) cidrs))"

definition expandCIDRExceptRule :: "Rule \<Rightarrow> prefix list \<Rightarrow> Rule list" where
  "expandCIDRExceptRule base exceptCIDRs =
     map (\<lambda>cidr. base\<lparr>rule_RemoteCIDR := cidr\<rparr>)
       (string_sorted_cidrs (subtract_excepts [prefix_Masked (rule_RemoteCIDR base)] exceptCIDRs))"

definition gatewayCIDRs :: "gatewayCIDR list \<Rightarrow> (gatewayCIDR \<Rightarrow> bool) \<Rightarrow> prefix list" where
  "gatewayCIDRs gateways keep = string_sorted_cidrs (map gwc_cidr (filter keep gateways))"

definition entityCIDRs ::
    "string \<Rightarrow> Endpoint \<Rightarrow> (string \<Rightarrow> prefix list) \<Rightarrow> (string \<Rightarrow> gatewayCIDR list) \<Rightarrow> prefix list result" where
  "entityCIDRs entity endpoint subnetsByVPC gatewayCIDRsByVPC =
     (let vpc = ep_VPC endpoint in
      if entity = ''all'' then Inr allCIDRs
      else if entity = ''world'' then worldCIDRs vpc subnetsByVPC allCIDRs
      else if entity = ''world-ipv4'' then worldCIDRs vpc subnetsByVPC [Prefix (V4 0) 1]
      else if entity = ''world-ipv6'' then worldCIDRs vpc subnetsByVPC [Prefix (V6 0 '''') 1]
      else if entity = ''host'' then
        (let cidrs = gatewayCIDRs (gatewayCIDRsByVPC vpc) (\<lambda>gateway. True) in
         if cidrs = [] then Inl (Errorf ''remote entity host requires at least one gateway in vpc %s'' [vpc])
         else Inr cidrs)
      else if entity = ''remote-node'' then
        (let cidrs = gatewayCIDRs (gatewayCIDRsByVPC vpc) (\<lambda>gateway. gwc_node gateway \<noteq> ep_Node endpoint) in
         if cidrs = [] then
           Inl (Errorf ''remote entity remote-node requires at least one gateway on a different node in vpc %s'' [vpc])
         else Inr cidrs)
      else if entity = ''private'' then
        Inr [Prefix (V4 0x0A000000) 9, Prefix (V4 0xAC100000) 13, Prefix (V4 0xC0A80000) 17,
             Prefix (V6 0xFC000000000000000000000000000000 '''') 8]
      else if entity = ''cluster'' then
        (let cidrs = subnetsByVPC vpc in
         if cidrs = [] then Inl (Errorf ''remote entity cluster requires at least one subnet in vpc %s'' [vpc])
         else Inr (string_sorted_cidrs cidrs))
      else if entity = ''none'' then Inr []
      else Inl (Errorf ''unsupported remote entity %q'' [entity]))"

definition entity_rule_lt :: "Rule \<Rightarrow> Rule \<Rightarrow> bool" where
  "entity_rule_lt a b =
     (if rule_RemoteEntity a \<noteq> rule_RemoteEntity b then rule_RemoteEntity a < rule_RemoteEntity b
      else prefix_String (rule_RemoteCIDR a) < prefix_String (rule_RemoteCIDR b))"

definition expandEntityRule ::
    "Rule \<Rightarrow> Endpoint \<Rightarrow> string list \<Rightarrow> (string \<Rightarrow> prefix list) \<Rightarrow> (string \<Rightarrow> gatewayCIDR list) \<Rightarrow> Rule list result" where
  "expandEntityRule base endpoint entities subnetsByVPC gatewayCIDRsByVPC =
     (case fold_result (\<lambda>entity out.
          case entityCIDRs entity endpoint subnetsByVPC gatewayCIDRsByVPC of
            Inl e \<Rightarrow> Inl (Wrapf ''rule %s: %w'' [rule_ID base] e)
          | Inr cidrs \<Rightarrow> Inr (out @ map (\<lambda>cidr. base\<lparr>rule_RemoteEntity := entity, rule_RemoteCIDR := cidr\<rparr>) cidrs))
        entities [] of
        Inl e \<Rightarrow> Inl e
      | Inr out \<Rightarrow>
          Inr (sort_SliceStable entity_rule_lt
                 (dedupe_by (\<lambda>r. rule_RemoteEntity r @ ''|'' @ prefix_String (rule_RemoteCIDR r)) [] out)))"


section \<open>Endpoints\<close>

definition hasRemoteEndpointSelector :: "SecurityGroupRule \<Rightarrow> bool" where
  "hasRemoteEndpointSelector r \<longleftrightarrow> sgr_RemoteEndpointSelector r \<noteq> [] \<or> sgr_RemoteEndpointExprs r \<noteq> []"

definition endpoint_prefix :: "addr \<Rightarrow> prefix" where
  "endpoint_prefix ip = netip_PrefixFrom ip (if addr_Is4 ip then 32 else 128)"

definition expandEndpointMembers ::
    "Endpoint \<Rightarrow> Rule \<Rightarrow> SecurityGroupRule \<Rightarrow> Endpoint list \<Rightarrow> Rule list result" where
  "expandEndpointMembers endpoint base r members =
     fold_result (\<lambda>member out.
       if EndpointKey (ep_VPC member) (ep_ID member) = EndpointKey (ep_VPC endpoint) (ep_ID endpoint) then Inr out
       else
         (let expanded = base\<lparr>rule_RemoteEndpoint := EndpointKey (ep_VPC member) (ep_ID member)\<rparr>;
              with_ports =
                (if sgr_NamedPorts r \<noteq> [] \<and> sgr_Direction r = DirectionEgress then
                   (case resolveNamedPorts (sgr_Ports r) (sgr_NamedPorts r) (sgr_Protocol r) member of
                      Inl e \<Rightarrow> Inl (Wrapf ''rule %s remote endpoint %s: %w'' [sgr_ID r, ep_ID member] e)
                    | Inr ports \<Rightarrow> Inr (expanded\<lparr>rule_Ports := ports\<rparr>))
                 else Inr expanded)
          in case with_ports of
               Inl e \<Rightarrow> Inl e
             | Inr expanded \<Rightarrow>
                 Inr (out @ [if addr_Is4 (ep_IP member) \<or> addr_Is6 (ep_IP member)
                             then expanded\<lparr>rule_RemoteCIDR := endpoint_prefix (ep_IP member)\<rparr> else expanded])))
       members []"

definition expandEndpointSelectorRule ::
    "Endpoint \<Rightarrow> Rule \<Rightarrow> SecurityGroupRule \<Rightarrow> Endpoint list option \<Rightarrow> Rule list result" where
  "expandEndpointSelectorRule endpoint base r endpoints =
     (case endpoints of
        None \<Rightarrow> Inl (Errorf ''rule %s remote_endpoint_selector has no endpoint context'' [sgr_ID r])
      | Some endpoints \<Rightarrow>
          expandEndpointMembers endpoint base r
            (filter (\<lambda>candidate. Labels_MatchesSelector (ep_Labels candidate)
               (sgr_RemoteEndpointSelector r) (sgr_RemoteEndpointExprs r)) endpoints))"

section \<open>DNS names\<close>

definition normalizeDNSName :: "string \<Rightarrow> string" where
  "normalizeDNSName name = strings_TrimSuffix (strings_ToLower (strings_TrimSpace name)) ''.''"

text \<open>\<open>wildcardPattern.ReplaceAllString\<close>: every maximal run of asterisks is replaced.\<close>

function replace_asterisks :: "string \<Rightarrow> string \<Rightarrow> string" where
  "replace_asterisks [] r = []"
| "replace_asterisks (c # cs) r =
     (if c = CHR ''*'' then r @ replace_asterisks (dropWhile (\<lambda>x. x = CHR ''*'') cs) r
      else c # replace_asterisks cs r)"
  by pat_completeness auto

termination replace_asterisks
  by (relation "measure (\<lambda>(s, r). length s)") (auto simp: length_dropWhile_le less_Suc_eq_le)

function fqdnPatternRegexp :: "string \<Rightarrow> string" where
  "fqdnPatternRegexp pattern =
     (if strings_HasPrefix pattern ''**.'' then
        ''([-a-z0-9_]+'' @ [CHR 0x5C] @ ''.)+'' @ fqdnPatternRegexp (strings_TrimPrefix pattern ''**.'')
      else replace_asterisks (strings_ReplaceAll pattern (CHR ''.'') [CHR 0x5C, CHR ''.'']) ''[-a-z0-9_]*'')"
  by pat_completeness auto

lemma HasPrefix_length: "strings_HasPrefix s p \<Longrightarrow> length p \<le> length s"
  unfolding strings_HasPrefix_def by (drule arg_cong [where f = length]) simp

termination fqdnPatternRegexp
proof (relation "measure length")
  fix pattern assume *: "strings_HasPrefix pattern ''**.''"
  then show "(strings_TrimPrefix pattern ''**.'', pattern) \<in> measure length"
    using HasPrefix_length [OF *] by (simp add: strings_TrimPrefix_def)
qed simp

declare fqdnPatternRegexp.simps [simp del]

text \<open>
  The regular expressions these patterns give: a sequence of literal bytes, of \<open>[-a-z0-9_]*\<close> and of
  \<open>([-a-z0-9_]+\.)+\<close>.  \<open>regexp_Compile\<close> reads this fragment of the syntax of \<open>regexp\<close> and rejects
  everything else; patterns that pass the validation of the model stay inside it.
\<close>

datatype re_item = ReByte char | ReStar | ReLabels

abbreviation (input) re_star :: string where "re_star \<equiv> ''[-a-z0-9_]*''"
abbreviation (input) re_labels :: string where "re_labels \<equiv> ''([-a-z0-9_]+'' @ [CHR 0x5C] @ ''.)+''"

definition re_meta :: "char \<Rightarrow> bool" where
  "re_meta c = List.member ([CHR 0x5C] @ ''.+*?()|[]{}^$'') c"

function re_parse :: "string \<Rightarrow> re_item list option" where
  "re_parse s =
     (if s = [] then Some []
      else if strings_HasPrefix s re_star then map_option (Cons ReStar) (re_parse (drop (length re_star) s))
      else if strings_HasPrefix s re_labels then map_option (Cons ReLabels) (re_parse (drop (length re_labels) s))
      else if strings_HasPrefix s [CHR 0x5C, CHR ''.''] then map_option (Cons (ReByte (CHR ''.''))) (re_parse (drop 2 s))
      else if re_meta (hd s) then None
      else map_option (Cons (ReByte (hd s))) (re_parse (tl s)))"
  by pat_completeness auto

termination re_parse
  by (relation "measure length") auto

declare re_parse.simps [simp del]

definition regexp_Compile :: "string \<Rightarrow> re_item list result" where
  "regexp_Compile s =
     (if strings_HasPrefix s ''^'' \<and> strings_HasSuffix s ''$'' then
        (case re_parse (butlast (tl s)) of
           None \<Rightarrow> Inl (Errorf ''error parsing regexp: %s'' [s])
         | Some items \<Rightarrow> Inr items)
      else Inl (Errorf ''error parsing regexp: %s'' [s]))"

definition label_char :: "char \<Rightarrow> bool" where
  "label_char c \<longleftrightarrow>
     (let n = (of_char c :: nat) in 97 \<le> n \<and> n \<le> 122 \<or> 48 \<le> n \<and> n \<le> 57 \<or> c = CHR ''-'' \<or> c = CHR ''_'')"

text \<open>One or more labels, each of one or more characters and each followed by a dot.\<close>

definition dotted_labels :: "string \<Rightarrow> bool" where
  "dotted_labels s \<longleftrightarrow>
     (let ls = strings_Split s (CHR ''.'')
      in 1 < length ls \<and> last ls = [] \<and> list_all (\<lambda>l. l \<noteq> [] \<and> list_all label_char l) (butlast ls))"

primrec re_match :: "re_item list \<Rightarrow> string \<Rightarrow> bool" where
  "re_match [] s \<longleftrightarrow> s = []"
| "re_match (i # is) s \<longleftrightarrow>
     (case i of
        ReByte c \<Rightarrow> s \<noteq> [] \<and> hd s = c \<and> re_match is (tl s)
      | ReStar \<Rightarrow> list_ex (\<lambda>k. list_all label_char (take k s) \<and> re_match is (drop k s)) [0..<Suc (length s)]
      | ReLabels \<Rightarrow> list_ex (\<lambda>k. dotted_labels (take k s) \<and> re_match is (drop k s)) [0..<Suc (length s)])"

definition fqdnPatternMatches :: "string \<Rightarrow> string \<Rightarrow> bool result" where
  "fqdnPatternMatches pattern0 name0 =
     (let pattern = normalizeDNSName (strings_TrimSpace pattern0);
          name = normalizeDNSName name0;
          regexPattern = fqdnPatternRegexp pattern
      in case regexp_Compile (''^'' @ regexPattern @ ''$'') of
           Inl e \<Rightarrow> Inl e
         | Inr matcher \<Rightarrow> Inr (re_match matcher name))"

fun fqdnSelectorsMatch :: "FQDNSelector list \<Rightarrow> string \<Rightarrow> bool result" where
  "fqdnSelectorsMatch [] name = Inr False"
| "fqdnSelectorsMatch (selector # selectors) name =
     (if fqdn_MatchName selector \<noteq> '''' \<and> normalizeDNSName (fqdn_MatchName selector) = name then Inr True
      else if fqdn_MatchPattern selector \<noteq> '''' then
        (case fqdnPatternMatches (fqdn_MatchPattern selector) name of
           Inl e \<Rightarrow> Inl (Wrapf ''invalid fqdn pattern %q: %w'' [fqdn_MatchPattern selector] e)
         | Inr matched \<Rightarrow> if matched then Inr True else fqdnSelectorsMatch selectors name)
      else fqdnSelectorsMatch selectors name)"

definition fqdnIPPrefix :: "addr \<Rightarrow> prefix" where
  "fqdnIPPrefix ip = (if addr_Is4 ip then netip_PrefixFrom ip 32 else netip_PrefixFrom ip 128)"

definition fqdn_match_lt :: "string \<times> prefix \<Rightarrow> string \<times> prefix \<Rightarrow> bool" where
  "fqdn_match_lt a b =
     (if fst a \<noteq> fst b then fst a < fst b else prefix_String (snd a) < prefix_String (snd b))"

definition expandFQDNRule :: "Rule \<Rightarrow> FQDNSelector list \<Rightarrow> (string, addr list) gomap \<Rightarrow> Rule list result" where
  "expandFQDNRule base selectors records =
     (if records = [] then Inr []
      else case fold_result (\<lambda>(recordName, ips) matches.
          case fqdnSelectorsMatch selectors recordName of
            Inl e \<Rightarrow> Inl (Wrapf ''rule %s: %w'' [rule_ID base] e)
          | Inr ok \<Rightarrow> Inr (if ok then matches @ map (\<lambda>ip. (recordName, fqdnIPPrefix ip)) ips else matches))
        records [] of
        Inl e \<Rightarrow> Inl e
      | Inr matches \<Rightarrow>
          Inr (map (\<lambda>(name, cidr). base\<lparr>rule_RemoteFQDN := name, rule_RemoteCIDR := cidr\<rparr>)
                 (sort_SliceStable fqdn_match_lt
                    (dedupe_by (\<lambda>(name, cidr). name @ ''|'' @ prefix_String cidr) [] matches))))"


section \<open>One rule\<close>

definition base_rule :: "SecurityGroup \<Rightarrow> SecurityGroupRule \<Rightarrow> Rule" where
  "base_rule securityGroup r =
     \<lparr>rule_ID = sgr_ID r, rule_VPC = sg_VPC securityGroup, rule_Tier = sg_Tier securityGroup,
      rule_Priority = sgr_Priority r, rule_Direction = sgr_Direction r, rule_Protocol = sgr_Protocol r,
      rule_RemoteCIDR = sgr_RemoteCIDR r, rule_RemoteGroup = sgr_RemoteGroup r,
      rule_RemoteService = sgr_RemoteService r, rule_RemoteCIDRGroup = sgr_RemoteCIDRGroup r,
      rule_RemoteEntity = [], rule_RemoteEndpoint = [], rule_RemoteFQDN = [],
      rule_Ports = sgr_Ports r, rule_NamedPorts = sgr_NamedPorts r,
      rule_ICMPType = sgr_ICMPType r, rule_ICMPCode = sgr_ICMPCode r, rule_Action = sgr_Action r,
      rule_Stateful = sgr_Stateful r, rule_Log = sgr_Log r, rule_SecurityGroup = sg_Name securityGroup\<rparr>"

text \<open>What \<open>expandRule\<close> looks up besides the rule: the indexes built from the compile context.\<close>

record RuleIndex =
  idx_membersByGroup :: "(string \<rightharpoonup> Endpoint list) option"
  idx_endpointsBySelector :: "Endpoint list option"
  idx_dnsRecords :: "(string, addr list) gomap"
  idx_cidrGroups :: "string \<rightharpoonup> prefix list"
  idx_services :: "string \<rightharpoonup> LoadBalancer"
  idx_subnetsByVPC :: "string \<Rightarrow> prefix list"
  idx_gatewayCIDRsByVPC :: "string \<Rightarrow> gatewayCIDR list"

definition expand_remote :: "Endpoint \<Rightarrow> Rule \<Rightarrow> SecurityGroupRule \<Rightarrow> RuleIndex \<Rightarrow> Rule list result" where
  "expand_remote endpoint base r idx =
     (if sgr_RemoteFQDNs r \<noteq> [] then expandFQDNRule base (sgr_RemoteFQDNs r) (idx_dnsRecords idx)
      else if sgr_RemoteEntities r \<noteq> [] then
        expandEntityRule base endpoint (sgr_RemoteEntities r) (idx_subnetsByVPC idx) (idx_gatewayCIDRsByVPC idx)
      else if sgr_RemoteService r \<noteq> '''' then expandServiceRule base (idx_services idx)
      else if sgr_RemoteCIDRGroup r \<noteq> '''' then expandCIDRGroupRule base (idx_cidrGroups idx)
      else if prefix_IsValid (sgr_RemoteCIDR r) \<and> sgr_ExceptCIDRs r \<noteq> [] then
        Inr (expandCIDRExceptRule base (sgr_ExceptCIDRs r))
      else if hasRemoteEndpointSelector r then expandEndpointSelectorRule endpoint base r (idx_endpointsBySelector idx)
      else if sgr_RemoteGroup r = '''' then Inr [base]
      else case idx_membersByGroup idx of
             None \<Rightarrow> Inl (Errorf ''rule %s remote_group has no endpoint context'' [sgr_ID r])
           | Some membersByGroup \<Rightarrow>
               (case membersByGroup (sgr_RemoteGroup r) of
                  None \<Rightarrow> Inl (Errorf ''rule %s references unknown remote security group %s'' [sgr_ID r, sgr_RemoteGroup r])
                | Some members \<Rightarrow> expandEndpointMembers endpoint base r members))"

definition expandRule :: "Endpoint \<Rightarrow> SecurityGroup \<Rightarrow> SecurityGroupRule \<Rightarrow> RuleIndex \<Rightarrow> Rule list result" where
  "expandRule endpoint securityGroup r idx =
     (let base = base_rule securityGroup r in
      if sgr_NamedPorts r \<noteq> [] \<and> sgr_Direction r = DirectionIngress then
        (case resolveNamedPorts (sgr_Ports r) (sgr_NamedPorts r) (sgr_Protocol r) endpoint of
           Inl e \<Rightarrow> Inl (Wrapf ''rule %s: %w'' [sgr_ID r] e)
         | Inr ports \<Rightarrow> expand_remote endpoint (base\<lparr>rule_Ports := ports\<rparr>) r idx)
      else if sgr_NamedPorts r \<noteq> [] \<and> sgr_Direction r = DirectionEgress \<and> sgr_RemoteGroup r = '''' \<and>
              \<not> hasRemoteEndpointSelector r then
        Inl (Errorf ''rule %s: named ports require remote_group or remote_endpoint_selector for egress rules'' [sgr_ID r])
      else expand_remote endpoint base r idx)"

end
