(* ===== verification/Compiler.thy ===== *)
theory Compiler
  imports Expand
begin

text \<open>
  The policy compiler, \<open>CompileForEndpointWithContext\<close> of \<open>internal/policy/compiler.go\<close>: the indexes
  of the compile context, the compaction of rules that differ in their prefix only, the default
  allow rules and the final order of rules and map entries.
\<close>

section \<open>Indexes of the compile context\<close>

definition endpoint_id_lt :: "Endpoint \<Rightarrow> Endpoint \<Rightarrow> bool" where
  "endpoint_id_lt a b \<longleftrightarrow> ep_ID a < ep_ID b"

definition indexRemoteGroupMembers ::
    "string \<Rightarrow> (string \<rightharpoonup> SecurityGroup) \<Rightarrow> Endpoint list option \<Rightarrow> (string \<rightharpoonup> Endpoint list) option result" where
  "indexRemoteGroupMembers vpc groups endpoints =
     (case endpoints of
        None \<Rightarrow> Inr None
      | Some endpoints \<Rightarrow>
          let out = (\<lambda>name. case groups name of
                       None \<Rightarrow> None
                     | Some sg \<Rightarrow> if sg_VPC sg \<noteq> vpc then None else Some [])
          in case fold_result (\<lambda>endpoint out.
                 if ep_VPC endpoint \<noteq> vpc then Inr out
                 else case Endpoint_Validate endpoint of
                        Inl e \<Rightarrow> Inl e
                      | Inr _ \<Rightarrow>
                          Inr (fold (\<lambda>groupName out.
                                 case out groupName of
                                   None \<Rightarrow> out
                                 | Some members \<Rightarrow> out(groupName \<mapsto> members @ [endpoint]))
                               (ep_SecurityGroups endpoint) out)) endpoints out of
               Inl e \<Rightarrow> Inl e
             | Inr out \<Rightarrow> Inr (Some (\<lambda>name. map_option (sort_SliceStable endpoint_id_lt) (out name))))"

definition indexEndpointSelectorMembers ::
    "string \<Rightarrow> Endpoint list option \<Rightarrow> Endpoint list option result" where
  "indexEndpointSelectorMembers vpc endpoints =
     (case endpoints of
        None \<Rightarrow> Inr None
      | Some endpoints \<Rightarrow>
          (case fold_result (\<lambda>endpoint out.
               if ep_VPC endpoint \<noteq> vpc then Inr out
               else case Endpoint_Validate endpoint of Inl e \<Rightarrow> Inl e | Inr _ \<Rightarrow> Inr (out @ [endpoint])) endpoints [] of
             Inl e \<Rightarrow> Inl e
           | Inr out \<Rightarrow> Inr (Some (sort_SliceStable endpoint_id_lt out))))"

definition effectiveFQDNMaxIPsPerHostname :: "int \<Rightarrow> int" where
  "effectiveFQDNMaxIPsPerHostname maxIPsPerHostname =
     (if maxIPsPerHostname = 0 then 50 else if maxIPsPerHostname < 0 then 0 else maxIPsPerHostname)"

definition dedupeAddrs :: "addr list \<Rightarrow> addr list" where
  "dedupeAddrs addrs = dedupe_by (\<lambda>addr. addr) [] addrs"

text \<open>\<open>append(m[k], xs...)\<close> on a map of slices.\<close>

definition gomap_append :: "'k \<Rightarrow> 'v list \<Rightarrow> ('k, 'v list) gomap \<Rightarrow> ('k, 'v list) gomap" where
  "gomap_append k xs m = AList.update k ((case map_of m k of None \<Rightarrow> [] | Some ys \<Rightarrow> ys) @ xs) m"

definition limit_ips :: "int \<Rightarrow> addr list \<Rightarrow> addr list" where
  "limit_ips maxIPsPerHostname ips =
     (let ips = dedupeAddrs (sort_SliceStable (\<lambda>a b. addr_String a < addr_String b) ips)
      in if maxIPsPerHostname > 0 \<and> int (length ips) > maxIPsPerHostname
         then take (nat maxIPsPerHostname) ips else ips)"

definition indexDNSRecords ::
    "DNSRecord list \<Rightarrow> time \<Rightarrow> time \<Rightarrow> int \<Rightarrow> (string, addr list) gomap result" where
  "indexDNSRecords records now0 clock max0 =
     (if records = [] then Inr []
      else
        (let now = (if time_IsZero now0 then clock else now0);
             maxIPsPerHostname = effectiveFQDNMaxIPsPerHostname max0
         in case fold_result (\<lambda>record out.
                case DNSRecord_Validate record of
                  Inl e \<Rightarrow> Inl e
                | Inr _ \<Rightarrow> if DNSRecord_IsExpired record now clock then Inr out
                           else Inr (gomap_append (normalizeDNSName (dns_Name record)) (dns_IPs record) out)) records [] of
              Inl e \<Rightarrow> Inl e
            | Inr out \<Rightarrow> Inr (map (\<lambda>(name, ips). (name, limit_ips maxIPsPerHostname ips)) out)))"

definition cidr_group_cidrs :: "CIDRGroup \<Rightarrow> prefix list" where
  "cidr_group_cidrs g =
     dedupeCIDRs (string_sorted_cidrs
       (map prefix_Masked (cidrg_CIDRs g) @ concat (map expandCIDRGroupEntry (cidrg_Entries g))))"

definition indexCIDRGroups :: "string \<Rightarrow> CIDRGroup list \<Rightarrow> (string \<rightharpoonup> prefix list) result" where
  "indexCIDRGroups vpc groups =
     fold_result (\<lambda>g out.
       case CIDRGroup_Validate g of
         Inl e \<Rightarrow> Inl e
       | Inr _ \<Rightarrow>
           if cidrg_VPC g \<noteq> vpc then Inr out
           else if out (cidrg_Name g) \<noteq> None then
             Inl (Errorf ''duplicate cidr group %q in vpc %s'' [cidrg_Name g, vpc])
           else Inr (out(cidrg_Name g \<mapsto> cidr_group_cidrs g))) groups Map.empty"

definition indexServices :: "string \<Rightarrow> LoadBalancer list \<Rightarrow> (string \<rightharpoonup> LoadBalancer) result" where
  "indexServices vpc services =
     fold_result (\<lambda>service out.
       case LoadBalancer_Validate service of
         Inl e \<Rightarrow> Inl e
       | Inr _ \<Rightarrow>
           if lb_VPC service \<noteq> vpc then Inr out
           else if out (lb_Name service) \<noteq> None then
             Inl (Errorf ''duplicate service %q in vpc %s'' [lb_Name service, vpc])
           else Inr (out(lb_Name service \<mapsto> service))) services Map.empty"

definition indexSubnetsByVPC :: "Subnet list \<Rightarrow> (string \<Rightarrow> prefix list) result" where
  "indexSubnetsByVPC subnets =
     (case fold_result (\<lambda>subnet out.
          case Subnet_Validate subnet of
            Inl e \<Rightarrow> Inl e
          | Inr _ \<Rightarrow> Inr (out(subnet_VPC subnet := out (subnet_VPC subnet) @ [prefix_Masked (subnet_CIDR subnet)])))
        subnets (\<lambda>_. []) of
        Inl e \<Rightarrow> Inl e
      | Inr out \<Rightarrow> Inr (\<lambda>vpc. string_sorted_cidrs (out vpc)))"

definition gateway_cidr_lt :: "gatewayCIDR \<Rightarrow> gatewayCIDR \<Rightarrow> bool" where
  "gateway_cidr_lt a b =
     (if gwc_cidr a \<noteq> gwc_cidr b then prefix_String (gwc_cidr a) < prefix_String (gwc_cidr b)
      else gwc_node a < gwc_node b)"

definition indexGatewayCIDRsByVPC :: "Gateway list \<Rightarrow> (string \<Rightarrow> gatewayCIDR list) result" where
  "indexGatewayCIDRsByVPC gateways =
     (case fold_result (\<lambda>gateway out.
          case Gateway_Validate gateway of
            Inl e \<Rightarrow> Inl e
          | Inr _ \<Rightarrow>
              let bits = (if addr_Is4 (gw_LANIP gateway) then 32 else 128)
              in Inr (out(gw_VPC gateway := out (gw_VPC gateway) @
                   [\<lparr>gwc_node = gw_Node gateway, gwc_cidr = netip_PrefixFrom (gw_LANIP gateway) bits\<rparr>])))
        gateways (\<lambda>_. []) of
        Inl e \<Rightarrow> Inl e
      | Inr out \<Rightarrow> Inr (\<lambda>vpc. sort_SliceStable gateway_cidr_lt (out vpc)))"

section \<open>Compaction of rules that differ in their prefix only\<close>

definition uint8PtrKey :: "u8 option \<Rightarrow> string" where
  "uint8PtrKey value = (case value of None \<Rightarrow> '''' | Some v \<Rightarrow> nat_Itoa (unat v))"

definition ruleCompactionKey :: "Rule \<Rightarrow> string" where
  "ruleCompactionKey r =
     strings_Join [
       rule_ID r, rule_VPC r, strconv_Itoa (rule_Tier r), strconv_Itoa (rule_Priority r),
       rule_Direction r, rule_Protocol r, rule_RemoteGroup r, rule_RemoteService r,
       rule_RemoteCIDRGroup r, rule_RemoteEntity r, rule_RemoteEndpoint r, rule_RemoteFQDN r,
       portRangesKey (rule_Ports r), strings_Join (rule_NamedPorts r) '','',
       uint8PtrKey (rule_ICMPType r), uint8PtrKey (rule_ICMPCode r), rule_Action r,
       bool_String (rule_Stateful r), bool_String (rule_Log r), rule_SecurityGroup r] NUL"

text \<open>\<open>groups\<close> and \<open>order\<close>: the rules by key, in the order in which the keys first occur.\<close>

definition group_rules :: "Rule list \<Rightarrow> (string, Rule list) gomap" where
  "group_rules rules = fold (\<lambda>r groups. gomap_append (ruleCompactionKey r) [r] groups) rules []"

definition compact_group :: "Rule list \<Rightarrow> Rule list" where
  "compact_group g =
     (if length g < 2 \<or> \<not> prefix_IsValid (rule_RemoteCIDR (hd g)) then g
      else map (\<lambda>cidr. (hd g)\<lparr>rule_RemoteCIDR := cidr\<rparr>)
             (compactCIDRs (map (\<lambda>r. prefix_Masked (rule_RemoteCIDR r)) g)))"

definition compactEquivalentCIDRRules :: "Rule list \<Rightarrow> Rule list" where
  "compactEquivalentCIDRRules rules =
     (if length rules < 2 then rules else concat (map (compact_group \<circ> snd) (group_rules rules)))"


section \<open>Default allow\<close>

definition hasRulesForDirection :: "SecurityGroupRule list \<Rightarrow> Direction \<Rightarrow> bool" where
  "hasRulesForDirection rules direction = list_ex (\<lambda>r. sgr_Direction r = direction) rules"

fun default_deny_disabled :: "bool \<Rightarrow> SecurityGroup list \<Rightarrow> Direction \<Rightarrow> bool" where
  "default_deny_disabled hasDefaultAllowPolicy [] direction = hasDefaultAllowPolicy"
| "default_deny_disabled hasDefaultAllowPolicy (g # gs) direction =
     (if direction \<noteq> DirectionIngress \<and> direction \<noteq> DirectionEgress then False
      else
        (let setting = (if direction = DirectionIngress then sg_DefaultDenyIngress g else sg_DefaultDenyEgress g) in
         if setting = Some False then default_deny_disabled True gs direction
         else if setting \<noteq> None \<or> hasRulesForDirection (sg_Rules g) direction then False
         else default_deny_disabled hasDefaultAllowPolicy gs direction))"

definition defaultDenyDisabledForDirection :: "SecurityGroup list \<Rightarrow> Direction \<Rightarrow> bool" where
  "defaultDenyDisabledForDirection groups direction =
     (if groups = [] then False else default_deny_disabled False groups direction)"

definition default_allow_rule :: "Direction \<Rightarrow> Rule" where
  "default_allow_rule direction =
     zero_Rule\<lparr>rule_ID := ''netloom-default-allow-'' @ direction, rule_Tier := 1, rule_Direction := direction,
       rule_Protocol := ProtocolAny, rule_Action := ActionAllow\<rparr>"

definition appendDefaultAllowRules :: "Program \<Rightarrow> SecurityGroup list \<Rightarrow> Program result" where
  "appendDefaultAllowRules program groups =
     fold_result (\<lambda>direction program.
       if \<not> defaultDenyDisabledForDirection groups direction then Inr program
       else
         (let r = default_allow_rule direction in
          case compileMapEntries IdentityCache_Identity r '''' NewIdentityCache of
            Inl e \<Rightarrow> Inl e
          | Inr (entries, _) \<Rightarrow>
              Inr (program\<lparr>prog_Rules := prog_Rules program @ [r],
                           prog_MapEntries := prog_MapEntries program @ entries\<rparr>)))
       [DirectionIngress, DirectionEgress] program"


section \<open>Compiling for an endpoint\<close>

record 's CompileContext =
  ctx_Endpoints :: "Endpoint list option"
  ctx_Subnets :: "Subnet list"
  ctx_Gateways :: "Gateway list"
  ctx_Services :: "LoadBalancer list"
  ctx_DNSRecords :: "DNSRecord list"
  ctx_FQDNMaxIPsPerHostname :: int
  ctx_CIDRGroups :: "CIDRGroup list"
  ctx_IdentityResolver :: "'s option"
  ctx_Now :: time

text \<open>The indexes, in the order in which they are built; the first error is returned.\<close>

definition compile_index ::
    "Endpoint \<Rightarrow> (string \<rightharpoonup> SecurityGroup) \<Rightarrow> 's CompileContext \<Rightarrow> time \<Rightarrow> RuleIndex result" where
  "compile_index endpoint groups ctx clock =
     (bind_result (indexRemoteGroupMembers (ep_VPC endpoint) groups (ctx_Endpoints ctx)) (\<lambda>membersByGroup.
      bind_result (indexEndpointSelectorMembers (ep_VPC endpoint) (ctx_Endpoints ctx)) (\<lambda>endpointsBySelector.
      bind_result (indexDNSRecords (ctx_DNSRecords ctx) (ctx_Now ctx) clock (ctx_FQDNMaxIPsPerHostname ctx)) (\<lambda>dnsRecords.
      bind_result (indexCIDRGroups (ep_VPC endpoint) (ctx_CIDRGroups ctx)) (\<lambda>cidrGroups.
      bind_result (indexServices (ep_VPC endpoint) (ctx_Services ctx)) (\<lambda>services.
      bind_result (indexSubnetsByVPC (ctx_Subnets ctx)) (\<lambda>subnetsByVPC.
      bind_result (indexGatewayCIDRsByVPC (ctx_Gateways ctx)) (\<lambda>gatewayCIDRsByVPC.
        Inr \<lparr>idx_membersByGroup = membersByGroup, idx_endpointsBySelector = endpointsBySelector,
             idx_dnsRecords = dnsRecords, idx_cidrGroups = cidrGroups, idx_services = services,
             idx_subnetsByVPC = subnetsByVPC, idx_gatewayCIDRsByVPC = gatewayCIDRsByVPC\<rparr>))))))))"

text \<open>The innermost loop: append one compiled rule and its entries.\<close>

definition add_rule ::
    "('s \<Rightarrow> string \<Rightarrow> u32 \<times> 's) \<Rightarrow> string \<Rightarrow> Rule \<Rightarrow> Program \<times> 's \<Rightarrow> (Program \<times> 's) result" where
  "add_rule Identity vpc r = (\<lambda>(program, resolver).
     bind_result (compileMapEntries Identity r vpc resolver) (\<lambda>(entries, resolver).
       Inr (program\<lparr>prog_Rules := prog_Rules program @ [r],
                    prog_MapEntries := prog_MapEntries program @ entries\<rparr>, resolver)))"

definition compile_rule ::
    "('s \<Rightarrow> string \<Rightarrow> u32 \<times> 's) \<Rightarrow> Endpoint \<Rightarrow> RuleIndex \<Rightarrow> SecurityGroup \<Rightarrow> SecurityGroupRule \<Rightarrow>
     Program \<times> 's \<Rightarrow> (Program \<times> 's) result" where
  "compile_rule Identity endpoint idx sg r st =
     bind_result (expandRule endpoint sg r idx) (\<lambda>compiledRules.
       fold_result (add_rule Identity (ep_VPC endpoint)) (compactEquivalentCIDRRules compiledRules) st)"

definition compile_group ::
    "('s \<Rightarrow> string \<Rightarrow> u32 \<times> 's) \<Rightarrow> Endpoint \<Rightarrow> (string \<rightharpoonup> SecurityGroup) \<Rightarrow> RuleIndex \<Rightarrow> string \<Rightarrow>
     (SecurityGroup list \<times> Program \<times> 's) \<Rightarrow> (SecurityGroup list \<times> Program \<times> 's) result" where
  "compile_group Identity endpoint groups idx groupName = (\<lambda>(attachedGroups, st).
     case groups groupName of
       None \<Rightarrow> Inl (Errorf ''endpoint %s references unknown security group %s'' [ep_ID endpoint, groupName])
     | Some sg \<Rightarrow>
         if sg_VPC sg \<noteq> ep_VPC endpoint then
           Inl (Errorf ''security group %s belongs to vpc %s, endpoint %s belongs to %s''
             [sg_Name sg, sg_VPC sg, ep_ID endpoint, ep_VPC endpoint])
         else
           bind_result (SecurityGroup_Validate sg) (\<lambda>_.
           bind_result (fold_result (compile_rule Identity endpoint idx sg) (sg_Rules sg) st) (\<lambda>st.
             Inr (attachedGroups @ [sg], st))))"

definition rule_before :: "Rule \<Rightarrow> Rule \<Rightarrow> bool" where
  "rule_before a b =
     (let left = precedence a; right = precedence b
      in if left \<noteq> right then left > right else rule_ID a < rule_ID b)"

definition entry_before :: "MapEntry \<Rightarrow> MapEntry \<Rightarrow> bool" where
  "entry_before a b =
     (if mv_Precedence (me_Value a) \<noteq> mv_Precedence (me_Value b)
      then mv_Precedence (me_Value a) > mv_Precedence (me_Value b)
      else me_RuleID a < me_RuleID b)"

definition sort_program :: "Program \<Rightarrow> Program" where
  "sort_program program =
     program\<lparr>prog_Rules := sort_SliceStable rule_before (prog_Rules program),
             prog_MapEntries := sort_SliceStable entry_before (prog_MapEntries program)\<rparr>"

definition compile_with ::
    "('s \<Rightarrow> string \<Rightarrow> u32 \<times> 's) \<Rightarrow> 's \<Rightarrow> Endpoint \<Rightarrow> (string \<rightharpoonup> SecurityGroup) \<Rightarrow> 'r CompileContext \<Rightarrow> time \<Rightarrow>
     (Program \<times> 's) result" where
  "compile_with Identity resolver endpoint groups ctx clock =
     bind_result (compile_index endpoint groups ctx clock) (\<lambda>idx.
     bind_result (fold_result (compile_group Identity endpoint groups idx) (ep_SecurityGroups endpoint)
         ([], \<lparr>prog_EndpointID = EndpointKey (ep_VPC endpoint) (ep_ID endpoint), prog_EndpointIP = ep_IP endpoint,
               prog_MapEntries = [], prog_Rules = []\<rparr>, resolver)) (\<lambda>(attachedGroups, program, resolver).
     bind_result (appendDefaultAllowRules program attachedGroups) (\<lambda>program.
       Inr (sort_program program, resolver))))"

text \<open>A nil resolver in the context is replaced by a new cache, which is dropped at the end.\<close>

definition CompileForEndpointWithContext ::
    "('s \<Rightarrow> string \<Rightarrow> u32 \<times> 's) \<Rightarrow> Endpoint \<Rightarrow> (string \<rightharpoonup> SecurityGroup) \<Rightarrow> 's CompileContext \<Rightarrow> time \<Rightarrow>
     (Program \<times> 's option) result" where
  "CompileForEndpointWithContext Identity endpoint groups ctx clock =
     bind_result (Endpoint_Validate endpoint) (\<lambda>_.
       case ctx_IdentityResolver ctx of
         None \<Rightarrow>
           bind_result (compile_with IdentityCache_Identity NewIdentityCache endpoint groups ctx clock)
             (\<lambda>(program, _). Inr (program, None))
       | Some resolver \<Rightarrow>
           bind_result (compile_with Identity resolver endpoint groups ctx clock)
             (\<lambda>(program, resolver). Inr (program, Some resolver)))"

definition zero_CompileContext :: "IdentityCache CompileContext" where
  "zero_CompileContext =
     \<lparr>ctx_Endpoints = None, ctx_Subnets = [], ctx_Gateways = [], ctx_Services = [], ctx_DNSRecords = [],
      ctx_FQDNMaxIPsPerHostname = 0, ctx_CIDRGroups = [], ctx_IdentityResolver = None, ctx_Now = 0\<rparr>"

definition CompileForEndpoint ::
    "Endpoint \<Rightarrow> (string \<rightharpoonup> SecurityGroup) \<Rightarrow> time \<Rightarrow> (Program \<times> IdentityCache option) result" where
  "CompileForEndpoint endpoint groups clock =
     CompileForEndpointWithContext IdentityCache_Identity endpoint groups zero_CompileContext clock"

definition CompileForEndpointWithState ::
    "Endpoint \<Rightarrow> (string \<rightharpoonup> SecurityGroup) \<Rightarrow> Endpoint list option \<Rightarrow> time \<Rightarrow> (Program \<times> IdentityCache option) result" where
  "CompileForEndpointWithState endpoint groups endpoints clock =
     CompileForEndpointWithContext IdentityCache_Identity endpoint groups
       (zero_CompileContext\<lparr>ctx_Endpoints := endpoints\<rparr>) clock"

section \<open>The state of the resolver does not matter\<close>

text \<open>
  Compiling with a resolver in any valid state gives what compiling with the plain function of the
  contract gives, errors included, and leaves the resolver valid.
\<close>

definition same_output :: "('s \<Rightarrow> bool) \<Rightarrow> 'a \<times> 's \<Rightarrow> 'a \<times> unit \<Rightarrow> bool" where
  "same_output valid x y \<longleftrightarrow> fst x = fst y \<and> valid (snd x)"

definition same_output2 :: "('s \<Rightarrow> bool) \<Rightarrow> 'b \<times> 'a \<times> 's \<Rightarrow> 'b \<times> 'a \<times> unit \<Rightarrow> bool" where
  "same_output2 valid x y \<longleftrightarrow> fst x = fst y \<and> same_output valid (snd x) (snd y)"

lemma same_output_pairs [simp]:
  "same_output valid (a, s) (b, u) \<longleftrightarrow> a = b \<and> valid s"
  "same_output2 valid (c, x) (d, y) \<longleftrightarrow> c = d \<and> same_output valid x y"
  by (simp_all add: same_output_def same_output2_def)

lemma same_outputE [elim]:
  assumes "same_output valid x y"
  obtains a s where "x = (a, s)" and "y = (a, ())" and "valid s"
  using assms by (cases x; cases y) (auto simp: same_output_def)

lemma same_output2E [elim]:
  assumes "same_output2 valid x y"
  obtains c a s where "x = (c, a, s)" and "y = (c, a, ())" and "valid s"
  using assms by (cases x; cases y) (auto simp: same_output2_def same_output_def)

context identity_resolver
begin

lemma rel_compileMapEntries:
  assumes "valid s"
  shows "rel_sum (=) (same_output valid)
    (compileMapEntries Identity r vpc s) (compileMapEntries (pure_Identity identity_of) r vpc ())"
proof -
  have pure: "identity_resolver (pure_Identity identity_of) (\<lambda>_. True) identity_of"
    by unfold_locales (simp_all add: pure_Identity_def)
  from compileMapEntries_eq [OF assms, where r = r and localVPC = vpc]
    identity_resolver.compileMapEntries_eq [OF pure, where s = "()" and r = r and localVPC = vpc]
  show ?thesis by (auto split: sum.splits)
qed

lemma rel_add_rule:
  "same_output valid x y \<Longrightarrow> rel_sum (=) (same_output valid)
    (add_rule Identity vpc r x) (add_rule (pure_Identity identity_of) vpc r y)"
  unfolding add_rule_def by (auto intro!: rel_bind_result [OF rel_compileMapEntries])

lemma rel_compile_rule:
  "same_output valid x y \<Longrightarrow> rel_sum (=) (same_output valid)
    (compile_rule Identity endpoint idx sg r x) (compile_rule (pure_Identity identity_of) endpoint idx sg r y)"
  unfolding compile_rule_def
  by (rule rel_bind_result [where R = "(=)"])
    (auto simp only: sum.rel_eq intro!: rel_fold_result rel_add_rule)

lemma rel_compile_group:
  assumes "same_output2 valid x y"
  shows "rel_sum (=) (same_output2 valid)
    (compile_group Identity endpoint groups idx n x)
    (compile_group (pure_Identity identity_of) endpoint groups idx n y)"
proof -
  from assms obtain gs p s where xy: "x = (gs, p, s)" "y = (gs, p, ())" and v: "valid s" by auto
  have rules: "rel_sum (=) (same_output valid)
      (fold_result (compile_rule Identity endpoint idx sg) rs (p, s))
      (fold_result (compile_rule (pure_Identity identity_of) endpoint idx sg) rs (p, ()))" for sg rs
    using v by (intro rel_fold_result rel_compile_rule) simp_all
  show ?thesis
    unfolding compile_group_def xy
    by (auto split: option.splits intro!: rel_bind_result [where R = "(=)"] rel_bind_result [OF rules] simp: sum.rel_eq)
qed

lemma rel_compile_with:
  assumes "valid s"
  shows "rel_sum (=) (same_output valid)
    (compile_with Identity s endpoint groups ctx clock)
    (compile_with (pure_Identity identity_of) () endpoint groups ctx clock)"
proof -
  have loop: "rel_sum (=) (same_output2 valid)
      (fold_result (compile_group Identity endpoint groups idx) ns (gs, p, s))
      (fold_result (compile_group (pure_Identity identity_of) endpoint groups idx) ns (gs, p, ()))" for idx ns gs p
    using assms by (intro rel_fold_result rel_compile_group) simp_all
  show ?thesis
    unfolding compile_with_def
    by (rule rel_bind_result [where R = "(=)"])
      (auto simp: sum.rel_eq intro!: rel_bind_result [OF loop] rel_bind_result [where R = "(=)"])
qed

end

interpretation pure: identity_resolver "pure_Identity f" "\<lambda>_. True" f for f
  by unfold_locales (simp_all add: pure_Identity_def)

lemma compile_with_resolver_field:
  "compile_with Identity s endpoint groups (ctx\<lparr>ctx_IdentityResolver := x\<rparr>) clock =
   compile_with Identity s endpoint groups ctx clock"
  by (simp add: compile_with_def compile_index_def)

lemma compile_cached:
  assumes "ctx_IdentityResolver ctx = Some c" and "cache_valid c"
  shows "case CompileForEndpointWithContext IdentityCache_Identity endpoint groups ctx clock of
      Inl e \<Rightarrow> CompileForEndpointWithContext IdentityCache_Identity endpoint groups
                 (ctx\<lparr>ctx_IdentityResolver := None\<rparr>) clock = Inl e
    | Inr (program, resolver) \<Rightarrow>
        CompileForEndpointWithContext IdentityCache_Identity endpoint groups
          (ctx\<lparr>ctx_IdentityResolver := None\<rparr>) clock = Inr (program, None) \<and>
        (\<exists>c'. resolver = Some c' \<and> cache_valid c')"
  using cache.rel_compile_with [OF assms(2), of endpoint groups ctx clock]
    cache.rel_compile_with [OF cache_valid_New, of endpoint groups ctx clock] assms(1)
  unfolding CompileForEndpointWithContext_def
  by (cases "Endpoint_Validate endpoint";
      cases "compile_with (pure_Identity stableIdentity) () endpoint groups ctx clock")
    (auto simp: compile_with_resolver_field rel_sum_simps bind_result_def split: sum.splits)

text \<open>
  C26. Compiling with a shared identity cache, however it was filled before, gives the same program or
  the same error as compiling with no cache, and leaves the cache valid for the next endpoint.
\<close>

theorem compile_cache_independent:
  assumes "ctx_IdentityResolver ctx = Some c" and "cache_valid c"
  shows "case CompileForEndpointWithContext IdentityCache_Identity endpoint groups ctx clock of
      Inl e \<Rightarrow> CompileForEndpointWithContext IdentityCache_Identity endpoint groups
                 (ctx\<lparr>ctx_IdentityResolver := None\<rparr>) clock = Inl e
    | Inr (program, resolver) \<Rightarrow>
        CompileForEndpointWithContext IdentityCache_Identity endpoint groups
          (ctx\<lparr>ctx_IdentityResolver := None\<rparr>) clock = Inr (program, None) \<and>
        (\<exists>c'. resolver = Some c' \<and> cache_valid c')"
  by (rule compile_cached [OF assms])


section \<open>The compiled program\<close>

definition entries_of :: "string \<Rightarrow> Rule \<Rightarrow> MapEntry list" where
  "entries_of vpc r =
     (case l4PortPrefixes r of Inl _ \<Rightarrow> [] | Inr ports \<Rightarrow> rule_entries stableIdentity vpc r ports)"

definition extend_program :: "string \<Rightarrow> Rule list \<Rightarrow> Program \<Rightarrow> Program" where
  "extend_program vpc rs program =
     program\<lparr>prog_Rules := prog_Rules program @ rs,
             prog_MapEntries := prog_MapEntries program @ concat (map (entries_of vpc) rs)\<rparr>"

lemma extend_program_append [simp]:
  "extend_program vpc ss (extend_program vpc rs program) = extend_program vpc (rs @ ss) program"
  "extend_program vpc [] program = program"
  by (simp_all add: extend_program_def)

lemma add_rule_pure:
  "add_rule (pure_Identity stableIdentity) vpc r (program, ()) = Inr st \<longleftrightarrow>
   is_ok (l4PortPrefixes r) \<and> st = (extend_program vpc [r] program, ())"
  using pure.compileMapEntries_eq [of stableIdentity r vpc "()"]
  by (auto simp: add_rule_def bind_result_Inr extend_program_def entries_of_def split: sum.splits)

lemma fold_add_rule_pure:
  "fold_result (add_rule (pure_Identity stableIdentity) vpc) rs (program, ()) = Inr st \<longleftrightarrow>
   (\<forall>r \<in> set rs. is_ok (l4PortPrefixes r)) \<and> st = (extend_program vpc rs program, ())"
proof (induction rs arbitrary: program)
  case (Cons r rs)
  show ?case
  proof (cases "is_ok (l4PortPrefixes r)")
    case True
    then have "add_rule (pure_Identity stableIdentity) vpc r (program, ()) = Inr (extend_program vpc [r] program, ())"
      by (simp add: add_rule_pure)
    with Cons True show ?thesis by simp
  next
    case False
    then obtain e where "add_rule (pure_Identity stableIdentity) vpc r (program, ()) = Inl e"
      using add_rule_pure [of vpc r program] by (metis sum.exhaust)
    with False show ?thesis by simp
  qed
qed auto

definition expanded_rules :: "Endpoint \<Rightarrow> RuleIndex \<Rightarrow> SecurityGroup \<Rightarrow> SecurityGroupRule \<Rightarrow> Rule list" where
  "expanded_rules endpoint idx sg r =
     (case expandRule endpoint sg r idx of Inl _ \<Rightarrow> [] | Inr rs \<Rightarrow> compactEquivalentCIDRRules rs)"

definition attached_groups :: "Endpoint \<Rightarrow> (string \<rightharpoonup> SecurityGroup) \<Rightarrow> SecurityGroup list" where
  "attached_groups endpoint groups = List.map_filter groups (ep_SecurityGroups endpoint)"

definition default_rules :: "SecurityGroup list \<Rightarrow> Rule list" where
  "default_rules gs =
     map default_allow_rule (filter (defaultDenyDisabledForDirection gs) [DirectionIngress, DirectionEgress])"

definition compiled_rules :: "Endpoint \<Rightarrow> RuleIndex \<Rightarrow> SecurityGroup list \<Rightarrow> Rule list" where
  "compiled_rules endpoint idx gs = concat (map (\<lambda>sg. concat (map (expanded_rules endpoint idx sg) (sg_Rules sg))) gs)"

lemma fold_compile_rule_pure:
  assumes "fold_result (compile_rule (pure_Identity stableIdentity) endpoint idx sg) rs (program, ()) = Inr st"
  shows "st = (extend_program (ep_VPC endpoint) (concat (map (expanded_rules endpoint idx sg) rs)) program, ()) \<and>
    (\<forall>r \<in> set (concat (map (expanded_rules endpoint idx sg) rs)). is_ok (l4PortPrefixes r))"
  using assms
proof (induction rs arbitrary: program)
  case (Cons r rs)
  from Cons.prems obtain st' where st': "compile_rule (pure_Identity stableIdentity) endpoint idx sg r (program, ()) = Inr st'"
    and rest: "fold_result (compile_rule (pure_Identity stableIdentity) endpoint idx sg) rs st' = Inr st"
    by (auto split: sum.splits)
  from st' have "st' = (extend_program (ep_VPC endpoint) (expanded_rules endpoint idx sg r) program, ())"
    and "\<forall>r \<in> set (expanded_rules endpoint idx sg r). is_ok (l4PortPrefixes r)"
    by (auto simp: compile_rule_def bind_result_Inr fold_add_rule_pure expanded_rules_def)
  with Cons.IH [of "extend_program (ep_VPC endpoint) (expanded_rules endpoint idx sg r) program"] rest
  show ?case by auto
qed simp

lemma fold_compile_group_pure:
  assumes "fold_result (compile_group (pure_Identity stableIdentity) endpoint groups idx) ns (gs, program, ()) = Inr st"
  shows "st = (gs @ List.map_filter groups ns,
      extend_program (ep_VPC endpoint) (compiled_rules endpoint idx (List.map_filter groups ns)) program, ()) \<and>
    (\<forall>r \<in> set (compiled_rules endpoint idx (List.map_filter groups ns)). is_ok (l4PortPrefixes r)) \<and>
    (\<forall>n \<in> set ns. \<exists>sg. groups n = Some sg \<and> sg_VPC sg = ep_VPC endpoint \<and> is_ok (SecurityGroup_Validate sg))"
  using assms
proof (induction ns arbitrary: gs program)
  case Nil
  then show ?case by (simp add: compiled_rules_def)
next
  case (Cons n ns)
  let ?rs = "\<lambda>sg. concat (map (expanded_rules endpoint idx sg) (sg_Rules sg))"
  from Cons.prems obtain st' where st': "compile_group (pure_Identity stableIdentity) endpoint groups idx n (gs, program, ()) = Inr st'"
    and rest: "fold_result (compile_group (pure_Identity stableIdentity) endpoint groups idx) ns st' = Inr st"
    by (auto split: sum.splits)
  from st' obtain sg where sg: "groups n = Some sg" "sg_VPC sg = ep_VPC endpoint" "is_ok (SecurityGroup_Validate sg)"
    and "st' = (gs @ [sg], extend_program (ep_VPC endpoint) (?rs sg) program, ())"
    and "\<forall>r \<in> set (?rs sg). is_ok (l4PortPrefixes r)"
    by (auto simp: compile_group_def bind_result_Inr dest!: fold_compile_rule_pure split: option.splits if_splits)
  with Cons.IH [of "gs @ [sg]" "extend_program (ep_VPC endpoint) (?rs sg) program"] rest
  show ?case by (auto simp: List.map_filter_simps compiled_rules_def)
qed

lemma default_allow_entries:
  "compileMapEntries IdentityCache_Identity (default_allow_rule d) vpc' NewIdentityCache =
     Inr (entries_of vpc (default_allow_rule d), NewIdentityCache)"
  by (simp add: compileMapEntries_def l4PortPrefixes_def default_allow_rule_def normalizedProtocol_def
      remoteIdentity_def zero_Rule_def zero_prefix_def prefix_IsValid_def entries_of_def rule_entries_def rule_identity_def Let_def)

lemma appendDefaultAllowRules_eq:
  "appendDefaultAllowRules program gs = Inr (extend_program vpc (default_rules gs) program)"
  by (simp add: appendDefaultAllowRules_def default_allow_entries [of _ _ vpc] Let_def default_rules_def extend_program_def)

lemma compile_with_pure:
  assumes "compile_with (pure_Identity stableIdentity) () endpoint groups ctx clock = Inr st"
  obtains idx where "compile_index endpoint groups ctx clock = Inr idx"
    and "fst st = sort_program (extend_program (ep_VPC endpoint)
           (compiled_rules endpoint idx (attached_groups endpoint groups) @ default_rules (attached_groups endpoint groups))
           \<lparr>prog_EndpointID = EndpointKey (ep_VPC endpoint) (ep_ID endpoint), prog_EndpointIP = ep_IP endpoint,
            prog_MapEntries = [], prog_Rules = []\<rparr>)"
    and "\<forall>r \<in> set (compiled_rules endpoint idx (attached_groups endpoint groups)). is_ok (l4PortPrefixes r)"
    and "\<forall>sg \<in> set (attached_groups endpoint groups). is_ok (SecurityGroup_Validate sg)"
  using assms
  by (fastforce simp: compile_with_def bind_result_Inr appendDefaultAllowRules_eq [of _ _ "ep_VPC endpoint"]
      attached_groups_def List.map_filter_def split: prod.splits dest!: fold_compile_group_pure)

interpretation rule_order: strict_weak_order rule_before
  by unfold_locales (auto simp: rule_before_def Let_def split: if_splits)

interpretation entry_order: strict_weak_order entry_before
  by unfold_locales (auto simp: entry_before_def split: if_splits)

lemma mset_concat_map_sort: "mset (concat (map f (sort_SliceStable lt xs))) = mset (concat (map f xs))"
proof -
  have "mset (concat (map f ys)) = (\<Sum>y \<in># mset ys. mset (f y))" for ys
    by (induction ys) auto
  then show ?thesis by simp
qed

lemma sorted_rules: "sorted_wrt (\<lambda>a b. precedence b \<le> precedence a) (sort_SliceStable rule_before rs)"
  by (rule sorted_wrt_mono_rel [OF _ rule_order.sorted_sort_SliceStable])
    (auto simp: rule_before_def Let_def split: if_splits)

lemma sorted_entries:
  "sorted_wrt (\<lambda>a b. mv_Precedence (me_Value b) \<le> mv_Precedence (me_Value a)) (sort_SliceStable entry_before es)"
  by (rule sorted_wrt_mono_rel [OF _ entry_order.sorted_sort_SliceStable])
    (auto simp: entry_before_def split: if_splits)

lemma compiled_program:
  assumes "CompileForEndpointWithContext IdentityCache_Identity endpoint groups ctx clock = Inr (program, resolver)"
    and "\<forall>c. ctx_IdentityResolver ctx = Some c \<longrightarrow> cache_valid c"
  obtains idx where "compile_index endpoint groups ctx clock = Inr idx"
    and "\<forall>sg \<in> set (attached_groups endpoint groups). is_ok (SecurityGroup_Validate sg)"
    and "\<forall>r \<in> set (compiled_rules endpoint idx (attached_groups endpoint groups)). is_ok (l4PortPrefixes r)"
    and "program = sort_program (extend_program (ep_VPC endpoint)
           (compiled_rules endpoint idx (attached_groups endpoint groups) @ default_rules (attached_groups endpoint groups))
           \<lparr>prog_EndpointID = EndpointKey (ep_VPC endpoint) (ep_ID endpoint), prog_EndpointIP = ep_IP endpoint,
            prog_MapEntries = [], prog_Rules = []\<rparr>)"
proof -
  obtain c c' :: IdentityCache where "cache_valid c" and "compile_with IdentityCache_Identity c endpoint groups ctx clock = Inr (program, c')"
    using assms by (auto simp: CompileForEndpointWithContext_def bind_result_Inr split: option.splits)
      (blast intro: cache_valid_New)
  with cache.rel_compile_with [of c endpoint groups ctx clock]
  obtain st where "compile_with (pure_Identity stableIdentity) () endpoint groups ctx clock = Inr st" and st: "program = fst st"
    by (cases "compile_with (pure_Identity stableIdentity) () endpoint groups ctx clock") auto
  from this(1) show thesis by (rule compile_with_pure) (rule that, simp_all add: st)
qed

text \<open>
  C7. When compiling succeeds, the rules of the program are, up to their order, the compacted
  expansions of the rules of the attached groups, each validated, followed
  by the default allow rules; the map entries are exactly those of these rules; both are ordered
  from the highest precedence to the lowest.
\<close>

theorem CompileForEndpointWithContext_program:
  assumes "CompileForEndpointWithContext IdentityCache_Identity endpoint groups ctx clock = Inr (program, resolver)"
    and "\<forall>c. ctx_IdentityResolver ctx = Some c \<longrightarrow> cache_valid c"
  shows "\<exists>idx. compile_index endpoint groups ctx clock = Inr idx \<and>
      (\<forall>sg \<in> set (attached_groups endpoint groups). is_ok (SecurityGroup_Validate sg)) \<and>
      mset (prog_Rules program) =
        mset (compiled_rules endpoint idx (attached_groups endpoint groups) @ default_rules (attached_groups endpoint groups)) \<and>
      mset (prog_MapEntries program) = mset (concat (map (entries_of (ep_VPC endpoint)) (prog_Rules program))) \<and>
      sorted_wrt (\<lambda>a b. precedence b \<le> precedence a) (prog_Rules program) \<and>
      sorted_wrt (\<lambda>a b. mv_Precedence (me_Value b) \<le> mv_Precedence (me_Value a)) (prog_MapEntries program)"
proof -
  obtain idx where idx: "compile_index endpoint groups ctx clock = Inr idx"
    and p: "program = sort_program (extend_program (ep_VPC endpoint)
           (compiled_rules endpoint idx (attached_groups endpoint groups) @ default_rules (attached_groups endpoint groups))
           \<lparr>prog_EndpointID = EndpointKey (ep_VPC endpoint) (ep_ID endpoint), prog_EndpointIP = ep_IP endpoint,
            prog_MapEntries = [], prog_Rules = []\<rparr>)"
    and valid: "\<forall>sg \<in> set (attached_groups endpoint groups). is_ok (SecurityGroup_Validate sg)"
    by (rule compiled_program [OF assms])
  have "sorted_wrt (\<lambda>a b. precedence b \<le> precedence a) (prog_Rules program)"
    unfolding p by (simp add: sort_program_def extend_program_def sorted_rules)
  moreover have "sorted_wrt (\<lambda>a b. mv_Precedence (me_Value b) \<le> mv_Precedence (me_Value a)) (prog_MapEntries program)"
    unfolding p by (simp add: sort_program_def extend_program_def sorted_entries del: map_append)
  moreover have "mset (prog_MapEntries program) = mset (concat (map (entries_of (ep_VPC endpoint)) (prog_Rules program)))"
    unfolding p by (simp add: sort_program_def extend_program_def mset_concat_map_sort)
  ultimately show ?thesis
    using idx valid by (intro exI [of _ idx]) (simp add: p sort_program_def extend_program_def)
qed

definition example_endpoint :: Endpoint where
  "example_endpoint =
     \<lparr>ep_ID = ''vm1'', ep_VPC = ''blue'', ep_Subnet = ''a'', ep_IP = V4 0x0A000005, ep_MAC = [], ep_Node = ''n1'',
      ep_SecurityGroups = [''web''], ep_NamedPorts = [], ep_Labels = []\<rparr>"

definition example_group :: SecurityGroup where
  "example_group =
     \<lparr>sg_Name = ''web'', sg_VPC = ''blue'', sg_Tier = 0, sg_DefaultDenyIngress = Some False, sg_DefaultDenyEgress = None,
      sg_Rules = []\<rparr>"

lemma example_index:
  "\<exists>idx. compile_index example_endpoint groups zero_CompileContext clock = Inr idx"
  by (simp add: compile_index_def zero_CompileContext_def indexRemoteGroupMembers_def indexEndpointSelectorMembers_def
      indexDNSRecords_def indexCIDRGroups_def indexServices_def indexSubnetsByVPC_def indexGatewayCIDRsByVPC_def)

lemma example_valid: "SecurityGroup_Validate example_group = Inr ()" "Endpoint_Validate example_endpoint = Inr ()"
proof -
  have "is_ok (SecurityGroup_Validate example_group)"
    by (simp add: SecurityGroup_Validate_def example_group_def range_seen_def)
  moreover have "is_ok (Endpoint_Validate example_endpoint)"
    by (simp add: Endpoint_Validate_def example_endpoint_def range_seen_def Labels_Validate_def range_check_def
        strings_TrimSpace_def addr_IsUnspecified_def addr_IsValid_def first_error.simps fail_if_def wrap_error_def)
  ultimately show "SecurityGroup_Validate example_group = Inr ()" "Endpoint_Validate example_endpoint = Inr ()"
    by (auto simp: is_ok_def split: sum.splits)
qed

lemma example_fields [simp]:
  "ep_SecurityGroups example_endpoint = [''web'']" "ep_VPC example_endpoint = ''blue''"
  "sg_VPC example_group = ''blue''" "sg_Rules example_group = []" "ctx_IdentityResolver zero_CompileContext = None"
  "zero_CompileContext\<lparr>ctx_IdentityResolver := None\<rparr> = zero_CompileContext"
  by (simp_all add: example_endpoint_def example_group_def zero_CompileContext_def)

lemma example_compiles: "\<exists>program. CompileForEndpoint example_endpoint [''web'' \<mapsto> example_group] 0 = Inr (program, None)"
proof -
  obtain idx where "compile_index example_endpoint [''web'' \<mapsto> example_group] zero_CompileContext 0 = Inr idx"
    using example_index by blast
  then have "\<exists>st. compile_with IdentityCache_Identity NewIdentityCache example_endpoint [''web'' \<mapsto> example_group]
      zero_CompileContext 0 = Inr st"
    by (simp add: compile_with_def compile_group_def example_valid appendDefaultAllowRules_eq [of _ _ "''blue''"])
  then show ?thesis
    by (auto simp: CompileForEndpoint_def CompileForEndpointWithContext_def example_valid)
qed

theorem CompileForEndpointWithContext_program_witness:
  "\<exists>program. CompileForEndpoint example_endpoint [''web'' \<mapsto> example_group] 0 = Inr (program, None) \<and>
     mset (prog_MapEntries program) = mset (concat (map (entries_of ''blue'') (prog_Rules program)))"
proof -
  obtain program where p: "CompileForEndpoint example_endpoint [''web'' \<mapsto> example_group] 0 = Inr (program, None)"
    using example_compiles by blast
  then show ?thesis
    using CompileForEndpointWithContext_program [OF p [unfolded CompileForEndpoint_def]] by auto
qed

theorem compile_cache_independent_witness:
  "cache_valid (snd (IdentityCache_Identity NewIdentityCache ''endpoint:x'')) \<and>
   (case CompileForEndpointWithContext IdentityCache_Identity example_endpoint [''web'' \<mapsto> example_group]
       (zero_CompileContext\<lparr>ctx_IdentityResolver := Some (snd (IdentityCache_Identity NewIdentityCache ''endpoint:x''))\<rparr>) 0 of
      Inl e \<Rightarrow> False | Inr (program, resolver) \<Rightarrow> \<exists>c'. resolver = Some c' \<and> cache_valid c')"
proof -
  let ?c = "snd (IdentityCache_Identity NewIdentityCache ''endpoint:x'')"
  have v: "cache_valid ?c" by (rule cache.Identity_snd) simp
  obtain program where p: "CompileForEndpointWithContext IdentityCache_Identity example_endpoint [''web'' \<mapsto> example_group]
      zero_CompileContext 0 = Inr (program, None)"
    using example_compiles by (auto simp: CompileForEndpoint_def)
  from compile_cache_independent [of "zero_CompileContext\<lparr>ctx_IdentityResolver := Some ?c\<rparr>" ?c
      example_endpoint "[''web'' \<mapsto> example_group]" 0] v p
  show ?thesis by (auto split: sum.splits)
qed

end
