(* ===== verification/Strings.thy ===== *)
theory Strings
  imports Prelude
begin

text \<open>
  Keys built of strings: joining with a separator the parts do not contain, and decimal numbers, can be
  taken apart again.  The maps of the program that are indexed by such keys rest on these lemmas.
\<close>

section \<open>Joining and splitting\<close>

lemma strings_Split_append_sep: "strings_Split (x @ c # s) c = strings_Split x c @ strings_Split s c"
  by (induction x) (auto split: list.splits)

lemma strings_Split_no_sep: "c \<notin> set x \<Longrightarrow> strings_Split x c = [x]"
  by (induction x) auto

lemma strings_Split_Join_concat:
  "xs \<noteq> [] \<Longrightarrow> strings_Split (strings_Join xs [c]) c = concat (map (\<lambda>x. strings_Split x c) xs)"
  by (induction xs "[c]" rule: strings_Join.induct) (auto simp: strings_Split_append_sep)

lemma strings_Split_Join: "xs \<noteq> [] \<Longrightarrow> \<forall>x \<in> set xs. c \<notin> set x \<Longrightarrow> strings_Split (strings_Join xs [c]) c = xs"
  by (induction xs) (simp_all add: strings_Split_Join_concat strings_Split_no_sep map_idI cong: map_cong)

lemma strings_Join_eq_Nil: "\<forall>x \<in> set xs. x \<noteq> [] \<Longrightarrow> strings_Join xs [c] = [] \<longleftrightarrow> xs = []"
  by (induction xs "[c]" rule: strings_Join.induct) auto

lemma strings_Join_inj:
  assumes "strings_Join xs [c] = strings_Join ys [c]"
    and "\<forall>x \<in> set xs \<union> set ys. c \<notin> set x \<and> x \<noteq> []"
  shows "xs = ys"
proof (cases "xs = [] \<or> ys = []")
  case True
  with assms show ?thesis
    using strings_Join_eq_Nil [of xs c] strings_Join_eq_Nil [of ys c] by auto
next
  case False
  have "xs = strings_Split (strings_Join xs [c]) c"
    using False assms(2) by (intro strings_Split_Join [symmetric]) auto
  also have "\<dots> = strings_Split (strings_Join ys [c]) c"
    by (rule arg_cong [OF assms(1)])
  also have "\<dots> = ys"
    using False assms(2) by (intro strings_Split_Join) auto
  finally show ?thesis .
qed


section \<open>Decimal numbers\<close>

definition is_digit :: "char \<Rightarrow> bool" where
  "is_digit c \<longleftrightarrow> 48 \<le> (of_char c :: nat) \<and> (of_char c :: nat) \<le> 57"

lemma digit_char_digit: "d < 10 \<Longrightarrow> is_digit (digit_char d) \<and> of_char (digit_char d) - 48 = d"
  by (simp add: is_digit_def digit_char_def of_char_mod_256)

definition decimal :: "string \<Rightarrow> nat" where
  "decimal s = foldl (\<lambda>n c. n * 10 + (of_char c - 48)) 0 s"

lemma nat_Itoa_decimal: "decimal (nat_Itoa n) = n \<and> list_all is_digit (nat_Itoa n) \<and> nat_Itoa n \<noteq> []"
  unfolding nat_Itoa_def
proof (induction n rule: less_induct)
  case (less n)
  show ?case
  proof (cases "n < 10")
    case True
    then show ?thesis
      using digit_char_digit [of n] by (subst (1 2 3) digits_base.simps) (simp add: decimal_def)
  next
    case False
    then have "n div 10 < n" by simp
    from less [OF this] False digit_char_digit [of "n mod 10"] show ?thesis
      by (subst (1 2 3) digits_base.simps) (simp add: decimal_def)
  qed
qed

lemma nat_Itoa_inj: "nat_Itoa m = nat_Itoa n \<longleftrightarrow> m = n"
  by (metis nat_Itoa_decimal)

lemma nat_Itoa_chars: "c \<in> set (nat_Itoa n) \<Longrightarrow> is_digit c"
  using nat_Itoa_decimal [of n] by (simp add: list_all_iff)

lemma not_digits: "\<not> is_digit (CHR ''-'')" "\<not> is_digit (CHR '','')" "\<not> is_digit (CHR 0x00)"
  by (simp_all add: is_digit_def)

lemma strconv_Itoa_inj: "strconv_Itoa i = strconv_Itoa j \<longleftrightarrow> i = j"
proof
  assume eq: "strconv_Itoa i = strconv_Itoa j"
  have "nat_Itoa n \<noteq> CHR ''-'' # s" for n s
    using nat_Itoa_chars [of "CHR ''-''" n] not_digits(1) by auto
  with eq show "i = j"
    by (auto simp: strconv_Itoa_def nat_Itoa_inj split: if_splits) (metis)+
qed simp

lemma strconv_Itoa_NUL: "CHR 0x00 \<notin> set (strconv_Itoa i)"
  using nat_Itoa_chars not_digits(3) by (auto simp: strconv_Itoa_def)

text \<open>A suffix of digits after a separator: the key determines what is before it.\<close>

lemma append_sep_inj:
  assumes "x @ c # u = y @ c # v" and "c \<notin> set u" and "c \<notin> set v"
  shows "x = y \<and> u = v"
  using assms by (auto simp: append_eq_append_conv2 append_eq_Cons_conv Cons_eq_append_conv)

end
