(* ===== verification/RuleCompact.thy ===== *)
theory RuleCompact
  imports Compiler Strings
begin

text \<open>
  The compaction of expanded rules in \<open>internal/policy/compiler.go\<close>: the key under which rules are
  grouped tells rules apart that differ in more than their prefix, and compacting keeps, for every
  such rule, the addresses it applies to.  Also when the default deny of a direction is off.
\<close>

section \<open>Keys\<close>

lemma portRangesKey_inj: "portRangesKey ps = portRangesKey qs \<longleftrightarrow> ps = qs"
proof
  assume eq: "portRangesKey ps = portRangesKey qs"
  let ?k = "\<lambda>p. u16_String (port_From p) @ ''-'' @ u16_String (port_To p)"
  have chars: "c \<in> set (u16_String w) \<Longrightarrow> is_digit c" for c w
    by (simp add: u16_String_def nat_Itoa_chars)
  then have no_dash: "CHR ''-'' \<notin> set (u16_String w)" for w
    using not_digits(1) by blast
  have "map ?k ps = map ?k qs"
  proof (rule strings_Join_inj)
    show "strings_Join (map ?k ps) [CHR '',''] = strings_Join (map ?k qs) [CHR '','']"
      using eq by (simp add: portRangesKey_def)
    show "\<forall>x \<in> set (map ?k ps) \<union> set (map ?k qs). CHR '','' \<notin> set x \<and> x \<noteq> []"
      using chars not_digits(2) by auto
  qed
  moreover have "inj (?k :: PortRange \<Rightarrow> string)"
  proof (rule injI)
    fix p q :: PortRange
    assume "?k p = ?k q"
    then have "strings_Split (?k p) (CHR ''-'') = strings_Split (?k q) (CHR ''-'')" by simp
    moreover have "strings_Split (?k x) (CHR ''-'') = [u16_String (port_From x), u16_String (port_To x)]" for x :: PortRange
      by (simp add: strings_Split_append_sep strings_Split_no_sep no_dash)
    ultimately show "p = q" by (simp add: u16_String_def nat_Itoa_inj word_unat_eq_iff)
  qed
  ultimately show "ps = qs" by (simp add: inj_map_eq_map)
qed simp

text \<open>
  Rules as the compiler makes them: no field contains the separator, except that the key of a remote
  endpoint joins a VPC and an endpoint by it, and named ports have valid names.
\<close>

definition clean :: "string \<Rightarrow> bool" where
  "clean s \<longleftrightarrow> CHR 0x00 \<notin> set s"

definition rule_clean :: "Rule \<Rightarrow> bool" where
  "rule_clean r \<longleftrightarrow>
     list_all clean [rule_ID r, rule_VPC r, rule_Direction r, rule_Protocol r, rule_RemoteGroup r, rule_RemoteService r,
       rule_RemoteCIDRGroup r, rule_RemoteEntity r, rule_RemoteFQDN r, rule_Action r, rule_SecurityGroup r] \<and>
     list_all (\<lambda>n. clean n \<and> n \<noteq> [] \<and> CHR '','' \<notin> set n) (rule_NamedPorts r)"

definition rule_template :: "Rule \<Rightarrow> Rule" where
  "rule_template r = r\<lparr>rule_RemoteCIDR := zero_prefix\<rparr>"

lemma clean_Split: "clean s \<Longrightarrow> strings_Split s (CHR 0x00) = [s]"
  by (simp add: clean_def strings_Split_no_sep)

lemma clean_Join: "list_all clean xs \<Longrightarrow> clean (strings_Join xs '','')"
  by (induction xs "'',''" rule: strings_Join.induct) (auto simp: clean_def)

lemma clean_keys [simp]:
  "clean (strconv_Itoa i)" "clean (uint8PtrKey v)" "clean (bool_String b)" "clean (portRangesKey ps)"
proof -
  show "clean (portRangesKey ps)"
    unfolding portRangesKey_def
    by (rule clean_Join) (auto simp: list_all_iff clean_def u16_String_def not_digits(3) dest: nat_Itoa_chars)
qed (auto simp: clean_def strconv_Itoa_NUL uint8PtrKey_def bool_String_def not_digits(3) dest: nat_Itoa_chars split: option.splits)

lemma key_inj [simp]:
  "uint8PtrKey v = uint8PtrKey w \<longleftrightarrow> v = w" "bool_String b = bool_String b' \<longleftrightarrow> b = b'"
  using nat_Itoa_decimal
  by (auto simp: uint8PtrKey_def bool_String_def nat_Itoa_inj word_unat_eq_iff split: option.splits) metis+

lemma ruleCompactionKey_inj:
  assumes "rule_clean r" and "rule_clean s"
  shows "ruleCompactionKey r = ruleCompactionKey s \<longleftrightarrow> rule_template r = rule_template s"
proof
  let ?pre = "\<lambda>r. [rule_ID r, rule_VPC r, strconv_Itoa (rule_Tier r), strconv_Itoa (rule_Priority r),
       rule_Direction r, rule_Protocol r, rule_RemoteGroup r, rule_RemoteService r,
       rule_RemoteCIDRGroup r, rule_RemoteEntity r]"
  let ?post = "\<lambda>r. [rule_RemoteFQDN r,
       portRangesKey (rule_Ports r), strings_Join (rule_NamedPorts r) '','',
       uint8PtrKey (rule_ICMPType r), uint8PtrKey (rule_ICMPCode r), rule_Action r,
       bool_String (rule_Stateful r), bool_String (rule_Log r), rule_SecurityGroup r]"
  have parts: "strings_Split (ruleCompactionKey x) (CHR 0x00) =
      ?pre x @ strings_Split (rule_RemoteEndpoint x) (CHR 0x00) @ ?post x" if "rule_clean x" for x
  proof -
    have "clean (strings_Join (rule_NamedPorts x) '','')"
      by (rule clean_Join) (use that in \<open>auto simp: rule_clean_def list_all_iff\<close>)
    with that show ?thesis
      by (simp add: ruleCompactionKey_def strings_Split_append_sep rule_clean_def clean_Split)
  qed
  assume "ruleCompactionKey r = ruleCompactionKey s"
  then have "strings_Split (ruleCompactionKey r) (CHR 0x00) = strings_Split (ruleCompactionKey s) (CHR 0x00)"
    by simp
  then have eq: "?pre r @ strings_Split (rule_RemoteEndpoint r) (CHR 0x00) @ ?post r =
      ?pre s @ strings_Split (rule_RemoteEndpoint s) (CHR 0x00) @ ?post s"
    by (simp only: parts [OF assms(1)] parts [OF assms(2)])
  have pre: "?pre r = ?pre s"
    using arg_cong [OF eq, of "take 10"] by simp
  have rest: "strings_Split (rule_RemoteEndpoint r) (CHR 0x00) @ ?post r =
      strings_Split (rule_RemoteEndpoint s) (CHR 0x00) @ ?post s"
    using arg_cong [OF eq, of "drop 10"] by simp
  then have "length (strings_Split (rule_RemoteEndpoint r) (CHR 0x00)) = length (strings_Split (rule_RemoteEndpoint s) (CHR 0x00))"
    by (drule_tac arg_cong [where f = length]) simp
  with rest have split: "strings_Split (rule_RemoteEndpoint r) (CHR 0x00) = strings_Split (rule_RemoteEndpoint s) (CHR 0x00)"
    and post: "?post r = ?post s"
    by simp_all
  have "rule_RemoteEndpoint r = rule_RemoteEndpoint s"
    using split by (metis strings_Join_Split)
  moreover have "rule_NamedPorts r = rule_NamedPorts s"
    using assms post by (intro strings_Join_inj [where c = "CHR '',''"]) (auto simp: rule_clean_def list_all_iff)
  ultimately show "rule_template r = rule_template s"
    using pre post by (simp add: rule_template_def strconv_Itoa_inj portRangesKey_inj)
next
  assume eq: "rule_template r = rule_template s"
  have "ruleCompactionKey x = ruleCompactionKey (rule_template x)" for x
    by (simp add: ruleCompactionKey_def rule_template_def)
  with eq show "ruleCompactionKey r = ruleCompactionKey s" by metis
qed

section \<open>Compaction\<close>

lemma map_of_gomap_append:
  "map_of (gomap_append k xs m) = (map_of m)(k \<mapsto> (case map_of m k of None \<Rightarrow> [] | Some ys \<Rightarrow> ys) @ xs)"
  by (simp add: gomap_append_def update_conv')

lemma group_rules_step: "group_rules (rs @ [r]) = gomap_append (ruleCompactionKey r) [r] (group_rules rs)"
  by (simp add: group_rules_def)

lemma group_rules_keys: "distinct (map fst (group_rules rs))"
  by (induction rs rule: rev_induct)
    (auto simp: group_rules_step gomap_append_def distinct_update, simp add: group_rules_def)

lemma map_of_group_rules:
  "map_of (group_rules rs) k =
     (let g = filter (\<lambda>r. ruleCompactionKey r = k) rs in if g = [] then None else Some g)"
proof (induction rs rule: rev_induct)
  case Nil
  then show ?case by (simp add: group_rules_def)
next
  case (snoc r rs)
  then show ?case by (auto simp: group_rules_step map_of_gomap_append Let_def)
qed

lemma set_group_rules:
  "snd ` set (group_rules rs) = (\<lambda>r. filter (\<lambda>s. ruleCompactionKey s = ruleCompactionKey r) rs) ` set rs"
proof -
  have "(k, g) \<in> set (group_rules rs) \<longleftrightarrow> g \<noteq> [] \<and> g = filter (\<lambda>r. ruleCompactionKey r = k) rs" for k g
    using map_of_group_rules [of rs k] map_of_eq_Some_iff [OF group_rules_keys [of rs], of k g] by (auto simp: Let_def split: if_splits)
  note mem = this
  show ?thesis
  proof (intro set_eqI iffI)
    fix g assume "g \<in> snd ` set (group_rules rs)"
    then obtain k where "(k, g) \<in> set (group_rules rs)" by auto
    with mem have ne: "g \<noteq> []" and g: "g = filter (\<lambda>r. ruleCompactionKey r = k) rs" by blast+
    from ne have "hd g \<in> set g" by simp
    with g have "hd g \<in> set (filter (\<lambda>r. ruleCompactionKey r = k) rs)" by (rule subst)
    then have rs: "hd g \<in> set rs" and k: "ruleCompactionKey (hd g) = k" by simp_all
    have "g = filter (\<lambda>s. ruleCompactionKey s = ruleCompactionKey (hd g)) rs"
      unfolding k by (rule g)
    then show "g \<in> (\<lambda>r. filter (\<lambda>s. ruleCompactionKey s = ruleCompactionKey r) rs) ` set rs"
      using rs by (rule image_eqI)
  next
    fix g assume "g \<in> (\<lambda>r. filter (\<lambda>s. ruleCompactionKey s = ruleCompactionKey r) rs) ` set rs"
    then obtain r where "r \<in> set rs" and "g = filter (\<lambda>s. ruleCompactionKey s = ruleCompactionKey r) rs" by blast
    then have "(ruleCompactionKey r, g) \<in> set (group_rules rs)" by (auto simp: mem filter_empty_conv)
    then show "g \<in> snd ` set (group_rules rs)" by (rule image_eqI [rotated]) simp
  qed
qed

text \<open>The addresses to which the rules with a given template apply.\<close>

definition applies :: "Rule list \<Rightarrow> Rule \<Rightarrow> addr set" where
  "applies rs t = (\<Union>r \<in> {r \<in> set rs. rule_template r = t}. prefix_addrs (rule_RemoteCIDR r))"

definition rule_cidr_ok :: "Rule \<Rightarrow> bool" where
  "rule_cidr_ok r \<longleftrightarrow> prefix_wf (rule_RemoteCIDR r) \<and> prefix_IsValid (rule_RemoteCIDR r)"

lemma applies_same_template:
  "\<forall>r \<in> set rs. rule_template r = t \<Longrightarrow> applies rs t' = (if t' = t then cover (map rule_RemoteCIDR rs) else {})"
  by (auto simp: applies_def cover_def)

lemma applies_compact_group:
  assumes "\<forall>r \<in> set g. rule_cidr_ok r \<and> rule_template r = t" and "g \<noteq> []"
  shows "applies (compact_group g) t' = applies g t'" and "\<forall>r \<in> set (compact_group g). rule_template r = t"
proof -
  let ?cs = "map (\<lambda>r. prefix_Masked (rule_RemoteCIDR r)) g"
  have canon: "\<forall>c \<in> set ?cs. canonical c"
    using assms by (auto simp: rule_cidr_ok_def)
  have hd: "rule_template ((hd g)\<lparr>rule_RemoteCIDR := c\<rparr>) = t" for c
    using assms by (simp add: rule_template_def)
  have "cover ?cs = (\<Union>r \<in> set g. prefix_addrs (rule_RemoteCIDR r))"
    using assms(1) by (simp add: cover_def rule_cidr_ok_def)
  with compactCIDRs_result [OF canon] have cover: "cover (compactCIDRs ?cs) = (\<Union>r \<in> set g. prefix_addrs (rule_RemoteCIDR r))"
    by simp
  show same: "\<forall>r \<in> set (compact_group g). rule_template r = t"
    using assms(1) hd by (simp add: compact_group_def del: not_None_eq)
  have "cover (map rule_RemoteCIDR g) = cover (compactCIDRs ?cs)"
    unfolding cover by (simp add: cover_def)
  then have "cover (map rule_RemoteCIDR (compact_group g)) = cover (map rule_RemoteCIDR g)"
    by (simp add: compact_group_def o_def)
  then show "applies (compact_group g) t' = applies g t'"
    using assms(1) same by (simp add: applies_same_template [where t = t])
qed

lemma applies_concat: "applies (concat rss) t = (\<Union>rs \<in> set rss. applies rs t)"
  by (auto simp: applies_def)

text \<open>
  C12. Compacting the expanded rules of a security group rule changes neither which rules there are,
  up to their prefix, nor the addresses each of them applies to.
\<close>

theorem compactEquivalentCIDRRules_exact:
  assumes "\<forall>r \<in> set rules. rule_clean r \<and> rule_cidr_ok r"
  shows "applies (compactEquivalentCIDRRules rules) t = applies rules t \<and>
    rule_template ` set (compactEquivalentCIDRRules rules) \<subseteq> rule_template ` set rules"
proof (cases "length rules < 2")
  case True
  then show ?thesis by (simp add: compactEquivalentCIDRRules_def)
next
  case False
  let ?g = "\<lambda>r. filter (\<lambda>s. ruleCompactionKey s = ruleCompactionKey r) rules"
  have template: "rule_template s = rule_template r"
    if "s \<in> set rules" and "r \<in> set rules" and "ruleCompactionKey s = ruleCompactionKey r" for r s
    using assms that ruleCompactionKey_inj [of s r] by simp
  have g: "\<forall>s \<in> set (?g r). rule_cidr_ok s \<and> rule_template s = rule_template r" "?g r \<noteq> []" if "r \<in> set rules" for r
  proof -
    show "\<forall>s \<in> set (?g r). rule_cidr_ok s \<and> rule_template s = rule_template r"
    proof
      fix s assume "s \<in> set (?g r)"
      then have "s \<in> set rules" and "ruleCompactionKey s = ruleCompactionKey r" by simp_all
      with template [OF this(1) that this(2)] assms show "rule_cidr_ok s \<and> rule_template s = rule_template r" by blast
    qed
    show "?g r \<noteq> []" using that by (auto simp: filter_empty_conv)
  qed
  have groups: "set (map (compact_group \<circ> snd) (group_rules rules)) = (\<lambda>r. compact_group (?g r)) ` set rules"
    using arg_cong [OF set_group_rules [of rules], of "\<lambda>A. compact_group ` A"] by (simp add: image_image)
  have "applies (compactEquivalentCIDRRules rules) t = (\<Union>r \<in> set rules. applies (compact_group (?g r)) t)"
    using False by (simp add: compactEquivalentCIDRRules_def applies_concat groups del: set_map)
  also have "\<dots> = (\<Union>r \<in> set rules. applies (?g r) t)"
    using applies_compact_group(1) [OF g] by simp
  also have "\<dots> = applies rules t"
    by (auto simp: applies_def)
  finally have "applies (compactEquivalentCIDRRules rules) t = applies rules t" .
  moreover have "rule_template s \<in> rule_template ` set rules" if "s \<in> set (compactEquivalentCIDRRules rules)" for s
  proof -
    from that False have "s \<in> (\<Union>xs \<in> set (map (compact_group \<circ> snd) (group_rules rules)). set xs)"
      by (simp add: compactEquivalentCIDRRules_def)
    then obtain r where "r \<in> set rules" and "s \<in> set (compact_group (?g r))"
      unfolding groups by blast
    with applies_compact_group(2) [OF g] show ?thesis by auto
  qed
  ultimately show ?thesis by auto
qed

theorem compactEquivalentCIDRRules_exact_witness:
  "let r = zero_Rule\<lparr>rule_ID := ''web'', rule_Action := ActionAllow\<rparr>;
       rules = [r\<lparr>rule_RemoteCIDR := Prefix (V4 0) 2\<rparr>, r\<lparr>rule_RemoteCIDR := Prefix (V4 0x80000000) 2\<rparr>]
   in applies (compactEquivalentCIDRRules rules) r = applies rules r \<and> V4 7 \<in> applies rules r"
proof -
  let ?r = "zero_Rule\<lparr>rule_ID := ''web'', rule_Action := ActionAllow\<rparr>"
  let ?rules = "[?r\<lparr>rule_RemoteCIDR := Prefix (V4 0) 2\<rparr>, ?r\<lparr>rule_RemoteCIDR := Prefix (V4 0x80000000) 2\<rparr>]"
  have clean: "\<forall>r \<in> set ?rules. rule_clean r \<and> rule_cidr_ok r"
    by (simp add: rule_clean_def clean_def zero_Rule_def rule_cidr_ok_def prefix_IsValid_def)
  have "prefix_Contains (Prefix (V4 0) 2) (V4 7)" by code_simp
  moreover have "rule_template (hd ?rules) = ?r"
    by (simp add: rule_template_def zero_Rule_def)
  ultimately have "V4 7 \<in> applies ?rules ?r"
    unfolding applies_def by (intro UN_I [of "hd ?rules"]) (simp_all add: prefix_addrs_def)
  then show ?thesis
    unfolding Let_def using compactEquivalentCIDRRules_exact [OF clean, of ?r] by blast
qed


section \<open>Default deny\<close>

definition default_deny_setting :: "SecurityGroup \<Rightarrow> Direction \<Rightarrow> bool option" where
  "default_deny_setting g direction =
     (if direction = DirectionIngress then sg_DefaultDenyIngress g else sg_DefaultDenyEgress g)"

lemma default_deny_disabled_iff:
  assumes "direction = DirectionIngress \<or> direction = DirectionEgress"
  shows "default_deny_disabled b gs direction \<longleftrightarrow>
    (b \<or> (\<exists>g \<in> set gs. default_deny_setting g direction = Some False)) \<and>
    (\<forall>g \<in> set gs. default_deny_setting g direction = Some False \<or>
       default_deny_setting g direction = None \<and> \<not> hasRulesForDirection (sg_Rules g) direction)"
  using assms
  by (induction b gs direction rule: default_deny_disabled.induct) (auto simp: default_deny_setting_def Let_def)

text \<open>
  The default deny of a direction is off exactly if some attached group switches it off, no group
  switches it on, and no group without a setting has a rule in that direction.
\<close>

theorem defaultDenyDisabledForDirection_iff:
  "defaultDenyDisabledForDirection groups direction \<longleftrightarrow>
    (direction = DirectionIngress \<or> direction = DirectionEgress) \<and>
    (\<exists>g \<in> set groups. default_deny_setting g direction = Some False) \<and>
    (\<forall>g \<in> set groups. default_deny_setting g direction \<noteq> Some True \<and>
       (default_deny_setting g direction = None \<longrightarrow> (\<forall>r \<in> set (sg_Rules g). sgr_Direction r \<noteq> direction)))"
proof (cases "direction = DirectionIngress \<or> direction = DirectionEgress")
  case True
  have setting: "(x = Some False \<or> x = None \<and> P) \<longleftrightarrow> x \<noteq> Some True \<and> (x = None \<longrightarrow> P)" for x P
    by (cases x) auto
  show ?thesis
    using True by (auto simp: defaultDenyDisabledForDirection_def default_deny_disabled_iff [OF True] setting
        hasRulesForDirection_def list_ex_iff)
next
  case False
  then show ?thesis
    by (cases groups) (auto simp: defaultDenyDisabledForDirection_def)
qed

theorem defaultDenyDisabledForDirection_iff_witness:
  "defaultDenyDisabledForDirection [example_group] DirectionIngress \<and>
   \<not> defaultDenyDisabledForDirection [example_group] DirectionEgress"
  using defaultDenyDisabledForDirection_iff [of "[example_group]" DirectionIngress]
    defaultDenyDisabledForDirection_iff [of "[example_group]" DirectionEgress]
  by (simp add: default_deny_setting_def example_group_def)

end
