(* ===== verification/Fqdn.thy ===== *)
theory Fqdn
  imports Expand
begin

text \<open>
  What a pattern of an FQDN selector matches.  The code turns the pattern into a regular expression
  (\<open>fqdnPatternRegexp\<close>); here its meaning is written directly, and the two are shown to agree for
  every pattern that passes validation.
\<close>

section \<open>The meaning of a pattern\<close>

text \<open>
  An asterisk stands for a run of label characters, hence never for a dot; every other character
  stands for itself; a leading \<open>**.\<close> stands for one or more whole labels.
\<close>

fun wild_match :: "string \<Rightarrow> string \<Rightarrow> bool" where
  "wild_match [] s \<longleftrightarrow> s = []"
| "wild_match (c # p) s \<longleftrightarrow>
     (if c = CHR ''*'' then \<exists>u v. s = u @ v \<and> list_all label_char u \<and> wild_match p v
      else \<exists>v. s = c # v \<and> wild_match p v)"

inductive fqdn_match :: "string \<Rightarrow> string \<Rightarrow> bool" where
  wild: "\<not> strings_HasPrefix p ''**.'' \<Longrightarrow> wild_match p s \<Longrightarrow> fqdn_match p s"
| labels: "dotted_labels u \<Longrightarrow> fqdn_match p s \<Longrightarrow> fqdn_match (''**.'' @ p) (u @ s)"

definition pattern_char :: "char \<Rightarrow> bool" where
  "pattern_char c \<longleftrightarrow> label_char c \<or> c = CHR ''.'' \<or> c = CHR ''*''"


section \<open>Regular expressions\<close>

fun pattern_items :: "string \<Rightarrow> re_item list" where
  "pattern_items [] = []"
| "pattern_items [c] = [if c = CHR ''*'' then ReStar else ReByte c]"
| "pattern_items (c # d # p) =
     (if c = CHR ''*'' then if d = CHR ''*'' then pattern_items (d # p) else ReStar # pattern_items (d # p)
      else ReByte c # pattern_items (d # p))"

lemma list_ex_take_drop:
  "list_ex (\<lambda>k. P (take k s) \<and> Q (drop k s)) [0..<Suc (length s)] \<longleftrightarrow> (\<exists>u v. s = u @ v \<and> P u \<and> Q v)"
proof
  assume "\<exists>u v. s = u @ v \<and> P u \<and> Q v"
  then obtain u v where "s = u @ v" and "P u" and "Q v" by blast
  then show "list_ex (\<lambda>k. P (take k s) \<and> Q (drop k s)) [0..<Suc (length s)]"
    unfolding list_ex_iff by (intro bexI [of _ "length u"]) auto
qed (auto simp: list_ex_iff intro: append_take_drop_id [symmetric])

lemma re_match_simps:
  "re_match (ReByte c # is) s \<longleftrightarrow> (\<exists>v. s = c # v \<and> re_match is v)"
  "re_match (ReStar # is) s \<longleftrightarrow> (\<exists>u v. s = u @ v \<and> list_all label_char u \<and> re_match is v)"
  "re_match (ReLabels # is) s \<longleftrightarrow> (\<exists>u v. s = u @ v \<and> dotted_labels u \<and> re_match is v)"
  by (cases s; auto) (simp_all add: list_ex_take_drop del: upt_Suc)

lemma wild_match_Cons:
  "wild_match (CHR ''*'' # p) s \<longleftrightarrow> (\<exists>u v. s = u @ v \<and> list_all label_char u \<and> wild_match p v)"
  "c \<noteq> CHR ''*'' \<Longrightarrow> wild_match (c # p) s \<longleftrightarrow> (\<exists>v. s = c # v \<and> wild_match p v)"
  by simp_all

declare wild_match.simps(2) [simp del] re_match.simps(2) [simp del]

lemma wild_match_two_asterisks: "wild_match (CHR ''*'' # CHR ''*'' # p) s \<longleftrightarrow> wild_match (CHR ''*'' # p) s"
proof
  assume "wild_match (CHR ''*'' # CHR ''*'' # p) s"
  then obtain u u' v where s: "s = u @ u' @ v" and "list_all label_char u" "list_all label_char u'" "wild_match p v"
    by (auto simp: wild_match_Cons)
  then have "s = (u @ u') @ v \<and> list_all label_char (u @ u') \<and> wild_match p v" by simp
  then show "wild_match (CHR ''*'' # p) s"
    unfolding wild_match_Cons by blast
next
  assume "wild_match (CHR ''*'' # p) s"
  then show "wild_match (CHR ''*'' # CHR ''*'' # p) s"
    by (subst wild_match_Cons) (intro exI [of _ "[]"] exI [of _ s], simp)
qed

lemma re_match_items: "re_match (pattern_items p) s \<longleftrightarrow> wild_match p s"
proof (induction p arbitrary: s rule: pattern_items.induct)
  case (2 c)
  then show ?case by (cases "c = CHR ''*''") (auto simp: re_match_simps wild_match_Cons)
next
  case (3 c d p)
  consider "c = CHR ''*''" "d = CHR ''*''" | "c = CHR ''*''" "d \<noteq> CHR ''*''" | "c \<noteq> CHR ''*''" by blast
  then show ?case
  proof cases
    case 1
    with 3 show ?thesis by (simp add: wild_match_two_asterisks)
  next
    case 2
    with 3 show ?thesis by (simp add: re_match_simps wild_match_Cons(1))
  next
    case c: 3
    with 3 show ?thesis by (simp add: re_match_simps wild_match_Cons(2) [OF c])
  qed
qed simp


section \<open>The regular expression of a pattern\<close>

lemma pattern_items_asterisks:
  "pattern_items (CHR ''*'' # p) = ReStar # pattern_items (dropWhile (\<lambda>x. x = CHR ''*'') p)"
proof (induction p)
  case (Cons d p)
  then show ?case by (cases p) auto
qed simp

lemma pattern_items_Cons: "c \<noteq> CHR ''*'' \<Longrightarrow> pattern_items (c # p) = ReByte c # pattern_items p"
  by (cases p) auto

abbreviation escape :: "string \<Rightarrow> string" where
  "escape p \<equiv> strings_ReplaceAll p (CHR ''.'') [CHR 0x5C, CHR ''.'']"

lemma escape_simps [simp]:
  "escape [] = []" "escape (c # p) = (if c = CHR ''.'' then [CHR 0x5C, CHR ''.''] else [c]) @ escape p"
  by (simp_all add: strings_ReplaceAll_def)

lemma dropWhile_escape: "dropWhile (\<lambda>x. x = CHR ''*'') (escape p) = escape (dropWhile (\<lambda>x. x = CHR ''*'') p)"
  by (induction p) auto

lemma HasPrefix_Cons: "strings_HasPrefix (c # s) (d # p) \<longleftrightarrow> c = d \<and> strings_HasPrefix s p"
  by (auto simp: strings_HasPrefix_def)

lemma re_parse_star: "re_parse (''[-a-z0-9_]*'' @ s) = map_option (Cons ReStar) (re_parse s)"
  by (subst re_parse.simps) (simp add: strings_HasPrefix_def)

lemma re_parse_labels: "re_parse (re_labels @ s) = map_option (Cons ReLabels) (re_parse s)"
  by (subst re_parse.simps) (simp add: strings_HasPrefix_def)

lemma re_parse_dot: "re_parse (CHR 0x5C # CHR ''.'' # s) = map_option (Cons (ReByte (CHR ''.''))) (re_parse s)"
  by (subst re_parse.simps) (simp add: strings_HasPrefix_def)

lemma re_parse_byte: "label_char c \<Longrightarrow> re_parse (c # s) = map_option (Cons (ReByte c)) (re_parse s)"
  by (subst re_parse.simps) (auto simp: HasPrefix_Cons re_meta_def label_char_def)

lemma re_parse_pattern:
  "list_all pattern_char p \<Longrightarrow> re_parse (replace_asterisks (escape p) ''[-a-z0-9_]*'') = Some (pattern_items p)"
proof (induction p rule: length_induct)
  case (1 p)
  show ?case
  proof (cases p)
    case Nil
    then show ?thesis by (simp add: re_parse.simps)
  next
    case (Cons c q)
    let ?r = "dropWhile (\<lambda>x. x = CHR ''*'') q"
    have r: "length ?r < length p" "list_all pattern_char ?r"
      using 1(2) Cons by (auto simp: list_all_iff less_Suc_eq_le length_dropWhile_le dest: set_dropWhileD)
    have q: "length q < length p" "list_all pattern_char q" using 1(2) Cons by auto
    consider "c = CHR ''*''" | "c = CHR ''.''" | "label_char c" "c \<noteq> CHR ''*''" "c \<noteq> CHR ''.''"
      using 1(2) Cons by (auto simp: pattern_char_def)
    then show ?thesis
    proof cases
      case 1
      with 1 \<open>\<forall>p'. _\<close> r Cons show ?thesis
        by (simp add: dropWhile_escape re_parse_star [simplified] pattern_items_asterisks)
    next
      case 2
      with \<open>\<forall>p'. _\<close> q Cons show ?thesis
        by (simp add: re_parse_dot pattern_items_Cons)
    next
      case 3
      with \<open>\<forall>p'. _\<close> q Cons show ?thesis
        by (simp add: re_parse_byte pattern_items_Cons)
    qed
  qed
qed

lemma HasPrefix_obtain: "strings_HasPrefix s p \<Longrightarrow> \<exists>t. s = p @ t"
  by (metis append_take_drop_id strings_HasPrefix_def)

lemma HasPrefix_append [simp]: "strings_HasPrefix (p @ t) p"
  by (simp add: strings_HasPrefix_def)

lemma fqdn_match_simps:
  "fqdn_match (''**.'' @ p) s \<longleftrightarrow> (\<exists>u v. s = u @ v \<and> dotted_labels u \<and> fqdn_match p v)"
  "\<not> strings_HasPrefix p ''**.'' \<Longrightarrow> fqdn_match p s \<longleftrightarrow> wild_match p s"
proof -
  have "strings_HasPrefix (''**.'' @ p) ''**.''" by (rule HasPrefix_append)
  then show "fqdn_match (''**.'' @ p) s \<longleftrightarrow> (\<exists>u v. s = u @ v \<and> dotted_labels u \<and> fqdn_match p v)"
    by (subst fqdn_match.simps) auto
  show "fqdn_match p s \<longleftrightarrow> wild_match p s" if "\<not> strings_HasPrefix p ''**.''"
    using that by (subst fqdn_match.simps) (auto simp: strings_HasPrefix_def)
qed

lemma regexp_of_pattern:
  "list_all pattern_char p \<Longrightarrow>
   \<exists>items. re_parse (fqdnPatternRegexp p) = Some items \<and> (\<forall>s. re_match items s \<longleftrightarrow> fqdn_match p s)"
proof (induction p rule: length_induct)
  case (1 p)
  show ?case
  proof (cases "strings_HasPrefix p ''**.''")
    case True
    then obtain q where p: "p = ''**.'' @ q" using HasPrefix_obtain by blast
    then have "length q < length p" and "list_all pattern_char q" using 1(2) by auto
    with 1(1) obtain items where items: "re_parse (fqdnPatternRegexp q) = Some items"
      "\<forall>s. re_match items s \<longleftrightarrow> fqdn_match q s" by blast
    have "strings_TrimPrefix p ''**.'' = q" unfolding p by (simp add: strings_TrimPrefix_def strings_HasPrefix_def)
    with True have "fqdnPatternRegexp p = re_labels @ fqdnPatternRegexp q"
      by (subst fqdnPatternRegexp.simps) simp
    with items have "re_parse (fqdnPatternRegexp p) = Some (ReLabels # items)"
      by (simp only: re_parse_labels option.map)
    moreover have "re_match (ReLabels # items) s \<longleftrightarrow> fqdn_match p s" for s
      unfolding p fqdn_match_simps(1) re_match_simps using items(2) by simp
    ultimately show ?thesis by blast
  next
    case False
    then have "fqdnPatternRegexp p = replace_asterisks (escape p) ''[-a-z0-9_]*''"
      by (subst fqdnPatternRegexp.simps) simp
    with 1(2) have "re_parse (fqdnPatternRegexp p) = Some (pattern_items p)"
      by (simp only: re_parse_pattern)
    with False show ?thesis
      by (auto simp: re_match_items fqdn_match_simps(2))
  qed
qed

lemma regexp_Compile_anchored:
  "regexp_Compile (''^'' @ s @ ''$'') =
     (case re_parse s of None \<Rightarrow> Inl (Errorf ''error parsing regexp: %s'' [''^'' @ s @ ''$'']) | Some items \<Rightarrow> Inr items)"
  by (simp add: regexp_Compile_def strings_HasPrefix_def strings_HasSuffix_def butlast_append split: option.splits)

text \<open>The characters of a pattern that passes validation.\<close>

lemma set_strings_Join: "set (strings_Join xs [c]) \<subseteq> insert c (\<Union>x \<in> set xs. set x)"
  by (induction xs "[c]" rule: strings_Join.induct) auto

lemma set_strings_Split: "set s \<subseteq> insert c (\<Union>l \<in> set (strings_Split s c). set l)"
  using set_strings_Join [of "strings_Split s c" c] by (simp add: strings_Join_Split)

lemma strings_TrimSuffix_subset: "set (strings_TrimSuffix s p) \<subseteq> set s"
  by (auto simp: strings_TrimSuffix_def dest: in_set_takeD)

lemma to_lower_dns: "dns_label_rune True (of_char c) \<Longrightarrow> pattern_char (to_lower_char c)"
proof -
  assume "dns_label_rune True (of_char c)"
  then consider "65 \<le> (of_char c :: nat) \<and> (of_char c :: nat) \<le> 90"
    | "\<not> (65 \<le> (of_char c :: nat) \<and> (of_char c :: nat) \<le> 90)" "dns_label_rune True (of_char c)" by blast
  then show ?thesis
  proof cases
    case 1
    then have "(of_char (char_of (of_char c + 32 :: nat)) :: nat) = of_char c + 32"
      by (simp add: of_char_of)
    with 1 show ?thesis
      by (simp add: to_lower_char_def pattern_char_def label_char_def Let_def)
  next
    case 2
    then have "of_char c = (45 :: nat) \<longrightarrow> c = CHR ''-''" "of_char c = (95 :: nat) \<longrightarrow> c = CHR ''_''"
      "of_char c = (42 :: nat) \<longrightarrow> c = CHR ''*''"
      using of_char_eq_iff [where 'a = nat, of c "CHR ''-''"] of_char_eq_iff [where 'a = nat, of c "CHR ''_''"]
        of_char_eq_iff [where 'a = nat, of c "CHR ''*''"] by simp_all
    with 2 show ?thesis
      by (auto simp: to_lower_char_def pattern_char_def label_char_def dns_label_rune_def Let_def)
  qed
qed

lemma pattern_chars:
  assumes "is_ok (validateDNSName pattern True)"
  shows "list_all pattern_char (normalizeDNSName (strings_TrimSpace pattern))"
proof -
  let ?p = "strings_TrimSpace pattern"
  have labels: "\<forall>l \<in> set (strings_Split (strip_root ?p) (CHR ''.'')). dns_label_ok True l"
    using assms by (simp add: validateDNSName_ok Let_def)
  have "set ?p \<subseteq> insert (CHR ''.'') (set (strip_root ?p))"
  proof (cases "strings_HasSuffix ?p ''.''")
    case True
    then obtain q where "?p = q @ ''.''" by (cases ?p rule: rev_cases) (auto simp: strings_HasSuffix_char)
    with True show ?thesis by (simp add: strip_root_def strings_TrimSuffix_def)
  qed (auto simp: strip_root_def)
  moreover have "dns_label_rune True (of_char c) \<or> c = CHR ''.''" if "c \<in> set (strip_root ?p)" for c
  proof -
    have "c = CHR ''.'' \<or> (\<exists>l \<in> set (strings_Split (strip_root ?p) (CHR ''.'')). c \<in> set l)"
      using that set_strings_Split [of "strip_root ?p" "CHR ''.''"] by blast
    with labels show ?thesis unfolding dns_label_ok_def by blast
  qed
  ultimately have "dns_label_rune True (of_char c) \<or> c = CHR ''.''" if "c \<in> set ?p" for c
    using that by blast
  moreover have "pattern_char (to_lower_char (CHR ''.''))"
    by (simp add: pattern_char_def to_lower_char_def)
  ultimately have "pattern_char (to_lower_char c)" if "c \<in> set ?p" for c
    using that to_lower_dns [of c] by blast
  moreover have "set (strings_TrimSpace ?p) \<subseteq> set ?p"
    unfolding strings_TrimSpace_def [of ?p] by (auto dest!: set_dropWhileD)
  moreover have "set (normalizeDNSName ?p) \<subseteq> to_lower_char ` set (strings_TrimSpace ?p)"
    unfolding normalizeDNSName_def strings_ToLower_def
    by (rule order_trans [OF strings_TrimSuffix_subset]) simp
  ultimately show ?thesis
    unfolding list_all_iff by blast
qed

text \<open>
  C27. For every pattern that passes validation, matching a name by the regular expression the code
  builds gives what the pattern means: an asterisk never reaches across a dot, and a leading
  \<open>**.\<close> stands for one or more labels. Compiling the expression never fails.
\<close>

theorem fqdnPatternMatches_meaning:
  assumes "is_ok (validateDNSName pattern True)"
  shows "fqdnPatternMatches pattern name =
    Inr (fqdn_match (normalizeDNSName (strings_TrimSpace pattern)) (normalizeDNSName name))"
  using regexp_of_pattern [OF pattern_chars [OF assms]]
  by (auto simp: fqdnPatternMatches_def Let_def regexp_Compile_anchored [unfolded append_Cons append_Nil])

theorem fqdnPatternMatches_meaning_witness:
  "fqdnPatternMatches ''*.Example.com'' ''api.example.com'' = Inr True \<and>
   fqdn_match ''*.example.com'' ''api.example.com'' \<and> \<not> fqdn_match ''*.example.com'' ''v1.api.example.com''"
proof -
  have "is_ok (validateDNSName ''*.Example.com'' True)" by code_simp
  moreover have "normalizeDNSName (strings_TrimSpace ''*.Example.com'') = ''*.example.com''"
    "normalizeDNSName ''api.example.com'' = ''api.example.com''"
    "normalizeDNSName ''v1.api.example.com'' = ''v1.api.example.com''" by code_simp+
  moreover have "fqdnPatternMatches ''*.Example.com'' ''api.example.com'' = Inr True"
    "fqdnPatternMatches ''*.Example.com'' ''v1.api.example.com'' = Inr False" by code_simp+
  ultimately show ?thesis
    using fqdnPatternMatches_meaning [of "''*.Example.com''" "''api.example.com''"]
      fqdnPatternMatches_meaning [of "''*.Example.com''" "''v1.api.example.com''"] by simp
qed

end
