(* ===== verification/PolicyMap.thy ===== *)
theory PolicyMap
  imports Compiler
begin

text \<open>
  The dataplane's view of a compiled program, \<open>internal/dataplane/policymap.go\<close>: entries encoded for
  the kernel map, their canonical form (one entry per key, sorted), and the plan that turns the
  entries of an endpoint into the desired ones.  The byte order of the machine is a parameter of the
  functions that depend on it.
\<close>

section \<open>Data\<close>

abbreviation (input) dpDirectionIngress :: u8 where "dpDirectionIngress \<equiv> 1"
abbreviation (input) dpDirectionEgress :: u8 where "dpDirectionEgress \<equiv> 2"
abbreviation (input) StaticPrefixBits :: u32 where "StaticPrefixBits \<equiv> 40"

record PolicyKey =
  pk_PrefixLen :: u32
  pk_RemoteIdentity :: u32
  pk_Direction :: u8
  pk_Protocol :: u8
  pk_DestPortBE :: u16

record PolicyEntry =
  pe_Deny :: u8
  pe_L4PrefixLen :: u8
  pe_Stateful :: u8
  pe_Log :: u8
  pe_Precedence :: u32
  pe_RuleCookie :: u32
  pe_Reject :: u8
  pe_RequireIdentity :: u8
  pe_Packets :: u64
  pe_Bytes :: u64

record PolicyMapEntry =
  pme_Key :: PolicyKey
  pme_Value :: PolicyEntry
  pme_RemoteCIDR :: prefix
  pme_RuleRef :: string

record PolicyUpdateStats =
  stats_Revision :: u64
  stats_Added :: nat
  stats_Updated :: nat
  stats_Deleted :: nat
  stats_Unchanged :: nat

record PolicyUpdatePlan =
  plan_Add :: "PolicyMapEntry list"
  plan_Update :: "PolicyMapEntry list"
  plan_Delete :: "PolicyKey list"
  plan_Unchanged :: "PolicyMapEntry list"

datatype policyUpdateStep = policyUpdateStepAddUpdate | policyUpdateStepDelete

record PolicyMapDrift =
  drift_EndpointID :: string
  drift_Missing :: nat
  drift_Extra :: nat
  drift_Changed :: nat
  drift_Drifted :: bool


section \<open>Encoding\<close>

text \<open>\<open>binary.NativeEndian\<close>: the bytes of a 16-bit number on a little-endian or big-endian machine.\<close>

definition be_PutUint16 :: "u16 \<Rightarrow> u8 \<times> u8" where
  "be_PutUint16 v = (ucast (drop_bit 8 v), ucast v)"

definition be_Uint16 :: "u8 \<times> u8 \<Rightarrow> u16" where
  "be_Uint16 b = (push_bit 8 (ucast (fst b)) OR ucast (snd b))"

definition native_PutUint16 :: "bool \<Rightarrow> u16 \<Rightarrow> u8 \<times> u8" where
  "native_PutUint16 little v = (if little then prod.swap (be_PutUint16 v) else be_PutUint16 v)"

definition native_Uint16 :: "bool \<Rightarrow> u8 \<times> u8 \<Rightarrow> u16" where
  "native_Uint16 little b = be_Uint16 (if little then prod.swap b else b)"

definition hostToNetwork16 :: "bool \<Rightarrow> u16 \<Rightarrow> u16" where
  "hostToNetwork16 little value = native_Uint16 little (be_PutUint16 value)"

definition boolByte :: "bool \<Rightarrow> u8" where
  "boolByte value = (if value then 1 else 0)"

definition stableCookie :: "string \<Rightarrow> u32" where
  "stableCookie value = fold (\<lambda>b out. (out XOR ucast b) * 16777619) (string_bytes value) 2166136261"

definition protocolNumber :: "Protocol \<Rightarrow> u8 result" where
  "protocolNumber protocol =
     (if protocol = '''' \<or> protocol = ProtocolAny then Inr 0
      else if protocol = ProtocolTCP then Inr 6
      else if protocol = ProtocolUDP then Inr 17
      else if protocol = ProtocolICMP then Inr 1
      else if protocol = ProtocolSCTP then Inr 132
      else Inl (Errorf ''unsupported protocol %q'' [protocol]))"

definition protocolNumberForEntry :: "MapEntry \<Rightarrow> u8 result" where
  "protocolNumberForEntry entry =
     (if mk_Protocol (me_Key entry) = ProtocolICMP \<and> prefix_IsValid (me_RemoteCIDR entry) \<and>
         addr_Is6 (prefix_Addr (me_RemoteCIDR entry)) \<and> \<not> addr_Is4 (prefix_Addr (me_RemoteCIDR entry))
      then Inr 58 else protocolNumber (mk_Protocol (me_Key entry)))"

definition directionNumber :: "Direction \<Rightarrow> u8 result" where
  "directionNumber direction =
     (if direction = DirectionIngress then Inr dpDirectionIngress
      else if direction = DirectionEgress then Inr dpDirectionEgress
      else Inl (Errorf ''unsupported direction %q'' [direction]))"

definition policyRuleCookieKey :: "MapEntry \<Rightarrow> string" where
  "policyRuleCookieKey entry = (if me_RuleRef entry \<noteq> '''' then me_RuleRef entry else me_RuleID entry)"

definition EncodeEntry :: "bool \<Rightarrow> MapEntry \<Rightarrow> PolicyMapEntry result" where
  "EncodeEntry little entry =
     bind_result (protocolNumberForEntry entry) (\<lambda>proto.
     bind_result (directionNumber (mk_Direction (me_Key entry))) (\<lambda>direction.
       Inr \<lparr>pme_Key = \<lparr>pk_PrefixLen = StaticPrefixBits + ucast (mk_L4PrefixBits (me_Key entry)),
                        pk_RemoteIdentity = mk_RemoteIdentity (me_Key entry),
                        pk_Direction = direction,
                        pk_Protocol = proto,
                        pk_DestPortBE = hostToNetwork16 little (mk_DestPort (me_Key entry))\<rparr>,
            pme_Value = \<lparr>pe_Deny = boolByte (mv_Deny (me_Value entry)),
                          pe_L4PrefixLen = mk_L4PrefixBits (me_Key entry),
                          pe_Stateful = boolByte (mv_Stateful (me_Value entry)),
                          pe_Log = boolByte (mv_Log (me_Value entry)),
                          pe_Precedence = mv_Precedence (me_Value entry),
                          pe_RuleCookie = stableCookie (policyRuleCookieKey entry),
                          pe_Reject = boolByte (mv_Reject (me_Value entry)),
                          pe_RequireIdentity = boolByte (mv_RequireIdentity (me_Value entry)),
                          pe_Packets = 0, pe_Bytes = 0\<rparr>,
            pme_RemoteCIDR = me_RemoteCIDR entry,
            pme_RuleRef = me_RuleRef entry\<rparr>))"


section \<open>Canonical entries\<close>

definition policyActionPrecedence :: "PolicyEntry \<Rightarrow> nat" where
  "policyActionPrecedence value =
     (if pe_Reject value \<noteq> 0 then 2 else if pe_Deny value \<noteq> 0 then 1 else 0)"

definition betterPolicyMapEntry :: "PolicyMapEntry \<Rightarrow> PolicyMapEntry \<Rightarrow> bool" where
  "betterPolicyMapEntry candidate selected =
     (let c = pme_Value candidate; s = pme_Value selected in
      if pe_Precedence c \<noteq> pe_Precedence s then pe_Precedence c > pe_Precedence s
      else if pe_L4PrefixLen c \<noteq> pe_L4PrefixLen s then pe_L4PrefixLen c > pe_L4PrefixLen s
      else if policyActionPrecedence c \<noteq> policyActionPrecedence s
        then policyActionPrecedence c > policyActionPrecedence s
      else False)"

definition samePolicyMapPriority :: "PolicyMapEntry \<Rightarrow> PolicyMapEntry \<Rightarrow> bool" where
  "samePolicyMapPriority left right \<longleftrightarrow>
     pe_Precedence (pme_Value left) = pe_Precedence (pme_Value right) \<and>
     pe_L4PrefixLen (pme_Value left) = pe_L4PrefixLen (pme_Value right)"

definition comparePolicyKey :: "PolicyKey \<Rightarrow> PolicyKey \<Rightarrow> bool" where
  "comparePolicyKey a b =
     (if pk_PrefixLen a \<noteq> pk_PrefixLen b then pk_PrefixLen a < pk_PrefixLen b
      else if pk_RemoteIdentity a \<noteq> pk_RemoteIdentity b then pk_RemoteIdentity a < pk_RemoteIdentity b
      else if pk_Direction a \<noteq> pk_Direction b then pk_Direction a < pk_Direction b
      else if pk_Protocol a \<noteq> pk_Protocol b then pk_Protocol a < pk_Protocol b
      else pk_DestPortBE a < pk_DestPortBE b)"

definition sortEntries :: "PolicyMapEntry list \<Rightarrow> PolicyMapEntry list" where
  "sortEntries entries = sort_SliceStable (\<lambda>a b. comparePolicyKey (pme_Key a) (pme_Key b)) entries"

definition sortKeys :: "PolicyKey list \<Rightarrow> PolicyKey list" where
  "sortKeys keys = sort_SliceStable comparePolicyKey keys"

definition canonical_step ::
    "PolicyMapEntry \<Rightarrow> (PolicyKey, PolicyMapEntry) gomap \<Rightarrow> (PolicyKey, PolicyMapEntry) gomap result" where
  "canonical_step entry byKey =
     (let conflict = Errorf ''conflicting policy map entries for identical key and remote cidr metadata'' [] in
      case map_of byKey (pme_Key entry) of
        None \<Rightarrow> Inr (AList.update (pme_Key entry) entry byKey)
      | Some existing \<Rightarrow>
          if betterPolicyMapEntry entry existing then
            if pme_RemoteCIDR entry \<noteq> pme_RemoteCIDR existing then Inl conflict
            else Inr (AList.update (pme_Key entry) entry byKey)
          else if pme_RemoteCIDR entry \<noteq> pme_RemoteCIDR existing then Inl conflict
          else if samePolicyMapPriority entry existing \<and> pme_Value entry \<noteq> pme_Value existing then
            Inl (Errorf ''conflicting policy map entries for identical key'' [])
          else Inr byKey)"

definition canonicalPolicyMapEntries :: "PolicyMapEntry list \<Rightarrow> PolicyMapEntry list result" where
  "canonicalPolicyMapEntries entries =
     bind_result (fold_result canonical_step entries []) (\<lambda>byKey. Inr (sortEntries (map snd byKey)))"

definition encode_entries :: "bool \<Rightarrow> MapEntry list \<Rightarrow> PolicyMapEntry list result" where
  "encode_entries little es =
     fold_result (\<lambda>entry entries.
       case EncodeEntry little entry of
         Inl e \<Rightarrow> Inl (Wrapf ''rule %s: %w'' [me_RuleID entry] e)
       | Inr encoded \<Rightarrow> Inr (entries @ [encoded])) es []"

definition EncodeProgram :: "bool \<Rightarrow> Program \<Rightarrow> PolicyMapEntry list result" where
  "EncodeProgram little program =
     bind_result (encode_entries little (prog_MapEntries program)) canonicalPolicyMapEntries"


section \<open>Plans\<close>

definition entryMap :: "PolicyMapEntry list \<Rightarrow> (PolicyKey, PolicyMapEntry) gomap" where
  "entryMap entries = fold (\<lambda>entry out. AList.update (pme_Key entry) entry out) entries []"

definition policyEntrySemanticsEqual :: "PolicyEntry \<Rightarrow> PolicyEntry \<Rightarrow> bool" where
  "policyEntrySemanticsEqual left right \<longleftrightarrow>
     left\<lparr>pe_Packets := 0, pe_Bytes := 0\<rparr> = right\<lparr>pe_Packets := 0, pe_Bytes := 0\<rparr>"

definition policyMapEntriesSemanticsEqual :: "PolicyMapEntry \<Rightarrow> PolicyMapEntry \<Rightarrow> bool" where
  "policyMapEntriesSemanticsEqual left right \<longleftrightarrow>
     policyEntrySemanticsEqual (pme_Value left) (pme_Value right) \<and> pme_RemoteCIDR left = pme_RemoteCIDR right"

definition plan_old ::
    "(PolicyKey, PolicyMapEntry) gomap \<Rightarrow> PolicyKey \<times> PolicyMapEntry \<Rightarrow> PolicyUpdatePlan \<Rightarrow> PolicyUpdatePlan" where
  "plan_old newByKey = (\<lambda>(key, oldEntry) plan.
     case map_of newByKey key of
       None \<Rightarrow> plan\<lparr>plan_Delete := plan_Delete plan @ [key]\<rparr>
     | Some newEntry \<Rightarrow>
         if policyMapEntriesSemanticsEqual oldEntry newEntry
         then plan\<lparr>plan_Unchanged := plan_Unchanged plan @ [newEntry]\<rparr>
         else plan\<lparr>plan_Update := plan_Update plan @ [newEntry]\<rparr>)"

definition plan_new ::
    "(PolicyKey, PolicyMapEntry) gomap \<Rightarrow> PolicyKey \<times> PolicyMapEntry \<Rightarrow> PolicyUpdatePlan \<Rightarrow> PolicyUpdatePlan" where
  "plan_new oldByKey = (\<lambda>(key, newEntry) plan.
     case map_of oldByKey key of
       None \<Rightarrow> plan\<lparr>plan_Add := plan_Add plan @ [newEntry]\<rparr>
     | Some _ \<Rightarrow> plan)"

definition sortPlan :: "PolicyUpdatePlan \<Rightarrow> PolicyUpdatePlan" where
  "sortPlan plan =
     \<lparr>plan_Add = sortEntries (plan_Add plan), plan_Update = sortEntries (plan_Update plan),
      plan_Delete = sortKeys (plan_Delete plan), plan_Unchanged = sortEntries (plan_Unchanged plan)\<rparr>"

definition PlanPolicyUpdate :: "PolicyMapEntry list \<Rightarrow> PolicyMapEntry list \<Rightarrow> PolicyUpdatePlan" where
  "PlanPolicyUpdate oldEntries newEntries =
     (let oldByKey = entryMap oldEntries; newByKey = entryMap newEntries;
          plan = \<lparr>plan_Add = [], plan_Update = [], plan_Delete = [], plan_Unchanged = []\<rparr>;
          plan = fold (plan_old newByKey) oldByKey plan;
          plan = fold (plan_new oldByKey) newByKey plan
      in sortPlan plan)"

definition policyUpdateSequence :: "nat \<Rightarrow> PolicyUpdatePlan \<Rightarrow> u32 \<Rightarrow> bool \<Rightarrow> policyUpdateStep list" where
  "policyUpdateSequence oldEntryCount plan maxEntries fullRewrite =
     (if fullRewrite then [policyUpdateStepAddUpdate]
      else if maxEntries = 0 \<or> oldEntryCount + length (plan_Add plan) \<le> unat maxEntries
        then [policyUpdateStepAddUpdate, policyUpdateStepDelete]
      else [policyUpdateStepDelete, policyUpdateStepAddUpdate])"

definition Plan_Stats :: "PolicyUpdatePlan \<Rightarrow> PolicyUpdateStats" where
  "Plan_Stats p =
     \<lparr>stats_Revision = 0, stats_Added = length (plan_Add p), stats_Updated = length (plan_Update p),
      stats_Deleted = length (plan_Delete p), stats_Unchanged = length (plan_Unchanged p)\<rparr>"

definition deleteEntry :: "PolicyMapEntry list \<Rightarrow> PolicyKey \<Rightarrow> PolicyMapEntry list" where
  "deleteEntry entries key = filter (\<lambda>entry. pme_Key entry \<noteq> key) entries"

fun upsertEntry :: "PolicyMapEntry list \<Rightarrow> PolicyMapEntry \<Rightarrow> PolicyMapEntry list" where
  "upsertEntry [] entry = [entry]"
| "upsertEntry (e # es) entry = (if pme_Key e = pme_Key entry then entry # es else e # upsertEntry es entry)"

definition canonicalPolicyEntries :: "PolicyMapEntry list \<Rightarrow> PolicyMapEntry list" where
  "canonicalPolicyEntries entries = sortEntries entries"


section \<open>Drift\<close>

definition policyEntryRemoteCIDRDrifted :: "prefix \<Rightarrow> prefix \<Rightarrow> bool" where
  "policyEntryRemoteCIDRDrifted desired live = (if \<not> prefix_IsValid live then False else desired \<noteq> live)"

definition DiffPolicyMapEntries :: "string \<Rightarrow> PolicyMapEntry list \<Rightarrow> PolicyMapEntry list \<Rightarrow> PolicyMapDrift" where
  "DiffPolicyMapEntries endpointID desired live =
     (let desiredByKey = entryMap desired; liveByKey = entryMap live;
          missing = length (filter (\<lambda>(key, _). map_of liveByKey key = None) desiredByKey);
          changed = length (filter (\<lambda>(key, desiredEntry).
            case map_of liveByKey key of
              None \<Rightarrow> False
            | Some liveEntry \<Rightarrow>
                \<not> policyEntrySemanticsEqual (pme_Value liveEntry) (pme_Value desiredEntry) \<or>
                policyEntryRemoteCIDRDrifted (pme_RemoteCIDR desiredEntry) (pme_RemoteCIDR liveEntry)) desiredByKey);
          extra = length (filter (\<lambda>(key, _). map_of desiredByKey key = None) liveByKey)
      in \<lparr>drift_EndpointID = endpointID, drift_Missing = missing, drift_Extra = extra, drift_Changed = changed,
          drift_Drifted = (missing \<noteq> 0 \<or> extra \<noteq> 0 \<or> changed \<noteq> 0)\<rparr>)"

section \<open>The order of keys\<close>

interpretation key_order: strict_total_order comparePolicyKey
proof
  fix x y z :: PolicyKey
  show "comparePolicyKey x y \<Longrightarrow> \<not> comparePolicyKey y x"
    by (auto simp: comparePolicyKey_def split: if_splits)
  show "\<not> comparePolicyKey x y \<Longrightarrow> \<not> comparePolicyKey y z \<Longrightarrow> \<not> comparePolicyKey x z"
    by (auto simp: comparePolicyKey_def split: if_splits)
  show "x \<noteq> y \<Longrightarrow> comparePolicyKey x y \<or> comparePolicyKey y x"
    by (auto simp: comparePolicyKey_def split: if_splits intro: PolicyKey.equality)
qed

interpretation entry_key_order: strict_weak_order "\<lambda>a b. comparePolicyKey (pme_Key a) (pme_Key b)"
  using key_order.swo_asym key_order.swo_ntrans by unfold_locales blast+

interpretation better: strict_weak_order betterPolicyMapEntry
proof
  fix x y z :: PolicyMapEntry
  show "betterPolicyMapEntry x y \<Longrightarrow> \<not> betterPolicyMapEntry y x"
    by (auto simp: betterPolicyMapEntry_def Let_def split: if_splits)
  show "\<not> betterPolicyMapEntry x y \<Longrightarrow> \<not> betterPolicyMapEntry y z \<Longrightarrow> \<not> betterPolicyMapEntry x z"
    by (auto simp: betterPolicyMapEntry_def Let_def split: if_splits)
qed

lemma set_sortEntries [simp]: "set (sortEntries es) = set es"
  by (simp add: sortEntries_def)

lemma distinct_keys_sortEntries [simp]: "distinct (map pme_Key (sortEntries es)) \<longleftrightarrow> distinct (map pme_Key es)"
  by (simp add: sortEntries_def)

lemma sorted_sortEntries:
  "distinct (map pme_Key es) \<Longrightarrow> sorted_wrt comparePolicyKey (map pme_Key (sortEntries es))"
proof (rule key_order.sorted_distinct_strict)
  show "sorted_wrt (\<lambda>x y. \<not> comparePolicyKey y x) (map pme_Key (sortEntries es))"
    using entry_key_order.sorted_sort_SliceStable [of es] by (simp add: sortEntries_def sorted_wrt_map)
qed simp


section \<open>Canonical entries: one per key, none worse\<close>

definition dominates :: "PolicyMapEntry \<Rightarrow> PolicyMapEntry \<Rightarrow> bool" where
  "dominates best entry \<longleftrightarrow>
     pme_Key best = pme_Key entry \<and> pme_RemoteCIDR best = pme_RemoteCIDR entry \<and> \<not> betterPolicyMapEntry entry best"

definition by_key_inv :: "PolicyMapEntry list \<Rightarrow> (PolicyKey, PolicyMapEntry) gomap \<Rightarrow> bool" where
  "by_key_inv seen byKey \<longleftrightarrow>
     distinct (map fst byKey) \<and> (\<forall>(k, e) \<in> set byKey. k = pme_Key e \<and> e \<in> set seen) \<and>
     (\<forall>entry \<in> set seen. \<exists>best. map_of byKey (pme_Key entry) = Some best \<and> dominates best entry)"

lemma by_key_inv_key: "by_key_inv seen byKey \<Longrightarrow> map_of byKey k = Some e \<Longrightarrow> pme_Key e = k \<and> e \<in> set seen"
  unfolding by_key_inv_def by (auto dest!: map_of_SomeD)

lemma by_key_invI:
  assumes "distinct (map fst byKey)"
    and "\<And>k e. map_of byKey k = Some e \<Longrightarrow> k = pme_Key e \<and> e \<in> set seen"
    and "\<And>entry. entry \<in> set seen \<Longrightarrow> \<exists>best. map_of byKey (pme_Key entry) = Some best \<and> dominates best entry"
  shows "by_key_inv seen byKey"
  using assms unfolding by_key_inv_def by (auto simp: map_of_eq_Some_iff)

lemma dominates_better:
  assumes "dominates best e" and "betterPolicyMapEntry entry best"
    and "pme_Key entry = pme_Key best" and "pme_RemoteCIDR entry = pme_RemoteCIDR best"
  shows "dominates entry e"
  using assms better.swo_ntrans [of entry e best] better.swo_asym [of entry e] by (auto simp: dominates_def)

lemma dominates_refl: "dominates e e"
  by (simp add: dominates_def better.swo_irrefl)

lemma by_key_inv_insert:
  assumes inv: "by_key_inv seen byKey"
    and better: "\<And>existing. map_of byKey (pme_Key entry) = Some existing \<Longrightarrow>
      betterPolicyMapEntry entry existing \<and> pme_RemoteCIDR entry = pme_RemoteCIDR existing"
  shows "by_key_inv (seen @ [entry]) (AList.update (pme_Key entry) entry byKey)"
proof (rule by_key_invI)
  show "distinct (map fst (AList.update (pme_Key entry) entry byKey))"
    using inv by (simp add: by_key_inv_def distinct_update)
  show "k = pme_Key e \<and> e \<in> set (seen @ [entry])" if "map_of (AList.update (pme_Key entry) entry byKey) k = Some e" for k e
    using that by_key_inv_key [OF inv, of k e] by (auto simp: update_conv' split: if_splits)
  show "\<exists>best. map_of (AList.update (pme_Key entry) entry byKey) (pme_Key e) = Some best \<and> dominates best e"
    if "e \<in> set (seen @ [entry])" for e
  proof (cases "e = entry")
    case True
    then show ?thesis by (simp add: update_conv' dominates_refl)
  next
    case False
    with that inv obtain best where best: "map_of byKey (pme_Key e) = Some best" "dominates best e"
      by (auto simp: by_key_inv_def)
    then show ?thesis
      using dominates_better [OF best(2), of entry] better [of best] by_key_inv_key [OF inv best(1)]
      by (auto simp: update_conv')
  qed
qed

lemma canonical_step_inv:
  assumes inv: "by_key_inv seen byKey" and step: "canonical_step entry byKey = Inr byKey'"
  shows "by_key_inv (seen @ [entry]) byKey'"
proof (cases "map_of byKey (pme_Key entry)")
  case None
  with step by_key_inv_insert [OF inv, of entry] show ?thesis
    by (simp add: canonical_step_def Let_def)
next
  case (Some existing)
  show ?thesis
  proof (cases "betterPolicyMapEntry entry existing")
    case True
    with Some step by_key_inv_insert [OF inv, of entry] show ?thesis
      by (simp add: canonical_step_def Let_def split: if_splits)
  next
    case False
    with Some step have "byKey' = byKey" and "pme_RemoteCIDR entry = pme_RemoteCIDR existing"
      by (auto simp: canonical_step_def Let_def split: if_splits)
    moreover from this False have "dominates existing entry"
      using by_key_inv_key [OF inv Some] by (simp add: dominates_def)
    ultimately show ?thesis
      using inv Some by (auto simp: by_key_inv_def)
  qed
qed

lemma fold_canonical_step:
  "fold_result canonical_step entries byKey = Inr byKey' \<Longrightarrow> by_key_inv seen byKey \<Longrightarrow> by_key_inv (seen @ entries) byKey'"
proof (induction entries arbitrary: byKey seen)
  case (Cons e es)
  then obtain b where "canonical_step e byKey = Inr b" and "fold_result canonical_step es b = Inr byKey'"
    by (auto split: sum.splits)
  with Cons.IH [of b "seen @ [e]"] canonical_step_inv [OF Cons.prems(2)] show ?case by simp
qed simp

lemma canonicalPolicyMapEntries_result:
  assumes "canonicalPolicyMapEntries entries = Inr out"
  shows "sorted_wrt comparePolicyKey (map pme_Key out) \<and> set out \<subseteq> set entries \<and>
    (\<forall>entry \<in> set entries. \<exists>best \<in> set out. dominates best entry)"
proof -
  from assms obtain byKey where fold: "fold_result canonical_step entries [] = Inr byKey"
    and out: "out = sortEntries (map snd byKey)"
    by (auto simp: canonicalPolicyMapEntries_def bind_result_Inr)
  have "by_key_inv [] []" by (simp add: by_key_inv_def)
  from fold_canonical_step [OF fold this] have inv: "by_key_inv entries byKey" by simp
  have keys: "map pme_Key (map snd byKey) = map fst byKey"
    using inv by (auto simp: by_key_inv_def)
  have "sorted_wrt comparePolicyKey (map pme_Key out)"
    unfolding out by (rule sorted_sortEntries, unfold keys) (use inv in \<open>simp add: by_key_inv_def\<close>)
  moreover have "set out \<subseteq> set entries"
    using inv by (auto simp: out by_key_inv_def)
  moreover have "\<exists>best \<in> set out. dominates best entry" if "entry \<in> set entries" for entry
    using inv that unfolding out set_sortEntries by (force simp: by_key_inv_def dest: map_of_SomeD)
  ultimately show ?thesis by blast
qed

text \<open>
  C25. Canonical entries are strictly sorted by key, hence one per key; each is one of the given entries;
  and for every given entry there is one with its key and remote prefix that no given entry beats.
\<close>

theorem canonicalPolicyMapEntries_best:
  assumes "canonicalPolicyMapEntries entries = Inr out"
  shows "sorted_wrt comparePolicyKey (map pme_Key out) \<and> distinct (map pme_Key out) \<and> set out \<subseteq> set entries \<and>
    (\<forall>entry \<in> set entries. \<exists>best \<in> set out. pme_Key best = pme_Key entry \<and>
       pme_RemoteCIDR best = pme_RemoteCIDR entry \<and> \<not> betterPolicyMapEntry entry best)"
proof -
  have "distinct ks" if "sorted_wrt comparePolicyKey ks" for ks
    using that key_order.swo_irrefl by (induction ks) auto
  with canonicalPolicyMapEntries_result [OF assms] show ?thesis
    unfolding dominates_def by blast
qed

definition example_entry :: "u8 \<Rightarrow> u8 \<Rightarrow> u32 \<Rightarrow> PolicyMapEntry" where
  "example_entry deny reject cookie =
     \<lparr>pme_Key = \<lparr>pk_PrefixLen = 48, pk_RemoteIdentity = 7, pk_Direction = 1, pk_Protocol = 6, pk_DestPortBE = 0\<rparr>,
      pme_Value = \<lparr>pe_Deny = deny, pe_L4PrefixLen = 8, pe_Stateful = 0, pe_Log = 0, pe_Precedence = 201,
        pe_RuleCookie = cookie, pe_Reject = reject, pe_RequireIdentity = 0, pe_Packets = 0, pe_Bytes = 0\<rparr>,
      pme_RemoteCIDR = zero_prefix, pme_RuleRef = []\<rparr>"

lemma example_entry_drop_reject:
  "canonicalPolicyMapEntries [example_entry 1 0 3, example_entry 1 1 4] = Inr [example_entry 1 1 4]"
  by code_simp

theorem canonicalPolicyMapEntries_best_witness:
  "canonicalPolicyMapEntries [example_entry 1 0 3, example_entry 1 1 4] = Inr [example_entry 1 1 4] \<and>
   \<not> betterPolicyMapEntry (example_entry 1 0 3) (example_entry 1 1 4)"
  using canonicalPolicyMapEntries_best [OF example_entry_drop_reject] example_entry_drop_reject by auto

text \<open>
  Whether two entries with the same key are accepted depends on their order: a drop before a reject of
  the same precedence is accepted and the reject kept, a reject before a drop is an error, so that an
  endpoint's program is applied or refused depending on the names of its rules.
\<close>

theorem canonicalPolicyMapEntries_order_dependent:
  "canonicalPolicyMapEntries [example_entry 1 0 3, example_entry 1 1 4] = Inr [example_entry 1 1 4] \<and>
   canonicalPolicyMapEntries [example_entry 1 1 4, example_entry 1 0 3] =
     Inl (Errorf ''conflicting policy map entries for identical key'' [])"
proof -
  have "canonicalPolicyMapEntries [example_entry 1 1 4, example_entry 1 0 3] =
      Inl (Errorf ''conflicting policy map entries for identical key'' [])" by code_simp
  with example_entry_drop_reject show ?thesis by simp
qed

end
