(* ===== verification/Evaluator.thy ===== *)
theory Evaluator
  imports PolicyMap
begin

text \<open>
  The software evaluator of \<open>internal/dataplane/evaluator.go\<close>: which entry decides about a packet, the
  connection tracking store, and the explanation of a decision.  A connection tracking store and an
  observer are interface values: their methods are arguments, their state is passed along, and nil is
  \<open>None\<close>.  The time a store reads is an argument of the methods that read it.
\<close>

section \<open>Data\<close>

record Packet =
  pkt_SourcePort :: u16
  pkt_RemoteIdentity :: u32
  pkt_RemoteIP :: addr
  pkt_Direction :: u8
  pkt_Protocol :: u8
  pkt_DestPort :: u16
  pkt_ICMPType :: u8
  pkt_ICMPCode :: u8
  pkt_Bytes :: u32

datatype Verdict = VerdictAllow | VerdictDrop | VerdictReject

record Decision =
  dec_Verdict :: Verdict
  dec_Match :: "PolicyMapEntry option"
  dec_Conntrack :: bool
  dec_Established :: bool

definition decision :: "Verdict \<Rightarrow> PolicyMapEntry option \<Rightarrow> Decision" where
  "decision v m = \<lparr>dec_Verdict = v, dec_Match = m, dec_Conntrack = False, dec_Established = False\<rparr>"

datatype ExplainReason =
  ExplainReasonPolicyAllow | ExplainReasonPolicyDeny | ExplainReasonPolicyReject | ExplainReasonNoPolicyMatch |
  ExplainReasonConntrack | ExplainReasonStatefulRule | ExplainReasonPMTU | ExplainReasonNeighborDiscovery

text \<open>The field \<open>MatchedRule\<close>, which the functions of this file never set, is left out.\<close>

record PolicyExplanation =
  exp_EndpointID :: string
  exp_Packet :: Packet
  exp_Verdict :: Verdict
  exp_Reason :: ExplainReason
  exp_Match :: "PolicyMapEntry option"
  exp_RuleCookie :: u32
  exp_Conntrack :: bool
  exp_Established :: bool
  exp_EvaluatedEntries :: nat


section \<open>Matching\<close>

definition networkToHost16 :: "bool \<Rightarrow> u16 \<Rightarrow> u16" where
  "networkToHost16 little value = be_Uint16 (native_PutUint16 little value)"

definition remoteCIDRMatches :: "prefix \<Rightarrow> addr \<Rightarrow> bool" where
  "remoteCIDRMatches p remoteIP \<longleftrightarrow> prefix_IsValid p \<and> addr_IsValid remoteIP \<and> prefix_Contains p remoteIP"

definition shift_mask :: "u8 \<Rightarrow> u16" where
  "shift_mask len = push_bit (unat (16 - len)) 0xffff"

definition l4_matches :: "bool \<Rightarrow> PolicyKey \<Rightarrow> Packet \<Rightarrow> bool" where
  "l4_matches little key packet =
     (let l4PrefixLen = (ucast (pk_PrefixLen key - StaticPrefixBits) :: u8) in
      if l4PrefixLen = 0 then True
      else if pk_Protocol key \<noteq> pkt_Protocol packet then False
      else if l4PrefixLen \<le> 8 then True
      else if pkt_Protocol packet = 1 \<or> pkt_Protocol packet = 58 then
        (let icmpPrefixLen = l4PrefixLen - 8;
             packetICMP = push_bit 8 (ucast (pkt_ICMPType packet) :: u16);
             packetICMP = (if icmpPrefixLen > 8 then packetICMP OR ucast (pkt_ICMPCode packet) else packetICMP);
             mask = shift_mask icmpPrefixLen
         in icmpPrefixLen = 0 \<or> networkToHost16 little (pk_DestPortBE key) AND mask = packetICMP AND mask)
      else
        (let mask = shift_mask (l4PrefixLen - 8)
         in networkToHost16 little (pk_DestPortBE key) AND mask = pkt_DestPort packet AND mask))"

definition matches :: "bool \<Rightarrow> PolicyMapEntry \<Rightarrow> Packet \<Rightarrow> bool" where
  "matches little entry packet =
     (let key = pme_Key entry in
      if pk_Direction key \<noteq> pkt_Direction packet then False
      else if prefix_IsValid (pme_RemoteCIDR entry) \<and> \<not> remoteCIDRMatches (pme_RemoteCIDR entry) (pkt_RemoteIP packet) then False
      else if pk_RemoteIdentity key \<noteq> 0 \<and> pk_RemoteIdentity key \<noteq> pkt_RemoteIdentity packet \<and>
              (pe_RequireIdentity (pme_Value entry) \<noteq> 0 \<or> \<not> prefix_IsValid (pme_RemoteCIDR entry)) then False
      else l4_matches little key packet)"

definition isIPv4FragmentationNeeded :: "Packet \<Rightarrow> bool" where
  "isIPv4FragmentationNeeded packet \<longleftrightarrow> pkt_Protocol packet = 1 \<and> pkt_ICMPType packet = 3 \<and> pkt_ICMPCode packet = 4"

definition isIPv6PacketTooBig :: "Packet \<Rightarrow> bool" where
  "isIPv6PacketTooBig packet \<longleftrightarrow> pkt_Protocol packet = 58 \<and> pkt_ICMPType packet = 2"

definition isIPv6NeighborDiscovery :: "Packet \<Rightarrow> bool" where
  "isIPv6NeighborDiscovery packet \<longleftrightarrow>
     pkt_Protocol packet = 58 \<and> pkt_ICMPCode packet = 0 \<and> pkt_ICMPType packet \<ge> 133 \<and> pkt_ICMPType packet \<le> 136"

definition remoteCIDRBits :: "prefix \<Rightarrow> int" where
  "remoteCIDRBits p = (if \<not> prefix_IsValid p then -1 else prefix_Bits p)"

definition exact_identity :: "PolicyMapEntry \<Rightarrow> Packet \<Rightarrow> bool" where
  "exact_identity entry packet \<longleftrightarrow>
     pk_RemoteIdentity (pme_Key entry) \<noteq> 0 \<and> pk_RemoteIdentity (pme_Key entry) = pkt_RemoteIdentity packet"

definition betterMatch :: "Packet \<Rightarrow> PolicyMapEntry \<Rightarrow> PolicyMapEntry \<Rightarrow> bool" where
  "betterMatch packet candidate selected =
     (let c = pme_Value candidate; s = pme_Value selected in
      if pe_Precedence c \<noteq> pe_Precedence s then pe_Precedence c > pe_Precedence s
      else if pe_L4PrefixLen c \<noteq> pe_L4PrefixLen s then pe_L4PrefixLen c > pe_L4PrefixLen s
      else if policyActionPrecedence c \<noteq> policyActionPrecedence s
        then policyActionPrecedence c > policyActionPrecedence s
      else if exact_identity candidate packet \<noteq> exact_identity selected packet then exact_identity candidate packet
      else if remoteCIDRBits (pme_RemoteCIDR candidate) \<noteq> remoteCIDRBits (pme_RemoteCIDR selected)
        then remoteCIDRBits (pme_RemoteCIDR candidate) > remoteCIDRBits (pme_RemoteCIDR selected)
      else False)"

definition verdict_of :: "PolicyMapEntry \<Rightarrow> Verdict" where
  "verdict_of selected =
     (if pe_Reject (pme_Value selected) \<noteq> 0 then VerdictReject
      else if pe_Deny (pme_Value selected) \<noteq> 0 then VerdictDrop else VerdictAllow)"

definition evaluate :: "bool \<Rightarrow> PolicyMapEntry list \<Rightarrow> Packet \<Rightarrow> Decision" where
  "evaluate little entries packet =
     (if isIPv4FragmentationNeeded packet \<or> isIPv6PacketTooBig packet \<or> isIPv6NeighborDiscovery packet
      then decision VerdictAllow None
      else case select_best (betterMatch packet) (filter (\<lambda>entry. matches little entry packet) entries) of
             None \<Rightarrow> decision VerdictDrop None
           | Some selected \<Rightarrow> decision (verdict_of selected) (Some selected))"

definition Evaluate :: "bool \<Rightarrow> PolicyMapEntry list \<Rightarrow> Packet \<Rightarrow> Decision" where
  "Evaluate little entries packet = evaluate little entries packet"


section \<open>Explanations\<close>

definition explainReason :: "Packet \<Rightarrow> Decision \<Rightarrow> ExplainReason" where
  "explainReason packet d =
     (if dec_Conntrack d then ExplainReasonConntrack
      else if dec_Established d then ExplainReasonStatefulRule
      else if dec_Match d = None \<and> dec_Verdict d = VerdictAllow \<and>
              (isIPv4FragmentationNeeded packet \<or> isIPv6PacketTooBig packet) then ExplainReasonPMTU
      else if dec_Match d = None \<and> dec_Verdict d = VerdictAllow \<and> isIPv6NeighborDiscovery packet
        then ExplainReasonNeighborDiscovery
      else if dec_Match d = None then ExplainReasonNoPolicyMatch
      else if dec_Verdict d = VerdictReject then ExplainReasonPolicyReject
      else if dec_Verdict d = VerdictDrop then ExplainReasonPolicyDeny
      else ExplainReasonPolicyAllow)"

definition explainPolicyDecision :: "string \<Rightarrow> Packet \<Rightarrow> Decision \<Rightarrow> nat \<Rightarrow> PolicyExplanation" where
  "explainPolicyDecision endpointID packet d evaluatedEntries =
     \<lparr>exp_EndpointID = endpointID, exp_Packet = packet, exp_Verdict = dec_Verdict d,
      exp_Reason = explainReason packet d, exp_Match = dec_Match d,
      exp_RuleCookie = (case dec_Match d of None \<Rightarrow> 0 | Some e \<Rightarrow> pe_RuleCookie (pme_Value e)),
      exp_Conntrack = dec_Conntrack d, exp_Established = dec_Established d,
      exp_EvaluatedEntries = evaluatedEntries\<rparr>"

definition Explain :: "bool \<Rightarrow> string \<Rightarrow> PolicyMapEntry list \<Rightarrow> Packet \<Rightarrow> PolicyExplanation" where
  "Explain little endpointID entries packet =
     explainPolicyDecision endpointID packet (evaluate little entries packet) (length entries)"


section \<open>Connection tracking\<close>

record ConntrackKey =
  ck_EndpointID :: string
  ck_RemoteIdentity :: u32
  ck_RemoteIP :: addr
  ck_Direction :: u8
  ck_Protocol :: u8
  ck_ICMPType :: u8
  ck_ICMPCode :: u8
  ck_SourcePort :: u16
  ck_DestPort :: u16

definition isICMPProtocol :: "u8 \<Rightarrow> bool" where
  "isICMPProtocol protocol \<longleftrightarrow> protocol = 1 \<or> protocol = 58"

definition conntrackICMP :: "u8 \<Rightarrow> u8 \<Rightarrow> u8 \<Rightarrow> u8 \<times> u8" where
  "conntrackICMP protocol icmpType icmpCode = (if \<not> isICMPProtocol protocol then (0, 0) else (icmpType, icmpCode))"

definition reverseConntrackICMP :: "u8 \<Rightarrow> u8 \<Rightarrow> u8 \<Rightarrow> u8 \<times> u8" where
  "reverseConntrackICMP protocol icmpType icmpCode =
     (if \<not> isICMPProtocol protocol then (0, 0)
      else if protocol = 1 \<and> icmpType = 8 then (0, icmpCode)
      else if protocol = 1 \<and> icmpType = 0 then (8, icmpCode)
      else if protocol = 58 \<and> icmpType = 128 then (129, icmpCode)
      else if protocol = 58 \<and> icmpType = 129 then (128, icmpCode)
      else (icmpType, icmpCode))"

definition reverseDirection :: "u8 \<Rightarrow> u8" where
  "reverseDirection direction =
     (if direction = dpDirectionIngress then dpDirectionEgress
      else if direction = dpDirectionEgress then dpDirectionIngress else direction)"

definition conntrackKey :: "string \<Rightarrow> Packet \<Rightarrow> ConntrackKey" where
  "conntrackKey endpointID packet =
     (let (icmpType, icmpCode) = conntrackICMP (pkt_Protocol packet) (pkt_ICMPType packet) (pkt_ICMPCode packet)
      in \<lparr>ck_EndpointID = endpointID, ck_RemoteIdentity = pkt_RemoteIdentity packet,
          ck_RemoteIP = pkt_RemoteIP packet, ck_Direction = pkt_Direction packet, ck_Protocol = pkt_Protocol packet,
          ck_ICMPType = icmpType, ck_ICMPCode = icmpCode,
          ck_SourcePort = pkt_SourcePort packet, ck_DestPort = pkt_DestPort packet\<rparr>)"

definition reverseConntrackKey :: "string \<Rightarrow> Packet \<Rightarrow> ConntrackKey" where
  "reverseConntrackKey endpointID packet =
     (let port = (if pkt_SourcePort packet = 0 then pkt_DestPort packet else pkt_SourcePort packet);
          (icmpType, icmpCode) = reverseConntrackICMP (pkt_Protocol packet) (pkt_ICMPType packet) (pkt_ICMPCode packet)
      in \<lparr>ck_EndpointID = endpointID, ck_RemoteIdentity = pkt_RemoteIdentity packet,
          ck_RemoteIP = pkt_RemoteIP packet, ck_Direction = reverseDirection (pkt_Direction packet),
          ck_Protocol = pkt_Protocol packet, ck_ICMPType = icmpType, ck_ICMPCode = icmpCode,
          ck_SourcePort = pkt_DestPort packet, ck_DestPort = port\<rparr>)"

text \<open>The map from keys to the time a connection was last seen, and the idle timeout.\<close>

record InMemoryConntrackStore =
  ct_entries :: "(ConntrackKey, time) gomap"
  ct_maxIdle :: duration

abbreviation (input) DefaultConntrackMaxIdle :: duration where
  "DefaultConntrackMaxIdle \<equiv> 300000000000"

definition NewInMemoryConntrackStoreWithIdleTimeout :: "duration \<Rightarrow> InMemoryConntrackStore" where
  "NewInMemoryConntrackStoreWithIdleTimeout maxIdle = \<lparr>ct_entries = [], ct_maxIdle = maxIdle\<rparr>"

definition NewInMemoryConntrackStore :: InMemoryConntrackStore where
  "NewInMemoryConntrackStore = NewInMemoryConntrackStoreWithIdleTimeout DefaultConntrackMaxIdle"

definition conntrackEntryExpired :: "time \<Rightarrow> time \<Rightarrow> duration \<Rightarrow> bool" where
  "conntrackEntryExpired lastSeen now maxIdle \<longleftrightarrow>
     maxIdle > 0 \<and> \<not> time_IsZero lastSeen \<and> time_Sub now lastSeen > maxIdle"

definition Conntrack_Has :: "InMemoryConntrackStore \<Rightarrow> ConntrackKey \<Rightarrow> time \<Rightarrow> bool \<times> InMemoryConntrackStore" where
  "Conntrack_Has s key now =
     (case map_of (ct_entries s) key of
        None \<Rightarrow> (False, s)
      | Some lastSeen \<Rightarrow>
          if conntrackEntryExpired lastSeen now (ct_maxIdle s)
          then (False, s\<lparr>ct_entries := AList.delete key (ct_entries s)\<rparr>)
          else (True, s\<lparr>ct_entries := AList.update key now (ct_entries s)\<rparr>))"

definition Conntrack_Add :: "InMemoryConntrackStore \<Rightarrow> ConntrackKey \<Rightarrow> time \<Rightarrow> InMemoryConntrackStore" where
  "Conntrack_Add s key now = s\<lparr>ct_entries := AList.update key now (ct_entries s)\<rparr>"

definition Conntrack_DeleteEndpoint :: "InMemoryConntrackStore \<Rightarrow> string \<Rightarrow> InMemoryConntrackStore" where
  "Conntrack_DeleteEndpoint s endpointID =
     s\<lparr>ct_entries := filter (\<lambda>(key, _). ck_EndpointID key \<noteq> endpointID) (ct_entries s)\<rparr>"

definition Conntrack_Len :: "InMemoryConntrackStore \<Rightarrow> nat" where
  "Conntrack_Len s = length (ct_entries s)"

definition SweepIdle :: "InMemoryConntrackStore \<Rightarrow> duration \<Rightarrow> time \<Rightarrow> InMemoryConntrackStore \<times> nat" where
  "SweepIdle s maxIdle now =
     (if maxIdle \<le> 0 then (s, 0)
      else
        (let live = filter (\<lambda>(_, lastSeen). \<not> conntrackEntryExpired lastSeen now maxIdle) (ct_entries s)
         in (s\<lparr>ct_entries := live\<rparr>, length (ct_entries s) - length live)))"


section \<open>Stateful evaluation\<close>

definition observe :: "('o \<Rightarrow> string \<Rightarrow> Packet \<Rightarrow> Decision \<Rightarrow> 'o) \<Rightarrow> string \<Rightarrow> Packet \<Rightarrow> Decision \<Rightarrow> 'o option \<Rightarrow> 'o option" where
  "observe Observe endpointID packet d observer = map_option (\<lambda>obs. Observe obs endpointID packet d) observer"

definition EvaluateObserved ::
    "('o \<Rightarrow> string \<Rightarrow> Packet \<Rightarrow> Decision \<Rightarrow> 'o) \<Rightarrow> bool \<Rightarrow> string \<Rightarrow> PolicyMapEntry list \<Rightarrow> Packet \<Rightarrow> 'o option \<Rightarrow>
     Decision \<times> 'o option" where
  "EvaluateObserved Observe little endpointID entries packet observer =
     (let d = evaluate little entries packet in (d, observe Observe endpointID packet d observer))"

text \<open>\<open>conntrack.Has(conntrackKey(\<dots>))\<close> after the checks in front of it; the state is kept when not asked.\<close>

definition tracked ::
    "('c \<Rightarrow> ConntrackKey \<Rightarrow> time \<Rightarrow> bool \<times> 'c) \<Rightarrow> string \<Rightarrow> Packet \<Rightarrow> 'c option \<Rightarrow> time \<Rightarrow> bool \<times> 'c option" where
  "tracked Has endpointID packet conntrack now =
     (case conntrack of
        None \<Rightarrow> (False, None)
      | Some c \<Rightarrow>
          if endpointID = '''' then (False, Some c)
          else (let (found, c') = Has c (conntrackKey endpointID packet) now in (found, Some c')))"

definition EvaluateStatefulObserved ::
    "('c \<Rightarrow> ConntrackKey \<Rightarrow> time \<Rightarrow> bool \<times> 'c) \<Rightarrow> ('c \<Rightarrow> ConntrackKey \<Rightarrow> time \<Rightarrow> 'c) \<Rightarrow>
     ('o \<Rightarrow> string \<Rightarrow> Packet \<Rightarrow> Decision \<Rightarrow> 'o) \<Rightarrow> bool \<Rightarrow>
     string \<Rightarrow> PolicyMapEntry list \<Rightarrow> Packet \<Rightarrow> 'c option \<Rightarrow> 'o option \<Rightarrow> time \<Rightarrow> Decision \<times> 'c option \<times> 'o option" where
  "EvaluateStatefulObserved Has Add Observe little endpointID entries packet conntrack observer now =
     (let d = evaluate little entries packet;
          observed = (\<lambda>d. observe Observe endpointID packet d observer)
      in if dec_Match d \<noteq> None \<and> (dec_Verdict d = VerdictDrop \<or> dec_Verdict d = VerdictReject)
         then (d, conntrack, observed d)
         else
           (let (found, conntrack) = tracked Has endpointID packet conntrack now in
            if found then
              (let d = (decision VerdictAllow None)\<lparr>dec_Conntrack := True\<rparr> in (d, conntrack, observed d))
            else
              (case (dec_Match d, conntrack) of
                 (Some e, Some c) \<Rightarrow>
                   if dec_Verdict d \<noteq> VerdictAllow \<or> pe_Stateful (pme_Value e) = 0 then (d, conntrack, observed d)
                   else
                     (let reverse = reverseConntrackKey endpointID packet in
                      if ck_EndpointID reverse \<noteq> '''' then
                        (let d = d\<lparr>dec_Established := True\<rparr> in (d, Some (Add c reverse now), observed d))
                      else (d, conntrack, observed d))
               | _ \<Rightarrow> (d, conntrack, observed d))))"

definition EvaluateStateful ::
    "('c \<Rightarrow> ConntrackKey \<Rightarrow> time \<Rightarrow> bool \<times> 'c) \<Rightarrow> ('c \<Rightarrow> ConntrackKey \<Rightarrow> time \<Rightarrow> 'c) \<Rightarrow> bool \<Rightarrow>
     string \<Rightarrow> PolicyMapEntry list \<Rightarrow> Packet \<Rightarrow> 'c option \<Rightarrow> time \<Rightarrow> Decision \<times> 'c option" where
  "EvaluateStateful Has Add little endpointID entries packet conntrack now =
     (let (d, conntrack, _) = EvaluateStatefulObserved Has Add (\<lambda>(o' :: unit) _ _ _. o') little endpointID entries packet
        conntrack None now in (d, conntrack))"

definition ExplainStateful ::
    "('c \<Rightarrow> ConntrackKey \<Rightarrow> time \<Rightarrow> bool \<times> 'c) \<Rightarrow> bool \<Rightarrow> string \<Rightarrow> PolicyMapEntry list \<Rightarrow> Packet \<Rightarrow> 'c option \<Rightarrow> time \<Rightarrow>
     PolicyExplanation \<times> 'c option" where
  "ExplainStateful Has little endpointID entries packet conntrack now =
     (let d = evaluate little entries packet in
      if dec_Match d \<noteq> None \<and> (dec_Verdict d = VerdictDrop \<or> dec_Verdict d = VerdictReject)
      then (explainPolicyDecision endpointID packet d (length entries), conntrack)
      else
        (let (found, conntrack) = tracked Has endpointID packet conntrack now in
         if found then
           (explainPolicyDecision endpointID packet ((decision VerdictAllow None)\<lparr>dec_Conntrack := True\<rparr>) (length entries), conntrack)
         else
           (let d = (case dec_Match d of
                       Some e \<Rightarrow> if dec_Verdict d = VerdictAllow \<and> pe_Stateful (pme_Value e) \<noteq> 0 \<and> conntrack \<noteq> None
                                then d\<lparr>dec_Established := True\<rparr> else d
                     | None \<Rightarrow> d)
            in (explainPolicyDecision endpointID packet d (length entries), conntrack))))"

section \<open>Which entry decides\<close>

interpretation match_order: strict_weak_order "betterMatch packet" for packet
proof
  fix x y z :: PolicyMapEntry
  show "betterMatch packet x y \<Longrightarrow> \<not> betterMatch packet y x"
    by (auto simp: betterMatch_def Let_def split: if_splits)
  show "\<not> betterMatch packet x y \<Longrightarrow> \<not> betterMatch packet y z \<Longrightarrow> \<not> betterMatch packet x z"
    by (auto simp: betterMatch_def Let_def split: if_splits)
qed

abbreviation control_packet :: "Packet \<Rightarrow> bool" where
  "control_packet packet \<equiv>
     isIPv4FragmentationNeeded packet \<or> isIPv6PacketTooBig packet \<or> isIPv6NeighborDiscovery packet"

lemma evaluate_cases:
  "evaluate little entries packet =
     (if control_packet packet then decision VerdictAllow None
      else case select_best (betterMatch packet) (filter (\<lambda>entry. matches little entry packet) entries) of
             None \<Rightarrow> decision VerdictDrop None
           | Some selected \<Rightarrow> decision (verdict_of selected) (Some selected))"
  by (simp add: evaluate_def)

text \<open>
  C5. The entry that decides about a packet matches it, and no matching entry is better; without
  a matching entry the packet is dropped; path MTU and neighbour discovery messages are always allowed.
\<close>

theorem evaluate_selects_best:
  "case dec_Match (evaluate little entries packet) of
     None \<Rightarrow>
       if control_packet packet then dec_Verdict (evaluate little entries packet) = VerdictAllow
       else dec_Verdict (evaluate little entries packet) = VerdictDrop \<and>
         \<not> list_ex (\<lambda>entry. matches little entry packet) entries
   | Some selected \<Rightarrow>
       \<not> control_packet packet \<and> selected \<in> set entries \<and> matches little selected packet \<and>
       dec_Verdict (evaluate little entries packet) = verdict_of selected \<and>
       \<not> list_ex (\<lambda>entry. matches little entry packet \<and> betterMatch packet entry selected) entries"
proof -
  let ?sel = "select_best (betterMatch packet) (filter (\<lambda>entry. matches little entry packet) entries)"
  show ?thesis
  proof (cases "control_packet packet")
    case True
    then show ?thesis by (simp add: evaluate_cases decision_def)
  next
    case False
    show ?thesis
    proof (cases ?sel)
      case None
      then have "\<not> list_ex (\<lambda>entry. matches little entry packet) entries"
        by (simp add: filter_empty_conv list_ex_iff)
      moreover have "evaluate little entries packet = decision VerdictDrop None"
        by (simp only: evaluate_cases False None if_False option.case)
      ultimately show ?thesis using False by (simp add: decision_def)
    next
      case (Some selected)
      from select_best_mem [OF Some] have "selected \<in> set entries" and "matches little selected packet" by simp_all
      moreover have "\<not> list_ex (\<lambda>entry. matches little entry packet \<and> betterMatch packet entry selected) entries"
        using match_order.select_best_max [OF Some] by (auto simp: list_ex_iff)
      moreover have "evaluate little entries packet = decision (verdict_of selected) (Some selected)"
        by (simp only: evaluate_cases False Some if_False option.case)
      ultimately show ?thesis using False by (simp add: decision_def)
    qed
  qed
qed

text \<open>Entries that neither is better decide alike.\<close>

lemma same_rank_same_verdict:
  "\<not> betterMatch packet a b \<Longrightarrow> \<not> betterMatch packet b a \<Longrightarrow> verdict_of a = verdict_of b"
  by (auto simp: betterMatch_def Let_def policyActionPrecedence_def verdict_of_def split: if_splits)

lemma evaluate_verdict_cong:
  assumes "{e \<in> set entries. matches little e packet} = {e \<in> set entries'. matches little e packet}"
  shows "dec_Verdict (evaluate little entries packet) = dec_Verdict (evaluate little entries' packet)"
proof -
  let ?f = "filter (\<lambda>entry. matches little entry packet)"
  have sets: "set (?f entries) = set (?f entries')" using assms by auto
  show ?thesis
  proof (cases "select_best (betterMatch packet) (?f entries)")
    case None
    then have "?f entries' = []" using sets by (metis select_best_None set_empty)
    with None show ?thesis by (simp add: evaluate_cases)
  next
    case (Some a)
    then have "?f entries' \<noteq> []" using sets by (metis select_best_None set_empty option.distinct(1))
    then obtain b where b: "select_best (betterMatch packet) (?f entries') = Some b"
      by (metis not_None_eq select_best_None)
    from match_order.select_best_perm [OF sets Some b] have "verdict_of a = verdict_of b"
      using same_rank_same_verdict by blast
    with Some b show ?thesis by (simp add: evaluate_cases decision_def)
  qed
qed

text \<open>
  C29. The verdict does not depend on the order in which the entries are stored.
\<close>

theorem evaluate_order_independent:
  assumes "set entries = set entries'"
  shows "dec_Verdict (Evaluate little entries packet) = dec_Verdict (Evaluate little entries' packet)"
  unfolding Evaluate_def by (rule evaluate_verdict_cong) (simp add: assms)

definition example_packet :: Packet where
  "example_packet =
     \<lparr>pkt_SourcePort = 40000, pkt_RemoteIdentity = 7, pkt_RemoteIP = V4 0x0A000009, pkt_Direction = 1, pkt_Protocol = 6,
      pkt_DestPort = 443, pkt_ICMPType = 0, pkt_ICMPCode = 0, pkt_Bytes = 60\<rparr>"

theorem evaluate_order_independent_witness:
  "matches True (example_entry 1 0 3) example_packet \<and>
   dec_Verdict (Evaluate True [example_entry 1 0 3, example_entry 0 0 4] example_packet) =
   dec_Verdict (Evaluate True [example_entry 0 0 4, example_entry 1 0 3] example_packet)"
proof -
  have "matches True (example_entry 1 0 3) example_packet" by code_simp
  then show ?thesis
    using evaluate_order_independent [of "[example_entry 1 0 3, example_entry 0 0 4]" "[example_entry 0 0 4, example_entry 1 0 3]"]
    by (simp add: insert_commute)
qed


section \<open>Ports on the wire\<close>

lemma be_Uint16_PutUint16 [simp]: "be_Uint16 (be_PutUint16 v) = v"
proof (rule bit_word_eqI)
  fix n assume "n < LENGTH(16)"
  then show "bit (be_Uint16 (be_PutUint16 v)) n = bit v n"
    by (cases "n < 8")
      (auto simp: be_Uint16_def be_PutUint16_def bit_or_iff bit_push_bit_iff bit_ucast_iff bit_drop_bit_eq)
qed

lemma be_PutUint16_Uint16 [simp]: "be_PutUint16 (be_Uint16 b) = b"
proof (cases b)
  case (Pair hi lo)
  have "ucast (drop_bit 8 (be_Uint16 b)) = hi"
  proof (rule bit_word_eqI)
    fix n assume "n < LENGTH(8)"
    then show "bit (ucast (drop_bit 8 (be_Uint16 b)) :: u8) n = bit hi n"
      by (auto simp: Pair be_Uint16_def bit_or_iff bit_push_bit_iff bit_ucast_iff bit_drop_bit_eq dest: bit_imp_le_length)
  qed
  moreover have "ucast (be_Uint16 b) = lo"
  proof (rule bit_word_eqI)
    fix n assume "n < LENGTH(8)"
    then show "bit (ucast (be_Uint16 b) :: u8) n = bit lo n"
      by (auto simp: Pair be_Uint16_def bit_or_iff bit_push_bit_iff bit_ucast_iff)
  qed
  ultimately show ?thesis by (simp add: be_PutUint16_def Pair)
qed

lemma networkToHost16_hostToNetwork16 [simp]: "networkToHost16 little (hostToNetwork16 little port) = port"
  by (simp add: networkToHost16_def hostToNetwork16_def native_PutUint16_def native_Uint16_def)

text \<open>
  Converting a port to network order and back gives the port, on machines of either byte order, and
  on a little-endian machine the two bytes are exchanged.
\<close>

theorem port_round_trip:
  "networkToHost16 little (hostToNetwork16 little port) = port \<and> hostToNetwork16 True 0x1234 = 0x3412"
proof -
  have "hostToNetwork16 True 0x1234 = 0x3412" by code_simp
  then show ?thesis by simp
qed

lemma shift_mask_top_mask: "len \<le> 16 \<Longrightarrow> shift_mask len = top_mask (unat len)"
proof (rule bit_word_eqI)
  fix n assume len: "len \<le> 16" and n: "n < LENGTH(16)"
  have "unat (16 - len) = 16 - unat len"
    using len by (simp add: unat_sub)
  moreover have all_ones: "(0xffff :: u16) = mask 16"
    by (simp add: mask_eq_exp_minus_1)
  ultimately show "bit (shift_mask len) n = bit (top_mask (unat len) :: u16) n"
    using n unfolding shift_mask_def all_ones by (auto simp: top_mask_def bit_push_bit_iff bit_mask_iff bit_not_iff)
qed

lemma and_top_mask_eq: "a AND top_mask n = b AND top_mask n \<longleftrightarrow> top_match n a b"
  by (auto simp: word_eq_iff_bits bit_and_top_mask top_match_bits)

section \<open>Connection tracking\<close>

text \<open>
  What the evaluator relies on of a connection tracking store: the keys it holds are those added, it
  finds only keys it holds, and it finds an added key as long as the entry is fresh.
\<close>

locale conntrack_store =
  fixes Has :: "'c \<Rightarrow> ConntrackKey \<Rightarrow> time \<Rightarrow> bool \<times> 'c" and Add :: "'c \<Rightarrow> ConntrackKey \<Rightarrow> time \<Rightarrow> 'c"
    and keys :: "'c \<Rightarrow> ConntrackKey set" and fresh :: "'c \<Rightarrow> time \<Rightarrow> time \<Rightarrow> bool"
  assumes Has_keys: "fst (Has c k t) \<Longrightarrow> k \<in> keys c"
    and Has_sub: "keys (snd (Has c k t)) \<subseteq> keys c"
    and Add_keys: "keys (Add c k t) = insert k (keys c)"
    and Add_Has: "fresh (Add c k t) t t' \<Longrightarrow> fst (Has (Add c k t) k t')"
begin

lemma tracked_keys:
  assumes "tracked Has endpointID packet (Some c) now = (found, c')"
  obtains c'' where "c' = Some c''" and "keys c'' \<subseteq> keys c" and "found \<longrightarrow> conntrackKey endpointID packet \<in> keys c"
  using assms Has_keys [of c "conntrackKey endpointID packet" now] Has_sub [of c "conntrackKey endpointID packet" now]
  by (auto simp: tracked_def split: if_splits prod.splits)

text \<open>One packet adds at most the reverse of its own key, and that only when a stateful rule allowed it.\<close>

lemma EvaluateStateful_keys:
  assumes "EvaluateStateful Has Add little endpointID entries packet (Some c) now = (d, c')"
  obtains c'' where "c' = Some c''"
    and "keys c'' \<subseteq> keys c \<or>
      keys c'' \<subseteq> insert (reverseConntrackKey endpointID packet) (keys c) \<and> dec_Established d \<and>
      dec_Verdict d = VerdictAllow \<and> (\<exists>e. dec_Match d = Some e \<and> pe_Stateful (pme_Value e) \<noteq> 0)"
    and "dec_Conntrack d \<longrightarrow> conntrackKey endpointID packet \<in> keys c"
proof -
  obtain found c1 where tr: "tracked Has endpointID packet (Some c) now = (found, c1)" by fastforce
  obtain c2 where c1: "c1 = Some c2" and sub: "keys c2 \<subseteq> keys c"
    and found: "found \<longrightarrow> conntrackKey endpointID packet \<in> keys c"
    using tracked_keys [OF tr] by blast
  have nc: "\<not> dec_Conntrack (evaluate little entries packet)"
    by (simp add: evaluate_def decision_def split: option.splits)
  have "keys c2 \<subseteq> insert (reverseConntrackKey endpointID packet) (keys c)" using sub by blast
  then show thesis
    using assms sub found nc that Add_keys [of c2 "reverseConntrackKey endpointID packet" now]
    by (auto simp: EvaluateStateful_def EvaluateStatefulObserved_def Let_def tr c1 decision_def split: option.splits if_splits)
qed

end

context conntrack_store
begin

text \<open>A reply, of the reversed key, to a packet a stateful rule allowed.\<close>

lemma reply_allowed:
  assumes first: "EvaluateStateful Has Add little ep entries packet (Some c) now = (d, Some c')"
    and "dec_Established d" and "conntrackKey ep reply = reverseConntrackKey ep packet"
    and fresh: "fresh c' now now'" and "ep \<noteq> ''''"
    and no_deny: "dec_Match (evaluate little entries' reply) = None \<or> dec_Verdict (evaluate little entries' reply) = VerdictAllow"
  shows "\<exists>c''. EvaluateStateful Has Add little ep entries' reply (Some c') now' =
    ((decision VerdictAllow None)\<lparr>dec_Conntrack := True\<rparr>, Some c'')"
proof -
  have "\<not> dec_Established (evaluate little entries packet)"
    by (simp add: evaluate_def decision_def split: option.splits)
  with first assms(2) obtain c1 where c': "c' = Add c1 (reverseConntrackKey ep packet) now"
    by (auto simp: EvaluateStateful_def EvaluateStatefulObserved_def Let_def decision_def tracked_def
        split: option.splits if_splits prod.splits)
  have "fst (Has c' (conntrackKey ep reply) now')"
    using Add_Has fresh unfolding c' assms(3) by blast
  then obtain c'' where "tracked Has ep reply (Some c') now' = (True, Some c'')"
    using assms(5) by (cases "Has c' (conntrackKey ep reply) now'") (auto simp: tracked_def)
  with no_deny show ?thesis
    by (auto simp: EvaluateStateful_def EvaluateStatefulObserved_def Let_def)
qed

end

definition conntrack_keys :: "InMemoryConntrackStore \<Rightarrow> ConntrackKey set" where
  "conntrack_keys s = set (map fst (ct_entries s))"

interpretation mem_conntrack: conntrack_store Conntrack_Has Conntrack_Add conntrack_keys
    "\<lambda>s t t'. \<not> conntrackEntryExpired t t' (ct_maxIdle s)"
proof
  have mem: "map_of m k = Some v \<Longrightarrow> k \<in> set (map fst m)" for m :: "(ConntrackKey, time) gomap" and k v
    by (force dest: map_of_SomeD)
  fix c k t t'
  show "fst (Conntrack_Has c k t) \<Longrightarrow> k \<in> conntrack_keys c"
    by (auto simp: Conntrack_Has_def conntrack_keys_def split: option.splits dest: map_of_SomeD intro: rev_image_eqI)
  show "conntrack_keys (snd (Conntrack_Has c k t)) \<subseteq> conntrack_keys c"
    unfolding conntrack_keys_def
    by (auto simp: Conntrack_Has_def delete_keys update_keys simp del: set_map split: option.splits if_splits
        dest: mem)
  show "conntrack_keys (Conntrack_Add c k t) = insert k (conntrack_keys c)"
    by (auto simp: Conntrack_Add_def conntrack_keys_def update_keys simp del: set_map)
  show "\<not> conntrackEntryExpired t t' (ct_maxIdle (Conntrack_Add c k t)) \<Longrightarrow> fst (Conntrack_Has (Conntrack_Add c k t) k t')"
    by (simp add: Conntrack_Has_def Conntrack_Add_def update_conv')
qed

text \<open>The packet that answers a packet, as far as connection tracking looks at it.\<close>

definition reply_to :: "Packet \<Rightarrow> Packet" where
  "reply_to p =
     (let (icmpType, icmpCode) = reverseConntrackICMP (pkt_Protocol p) (pkt_ICMPType p) (pkt_ICMPCode p)
      in p\<lparr>pkt_SourcePort := pkt_DestPort p,
           pkt_DestPort := (if pkt_SourcePort p = 0 then pkt_DestPort p else pkt_SourcePort p),
           pkt_Direction := reverseDirection (pkt_Direction p), pkt_ICMPType := icmpType, pkt_ICMPCode := icmpCode\<rparr>)"

lemma conntrackKey_reply_to: "conntrackKey ep (reply_to p) = reverseConntrackKey ep p"
  by (auto simp: conntrackKey_def reverseConntrackKey_def reply_to_def conntrackICMP_def reverseConntrackICMP_def
      isICMPProtocol_def Let_def split: prod.splits)

text \<open>
  C28. After a packet was allowed by a stateful rule, the reply to it is allowed by connection tracking
  as long as the entry has not expired, unless a matching entry of the then current policy denies it.
\<close>

theorem stateful_reply_allowed:
  assumes "EvaluateStateful Conntrack_Has Conntrack_Add little ep entries packet (Some c) now = (d, Some c')"
    and "dec_Established d" and "ep \<noteq> ''''" and "\<not> conntrackEntryExpired now now' (ct_maxIdle c')"
    and "dec_Match (evaluate little entries' (reply_to packet)) = None \<or>
      dec_Verdict (evaluate little entries' (reply_to packet)) = VerdictAllow"
  shows "\<exists>c''. EvaluateStateful Conntrack_Has Conntrack_Add little ep entries' (reply_to packet) (Some c') now' =
    ((decision VerdictAllow None)\<lparr>dec_Conntrack := True\<rparr>, Some c'')"
  by (rule mem_conntrack.reply_allowed [OF assms(1,2) conntrackKey_reply_to assms(4,3,5)])

definition stateful_entry :: PolicyMapEntry where
  "stateful_entry = (example_entry 0 0 3)\<lparr>pme_Value := (pme_Value (example_entry 0 0 3))\<lparr>pe_Stateful := 1\<rparr>\<rparr>"

definition example_conntrack :: InMemoryConntrackStore where
  "example_conntrack = \<lparr>ct_entries = [(reverseConntrackKey ''ep'' example_packet, 1000)], ct_maxIdle = 300000000000\<rparr>"

lemma stateful_example:
  "EvaluateStateful Conntrack_Has Conntrack_Add True ''ep'' [stateful_entry] example_packet (Some NewInMemoryConntrackStore) 1000 =
    ((decision VerdictAllow (Some stateful_entry))\<lparr>dec_Established := True\<rparr>, Some example_conntrack)"
  by code_simp

theorem stateful_reply_allowed_witness:
  "\<exists>c''. EvaluateStateful Conntrack_Has Conntrack_Add True ''ep'' [] (reply_to example_packet)
      (Some example_conntrack) 60000000000 =
    ((decision VerdictAllow None)\<lparr>dec_Conntrack := True\<rparr>, Some c'')"
proof (rule stateful_reply_allowed [OF stateful_example])
  show "\<not> conntrackEntryExpired 1000 60000000000 (ct_maxIdle example_conntrack)" by code_simp
  show "dec_Match (evaluate True [] (reply_to example_packet)) = None \<or>
    dec_Verdict (evaluate True [] (reply_to example_packet)) = VerdictAllow" by code_simp
qed (simp_all add: decision_def)

text \<open>
  Runs of the data plane over one store: packets of any endpoint under any policy, removal of an
  endpoint, sweeps. The trace keeps every packet with the decision about it.
\<close>

inductive conntrack_run :: "bool \<Rightarrow> (string \<times> Packet \<times> Decision) list \<Rightarrow> InMemoryConntrackStore \<Rightarrow> bool" for little where
  run_new: "conntrack_run little [] (NewInMemoryConntrackStoreWithIdleTimeout maxIdle)"
| run_packet: "conntrack_run little tr c \<Longrightarrow>
    EvaluateStateful Conntrack_Has Conntrack_Add little ep entries packet (Some c) now = (d, Some c') \<Longrightarrow>
    conntrack_run little ((ep, packet, d) # tr) c'"
| run_delete: "conntrack_run little tr c \<Longrightarrow> conntrack_run little tr (Conntrack_DeleteEndpoint c ep)"
| run_sweep: "conntrack_run little tr c \<Longrightarrow> conntrack_run little tr (fst (SweepIdle c maxIdle now))"

definition opened_by :: "ConntrackKey \<Rightarrow> string \<times> Packet \<times> Decision \<Rightarrow> bool" where
  "opened_by k t \<longleftrightarrow>
     (case t of (ep, packet, d) \<Rightarrow>
        reverseConntrackKey ep packet = k \<and> dec_Established d \<and> dec_Verdict d = VerdictAllow \<and>
        (case dec_Match d of None \<Rightarrow> False | Some e \<Rightarrow> pe_Stateful (pme_Value e) \<noteq> 0))"

lemma Conntrack_DeleteEndpoint_keys: "conntrack_keys (Conntrack_DeleteEndpoint c ep) \<subseteq> conntrack_keys c"
  by (auto simp: Conntrack_DeleteEndpoint_def conntrack_keys_def)

lemma SweepIdle_keys: "conntrack_keys (fst (SweepIdle c maxIdle now)) \<subseteq> conntrack_keys c"
  by (auto simp: SweepIdle_def Let_def conntrack_keys_def)

lemma conntrack_run_keys: "conntrack_run little tr c \<Longrightarrow> k \<in> conntrack_keys c \<Longrightarrow> \<exists>t\<in>set tr. opened_by k t"
proof (induction arbitrary: k rule: conntrack_run.induct)
  case (run_new maxIdle)
  then show ?case by (simp add: conntrack_keys_def NewInMemoryConntrackStoreWithIdleTimeout_def)
next
  case (run_packet tr c ep entries packet now d c')
  have opened: "conntrack_keys c' \<subseteq> conntrack_keys c \<or>
      conntrack_keys c' \<subseteq> insert (reverseConntrackKey ep packet) (conntrack_keys c) \<and>
      opened_by (reverseConntrackKey ep packet) (ep, packet, d)"
    by (rule mem_conntrack.EvaluateStateful_keys [OF run_packet.hyps(2)]) (auto simp: opened_by_def)
  show ?case
  proof (cases "k \<in> conntrack_keys c")
    case True
    then show ?thesis using run_packet.IH [OF True] by auto
  next
    case False
    then show ?thesis using opened run_packet.prems by auto
  qed
next
  case (run_delete tr c ep)
  then show ?case using Conntrack_DeleteEndpoint_keys by blast
next
  case (run_sweep tr c maxIdle now)
  then show ?case using SweepIdle_keys by blast
qed

text \<open>
  C8. Connection tracking never opens a hole of its own: a packet it allows is the reverse of an earlier
  packet of the run that a stateful allow rule let pass, and it never overrides an entry that denies.
\<close>

theorem conntrack_allows_only_replies:
  assumes "conntrack_run little tr c"
    and "EvaluateStateful Conntrack_Has Conntrack_Add little ep entries packet (Some c) now = (d, c')"
    and "dec_Conntrack d"
  shows "list_ex (opened_by (conntrackKey ep packet)) tr \<and>
    (dec_Match (Evaluate little entries packet) = None \<or> dec_Verdict (Evaluate little entries packet) = VerdictAllow)"
proof
  show "list_ex (opened_by (conntrackKey ep packet)) tr"
    unfolding list_ex_iff
    by (rule conntrack_run_keys [OF assms(1)], rule mem_conntrack.EvaluateStateful_keys [OF assms(2)]) (use assms(3) in blast)
  have nc: "\<not> dec_Conntrack (evaluate little entries packet)"
    by (simp add: evaluate_def decision_def split: option.splits)
  show "dec_Match (Evaluate little entries packet) = None \<or> dec_Verdict (Evaluate little entries packet) = VerdictAllow"
    using assms(2,3) nc unfolding Evaluate_def
    by (cases "dec_Verdict (evaluate little entries packet)"; cases "dec_Match (evaluate little entries packet)")
      (auto simp: EvaluateStateful_def EvaluateStatefulObserved_def Let_def)
qed

lemma example_run: "conntrack_run True [(''ep'', example_packet, (decision VerdictAllow (Some stateful_entry))\<lparr>dec_Established := True\<rparr>)] example_conntrack"
  using run_packet [OF run_new [of True DefaultConntrackMaxIdle] stateful_example [unfolded NewInMemoryConntrackStore_def]] .

lemma example_reply:
  "dec_Conntrack (fst (EvaluateStateful Conntrack_Has Conntrack_Add True ''ep'' [] (reply_to example_packet) (Some example_conntrack) 2000))"
  by code_simp

theorem conntrack_allows_only_replies_witness:
  "list_ex (opened_by (conntrackKey ''ep'' (reply_to example_packet)))
     [(''ep'', example_packet, (decision VerdictAllow (Some stateful_entry))\<lparr>dec_Established := True\<rparr>)]"
  using conntrack_allows_only_replies [OF example_run surjective_pairing example_reply] by blast

text \<open>
  C34. Explaining a packet reports what the stateful evaluation decides about it at the same moment,
  for every connection tracking store, provided that the endpoint ID is not empty.
\<close>

theorem ExplainStateful_explains:
  assumes "endpointID \<noteq> ''''"
  shows "fst (ExplainStateful Has little endpointID entries packet conntrack now) =
    explainPolicyDecision endpointID packet
      (fst (EvaluateStateful Has Add little endpointID entries packet conntrack now)) (length entries)"
  using assms
  by (auto simp: ExplainStateful_def EvaluateStateful_def EvaluateStatefulObserved_def Let_def reverseConntrackKey_def tracked_def
      split: prod.splits option.splits)

theorem ExplainStateful_explains_witness:
  "exp_Reason (fst (ExplainStateful Conntrack_Has True ''ep'' [stateful_entry] example_packet
     (Some NewInMemoryConntrackStore) 1000)) = ExplainReasonStatefulRule"
  using ExplainStateful_explains [of "''ep''" Conntrack_Has True "[stateful_entry]" example_packet "Some NewInMemoryConntrackStore"
      1000 Conntrack_Add]
  by (simp add: stateful_example explainPolicyDecision_def explainReason_def decision_def)

text \<open>
  For an endpoint without a name the explanation claims an established connection although the
  evaluation establishes none.
\<close>

theorem ExplainStateful_unnamed_endpoint:
  "exp_Established (fst (ExplainStateful Conntrack_Has True '''' [stateful_entry] example_packet
     (Some NewInMemoryConntrackStore) 1000)) \<and>
   EvaluateStateful Conntrack_Has Conntrack_Add True '''' [stateful_entry] example_packet (Some NewInMemoryConntrackStore) 1000 =
     (decision VerdictAllow (Some stateful_entry), Some NewInMemoryConntrackStore)"
  by code_simp

end
