(* ===== verification/PolicyStore.thy ===== *)
theory PolicyStore
  imports PolicyMap
begin

text \<open>
  The in-memory policy store of \<open>internal/dataplane/policymap.go\<close> with its update events
  (\<open>policy_event.go\<close>), usage and pressure reports, and the capacity check of
  \<open>ebpf_store_capacity.go\<close>.  Every operation is one step under the store's mutex; the time it reads
  is an argument.  The events of a sweep are in the iteration order of the map.
\<close>

section \<open>Data\<close>

record PolicyMapUsage =
  usage_EndpointID :: string
  usage_Entries :: u32
  usage_Capacity :: u32

record PolicyMapPressureHotspot =
  hot_EndpointID :: string
  hot_Entries :: u32
  hot_Capacity :: u32
  hot_AvailableEntries :: u32
  hot_PressurePercent :: u32
  hot_Severity :: string
  hot_RecommendedCapacity :: u32

record PolicyMapCapacityHotspot =
  caphot_RuleRef :: string
  caphot_Entries :: nat

record PolicyMapUsageSummary =
  sum_Entries :: u32
  sum_Capacity :: u32
  sum_MaxPressurePercent :: u32
  sum_MaxPressureEndpoint :: string
  sum_MaxPressureSeverity :: string
  sum_RecommendedCapacity :: u32
  sum_RecommendedCapacityEndpoint :: string
  sum_PressureEndpoints :: nat
  sum_PressureHotspots :: "PolicyMapPressureHotspot list"

abbreviation (input) DefaultPolicyMapPressureThresholdPercent :: nat where "DefaultPolicyMapPressureThresholdPercent \<equiv> 80"
abbreviation (input) DefaultPolicyMapPressureHotspotLimit :: nat where "DefaultPolicyMapPressureHotspotLimit \<equiv> 5"
abbreviation (input) DefaultPolicyUpdateEventLimit :: nat where "DefaultPolicyUpdateEventLimit \<equiv> 1024"

record PolicyMapDriftSummary =
  dsum_Endpoints :: nat
  dsum_DriftedEndpoints :: nat
  dsum_MissingEntries :: nat
  dsum_ExtraEntries :: nat
  dsum_ChangedEntries :: nat

record PolicyUpdateEvent =
  ev_EndpointID :: string
  ev_PreviousRevision :: u64
  ev_Revision :: u64
  ev_OccurredAt :: "time option"
  ev_Stats :: PolicyUpdateStats
  ev_RuleCookies :: "u32 list"
  ev_RuleRefs :: "string list"
  ev_CapacityHotspots :: "PolicyMapCapacityHotspot list"
  ev_PolicyMapEntries :: u32
  ev_PolicyMapCapacity :: u32
  ev_PolicyMapPressurePercent :: u32
  ev_PolicyMapPressureSeverity :: string
  ev_PolicyMapRecommendedCapacity :: u32
  ev_RuleDirections :: "string list"
  ev_RuleActions :: "string list"
  ev_Success :: bool
  ev_FailureReason :: string
  ev_Error :: string
  ev_Remediated :: bool
  ev_Remediation :: string

definition zero_stats :: PolicyUpdateStats where
  "zero_stats = \<lparr>stats_Revision = 0, stats_Added = 0, stats_Updated = 0, stats_Deleted = 0, stats_Unchanged = 0\<rparr>"

definition zero_event :: PolicyUpdateEvent where
  "zero_event =
     \<lparr>ev_EndpointID = [], ev_PreviousRevision = 0, ev_Revision = 0, ev_OccurredAt = None, ev_Stats = zero_stats,
      ev_RuleCookies = [], ev_RuleRefs = [], ev_CapacityHotspots = [], ev_PolicyMapEntries = 0,
      ev_PolicyMapCapacity = 0, ev_PolicyMapPressurePercent = 0, ev_PolicyMapPressureSeverity = [],
      ev_PolicyMapRecommendedCapacity = 0, ev_RuleDirections = [], ev_RuleActions = [], ev_Success = False,
      ev_FailureReason = [], ev_Error = [], ev_Remediated = False, ev_Remediation = []\<rparr>"

record PolicyEndpointStatus =
  st_EndpointID :: string
  st_Revision :: u64
  st_Entries :: u32
  st_Capacity :: u32
  st_LastSeen :: "time option"
  st_PressurePercent :: u32
  st_PressureSeverity :: string
  st_Drift :: PolicyMapDrift
  st_LastStats :: PolicyUpdateStats
  st_LastEvent :: PolicyUpdateEvent
  st_HasLastEvent :: bool

record InMemoryPolicyStore =
  store_endpoints :: "(string, PolicyMapEntry list) gomap"
  store_lastStats :: "(string, PolicyUpdateStats) gomap"
  store_lastSeen :: "(string, time) gomap"
  store_revisions :: "(string, u64) gomap"
  store_events :: "PolicyUpdateEvent list"
  store_failAfter :: int

definition NewInMemoryPolicyStore :: InMemoryPolicyStore where
  "NewInMemoryPolicyStore =
     \<lparr>store_endpoints = [], store_lastStats = [], store_lastSeen = [], store_revisions = [],
      store_events = [], store_failAfter = 0\<rparr>"


section \<open>Events\<close>

definition policyEventOccurredAt :: "time \<Rightarrow> time option" where
  "policyEventOccurredAt t = (if time_IsZero t then None else Some t)"

definition policyEndpointLastSeen :: "time \<Rightarrow> time option" where
  "policyEndpointLastSeen t = (if time_IsZero t then None else Some t)"

definition appendPolicyUpdateEvent :: "PolicyUpdateEvent list \<Rightarrow> PolicyUpdateEvent \<Rightarrow> PolicyUpdateEvent list" where
  "appendPolicyUpdateEvent events event =
     (let events = events @ [event] in
      if length events \<le> DefaultPolicyUpdateEventLimit then events
      else drop (length events - DefaultPolicyUpdateEventLimit) events)"

definition lastPolicyUpdateEvent :: "PolicyUpdateEvent list \<Rightarrow> string \<Rightarrow> PolicyUpdateEvent option" where
  "lastPolicyUpdateEvent events endpointID = find (\<lambda>e. ev_EndpointID e = endpointID) (rev events)"

definition sortedPolicyRuleCookies :: "u32 list \<Rightarrow> u32 list" where
  "sortedPolicyRuleCookies cookies = sort_SliceStable (<) (remdups cookies)"

definition sortedPolicyRuleRefs :: "string list \<Rightarrow> string list" where
  "sortedPolicyRuleRefs refs = sort_SliceStable (<) (remdups refs)"

definition entry_cookies :: "PolicyMapEntry list \<Rightarrow> u32 list" where
  "entry_cookies es = filter (\<lambda>c. c \<noteq> 0) (map (\<lambda>e. pe_RuleCookie (pme_Value e)) es)"

definition entry_refs :: "PolicyMapEntry list \<Rightarrow> string list" where
  "entry_refs es = filter (\<lambda>r. r \<noteq> '''') (map pme_RuleRef es)"

definition deleted_entries :: "PolicyMapEntry list \<Rightarrow> PolicyUpdatePlan \<Rightarrow> PolicyMapEntry list" where
  "deleted_entries oldEntries plan = filter (\<lambda>e. List.member (plan_Delete plan) (pme_Key e)) oldEntries"

definition policyUpdateRuleCookies :: "PolicyMapEntry list \<Rightarrow> PolicyUpdatePlan \<Rightarrow> u32 list" where
  "policyUpdateRuleCookies oldEntries plan =
     sortedPolicyRuleCookies (entry_cookies (plan_Add plan) @ entry_cookies (plan_Update plan) @
       entry_cookies (deleted_entries oldEntries plan))"

definition policyEntriesRuleCookies :: "PolicyMapEntry list \<Rightarrow> u32 list" where
  "policyEntriesRuleCookies entries = sortedPolicyRuleCookies (entry_cookies entries)"

definition policyUpdateRuleRefs :: "PolicyMapEntry list \<Rightarrow> PolicyUpdatePlan \<Rightarrow> string list" where
  "policyUpdateRuleRefs oldEntries plan =
     sortedPolicyRuleRefs (entry_refs (plan_Add plan) @ entry_refs (plan_Update plan) @
       entry_refs (deleted_entries oldEntries plan))"

definition policyEntriesRuleRefs :: "PolicyMapEntry list \<Rightarrow> string list" where
  "policyEntriesRuleRefs entries = sortedPolicyRuleRefs (entry_refs entries)"

definition policyEntryKeys :: "PolicyMapEntry list \<Rightarrow> PolicyKey list" where
  "policyEntryKeys entries = map pme_Key entries"


section \<open>Failure reasons\<close>

text \<open>
  A \<open>PolicyMapCapacityError\<close> is an error with one of the two messages of its type; \<open>errors.As\<close>
  looks for one in the chain of wrapped errors.
\<close>

definition formatPolicyMapCapacityHotspots :: "PolicyMapCapacityHotspot list \<Rightarrow> string" where
  "formatPolicyMapCapacityHotspots hotspots =
     strings_Join (map (\<lambda>h. caphot_RuleRef h @ '':'' @ nat_Itoa (caphot_Entries h)) hotspots) '',''"

definition PolicyMapCapacityError :: "string \<Rightarrow> nat \<Rightarrow> u32 \<Rightarrow> PolicyMapCapacityHotspot list \<Rightarrow> error" where
  "PolicyMapCapacityError endpointID desiredEntries capacity hotspots =
     (if hotspots \<noteq> [] then
        Errorf ''policy map capacity exceeded for endpoint %s: desired_entries=%d capacity=%d top_rules=%s''
          [endpointID, nat_Itoa desiredEntries, nat_Itoa (unat capacity), formatPolicyMapCapacityHotspots hotspots]
      else
        Errorf ''policy map capacity exceeded for endpoint %s: desired_entries=%d capacity=%d''
          [endpointID, nat_Itoa desiredEntries, nat_Itoa (unat capacity)])"

primrec errors_As_capacity :: "error \<Rightarrow> bool" where
  "errors_As_capacity (Errorf f args) \<longleftrightarrow>
     f = ''policy map capacity exceeded for endpoint %s: desired_entries=%d capacity=%d top_rules=%s'' \<or>
     f = ''policy map capacity exceeded for endpoint %s: desired_entries=%d capacity=%d''"
| "errors_As_capacity (Wrapf f args e) \<longleftrightarrow> errors_As_capacity e"

definition PolicyUpdateFailureReason :: "error option \<Rightarrow> string" where
  "PolicyUpdateFailureReason err =
     (case err of
        None \<Rightarrow> ''''
      | Some err \<Rightarrow>
          if errors_As_capacity err then ''capacity_exceeded''
          else
            (let message = error_Error err in
             if strings_Contains message ''canonicalize policy map entries'' \<or>
                strings_Contains message ''conflicting policy map entries''
             then ''canonicalization_failed'' else ''apply_failed''))"

definition cap_hotspot_lt :: "PolicyMapCapacityHotspot \<Rightarrow> PolicyMapCapacityHotspot \<Rightarrow> bool" where
  "cap_hotspot_lt a b =
     (if caphot_Entries a \<noteq> caphot_Entries b then caphot_Entries a > caphot_Entries b
      else caphot_RuleRef a < caphot_RuleRef b)"

definition entry_rule_name :: "PolicyMapEntry \<Rightarrow> string option" where
  "entry_rule_name entry =
     (let ruleRef = strings_TrimSpace (pme_RuleRef entry); cookie = pe_RuleCookie (pme_Value entry) in
      if ruleRef = '''' then
        if cookie = 0 then None else Some (''cookie:'' @ nat_Itoa (unat cookie))
      else Some ruleRef)"

definition policyMapCapacityHotspots :: "PolicyMapEntry list \<Rightarrow> int \<Rightarrow> PolicyMapCapacityHotspot list" where
  "policyMapCapacityHotspots entries limit =
     (if limit \<le> 0 then []
      else
        (let refs = remdups (List.map_filter entry_rule_name entries);
             hotspots = map (\<lambda>ruleRef.
               \<lparr>caphot_RuleRef = ruleRef,
                caphot_Entries = length (remdups (map pme_Key (filter (\<lambda>e. entry_rule_name e = Some ruleRef) entries)))\<rparr>) refs
         in take (nat limit) (sort_SliceStable cap_hotspot_lt hotspots)))"

definition validatePolicyMapCapacity :: "u32 \<Rightarrow> string \<Rightarrow> PolicyMapEntry list \<Rightarrow> unit result" where
  "validatePolicyMapCapacity maxEntries endpointID entries =
     (if maxEntries = 0 then Inr ()
      else
        (let unique = remdups (map pme_Key entries) in
         if (of_nat (length unique) :: u32) \<le> maxEntries then Inr ()
         else Inl (PolicyMapCapacityError endpointID (length unique) maxEntries (policyMapCapacityHotspots entries 5))))"

section \<open>Usage and pressure\<close>

definition policyMapPressurePercent :: "PolicyMapUsage \<Rightarrow> u32" where
  "policyMapPressurePercent usage =
     (if usage_Capacity usage = 0 then 0
      else if usage_Entries usage \<ge> usage_Capacity usage then 100
      else ucast (((ucast (usage_Entries usage) :: u64) * 100) div (ucast (usage_Capacity usage))))"

definition PolicyMapPressureSeverity :: "PolicyMapUsage \<Rightarrow> string" where
  "PolicyMapPressureSeverity usage =
     (let pressure = policyMapPressurePercent usage in
      if usage_Capacity usage = 0 then ''unknown''
      else if pressure \<ge> 100 then ''full''
      else if pressure \<ge> 90 then ''critical''
      else if pressure \<ge> 80 then ''warning''
      else ''normal'')"

definition PolicyMapRecommendedCapacity :: "PolicyMapUsage \<Rightarrow> u32" where
  "PolicyMapRecommendedCapacity usage =
     (if usage_Capacity usage = 0 \<or> usage_Entries usage = 0 \<or> policyMapPressurePercent usage < 80 then 0
      else ucast (((ucast (usage_Entries usage) :: u64) * 100) div 80 + 1))"

definition PolicyMapAvailableEntries :: "PolicyMapUsage \<Rightarrow> u32" where
  "PolicyMapAvailableEntries usage =
     (if usage_Capacity usage \<le> usage_Entries usage then 0 else usage_Capacity usage - usage_Entries usage)"

definition hotspot_lt :: "PolicyMapPressureHotspot \<Rightarrow> PolicyMapPressureHotspot \<Rightarrow> bool" where
  "hotspot_lt a b =
     (if hot_PressurePercent a \<noteq> hot_PressurePercent b then hot_PressurePercent b < hot_PressurePercent a
      else hot_EndpointID a < hot_EndpointID b)"

definition sortPolicyMapPressureHotspots :: "PolicyMapPressureHotspot list \<Rightarrow> PolicyMapPressureHotspot list" where
  "sortPolicyMapPressureHotspots hotspots = sort_SliceStable hotspot_lt hotspots"

definition summarize_usage :: "PolicyMapUsage \<Rightarrow> PolicyMapUsageSummary \<Rightarrow> PolicyMapUsageSummary" where
  "summarize_usage usage summary =
     (let summary = summary\<lparr>sum_Entries := sum_Entries summary + usage_Entries usage,
                            sum_Capacity := sum_Capacity summary + usage_Capacity usage\<rparr>;
          pressure = policyMapPressurePercent usage;
          severity = PolicyMapPressureSeverity usage;
          recommendedCapacity = PolicyMapRecommendedCapacity usage;
          summary = (if pressure > 0 then
            summary\<lparr>sum_PressureHotspots := sum_PressureHotspots summary @
              [\<lparr>hot_EndpointID = usage_EndpointID usage, hot_Entries = usage_Entries usage,
                hot_Capacity = usage_Capacity usage, hot_AvailableEntries = PolicyMapAvailableEntries usage,
                hot_PressurePercent = pressure, hot_Severity = severity, hot_RecommendedCapacity = recommendedCapacity\<rparr>]\<rparr>
            else summary);
          summary = (if pressure > sum_MaxPressurePercent summary \<or>
              pressure = sum_MaxPressurePercent summary \<and> pressure > 0 \<and>
              (sum_MaxPressureEndpoint summary = '''' \<or> usage_EndpointID usage < sum_MaxPressureEndpoint summary)
            then summary\<lparr>sum_MaxPressurePercent := pressure, sum_MaxPressureEndpoint := usage_EndpointID usage,
                         sum_MaxPressureSeverity := severity\<rparr>
            else summary);
          summary = (if recommendedCapacity > sum_RecommendedCapacity summary \<or>
              recommendedCapacity = sum_RecommendedCapacity summary \<and> recommendedCapacity > 0 \<and>
              (sum_RecommendedCapacityEndpoint summary = '''' \<or>
               usage_EndpointID usage < sum_RecommendedCapacityEndpoint summary)
            then summary\<lparr>sum_RecommendedCapacity := recommendedCapacity,
                         sum_RecommendedCapacityEndpoint := usage_EndpointID usage\<rparr>
            else summary)
      in if pressure \<ge> 80 then summary\<lparr>sum_PressureEndpoints := sum_PressureEndpoints summary + 1\<rparr> else summary)"

definition SummarizePolicyMapUsage :: "PolicyMapUsage list \<Rightarrow> PolicyMapUsageSummary" where
  "SummarizePolicyMapUsage usages =
     (let summary = fold summarize_usage usages
            \<lparr>sum_Entries = 0, sum_Capacity = 0, sum_MaxPressurePercent = 0, sum_MaxPressureEndpoint = [],
             sum_MaxPressureSeverity = ''unknown'', sum_RecommendedCapacity = 0, sum_RecommendedCapacityEndpoint = [],
             sum_PressureEndpoints = 0, sum_PressureHotspots = []\<rparr>;
          summary = (if sum_MaxPressureEndpoint summary = '''' \<and> sum_Capacity summary > 0
                     then summary\<lparr>sum_MaxPressureSeverity := ''normal''\<rparr> else summary);
          hotspots = sortPolicyMapPressureHotspots (sum_PressureHotspots summary)
      in summary\<lparr>sum_PressureHotspots := take DefaultPolicyMapPressureHotspotLimit hotspots\<rparr>)"

definition SummarizePolicyMapDrift :: "PolicyMapDrift list \<Rightarrow> PolicyMapDriftSummary" where
  "SummarizePolicyMapDrift reports =
     fold (\<lambda>report summary.
       \<lparr>dsum_Endpoints = dsum_Endpoints summary + 1,
        dsum_DriftedEndpoints = dsum_DriftedEndpoints summary + (if drift_Drifted report then 1 else 0),
        dsum_MissingEntries = dsum_MissingEntries summary + drift_Missing report,
        dsum_ExtraEntries = dsum_ExtraEntries summary + drift_Extra report,
        dsum_ChangedEntries = dsum_ChangedEntries summary + drift_Changed report\<rparr>) reports
       \<lparr>dsum_Endpoints = 0, dsum_DriftedEndpoints = 0, dsum_MissingEntries = 0, dsum_ExtraEntries = 0,
        dsum_ChangedEntries = 0\<rparr>"


section \<open>Operations\<close>

definition recordPolicyUpdateFailure ::
    "string \<Rightarrow> u64 \<Rightarrow> u64 \<Rightarrow> PolicyUpdateStats \<Rightarrow> u32 list \<Rightarrow> string list \<Rightarrow> error \<Rightarrow> time \<Rightarrow>
     InMemoryPolicyStore \<Rightarrow> InMemoryPolicyStore" where
  "recordPolicyUpdateFailure endpointID previousRevision revision stats ruleCookies ruleRefs err now s =
     s\<lparr>store_events := appendPolicyUpdateEvent (store_events s)
         (zero_event\<lparr>ev_EndpointID := endpointID, ev_PreviousRevision := previousRevision, ev_Revision := revision,
            ev_OccurredAt := policyEventOccurredAt now, ev_Stats := stats\<lparr>stats_Revision := revision\<rparr>,
            ev_RuleCookies := ruleCookies, ev_RuleRefs := ruleRefs, ev_Success := False,
            ev_FailureReason := PolicyUpdateFailureReason (Some err), ev_Error := error_Error err\<rparr>)\<rparr>"

text \<open>One write to the map; with \<open>failAfter\<close> set, the write after that many fails.\<close>

definition counted ::
    "int \<Rightarrow> ('a \<Rightarrow> PolicyMapEntry list \<Rightarrow> PolicyMapEntry list) \<Rightarrow> 'a \<Rightarrow>
     PolicyMapEntry list \<times> nat \<Rightarrow> (PolicyMapEntry list \<times> nat) result" where
  "counted failAfter f x = (\<lambda>(nxt, applied).
     if failAfter > 0 \<and> int applied \<ge> failAfter
     then Inl (Errorf ''in-memory policy update failed after %d operations'' [nat_Itoa applied])
     else Inr (f x nxt, applied + 1))"

definition apply_step ::
    "int \<Rightarrow> PolicyUpdatePlan \<Rightarrow> policyUpdateStep \<Rightarrow> PolicyMapEntry list \<times> nat \<Rightarrow> (PolicyMapEntry list \<times> nat) result" where
  "apply_step failAfter plan step st =
     (case step of
        policyUpdateStepAddUpdate \<Rightarrow>
          fold_result (counted failAfter (\<lambda>entry nxt. upsertEntry nxt entry)) (plan_Add plan @ plan_Update plan) st
      | policyUpdateStepDelete \<Rightarrow>
          fold_result (counted failAfter (\<lambda>key nxt. deleteEntry nxt key)) (plan_Delete plan) st)"

definition ReplaceEndpoint ::
    "InMemoryPolicyStore \<Rightarrow> string \<Rightarrow> PolicyMapEntry list \<Rightarrow> time \<Rightarrow> InMemoryPolicyStore \<times> unit result" where
  "ReplaceEndpoint s endpointID entries now =
     (let previousRevision = gomap_get 0 (store_revisions s) endpointID;
          revision = previousRevision + 1;
          old = gomap_get [] (store_endpoints s) endpointID
      in case canonicalPolicyMapEntries entries of
           Inl e \<Rightarrow>
             let err = Wrapf ''canonicalize policy map entries for endpoint %s: %w'' [endpointID] e
             in (recordPolicyUpdateFailure endpointID previousRevision revision zero_stats
                   (policyEntriesRuleCookies entries) (policyEntriesRuleRefs entries) err now s, Inl err)
         | Inr desired \<Rightarrow>
             let plan = PlanPolicyUpdate old desired;
                 ruleCookies = policyUpdateRuleCookies old plan;
                 ruleRefs = policyUpdateRuleRefs old plan
             in case fold_result (apply_step (store_failAfter s) plan)
                       (policyUpdateSequence (length old) plan 0 False) (old, 0) of
                  Inl err \<Rightarrow>
                    (recordPolicyUpdateFailure endpointID previousRevision revision (Plan_Stats plan)
                       ruleCookies ruleRefs err now s, Inl err)
                | Inr (nxt, _) \<Rightarrow>
                    let stats = (Plan_Stats plan)\<lparr>stats_Revision := revision\<rparr>
                    in (s\<lparr>store_endpoints := AList.update endpointID (canonicalPolicyEntries nxt) (store_endpoints s),
                          store_revisions := AList.update endpointID revision (store_revisions s),
                          store_lastStats := AList.update endpointID stats (store_lastStats s),
                          store_lastSeen := AList.update endpointID now (store_lastSeen s),
                          store_events := appendPolicyUpdateEvent (store_events s)
                            (zero_event\<lparr>ev_EndpointID := endpointID, ev_PreviousRevision := previousRevision,
                               ev_Revision := revision, ev_OccurredAt := policyEventOccurredAt now, ev_Stats := stats,
                               ev_RuleCookies := ruleCookies, ev_RuleRefs := ruleRefs, ev_Success := True\<rparr>)\<rparr>,
                        Inr ()))"

definition recordEndpointDeleteEventLocked :: "string \<Rightarrow> time \<Rightarrow> InMemoryPolicyStore \<Rightarrow> InMemoryPolicyStore" where
  "recordEndpointDeleteEventLocked endpointID now s =
     (let entries = gomap_get [] (store_endpoints s) endpointID;
          previousRevision = gomap_get 0 (store_revisions s) endpointID
      in if entries = [] \<and> previousRevision = 0 \<and> map_of (store_lastStats s) endpointID = None \<and>
            map_of (store_lastSeen s) endpointID = None then s
         else
           (let stats = zero_stats\<lparr>stats_Revision := previousRevision + 1, stats_Deleted := length entries\<rparr>;
                plan = \<lparr>plan_Add = [], plan_Update = [], plan_Delete = policyEntryKeys entries, plan_Unchanged = []\<rparr>
            in s\<lparr>store_events := appendPolicyUpdateEvent (store_events s)
                  (zero_event\<lparr>ev_EndpointID := endpointID, ev_PreviousRevision := previousRevision,
                     ev_Revision := stats_Revision stats, ev_OccurredAt := policyEventOccurredAt now, ev_Stats := stats,
                     ev_RuleCookies := policyUpdateRuleCookies entries plan,
                     ev_RuleRefs := policyUpdateRuleRefs entries plan, ev_Success := True\<rparr>)\<rparr>))"

definition deleteEndpointLocked :: "string \<Rightarrow> InMemoryPolicyStore \<Rightarrow> InMemoryPolicyStore" where
  "deleteEndpointLocked endpointID s =
     s\<lparr>store_endpoints := AList.delete endpointID (store_endpoints s),
       store_lastStats := AList.delete endpointID (store_lastStats s),
       store_lastSeen := AList.delete endpointID (store_lastSeen s),
       store_revisions := AList.delete endpointID (store_revisions s)\<rparr>"

definition Store_DeleteEndpoint :: "InMemoryPolicyStore \<Rightarrow> string \<Rightarrow> time \<Rightarrow> InMemoryPolicyStore" where
  "Store_DeleteEndpoint s endpointID now =
     deleteEndpointLocked endpointID (recordEndpointDeleteEventLocked endpointID now s)"

definition policyEndpointIDsLocked :: "InMemoryPolicyStore \<Rightarrow> string list" where
  "policyEndpointIDsLocked s =
     remdups (map fst (store_endpoints s) @ map fst (store_revisions s) @ map fst (store_lastStats s) @
       map fst (store_lastSeen s))"

definition EndpointIDs :: "InMemoryPolicyStore \<Rightarrow> string list" where
  "EndpointIDs s = sort_Strings (policyEndpointIDsLocked s)"

definition sweep_endpoint ::
    "string list \<Rightarrow> duration \<Rightarrow> time \<Rightarrow> string \<Rightarrow> InMemoryPolicyStore \<times> nat \<Rightarrow> InMemoryPolicyStore \<times> nat" where
  "sweep_endpoint keep maxIdle now endpointID = (\<lambda>(s, swept).
     if List.member keep endpointID then (s, swept)
     else
       (let lastSeen = gomap_get 0 (store_lastSeen s) endpointID;
            s = (if time_IsZero lastSeen then s\<lparr>store_lastSeen := AList.update endpointID now (store_lastSeen s)\<rparr> else s);
            lastSeen = (if time_IsZero lastSeen then now else lastSeen)
        in if time_Sub now lastSeen < maxIdle then (s, swept)
           else (deleteEndpointLocked endpointID (recordEndpointDeleteEventLocked endpointID now s), swept + 1)))"

text \<open>\<open>ctxErr\<close> is the error of the context, if it is done.\<close>

definition SweepPolicyEndpoints ::
    "error option \<Rightarrow> InMemoryPolicyStore \<Rightarrow> string list \<Rightarrow> duration \<Rightarrow> time \<Rightarrow> InMemoryPolicyStore \<times> nat result" where
  "SweepPolicyEndpoints ctxErr s keep maxIdle now =
     (case ctxErr of
        Some e \<Rightarrow> (s, Inl e)
      | None \<Rightarrow>
          if maxIdle \<le> 0 then (s, Inr 0)
          else
            (let (s', swept) = fold (sweep_endpoint keep maxIdle now) (policyEndpointIDsLocked s) (s, 0)
             in (s', Inr swept)))"

definition Store_Entries :: "InMemoryPolicyStore \<Rightarrow> string \<Rightarrow> PolicyMapEntry list" where
  "Store_Entries s endpointID = gomap_get [] (store_endpoints s) endpointID"

definition Store_LastStats :: "InMemoryPolicyStore \<Rightarrow> string \<Rightarrow> PolicyUpdateStats" where
  "Store_LastStats s endpointID = gomap_get zero_stats (store_lastStats s) endpointID"

definition Store_Revision :: "InMemoryPolicyStore \<Rightarrow> string \<Rightarrow> u64" where
  "Store_Revision s endpointID = gomap_get 0 (store_revisions s) endpointID"

definition ClearEvents ::
    "InMemoryPolicyStore \<Rightarrow> (PolicyUpdateEvent \<Rightarrow> bool) option \<Rightarrow>
     InMemoryPolicyStore \<times> nat \<times> PolicyUpdateEvent list \<times> PolicyUpdateEvent list" where
  "ClearEvents s match =
     (let total = length (store_events s);
          hit = (\<lambda>event. case match of None \<Rightarrow> False | Some f \<Rightarrow> f event);
          nxt = filter (\<lambda>event. \<not> hit event) (store_events s);
          cleared = filter hit (store_events s)
      in (s\<lparr>store_events := nxt\<rparr>, total, nxt, cleared))"

definition Store_PolicyMapUsage :: "InMemoryPolicyStore \<Rightarrow> PolicyMapUsage list" where
  "Store_PolicyMapUsage s =
     sort_SliceStable (\<lambda>a b. usage_EndpointID a < usage_EndpointID b)
       (map (\<lambda>(endpointID, entries).
          \<lparr>usage_EndpointID = endpointID, usage_Entries = of_nat (length entries), usage_Capacity = 0\<rparr>)
        (store_endpoints s))"

definition Store_PolicyMapDrift :: "InMemoryPolicyStore \<Rightarrow> PolicyMapDrift list" where
  "Store_PolicyMapDrift s =
     map (\<lambda>endpointID. let entries = gomap_get [] (store_endpoints s) endpointID
            in DiffPolicyMapEntries endpointID entries entries)
       (sort_Strings (map fst (store_endpoints s)))"

definition PolicyEndpointStatuses :: "InMemoryPolicyStore \<Rightarrow> PolicyEndpointStatus list" where
  "PolicyEndpointStatuses s =
     map (\<lambda>endpointID.
       let entries = gomap_get [] (store_endpoints s) endpointID;
           usage = \<lparr>usage_EndpointID = endpointID, usage_Entries = of_nat (length entries), usage_Capacity = 0\<rparr>;
           event = lastPolicyUpdateEvent (store_events s) endpointID
       in \<lparr>st_EndpointID = endpointID,
           st_Revision = gomap_get 0 (store_revisions s) endpointID,
           st_Entries = of_nat (length entries),
           st_Capacity = 0,
           st_LastSeen = policyEndpointLastSeen (gomap_get 0 (store_lastSeen s) endpointID),
           st_PressurePercent = policyMapPressurePercent usage,
           st_PressureSeverity = PolicyMapPressureSeverity usage,
           st_Drift = DiffPolicyMapEntries endpointID entries entries,
           st_LastStats = gomap_get zero_stats (store_lastStats s) endpointID,
           st_LastEvent = (case event of None \<Rightarrow> zero_event | Some e \<Rightarrow> e),
           st_HasLastEvent = (event \<noteq> None)\<rparr>)
       (sort_Strings (policyEndpointIDsLocked s))"

definition SetFailAfter :: "InMemoryPolicyStore \<Rightarrow> int \<Rightarrow> InMemoryPolicyStore" where
  "SetFailAfter s operations = s\<lparr>store_failAfter := operations\<rparr>"

text \<open>The backend's store is an interface value: its method is an argument.\<close>

definition ApplyEndpointProgram ::
    "bool \<Rightarrow> ('s \<Rightarrow> string \<Rightarrow> PolicyMapEntry list \<Rightarrow> 's \<times> unit result) \<Rightarrow> 's \<Rightarrow> Program \<Rightarrow> 's \<times> unit result" where
  "ApplyEndpointProgram little Replace s program =
     (case EncodeProgram little program of
        Inl e \<Rightarrow> (s, Inl e)
      | Inr entries \<Rightarrow> Replace s (prog_EndpointID program) entries)"

end
