(* ===== verification/Recorder.thy ===== *)
theory Recorder
  imports Evaluator PolicyStore Strings
begin

text \<open>
  The observer \<open>PolicyRecorder\<close> of \<open>internal/dataplane/evaluator.go\<close>: traces, counters of endpoints and of
  rules, drop events and logged events.  Counters are 64-bit words.  The lemmas show that the counters
  recount the decisions observed, and that an evaluator run with the recorder decides as one without.
\<close>

section \<open>Data\<close>

datatype DropReason = DropReasonPolicyDeny | DropReasonPolicyReject | DropReasonNoMatch

record DropEvent =
  drop_EndpointID :: string
  drop_Reason :: DropReason
  drop_RemoteIdentity :: u32
  drop_RemoteIP :: addr
  drop_Direction :: u8
  drop_Protocol :: u8
  drop_DestPort :: u16
  drop_RuleCookie :: u32
  drop_RuleRef :: string

record PolicyEvent =
  pev_EndpointID :: string
  pev_Verdict :: Verdict
  pev_RemoteIdentity :: u32
  pev_RemoteIP :: addr
  pev_Direction :: u8
  pev_Protocol :: u8
  pev_DestPort :: u16
  pev_RuleCookie :: u32
  pev_RuleRef :: string
  pev_Conntrack :: bool
  pev_Established :: bool

record TraceEvent =
  tr_EndpointID :: string
  tr_Verdict :: Verdict
  tr_RemoteIdentity :: u32
  tr_RemoteIP :: addr
  tr_Direction :: u8
  tr_Protocol :: u8
  tr_DestPort :: u16
  tr_ICMPType :: u8
  tr_ICMPCode :: u8
  tr_RuleCookie :: u32
  tr_RuleRef :: string
  tr_Conntrack :: bool
  tr_Established :: bool
  tr_NoMatchDrop :: bool
  tr_DenyDrop :: bool
  tr_RejectDrop :: bool

record PolicyMetrics =
  pm_Allowed :: u64
  pm_Dropped :: u64
  pm_Conntrack :: u64
  pm_Established :: u64
  pm_NoMatchDrops :: u64
  pm_DenyDrops :: u64
  pm_RejectDrops :: u64
  pm_Logged :: u64

record RuleMetrics =
  rm_EndpointID :: string
  rm_RuleCookie :: u32
  rm_Packets :: u64
  rm_Bytes :: u64
  rm_Allowed :: u64
  rm_Dropped :: u64
  rm_Rejected :: u64
  rm_NoMatchDrops :: u64
  rm_DenyDrops :: u64
  rm_RejectDrops :: u64
  rm_Conntrack :: u64
  rm_Established :: u64
  rm_Logged :: u64

record PolicyRecorder =
  rec_metrics :: "(string, PolicyMetrics) gomap"
  rec_rules :: "(string, RuleMetrics) gomap"
  rec_drops :: "DropEvent list"
  rec_events :: "PolicyEvent list"
  rec_traces :: "TraceEvent list"

definition NewPolicyRecorder :: PolicyRecorder where
  "NewPolicyRecorder = \<lparr>rec_metrics = [], rec_rules = [], rec_drops = [], rec_events = [], rec_traces = []\<rparr>"

text \<open>The zero values.\<close>

definition zero_PolicyMetrics :: PolicyMetrics where
  "zero_PolicyMetrics =
     \<lparr>pm_Allowed = 0, pm_Dropped = 0, pm_Conntrack = 0, pm_Established = 0, pm_NoMatchDrops = 0, pm_DenyDrops = 0,
      pm_RejectDrops = 0, pm_Logged = 0\<rparr>"

definition zero_RuleMetrics :: RuleMetrics where
  "zero_RuleMetrics =
     \<lparr>rm_EndpointID = [], rm_RuleCookie = 0, rm_Packets = 0, rm_Bytes = 0, rm_Allowed = 0, rm_Dropped = 0, rm_Rejected = 0,
      rm_NoMatchDrops = 0, rm_DenyDrops = 0, rm_RejectDrops = 0, rm_Conntrack = 0, rm_Established = 0, rm_Logged = 0\<rparr>"


section \<open>Observing a decision\<close>

definition ruleCookie :: "Decision \<Rightarrow> u32" where
  "ruleCookie d = (case dec_Match d of None \<Rightarrow> 0 | Some e \<Rightarrow> pe_RuleCookie (pme_Value e))"

definition rule_ref :: "Decision \<Rightarrow> string" where
  "rule_ref d = (case dec_Match d of None \<Rightarrow> '''' | Some e \<Rightarrow> pme_RuleRef e)"

definition ruleMetricsKey :: "string \<Rightarrow> Decision \<Rightarrow> string" where
  "ruleMetricsKey endpointID d = endpointID @ ''|'' @ nat_Itoa (unat (ruleCookie d))"

definition observedPacketBytes :: "Packet \<Rightarrow> u64" where
  "observedPacketBytes packet = (if pkt_Bytes packet \<noteq> 0 then ucast (pkt_Bytes packet) else 64)"

definition shouldLogPolicy :: "Decision \<Rightarrow> bool" where
  "shouldLogPolicy d = (case dec_Match d of None \<Rightarrow> False | Some e \<Rightarrow> pe_Log (pme_Value e) \<noteq> 0)"

definition policyEvent :: "string \<Rightarrow> Packet \<Rightarrow> Decision \<Rightarrow> PolicyEvent" where
  "policyEvent endpointID packet d =
     \<lparr>pev_EndpointID = endpointID, pev_Verdict = dec_Verdict d, pev_RemoteIdentity = pkt_RemoteIdentity packet,
      pev_RemoteIP = pkt_RemoteIP packet, pev_Direction = pkt_Direction packet, pev_Protocol = pkt_Protocol packet,
      pev_DestPort = pkt_DestPort packet, pev_RuleCookie = ruleCookie d, pev_RuleRef = rule_ref d,
      pev_Conntrack = dec_Conntrack d, pev_Established = dec_Established d\<rparr>"

definition traceEvent :: "string \<Rightarrow> Packet \<Rightarrow> Decision \<Rightarrow> TraceEvent" where
  "traceEvent endpointID packet d =
     (let dropped = (dec_Verdict d = VerdictDrop \<or> dec_Verdict d = VerdictReject);
          rejectDrop = (dec_Match d \<noteq> None \<and> dec_Verdict d = VerdictReject)
      in \<lparr>tr_EndpointID = endpointID, tr_Verdict = dec_Verdict d, tr_RemoteIdentity = pkt_RemoteIdentity packet,
          tr_RemoteIP = pkt_RemoteIP packet, tr_Direction = pkt_Direction packet, tr_Protocol = pkt_Protocol packet,
          tr_DestPort = pkt_DestPort packet, tr_ICMPType = pkt_ICMPType packet, tr_ICMPCode = pkt_ICMPCode packet,
          tr_RuleCookie = ruleCookie d, tr_RuleRef = rule_ref d, tr_Conntrack = dec_Conntrack d,
          tr_Established = dec_Established d, tr_NoMatchDrop = (dropped \<and> dec_Match d = None),
          tr_DenyDrop = (dropped \<and> dec_Match d \<noteq> None \<and> \<not> rejectDrop), tr_RejectDrop = (dropped \<and> rejectDrop)\<rparr>)"

definition start_rule_metrics :: "string \<Rightarrow> Packet \<Rightarrow> Decision \<Rightarrow> RuleMetrics \<Rightarrow> RuleMetrics" where
  "start_rule_metrics endpointID packet d rm =
     (let rm = (if rm_EndpointID rm = '''' then rm\<lparr>rm_EndpointID := endpointID, rm_RuleCookie := ruleCookie d\<rparr> else rm)
      in rm\<lparr>rm_Packets := rm_Packets rm + 1, rm_Bytes := rm_Bytes rm + observedPacketBytes packet\<rparr>)"

text \<open>The counters of an allowed packet.\<close>

definition count_allowed :: "Decision \<Rightarrow> PolicyMetrics \<times> RuleMetrics \<Rightarrow> PolicyMetrics \<times> RuleMetrics" where
  "count_allowed d = (\<lambda>(pm, rm).
     (let pm = pm\<lparr>pm_Allowed := pm_Allowed pm + 1\<rparr>; rm = rm\<lparr>rm_Allowed := rm_Allowed rm + 1\<rparr>;
          (pm, rm) = (if dec_Conntrack d
            then (pm\<lparr>pm_Conntrack := pm_Conntrack pm + 1\<rparr>, rm\<lparr>rm_Conntrack := rm_Conntrack rm + 1\<rparr>) else (pm, rm));
          (pm, rm) = (if dec_Established d
            then (pm\<lparr>pm_Established := pm_Established pm + 1\<rparr>, rm\<lparr>rm_Established := rm_Established rm + 1\<rparr>) else (pm, rm))
      in (pm, rm)))"

text \<open>The counters of a dropped packet, by reason.\<close>

definition count_dropped :: "Decision \<Rightarrow> PolicyMetrics \<times> RuleMetrics \<Rightarrow> PolicyMetrics \<times> RuleMetrics" where
  "count_dropped d = (\<lambda>(pm, rm).
     (let pm = pm\<lparr>pm_Dropped := pm_Dropped pm + 1\<rparr>; rm = rm\<lparr>rm_Dropped := rm_Dropped rm + 1\<rparr> in
      if dec_Match d = None then
        (pm\<lparr>pm_NoMatchDrops := pm_NoMatchDrops pm + 1\<rparr>, rm\<lparr>rm_NoMatchDrops := rm_NoMatchDrops rm + 1\<rparr>)
      else if dec_Verdict d = VerdictReject then
        (pm\<lparr>pm_RejectDrops := pm_RejectDrops pm + 1\<rparr>,
         rm\<lparr>rm_Rejected := rm_Rejected rm + 1, rm_RejectDrops := rm_RejectDrops rm + 1\<rparr>)
      else (pm\<lparr>pm_DenyDrops := pm_DenyDrops pm + 1\<rparr>, rm\<lparr>rm_DenyDrops := rm_DenyDrops rm + 1\<rparr>)))"

definition count_logged :: "Decision \<Rightarrow> PolicyMetrics \<times> RuleMetrics \<Rightarrow> PolicyMetrics \<times> RuleMetrics" where
  "count_logged d = (\<lambda>(pm, rm).
     if shouldLogPolicy d then (pm\<lparr>pm_Logged := pm_Logged pm + 1\<rparr>, rm\<lparr>rm_Logged := rm_Logged rm + 1\<rparr>) else (pm, rm))"

definition drop_event :: "string \<Rightarrow> Packet \<Rightarrow> Decision \<Rightarrow> DropEvent" where
  "drop_event endpointID packet d =
     \<lparr>drop_EndpointID = endpointID,
      drop_Reason =
        (if dec_Match d = None then DropReasonNoMatch
         else if dec_Verdict d = VerdictReject then DropReasonPolicyReject else DropReasonPolicyDeny),
      drop_RemoteIdentity = pkt_RemoteIdentity packet, drop_RemoteIP = pkt_RemoteIP packet,
      drop_Direction = pkt_Direction packet, drop_Protocol = pkt_Protocol packet, drop_DestPort = pkt_DestPort packet,
      drop_RuleCookie = ruleCookie d, drop_RuleRef = rule_ref d\<rparr>"

definition Observe :: "PolicyRecorder \<Rightarrow> string \<Rightarrow> Packet \<Rightarrow> Decision \<Rightarrow> PolicyRecorder" where
  "Observe r endpointID packet d =
     (let r = r\<lparr>rec_traces := rec_traces r @ [traceEvent endpointID packet d]\<rparr>;
          ruleKey = ruleMetricsKey endpointID d;
          counters = (gomap_get zero_PolicyMetrics (rec_metrics r) endpointID,
                      start_rule_metrics endpointID packet d (gomap_get zero_RuleMetrics (rec_rules r) ruleKey));
          allowed = (dec_Verdict d = VerdictAllow);
          (metrics, ruleMetrics) = count_logged d (if allowed then count_allowed d counters else count_dropped d counters);
          r = (if shouldLogPolicy d then r\<lparr>rec_events := rec_events r @ [policyEvent endpointID packet d]\<rparr> else r);
          r = r\<lparr>rec_metrics := AList.update endpointID metrics (rec_metrics r),
                rec_rules := AList.update ruleKey ruleMetrics (rec_rules r)\<rparr>
      in if allowed then r else r\<lparr>rec_drops := rec_drops r @ [drop_event endpointID packet d]\<rparr>)"

definition Metrics :: "PolicyRecorder \<Rightarrow> string \<Rightarrow> PolicyMetrics" where
  "Metrics r endpointID = gomap_get zero_PolicyMetrics (rec_metrics r) endpointID"

definition Recorder_RuleMetrics :: "PolicyRecorder \<Rightarrow> string \<Rightarrow> RuleMetrics list" where
  "Recorder_RuleMetrics r endpointID =
     sort_SliceStable (\<lambda>a b. rm_RuleCookie a < rm_RuleCookie b)
       (filter (\<lambda>rm. rm_EndpointID rm = endpointID) (map snd (rec_rules r)))"

definition rule_metrics_lt :: "RuleMetrics \<Rightarrow> RuleMetrics \<Rightarrow> bool" where
  "rule_metrics_lt a b =
     (if rm_EndpointID a < rm_EndpointID b then True
      else if rm_EndpointID a > rm_EndpointID b then False
      else rm_RuleCookie a < rm_RuleCookie b)"

definition AllRuleMetrics :: "PolicyRecorder \<Rightarrow> RuleMetrics list" where
  "AllRuleMetrics r = sort_SliceStable rule_metrics_lt (map snd (rec_rules r))"


section \<open>What the counters count\<close>

type_synonym observation = "string \<times> Packet \<times> Decision"

definition observe_all :: "observation list \<Rightarrow> PolicyRecorder \<Rightarrow> PolicyRecorder" where
  "observe_all obs r = fold (\<lambda>(ep, packet, d) r. Observe r ep packet d) obs r"

definition occurrences :: "(observation \<Rightarrow> bool) \<Rightarrow> observation list \<Rightarrow> u64" where
  "occurrences P obs = of_nat (length (filter P obs))"

lemma occurrences_Nil [simp]: "occurrences P [] = 0"
  by (simp add: occurrences_def)

lemma occurrences_snoc [simp]:
  "occurrences P (obs @ [x]) = occurrences P obs + (if P x then 1 else 0)"
  by (simp add: occurrences_def)

abbreviation obs_allowed :: "Decision \<Rightarrow> bool" where
  "obs_allowed d \<equiv> dec_Verdict d = VerdictAllow"

abbreviation obs_rejected :: "Decision \<Rightarrow> bool" where
  "obs_rejected d \<equiv> dec_Match d \<noteq> None \<and> dec_Verdict d = VerdictReject"

abbreviation obs_denied :: "Decision \<Rightarrow> bool" where
  "obs_denied d \<equiv> dec_Match d \<noteq> None \<and> dec_Verdict d = VerdictDrop"

abbreviation obs_unmatched :: "Decision \<Rightarrow> bool" where
  "obs_unmatched d \<equiv> dec_Match d = None \<and> \<not> obs_allowed d"

text \<open>The counters of an endpoint, recounted from the decisions.\<close>

definition recount :: "observation list \<Rightarrow> string \<Rightarrow> PolicyMetrics" where
  "recount obs ep =
     (let n = (\<lambda>P. occurrences (\<lambda>(e, _, d). e = ep \<and> P d) obs) in
      \<lparr>pm_Allowed = n obs_allowed, pm_Dropped = n (\<lambda>d. \<not> obs_allowed d),
       pm_Conntrack = n (\<lambda>d. obs_allowed d \<and> dec_Conntrack d), pm_Established = n (\<lambda>d. obs_allowed d \<and> dec_Established d),
       pm_NoMatchDrops = n obs_unmatched, pm_DenyDrops = n obs_denied, pm_RejectDrops = n obs_rejected,
       pm_Logged = n shouldLogPolicy\<rparr>)"

lemma observe_all_snoc: "observe_all (obs @ [(ep, packet, d)]) r = Observe (observe_all obs r) ep packet d"
  by (simp add: observe_all_def)

definition counters :: "PolicyRecorder \<Rightarrow> string \<Rightarrow> Packet \<Rightarrow> Decision \<Rightarrow> PolicyMetrics \<times> RuleMetrics" where
  "counters r ep packet d =
     count_logged d ((if obs_allowed d then count_allowed d else count_dropped d)
       (Metrics r ep, start_rule_metrics ep packet d (gomap_get zero_RuleMetrics (rec_rules r) (ruleMetricsKey ep d))))"

lemma Observe_fields:
  "rec_metrics (Observe r ep packet d) = AList.update ep (fst (counters r ep packet d)) (rec_metrics r)"
  "rec_rules (Observe r ep packet d) = AList.update (ruleMetricsKey ep d) (snd (counters r ep packet d)) (rec_rules r)"
  "rec_traces (Observe r ep packet d) = rec_traces r @ [traceEvent ep packet d]"
  "rec_drops (Observe r ep packet d) = rec_drops r @ (if obs_allowed d then [] else [drop_event ep packet d])"
  "rec_events (Observe r ep packet d) = rec_events r @ (if shouldLogPolicy d then [policyEvent ep packet d] else [])"
  by (simp_all add: Observe_def counters_def Metrics_def Let_def split_beta)

lemma count_fst:
  "fst (count_logged d x) = (if shouldLogPolicy d then (fst x)\<lparr>pm_Logged := pm_Logged (fst x) + 1\<rparr> else fst x)"
  "fst (count_allowed d x) =
     (let pm = (fst x)\<lparr>pm_Allowed := pm_Allowed (fst x) + 1\<rparr>;
          pm = (if dec_Conntrack d then pm\<lparr>pm_Conntrack := pm_Conntrack pm + 1\<rparr> else pm)
      in if dec_Established d then pm\<lparr>pm_Established := pm_Established pm + 1\<rparr> else pm)"
  "fst (count_dropped d x) =
     (let pm = (fst x)\<lparr>pm_Dropped := pm_Dropped (fst x) + 1\<rparr> in
      if dec_Match d = None then pm\<lparr>pm_NoMatchDrops := pm_NoMatchDrops pm + 1\<rparr>
      else if dec_Verdict d = VerdictReject then pm\<lparr>pm_RejectDrops := pm_RejectDrops pm + 1\<rparr>
      else pm\<lparr>pm_DenyDrops := pm_DenyDrops pm + 1\<rparr>)"
  by (simp_all add: count_logged_def count_allowed_def count_dropped_def Let_def split_beta)

lemma recount_snoc:
  "recount (obs @ [(e, packet, d)]) ep =
     (if ep = e then fst (count_logged d ((if obs_allowed d then count_allowed d else count_dropped d) (recount obs e, x)))
      else recount obs ep)"
  by (cases "dec_Verdict d"; cases "dec_Match d"; cases "shouldLogPolicy d"; cases "dec_Conntrack d"; cases "dec_Established d")
    (simp_all add: recount_def Let_def count_fst)

lemma Metrics_observe_all: "Metrics (observe_all obs NewPolicyRecorder) ep = recount obs ep"
proof (induction obs arbitrary: ep rule: rev_induct)
  case Nil
  show ?case
    by (simp add: observe_all_def recount_def Metrics_def NewPolicyRecorder_def gomap_get_def zero_PolicyMetrics_def Let_def)
next
  case (snoc x obs)
  obtain e packet d where x: "x = (e, packet, d)" by (cases x)
  show ?case
  proof (cases "ep = e")
    case True
    have "Metrics (observe_all (obs @ [x]) NewPolicyRecorder) ep = fst (counters (observe_all obs NewPolicyRecorder) e packet d)"
      by (simp add: Metrics_def x observe_all_snoc Observe_fields gomap_get_def True update_conv')
    also have "\<dots> = recount (obs @ [x]) ep"
      unfolding counters_def snoc x True recount_snoc [of obs e packet d e, where x = "start_rule_metrics e packet d
        (gomap_get zero_RuleMetrics (rec_rules (observe_all obs NewPolicyRecorder)) (ruleMetricsKey e d))"] by simp
    finally show ?thesis .
  next
    case False
    then have "Metrics (observe_all (obs @ [x]) NewPolicyRecorder) ep = Metrics (observe_all obs NewPolicyRecorder) ep"
      by (simp add: Metrics_def x observe_all_snoc Observe_fields gomap_get_def update_conv')
    with False show ?thesis by (simp add: x snoc recount_snoc [where x = zero_RuleMetrics])
  qed
qed

text \<open>The counters of a rule of an endpoint, recounted from the decisions.\<close>

definition occurring :: "observation list \<Rightarrow> (string \<times> u32) set" where
  "occurring obs = (\<lambda>(ep, _, d). (ep, ruleCookie d)) ` set obs"

definition recount_rule :: "observation list \<Rightarrow> string \<times> u32 \<Rightarrow> RuleMetrics" where
  "recount_rule obs rule =
     (let n = (\<lambda>P. occurrences (\<lambda>(e, _, d). (e, ruleCookie d) = rule \<and> P d) obs) in
      \<lparr>rm_EndpointID = fst rule, rm_RuleCookie = snd rule, rm_Packets = n (\<lambda>_. True),
       rm_Bytes = sum_list (map (\<lambda>(_, packet, _). observedPacketBytes packet)
         (filter (\<lambda>(e, _, d). (e, ruleCookie d) = rule) obs)),
       rm_Allowed = n obs_allowed, rm_Dropped = n (\<lambda>d. \<not> obs_allowed d), rm_Rejected = n obs_rejected,
       rm_NoMatchDrops = n obs_unmatched, rm_DenyDrops = n obs_denied, rm_RejectDrops = n obs_rejected,
       rm_Conntrack = n (\<lambda>d. obs_allowed d \<and> dec_Conntrack d), rm_Established = n (\<lambda>d. obs_allowed d \<and> dec_Established d),
       rm_Logged = n shouldLogPolicy\<rparr>)"

lemma count_snd:
  "snd (count_logged d x) = (if shouldLogPolicy d then (snd x)\<lparr>rm_Logged := rm_Logged (snd x) + 1\<rparr> else snd x)"
  "snd (count_allowed d x) =
     (let rm = (snd x)\<lparr>rm_Allowed := rm_Allowed (snd x) + 1\<rparr>;
          rm = (if dec_Conntrack d then rm\<lparr>rm_Conntrack := rm_Conntrack rm + 1\<rparr> else rm)
      in if dec_Established d then rm\<lparr>rm_Established := rm_Established rm + 1\<rparr> else rm)"
  "snd (count_dropped d x) =
     (let rm = (snd x)\<lparr>rm_Dropped := rm_Dropped (snd x) + 1\<rparr> in
      if dec_Match d = None then rm\<lparr>rm_NoMatchDrops := rm_NoMatchDrops rm + 1\<rparr>
      else if dec_Verdict d = VerdictReject
      then rm\<lparr>rm_Rejected := rm_Rejected rm + 1, rm_RejectDrops := rm_RejectDrops rm + 1\<rparr>
      else rm\<lparr>rm_DenyDrops := rm_DenyDrops rm + 1\<rparr>)"
  by (simp_all add: count_logged_def count_allowed_def count_dropped_def Let_def split_beta)

lemma recount_rule_same:
  "recount_rule (obs @ [(e, packet, d)]) (e, ruleCookie d) =
     snd (count_logged d ((if obs_allowed d then count_allowed d else count_dropped d)
       (x, start_rule_metrics e packet d (recount_rule obs (e, ruleCookie d)))))"
  by (cases "dec_Verdict d"; cases "dec_Match d"; cases "shouldLogPolicy d"; cases "dec_Conntrack d"; cases "dec_Established d")
    (simp_all add: recount_rule_def Let_def count_snd start_rule_metrics_def)

lemma recount_rule_other:
  "rule \<noteq> (e, ruleCookie d) \<Longrightarrow> recount_rule (obs @ [(e, packet, d)]) rule = recount_rule obs rule"
  by (auto simp: recount_rule_def Let_def)

lemma start_rule_metrics_new:
  assumes "(e, ruleCookie d) \<notin> occurring obs"
  shows "start_rule_metrics e packet d (recount_rule obs (e, ruleCookie d)) = start_rule_metrics e packet d zero_RuleMetrics"
proof -
  have "filter (\<lambda>(e', _, d'). (e', ruleCookie d') = (e, ruleCookie d) \<and> P d') obs = []" for P
    using assms by (force simp: occurring_def filter_empty_conv)
  then have none: "occurrences (\<lambda>(e', _, d'). (e', ruleCookie d') = (e, ruleCookie d) \<and> P d') obs = 0" for P
    unfolding occurrences_def by simp
  have empty: "filter (\<lambda>(e', _, d'). (e', ruleCookie d') = (e, ruleCookie d)) obs = []"
    using assms by (force simp: occurring_def filter_empty_conv)
  have "recount_rule obs (e, ruleCookie d) = zero_RuleMetrics\<lparr>rm_EndpointID := e, rm_RuleCookie := ruleCookie d\<rparr>"
    unfolding recount_rule_def Let_def none empty by (simp add: zero_RuleMetrics_def)
  then show ?thesis
    by (simp add: start_rule_metrics_def zero_RuleMetrics_def Let_def)
qed

definition metrics_key :: "string \<times> u32 \<Rightarrow> string" where
  "metrics_key rule = fst rule @ ''|'' @ nat_Itoa (unat (snd rule))"

lemma ruleMetricsKey_metrics_key: "ruleMetricsKey ep d = metrics_key (ep, ruleCookie d)"
  by (simp add: ruleMetricsKey_def metrics_key_def)

lemma metrics_key_inj: "metrics_key a = metrics_key b \<longleftrightarrow> a = b"
proof
  have bar: "CHR ''|'' \<notin> set (nat_Itoa n)" for n
    using nat_Itoa_chars [of "CHR ''|''" n] by (auto simp: is_digit_def)
  assume "metrics_key a = metrics_key b"
  then have "fst a = fst b \<and> nat_Itoa (unat (snd a)) = nat_Itoa (unat (snd b))"
    by (intro append_sep_inj [where c = "CHR ''|''"]) (simp_all add: metrics_key_def bar)
  then show "a = b" by (simp add: nat_Itoa_inj word_unat_eq_iff prod_eq_iff)
qed simp

lemma rules_observe_all:
  defines "rules \<equiv> \<lambda>obs. rec_rules (observe_all obs NewPolicyRecorder)"
  shows "distinct (map fst (rules obs)) \<and> fst ` set (rules obs) = metrics_key ` occurring obs \<and>
    (\<forall>rule \<in> occurring obs. map_of (rules obs) (metrics_key rule) = Some (recount_rule obs rule))"
proof (induction obs rule: rev_induct)
  case Nil
  show ?case by (simp add: rules_def observe_all_def NewPolicyRecorder_def occurring_def)
next
  case (snoc x obs)
  obtain e packet d where x: "x = (e, packet, d)" by (cases x)
  let ?r = "(e, ruleCookie d)"
  have occ: "occurring (obs @ [x]) = insert ?r (occurring obs)" by (auto simp: occurring_def x)
  have "gomap_get zero_RuleMetrics (rules obs) (metrics_key ?r) =
      (if ?r \<in> occurring obs then recount_rule obs ?r else zero_RuleMetrics)"
  proof (cases "?r \<in> occurring obs")
    case True
    with snoc have "map_of (rules obs) (metrics_key ?r) = Some (recount_rule obs ?r)" by blast
    with True show ?thesis by (simp add: gomap_get_def)
  next
    case False
    then have "metrics_key ?r \<notin> metrics_key ` occurring obs" by (auto simp: metrics_key_inj)
    then have "metrics_key ?r \<notin> fst ` set (rules obs)" using snoc by metis
    then have "map_of (rules obs) (metrics_key ?r) = None" by (simp add: map_of_eq_None_iff)
    with False show ?thesis by (simp add: gomap_get_def)
  qed
  then have "start_rule_metrics e packet d (gomap_get zero_RuleMetrics (rules obs) (metrics_key ?r)) =
      start_rule_metrics e packet d (recount_rule obs ?r)"
    by (simp add: start_rule_metrics_new)
  then have "snd (counters (observe_all obs NewPolicyRecorder) e packet d) = recount_rule (obs @ [x]) ?r"
    unfolding counters_def x recount_rule_same [where x = "Metrics (observe_all obs NewPolicyRecorder) e"]
    by (simp add: rules_def ruleMetricsKey_metrics_key)
  then have step: "rules (obs @ [x]) = AList.update (metrics_key ?r) (recount_rule (obs @ [x]) ?r) (rules obs)"
    by (simp add: rules_def x observe_all_snoc Observe_fields ruleMetricsKey_metrics_key)
  have "distinct (map fst (rules (obs @ [x])))"
    unfolding step using snoc by (intro distinct_update) simp
  moreover have "fst ` set (rules (obs @ [x])) = metrics_key ` occurring (obs @ [x])"
    unfolding step dom_update using snoc by (simp add: occ)
  moreover have "map_of (rules (obs @ [x])) (metrics_key rule) = Some (recount_rule (obs @ [x]) rule)"
    if "rule \<in> occurring (obs @ [x])" for rule
  proof (cases "rule = ?r")
    case True
    then show ?thesis by (simp add: step update_conv')
  next
    case False
    then have "rule \<in> occurring obs" using that by (simp add: occ)
    moreover have "recount_rule (obs @ [x]) rule = recount_rule obs rule"
      using False by (simp add: x recount_rule_other)
    ultimately show ?thesis using False snoc by (simp add: step update_conv' metrics_key_inj)
  qed
  ultimately show ?case by blast
qed

lemma rule_metrics_lt_iff:
  "rule_metrics_lt a b \<longleftrightarrow>
     rm_EndpointID a < rm_EndpointID b \<or> rm_EndpointID a = rm_EndpointID b \<and> rm_RuleCookie a < rm_RuleCookie b"
  using less_linear [of "rm_EndpointID a" "rm_EndpointID b"] unfolding rule_metrics_lt_def
  by (elim disjE) (simp_all add: order_less_not_sym)

interpretation rule_metrics_order: strict_weak_order rule_metrics_lt
proof
  fix x y z :: RuleMetrics
  have asym: "\<not> (b < a \<or> b = a \<and> d < c)" if "a < b \<or> a = b \<and> c < d" for a b :: string and c d :: u32
    using that by (metis order_less_asym order_less_irrefl)
  show "rule_metrics_lt x y \<Longrightarrow> \<not> rule_metrics_lt y x"
    unfolding rule_metrics_lt_iff by (rule asym)
  have trans: "\<not> (a < e \<or> a = e \<and> c < f)"
    if "\<not> (a < b \<or> a = b \<and> c < d)" and "\<not> (b < e \<or> b = e \<and> d < f)" for a b e :: string and c d f :: u32
    using that by (metis less_linear order_less_trans)
  show "\<not> rule_metrics_lt x y \<Longrightarrow> \<not> rule_metrics_lt y z \<Longrightarrow> \<not> rule_metrics_lt x z"
    unfolding rule_metrics_lt_iff by (rule trans)
qed

lemma key_of_rule:
  assumes "(k, v) \<in> set (rec_rules (observe_all obs NewPolicyRecorder))"
  obtains rule where "rule \<in> occurring obs" and "k = metrics_key rule" and "v = recount_rule obs rule"
proof -
  note rules = rules_observe_all [of obs]
  have "k \<in> metrics_key ` occurring obs" using rules assms by (metis fst_conv image_eqI)
  then obtain rule where rule: "rule \<in> occurring obs" "k = metrics_key rule" by blast
  moreover have "map_of (rec_rules (observe_all obs NewPolicyRecorder)) k = Some v" using rules assms by simp
  ultimately have "v = recount_rule obs rule" using rules by simp
  with rule show thesis by (rule that)
qed

lemma set_rules_observe_all:
  "set (map snd (rec_rules (observe_all obs NewPolicyRecorder))) = recount_rule obs ` occurring obs"
proof -
  let ?rules = "rec_rules (observe_all obs NewPolicyRecorder)"
  note rules = rules_observe_all [of obs]
  have "recount_rule obs ` occurring obs \<subseteq> snd ` set ?rules"
    using rules by (force dest: map_of_SomeD)
  moreover have "v \<in> recount_rule obs ` occurring obs" if "(k, v) \<in> set ?rules" for k v
    using that by (auto elim: key_of_rule)
  ultimately show ?thesis by auto
qed

lemma AllRuleMetrics_observe_all:
  fixes obs
  defines "all \<equiv> AllRuleMetrics (observe_all obs NewPolicyRecorder)"
  shows "set all = recount_rule obs ` occurring obs" and "sorted_wrt rule_metrics_lt all"
proof -
  show set_all: "set all = recount_rule obs ` occurring obs"
    unfolding all_def AllRuleMetrics_def set_sort_SliceStable by (rule set_rules_observe_all)
  let ?rules = "rec_rules (observe_all obs NewPolicyRecorder)" and ?id = "\<lambda>rm. (rm_EndpointID rm, rm_RuleCookie rm)"
  have "k = metrics_key (?id v)" if "(k, v) \<in> set ?rules" for k v
    using that by (rule key_of_rule) (simp add: recount_rule_def Let_def)
  then have eq: "map (metrics_key \<circ> ?id \<circ> snd) ?rules = map fst ?rules" by auto
  then have "distinct (map metrics_key (map ?id all))"
    using rules_observe_all [of obs] by (simp add: all_def AllRuleMetrics_def eq)
  then have "distinct (map ?id all)" unfolding distinct_map [of metrics_key] by (rule conjunct1)
  moreover have "sorted_wrt (\<lambda>a b. \<not> rule_metrics_lt b a) all"
    unfolding all_def AllRuleMetrics_def by (rule rule_metrics_order.sorted_sort_SliceStable)
  moreover have total: "rule_metrics_lt a b" if "\<not> rule_metrics_lt b a" and "?id a \<noteq> ?id b" for a b
    using that unfolding rule_metrics_lt_iff by (metis less_linear prod.inject)
  ultimately show "sorted_wrt rule_metrics_lt all"
    by (induction all) (auto intro!: total)
qed

text \<open>
  C33. The recorder's counters are exact: after any sequence of observed decisions, each counter of an endpoint
  is the number of decisions of its kind modulo 2 to the 64, the drop events are the decisions
  that did not allow, in order, and every decision has left its trace.
\<close>

theorem recorder_recounts:
  "Metrics (observe_all obs NewPolicyRecorder) ep = recount obs ep \<and>
   rec_traces (observe_all obs NewPolicyRecorder) = map (\<lambda>(ep, packet, d). traceEvent ep packet d) obs \<and>
   rec_drops (observe_all obs NewPolicyRecorder) =
     map (\<lambda>(ep, packet, d). drop_event ep packet d) (filter (\<lambda>(_, _, d). \<not> obs_allowed d) obs) \<and>
   rec_events (observe_all obs NewPolicyRecorder) =
     map (\<lambda>(ep, packet, d). policyEvent ep packet d) (filter (\<lambda>(_, _, d). shouldLogPolicy d) obs)"
proof -
  have "rec_traces (observe_all obs NewPolicyRecorder) = map (\<lambda>(ep, packet, d). traceEvent ep packet d) obs"
    by (induction obs rule: rev_induct)
      (auto simp: observe_all_snoc Observe_fields observe_all_def [of "[]"] NewPolicyRecorder_def)
  moreover have "rec_drops (observe_all obs NewPolicyRecorder) =
     map (\<lambda>(ep, packet, d). drop_event ep packet d) (filter (\<lambda>(_, _, d). \<not> obs_allowed d) obs)"
    by (induction obs rule: rev_induct)
      (auto simp: observe_all_snoc Observe_fields observe_all_def [of "[]"] NewPolicyRecorder_def)
  moreover have "rec_events (observe_all obs NewPolicyRecorder) =
     map (\<lambda>(ep, packet, d). policyEvent ep packet d) (filter (\<lambda>(_, _, d). shouldLogPolicy d) obs)"
    by (induction obs rule: rev_induct)
      (auto simp: observe_all_snoc Observe_fields observe_all_def [of "[]"] NewPolicyRecorder_def)
  ultimately show ?thesis by (simp add: Metrics_observe_all)
qed

text \<open>
  The metrics of all rules are listed by endpoint and rule cookie without repetition, and there is one
  for exactly the rules that decided about a packet, with its packets, bytes and decisions recounted.
\<close>

theorem rule_metrics_recount:
  "sorted_wrt rule_metrics_lt (AllRuleMetrics (observe_all obs NewPolicyRecorder)) \<and>
   set (AllRuleMetrics (observe_all obs NewPolicyRecorder)) =
     recount_rule obs ` (\<lambda>(ep, _, d). (ep, ruleCookie d)) ` set obs"
  using AllRuleMetrics_observe_all [of obs] by (simp add: occurring_def)

end
