(* ===== verification/PolicyUpdate.thy ===== *)
theory PolicyUpdate
  imports PolicyStore
begin

text \<open>
  Correctness of updates of the policy map: the plan of \<open>PlanPolicyUpdate\<close> leads from the old entries to
  the desired ones whichever of its two phases runs first, no phase exceeds the capacity of the map,
  and \<open>ReplaceEndpoint\<close> implements the assignment of an abstract store, or leaves it as it was.
\<close>

section \<open>Entries as a map\<close>

definition key_map :: "PolicyMapEntry list \<Rightarrow> PolicyKey \<rightharpoonup> PolicyMapEntry" where
  "key_map es = map_of (map (\<lambda>e. (pme_Key e, e)) es)"

abbreviation distinct_keys :: "PolicyMapEntry list \<Rightarrow> bool" where
  "distinct_keys es \<equiv> distinct (map pme_Key es)"

lemma key_map_Some: "distinct_keys es \<Longrightarrow> key_map es k = Some e \<longleftrightarrow> e \<in> set es \<and> pme_Key e = k"
proof -
  assume "distinct_keys es"
  then have "distinct (map fst (map (\<lambda>e. (pme_Key e, e)) es))" by (simp add: o_def)
  then show ?thesis
    unfolding key_map_def by (auto simp: map_of_eq_Some_iff)
qed

lemma key_map_None: "key_map es k = None \<longleftrightarrow> k \<notin> pme_Key ` set es"
  by (auto simp: key_map_def map_of_eq_None_iff image_image)

lemma key_map_cong:
  assumes "distinct_keys es" and "distinct_keys fs" and "set es = set fs"
  shows "key_map es = key_map fs"
proof
  fix k
  show "key_map es k = key_map fs k"
    using key_map_Some [OF assms(1), of k] key_map_Some [OF assms(2), of k] assms(3)
    by (cases "key_map es k"; cases "key_map fs k") auto
qed

lemma key_map_Cons [simp]: "key_map (e # es) = (key_map es)(pme_Key e \<mapsto> e)" "key_map [] = Map.empty"
  by (auto simp: key_map_def)

lemma entryMap_fold:
  "map_of (fold (\<lambda>entry out. AList.update (pme_Key entry) entry out) es m) = map_of m ++ key_map (rev es) \<and>
   (distinct (map fst m) \<longrightarrow> distinct (map fst (fold (\<lambda>entry out. AList.update (pme_Key entry) entry out) es m)))"
proof (induction es arbitrary: m)
  case (Cons e es)
  have "key_map (rev es @ [e]) = (\<lambda>k. case key_map (rev es) k of None \<Rightarrow> (if k = pme_Key e then Some e else None) | Some x \<Rightarrow> Some x)"
    by (auto simp: key_map_def map_of_append map_add_def fun_eq_iff split: option.splits)
  with Cons show ?case
    by (auto simp: update_conv' distinct_update map_add_def fun_eq_iff split: option.splits)
qed (simp add: key_map_def)

lemma distinct_entryMap: "distinct (map fst (entryMap es))"
  using entryMap_fold [of es "[]"] by (simp add: entryMap_def)

lemma map_of_entryMap: "distinct_keys es \<Longrightarrow> map_of (entryMap es) = key_map es"
proof -
  assume d: "distinct_keys es"
  have "map_of (entryMap es) = key_map (rev es)"
    using entryMap_fold [of es "[]"] by (simp add: entryMap_def)
  moreover have "key_map (rev es) = key_map es"
    by (rule key_map_cong) (use d in \<open>simp_all add: rev_map [symmetric]\<close>)
  ultimately show ?thesis by simp
qed

lemma key_map_upsert:
  "key_map (upsertEntry es e) = (key_map es)(pme_Key e \<mapsto> e)"
  "distinct_keys es \<Longrightarrow> distinct_keys (upsertEntry es e)"
proof -
  have keys: "pme_Key ` set (upsertEntry es e) = insert (pme_Key e) (pme_Key ` set es)" for es e
    by (induction es e rule: upsertEntry.induct) auto
  show "key_map (upsertEntry es e) = (key_map es)(pme_Key e \<mapsto> e)"
    by (induction es e rule: upsertEntry.induct) (auto simp: fun_upd_twist)
  show "distinct_keys es \<Longrightarrow> distinct_keys (upsertEntry es e)"
  proof (induction es e rule: upsertEntry.induct)
    case (2 e es entry)
    then show ?case using keys [of es entry] by auto
  qed simp
qed

lemma key_map_delete:
  "key_map (deleteEntry es k) = (key_map es)(k := None)"
  "distinct_keys es \<Longrightarrow> distinct_keys (deleteEntry es k)"
proof -
  show "key_map (deleteEntry es k) = (key_map es)(k := None)"
    by (induction es) (auto simp: deleteEntry_def fun_upd_twist)
  show "distinct_keys es \<Longrightarrow> distinct_keys (deleteEntry es k)"
    by (auto simp: deleteEntry_def intro: distinct_map_filter)
qed

lemma length_card_keys: "distinct_keys es \<Longrightarrow> length es = card (dom (key_map es))"
proof -
  assume "distinct_keys es"
  from distinct_card [OF this] have "length es = card (set (map pme_Key es))" by simp
  moreover have "set (map pme_Key es) = dom (key_map es)"
    by (auto simp: key_map_def dom_map_of_conv_image_fst image_image)
  ultimately show ?thesis by simp
qed

section \<open>Plans\<close>

definition kept :: "(PolicyMapEntry \<Rightarrow> PolicyMapEntry \<Rightarrow> bool) \<Rightarrow> (PolicyKey, PolicyMapEntry) gomap \<Rightarrow>
    PolicyKey \<times> PolicyMapEntry \<Rightarrow> PolicyMapEntry option" where
  "kept P new = (\<lambda>(k, o'). case map_of new k of None \<Rightarrow> None | Some n \<Rightarrow> if P o' n then Some n else None)"

lemma fold_plan_old:
  "fold (plan_old new) l p =
     p\<lparr>plan_Delete := plan_Delete p @ map fst (filter (\<lambda>(k, _). map_of new k = None) l),
       plan_Update := plan_Update p @ List.map_filter (kept (\<lambda>o' n. \<not> policyMapEntriesSemanticsEqual o' n) new) l,
       plan_Unchanged := plan_Unchanged p @ List.map_filter (kept policyMapEntriesSemanticsEqual new) l\<rparr>"
  by (induction l arbitrary: p) (auto simp: plan_old_def kept_def List.map_filter_simps split: option.splits)

lemma fold_plan_new:
  "fold (plan_new old) l p = p\<lparr>plan_Add := plan_Add p @ map snd (filter (\<lambda>(k, _). map_of old k = None) l)\<rparr>"
  by (induction l arbitrary: p) (auto simp: plan_new_def split: option.splits)

lemma set_map_filter: "set (List.map_filter f xs) = {y. \<exists>x \<in> set xs. f x = Some y}"
  by (force simp: List.map_filter_def)

lemma entryMap_mem: "(k, e) \<in> set (entryMap es) \<longleftrightarrow> map_of (entryMap es) k = Some e"
  by (simp add: distinct_entryMap map_of_eq_Some_iff)

lemma plan_sets:
  assumes old: "distinct_keys old" and new: "distinct_keys new"
  defines "plan \<equiv> PlanPolicyUpdate old new"
  shows "k \<in> set (plan_Delete plan) \<longleftrightarrow> key_map old k \<noteq> None \<and> key_map new k = None"
    and "e \<in> set (plan_Update plan) \<longleftrightarrow>
      key_map new (pme_Key e) = Some e \<and> (\<exists>o'. key_map old (pme_Key e) = Some o' \<and> \<not> policyMapEntriesSemanticsEqual o' e)"
    and "e \<in> set (plan_Unchanged plan) \<longleftrightarrow>
      key_map new (pme_Key e) = Some e \<and> (\<exists>o'. key_map old (pme_Key e) = Some o' \<and> policyMapEntriesSemanticsEqual o' e)"
    and "e \<in> set (plan_Add plan) \<longleftrightarrow> key_map new (pme_Key e) = Some e \<and> key_map old (pme_Key e) = None"
proof -
  note defs = plan_def PlanPolicyUpdate_def Let_def sortPlan_def sortKeys_def fold_plan_old fold_plan_new
  have mem: "(k, e) \<in> set (entryMap old) \<longleftrightarrow> key_map old k = Some e" "(k, e) \<in> set (entryMap new) \<longleftrightarrow> key_map new k = Some e"
    "map_of (entryMap old) = key_map old" "map_of (entryMap new) = key_map new" for k e
    by (simp_all add: entryMap_mem map_of_entryMap old new)
  have key: "key_map new k = Some e \<Longrightarrow> pme_Key e = k" for k e
    by (simp add: key_map_Some [OF new])
  show "k \<in> set (plan_Delete plan) \<longleftrightarrow> key_map old k \<noteq> None \<and> key_map new k = None"
    by (force simp: defs mem)
  have "e \<in> set (List.map_filter (kept P (entryMap new)) (entryMap old)) \<longleftrightarrow>
      (\<exists>k o'. key_map old k = Some o' \<and> key_map new k = Some e \<and> P o' e)" for P
  proof -
    have "e \<in> set (List.map_filter (kept P (entryMap new)) (entryMap old)) \<longleftrightarrow>
        (\<exists>k o'. key_map old k = Some o' \<and> kept P (entryMap new) (k, o') = Some e)"
      by (simp add: set_map_filter Bex_def mem)
    moreover have "kept P (entryMap new) (k, o') = Some e \<longleftrightarrow> key_map new k = Some e \<and> P o' e" for k o'
      by (auto simp: kept_def mem split: option.splits)
    ultimately show ?thesis by simp
  qed
  then have kept: "e \<in> set (List.map_filter (kept P (entryMap new)) (entryMap old)) \<longleftrightarrow>
      key_map new (pme_Key e) = Some e \<and> (\<exists>o'. key_map old (pme_Key e) = Some o' \<and> P o' e)" for P
    using key [of _ e] by metis
  show "e \<in> set (plan_Update plan) \<longleftrightarrow>
      key_map new (pme_Key e) = Some e \<and> (\<exists>o'. key_map old (pme_Key e) = Some o' \<and> \<not> policyMapEntriesSemanticsEqual o' e)"
    by (simp add: defs kept)
  show "e \<in> set (plan_Unchanged plan) \<longleftrightarrow>
      key_map new (pme_Key e) = Some e \<and> (\<exists>o'. key_map old (pme_Key e) = Some o' \<and> policyMapEntriesSemanticsEqual o' e)"
    by (simp add: defs kept)
  have "e \<in> set (plan_Add plan) \<longleftrightarrow> (\<exists>k. key_map new k = Some e \<and> key_map old k = None)"
    by (force simp: defs mem)
  then show "e \<in> set (plan_Add plan) \<longleftrightarrow> key_map new (pme_Key e) = Some e \<and> key_map old (pme_Key e) = None"
    using key [of _ e] by metis
qed

section \<open>Applying a plan\<close>

type_synonym map_write = "PolicyMapEntry list \<Rightarrow> PolicyMapEntry list"

definition step_writes :: "PolicyUpdatePlan \<Rightarrow> policyUpdateStep \<Rightarrow> map_write list" where
  "step_writes plan step =
     (case step of
        policyUpdateStepAddUpdate \<Rightarrow> map (\<lambda>entry nxt. upsertEntry nxt entry) (plan_Add plan @ plan_Update plan)
      | policyUpdateStepDelete \<Rightarrow> map (\<lambda>key nxt. deleteEntry nxt key) (plan_Delete plan))"

definition plan_writes :: "PolicyUpdatePlan \<Rightarrow> policyUpdateStep list \<Rightarrow> map_write list" where
  "plan_writes plan steps = concat (map (step_writes plan) steps)"

abbreviation run_writes :: "map_write list \<Rightarrow> PolicyMapEntry list \<Rightarrow> PolicyMapEntry list" where
  "run_writes ws es \<equiv> fold (\<lambda>w es. w es) ws es"

lemma run_upserts:
  assumes "\<forall>e \<in> set l. f (pme_Key e) = Some e"
  shows "key_map (run_writes (map (\<lambda>entry nxt. upsertEntry nxt entry) l) es) k =
      (if k \<in> pme_Key ` set l then f k else key_map es k)"
    and "distinct_keys es \<Longrightarrow> distinct_keys (run_writes (map (\<lambda>entry nxt. upsertEntry nxt entry) l) es)"
  using assms by (induction l arbitrary: es) (auto simp: key_map_upsert)

lemma run_deletes:
  "key_map (run_writes (map (\<lambda>key nxt. deleteEntry nxt key) l) es) k = (if k \<in> set l then None else key_map es k)"
  "distinct_keys es \<Longrightarrow> distinct_keys (run_writes (map (\<lambda>key nxt. deleteEntry nxt key) l) es)"
  by (induction l arbitrary: es) (auto simp: key_map_delete)

text \<open>What of an entry matters to the dataplane: not the counters and not the name of its rule.\<close>

definition entry_sem :: "PolicyMapEntry \<Rightarrow> PolicyEntry \<times> prefix" where
  "entry_sem e = ((pme_Value e)\<lparr>pe_Packets := 0, pe_Bytes := 0\<rparr>, pme_RemoteCIDR e)"

lemma policyMapEntriesSemanticsEqual_iff: "policyMapEntriesSemanticsEqual a b \<longleftrightarrow> entry_sem a = entry_sem b"
  by (simp add: policyMapEntriesSemanticsEqual_def policyEntrySemanticsEqual_def entry_sem_def)

definition sem_map :: "PolicyMapEntry list \<Rightarrow> PolicyKey \<rightharpoonup> PolicyEntry \<times> prefix" where
  "sem_map es k = map_option entry_sem (key_map es k)"

definition plan_result :: "PolicyMapEntry list \<Rightarrow> PolicyMapEntry list \<Rightarrow> PolicyKey \<rightharpoonup> PolicyMapEntry" where
  "plan_result old new k =
     (case key_map new k of
        None \<Rightarrow> None
      | Some n \<Rightarrow>
          (case key_map old k of
             None \<Rightarrow> Some n
           | Some o' \<Rightarrow> if policyMapEntriesSemanticsEqual o' n then Some o' else Some n))"

lemma plan_result_sem: "map_option entry_sem (plan_result old new k) = sem_map new k"
  by (auto simp: plan_result_def sem_map_def policyMapEntriesSemanticsEqual_iff split: option.splits)

lemma plan_writes_result:
  assumes old: "distinct_keys old" and new: "distinct_keys new"
    and steps: "steps = [policyUpdateStepAddUpdate, policyUpdateStepDelete] \<or>
      steps = [policyUpdateStepDelete, policyUpdateStepAddUpdate]"
  defines "plan \<equiv> PlanPolicyUpdate old new"
  shows "key_map (run_writes (plan_writes plan steps) old) = plan_result old new"
    and "distinct_keys (run_writes (plan_writes plan steps) old)"
proof -
  note sets = plan_sets [OF old new, folded plan_def]
  let ?l = "plan_Add plan @ plan_Update plan"
  have new_l: "\<forall>e \<in> set ?l. key_map new (pme_Key e) = Some e" by (auto simp: sets)
  have keys_l: "k \<in> pme_Key ` set ?l \<longleftrightarrow>
      (\<exists>n. key_map new k = Some n \<and> (\<forall>o'. key_map old k = Some o' \<longrightarrow> \<not> policyMapEntriesSemanticsEqual o' n))" for k
  proof
    assume "k \<in> pme_Key ` set ?l"
    then show "\<exists>n. key_map new k = Some n \<and> (\<forall>o'. key_map old k = Some o' \<longrightarrow> \<not> policyMapEntriesSemanticsEqual o' n)"
      by (auto simp: sets)
  next
    assume "\<exists>n. key_map new k = Some n \<and> (\<forall>o'. key_map old k = Some o' \<longrightarrow> \<not> policyMapEntriesSemanticsEqual o' n)"
    then obtain n where n: "key_map new k = Some n"
      "\<forall>o'. key_map old k = Some o' \<longrightarrow> \<not> policyMapEntriesSemanticsEqual o' n" by blast
    then have k: "pme_Key n = k" by (simp add: key_map_Some [OF new])
    with n have "n \<in> set ?l" by (cases "key_map old k") (auto simp: sets)
    with k show "k \<in> pme_Key ` set ?l" by blast
  qed
  show "key_map (run_writes (plan_writes plan steps) old) = plan_result old new"
  proof
    fix k
    show "key_map (run_writes (plan_writes plan steps) old) k = plan_result old new k"
      using steps
    proof
      assume "steps = [policyUpdateStepAddUpdate, policyUpdateStepDelete]"
      then show ?thesis
        using keys_l [of k] sets(1) [of k]
        by (simp add: plan_writes_def step_writes_def run_deletes run_upserts(1) [OF new_l, unfolded map_append fold_append comp_def])
          (auto simp: plan_result_def split: option.splits)
    next
      assume "steps = [policyUpdateStepDelete, policyUpdateStepAddUpdate]"
      then show ?thesis
        using keys_l [of k] sets(1) [of k]
        by (simp add: plan_writes_def step_writes_def run_deletes run_upserts(1) [OF new_l, unfolded map_append fold_append comp_def])
          (auto simp: plan_result_def split: option.splits)
    qed
  qed
  show "distinct_keys (run_writes (plan_writes plan steps) old)"
    using steps old
    by (auto simp: plan_writes_def step_writes_def run_deletes(2) run_upserts(2) [OF new_l, unfolded map_append fold_append comp_def])
qed

text \<open>States of a run in which every write stays inside a set of keys.\<close>

definition within :: "PolicyKey set \<Rightarrow> PolicyMapEntry list \<Rightarrow> bool" where
  "within D es \<longleftrightarrow> distinct_keys es \<and> dom (key_map es) \<subseteq> D"

lemma within_run:
  "within D es \<Longrightarrow> (\<And>w es. w \<in> set ws \<Longrightarrow> within D es \<Longrightarrow> within D (w es)) \<Longrightarrow> within D (run_writes (take i ws) es)"
proof (induction ws arbitrary: es i)
  case (Cons w ws)
  then show ?case by (cases i) auto
qed simp

lemma within_upsert: "within D es \<Longrightarrow> pme_Key e \<in> D \<Longrightarrow> within D (upsertEntry es e)"
  by (auto simp: within_def key_map_upsert)

lemma within_delete: "within D es \<Longrightarrow> within D (deleteEntry es k)"
  by (auto simp: within_def key_map_delete)

lemma within_length: "within D es \<Longrightarrow> finite D \<Longrightarrow> length es \<le> card D"
  by (simp add: within_def length_card_keys card_mono)

lemma finite_key_map: "finite (dom (key_map es))"
  by (simp add: key_map_def finite_dom_map_of)

text \<open>The two orders of the writes, and the keys that can be in the map at each point of them.\<close>

lemma adds_first_bounded:
  assumes old: "distinct_keys old" and new: "distinct_keys new"
  defines "plan \<equiv> PlanPolicyUpdate old new"
  shows "length (run_writes (take i (map (\<lambda>entry nxt. upsertEntry nxt entry) (plan_Add plan @ plan_Update plan) @
      map (\<lambda>key nxt. deleteEntry nxt key) (plan_Delete plan))) old) \<le> length old + length (plan_Add plan)"
proof -
  note sets = plan_sets [OF old new, folded plan_def]
  let ?K = "dom (key_map old) \<union> pme_Key ` set (plan_Add plan)"
  let ?ws = "map (\<lambda>entry nxt. upsertEntry nxt entry) (plan_Add plan @ plan_Update plan) @ map (\<lambda>key nxt. deleteEntry nxt key) (plan_Delete plan)"
  have "within ?K (run_writes (take i ?ws) old)"
  proof (rule within_run)
    show "within ?K old" using old by (auto simp: within_def)
    show "within ?K (w es)" if "w \<in> set ?ws" "within ?K es" for w es
      using that by (auto simp: sets(2,4) intro!: within_upsert within_delete)
  qed
  then have "length (run_writes (take i ?ws) old) \<le> card ?K"
    by (rule within_length) (simp add: finite_key_map)
  also have "\<dots> \<le> card (dom (key_map old)) + card (pme_Key ` set (plan_Add plan))"
    by (rule card_Un_le)
  also have "\<dots> \<le> length old + length (plan_Add plan)"
    unfolding length_card_keys [OF old, symmetric] by (intro add_left_mono order_trans [OF card_image_le card_length]) simp
  finally show ?thesis .
qed

lemma deletes_first_bounded:
  assumes old: "distinct_keys old" and new: "distinct_keys new"
  defines "plan \<equiv> PlanPolicyUpdate old new"
  shows "length (run_writes (take i (map (\<lambda>key nxt. deleteEntry nxt key) (plan_Delete plan) @
      map (\<lambda>entry nxt. upsertEntry nxt entry) (plan_Add plan @ plan_Update plan))) old) \<le> max (length old) (length new)"
proof -
  note sets = plan_sets [OF old new, folded plan_def]
  let ?D = "map (\<lambda>key nxt. deleteEntry nxt key) (plan_Delete plan)"
  let ?U = "map (\<lambda>entry nxt. upsertEntry nxt entry) (plan_Add plan @ plan_Update plan)"
  have bound: "length es \<le> length xs" if "within (dom (key_map xs)) es" "distinct_keys xs" for es xs
    using within_length [OF that(1) finite_key_map] length_card_keys [OF that(2)] by simp
  show ?thesis
  proof (cases "i \<le> length ?D")
    case True
    have "within (dom (key_map old)) (run_writes (take i ?D) old)"
      using old by (intro within_run) (auto simp: within_def [of _ old] intro: within_delete)
    with True show ?thesis using bound [OF _ old] by fastforce
  next
    case False
    let ?mid = "run_writes ?D old"
    have "within (dom (key_map new)) ?mid"
      using run_deletes(2) [OF old] by (auto simp: within_def run_deletes(1) sets(1) split: if_splits)
    then have "within (dom (key_map new)) (run_writes (take (i - length ?D) ?U) ?mid)"
      by (rule within_run) (auto simp: sets(2,4) intro!: within_upsert)
    with False show ?thesis using bound [OF _ new] by fastforce
  qed
qed

text \<open>
  C13. Writing a plan in the order the code chooses leads to the desired entries, and at no point
  does the map hold more entries than its capacity, provided the old and the desired entries fit.
\<close>

theorem update_within_capacity:
  assumes old: "distinct_keys old" and new: "distinct_keys new"
    and "length old \<le> unat maxEntries" and "length new \<le> unat maxEntries" and "maxEntries \<noteq> 0"
  defines "plan \<equiv> PlanPolicyUpdate old new"
  shows "sem_map (run_writes (plan_writes plan (policyUpdateSequence (length old) plan maxEntries False)) old) = sem_map new \<and>
    length (run_writes (take i (plan_writes plan (policyUpdateSequence (length old) plan maxEntries False))) old)
      \<le> unat maxEntries"
proof -
  let ?ws = "plan_writes plan (policyUpdateSequence (length old) plan maxEntries False)"
  have "length (run_writes (take i ?ws) old) \<le> unat maxEntries"
    using adds_first_bounded [OF old new, of i] deletes_first_bounded [OF old new, of i] assms(3-5)
    by (cases "length old + length (plan_Add plan) \<le> unat maxEntries")
      (simp_all add: policyUpdateSequence_def plan_writes_def step_writes_def plan_def)
  moreover have "policyUpdateSequence (length old) plan maxEntries False = [policyUpdateStepAddUpdate, policyUpdateStepDelete] \<or>
      policyUpdateSequence (length old) plan maxEntries False = [policyUpdateStepDelete, policyUpdateStepAddUpdate]"
    by (simp add: policyUpdateSequence_def)
  from plan_writes_result(1) [OF old new this] have "sem_map (run_writes ?ws old) = sem_map new"
    by (simp add: fun_eq_iff sem_map_def plan_def plan_result_sem [unfolded sem_map_def])
  ultimately show ?thesis by simp
qed

theorem update_within_capacity_witness:
  "let old = [example_entry 1 0 3]; e = example_entry 1 0 3;
       new = [e\<lparr>pme_Key := (pme_Key e)\<lparr>pk_Protocol := 17\<rparr>\<rparr>];
       plan = PlanPolicyUpdate old new
   in policyUpdateSequence 1 plan 1 False = [policyUpdateStepDelete, policyUpdateStepAddUpdate] \<and>
      length (run_writes (take 1 (plan_writes plan (policyUpdateSequence 1 plan 1 False))) old) \<le> 1"
proof -
  let ?e = "example_entry 1 0 3"
  let ?old = "[?e]" and ?new = "[?e\<lparr>pme_Key := (pme_Key ?e)\<lparr>pk_Protocol := 17\<rparr>\<rparr>]"
  have "policyUpdateSequence 1 (PlanPolicyUpdate ?old ?new) 1 False = [policyUpdateStepDelete, policyUpdateStepAddUpdate]"
    by code_simp
  then show ?thesis
    using update_within_capacity [of ?old ?new 1 1] by (simp add: Let_def)
qed


section \<open>The store\<close>

definition store_inv :: "InMemoryPolicyStore \<Rightarrow> bool" where
  "store_inv s \<longleftrightarrow>
     (\<forall>ep es. map_of (store_endpoints s) ep = Some es \<longrightarrow> sorted_wrt comparePolicyKey (map pme_Key es)) \<and>
     length (store_events s) \<le> DefaultPolicyUpdateEventLimit"

definition store_sem :: "InMemoryPolicyStore \<Rightarrow> string \<Rightarrow> PolicyKey \<rightharpoonup> PolicyEntry \<times> prefix" where
  "store_sem s ep = sem_map (Store_Entries s ep)"

lemma sorted_keys_distinct: "sorted_wrt comparePolicyKey ks \<Longrightarrow> distinct ks"
  using key_order.swo_irrefl by (induction ks) auto

lemma store_inv_entries: "store_inv s \<Longrightarrow> distinct_keys (Store_Entries s ep)"
  by (auto simp: store_inv_def Store_Entries_def gomap_get_def dest: sorted_keys_distinct split: option.splits)

lemma length_appendPolicyUpdateEvent:
  "length (appendPolicyUpdateEvent events event) \<le> DefaultPolicyUpdateEventLimit"
  "last (appendPolicyUpdateEvent events event) = event"
  by (simp_all add: appendPolicyUpdateEvent_def Let_def)

lemma fold_counted:
  "fold_result (counted failAfter f) l (es, n) = Inr (es', n') \<Longrightarrow> es' = fold f l es"
  by (induction l arbitrary: es n) (auto simp: counted_def split: if_splits)

lemma fold_map_writes: "fold (\<lambda>w es. w es) (map (\<lambda>x es. f x es) l) es = fold f l es"
  by (induction l arbitrary: es) auto

lemma apply_steps_writes:
  "fold_result (apply_step failAfter plan) steps (es, n) = Inr (es', n') \<Longrightarrow> es' = run_writes (plan_writes plan steps) es"
proof (induction steps arbitrary: es n)
  case (Cons step steps)
  from Cons.prems obtain es1 n1 where step: "apply_step failAfter plan step (es, n) = Inr (es1, n1)"
    and rest: "fold_result (apply_step failAfter plan) steps (es1, n1) = Inr (es', n')"
    by (auto split: sum.splits)
  have "es1 = run_writes (step_writes plan step) es"
    using step by (cases step) (auto simp: apply_step_def step_writes_def fold_map_writes dest: fold_counted)
  with Cons.IH [OF rest] show ?case by (simp add: plan_writes_def)
qed (simp add: plan_writes_def)

lemma distinct_canonical: "canonicalPolicyMapEntries entries = Inr desired \<Longrightarrow> distinct_keys desired"
  using canonicalPolicyMapEntries_result sorted_keys_distinct by blast

lemma ReplaceEndpoint_result:
  assumes inv: "store_inv s" and replace: "ReplaceEndpoint s ep entries now = (s', r)"
  shows "store_inv s' \<and>
    ev_EndpointID (last (store_events s')) = ep \<and> ev_Success (last (store_events s')) = is_ok r \<and>
    ev_Revision (last (store_events s')) = Store_Revision s ep + 1 \<and>
    (case r of
       Inr _ \<Rightarrow> \<exists>desired. canonicalPolicyMapEntries entries = Inr desired \<and>
         store_sem s' = (store_sem s)(ep := sem_map desired) \<and>
         Store_Revision s' = (Store_Revision s)(ep := Store_Revision s ep + 1)
     | Inl _ \<Rightarrow> Store_Entries s' = Store_Entries s \<and> Store_Revision s' = Store_Revision s)"
proof (cases "canonicalPolicyMapEntries entries")
  case (Inl e)
  with inv replace show ?thesis
    by (auto simp: ReplaceEndpoint_def Let_def recordPolicyUpdateFailure_def store_inv_def length_appendPolicyUpdateEvent
        Store_Entries_def Store_Revision_def fun_eq_iff zero_event_def)
next
  case (Inr desired)
  let ?old = "Store_Entries s ep"
  let ?plan = "PlanPolicyUpdate ?old desired"
  let ?steps = "policyUpdateSequence (length ?old) ?plan 0 False"
  show ?thesis
  proof (cases "fold_result (apply_step (store_failAfter s) ?plan) ?steps (?old, 0)")
    case (Inl e)
    with Inr inv replace show ?thesis
      by (auto simp: ReplaceEndpoint_def Let_def recordPolicyUpdateFailure_def store_inv_def length_appendPolicyUpdateEvent
          Store_Entries_def Store_Revision_def fun_eq_iff zero_event_def)
  next
    case (Inr st)
    then obtain nxt n where st: "st = (nxt, n)" by (cases st)
    have "?steps = [policyUpdateStepAddUpdate, policyUpdateStepDelete]" by (simp add: policyUpdateSequence_def)
    then have result: "key_map nxt = plan_result ?old desired" and nxt: "distinct_keys nxt"
      using apply_steps_writes [OF Inr [unfolded st]] plan_writes_result [OF store_inv_entries [OF inv] distinct_canonical]
        \<open>canonicalPolicyMapEntries entries = Inr desired\<close> by auto
    have sorted: "sorted_wrt comparePolicyKey (map pme_Key (canonicalPolicyEntries nxt))"
      using sorted_sortEntries [OF nxt] by (simp add: canonicalPolicyEntries_def)
    have "key_map (canonicalPolicyEntries nxt) = key_map nxt"
      by (rule key_map_cong) (simp_all add: canonicalPolicyEntries_def nxt)
    then have sem: "sem_map (canonicalPolicyEntries nxt) = sem_map desired"
      by (simp add: fun_eq_iff sem_map_def result plan_result_sem [unfolded sem_map_def])
    show ?thesis
      using \<open>canonicalPolicyMapEntries entries = Inr desired\<close> Inr [unfolded st] inv replace sorted sem
      by (auto simp: ReplaceEndpoint_def Let_def store_inv_def length_appendPolicyUpdateEvent store_sem_def
          Store_Entries_def Store_Revision_def fun_eq_iff zero_event_def gomap_get_update update_conv' split: if_splits)
  qed
qed

text \<open>
  C6. Replacing the entries of an endpoint keeps the store well-formed. When it succeeds, the endpoint
  has exactly the desired entries, up to counters and rule names, its revision has gone up by one
  and every other endpoint is untouched; when it fails, entries and revisions are as they were. Either
  way the last event says so.
\<close>

theorem ReplaceEndpoint_refines:
  assumes inv: "store_inv s" and replace: "ReplaceEndpoint s ep entries now = (s', r)"
  shows "store_inv s' \<and>
    ev_EndpointID (last (store_events s')) = ep \<and> ev_Success (last (store_events s')) = is_ok r \<and>
    ev_Revision (last (store_events s')) = Store_Revision s ep + 1 \<and>
    (case r of
       Inr _ \<Rightarrow> \<exists>desired. canonicalPolicyMapEntries entries = Inr desired \<and>
         store_sem s' = (store_sem s)(ep := sem_map desired) \<and>
         Store_Revision s' = (Store_Revision s)(ep := Store_Revision s ep + 1)
     | Inl _ \<Rightarrow> Store_Entries s' = Store_Entries s \<and> Store_Revision s' = Store_Revision s)"
  by (rule ReplaceEndpoint_result [OF assms])

lemma store_inv_New [simp]: "store_inv NewInMemoryPolicyStore"
  by (simp add: store_inv_def NewInMemoryPolicyStore_def)

theorem ReplaceEndpoint_refines_witness:
  "store_inv NewInMemoryPolicyStore \<and>
   store_inv (fst (ReplaceEndpoint NewInMemoryPolicyStore ''ep'' [example_entry 1 0 3] 5)) \<and>
   ev_Revision (last (store_events (fst (ReplaceEndpoint NewInMemoryPolicyStore ''ep'' [example_entry 1 0 3] 5)))) = 1"
proof -
  have "Store_Revision NewInMemoryPolicyStore ''ep'' = 0"
    by (simp add: Store_Revision_def NewInMemoryPolicyStore_def gomap_get_def)
  then show ?thesis
    using ReplaceEndpoint_refines [OF store_inv_New prod.collapse [symmetric], of "''ep''" "[example_entry 1 0 3]" 5]
    by simp
qed


section \<open>Every reachable store\<close>

text \<open>The operations that change the store, in any order.\<close>

inductive store_step :: "InMemoryPolicyStore \<Rightarrow> InMemoryPolicyStore \<Rightarrow> bool" where
  replace: "ReplaceEndpoint s ep entries now = (s', r) \<Longrightarrow> store_step s s'"
| delete: "store_step s (Store_DeleteEndpoint s ep now)"
| sweep: "SweepPolicyEndpoints ctxErr s keep maxIdle now = (s', r) \<Longrightarrow> store_step s s'"
| clear: "ClearEvents s match = (s', out) \<Longrightarrow> store_step s s'"
| fail_after: "store_step s (SetFailAfter s n)"

inductive store_reachable :: "InMemoryPolicyStore \<Rightarrow> bool" where
  new: "store_reachable NewInMemoryPolicyStore"
| step: "store_reachable s \<Longrightarrow> store_step s s' \<Longrightarrow> store_reachable s'"

inductive_cases store_stepE: "store_step s s'"

lemma store_inv_record_delete: "store_inv s \<Longrightarrow> store_inv (recordEndpointDeleteEventLocked ep now s)"
  by (simp add: recordEndpointDeleteEventLocked_def Let_def store_inv_def length_appendPolicyUpdateEvent)

lemma store_inv_delete: "store_inv s \<Longrightarrow> store_inv (deleteEndpointLocked ep s)"
  by (auto simp: deleteEndpointLocked_def store_inv_def delete_conv')

lemma store_inv_sweep_endpoint:
  "store_inv (fst st) \<Longrightarrow> store_inv (fst (sweep_endpoint keep maxIdle now ep st))"
proof (cases st)
  case (Pair s swept)
  assume "store_inv (fst st)"
  moreover from this have "store_inv (s\<lparr>store_lastSeen := x\<rparr>)" for x
    by (simp add: Pair store_inv_def)
  ultimately show ?thesis
    by (auto simp: Pair sweep_endpoint_def Let_def intro!: store_inv_delete store_inv_record_delete)
qed

lemma store_inv_fold_sweep:
  "store_inv (fst st) \<Longrightarrow> store_inv (fst (fold (sweep_endpoint keep maxIdle now) eps st))"
proof (induction eps arbitrary: st)
  case (Cons ep eps)
  from Cons.IH [OF store_inv_sweep_endpoint [OF Cons.prems]] show ?case by simp
qed simp

lemma store_inv_replace: "store_inv s \<Longrightarrow> ReplaceEndpoint s ep entries now = (s', r) \<Longrightarrow> store_inv s'"
proof -
  assume inv: "store_inv s" and replace: "ReplaceEndpoint s ep entries now = (s', r)"
  show "store_inv s'"
  proof (cases "canonicalPolicyMapEntries entries")
    case (Inr desired)
    let ?run = "fold_result (apply_step (store_failAfter s) (PlanPolicyUpdate (Store_Entries s ep) desired))
      (policyUpdateSequence (length (Store_Entries s ep)) (PlanPolicyUpdate (Store_Entries s ep) desired) 0 False)
      (Store_Entries s ep, 0)"
    have "sorted_wrt comparePolicyKey (map pme_Key (canonicalPolicyEntries nxt))" if "?run = Inr (nxt, n)" for nxt n
    proof -
      have "distinct_keys nxt"
        using apply_steps_writes [OF that] plan_writes_result(2) [OF store_inv_entries [OF inv] distinct_canonical [OF Inr]]
        by (auto simp: policyUpdateSequence_def)
      then show ?thesis by (simp add: canonicalPolicyEntries_def sorted_sortEntries)
    qed
    with Inr inv replace show ?thesis
      by (auto simp: ReplaceEndpoint_def Let_def recordPolicyUpdateFailure_def store_inv_def length_appendPolicyUpdateEvent
          Store_Entries_def update_conv' split: sum.splits if_splits)
  qed (use inv replace in \<open>auto simp: ReplaceEndpoint_def Let_def recordPolicyUpdateFailure_def store_inv_def
      length_appendPolicyUpdateEvent\<close>)
qed

lemma store_inv_step: "store_step s s' \<Longrightarrow> store_inv s \<Longrightarrow> store_inv s'"
proof (erule store_stepE)
  assume inv: "store_inv s"
  show "store_inv s'" if "ReplaceEndpoint s ep entries now = (s', r)" for ep entries now r
    using store_inv_replace [OF inv that] .
  show "store_inv s'" if "s' = Store_DeleteEndpoint s ep now" for ep now
    using inv that by (simp add: Store_DeleteEndpoint_def store_inv_delete store_inv_record_delete)
  show "store_inv s'" if "SweepPolicyEndpoints ctxErr s keep maxIdle now = (s', r)" for ctxErr keep maxIdle now r
    using inv that store_inv_fold_sweep [of "(s, 0)" keep maxIdle now "policyEndpointIDsLocked s"]
    by (auto simp: SweepPolicyEndpoints_def split: option.splits if_splits prod.splits)
  show "store_inv s'" if "ClearEvents s match = (s', out)" for match out
    using inv that by (auto simp: ClearEvents_def Let_def store_inv_def intro: order_trans [OF length_filter_le])
  show "store_inv s'" if "s' = SetFailAfter s n" for n
    using inv that by (simp add: SetFailAfter_def store_inv_def)
qed

lemma store_reachable_store_inv: "store_reachable s \<Longrightarrow> store_inv s"
  by (induction rule: store_reachable.induct) (auto intro: store_inv_step)

text \<open>
  C16. In every store reached by replacing, deleting and sweeping endpoints and clearing events, the
  entries of each endpoint are strictly sorted by key and at most 1024 events are kept.
\<close>

theorem store_reachable_inv:
  assumes "store_reachable s"
  shows "sorted_wrt comparePolicyKey (map pme_Key (Store_Entries s ep)) \<and> length (store_events s) \<le> 1024"
proof -
  from assms have "store_inv s" by (rule store_reachable_store_inv)
  then show ?thesis
    by (auto simp: store_inv_def Store_Entries_def gomap_get_def split: option.splits)
qed

theorem store_reachable_inv_witness:
  "length (store_events (Store_DeleteEndpoint (fst (ReplaceEndpoint NewInMemoryPolicyStore ''ep'' [example_entry 1 0 3] 5)) ''ep'' 9)) \<le> 1024"
proof -
  have "store_reachable (fst (ReplaceEndpoint NewInMemoryPolicyStore ''ep'' [example_entry 1 0 3] 5))"
    by (rule store_reachable.step [OF store_reachable.new store_step.replace [OF prod.collapse [symmetric]]])
  then show ?thesis
    using store_reachable_inv [OF store_reachable.step [OF _ store_step.delete]] by blast
qed

end
