(* ===== verification/Pipeline.thy ===== *)
theory Pipeline
  imports PolicyUpdate Evaluator
begin

text \<open>
  From rules to verdicts: compiling an endpoint (\<open>internal/policy/compiler.go\<close>), encoding the program and
  storing it (\<open>internal/dataplane/policymap.go\<close>) and evaluating packets against the stored entries
  (\<open>internal/dataplane/evaluator.go\<close>) implement the meaning of the rules: the matching rule of the highest
  precedence decides.
\<close>

section \<open>What a rule means\<close>

definition rule_proto :: "Rule \<Rightarrow> u8 result" where
  "rule_proto r =
     (let p = normalizedProtocol (rule_Protocol r) in
      if p = ProtocolICMP \<and> prefix_IsValid (rule_RemoteCIDR r) \<and> \<not> addr_Is4 (prefix_Addr (rule_RemoteCIDR r)) \<and>
         addr_Is6 (prefix_Addr (rule_RemoteCIDR r))
      then Inr 58 else protocolNumber p)"

text \<open>Protocol, ports and ICMP fields: the ICMP fields count for ICMP only, the ports for other protocols.\<close>

definition rule_l4 :: "Rule \<Rightarrow> Packet \<Rightarrow> bool" where
  "rule_l4 r packet \<longleftrightarrow>
     (if normalizedProtocol (rule_Protocol r) = ProtocolICMP then
        rule_proto r = Inr (pkt_Protocol packet) \<and>
        (case rule_ICMPType r of
           None \<Rightarrow> True
         | Some t \<Rightarrow> t = pkt_ICMPType packet \<and>
             (case rule_ICMPCode r of None \<Rightarrow> True | Some c \<Rightarrow> c = pkt_ICMPCode packet))
      else if rule_Ports r = [] then
        normalizedProtocol (rule_Protocol r) = ProtocolAny \<or> rule_proto r = Inr (pkt_Protocol packet)
      else
        rule_proto r = Inr (pkt_Protocol packet) \<and>
        list_ex (\<lambda>range. port_From range \<le> pkt_DestPort packet \<and> pkt_DestPort packet \<le> port_To range) (rule_Ports r))"

text \<open>
  The remote side: a prefix must contain the remote address, a remote endpoint must be the endpoint the
  packet was identified with, and without a prefix the identity decides as well.
\<close>

definition rule_remote :: "string \<Rightarrow> Rule \<Rightarrow> Packet \<Rightarrow> bool" where
  "rule_remote vpc r packet \<longleftrightarrow>
     (if prefix_IsValid (rule_RemoteCIDR r) then remoteCIDRMatches (rule_RemoteCIDR r) (pkt_RemoteIP packet) else True) \<and>
     (if rule_identity stableIdentity vpc r = 0 \<or> prefix_IsValid (rule_RemoteCIDR r) \<and> rule_RemoteEndpoint r = '''' then True
      else rule_identity stableIdentity vpc r = pkt_RemoteIdentity packet)"

definition rule_matches :: "string \<Rightarrow> Rule \<Rightarrow> Packet \<Rightarrow> bool" where
  "rule_matches vpc r packet \<longleftrightarrow>
     directionNumber (rule_Direction r) = Inr (pkt_Direction packet) \<and> rule_remote vpc r packet \<and> rule_l4 r packet"

definition rule_verdict :: "Rule \<Rightarrow> Verdict" where
  "rule_verdict r =
     (if rule_Action r = ActionReject then VerdictReject
      else if rule_Action r = ActionDrop then VerdictDrop else VerdictAllow)"


section \<open>The entries of a rule match what the rule matches\<close>

text \<open>The 16 bits the last part of the key is compared with.\<close>

definition packet_port :: "Packet \<Rightarrow> u16" where
  "packet_port packet =
     (if pkt_Protocol packet = 1 \<or> pkt_Protocol packet = 58
      then push_bit 8 (ucast (pkt_ICMPType packet)) OR ucast (pkt_ICMPCode packet) else pkt_DestPort packet)"

definition pp_matches :: "u8 \<Rightarrow> portPrefix \<Rightarrow> Packet \<Rightarrow> bool" where
  "pp_matches proto pp packet \<longleftrightarrow>
     pp_l4PrefixBits pp = 0 \<or>
     proto = pkt_Protocol packet \<and>
     (pp_l4PrefixBits pp \<le> 8 \<or> top_match (unat (pp_l4PrefixBits pp) - 8) (pp_port pp) (packet_port packet))"

lemma top_match_icmp_type:
  "n \<le> 8 \<Longrightarrow> top_match n p (push_bit 8 (ucast (t :: u8)) OR ucast (c :: u8)) \<longleftrightarrow> top_match n p (push_bit 8 (ucast t) :: u16)"
proof -
  have "\<not> bit c i" if "8 \<le> i" for i using that bit_imp_le_length [of c i] by auto
  then show "n \<le> 8 \<Longrightarrow> ?thesis"
    by (auto simp: top_match_bits bit_or_iff bit_push_bit_iff bit_ucast_iff)
qed

lemma ucast_u8_u32_u8: "(ucast (ucast (w :: u8) :: u32) :: u8) = w"
  by (rule bit_word_eqI) (simp add: bit_ucast_iff)

lemma l4_matches_pp:
  assumes "pp_l4PrefixBits pp \<le> 24" and "pk_Protocol key = proto"
    and len: "pk_PrefixLen key = 40 + ucast (pp_l4PrefixBits pp)"
    and port: "pk_DestPortBE key = hostToNetwork16 little (pp_port pp)"
  shows "l4_matches little key packet \<longleftrightarrow> pp_matches proto pp packet"
proof -
  let ?len = "pp_l4PrefixBits pp"
  have len': "(ucast (pk_PrefixLen key - 40) :: u8) = ?len" by (simp add: len ucast_u8_u32_u8)
  show ?thesis
  proof (cases "?len \<le> 8")
    case True
    then show ?thesis
      unfolding l4_matches_def len' assms(2) by (auto simp: pp_matches_def Let_def)
  next
    case False
    then have sub: "unat (?len - 8) = unat ?len - 8" and "?len - 8 \<le> 16" and nz: "?len \<noteq> 0" "?len - 8 \<noteq> 0"
      using assms(1) by (auto simp: word_le_nat_alt unat_sub)
    then have mask: "shift_mask (?len - 8) = top_mask (unat ?len - 8)"
      by (simp add: shift_mask_top_mask)
    have low: "(8 < ?len - 8) \<longleftrightarrow> \<not> unat ?len - 8 \<le> 8" by (auto simp: word_less_nat_alt sub)
    show ?thesis
      unfolding l4_matches_def len' assms(2) port pp_matches_def packet_port_def
      using False nz by (simp add: Let_def mask and_top_mask_eq low top_match_icmp_type)
  qed
qed

lemma block_prefixBits_le: "b \<in> set (split_from current to) \<Longrightarrow> block_prefixBits b \<le> 16"
proof (induction current to rule: split_from.induct)
  case (1 current to)
  show ?case
  proof (cases "current \<le> ucast to")
    case True
    obtain j where "j \<le> 16" "block_size current to = 2 ^ j"
      using block_size_power [OF True] by metis
    then have "16 - log2 (block_size current to) = (of_nat (16 - j) :: u32)"
      using log2_power by (simp add: of_nat_diff)
    then have "(ucast (16 - log2 (block_size current to)) :: u8) \<le> 16"
      by (simp add: word_le_nat_alt unsigned_ucast_eq unsigned_of_nat take_bit_nat_eq_self)
    moreover from "1.prems" True have "b = \<lparr>block_port = ucast current, block_prefixBits = ucast (16 - log2 (block_size current to))\<rparr> \<or>
        b \<in> set (split_from (current + block_size current to) to)"
      by (subst (asm) split_from.simps) (simp add: Let_def)
    ultimately show ?thesis using "1.IH" [OF True refl] by auto
  next
    case False
    with "1.prems" show ?thesis by (subst (asm) split_from.simps) simp
  qed
qed

lemma pp_matches_block:
  assumes "block_prefixBits b \<le> 16" and "\<not> (proto = 1 \<or> proto = 58)"
  shows "pp_matches proto (block_prefix b) packet \<longleftrightarrow> proto = pkt_Protocol packet \<and> block_covers b (pkt_DestPort packet)"
proof -
  have "unat (8 + block_prefixBits b) = 8 + unat (block_prefixBits b)"
    using assms(1) by (subst unat_plus_simple [THEN iffD1]) (auto simp: word_le_nat_alt unat_word_ariths)
  then have "8 + block_prefixBits b \<noteq> 0" and "8 + block_prefixBits b \<le> 8 \<longleftrightarrow> unat (block_prefixBits b) = 0"
    and "unat (8 + block_prefixBits b) - 8 = unat (block_prefixBits b)"
    by (auto simp: word_le_nat_alt)
  then show ?thesis
    using assms(2) by (auto simp: pp_matches_def block_prefix_def block_covers_def packet_port_def)
qed

lemma port_prefixes_fold:
  assumes "fold_result (\<lambda>portRange out.
             case PortRange_Validate portRange of
               Inl e \<Rightarrow> Inl e
             | Inr _ \<Rightarrow> Inr (out @ map block_prefix (splitPortRange (port_From portRange) (port_To portRange))))
           ranges out = Inr ports"
  shows "ports = out @ concat (map (\<lambda>range. map block_prefix (splitPortRange (port_From range) (port_To range))) ranges)"
  using assms
proof (induction ranges arbitrary: out)
  case (Cons range ranges)
  from Cons.prems show ?case by (auto split: sum.splits dest!: Cons.IH)
qed simp

lemma port_prefixes_match:
  assumes "\<not> (proto = 1 \<or> proto = 58)"
  shows "(\<exists>pp \<in> set (concat (map (\<lambda>range. map block_prefix (splitPortRange (port_From range) (port_To range))) ranges)).
      pp_matches proto pp packet) \<longleftrightarrow>
    proto = pkt_Protocol packet \<and>
    list_ex (\<lambda>range. port_From range \<le> pkt_DestPort packet \<and> pkt_DestPort packet \<le> port_To range) ranges"
proof -
  have "(\<exists>b \<in> set (splitPortRange lo hi). pp_matches proto (block_prefix b) packet) \<longleftrightarrow>
      proto = pkt_Protocol packet \<and> lo \<le> pkt_DestPort packet \<and> pkt_DestPort packet \<le> hi" for lo hi
    using pp_matches_block [OF block_prefixBits_le assms, of _ "ucast lo" hi packet]
      split_from_covers [of "ucast lo" "pkt_DestPort packet" hi]
    by (auto simp: splitPortRange_def unat_ucast_u16_u32 word_le_nat_alt)
  then show ?thesis by (auto simp: list_ex_iff)
qed

lemma icmp_type_eq: "top_match 8 (push_bit 8 (ucast t) :: u16) (push_bit 8 (ucast t')) \<longleftrightarrow> t = (t' :: u8)"
proof
  assume top: "top_match 8 (push_bit 8 (ucast t) :: u16) (push_bit 8 (ucast t'))"
  show "t = t'"
  proof (rule bit_word_eqI)
    fix n assume "n < LENGTH(8)"
    then show "bit t n = bit t' n"
      using top [unfolded top_match_bits, rule_format, of "n + 8"] by (simp add: bit_push_bit_iff bit_ucast_iff)
  qed
qed simp

lemma icmp_code_eq:
  "push_bit 8 (ucast t) OR ucast c = (push_bit 8 (ucast t') OR ucast c' :: u16) \<longleftrightarrow> t = (t' :: u8) \<and> c = (c' :: u8)"
proof
  assume eq: "push_bit 8 (ucast t) OR ucast c = (push_bit 8 (ucast t') OR ucast c' :: u16)"
  then have "top_match 8 (push_bit 8 (ucast t) OR ucast c) (push_bit 8 (ucast t') OR ucast c' :: u16)" by simp
  then have "t = t'"
    using top_match_icmp_type [of 8 _ t' c'] top_match_icmp_type [of 8 _ t c] icmp_type_eq by (metis order_refl top_match_sym)
  moreover have "c = c'"
  proof (rule bit_word_eqI)
    fix n assume "n < LENGTH(8)"
    then show "bit c n = bit c' n"
      using arg_cong [OF eq, of "\<lambda>w. bit w n"] by (simp add: bit_or_iff bit_push_bit_iff bit_ucast_iff)
  qed
  ultimately show "t = t' \<and> c = c'" by simp
qed simp

lemma icmpPrefixes_match:
  assumes "proto = 1 \<or> proto = 58"
  shows "(\<exists>pp \<in> set (icmpPrefixes r). pp_matches proto pp packet) \<longleftrightarrow>
    proto = pkt_Protocol packet \<and>
    (case rule_ICMPType r of
       None \<Rightarrow> True
     | Some t \<Rightarrow> t = pkt_ICMPType packet \<and> (case rule_ICMPCode r of None \<Rightarrow> True | Some c \<Rightarrow> c = pkt_ICMPCode packet))"
proof (cases "proto = pkt_Protocol packet")
  case True
  then have port: "packet_port packet = push_bit 8 (ucast (pkt_ICMPType packet)) OR ucast (pkt_ICMPCode packet)"
    using assms by (simp add: packet_port_def)
  show ?thesis
    using True
    by (auto simp: icmpPrefixes_def pp_matches_def port top_match_icmp_type icmp_type_eq icmp_code_eq Let_def split: option.splits)
qed (auto simp: icmpPrefixes_def pp_matches_def Let_def split: option.splits)

lemma icmpPrefixes_bits: "pp \<in> set (icmpPrefixes r) \<Longrightarrow> pp_l4PrefixBits pp \<le> 24"
  by (auto simp: icmpPrefixes_def Let_def split: option.splits)

lemma block_prefix_bits: "b \<in> set (splitPortRange lo hi) \<Longrightarrow> pp_l4PrefixBits (block_prefix b) \<le> 24"
  using block_prefixBits_le [of b "ucast lo" hi]
  by (auto simp: splitPortRange_def block_prefix_def word_le_nat_alt unat_word_ariths)

lemma rule_proto_icmp:
  assumes "rule_proto r = Inr proto"
  shows "(proto = 1 \<or> proto = 58) \<longleftrightarrow> normalizedProtocol (rule_Protocol r) = ProtocolICMP"
  using assms by (auto simp: rule_proto_def protocolNumber_def Let_def split: if_splits)

lemma l4PortPrefixes_match:
  assumes ports: "l4PortPrefixes r = Inr ports" and proto: "rule_proto r = Inr proto"
  shows "(\<exists>pp \<in> set ports. pp_matches proto pp packet) \<longleftrightarrow> rule_l4 r packet"
    and "\<forall>pp \<in> set ports. pp_l4PrefixBits pp \<le> 24"
proof -
  let ?p = "normalizedProtocol (rule_Protocol r)"
  consider (icmp) "?p = ProtocolICMP" "ports = icmpPrefixes r"
    | (none) "?p \<noteq> ProtocolICMP" "rule_Ports r = []" "ports = [\<lparr>pp_port = 0, pp_l4PrefixBits = (if ?p = ProtocolAny then 0 else 8)\<rparr>]"
    | (ranges) "?p \<noteq> ProtocolICMP" "rule_Ports r \<noteq> []"
        "ports = concat (map (\<lambda>range. map block_prefix (splitPortRange (port_From range) (port_To range))) (rule_Ports r))"
  proof (cases "?p = ProtocolICMP"; cases "rule_Ports r = []")
    assume *: "?p \<noteq> ProtocolICMP" "rule_Ports r \<noteq> []"
    with ports have "fold_result (\<lambda>portRange out.
             case PortRange_Validate portRange of
               Inl e \<Rightarrow> Inl e
             | Inr _ \<Rightarrow> Inr (out @ map block_prefix (splitPortRange (port_From portRange) (port_To portRange))))
           (rule_Ports r) [] = Inr ports"
      by (simp add: l4PortPrefixes_def Let_def split: if_splits)
    from port_prefixes_fold [OF this] * show thesis by (intro that(3)) simp_all
  qed (use ports that(1,2) in \<open>simp_all add: l4PortPrefixes_def Let_def split: if_splits\<close>)
  then have "((\<exists>pp \<in> set ports. pp_matches proto pp packet) \<longleftrightarrow> rule_l4 r packet) \<and> (\<forall>pp \<in> set ports. pp_l4PrefixBits pp \<le> 24)"
  proof cases
    case icmp
    then show ?thesis
      using icmpPrefixes_match [of proto r packet] rule_proto_icmp [OF proto] icmpPrefixes_bits
      by (auto simp: rule_l4_def proto)
  next
    case none
    then show ?thesis by (auto simp: rule_l4_def proto pp_matches_def)
  next
    case ranges
    then show ?thesis
      using port_prefixes_match [of proto "rule_Ports r" packet] rule_proto_icmp [OF proto] block_prefix_bits
      by (auto simp: rule_l4_def proto)
  qed
  then show "(\<exists>pp \<in> set ports. pp_matches proto pp packet) \<longleftrightarrow> rule_l4 r packet"
    and "\<forall>pp \<in> set ports. pp_l4PrefixBits pp \<le> 24" by blast+
qed

section \<open>Encoded entries\<close>

lemma EncodeEntry_map_entry:
  assumes "EncodeEntry little (map_entry r pp i) = Inr pe"
  obtains proto direction where "rule_proto r = Inr proto" and "directionNumber (rule_Direction r) = Inr direction"
    and "pme_Key pe = \<lparr>pk_PrefixLen = 40 + ucast (pp_l4PrefixBits pp), pk_RemoteIdentity = i, pk_Direction = direction,
           pk_Protocol = proto, pk_DestPortBE = hostToNetwork16 little (pp_port pp)\<rparr>"
    and "pme_RemoteCIDR pe = rule_RemoteCIDR r" and "pe_Precedence (pme_Value pe) = precedence r"
    and "verdict_of pe = rule_verdict r" and "pe_RequireIdentity (pme_Value pe) \<noteq> 0 \<longleftrightarrow> rule_RemoteEndpoint r \<noteq> ''''"
proof -
  have "protocolNumberForEntry (map_entry r pp i) = rule_proto r"
    by (auto simp: protocolNumberForEntry_def rule_proto_def map_entry_def Let_def)
  then show thesis
    using assms that
    by (auto simp: EncodeEntry_def bind_result_Inr map_entry_def verdict_of_def rule_verdict_def boolByte_def)
qed

text \<open>An encoded entry of a rule matches the packets of the rule whose last bits are those of the entry.\<close>

lemma matches_encoded:
  assumes "EncodeEntry little (map_entry r pp (rule_identity stableIdentity vpc r)) = Inr pe"
    and "l4PortPrefixes r = Inr ports" and "pp \<in> set ports"
  shows "\<exists>proto. rule_proto r = Inr proto \<and>
    (matches little pe packet \<longleftrightarrow>
       directionNumber (rule_Direction r) = Inr (pkt_Direction packet) \<and> rule_remote vpc r packet \<and> pp_matches proto pp packet)"
proof -
  let ?i = "rule_identity stableIdentity vpc r"
  obtain proto direction where proto: "rule_proto r = Inr proto" and dir: "directionNumber (rule_Direction r) = Inr direction"
    and key: "pme_Key pe = \<lparr>pk_PrefixLen = 40 + ucast (pp_l4PrefixBits pp), pk_RemoteIdentity = ?i, pk_Direction = direction,
           pk_Protocol = proto, pk_DestPortBE = hostToNetwork16 little (pp_port pp)\<rparr>"
    and cidr: "pme_RemoteCIDR pe = rule_RemoteCIDR r"
    and req: "pe_RequireIdentity (pme_Value pe) \<noteq> 0 \<longleftrightarrow> rule_RemoteEndpoint r \<noteq> ''''"
    by (rule EncodeEntry_map_entry [OF assms(1)])
  have "l4_matches little (pme_Key pe) packet \<longleftrightarrow> pp_matches proto pp packet"
    using l4PortPrefixes_match(2) [OF assms(2) proto] assms(3) by (intro l4_matches_pp) (simp_all add: key)
  then show ?thesis
    using req by (intro exI [of _ proto]) (auto simp: matches_def Let_def proto dir cidr rule_remote_def key)
qed

lemma encode_entries_set:
  assumes "encode_entries little es = Inr encs"
  shows "set encs = {pe. \<exists>e \<in> set es. EncodeEntry little e = Inr pe}" and "\<forall>e \<in> set es. is_ok (EncodeEntry little e)"
proof -
  have "set encs = set out \<union> {pe. \<exists>e \<in> set es. EncodeEntry little e = Inr pe} \<and> (\<forall>e \<in> set es. is_ok (EncodeEntry little e))"
    if "fold_result (\<lambda>entry entries.
         case EncodeEntry little entry of
           Inl e \<Rightarrow> Inl (Wrapf ''rule %s: %w'' [me_RuleID entry] e)
         | Inr encoded \<Rightarrow> Inr (entries @ [encoded])) es out = Inr encs" for out
    using that
  proof (induction es arbitrary: out)
    case (Cons e es)
    then obtain pe where pe: "EncodeEntry little e = Inr pe" by (auto split: sum.splits)
    with Cons.prems Cons.IH [of "out @ [pe]"] show ?case by auto
  qed simp
  from this [of "[]"] assms show "set encs = {pe. \<exists>e \<in> set es. EncodeEntry little e = Inr pe}"
    and "\<forall>e \<in> set es. is_ok (EncodeEntry little e)"
    by (simp_all add: encode_entries_def)
qed

text \<open>The encoded entries of rules, seen from a rule and from an entry.\<close>

lemma encoded_rule_matches:
  assumes "l4PortPrefixes r = Inr ports" and "\<forall>e \<in> set (entries_of vpc r). is_ok (EncodeEntry little e)"
  shows "rule_matches vpc r packet \<longleftrightarrow>
    (\<exists>e \<in> set (entries_of vpc r). \<exists>pe. EncodeEntry little e = Inr pe \<and> matches little pe packet)"
proof -
  let ?e = "\<lambda>pp. map_entry r pp (rule_identity stableIdentity vpc r)"
  let ?meaning = "directionNumber (rule_Direction r) = Inr (pkt_Direction packet) \<and> rule_remote vpc r packet"
  have entries: "set (entries_of vpc r) = ?e ` set ports"
    by (simp add: entries_of_def assms(1) rule_entries_def)
  show ?thesis
  proof (cases "rule_proto r")
    case (Inl e)
    then have "\<not> rule_l4 r packet"
      by (auto simp: rule_l4_def rule_proto_def protocolNumber_def Let_def split: if_splits)
    moreover have "EncodeEntry little (?e pp) \<noteq> Inr pe" for pp pe
      using Inl by (auto elim!: EncodeEntry_map_entry)
    ultimately show ?thesis by (auto simp: entries rule_matches_def)
  next
    case (Inr proto)
    have "(\<exists>pe. EncodeEntry little (?e pp) = Inr pe \<and> matches little pe packet) \<longleftrightarrow> ?meaning \<and> pp_matches proto pp packet"
      if "pp \<in> set ports" for pp
    proof -
      from assms(2) that have "is_ok (EncodeEntry little (?e pp))" by (simp add: entries)
      then obtain pe where pe: "EncodeEntry little (?e pp) = Inr pe"
        by (cases "EncodeEntry little (?e pp)") (auto simp: is_ok_def)
      from matches_encoded [OF this assms(1) that, of packet] Inr show ?thesis by (simp add: pe)
    qed
    then show ?thesis
      using l4PortPrefixes_match(1) [OF assms(1) Inr, of packet] by (auto simp: entries rule_matches_def)
  qed
qed

definition decides :: "string \<Rightarrow> Rule list \<Rightarrow> Packet \<Rightarrow> Rule \<Rightarrow> bool" where
  "decides vpc rules packet r \<longleftrightarrow>
     r \<in> set rules \<and> rule_matches vpc r packet \<and>
     list_all (\<lambda>r'. rule_matches vpc r' packet \<longrightarrow> precedence r' \<le> precedence r) rules"

text \<open>Rules that decide about the same packet agree on whether it may pass.\<close>

lemma decides_agree:
  assumes "decides vpc rules packet r" and "decides vpc rules packet r'"
  shows "is_deny (rule_Action r) = is_deny (rule_Action r')"
proof -
  have "precedence r = precedence r'"
    using assms by (auto simp: decides_def list_all_iff intro: antisym)
  then have "unat (precedence r) = unat (precedence r')" by simp
  then show ?thesis
    unfolding unat_precedence by (auto split: if_splits; presburger)
qed

lemma is_deny_verdict: "rule_verdict r = VerdictAllow \<longleftrightarrow> \<not> is_deny (rule_Action r)"
  by (auto simp: rule_verdict_def is_deny_def)

text \<open>Identities of different kinds of remotes do not collide, as far as the rules of a program go.\<close>

definition identities_apart :: "string \<Rightarrow> Rule list \<Rightarrow> bool" where
  "identities_apart vpc rules \<longleftrightarrow>
     list_all (\<lambda>r. list_all (\<lambda>r'. rule_identity stableIdentity vpc r = rule_identity stableIdentity vpc r' \<longrightarrow>
       (rule_RemoteEndpoint r = '''') = (rule_RemoteEndpoint r' = '''')) rules) rules"

lemma identities_apartD:
  "identities_apart vpc rules \<Longrightarrow> r \<in> set rules \<Longrightarrow> r' \<in> set rules \<Longrightarrow>
   rule_identity stableIdentity vpc r = rule_identity stableIdentity vpc r' \<Longrightarrow>
   (rule_RemoteEndpoint r = '''') = (rule_RemoteEndpoint r' = '''')"
  unfolding identities_apart_def list_all_iff by blast

text \<open>What evaluation sees of an entry.\<close>

definition entry_view :: "PolicyMapEntry \<Rightarrow> PolicyKey \<times> PolicyEntry \<times> prefix" where
  "entry_view e = (pme_Key e, entry_sem e)"

lemma entry_view_eq:
  assumes "entry_view a = entry_view b"
  shows "pme_Key a = pme_Key b" and "pme_RemoteCIDR a = pme_RemoteCIDR b"
    and "pe_Precedence (pme_Value a) = pe_Precedence (pme_Value b)" and "verdict_of a = verdict_of b"
    and "matches little a packet = matches little b packet" and "betterMatch packet c a = betterMatch packet c b"
    and "betterMatch packet a c = betterMatch packet b c"
    and "pe_RequireIdentity (pme_Value a) = pe_RequireIdentity (pme_Value b)"
proof -
  from assms have key: "pme_Key a = pme_Key b" and cidr: "pme_RemoteCIDR a = pme_RemoteCIDR b"
    and v: "(pme_Value a)\<lparr>pe_Packets := 0, pe_Bytes := 0\<rparr> = (pme_Value b)\<lparr>pe_Packets := 0, pe_Bytes := 0\<rparr>"
    by (auto simp: entry_view_def entry_sem_def)
  have f: "pe_Precedence (pme_Value a) = pe_Precedence (pme_Value b)" "pe_Deny (pme_Value a) = pe_Deny (pme_Value b)"
      "pe_Reject (pme_Value a) = pe_Reject (pme_Value b)" "pe_RequireIdentity (pme_Value a) = pe_RequireIdentity (pme_Value b)"
      "pe_L4PrefixLen (pme_Value a) = pe_L4PrefixLen (pme_Value b)"
    using arg_cong [OF v, of pe_Precedence] arg_cong [OF v, of pe_Deny] arg_cong [OF v, of pe_Reject]
      arg_cong [OF v, of pe_RequireIdentity] arg_cong [OF v, of pe_L4PrefixLen] by simp_all
  show "pme_Key a = pme_Key b" "pme_RemoteCIDR a = pme_RemoteCIDR b" by (fact key, fact cidr)
  show "pe_Precedence (pme_Value a) = pe_Precedence (pme_Value b)" "verdict_of a = verdict_of b"
    "matches little a packet = matches little b packet"
    using f by (simp_all add: verdict_of_def matches_def Let_def key cidr)
  show "pe_RequireIdentity (pme_Value a) = pe_RequireIdentity (pme_Value b)" by (fact f)
  show "betterMatch packet c a = betterMatch packet c b" "betterMatch packet a c = betterMatch packet b c"
    by (simp_all only: betterMatch_def policyActionPrecedence_def exact_identity_def Let_def f key cidr)
qed

section \<open>The matching rule of the highest precedence decides\<close>

text \<open>A list of rules, its encoded and canonical entries, and a list of entries that looks like these.\<close>

definition installed :: "bool \<Rightarrow> string \<Rightarrow> Rule list \<Rightarrow> PolicyMapEntry list \<Rightarrow> PolicyMapEntry list \<Rightarrow> bool" where
  "installed little vpc rules encs stored \<longleftrightarrow>
     identities_apart vpc rules \<and> (\<forall>r \<in> set rules. is_ok (l4PortPrefixes r)) \<and>
     (\<exists>es out. set es = (\<Union>r \<in> set rules. set (entries_of vpc r)) \<and> encode_entries little es = Inr encs \<and>
        canonicalPolicyMapEntries encs = Inr out \<and> entry_view ` set stored = entry_view ` set out)"

definition entry_of :: "bool \<Rightarrow> string \<Rightarrow> PolicyMapEntry \<Rightarrow> Rule \<Rightarrow> bool" where
  "entry_of little vpc e r \<longleftrightarrow>
     pe_Precedence (pme_Value e) = precedence r \<and> verdict_of e = rule_verdict r \<and>
     (\<forall>packet. matches little e packet \<longrightarrow> rule_matches vpc r packet) \<and>
     pk_RemoteIdentity (pme_Key e) = rule_identity stableIdentity vpc r \<and>
     (pe_RequireIdentity (pme_Value e) \<noteq> 0 \<longleftrightarrow> rule_RemoteEndpoint r \<noteq> '''')"

lemma installed_encoded:
  assumes "installed little vpc rules encs stored"
  shows "e \<in> set encs \<Longrightarrow> \<exists>r \<in> set rules. entry_of little vpc e r"
    and "r \<in> set rules \<Longrightarrow> rule_matches vpc r packet \<Longrightarrow>
      \<exists>e \<in> set encs. matches little e packet \<and> pe_Precedence (pme_Value e) = precedence r"
proof -
  from assms obtain es where entries: "set es = (\<Union>r \<in> set rules. set (entries_of vpc r))"
    and encode: "encode_entries little es = Inr encs" and ports: "\<forall>r \<in> set rules. is_ok (l4PortPrefixes r)"
    by (auto simp: installed_def)
  note encs = encode_entries_set [OF encode]
  let ?e = "\<lambda>r pp. map_entry r pp (rule_identity stableIdentity vpc r)"
  have entry: "\<exists>pp. me = ?e r pp" if "me \<in> set (entries_of vpc r)" for me r
    using that by (auto simp: entries_of_def rule_entries_def split: sum.splits)
  have match: "rule_matches vpc r packet \<longleftrightarrow>
      (\<exists>me \<in> set (entries_of vpc r). \<exists>pe. EncodeEntry little me = Inr pe \<and> matches little pe packet)"
    if "r \<in> set rules" for r packet
  proof -
    from that ports obtain ps where "l4PortPrefixes r = Inr ps" by (cases "l4PortPrefixes r") (auto simp: is_ok_def)
    then show ?thesis by (rule encoded_rule_matches) (use encs(2) entries that in blast)
  qed
  show "\<exists>r \<in> set rules. entry_of little vpc e r" if "e \<in> set encs"
  proof -
    from that encs(1) entries obtain r me where r: "r \<in> set rules" and me: "me \<in> set (entries_of vpc r)"
      and e: "EncodeEntry little me = Inr e" by auto
    from entry [OF me] obtain pp where "me = ?e r pp" by blast
    with e have "EncodeEntry little (?e r pp) = Inr e" by simp
    then have "entry_of little vpc e r"
      by (rule EncodeEntry_map_entry) (use match [OF r] me e in \<open>auto simp: entry_of_def\<close>)
    with r show ?thesis by blast
  qed
  show "\<exists>e \<in> set encs. matches little e packet \<and> pe_Precedence (pme_Value e) = precedence r"
    if r: "r \<in> set rules" and "rule_matches vpc r packet"
  proof -
    from match [OF r] that(2) obtain me e where me: "me \<in> set (entries_of vpc r)"
      and e: "EncodeEntry little me = Inr e" and "matches little e packet" by blast
    from entry [OF me] e obtain pp where "EncodeEntry little (?e r pp) = Inr e" by blast
    then have "pe_Precedence (pme_Value e) = precedence r" by (rule EncodeEntry_map_entry)
    moreover have "e \<in> set encs" using encs(1) entries r me e by blast
    ultimately show ?thesis using \<open>matches little e packet\<close> by blast
  qed
qed

lemma matches_same_key:
  assumes "pme_Key a = pme_Key b" and "pme_RemoteCIDR a = pme_RemoteCIDR b"
    and "pe_RequireIdentity (pme_Value a) \<noteq> 0 \<longleftrightarrow> pe_RequireIdentity (pme_Value b) \<noteq> 0"
  shows "matches little a packet = matches little b packet"
  using assms by (auto simp: matches_def Let_def)

lemma installed_stored:
  assumes installed: "installed little vpc rules encs stored"
  shows "e \<in> set stored \<Longrightarrow> \<exists>r \<in> set rules. entry_of little vpc e r"
    and "r \<in> set rules \<Longrightarrow> rule_matches vpc r packet \<Longrightarrow>
      \<exists>e \<in> set stored. matches little e packet \<and> precedence r \<le> pe_Precedence (pme_Value e)"
proof -
  from installed obtain out where canonical: "canonicalPolicyMapEntries encs = Inr out"
    and view: "entry_view ` set stored = entry_view ` set out" and apart: "identities_apart vpc rules"
    by (auto simp: installed_def)
  note out = canonicalPolicyMapEntries_result [OF canonical]
  note encoded = installed_encoded [OF installed]
  show "\<exists>r \<in> set rules. entry_of little vpc e r" if "e \<in> set stored"
  proof -
    from view that obtain e' where "e' \<in> set out" and eq: "entry_view e = entry_view e'" by (metis image_iff)
    with out encoded(1) [of e'] obtain r where r: "r \<in> set rules" and "entry_of little vpc e' r" by blast
    then have "entry_of little vpc e r"
      using entry_view_eq(5) [OF eq] by (simp add: entry_of_def entry_view_eq [OF eq])
    with r show ?thesis by blast
  qed
  show "\<exists>e \<in> set stored. matches little e packet \<and> precedence r \<le> pe_Precedence (pme_Value e)"
    if "r \<in> set rules" and "rule_matches vpc r packet"
  proof -
    from encoded(2) [OF that] obtain e where e: "e \<in> set encs" "matches little e packet" "pe_Precedence (pme_Value e) = precedence r"
      by blast
    with out obtain best where best: "best \<in> set out" "dominates best e" by blast
    then have key: "pme_Key best = pme_Key e" and cidr: "pme_RemoteCIDR best = pme_RemoteCIDR e"
      and better: "\<not> betterPolicyMapEntry e best" by (auto simp: dominates_def)
    from encoded(1) [OF e(1)] obtain r1 where r1: "r1 \<in> set rules" "entry_of little vpc e r1" by blast
    from encoded(1) [of best] best(1) out obtain r2 where r2: "r2 \<in> set rules" "entry_of little vpc best r2" by blast
    have "rule_identity stableIdentity vpc r1 = rule_identity stableIdentity vpc r2"
      using r1(2) r2(2) key by (simp add: entry_of_def)
    then have "(rule_RemoteEndpoint r1 = '''') = (rule_RemoteEndpoint r2 = '''')"
      by (rule identities_apartD [OF apart r1(1) r2(1)])
    with r1(2) r2(2) have "matches little best packet = matches little e packet"
      by (intro matches_same_key key cidr) (simp add: entry_of_def)
    moreover have "precedence r \<le> pe_Precedence (pme_Value best)"
      using better e(3) by (auto simp: betterPolicyMapEntry_def Let_def not_less split: if_splits)
    moreover from view best(1) obtain e' where e': "e' \<in> set stored" "entry_view e' = entry_view best" by (metis image_iff)
    ultimately show ?thesis
      using e(2) by (intro bexI [OF _ e'(1)]) (simp add: entry_view_eq [OF e'(2)])
  qed
qed

text \<open>Evaluation of stored entries gives the verdict of a rule that decides.\<close>

definition rules_verdict :: "string \<Rightarrow> Rule list \<Rightarrow> Packet \<Rightarrow> Verdict \<Rightarrow> bool" where
  "rules_verdict vpc rules packet v \<longleftrightarrow>
     (if control_packet packet then v = VerdictAllow
      else if list_ex (\<lambda>r. rule_matches vpc r packet) rules
      then (\<exists>r. decides vpc rules packet r \<and> v = rule_verdict r)
      else v = VerdictDrop)"

lemma installed_evaluate:
  assumes "installed little vpc rules encs stored"
  shows "rules_verdict vpc rules packet (dec_Verdict (Evaluate little stored packet))"
proof (cases "control_packet packet")
  case True
  then show ?thesis by (simp add: rules_verdict_def Evaluate_def evaluate_cases decision_def)
next
  case False
  note stored = installed_stored [OF assms]
  let ?sel = "select_best (betterMatch packet) (filter (\<lambda>entry. matches little entry packet) stored)"
  show ?thesis
  proof (cases ?sel)
    case None
    then have "\<not> matches little e packet" if "e \<in> set stored" for e
      using that by (auto simp: filter_empty_conv)
    then have "\<not> list_ex (\<lambda>r. rule_matches vpc r packet) rules"
      using stored(2) [of _ packet] by (auto simp: list_ex_iff)
    moreover have "evaluate little stored packet = decision VerdictDrop None"
      by (simp only: evaluate_cases False None if_False option.case)
    ultimately show ?thesis using False by (simp add: rules_verdict_def Evaluate_def decision_def)
  next
    case (Some sel)
    from select_best_mem [OF Some] have "sel \<in> set stored" and m: "matches little sel packet" by simp_all
    then obtain r where r: "r \<in> set rules" and entry: "entry_of little vpc sel r" using stored(1) by blast
    have "precedence r' \<le> precedence r" if r': "r' \<in> set rules" "rule_matches vpc r' packet" for r'
    proof -
      from stored(2) [OF r'] obtain e where e: "e \<in> set stored" "matches little e packet" "precedence r' \<le> pe_Precedence (pme_Value e)"
        by blast
      then have "\<not> betterMatch packet e sel" using match_order.select_best_max [OF Some] by simp
      then have "pe_Precedence (pme_Value e) \<le> pe_Precedence (pme_Value sel)"
        by (auto simp: betterMatch_def Let_def not_less split: if_splits)
      with e(3) entry show ?thesis by (simp add: entry_of_def)
    qed
    with r entry m have "decides vpc rules packet r" by (auto simp: decides_def list_all_iff entry_of_def)
    moreover from this have "list_ex (\<lambda>r. rule_matches vpc r packet) rules" by (auto simp: decides_def list_ex_iff)
    moreover have "evaluate little stored packet = decision (verdict_of sel) (Some sel)"
      by (simp only: evaluate_cases False Some if_False option.case)
    ultimately show ?thesis
      using False entry by (auto simp: rules_verdict_def Evaluate_def decision_def entry_of_def)
  qed
qed

section \<open>Policy stores\<close>

text \<open>
  What the backend relies on of a policy store: replacing the entries of an endpoint either leaves all
  entries as they were, or the endpoint has entries that look like the canonical new ones.
\<close>

locale policy_store =
  fixes Replace :: "'s \<Rightarrow> string \<Rightarrow> PolicyMapEntry list \<Rightarrow> 's \<times> unit result"
    and Entries :: "'s \<Rightarrow> string \<Rightarrow> PolicyMapEntry list" and valid :: "'s \<Rightarrow> bool"
  assumes Replace_valid: "valid s \<Longrightarrow> Replace s ep es = (s', r) \<Longrightarrow> valid s'"
    and Replace_ok: "valid s \<Longrightarrow> Replace s ep es = (s', Inr u) \<Longrightarrow>
      \<exists>out. canonicalPolicyMapEntries es = Inr out \<and> entry_view ` set (Entries s' ep) = entry_view ` set out"
    and Replace_other: "valid s \<Longrightarrow> Replace s ep es = (s', r) \<Longrightarrow> ep' \<noteq> ep \<Longrightarrow>
      entry_view ` set (Entries s' ep') = entry_view ` set (Entries s ep')"
    and Replace_error: "valid s \<Longrightarrow> Replace s ep es = (s', Inl e) \<Longrightarrow> Entries s' = Entries s"
begin

text \<open>Canonical entries stay what they are when they are made canonical again.\<close>

lemma Replace_canonical:
  assumes "valid s" and "canonicalPolicyMapEntries encs = Inr out" and "Replace s ep out = (s', Inr u)"
  shows "entry_view ` set (Entries s' ep) = entry_view ` set out"
proof -
  from Replace_ok [OF assms(1,3)] obtain out' where out': "canonicalPolicyMapEntries out = Inr out'"
    and view: "entry_view ` set (Entries s' ep) = entry_view ` set out'" by blast
  have "inj_on pme_Key (set out)"
    using distinct_canonical [OF assms(2)] by (simp add: distinct_map)
  then have "set out' = set out"
    using canonicalPolicyMapEntries_result [OF out'] by (auto simp: dominates_def inj_on_def) (metis subsetD)
  with view show ?thesis by simp
qed

lemma ApplyEndpointProgram_installed:
  assumes "valid s" and "ApplyEndpointProgram little Replace s program = (s', Inr u)"
    and "set (prog_MapEntries program) = (\<Union>r \<in> set (prog_Rules program). set (entries_of vpc r))"
    and "\<forall>r \<in> set (prog_Rules program). is_ok (l4PortPrefixes r)" and "identities_apart vpc (prog_Rules program)"
  shows "\<exists>encs. installed little vpc (prog_Rules program) encs (Entries s' (prog_EndpointID program))"
proof -
  from assms(2) obtain encs out where "encode_entries little (prog_MapEntries program) = Inr encs"
    and canonical: "canonicalPolicyMapEntries encs = Inr out" and replace: "Replace s (prog_EndpointID program) out = (s', Inr u)"
    by (auto simp: ApplyEndpointProgram_def EncodeProgram_def bind_result_Inr split: sum.splits)
  with assms Replace_canonical [OF assms(1) canonical replace] show ?thesis
    unfolding installed_def by blast
qed

end

lemma entry_view_sem: "distinct_keys es \<Longrightarrow> entry_view ` set es = {(k, v). sem_map es k = Some v}"
  by (auto simp: entry_view_def sem_map_def key_map_Some image_iff)

interpretation mem_store: policy_store "\<lambda>s ep es. ReplaceEndpoint s ep es now" Store_Entries store_inv for now
proof
  fix s ep es s' r u e ep'
  assume inv: "store_inv s"
  have view: "entry_view ` set (Store_Entries s ep) = {(k, v). store_sem s ep k = Some v}" if "store_inv s" for s ep
    unfolding store_sem_def by (rule entry_view_sem [OF store_inv_entries [OF that]])
  note result = ReplaceEndpoint_result [OF inv]
  show "store_inv s'" if "ReplaceEndpoint s ep es now = (s', r)"
    using result [OF that] by blast
  show "\<exists>out. canonicalPolicyMapEntries es = Inr out \<and> entry_view ` set (Store_Entries s' ep) = entry_view ` set out"
    if "ReplaceEndpoint s ep es now = (s', Inr u)"
  proof -
    from result [OF that] obtain out where "store_inv s'" and out: "canonicalPolicyMapEntries es = Inr out"
      and sem: "store_sem s' = (store_sem s)(ep := sem_map out)" by auto
    moreover have "distinct_keys out" by (rule distinct_canonical [OF out])
    ultimately show ?thesis by (simp add: view entry_view_sem)
  qed
  show "entry_view ` set (Store_Entries s' ep') = entry_view ` set (Store_Entries s ep')"
    if "ReplaceEndpoint s ep es now = (s', r)" and "ep' \<noteq> ep"
    using result [OF that(1)] that(2) by (cases r) (auto simp: view inv)
  show "Store_Entries s' = Store_Entries s" if "ReplaceEndpoint s ep es now = (s', Inl e)"
    using result [OF that] by simp
qed

section \<open>From security groups to verdicts\<close>

lemma compiled_program_entries:
  assumes "CompileForEndpointWithContext IdentityCache_Identity endpoint groups ctx clock = Inr (program, resolver)"
    and "\<forall>c. ctx_IdentityResolver ctx = Some c \<longrightarrow> cache_valid c"
  shows "set (prog_MapEntries program) = (\<Union>r \<in> set (prog_Rules program). set (entries_of (ep_VPC endpoint) r))"
    and "\<forall>r \<in> set (prog_Rules program). is_ok (l4PortPrefixes r)"
    and "prog_EndpointID program = EndpointKey (ep_VPC endpoint) (ep_ID endpoint)"
proof -
  obtain idx where ok: "\<forall>r \<in> set (compiled_rules endpoint idx (attached_groups endpoint groups)). is_ok (l4PortPrefixes r)"
    and p: "program = sort_program (extend_program (ep_VPC endpoint)
           (compiled_rules endpoint idx (attached_groups endpoint groups) @ default_rules (attached_groups endpoint groups))
           \<lparr>prog_EndpointID = EndpointKey (ep_VPC endpoint) (ep_ID endpoint), prog_EndpointIP = ep_IP endpoint,
            prog_MapEntries = [], prog_Rules = []\<rparr>)"
    by (rule compiled_program [OF assms])
  have "is_ok (l4PortPrefixes (default_allow_rule d))" for d
    by (simp add: l4PortPrefixes_def default_allow_rule_def zero_Rule_def normalizedProtocol_def)
  with ok show "\<forall>r \<in> set (prog_Rules program). is_ok (l4PortPrefixes r)"
    by (auto simp: p sort_program_def extend_program_def default_rules_def)
  show "set (prog_MapEntries program) = (\<Union>r \<in> set (prog_Rules program). set (entries_of (ep_VPC endpoint) r))"
    by (simp add: p sort_program_def extend_program_def)
  show "prog_EndpointID program = EndpointKey (ep_VPC endpoint) (ep_ID endpoint)"
    by (simp add: p sort_program_def extend_program_def)
qed

text \<open>
  C1. The policy that is enforced is the policy that was written. When an endpoint's security groups
  compile and the program is applied to a store, every packet evaluated against the stored entries
  gets the verdict of a matching rule of the highest precedence, and is dropped if no rule matches;
  path MTU and neighbour discovery messages pass. All rules of that precedence agree on whether the
  packet passes. The one assumption is that identities of endpoints and of other remotes do not collide.
\<close>

theorem enforced_policy:
  assumes "CompileForEndpointWithContext IdentityCache_Identity endpoint groups ctx clock = Inr (program, resolver)"
    and "\<forall>c. ctx_IdentityResolver ctx = Some c \<longrightarrow> cache_valid c"
    and "identities_apart (ep_VPC endpoint) (prog_Rules program)"
    and "store_reachable s"
    and "ApplyEndpointProgram little (\<lambda>s ep es. ReplaceEndpoint s ep es now) s program = (s', Inr ())"
  shows "rules_verdict (ep_VPC endpoint) (prog_Rules program) packet
      (dec_Verdict (Evaluate little (Store_Entries s' (EndpointKey (ep_VPC endpoint) (ep_ID endpoint))) packet)) \<and>
    (\<forall>r r'. decides (ep_VPC endpoint) (prog_Rules program) packet r \<and> decides (ep_VPC endpoint) (prog_Rules program) packet r'
       \<longrightarrow> (rule_verdict r = VerdictAllow) = (rule_verdict r' = VerdictAllow))"
proof -
  note program = compiled_program_entries [OF assms(1,2)]
  have "store_inv s" by (rule store_reachable_store_inv [OF assms(4)])
  from mem_store.ApplyEndpointProgram_installed [OF this assms(5) program(1,2) assms(3)]
  obtain encs where "installed little (ep_VPC endpoint) (prog_Rules program) encs (Store_Entries s' (prog_EndpointID program))"
    by blast
  from installed_evaluate [OF this]
  have "rules_verdict (ep_VPC endpoint) (prog_Rules program) packet
      (dec_Verdict (Evaluate little (Store_Entries s' (EndpointKey (ep_VPC endpoint) (ep_ID endpoint))) packet))"
    unfolding program(3) .
  then show ?thesis
    unfolding is_deny_verdict using decides_agree by blast
qed

definition example_program :: Program where
  "example_program =
     \<lparr>prog_EndpointID = EndpointKey ''blue'' ''vm1'', prog_EndpointIP = V4 0x0A000005,
      prog_MapEntries = [map_entry (default_allow_rule DirectionIngress) \<lparr>pp_port = 0, pp_l4PrefixBits = 0\<rparr> 0],
      prog_Rules = [default_allow_rule DirectionIngress]\<rparr>"

lemma example_endpoint_ids [simp]: "ep_ID example_endpoint = ''vm1''" "ep_IP example_endpoint = V4 0x0A000005"
  by (simp_all add: example_endpoint_def)

lemma example_compiles_program: "CompileForEndpoint example_endpoint [''web'' \<mapsto> example_group] 0 = Inr (example_program, None)"
proof -
  obtain program where p: "CompileForEndpoint example_endpoint [''web'' \<mapsto> example_group] 0 = Inr (program, None)"
    using example_compiles by blast
  have gs: "attached_groups example_endpoint [''web'' \<mapsto> example_group] = [example_group]"
    by (simp add: attached_groups_def List.map_filter_simps)
  have d: "default_rules [example_group] = [default_allow_rule DirectionIngress]"
    by (simp add: default_rules_def defaultDenyDisabledForDirection_def example_group_def)
  have e: "entries_of ''blue'' (default_allow_rule DirectionIngress) =
      [map_entry (default_allow_rule DirectionIngress) \<lparr>pp_port = 0, pp_l4PrefixBits = 0\<rparr> 0]"
    by code_simp
  have "program = example_program"
    using p unfolding CompileForEndpoint_def
    by (rule compiled_program)
      (auto simp: gs d e compiled_rules_def extend_program_def sort_program_def example_program_def)
  with p show ?thesis by blast
qed

lemma example_applies:
  "\<exists>s'. ApplyEndpointProgram True (\<lambda>s ep es. ReplaceEndpoint s ep es 5) NewInMemoryPolicyStore example_program = (s', Inr ())"
proof -
  have "snd (ApplyEndpointProgram True (\<lambda>s ep es. ReplaceEndpoint s ep es 5) NewInMemoryPolicyStore example_program) = Inr ()"
    by code_simp
  then show ?thesis by (metis prod.collapse)
qed

theorem enforced_policy_witness:
  "\<exists>s'. ApplyEndpointProgram True (\<lambda>s ep es. ReplaceEndpoint s ep es 5) NewInMemoryPolicyStore example_program = (s', Inr ()) \<and>
     dec_Verdict (Evaluate True (Store_Entries s' (EndpointKey ''blue'' ''vm1'')) example_packet) = VerdictAllow"
proof -
  obtain s' where s': "ApplyEndpointProgram True (\<lambda>s ep es. ReplaceEndpoint s ep es 5) NewInMemoryPolicyStore example_program = (s', Inr ())"
    using example_applies by blast
  have "identities_apart ''blue'' (prog_Rules example_program)" by code_simp
  then have "rules_verdict ''blue'' (prog_Rules example_program) example_packet
      (dec_Verdict (Evaluate True (Store_Entries s' (EndpointKey ''blue'' ''vm1'')) example_packet))"
    using enforced_policy [OF example_compiles_program [unfolded CompileForEndpoint_def] _ _ store_reachable.new s',
        of example_packet] by simp
  moreover have "rule_matches ''blue'' (default_allow_rule DirectionIngress) example_packet" "\<not> control_packet example_packet"
    "rule_verdict (default_allow_rule DirectionIngress) = VerdictAllow"
    by code_simp+
  ultimately show ?thesis
    using s' by (auto simp: rules_verdict_def example_program_def decides_def)
qed

end
