(* ===== verification/Names.thy ===== *)
theory Names
  imports ValidateNet
begin

text \<open>
  The names under which \<open>internal/model/model.go\<close> represents the objects of the control plane in
  OVN: sanitised identifiers, shortened with a SHA-256 digest, and the gateway hardware address of
  a subnet. SHA-256 is the function of the standard library's \<open>crypto/sha256\<close>. Sanitising is
  injective on non-empty ASCII names; the names built from two sanitised parts are injective
  exactly when the separator cannot be read as the start of an escape.
\<close>

unbundle bit_operations_syntax

section \<open>SHA-256\<close>

text \<open>
  The constants of the function are the first 32 bits of the fractional parts of roots of the first
  primes: cube roots of 64 primes for the rounds, square roots of eight for the initial value. The
  root is found bit by bit.
\<close>

definition primes_below :: "int \<Rightarrow> int list" where
  "primes_below n = filter (\<lambda>p. list_all (\<lambda>d. p mod d \<noteq> 0) [2..p - 1]) [2..n - 1]"

primrec integer_root :: "nat \<Rightarrow> nat \<Rightarrow> int \<Rightarrow> int \<Rightarrow> int" where
  "integer_root 0 k n root = root"
| "integer_root (Suc i) k n root =
     (let candidate = root + 2 ^ i in integer_root i k n (if candidate ^ k \<le> n then candidate else root))"

definition root_fraction :: "nat \<Rightarrow> int \<Rightarrow> u32" where
  "root_fraction k p = of_int (integer_root 36 k (p * 2 ^ (32 * k)) 0)"

lemma integer_root_floor:
  assumes "root ^ k \<le> n" and "n < (root + 2 ^ i) ^ k"
  shows "integer_root i k n root ^ k \<le> n \<and> n < (integer_root i k n root + 1) ^ k"
  using assms
proof (induction i arbitrary: root)
  case (Suc i)
  show ?case
  proof (cases "(root + 2 ^ i) ^ k \<le> n")
    case True
    with Suc.prems Suc.IH [of "root + 2 ^ i"] show ?thesis by (simp add: Let_def add.assoc)
  next
    case False
    with Suc.prems Suc.IH [of root] show ?thesis by (simp add: Let_def)
  qed
qed simp

definition sha256_K :: "u32 list" where
  "sha256_K = map (root_fraction 3) (primes_below 312)"

definition sha256_init :: "u32 list" where
  "sha256_init = map (root_fraction 2) (primes_below 20)"

lemma sha256_constants:
  "length sha256_init = 8" "root_fraction 3 2 = 0x428a2f98" "root_fraction 3 311 = 0xc67178f2"
  unfolding sha256_init_def by code_simp+

fun chunks :: "nat \<Rightarrow> 'a list \<Rightarrow> 'a list list" where
  "chunks n xs = (if n = 0 \<or> xs = [] then [] else take n xs # chunks n (drop n xs))"

declare chunks.simps [simp del]

text \<open>A message is padded with a set bit, zeros and its length in bits to a multiple of 64 bytes.\<close>

definition sha256_pad :: "u8 list \<Rightarrow> u8 list" where
  "sha256_pad m =
     m @ [0x80] @ replicate ((119 - length m mod 64) mod 64) 0 @ word_bytes (of_nat (8 * length m) :: u64)"

definition sha256_schedule :: "u8 list \<Rightarrow> u32 list" where
  "sha256_schedule block =
     foldl (\<lambda>w t.
         let x = w ! (t - 15); y = w ! (t - 2);
             s0 = word_rotr 7 x XOR word_rotr 18 x XOR drop_bit 3 x;
             s1 = word_rotr 17 y XOR word_rotr 19 y XOR drop_bit 10 y
         in w @ [w ! (t - 16) + s0 + w ! (t - 7) + s1])
       (map bytes_word (chunks 4 block)) [16..<64]"

fun sha256_round :: "u32 list \<Rightarrow> u32 \<times> u32 \<Rightarrow> u32 list" where
  "sha256_round [a, b, c, d, e, f, g, h] (k, w) =
     (let s1 = word_rotr 6 e XOR word_rotr 11 e XOR word_rotr 25 e;
          ch = (e AND f) XOR (NOT e AND g);
          t1 = h + s1 + ch + k + w;
          s0 = word_rotr 2 a XOR word_rotr 13 a XOR word_rotr 22 a;
          maj = (a AND b) XOR (a AND c) XOR (b AND c)
      in [t1 + s0 + maj, a, b, c, d + t1, e, f, g])"
| "sha256_round hs kw = hs"

definition sha256_block :: "u32 list \<Rightarrow> u8 list \<Rightarrow> u32 list" where
  "sha256_block hs block = map2 (+) hs (foldl sha256_round hs (zip sha256_K (sha256_schedule block)))"

definition sha256_Sum256 :: "u8 list \<Rightarrow> u8 list" where
  "sha256_Sum256 m = concat (map word_bytes (foldl sha256_block sha256_init (chunks 64 (sha256_pad m))))"

section \<open>Hardware address of a subnet's gateway\<close>

definition SubnetGatewayMAC :: "string \<Rightarrow> string \<Rightarrow> addr \<Rightarrow> string" where
  "SubnetGatewayMAC vpc subnet ip =
     (let sum = sha256_Sum256 (string_bytes (vpc @ NUL @ subnet @ NUL @ addr_String ip))
      in ''0a:58:'' @ strings_Join (map hex2 (take 4 sum)) '':'')"


section \<open>Identifiers\<close>

text \<open>\<open>%04x\<close> of a rune.\<close>

definition hex_04 :: "nat \<Rightarrow> string" where
  "hex_04 r = (let d = digits_base 16 r in replicate (4 - length d) (CHR ''0'') @ d)"

definition plain_rune :: "nat \<Rightarrow> bool" where
  "plain_rune r \<longleftrightarrow> 97 \<le> r \<and> r \<le> 122 \<or> 65 \<le> r \<and> r \<le> 90 \<or> 48 \<le> r \<and> r \<le> 57 \<or> r = 45"

definition sanitize_rune :: "nat \<Rightarrow> string" where
  "sanitize_rune r =
     (if plain_rune r then utf8_EncodeRune r
      else if r = 95 then ''__''
      else if r = 46 then ''_d''
      else if r = 47 then ''_s''
      else if r = 58 then ''_c''
      else ''_x'' @ hex_04 r)"

definition OVNSanitize :: "string \<Rightarrow> string" where
  "OVNSanitize value =
     (let out = concat (map sanitize_rune (utf8_runes value)) in if out = '''' then ''empty'' else out)"

definition ovnIdentifierHash :: "string \<Rightarrow> string" where
  "ovnIdentifierHash name = concat (map hex2 (take 6 (sha256_Sum256 (string_bytes name))))"

definition strings_TrimRight :: "string \<Rightarrow> string \<Rightarrow> string" where
  "strings_TrimRight s cutset = rev (dropWhile (\<lambda>c. c \<in> set cutset) (rev s))"

definition ovnIdentifier :: "string \<Rightarrow> string" where
  "ovnIdentifier name =
     (if length name \<le> 63 then name
      else let hash = ovnIdentifierHash name;
               headLen = max 1 (63 - int (length ''_h'') - int (length hash))
           in strings_TrimRight (take (nat headLen) name) ''_-'' @ ''_h'' @ hash)"

definition OVNLogicalRouterName :: "string \<Rightarrow> string" where
  "OVNLogicalRouterName vpc = ovnIdentifier (''nl_lr_'' @ OVNSanitize vpc)"

definition OVNLogicalRouterPortName :: "string \<Rightarrow> string \<Rightarrow> string" where
  "OVNLogicalRouterPortName vpc subnet =
     ovnIdentifier (OVNLogicalRouterName vpc @ ''_to_'' @ OVNSanitize subnet)"

definition OVNLogicalSwitchPortName :: "string \<Rightarrow> string \<Rightarrow> string" where
  "OVNLogicalSwitchPortName vpc endpoint =
     ovnIdentifier (''nl_lp_'' @ OVNSanitize vpc @ ''_'' @ OVNSanitize endpoint)"


section \<open>Lengths\<close>

lemma length_sha256_round: "length (sha256_round hs kw) = length hs"
  by (cases "(hs, kw)" rule: sha256_round.cases) (simp_all add: Let_def)

lemma length_foldl_sha256_round: "length (foldl sha256_round hs ks) = length hs"
  by (induction ks arbitrary: hs) (simp_all add: length_sha256_round)

lemma length_foldl_sha256_block: "length (foldl sha256_block hs bs) = length hs"
  by (induction bs arbitrary: hs) (simp_all add: sha256_block_def length_foldl_sha256_round)

lemma length_sha256_Sum256: "length (sha256_Sum256 m) = 32"
  by (simp add: sha256_Sum256_def length_concat comp_def sum_list_triv length_foldl_sha256_block sha256_constants)

lemma length_ovnIdentifierHash: "length (ovnIdentifierHash name) = 12"
  by (simp add: ovnIdentifierHash_def length_concat comp_def hex2_def sum_list_triv length_sha256_Sum256)

text \<open>An identifier fits the name of a network interface's peers: it has at most 63 bytes.\<close>

lemma length_ovnIdentifier: "length (ovnIdentifier name) \<le> 63"
proof -
  have "length (strings_TrimRight s cutset) \<le> length s" for s cutset
    by (simp add: strings_TrimRight_def) (metis length_dropWhile_le length_rev)
  from this [of "take 49 name" "''_-''"] show ?thesis
    by (simp add: ovnIdentifier_def length_ovnIdentifierHash Let_def)
qed


section \<open>Sanitised names can be read back\<close>

lemma digit_char_inj:
  assumes "d < 16" and "e < 16" and "digit_char d = digit_char e"
  shows "d = e"
proof -
  have code: "of_char (digit_char d) = (if d < 10 then 48 + d else 87 + d)" if "d < 16" for d
    using that by (simp add: digit_char_def of_char_mod_256)
  have "of_char (digit_char d) = (of_char (digit_char e) :: nat)" using assms(3) by simp
  then show ?thesis
    unfolding code [OF assms(1)] code [OF assms(2)] using assms(1,2) by (auto split: if_splits)
qed

lemma digits_base_16_less: "n < 16 \<Longrightarrow> digits_base 16 n = [digit_char n]"
  by (subst digits_base.simps) simp

lemma digits_base_16: "16 \<le> n \<Longrightarrow> digits_base 16 n = digits_base 16 (n div 16) @ [digit_char (n mod 16)]"
  by (subst digits_base.simps) simp

lemma hex_04_digits:
  assumes "r < 65536"
  shows "hex_04 r = map digit_char [r div 4096, r div 256 mod 16, r div 16 mod 16, r mod 16]"
proof -
  have zero: "CHR ''0'' = digit_char 0" by code_simp
  have div: "r div 16 div 16 = r div 256" "r div 256 div 16 = r div 4096"
    by (simp_all add: div_mult2_eq [symmetric])
  have pad: "replicate 3 c = [c, c, c]" "replicate 2 c = [c, c]" for c :: char
    by (simp_all add: numeral_3_eq_3 numeral_2_eq_2)
  consider "r < 16" | "16 \<le> r" "r div 16 < 16" | "16 \<le> r" "16 \<le> r div 16" "r div 256 < 16"
    | "16 \<le> r" "16 \<le> r div 16" "16 \<le> r div 256"
    by linarith
  then show ?thesis
  proof cases
    case 1
    then show ?thesis by (simp add: hex_04_def digits_base_16_less zero pad)
  next
    case 2
    then have "r div 256 = 0" "r div 4096 = 0" by auto
    with 2 show ?thesis
      by (simp add: hex_04_def digits_base_16_less digits_base_16 zero pad)
  next
    case 3
    then have "r div 4096 = 0" by auto
    with 3 show ?thesis
      by (simp add: hex_04_def digits_base_16_less digits_base_16 div zero pad)
  next
    case 4
    have "r div 4096 < 16" using assms by auto
    with 4 show ?thesis
      by (simp add: hex_04_def digits_base_16_less digits_base_16 div)
  qed
qed

lemma hex_04_inj:
  assumes "r < 65536" and "r' < 65536" and "hex_04 r = hex_04 r'"
  shows "r = r'"
proof -
  have digits: "r div 4096 < 16" "r' div 4096 < 16" using assms(1,2) by auto
  from assms(3) have "digit_char (r div 4096) = digit_char (r' div 4096)"
      "digit_char (r div 256 mod 16) = digit_char (r' div 256 mod 16)"
      "digit_char (r div 16 mod 16) = digit_char (r' div 16 mod 16)"
      "digit_char (r mod 16) = digit_char (r' mod 16)"
    unfolding hex_04_digits [OF assms(1)] hex_04_digits [OF assms(2)] by simp_all
  then have eq: "r div 4096 = r' div 4096" "r div 256 mod 16 = r' div 256 mod 16"
      "r div 16 mod 16 = r' div 16 mod 16" "r mod 16 = r' mod 16"
    using digit_char_inj digits by simp_all
  have digit: "a = b" if "a div 16 = b div 16" "a mod 16 = b mod 16" for a b :: nat
    using that by (metis div_mult_mod_eq)
  have div: "n div 16 div 16 = n div 256" "n div 256 div 16 = n div 4096" for n :: nat
    by (simp_all add: div_mult2_eq [symmetric])
  have "r div 256 = r' div 256" using digit [of "r div 256" "r' div 256"] eq(1,2) by (simp only: div)
  then have "r div 16 = r' div 16" using digit [of "r div 16" "r' div 16"] eq(3) by (simp only: div)
  then show ?thesis using eq(4) by (rule digit)
qed

text \<open>The images of the runes of the basic plane form a prefix code.\<close>

definition escape :: "nat \<Rightarrow> string" where
  "escape r = (if r = 95 then ''_'' else if r = 46 then ''d'' else if r = 47 then ''s'' else if r = 58 then ''c''
     else ''x'' @ hex_04 r)"

lemma sanitize_rune_cases:
  "sanitize_rune r = (if plain_rune r then [char_of r] else CHR ''_'' # escape r)"
  by (auto simp: sanitize_rune_def escape_def utf8_EncodeRune_def plain_rune_def)

lemma length_hex_04: "r < 65536 \<Longrightarrow> length (hex_04 r) = 4"
  by (simp add: hex_04_digits)

lemma escape_prefix_code:
  assumes "escape r @ u = escape r' @ v" and "r < 65536" and "r' < 65536"
  shows "r = r' \<and> u = v"
  using assms length_hex_04 [OF assms(2)] length_hex_04 [OF assms(3)]
  by (auto simp: escape_def append_eq_append_conv split: if_splits dest: hex_04_inj [OF assms(2,3)])

lemma plain_rune_char:
  assumes "plain_rune r"
  shows "(of_char (char_of r :: char) :: nat) = r" and "(char_of r :: char) \<noteq> CHR ''_''"
proof -
  show "(of_char (char_of r :: char) :: nat) = r"
    using assms by (auto simp: plain_rune_def of_char_mod_256)
  moreover have "(of_char (CHR ''_'') :: nat) = 95" by simp
  moreover have "r \<noteq> 95" using assms by (auto simp: plain_rune_def)
  ultimately show "(char_of r :: char) \<noteq> CHR ''_''" by metis
qed

lemma sanitize_prefix_code:
  assumes "sanitize_rune r @ u = sanitize_rune r' @ v" and "r < 65536" and "r' < 65536"
  shows "r = r' \<and> u = v"
proof (cases "plain_rune r \<longleftrightarrow> plain_rune r'")
  case True
  show ?thesis
  proof (cases "plain_rune r")
    case plain: True
    with True assms(1) have "(char_of r :: char) = char_of r'" and "u = v"
      by (simp_all add: sanitize_rune_cases)
    with plain True show ?thesis by (metis plain_rune_char(1))
  next
    case False
    with True assms(1) have "escape r @ u = escape r' @ v" by (simp add: sanitize_rune_cases)
    then show ?thesis using assms(2,3) by (rule escape_prefix_code)
  qed
next
  case False
  with assms(1) plain_rune_char(2) [of r] plain_rune_char(2) [of r'] show ?thesis
    unfolding sanitize_rune_cases by (cases "plain_rune r") auto
qed

text \<open>What follows a sanitised name is delimited when it cannot be read as a further rune.\<close>

definition delimiter :: "string \<Rightarrow> bool" where
  "delimiter w \<longleftrightarrow> (\<forall>r < 65536. \<forall>u. w \<noteq> sanitize_rune r @ u)"

lemma sanitize_runes_inj:
  assumes "concat (map sanitize_rune rs) @ w = concat (map sanitize_rune rs') @ w'"
    and "\<forall>r \<in> set rs \<union> set rs'. r < 65536" and "delimiter w" and "delimiter w'"
  shows "rs = rs' \<and> w = w'"
  using assms(1,2)
proof (induction rs arbitrary: rs')
  case Nil
  then show ?case
    using assms(3) by (cases rs') (auto simp: delimiter_def)
next
  case (Cons r rs)
  show ?case
  proof (cases rs')
    case Nil
    with Cons.prems assms(4) show ?thesis by (auto simp: delimiter_def)
  next
    case (Cons r' rs'')
    with Cons.prems sanitize_prefix_code [of r "concat (map sanitize_rune rs) @ w" r' "concat (map sanitize_rune rs'') @ w'"]
    have "r = r'" and "concat (map sanitize_rune rs) @ w = concat (map sanitize_rune rs'') @ w'" by auto
    with Cons Cons.IH [of rs''] Cons.prems(2) show ?thesis by auto
  qed
qed

lemma delimiter_Nil: "delimiter ''''"
  by (simp add: delimiter_def sanitize_rune_cases)

lemma delimiter_to: "delimiter (''_to_'' @ s)"
  unfolding delimiter_def
proof (intro allI impI notI)
  fix r u
  assume eq: "''_to_'' @ s = sanitize_rune r @ u"
  show False
  proof (cases "plain_rune r")
    case True
    with eq plain_rune_char(2) [OF True] show ?thesis by (simp add: sanitize_rune_cases)
  next
    case False
    with eq have "''to_'' @ s = escape r @ u" by (simp add: sanitize_rune_cases)
    then show ?thesis by (simp add: escape_def split: if_splits)
  qed
qed

definition ascii :: "string \<Rightarrow> bool" where
  "ascii s \<longleftrightarrow> list_all (\<lambda>c. (of_char c :: nat) < 128) s"

lemma OVNSanitize_ascii:
  assumes "ascii s" and "s \<noteq> ''''"
  shows "OVNSanitize s = concat (map sanitize_rune (map of_char s))"
proof -
  have "utf8_runes s = map of_char s"
    using assms(1) unfolding utf8_runes_def by (intro utf8_runes_of_ascii) (auto simp: ascii_def list_all_iff)
  moreover have "sanitize_rune r \<noteq> []" for r by (simp add: sanitize_rune_cases)
  ultimately show ?thesis using assms(2) by (cases s) (simp_all add: OVNSanitize_def)
qed

lemma OVNSanitize_inj:
  assumes "OVNSanitize s @ w = OVNSanitize t @ w'" and "ascii s" and "ascii t" and "s \<noteq> ''''" and "t \<noteq> ''''"
    and "delimiter w" and "delimiter w'"
  shows "s = t \<and> w = w'"
proof -
  have "\<forall>r \<in> set (map of_char s) \<union> set (map of_char t). r < (65536 :: nat)"
    using assms(2,3) by (fastforce simp: ascii_def list_all_iff)
  with assms have "map of_char s = (map of_char t :: nat list) \<and> w = w'"
    by (intro sanitize_runes_inj) (simp_all add: OVNSanitize_ascii)
  then show ?thesis by (metis of_char_eq_iff map_injective injI)
qed

text \<open>
  The name of the router port of a subnet identifies the VPC and the subnet: for non-empty
  ASCII names that are not shortened, two subnets have the same router port name exactly if they
  are the same.
\<close>

theorem OVNLogicalRouterPortName_inj:
  assumes "ascii v" "ascii s" "ascii v'" "ascii s'" and "v \<noteq> ''''" "s \<noteq> ''''" "v' \<noteq> ''''" "s' \<noteq> ''''"
    and "length (OVNSanitize v @ OVNSanitize s) \<le> 53" "length (OVNSanitize v' @ OVNSanitize s') \<le> 53"
  shows "OVNLogicalRouterPortName v s = OVNLogicalRouterPortName v' s' \<longleftrightarrow> v = v' \<and> s = s'"
proof
  assume eq: "OVNLogicalRouterPortName v s = OVNLogicalRouterPortName v' s'"
  have "OVNLogicalRouterPortName v s = ''nl_lr_'' @ OVNSanitize v @ ''_to_'' @ OVNSanitize s"
    if "length (OVNSanitize v @ OVNSanitize s) \<le> 53" for v s
    using that by (simp add: OVNLogicalRouterPortName_def OVNLogicalRouterName_def ovnIdentifier_def)
  with eq assms(9,10) have "OVNSanitize v @ ''_to_'' @ OVNSanitize s = OVNSanitize v' @ ''_to_'' @ OVNSanitize s'"
    by simp
  then have "v = v' \<and> ''_to_'' @ OVNSanitize s = ''_to_'' @ OVNSanitize s'"
    using assms(1-8) by (intro OVNSanitize_inj delimiter_to)
  then show "v = v' \<and> s = s'"
    using OVNSanitize_inj [of s "''''" s' "''''"] assms(1-8) delimiter_Nil by simp
qed simp

theorem OVNLogicalRouterPortName_inj_witness:
  "OVNLogicalRouterPortName ''a_'' ''b'' \<noteq> OVNLogicalRouterPortName ''a'' ''_b''"
proof -
  have "ascii ''a_''" "ascii ''b''" "ascii ''a''" "ascii ''_b''"
      "length (OVNSanitize ''a_'' @ OVNSanitize ''b'') \<le> 53" "length (OVNSanitize ''a'' @ OVNSanitize ''_b'') \<le> 53"
    by code_simp+
  then show ?thesis using OVNLogicalRouterPortName_inj [of "''a_''" "''b''" "''a''" "''_b''"] by simp
qed

text \<open>
  The name of the switch port of an endpoint does not identify it, since its parts are joined with
  the first character of every escape: endpoint \<open>b\<close> of VPC \<open>a_\<close> and endpoint \<open>_b\<close> of VPC \<open>a\<close> share
  one logical switch port.
\<close>

theorem OVNLogicalSwitchPortName_collision:
  "OVNLogicalSwitchPortName ''a_'' ''b'' = OVNLogicalSwitchPortName ''a'' ''_b''"
  by code_simp

text \<open>Outside the basic plane, escapes have no fixed length, and sanitising is not injective either.\<close>

theorem OVNSanitize_collision:
  "OVNSanitize (utf8_EncodeRune 0x12345) = OVNSanitize (utf8_EncodeRune 0x1234 @ ''5'')"
  by (simp add: OVNSanitize_def utf8_runes_def utf8_EncodeRune_def utf8_DecodeRune_def utf8_size_def utf8_low_def
      utf8_high_def utf8_cont_def rune_error_def of_char_mod_256 sanitize_rune_cases escape_def plain_rune_def hex_04_def
      digits_base_16 digits_base_16_less digit_char_def Let_def)

end
