(* ===== verification/DesiredState.thy ===== *)
theory DesiredState
  imports Names
begin

text \<open>
  The desired state of \<open>internal/control/controller.go\<close>: its record, the keys under which its
  objects are indexed, and the validation of policy rollouts. The parsers of the standard library
  that rollouts are checked with (\<open>net/url\<close> and \<open>time\<close>) are an argument of the validation.
\<close>

section \<open>Policy rollouts\<close>

record PolicyRolloutProbe =
  probe_Name :: string
  probe_Type :: string
  probe_URL :: string
  probe_Address :: string
  probe_Method :: string
  probe_ExpectedStatus :: int
  probe_ExpectedBodyContains :: string
  probe_TimeoutMS :: u32

record PolicyRollout =
  rollout_Name :: string
  rollout_Node :: string
  rollout_Revision :: string
  rollout_Endpoints :: "string list"
  rollout_BatchSize :: int
  rollout_DryRun :: bool
  rollout_Cancelled :: bool
  rollout_PressureAware :: bool
  rollout_PressureThresholdPercent :: u32
  rollout_PressureAwareMinBatchSize :: int
  rollout_SLOGated :: bool
  rollout_SLODropThresholdPercent :: u32
  rollout_SLOMinPackets :: u64
  rollout_SLOWindowCount :: int
  rollout_SLOWindowIntervalMS :: u32
  rollout_Probes :: "PolicyRolloutProbe list"
  rollout_ApprovalRequired :: bool
  rollout_Approved :: bool
  rollout_ApprovalRef :: string
  rollout_ApprovalSignature :: string
  rollout_ApprovalExpiresAt :: string
  rollout_ApprovalCallbackURL :: string
  rollout_ApprovalCallbackTimeoutMS :: u32
  rollout_AckRequired :: bool
  rollout_Acknowledged :: bool
  rollout_AckRef :: string
  rollout_AckExpiresAt :: string
  rollout_RiskAckRequired :: bool
  rollout_RiskAcknowledged :: bool
  rollout_RiskAckRef :: string
  rollout_FinalizeRequired :: bool
  rollout_Finalized :: bool
  rollout_FinalizeRef :: string
  rollout_FinalizeExpiresAt :: string
  rollout_ChangePollURL :: string
  rollout_ChangePollTimeoutMS :: u32
  rollout_ChangeStatusURL :: string
  rollout_ChangeStatusTimeoutMS :: u32
  rollout_Paused :: bool
  rollout_PauseAfterBatches :: int
  rollout_PromotionPercent :: u32
  rollout_Disabled :: bool

text \<open>
  The results of the standard library's parsers: scheme and host of \<open>url.Parse\<close>, and whether
  \<open>time.Parse(time.RFC3339, \<dots>)\<close> succeeds.
\<close>

record Parsers =
  url_Parse :: "string \<Rightarrow> (string \<times> string) option"
  time_ParseRFC3339 :: "string \<Rightarrow> time option"

text \<open>
  \<open>net.SplitHostPort\<close>: the host before the last colon, in brackets if it holds a colon itself.
\<close>

definition last_colon :: "string \<Rightarrow> nat option" where
  "last_colon s =
     (let k = length (takeWhile (\<lambda>c. c \<noteq> CHR '':'') (rev s))
      in if k < length s then Some (length s - 1 - k) else None)"

definition net_SplitHostPort :: "string \<Rightarrow> (string \<times> string) option" where
  "net_SplitHostPort hostport =
     (case last_colon hostport of
        None \<Rightarrow> None
      | Some i \<Rightarrow>
          let port = drop (i + 1) hostport in
          if strings_HasPrefix hostport ''['' then
            (let close = length (takeWhile (\<lambda>c. c \<noteq> CHR '']'') hostport);
                 host = take (close - 1) (drop 1 hostport);
                 rest = drop (close + 1) hostport
             in if close = length hostport \<or> close + 1 \<noteq> i then None
                else if CHR ''['' \<in> set (drop 1 hostport) \<or> CHR '']'' \<in> set rest then None
                else Some (host, port))
          else
            (let host = take i hostport
             in if CHR '':'' \<in> set host then None
                else if CHR ''['' \<in> set hostport \<or> CHR '']'' \<in> set hostport then None
                else Some (host, port)))"

definition validHTTPCallbackURL :: "Parsers \<Rightarrow> string \<Rightarrow> bool" where
  "validHTTPCallbackURL std raw =
     (case url_Parse std raw of
        None \<Rightarrow> False
      | Some (scheme, host) \<Rightarrow> scheme \<noteq> '''' \<and> host \<noteq> '''' \<and> (scheme = ''http'' \<or> scheme = ''https''))"

definition PolicyRolloutProbe_Validate :: "Parsers \<Rightarrow> PolicyRolloutProbe \<Rightarrow> string \<Rightarrow> unit result" where
  "PolicyRolloutProbe_Validate std p rollout =
     (let name = strings_TrimSpace (probe_Name p);
          probeType = strings_ToLower (strings_TrimSpace (probe_Type p))
      in first_error [
        fail_if (name = '''') (Errorf ''policy rollout %q probe name is required'' [rollout]),
        (if probeType = ''http'' then
           first_error [
             fail_if (strings_TrimSpace (probe_URL p) = '''')
               (Errorf ''policy rollout %q probe %q url is required'' [rollout, name]),
             fail_if (case url_Parse std (probe_URL p) of
                        None \<Rightarrow> True
                      | Some (scheme, host) \<Rightarrow> host = '''' \<or> (scheme \<noteq> ''http'' \<and> scheme \<noteq> ''https''))
               (Errorf ''policy rollout %q probe %q url must be http or https'' [rollout, name]),
             fail_if (probe_ExpectedStatus p < 0 \<or> probe_ExpectedStatus p > 599)
               (Errorf ''policy rollout %q probe %q expected_status must be between 0 and 599'' [rollout, name])]
         else if probeType = ''tcp'' \<or> probeType = ''tls'' then
           first_error [
             fail_if (strings_TrimSpace (probe_ExpectedBodyContains p) \<noteq> '''')
               (Errorf ''policy rollout %q probe %q expected_body_contains requires http probe'' [rollout, name]),
             fail_if (strings_TrimSpace (probe_Address p) = '''')
               (Errorf ''policy rollout %q probe %q address is required'' [rollout, name]),
             fail_if (case net_SplitHostPort (probe_Address p) of
                        None \<Rightarrow> True
                      | Some (host, port) \<Rightarrow> strings_TrimSpace host = '''' \<or> strings_TrimSpace port = '''')
               (Errorf ''policy rollout %q probe %q address must be host:port'' [rollout, name])]
         else Inl (Errorf ''policy rollout %q probe %q type must be http, tcp, or tls'' [rollout, name]))])"

definition check_percent :: "string \<Rightarrow> string \<Rightarrow> u32 \<Rightarrow> unit result" where
  "check_percent name field value =
     fail_if (value > 100) (Errorf (''policy rollout %q '' @ field @ '' must be <= 100'') [name])"

definition check_not_negative :: "string \<Rightarrow> string \<Rightarrow> int \<Rightarrow> unit result" where
  "check_not_negative name field value =
     fail_if (value < 0) (Errorf (''policy rollout %q '' @ field @ '' must not be negative'') [name])"

definition check_rfc3339 :: "Parsers \<Rightarrow> string \<Rightarrow> string \<Rightarrow> string \<Rightarrow> unit result" where
  "check_rfc3339 std name field value =
     (if strings_TrimSpace value \<noteq> '''' then
        fail_if (time_ParseRFC3339 std (strings_TrimSpace value) = None)
          (Errorf (''policy rollout %q '' @ field @ '' must be RFC3339'') [name])
      else Inr ())"

definition check_callback_url :: "Parsers \<Rightarrow> string \<Rightarrow> string \<Rightarrow> string \<Rightarrow> unit result" where
  "check_callback_url std name field value =
     (if strings_TrimSpace value \<noteq> '''' then
        fail_if (\<not> validHTTPCallbackURL std value)
          (Errorf (''policy rollout %q '' @ field @ '' must be http or https'') [name])
      else Inr ())"

definition PolicyRollout_Validate :: "Parsers \<Rightarrow> PolicyRollout \<Rightarrow> unit result" where
  "PolicyRollout_Validate std r =
     (let name = rollout_Name r in
      first_error [
        fail_if (name = '''') (Errorf ''policy rollout name is required'' []),
        check_not_negative name ''batch_size'' (rollout_BatchSize r),
        check_percent name ''pressure_threshold_percent'' (rollout_PressureThresholdPercent r),
        check_not_negative name ''pressure_aware_min_batch_size'' (rollout_PressureAwareMinBatchSize r),
        check_percent name ''slo_drop_threshold_percent'' (rollout_SLODropThresholdPercent r),
        check_not_negative name ''slo_window_count'' (rollout_SLOWindowCount r),
        check_not_negative name ''pause_after_batches'' (rollout_PauseAfterBatches r),
        check_percent name ''promotion_percent'' (rollout_PromotionPercent r),
        check_rfc3339 std name ''approval_expires_at'' (rollout_ApprovalExpiresAt r),
        check_rfc3339 std name ''ack_expires_at'' (rollout_AckExpiresAt r),
        check_rfc3339 std name ''finalize_expires_at'' (rollout_FinalizeExpiresAt r),
        check_callback_url std name ''approval_callback_url'' (rollout_ApprovalCallbackURL r),
        check_callback_url std name ''change_status_url'' (rollout_ChangeStatusURL r),
        check_callback_url std name ''change_poll_url'' (rollout_ChangePollURL r),
        wrap_error id
          (range_seen (\<lambda>probe. strings_TrimSpace (probe_Name probe))
            (\<lambda>_ probe seen. first_error [
               PolicyRolloutProbe_Validate std probe name,
               fail_if (strings_TrimSpace (probe_Name probe) \<in> set seen)
                 (Errorf ''policy rollout %q probe %q is duplicated'' [name, strings_TrimSpace (probe_Name probe)])])
            (rollout_Probes r) []),
        wrap_error id
          (range_seen strings_TrimSpace
            (\<lambda>_ endpoint seen. first_error [
               fail_if (strings_TrimSpace endpoint = '''') (Errorf ''policy rollout %q endpoint is empty'' [name]),
               fail_if (strings_TrimSpace endpoint \<in> set seen)
                 (Errorf ''policy rollout %q endpoint %q is duplicated'' [name, strings_TrimSpace endpoint])])
            (rollout_Endpoints r) [])])"

definition validatePolicyRollouts :: "Parsers \<Rightarrow> PolicyRollout list \<Rightarrow> unit result" where
  "validatePolicyRollouts std rollouts =
     wrap_error id
       (range_seen rollout_Name
         (\<lambda>_ rollout seen. first_error [
            PolicyRollout_Validate std rollout,
            fail_if (rollout_Name rollout \<in> set seen)
              (Errorf ''duplicate policy rollout name %q'' [rollout_Name rollout])])
         rollouts [])"


section \<open>Desired state\<close>

record DesiredState =
  desired_VPCs :: "VPC list"
  desired_ProviderNetworks :: "ProviderNetwork list"
  desired_IdentityGroups :: "IdentityGroup list"
  desired_Subnets :: "Subnet list"
  desired_Endpoints :: "Endpoint list"
  desired_RouteTables :: "RouteTable list"
  desired_PolicyRoutes :: "PolicyRoute list"
  desired_Gateways :: "Gateway list"
  desired_NATRules :: "NATRule list"
  desired_LoadBalancers :: "LoadBalancer list"
  desired_SecurityGroups :: "SecurityGroup list"
  desired_CIDRGroups :: "CIDRGroup list"
  desired_DNSRecords :: "DNSRecord list"
  desired_PolicyRollouts :: "PolicyRollout list"

definition empty_DesiredState :: DesiredState where
  "empty_DesiredState =
     \<lparr>desired_VPCs = [], desired_ProviderNetworks = [], desired_IdentityGroups = [], desired_Subnets = [],
      desired_Endpoints = [], desired_RouteTables = [], desired_PolicyRoutes = [], desired_Gateways = [],
      desired_NATRules = [], desired_LoadBalancers = [], desired_SecurityGroups = [], desired_CIDRGroups = [],
      desired_DNSRecords = [], desired_PolicyRollouts = []\<rparr>"

text \<open>The key of an object with a name in a VPC.\<close>

definition securityGroupKey :: "string \<Rightarrow> string \<Rightarrow> string" where
  "securityGroupKey vpc name = vpc @ NUL @ name"

definition cidrGroupKey :: "string \<Rightarrow> string \<Rightarrow> string" where
  "cidrGroupKey vpc name = vpc @ NUL @ name"

definition identityGroupKey :: "string \<Rightarrow> string \<Rightarrow> string" where
  "identityGroupKey vpc name = vpc @ NUL @ name"

definition loadBalancerKey :: "string \<Rightarrow> string \<Rightarrow> string" where
  "loadBalancerKey vpc name = vpc @ NUL @ name"

definition natRuleKey :: "string \<Rightarrow> string \<Rightarrow> string" where
  "natRuleKey vpc name = vpc @ NUL @ name"

definition routeTableKey :: "string \<Rightarrow> string \<Rightarrow> string" where
  "routeTableKey vpc name = vpc @ NUL @ name"

definition subnetKey :: "string \<Rightarrow> string \<Rightarrow> string" where
  "subnetKey vpc name = vpc @ NUL @ name"

definition gatewayKey :: "string \<Rightarrow> string \<Rightarrow> string" where
  "gatewayKey vpc name = vpc @ NUL @ name"

definition securityGroupsForVPC :: "SecurityGroup list \<Rightarrow> string \<Rightarrow> (string, SecurityGroup) gomap" where
  "securityGroupsForVPC groups vpc =
     fold (\<lambda>g out. if sg_VPC g = vpc then AList.update (sg_Name g) g out else out) groups []"

end
