(* ===== verification/Health.thy ===== *)
theory Health
  imports DesiredState
begin

text \<open>
  Health checks of load balancer backends, \<open>internal/control/lb_health.go\<close>. A probe is a function of
  the backend and the timeout that also depends on, and changes, the state of the network; it may be
  given, and is otherwise the TCP probe, for which dialling and closing are arguments. A tracker counts consecutive results per backend, in 32 bits, and
  changes its verdict only after a threshold of them: the counters may wrap around without the
  verdict being wrong.
\<close>

section \<open>Tracker\<close>

record LoadBalancerHealthSummary =
  health_Checked :: int
  health_Healthy :: int
  health_Unhealthy :: int

record trackedLoadBalancerBackendHealth =
  tracked_Healthy :: bool
  tracked_Successes :: u32
  tracked_Failures :: u32

type_synonym LoadBalancerHealthTracker = "(string, trackedLoadBalancerBackendHealth) gomap"

definition NewLoadBalancerHealthTracker :: LoadBalancerHealthTracker where
  "NewLoadBalancerHealthTracker = []"

definition loadBalancerHealthProbeTimeout :: "LoadBalancerHealthCheck \<Rightarrow> duration" where
  "loadBalancerHealthProbeTimeout h = (if hc_Timeout h = 0 then 20 * second else uint (hc_Timeout h) * second)"

definition loadBalancerHealthSuccessThreshold :: "LoadBalancerHealthCheck \<Rightarrow> u32" where
  "loadBalancerHealthSuccessThreshold h = (if hc_SuccessCount h = 0 then 3 else hc_SuccessCount h)"

definition loadBalancerHealthFailureThreshold :: "LoadBalancerHealthCheck \<Rightarrow> u32" where
  "loadBalancerHealthFailureThreshold h = (if hc_FailureCount h = 0 then 3 else hc_FailureCount h)"

definition normalizedLoadBalancerProtocol :: "Protocol \<Rightarrow> Protocol" where
  "normalizedLoadBalancerProtocol protocol = (if protocol = '''' then ProtocolTCP else protocol)"

definition net_JoinHostPort :: "string \<Rightarrow> string \<Rightarrow> string" where
  "net_JoinHostPort host port =
     (if CHR '':'' \<in> set host then ''['' @ host @ '']:'' @ port else host @ '':'' @ port)"

definition loadBalancerBackendHealthKey :: "LoadBalancer \<Rightarrow> LoadBalancerPort \<Rightarrow> LoadBalancerBackend \<Rightarrow> string" where
  "loadBalancerBackendHealthKey lb port backend =
     lb_VPC lb @ ''/'' @ lb_Name lb @ ''/'' @ normalizedLoadBalancerProtocol (lbport_Protocol port) @ ''/'' @
     u16_String (lbport_Port port) @ ''/'' @
     net_JoinHostPort (addr_String (backend_IP backend)) (u16_String (backend_Port backend))"

definition tracker_step :: "LoadBalancerHealthCheck \<Rightarrow> bool \<Rightarrow> trackedLoadBalancerBackendHealth \<Rightarrow> trackedLoadBalancerBackendHealth" where
  "tracker_step healthCheck probeHealthy current =
     (if probeHealthy then
        (let successes = tracked_Successes current + 1 in
         \<lparr>tracked_Healthy = tracked_Healthy current \<or> successes \<ge> loadBalancerHealthSuccessThreshold healthCheck,
          tracked_Successes = successes, tracked_Failures = 0\<rparr>)
      else
        (let failures = tracked_Failures current + 1 in
         \<lparr>tracked_Healthy = tracked_Healthy current \<and> \<not> failures \<ge> loadBalancerHealthFailureThreshold healthCheck,
          tracked_Successes = 0, tracked_Failures = failures\<rparr>))"

definition tracker_update ::
    "LoadBalancerHealthTracker \<Rightarrow> string \<Rightarrow> LoadBalancerBackend \<Rightarrow> LoadBalancerHealthCheck \<Rightarrow> bool \<Rightarrow>
     LoadBalancerHealthTracker \<times> bool" where
  "tracker_update t key backend healthCheck probeHealthy =
     (let current = (case map_of t key of
            None \<Rightarrow> \<lparr>tracked_Healthy = IsHealthy backend, tracked_Successes = 0, tracked_Failures = 0\<rparr>
          | Some current \<Rightarrow> current);
          current = tracker_step healthCheck probeHealthy current
      in (AList.update key current t, tracked_Healthy current))"

definition tracker_delete :: "LoadBalancerHealthTracker option \<Rightarrow> string \<Rightarrow> LoadBalancerHealthTracker option" where
  "tracker_delete t key = map_option (AList.delete key) t"

definition tracker_prune :: "LoadBalancerHealthTracker option \<Rightarrow> string list \<Rightarrow> LoadBalancerHealthTracker option" where
  "tracker_prune t desired = map_option (filter (\<lambda>(key, _). key \<in> set desired)) t"


section \<open>Probing\<close>

text \<open>
  What the loops carry: the network, the tracker and the set of keys still desired (both absent
  without a tracker), and the summary.
\<close>

record 'w probing =
  pr_world :: 'w
  pr_tracker :: "LoadBalancerHealthTracker option"
  pr_desired :: "string list option"
  pr_summary :: LoadBalancerHealthSummary

type_synonym 'w LoadBalancerBackendProbe = "'w \<Rightarrow> LoadBalancerBackend \<Rightarrow> duration \<Rightarrow> unit result \<times> 'w"

text \<open>
  The probe that is used when none is given: a TCP connection that is closed at once. Dialling, with
  a timeout and an address, and closing are arguments.
\<close>

definition TCPBackendProbe ::
    "('w \<Rightarrow> duration \<Rightarrow> string \<Rightarrow> 'c result \<times> 'w) \<Rightarrow> ('w \<Rightarrow> 'c \<Rightarrow> unit result \<times> 'w) \<Rightarrow> 'w LoadBalancerBackendProbe" where
  "TCPBackendProbe dial close world backend timeout =
     (case dial world timeout (net_JoinHostPort (addr_String (backend_IP backend)) (u16_String (backend_Port backend))) of
        (Inl err, world) \<Rightarrow> (Inl err, world)
      | (Inr conn, world) \<Rightarrow> close world conn)"

definition probe_backend ::
    "'w LoadBalancerBackendProbe \<Rightarrow> LoadBalancer \<Rightarrow> LoadBalancerPort \<Rightarrow> LoadBalancerBackend \<Rightarrow> 'w probing \<Rightarrow>
     LoadBalancerBackend \<times> bool \<times> 'w probing" where
  "probe_backend probe lb port backend s =
     (let healthCheck = lb_HealthCheck lb;
          key = loadBalancerBackendHealthKey lb port backend;
          summary = pr_summary s
      in if backend_Healthy backend = Some False then
           (backend, False,
            s\<lparr>pr_tracker := tracker_delete (pr_tracker s) key,
              pr_summary := summary\<lparr>health_Unhealthy := health_Unhealthy summary + 1\<rparr>\<rparr>)
         else
           (let desired = map_option (List.insert key) (pr_desired s);
                (err, world) = probe (pr_world s) backend (loadBalancerHealthProbeTimeout healthCheck);
                ok = is_ok err;
                (tracker, healthy) =
                  (case pr_tracker s of
                     None \<Rightarrow> (None, ok)
                   | Some t \<Rightarrow> let (t', healthy) = tracker_update t key backend healthCheck ok in (Some t', healthy));
                summary = summary\<lparr>health_Checked := health_Checked summary + 1\<rparr>;
                summary = (if ok then summary\<lparr>health_Healthy := health_Healthy summary + 1\<rparr>
                           else summary\<lparr>health_Unhealthy := health_Unhealthy summary + 1\<rparr>);
                backend' = backend\<lparr>backend_Healthy := Some healthy\<rparr>
            in (backend', IsHealthy backend',
                s\<lparr>pr_world := world, pr_tracker := tracker, pr_desired := desired, pr_summary := summary\<rparr>)))"

primrec probe_backends ::
    "'w LoadBalancerBackendProbe \<Rightarrow> LoadBalancer \<Rightarrow> LoadBalancerPort \<Rightarrow> LoadBalancerBackend list \<Rightarrow> 'w probing \<Rightarrow>
     LoadBalancerBackend list \<times> nat \<times> 'w probing" where
  "probe_backends probe lb port [] s = ([], 0, s)"
| "probe_backends probe lb port (b # bs) s =
     (let (b', healthy, s') = probe_backend probe lb port b s;
          (bs', n, s'') = probe_backends probe lb port bs s'
      in (b' # bs', (if healthy then 1 else 0) + n, s''))"

definition probeLoadBalancerBackends ::
    "'w LoadBalancerBackendProbe \<Rightarrow> LoadBalancer \<Rightarrow> LoadBalancerPort \<Rightarrow> 'w probing \<Rightarrow>
     LoadBalancerBackend list \<times> nat \<times> 'w probing" where
  "probeLoadBalancerBackends probe lb port s = probe_backends probe lb port (lbport_Backends port) s"

text \<open>The loops over the ports of a load balancer and over the load balancers; an error leaves the rest unprobed.\<close>

primrec probe_ports ::
    "'w LoadBalancerBackendProbe \<Rightarrow> LoadBalancer \<Rightarrow> LoadBalancerPort list \<Rightarrow> 'w probing \<Rightarrow>
     'w probing \<times> LoadBalancerPort list result" where
  "probe_ports probe lb [] s = (s, Inr [])"
| "probe_ports probe lb (port # ports) s =
     (if normalizedLoadBalancerProtocol (lbport_Protocol port) \<noteq> ProtocolTCP then
        (let (s', r) = probe_ports probe lb ports s in (s', map_sum id ((#) port) r))
      else
        (let (backends, healthyBackends, s') = probeLoadBalancerBackends probe lb port s in
         if healthyBackends = 0 then
           (s', Inl (Errorf ''load balancer %q port %d has no healthy probed backends''
                       [lb_Name lb, u16_String (lbport_Port port)]))
         else
           (let (s'', r) = probe_ports probe lb ports s'
            in (s'', map_sum id ((#) (port\<lparr>lbport_Backends := backends\<rparr>)) r))))"

primrec probe_lbs ::
    "'w LoadBalancerBackendProbe \<Rightarrow> LoadBalancer list \<Rightarrow> 'w probing \<Rightarrow> 'w probing \<times> LoadBalancer list result" where
  "probe_lbs probe [] s = (s, Inr [])"
| "probe_lbs probe (lb # lbs) s =
     (if \<not> hc_Enabled (lb_HealthCheck lb) then
        (let (s', r) = probe_lbs probe lbs s in (s', map_sum id ((#) lb) r))
      else
        (let (s', r) = probe_ports probe lb (lb_Ports lb) s in
         case r of
           Inl e \<Rightarrow> (s', Inl e)
         | Inr ports \<Rightarrow>
             (let (s'', r) = probe_lbs probe lbs s'
              in (s'', map_sum id ((#) (lb\<lparr>lb_Ports := ports\<rparr>)) r))))"

definition ApplyLoadBalancerHealthChecksWithTracker ::
    "('w \<Rightarrow> duration \<Rightarrow> string \<Rightarrow> 'c result \<times> 'w) \<Rightarrow> ('w \<Rightarrow> 'c \<Rightarrow> unit result \<times> 'w) \<Rightarrow> 'w \<Rightarrow> DesiredState \<Rightarrow>
     'w LoadBalancerBackendProbe option \<Rightarrow> LoadBalancerHealthTracker option \<Rightarrow>
     'w \<times> LoadBalancerHealthTracker option \<times> LoadBalancerHealthSummary \<times> DesiredState result" where
  "ApplyLoadBalancerHealthChecksWithTracker dial close world state probe tracker =
     (let probe = (case probe of None \<Rightarrow> TCPBackendProbe dial close | Some probe \<Rightarrow> probe);
          s = \<lparr>pr_world = world, pr_tracker = tracker, pr_desired = map_option (\<lambda>_. []) tracker,
               pr_summary = \<lparr>health_Checked = 0, health_Healthy = 0, health_Unhealthy = 0\<rparr>\<rparr>;
          (s', r) = probe_lbs probe (desired_LoadBalancers state) s
      in case r of
           Inl e \<Rightarrow> (pr_world s', pr_tracker s', pr_summary s', Inl e)
         | Inr lbs \<Rightarrow>
             (pr_world s', tracker_prune (pr_tracker s') (case pr_desired s' of None \<Rightarrow> [] | Some d \<Rightarrow> d),
              pr_summary s', Inr (state\<lparr>desired_LoadBalancers := lbs\<rparr>)))"

definition ApplyLoadBalancerHealthChecks ::
    "('w \<Rightarrow> duration \<Rightarrow> string \<Rightarrow> 'c result \<times> 'w) \<Rightarrow> ('w \<Rightarrow> 'c \<Rightarrow> unit result \<times> 'w) \<Rightarrow> 'w \<Rightarrow> DesiredState \<Rightarrow>
     'w LoadBalancerBackendProbe option \<Rightarrow>
     'w \<times> LoadBalancerHealthTracker option \<times> LoadBalancerHealthSummary \<times> DesiredState result" where
  "ApplyLoadBalancerHealthChecks dial close world state probe =
     ApplyLoadBalancerHealthChecksWithTracker dial close world state probe None"


section \<open>Verdicts change only after a threshold of consecutive results\<close>

text \<open>What a tracker knows of one backend after a history of probes, oldest first.\<close>

definition health_of :: "LoadBalancerHealthCheck \<Rightarrow> LoadBalancerBackend \<Rightarrow> bool list \<Rightarrow> trackedLoadBalancerBackendHealth" where
  "health_of hc backend history =
     foldl (\<lambda>current ok. tracker_step hc ok current)
       \<lparr>tracked_Healthy = IsHealthy backend, tracked_Successes = 0, tracked_Failures = 0\<rparr> history"

text \<open>The number of last results in a row that are \<open>b\<close>.\<close>

definition consecutive :: "bool \<Rightarrow> bool list \<Rightarrow> nat" where
  "consecutive b history = length (takeWhile (\<lambda>x. x = b) (rev history))"

lemma consecutive_Nil [simp]: "consecutive b [] = 0"
  by (simp add: consecutive_def)

lemma consecutive_snoc [simp]:
  "consecutive b (h @ [x]) = (if x = b then consecutive b h + 1 else 0)"
  by (simp add: consecutive_def)

lemma health_of_snoc: "health_of hc b (h @ [ok]) = tracker_step hc ok (health_of hc b h)"
  by (simp add: health_of_def)

text \<open>
  The counters hold the lengths of the runs modulo \<open>2\<^sup>3\<^sup>2\<close>, and a run as long as its threshold has
  already decided the verdict, so that a counter that wraps around does no harm.
\<close>

lemma threshold_pos [simp]:
  "unat (loadBalancerHealthSuccessThreshold hc) \<noteq> 0" "unat (loadBalancerHealthFailureThreshold hc) \<noteq> 0"
  by (simp_all add: loadBalancerHealthSuccessThreshold_def loadBalancerHealthFailureThreshold_def unat_eq_0)

lemma health_of_inv:
  "let c = health_of hc b h in
   tracked_Successes c = of_nat (consecutive True h) \<and> tracked_Failures c = of_nat (consecutive False h) \<and>
   (unat (loadBalancerHealthSuccessThreshold hc) \<le> consecutive True h \<longrightarrow> tracked_Healthy c) \<and>
   (unat (loadBalancerHealthFailureThreshold hc) \<le> consecutive False h \<longrightarrow> \<not> tracked_Healthy c)"
proof (induction h rule: rev_induct)
  case Nil
  then show ?case by (simp add: health_of_def)
next
  case (snoc ok h)
  have reached: "t \<le> of_nat (Suc n) \<or> unat t \<le> n" if "unat t \<le> Suc n" for t :: u32 and n
  proof (cases "unat t \<le> n")
    case False
    with that have "Suc n = unat t" by simp
    then have "of_nat (Suc n) = t" by (simp only: of_nat_unat ucast_id)
    then show ?thesis by simp
  qed simp
  show ?case
  proof (cases ok)
    case True
    with snoc reached [of "loadBalancerHealthSuccessThreshold hc" "consecutive True h"] show ?thesis
      by (auto simp: health_of_snoc tracker_step_def Let_def add.commute)
  next
    case False
    with snoc reached [of "loadBalancerHealthFailureThreshold hc" "consecutive False h"] show ?thesis
      by (auto simp: health_of_snoc tracker_step_def Let_def add.commute)
  qed
qed

lemma tracker_update_history:
  assumes "map_of t key = (if h = [] then None else Some (health_of hc backend h))"
  shows "tracker_update t key backend hc ok =
    (AList.update key (health_of hc backend (h @ [ok])) t, tracked_Healthy (health_of hc backend (h @ [ok])))"
  using assms
  by (cases "h = []") (simp_all add: tracker_update_def health_of_snoc Let_def, simp add: health_of_def)

text \<open>The tracker after a history of probes of a backend under its key.\<close>

definition tracker_run ::
    "string \<Rightarrow> LoadBalancerBackend \<Rightarrow> LoadBalancerHealthCheck \<Rightarrow> bool list \<Rightarrow> LoadBalancerHealthTracker \<Rightarrow>
     LoadBalancerHealthTracker" where
  "tracker_run key backend hc history t = foldl (\<lambda>t ok. fst (tracker_update t key backend hc ok)) t history"

lemma tracker_run_history:
  assumes "map_of t key = None"
  shows "map_of (tracker_run key backend hc h t) key = (if h = [] then None else Some (health_of hc backend h))"
proof (induction h rule: rev_induct)
  case Nil
  with assms show ?case by (simp add: tracker_run_def)
next
  case (snoc ok h)
  then show ?case
    using tracker_update_history [OF snoc, of ok] by (simp add: tracker_run_def update_conv')
qed

definition tracker_health :: "LoadBalancerHealthTracker \<Rightarrow> string \<Rightarrow> LoadBalancerBackend \<Rightarrow> bool" where
  "tracker_health t key backend =
     (case map_of t key of None \<Rightarrow> IsHealthy backend | Some c \<Rightarrow> tracked_Healthy c)"

lemma unat_of_nat_le: "unat (of_nat n :: u32) \<le> n"
  by (simp add: unat_of_nat)

text \<open>
  C35. From the first probe of a backend on, the verdict of the tracker changes to healthy exactly
  when the last success completes a run of at least \<open>SuccessCount\<close> successes, and to unhealthy
  exactly when the last failure completes a run of at least \<open>FailureCount\<close> failures (3 each where the
  count is 0); in between it stays what it was, at first what the configuration says. The runs are
  counted without bound, although the counters have 32 bits.
\<close>

theorem tracker_verdict:
  assumes "map_of t key = None"
  shows "tracker_health (tracker_run key backend hc [] t) key backend = IsHealthy backend \<and>
    snd (tracker_update (tracker_run key backend hc h t) key backend hc ok) =
      tracker_health (tracker_run key backend hc (h @ [ok]) t) key backend \<and>
    tracker_health (tracker_run key backend hc (h @ [ok]) t) key backend =
      (if ok then tracker_health (tracker_run key backend hc h t) key backend \<or>
         unat (loadBalancerHealthSuccessThreshold hc) \<le> consecutive True (h @ [ok])
       else tracker_health (tracker_run key backend hc h t) key backend \<and>
         \<not> unat (loadBalancerHealthFailureThreshold hc) \<le> consecutive False (h @ [ok]))"
proof -
  have verdict: "tracker_health (tracker_run key backend hc h t) key backend =
      tracked_Healthy (health_of hc backend h)" for h
    using tracker_run_history [OF assms(1), of backend hc h] by (simp add: tracker_health_def health_of_def)
  have "tracked_Healthy (health_of hc backend (h @ [ok])) =
      (if ok then tracked_Healthy (health_of hc backend h) \<or>
         unat (loadBalancerHealthSuccessThreshold hc) \<le> consecutive True (h @ [ok])
       else tracked_Healthy (health_of hc backend h) \<and>
         \<not> unat (loadBalancerHealthFailureThreshold hc) \<le> consecutive False (h @ [ok]))"
  proof (cases ok)
    case True
    with health_of_inv [of hc backend h] health_of_inv [of hc backend "h @ [ok]"]
      unat_of_nat_le [of "consecutive True h + 1"] show ?thesis
      by (auto simp: health_of_snoc tracker_step_def Let_def word_le_nat_alt add.commute)
  next
    case False
    with health_of_inv [of hc backend h] health_of_inv [of hc backend "h @ [ok]"]
      unat_of_nat_le [of "consecutive False h + 1"] show ?thesis
      by (auto simp: health_of_snoc tracker_step_def Let_def word_le_nat_alt add.commute)
  qed
  then show ?thesis
    unfolding verdict
    using tracker_update_history [OF tracker_run_history [OF assms(1)], where h = h] by (simp add: health_of_def)
qed

definition example_backend :: LoadBalancerBackend where
  "example_backend = \<lparr>backend_IP = V4 0x0A000005, backend_Port = 8080, backend_Healthy = None\<rparr>"

definition example_check :: LoadBalancerHealthCheck where
  "example_check = \<lparr>hc_Enabled = True, hc_Interval = 5, hc_Timeout = 1, hc_SuccessCount = 2, hc_FailureCount = 2\<rparr>"

theorem tracker_verdict_witness:
  "map_of NewLoadBalancerHealthTracker ''k'' = None \<and>
   snd (tracker_update (tracker_run ''k'' example_backend example_check [True, False, False, True]
     NewLoadBalancerHealthTracker) ''k'' example_backend example_check True)"
proof -
  have "consecutive True ([True, False, False, True] @ [True]) = 2" by code_simp
  then show ?thesis
    using tracker_verdict [of NewLoadBalancerHealthTracker "''k''" example_backend example_check
      "[True, False, False, True]" True]
    by (simp add: NewLoadBalancerHealthTracker_def loadBalancerHealthSuccessThreshold_def example_check_def)
qed


section \<open>What a round of health checks changes\<close>

definition probed :: "LoadBalancerBackend \<Rightarrow> bool" where
  "probed b \<longleftrightarrow> backend_Healthy b \<noteq> Some False"

definition checked_port :: "LoadBalancerPort \<Rightarrow> bool" where
  "checked_port p \<longleftrightarrow> normalizedLoadBalancerProtocol (lbport_Protocol p) = ProtocolTCP"

text \<open>A backend, a port and a load balancer before and after a round.\<close>

definition backend_after :: "LoadBalancerBackend \<Rightarrow> LoadBalancerBackend \<Rightarrow> bool" where
  "backend_after b b' \<longleftrightarrow> (if probed b then \<exists>h. b' = b\<lparr>backend_Healthy := Some h\<rparr> else b' = b)"

definition port_after :: "LoadBalancerPort \<Rightarrow> LoadBalancerPort \<Rightarrow> bool" where
  "port_after p p' \<longleftrightarrow>
     (if checked_port p then
        \<exists>bs. p' = p\<lparr>lbport_Backends := bs\<rparr> \<and> list_all2 backend_after (lbport_Backends p) bs \<and> list_ex IsHealthy bs
      else p' = p)"

definition lb_after :: "LoadBalancer \<Rightarrow> LoadBalancer \<Rightarrow> bool" where
  "lb_after lb lb' \<longleftrightarrow>
     (if hc_Enabled (lb_HealthCheck lb) then
        \<exists>ps. lb' = lb\<lparr>lb_Ports := ps\<rparr> \<and> list_all2 port_after (lb_Ports lb) ps
      else lb' = lb)"

definition probed_keys :: "LoadBalancer list \<Rightarrow> string set" where
  "probed_keys lbs =
     {loadBalancerBackendHealthKey lb p b | lb p b.
        lb \<in> set lbs \<and> hc_Enabled (lb_HealthCheck lb) \<and> p \<in> set (lb_Ports lb) \<and> checked_port p \<and>
        b \<in> set (lbport_Backends p) \<and> probed b}"

definition desired_within :: "string set \<Rightarrow> 'w probing \<Rightarrow> bool" where
  "desired_within K s \<longleftrightarrow> (\<forall>d. pr_desired s = Some d \<longrightarrow> set d \<subseteq> K) \<and> (pr_desired s = None \<longleftrightarrow> pr_tracker s = None)"

lemma probe_backend_after:
  assumes "probe_backend probe lb port b s = (b', healthy, s')" and "desired_within K s"
    and "probed b \<Longrightarrow> loadBalancerBackendHealthKey lb port b \<in> K"
  shows "backend_after b b' \<and> (healthy \<longleftrightarrow> IsHealthy b') \<and> desired_within K s'"
  using assms
  by (cases "pr_desired s")
    (auto simp: probe_backend_def backend_after_def probed_def desired_within_def tracker_delete_def IsHealthy_def
      Let_def subset_iff split: if_splits prod.splits option.splits)

lemma probe_backends_after:
  assumes "probe_backends probe lb port bs s = (bs', n, s')" and "desired_within K s"
    and "\<And>b. b \<in> set bs \<Longrightarrow> probed b \<Longrightarrow> loadBalancerBackendHealthKey lb port b \<in> K"
  shows "list_all2 backend_after bs bs' \<and> (n \<noteq> 0 \<longleftrightarrow> list_ex IsHealthy bs') \<and> desired_within K s'"
  using assms
proof (induction bs arbitrary: s bs' n)
  case (Cons b bs)
  from Cons.prems(1) obtain b' healthy t bs'' m where
    b: "probe_backend probe lb port b s = (b', healthy, t)" and
    bs: "probe_backends probe lb port bs t = (bs'', m, s')" and
    eq: "bs' = b' # bs''" "n = (if healthy then 1 else 0) + m"
    by (auto split: prod.splits)
  have "backend_after b b' \<and> (healthy \<longleftrightarrow> IsHealthy b') \<and> desired_within K t"
    using Cons.prems(2,3) by (intro probe_backend_after [OF b]) auto
  with Cons.IH [OF bs] Cons.prems(3) eq show ?case by auto
qed simp

lemma probe_ports_after:
  assumes "probe_ports probe lb ports s = (s', Inr ports')" and "desired_within K s"
    and "\<And>p b. p \<in> set ports \<Longrightarrow> checked_port p \<Longrightarrow> b \<in> set (lbport_Backends p) \<Longrightarrow> probed b \<Longrightarrow>
      loadBalancerBackendHealthKey lb p b \<in> K"
  shows "list_all2 port_after ports ports' \<and> desired_within K s'"
  using assms
proof (induction ports arbitrary: s ports')
  case (Cons p ports)
  show ?case
  proof (cases "checked_port p")
    case False
    with Cons.prems(1) obtain ports'' where
      rest: "probe_ports probe lb ports s = (s', Inr ports'')" "ports' = p # ports''"
      by (auto simp: checked_port_def map_sum_def split: prod.splits sum.splits)
    have "list_all2 port_after ports ports'' \<and> desired_within K s'"
      using Cons.prems(2,3) by (intro Cons.IH [OF rest(1)]) auto
    moreover have "port_after p p" using False by (simp add: port_after_def)
    ultimately show ?thesis using rest(2) by simp
  next
    case True
    obtain bs n t where probe: "probeLoadBalancerBackends probe lb p s = (bs, n, t)" by (metis prod_cases3)
    have after: "list_all2 backend_after (lbport_Backends p) bs \<and> (n \<noteq> 0 \<longleftrightarrow> list_ex IsHealthy bs) \<and> desired_within K t"
      using Cons.prems(2,3) True
      by (intro probe_backends_after [OF probe [unfolded probeLoadBalancerBackends_def]]) auto
    from Cons.prems(1) True probe have n: "n \<noteq> 0" by (auto simp: checked_port_def split: if_splits)
    with Cons.prems(1) True probe obtain ports'' where
      rest: "probe_ports probe lb ports t = (s', Inr ports'')" "ports' = p\<lparr>lbport_Backends := bs\<rparr> # ports''"
      by (auto simp: checked_port_def map_sum_def split: prod.splits sum.splits)
    have "list_all2 port_after ports ports'' \<and> desired_within K s'"
      using after Cons.prems(3) by (intro Cons.IH [OF rest(1)]) auto
    moreover have "port_after p (p\<lparr>lbport_Backends := bs\<rparr>)"
      using after n True by (auto simp: port_after_def)
    ultimately show ?thesis using rest(2) by simp
  qed
qed simp

lemma probe_lbs_after:
  assumes "probe_lbs probe lbs s = (s', Inr lbs')" and "desired_within K s" and "probed_keys lbs \<subseteq> K"
  shows "list_all2 lb_after lbs lbs' \<and> desired_within K s'"
  using assms
proof (induction lbs arbitrary: s lbs')
  case (Cons lb lbs)
  have keys: "probed_keys lbs \<subseteq> K" using Cons.prems(3) by (fastforce simp: probed_keys_def)
  show ?case
  proof (cases "hc_Enabled (lb_HealthCheck lb)")
    case False
    with Cons.prems(1) obtain lbs'' where
      rest: "probe_lbs probe lbs s = (s', Inr lbs'')" "lbs' = lb # lbs''"
      by (auto simp: map_sum_def split: prod.splits sum.splits)
    have "lb_after lb lb" using False by (simp add: lb_after_def)
    with Cons.IH [OF rest(1) Cons.prems(2) keys] rest(2) show ?thesis by simp
  next
    case True
    with Cons.prems(1) obtain t ports lbs'' where
      ports: "probe_ports probe lb (lb_Ports lb) s = (t, Inr ports)" and
      rest: "probe_lbs probe lbs t = (s', Inr lbs'')" "lbs' = lb\<lparr>lb_Ports := ports\<rparr> # lbs''"
      by (auto simp: map_sum_def split: prod.splits sum.splits)
    have "list_all2 port_after (lb_Ports lb) ports \<and> desired_within K t"
      using Cons.prems(2,3) True by (intro probe_ports_after [OF ports]) (auto simp: probed_keys_def)
    moreover from this have "lb_after lb (lb\<lparr>lb_Ports := ports\<rparr>)"
      using True by (auto simp: lb_after_def)
    ultimately show ?thesis
      using Cons.IH [OF rest(1) _ keys] rest(2) by simp
  qed
qed simp

text \<open>
  The backends that a round visits, in order: those of the TCP ports of the load balancers with health
  checks. The results of their probes, where the backends configured as unhealthy are passed over, and
  the network after them.
\<close>

type_synonym health_item = "LoadBalancer \<times> LoadBalancerPort \<times> LoadBalancerBackend"

definition port_items :: "LoadBalancer \<Rightarrow> LoadBalancerPort list \<Rightarrow> health_item list" where
  "port_items lb ports = concat (map (\<lambda>p. map (\<lambda>b. (lb, p, b)) (lbport_Backends p)) (filter checked_port ports))"

definition checked_items :: "LoadBalancer list \<Rightarrow> health_item list" where
  "checked_items lbs = concat (map (\<lambda>lb. port_items lb (lb_Ports lb)) (filter (\<lambda>lb. hc_Enabled (lb_HealthCheck lb)) lbs))"

definition item_backend :: "health_item \<Rightarrow> LoadBalancerBackend" where
  "item_backend item = snd (snd item)"

fun item_key :: "health_item \<Rightarrow> string" where
  "item_key (lb, p, b) = loadBalancerBackendHealthKey lb p b"

fun probe_results :: "'w LoadBalancerBackendProbe \<Rightarrow> 'w \<Rightarrow> health_item list \<Rightarrow> bool option list \<times> 'w" where
  "probe_results probe world [] = ([], world)"
| "probe_results probe world ((lb, p, b) # items) =
     (if backend_Healthy b = Some False then
        (let (rs, world'') = probe_results probe world items in (None # rs, world''))
      else
        (let timeout = hc_Timeout (lb_HealthCheck lb);
             (answer, world') = probe world b ((if timeout = 0 then 20 else uint timeout) * second);
             (rs, world'') = probe_results probe world' items
         in (Some (answer = Inr ()) # rs, world'')))"

text \<open>
  The verdict on a backend after a result: without a tracker the result itself; with one, a backend that
  was healthy stays so until its failures reach the threshold, and one that was not becomes healthy when
  its successes do. What the tracker does not know yet is as healthy as it is configured.
\<close>

definition verdict :: "LoadBalancerHealthTracker option \<Rightarrow> health_item \<Rightarrow> bool \<Rightarrow> bool" where
  "verdict tracker item ok =
     (case tracker of
        None \<Rightarrow> ok
      | Some t \<Rightarrow>
          (let hc = lb_HealthCheck (fst item);
               (healthy, successes, failures) =
                 (case map_of t (item_key item) of
                    None \<Rightarrow> (backend_Healthy (item_backend item) \<noteq> Some False, 0, 0)
                  | Some c \<Rightarrow> (tracked_Healthy c, tracked_Successes c, tracked_Failures c))
           in if ok then healthy \<or> successes + 1 \<ge> (if hc_SuccessCount hc = 0 then 3 else hc_SuccessCount hc)
              else healthy \<and> failures + 1 < (if hc_FailureCount hc = 0 then 3 else hc_FailureCount hc)))"

definition item_after :: "LoadBalancerHealthTracker option \<Rightarrow> health_item \<Rightarrow> bool option \<Rightarrow> LoadBalancerBackend" where
  "item_after tracker item r =
     (case r of None \<Rightarrow> item_backend item
      | Some ok \<Rightarrow> (item_backend item)\<lparr>backend_Healthy := Some (verdict tracker item ok)\<rparr>)"

definition summary_of :: "bool option list \<Rightarrow> LoadBalancerHealthSummary" where
  "summary_of rs =
     \<lparr>health_Checked = int (length (filter (\<lambda>r. r \<noteq> None) rs)),
      health_Healthy = int (length (filter (\<lambda>r. r = Some True) rs)),
      health_Unhealthy = int (length (filter (\<lambda>r. r \<noteq> Some True) rs))\<rparr>"

text \<open>The three loops as one over the items.\<close>

fun run_items :: "'w LoadBalancerBackendProbe \<Rightarrow> health_item list \<Rightarrow> 'w probing \<Rightarrow> LoadBalancerBackend list \<times> 'w probing" where
  "run_items probe [] s = ([], s)"
| "run_items probe ((lb, p, b) # items) s =
     (let (b', healthy, s') = probe_backend probe lb p b s;
          (bs, s'') = run_items probe items s'
      in (b' # bs, s''))"

lemma run_items_append:
  "run_items probe (xs @ ys) s =
     (let (bs, s') = run_items probe xs s; (cs, s'') = run_items probe ys s' in (bs @ cs, s''))"
  by (induction probe xs s rule: run_items.induct) (auto split: prod.splits)

lemma probe_backends_run:
  "probe_backends probe lb p bs s = (bs', n, s') \<Longrightarrow> run_items probe (map (\<lambda>b. (lb, p, b)) bs) s = (bs', s')"
  by (induction bs arbitrary: s bs' n) (auto split: prod.splits)

lemma port_items_Cons:
  "port_items lb (p # ports) = (if checked_port p then map (\<lambda>b. (lb, p, b)) (lbport_Backends p) else []) @ port_items lb ports"
  by (simp add: port_items_def)

lemma checked_items_Cons:
  "checked_items (lb # lbs) = (if hc_Enabled (lb_HealthCheck lb) then port_items lb (lb_Ports lb) else []) @ checked_items lbs"
  by (simp add: checked_items_def)

lemma probe_ports_run:
  assumes "probe_ports probe lb ports s = (s', Inr ports')"
  shows "run_items probe (port_items lb ports) s = (map item_backend (port_items lb' ports'), s')"
  using assms
proof (induction ports arbitrary: s ports')
  case Nil
  then show ?case by (simp add: port_items_def)
next
  case (Cons p ports)
  show ?case
  proof (cases "checked_port p")
    case False
    with Cons.prems obtain ports'' where
      rest: "probe_ports probe lb ports s = (s', Inr ports'')" "ports' = p # ports''"
      by (auto simp: checked_port_def map_sum_def split: prod.splits sum.splits)
    from Cons.IH [OF rest(1)] rest(2) False show ?thesis by (simp add: port_items_Cons)
  next
    case True
    obtain bs n t where probe: "probeLoadBalancerBackends probe lb p s = (bs, n, t)" by (metis prod_cases3)
    with Cons.prems True obtain ports'' where
      rest: "probe_ports probe lb ports t = (s', Inr ports'')" "ports' = p\<lparr>lbport_Backends := bs\<rparr> # ports''"
      by (auto simp: checked_port_def map_sum_def split: prod.splits sum.splits if_splits)
    from True have "checked_port (p\<lparr>lbport_Backends := bs\<rparr>)" by (simp add: checked_port_def)
    with Cons.IH [OF rest(1)] probe_backends_run [OF probe [unfolded probeLoadBalancerBackends_def]] True rest(2) show ?thesis
      by (simp add: port_items_Cons run_items_append item_backend_def o_def)
  qed
qed

lemma probe_lbs_run:
  assumes "probe_lbs probe lbs s = (s', Inr lbs')"
  shows "run_items probe (checked_items lbs) s = (map item_backend (checked_items lbs'), s')"
  using assms
proof (induction lbs arbitrary: s lbs')
  case Nil
  then show ?case by (simp add: checked_items_def)
next
  case (Cons lb lbs)
  show ?case
  proof (cases "hc_Enabled (lb_HealthCheck lb)")
    case False
    with Cons.prems obtain lbs'' where
      rest: "probe_lbs probe lbs s = (s', Inr lbs'')" "lbs' = lb # lbs''"
      by (auto simp: map_sum_def split: prod.splits sum.splits)
    from Cons.IH [OF rest(1)] rest(2) False show ?thesis by (simp add: checked_items_Cons)
  next
    case True
    with Cons.prems obtain t ports lbs'' where
      ports: "probe_ports probe lb (lb_Ports lb) s = (t, Inr ports)" and
      rest: "probe_lbs probe lbs t = (s', Inr lbs'')" "lbs' = lb\<lparr>lb_Ports := ports\<rparr> # lbs''"
      by (auto simp: map_sum_def split: prod.splits sum.splits)
    from probe_ports_run [OF ports, of "lb\<lparr>lb_Ports := ports\<rparr>"] Cons.IH [OF rest(1)] rest(2) True show ?thesis
      by (simp add: checked_items_Cons run_items_append)
  qed
qed

text \<open>What the tracker, if there is one, knows under a key.\<close>

definition known_health :: "LoadBalancerHealthTracker option \<Rightarrow> string \<Rightarrow> trackedLoadBalancerBackendHealth option" where
  "known_health tracker key = (case tracker of None \<Rightarrow> None | Some t \<Rightarrow> map_of t key)"

definition add_summary :: "LoadBalancerHealthSummary \<Rightarrow> LoadBalancerHealthSummary \<Rightarrow> LoadBalancerHealthSummary" where
  "add_summary a b =
     \<lparr>health_Checked = health_Checked a + health_Checked b, health_Healthy = health_Healthy a + health_Healthy b,
      health_Unhealthy = health_Unhealthy a + health_Unhealthy b\<rparr>"

lemma item_after_cong:
  assumes "t' = None \<longleftrightarrow> t = None" and "known_health t' (item_key item) = known_health t (item_key item)"
  shows "item_after t' item r = item_after t item r"
  using assms by (auto simp: item_after_def verdict_def known_health_def split: option.splits)

lemma probe_backend_world:
  assumes "probe_backend probe lb p b s = (b', healthy, s')" and "probe_results probe (pr_world s) [(lb, p, b)] = ([r], w)"
  shows "b' = item_after (pr_tracker s) (lb, p, b) r \<and> pr_world s' = w \<and>
    pr_summary s' = add_summary (pr_summary s) (summary_of [r])"
proof -
  have ok: "is_ok (a :: unit result) \<longleftrightarrow> a = Inr ()" for a by (cases a) auto
  have update: "snd (tracker_update t (item_key (lb, p, b)) b (lb_HealthCheck lb) ok) = verdict (Some t) (lb, p, b) ok" for t ok
    by (auto simp: verdict_def item_backend_def tracker_update_def tracker_step_def IsHealthy_def Let_def not_le
        loadBalancerHealthSuccessThreshold_def loadBalancerHealthFailureThreshold_def split: option.splits)
  show ?thesis
  proof (cases "backend_Healthy b = Some False")
    case True
    with assms show ?thesis
      by (auto simp: probe_backend_def item_after_def item_backend_def add_summary_def summary_of_def Let_def)
  next
    case False
    obtain a w' where a: "probe (pr_world s) b (loadBalancerHealthProbeTimeout (lb_HealthCheck lb)) = (a, w')" by fastforce
    then have r: "r = Some (is_ok a)" "w = w'"
      using assms(2) False by (auto simp: loadBalancerHealthProbeTimeout_def ok Let_def split: prod.splits if_splits)
    obtain tracker h where u: "(case pr_tracker s of None \<Rightarrow> (None, is_ok a)
        | Some t \<Rightarrow> let (t', healthy) = tracker_update t (loadBalancerBackendHealthKey lb p b) b (lb_HealthCheck lb) (is_ok a) in (Some t', healthy)) =
        (tracker, h)" by fastforce
    have h: "h = verdict (pr_tracker s) (lb, p, b) (is_ok a)"
    proof (cases "pr_tracker s")
      case None
      with u show ?thesis by (simp add: verdict_def)
    next
      case (Some t)
      with u update [of t "is_ok a"] show ?thesis by (auto split: prod.splits)
    qed
    have "b' = b\<lparr>backend_Healthy := Some h\<rparr> \<and> pr_world s' = w' \<and> pr_summary s' = add_summary (pr_summary s) (summary_of [Some (is_ok a)])"
      using assms(1) by (auto simp: probe_backend_def False a u add_summary_def summary_of_def Let_def)
    then show ?thesis by (simp add: r h item_after_def item_backend_def)
  qed
qed

lemma probe_backend_tracker:
  assumes "probe_backend probe lb p b s = (b', healthy, s')"
  shows "(pr_tracker s' = None \<longleftrightarrow> pr_tracker s = None) \<and>
    (\<forall>k. k \<noteq> item_key (lb, p, b) \<longrightarrow> known_health (pr_tracker s') k = known_health (pr_tracker s) k)"
  using assms
  by (cases "pr_tracker s")
    (auto simp: probe_backend_def known_health_def tracker_delete_def tracker_update_def update_conv' delete_conv' Let_def
      split: if_splits prod.splits)

lemma probe_results_Cons:
  "probe_results probe world (item # items) =
     (let (r, world') = probe_results probe world [item]; (rs, world'') = probe_results probe world' items in (r @ rs, world''))"
  by (cases item) (auto simp: Let_def split: prod.splits)

lemma add_summary_of: "add_summary (add_summary s (summary_of [r])) (summary_of rs) = add_summary s (summary_of (r # rs))"
  by (simp add: add_summary_def summary_of_def)

lemma run_items_results:
  assumes "run_items probe items s = (bs, s')" and "pr_tracker s = None \<or> distinct (map item_key items)"
    and "probe_results probe (pr_world s) items = (rs, w)"
  shows "bs = map2 (item_after (pr_tracker s)) items rs \<and> pr_world s' = w \<and>
    pr_summary s' = add_summary (pr_summary s) (summary_of rs)"
  using assms
proof (induction items arbitrary: s bs rs)
  case Nil
  then show ?case by (simp add: add_summary_def summary_of_def)
next
  case (Cons item items)
  obtain lb p b where item: "item = (lb, p, b)" by (cases item)
  from Cons.prems(1) obtain b' healthy t bs' where
    b: "probe_backend probe lb p b s = (b', healthy, t)" and rest: "run_items probe items t = (bs', s')" "bs = b' # bs'"
    by (auto simp: item split: prod.splits)
  obtain r w' rs' where r: "probe_results probe (pr_world s) [item] = ([r], w')"
    and rs: "probe_results probe w' items = (rs', w)" "rs = r # rs'"
    using Cons.prems(3) probe_results_Cons [of probe "pr_world s" item items] by (auto simp: item Let_def split: prod.splits if_splits)
  note head = probe_backend_world [OF b r [unfolded item]] and keep = probe_backend_tracker [OF b]
  have "bs' = map2 (item_after (pr_tracker t)) items rs' \<and> pr_world s' = w \<and>
      pr_summary s' = add_summary (pr_summary t) (summary_of rs')"
    using Cons.prems(2) keep head rs(1) by (intro Cons.IH [OF rest(1)]) auto
  moreover have "map2 (item_after (pr_tracker t)) items rs' = map2 (item_after (pr_tracker s)) items rs'"
  proof (rule map_cong [OF refl])
    fix ir
    assume "ir \<in> set (zip items rs')"
    then have "fst ir \<in> set items" by (metis prod.collapse set_zip_leftD)
    then have "pr_tracker s = None \<or> item_key (fst ir) \<noteq> item_key item"
      using Cons.prems(2) by (metis distinct.simps(2) image_eqI image_set list.simps(9))
    then have "known_health (pr_tracker t) (item_key (fst ir)) = known_health (pr_tracker s) (item_key (fst ir))"
      using keep item by (auto simp: known_health_def)
    with keep have "item_after (pr_tracker t) (fst ir) (snd ir) = item_after (pr_tracker s) (fst ir) (snd ir)"
      by (intro item_after_cong) simp_all
    then show "(\<lambda>(x, y). item_after (pr_tracker t) x y) ir = (\<lambda>(x, y). item_after (pr_tracker s) x y) ir"
      by (simp add: case_prod_beta)
  qed
  ultimately show ?case using head rest(2) rs(2) by (simp add: item add_summary_of)
qed

text \<open>
  C36. A round of health checks that succeeds visits the backends of the TCP ports of the load balancers
  with health checks in order, probes each that is not configured as unhealthy once, with the timeout
  of its load balancer, and gives it the verdict on the result of its probe: the result itself without
  a tracker, and with a tracker the verdict by the thresholds of the load balancer on what was tracked of
  the backend before the round. With a tracker, the keys of the backends are distinct. A backend
  configured as unhealthy stays so, nothing else of the desired state changes, and every checked port
  keeps a healthy backend; the summary counts the results, and the tracker afterwards knows no backend
  that was not probed in this round. Where no probe is given, the TCP connection is the probe.
\<close>

theorem ApplyLoadBalancerHealthChecks_after:
  assumes "ApplyLoadBalancerHealthChecksWithTracker dial close world state probe tracker = (world', tracker', summary, Inr state')"
    and "probe_results (case probe of None \<Rightarrow> TCPBackendProbe dial close | Some p \<Rightarrow> p) world
      (checked_items (desired_LoadBalancers state)) = (results, world'')"
    and "tracker = None \<or> distinct (map item_key (checked_items (desired_LoadBalancers state)))"
  shows "map item_backend (checked_items (desired_LoadBalancers state')) =
      map2 (item_after tracker) (checked_items (desired_LoadBalancers state)) results \<and>
    world' = world'' \<and> summary = summary_of results \<and>
    (\<exists>lbs. state' = state\<lparr>desired_LoadBalancers := lbs\<rparr> \<and> list_all2 lb_after (desired_LoadBalancers state) lbs) \<and>
    (\<forall>t. tracker' = Some t \<longrightarrow> fst ` set t \<subseteq> probed_keys (desired_LoadBalancers state))"
proof -
  let ?probe = "case probe of None \<Rightarrow> TCPBackendProbe dial close | Some p \<Rightarrow> p"
  define s where "s = \<lparr>pr_world = world, pr_tracker = tracker, pr_desired = map_option (\<lambda>_. []) tracker,
    pr_summary = \<lparr>health_Checked = 0, health_Healthy = 0, health_Unhealthy = 0\<rparr>\<rparr>"
  from assms(1) obtain s' lbs where run: "probe_lbs ?probe (desired_LoadBalancers state) s = (s', Inr lbs)"
    and out: "tracker' = tracker_prune (pr_tracker s') (case pr_desired s' of None \<Rightarrow> [] | Some d \<Rightarrow> d)"
      "state' = state\<lparr>desired_LoadBalancers := lbs\<rparr>" "world' = pr_world s'" "summary = pr_summary s'"
    by (auto simp: ApplyLoadBalancerHealthChecksWithTracker_def s_def Let_def split: prod.splits sum.splits)
  have within: "desired_within (probed_keys (desired_LoadBalancers state)) s"
    by (simp add: desired_within_def s_def)
  have "map item_backend (checked_items lbs) = map2 (item_after tracker) (checked_items (desired_LoadBalancers state)) results \<and>
      world' = world'' \<and> summary = summary_of results"
    using run_items_results [OF probe_lbs_run [OF run], of results world''] assms(2,3) out(3,4)
    by (simp add: s_def add_summary_def summary_of_def)
  with probe_lbs_after [OF run within] out(1,2) show ?thesis
    by (auto simp: desired_within_def tracker_prune_def)
qed

definition example_probe :: "unit \<Rightarrow> LoadBalancerBackend \<Rightarrow> duration \<Rightarrow> unit result \<times> unit" where
  "example_probe world backend timeout = (if backend_Port backend = 8080 then Inr () else Inl (Errorf ''connection refused'' []), ())"

definition example_dial :: "unit \<Rightarrow> duration \<Rightarrow> string \<Rightarrow> unit result \<times> unit" where
  "example_dial world timeout address = (Inl (Errorf ''no route'' []), ())"

definition example_close :: "unit \<Rightarrow> unit \<Rightarrow> unit result \<times> unit" where
  "example_close world conn = (Inr (), ())"

definition example_health_state :: DesiredState where
  "example_health_state = empty_DesiredState\<lparr>desired_LoadBalancers :=
     [\<lparr>lb_Name = ''api'', lb_VPC = ''prod'', lb_VIP = V4 0x0AFE0001,
       lb_Ports = [\<lparr>lbport_Name = ''http'', lbport_Port = 80, lbport_Protocol = '''',
         lbport_Backends = [example_backend, example_backend\<lparr>backend_Port := 81\<rparr>,
           example_backend\<lparr>backend_Port := 82, backend_Healthy := Some False\<rparr>]\<rparr>],
       lb_Subnets = [], lb_SessionAffinity = False, lb_AffinityTimeout = 0, lb_SelectionFields = [],
       lb_HealthCheck = example_check\<rparr>]\<rparr>"

theorem ApplyLoadBalancerHealthChecks_after_witness:
  "\<exists>summary state'.
     ApplyLoadBalancerHealthChecksWithTracker example_dial example_close () example_health_state (Some example_probe) None =
       ((), None, summary, Inr state') \<and>
     map (backend_Healthy \<circ> item_backend) (checked_items (desired_LoadBalancers state')) = [Some True, Some False, Some False]"
proof -
  let ?r = "ApplyLoadBalancerHealthChecksWithTracker example_dial example_close () example_health_state (Some example_probe) None"
  let ?items = "checked_items (desired_LoadBalancers example_health_state)"
  have "is_ok (snd (snd (snd ?r))) \<and> fst (snd ?r) = None"
    by (simp add: ApplyLoadBalancerHealthChecksWithTracker_def example_health_state_def example_check_def
        example_backend_def example_probe_def probeLoadBalancerBackends_def probe_backend_def tracker_prune_def tracker_delete_def
        IsHealthy_def normalizedLoadBalancerProtocol_def Let_def split: sum.splits prod.splits)
  then obtain summary state' where r: "?r = ((), None, summary, Inr state')"
    by (cases ?r) (auto simp: is_ok_def split: sum.splits)
  have results: "probe_results example_probe () ?items = ([Some True, Some False, None], ())"
    by (simp add: checked_items_def port_items_def checked_port_def example_health_state_def example_check_def
        example_backend_def example_probe_def normalizedLoadBalancerProtocol_def Let_def)
  have "map backend_Healthy (map2 (item_after None) ?items [Some True, Some False, None]) = [Some True, Some False, Some False]"
    by (simp add: checked_items_def port_items_def checked_port_def example_health_state_def example_check_def
        example_backend_def normalizedLoadBalancerProtocol_def item_after_def verdict_def item_backend_def)
  with ApplyLoadBalancerHealthChecks_after [OF r, of "[Some True, Some False, None]" "()"] r results show ?thesis
    by (auto simp flip: map_map)
qed

end
