(* ===== verification/DnsParser.thy ===== *)
theory DnsParser
  imports ValidateNet Strings "HOL-Library.Monad_Syntax"
begin

text \<open>
  The parser of DNS responses, \<open>internal/dnsobserver/parser.go\<close>. A packet is a list of bytes. The two
  loops that follow references chosen by the sender of the packet, compression pointers of names
  and chains of aliases, are partial functions into \<open>option\<close>, \<open>None\<close> being a run that does not
  end; the development proves that they always return.
\<close>

unbundle bit_operations_syntax

section \<open>Names\<close>

definition uint16_at :: "u8 list \<Rightarrow> nat \<Rightarrow> u16" where
  "uint16_at packet i = bytes_word (take 2 (drop i packet))"

definition uint32_at :: "u8 list \<Rightarrow> nat \<Rightarrow> u32" where
  "uint32_at packet i = bytes_word (take 4 (drop i packet))"

definition bytes_string :: "u8 list \<Rightarrow> string" where
  "bytes_string bs = map (\<lambda>b. char_of (unat b)) bs"

definition compression_pointer :: "nat \<Rightarrow> nat \<Rightarrow> nat" where
  "compression_pointer high low = push_bit 8 (high AND 0x3f) OR low"

partial_function (option) readName_loop ::
    "u8 list \<Rightarrow> nat \<Rightarrow> string list \<Rightarrow> nat \<Rightarrow> bool \<Rightarrow> nat list \<Rightarrow> (string \<times> nat) result option" where
  "readName_loop packet offset labels nxt jumped seen =
     (if offset \<ge> length packet then Some (Inl (Errorf ''name exceeds packet'' []))
      else
        (let len = unat (packet ! offset) in
         if len AND 0xc0 = 0xc0 then
           (if offset + 1 \<ge> length packet then Some (Inl (Errorf ''compressed pointer is truncated'' []))
            else
              (let ptr = compression_pointer len (unat (packet ! (offset + 1))) in
               if ptr \<ge> length packet then Some (Inl (Errorf ''compressed pointer exceeds packet'' []))
               else if ptr \<in> set seen then Some (Inl (Errorf ''compressed pointer loop'' []))
               else if \<not> jumped then readName_loop packet ptr labels (offset + 2) True (ptr # seen)
               else readName_loop packet ptr labels nxt jumped (ptr # seen)))
         else if len AND 0xc0 = 0 then
           (if len = 0 then
              Some (Inr (strings_Join labels ''.'', if \<not> jumped then offset + 1 else nxt))
            else if offset + 1 + len > length packet then Some (Inl (Errorf ''label exceeds packet'' []))
            else readName_loop packet (offset + 1 + len)
                   (labels @ [bytes_string (take len (drop (offset + 1) packet))]) nxt jumped seen)
         else Some (Inl (Errorf ''unsupported label pointer bits'' []))))"

declare readName_loop.simps [code]

definition readName :: "u8 list \<Rightarrow> nat \<Rightarrow> (string \<times> nat) result option" where
  "readName packet offset = readName_loop packet offset [] offset False []"

text \<open>
  The loop returns: every pointer followed is one not followed before, and between two of them the
  offset grows.
\<close>

definition pointers_left :: "u8 list \<Rightarrow> nat list \<Rightarrow> nat" where
  "pointers_left packet seen = card ({..<length packet} - set seen)"

lemma pointers_left_less:
  "ptr < length packet \<Longrightarrow> ptr \<notin> set seen \<Longrightarrow> pointers_left packet (ptr # seen) < pointers_left packet seen"
  unfolding pointers_left_def by (rule psubset_card_mono) auto

definition name_end :: "nat \<Rightarrow> nat \<Rightarrow> bool \<Rightarrow> nat \<Rightarrow> nat \<Rightarrow> bool" where
  "name_end len offset jumped nxt r \<longleftrightarrow> (if jumped then r = nxt else offset < r \<and> r \<le> len)"

lemma readName_loop_returns:
  "\<exists>r. readName_loop packet offset labels nxt jumped seen = Some r \<and>
     (\<forall>name n. r = Inr (name, n) \<longrightarrow> name_end (length packet) offset jumped nxt n)"
proof (induction "(pointers_left packet seen, length packet - offset)" arbitrary: seen offset labels nxt jumped
    rule: wf_induct_rule [OF wf_lex_prod [OF wf_less_than wf_less_than]])
  case less: (1 seen offset labels nxt jumped)
  let ?len = "unat (packet ! offset)"
  consider "offset \<ge> length packet" | "offset < length packet" "?len AND 0xc0 = 0xc0"
    | "offset < length packet" "?len AND 0xc0 = 0" | "offset < length packet" "?len AND 0xc0 \<notin> {0, 0xc0}"
    by fastforce
  then show ?case
  proof cases
    case 2
    let ?ptr = "compression_pointer ?len (unat (packet ! (offset + 1)))"
    have "\<exists>r. readName_loop packet ?ptr labels n True (?ptr # seen) = Some r \<and>
        (\<forall>name m. r = Inr (name, m) \<longrightarrow> name_end (length packet) ?ptr True n m)"
      if "?ptr < length packet" "?ptr \<notin> set seen" for n
      using pointers_left_less [OF that] by (intro less) simp
    with 2 show ?thesis
      by (subst readName_loop.simps) (fastforce simp: name_end_def Let_def)
  next
    case 3
    show ?thesis
    proof (cases "?len = 0 \<or> offset + 1 + ?len > length packet")
      case True
      with 3 show ?thesis by (subst readName_loop.simps) (auto simp: name_end_def Let_def)
    next
      case False
      with 3 have "\<exists>r. readName_loop packet (offset + 1 + ?len)
          (labels @ [bytes_string (take ?len (drop (offset + 1) packet))]) nxt jumped seen = Some r \<and>
          (\<forall>name n. r = Inr (name, n) \<longrightarrow> name_end (length packet) (offset + 1 + ?len) jumped nxt n)"
        by (intro less) (simp, linarith)
      with 3 False show ?thesis by (subst readName_loop.simps) (fastforce simp: name_end_def Let_def)
    qed
  qed (subst readName_loop.simps, simp add: Let_def)+
qed

lemma readName_returns:
  obtains r where "readName packet offset = Some r"
    and "\<And>name n. r = Inr (name, n) \<Longrightarrow> offset < n \<and> n \<le> length packet"
  using readName_loop_returns [of packet offset "[]" offset False "[]"]
  by (auto simp: readName_def name_end_def)


section \<open>Resource records\<close>

record rrset =
  rr_ips :: "addr list"
  rr_ttl :: u32

record cnameRecord =
  cname_target :: string
  cname_ttl :: u32

abbreviation (input) dnsTypeA :: u16 where "dnsTypeA \<equiv> 1"
abbreviation (input) dnsTypeCNAME :: u16 where "dnsTypeCNAME \<equiv> 5"
abbreviation (input) dnsTypeAAAA :: u16 where "dnsTypeAAAA \<equiv> 28"
abbreviation (input) dnsClassIN :: u16 where "dnsClassIN \<equiv> 1"

definition zero_rrset :: rrset where
  "zero_rrset = \<lparr>rr_ips = [], rr_ttl = 0\<rparr>"

definition canonicalName :: "string \<Rightarrow> string" where
  "canonicalName name = strings_TrimSuffix (strings_ToLower (strings_TrimSpace name)) ''.''"

definition appendRecord :: "(string, rrset) gomap \<Rightarrow> string \<Rightarrow> addr \<Rightarrow> u32 \<Rightarrow> (string, rrset) gomap" where
  "appendRecord records name ip ttl =
     (let rrs = gomap_get zero_rrset records name in
      if ip \<in> set (rr_ips rrs) then records
      else AList.update name
        \<lparr>rr_ips = rr_ips rrs @ [ip],
         rr_ttl = (if rr_ttl rrs = 0 \<or> (ttl \<noteq> 0 \<and> ttl < rr_ttl rrs) then ttl else rr_ttl rrs)\<rparr> records)"

definition minDNSTTL :: "u32 \<Rightarrow> u32 \<Rightarrow> u32" where
  "minDNSTTL left right = (if left = 0 \<or> right = 0 then 0 else if left < right then left else right)"

text \<open>The two maps a response is collected in.\<close>

type_synonym dns_maps = "(string, rrset) gomap \<times> (string, cnameRecord) gomap"

definition parseResourceRecord ::
    "u8 list \<Rightarrow> nat \<Rightarrow> string \<Rightarrow> nat \<Rightarrow> dns_maps \<Rightarrow> (nat \<times> dns_maps) result option" where
  "parseResourceRecord packet offset sect index maps =
     (case maps of (records, cnames) \<Rightarrow>
      do {
        r \<leftarrow> readName packet offset;
        case r of
          Inl e \<Rightarrow> Some (Inl (Wrapf ''read %s %d name: %w'' [sect, nat_Itoa index] e))
        | Inr (name, nxt) \<Rightarrow>
            if nxt + 10 > length packet then Some (Inl (Errorf ''%s %d header is truncated'' [sect, nat_Itoa index]))
            else
              (let rrType = uint16_at packet nxt;
                   class = uint16_at packet (nxt + 2);
                   ttl = uint32_at packet (nxt + 4);
                   rdLen = unat (uint16_at packet (nxt + 8));
                   rdata = nxt + 10
               in if rdata + rdLen > length packet then
                    Some (Inl (Errorf ''%s %d rdata is truncated'' [sect, nat_Itoa index]))
                  else
                    (let nxt = rdata + rdLen;
                         name = canonicalName name
                     in if class \<noteq> dnsClassIN then Some (Inr (nxt, records, cnames))
                        else if rrType = dnsTypeA then
                          (if rdLen \<noteq> 4 then
                             Some (Inl (Errorf ''%s %d A rdata length = %d'' [sect, nat_Itoa index, nat_Itoa rdLen]))
                           else Some (Inr (nxt,
                             appendRecord records name (addr_AddrFrom4 (take 4 (drop rdata packet))) ttl, cnames)))
                        else if rrType = dnsTypeAAAA then
                          (if rdLen \<noteq> 16 then
                             Some (Inl (Errorf ''%s %d AAAA rdata length = %d'' [sect, nat_Itoa index, nat_Itoa rdLen]))
                           else Some (Inr (nxt,
                             appendRecord records name (addr_AddrFrom16 (take 16 (drop rdata packet))) ttl, cnames)))
                        else if rrType = dnsTypeCNAME then
                          do {
                            r \<leftarrow> readName packet rdata;
                            case r of
                              Inl e \<Rightarrow> Some (Inl (Wrapf ''read %s %d cname target: %w'' [sect, nat_Itoa index] e))
                            | Inr (target, _) \<Rightarrow>
                                Some (Inr (nxt, records,
                                  AList.update name \<lparr>cname_target = canonicalName target, cname_ttl = ttl\<rparr> cnames))
                          }
                        else Some (Inr (nxt, records, cnames))))
      })"

section \<open>Responses\<close>

primrec read_questions :: "u8 list \<Rightarrow> nat \<Rightarrow> nat \<Rightarrow> nat \<Rightarrow> nat result option" where
  "read_questions packet 0 i offset = Some (Inr offset)"
| "read_questions packet (Suc n) i offset =
     do {
       r \<leftarrow> readName packet offset;
       case r of
         Inl e \<Rightarrow> Some (Inl (Wrapf ''read question %d name: %w'' [nat_Itoa i] e))
       | Inr (_, offset) \<Rightarrow>
           if offset + 4 > length packet then Some (Inl (Errorf ''question %d is truncated'' [nat_Itoa i]))
           else read_questions packet n (Suc i) (offset + 4)
     }"

primrec read_section :: "u8 list \<Rightarrow> string \<Rightarrow> nat \<Rightarrow> nat \<Rightarrow> nat \<times> dns_maps \<Rightarrow> (nat \<times> dns_maps) result option" where
  "read_section packet sect 0 i s = Some (Inr s)"
| "read_section packet sect (Suc n) i s =
     do {
       r \<leftarrow> parseResourceRecord packet (fst s) sect i (snd s);
       case r of
         Inl e \<Rightarrow> Some (Inl e)
       | Inr s \<Rightarrow> read_section packet sect n (Suc i) s
     }"

primrec read_sections :: "u8 list \<Rightarrow> (string \<times> nat) list \<Rightarrow> nat \<times> dns_maps \<Rightarrow> (nat \<times> dns_maps) result option" where
  "read_sections packet [] s = Some (Inr s)"
| "read_sections packet (sect # sects) s =
     do {
       r \<leftarrow> read_section packet (fst sect) (snd sect) 0 s;
       case r of
         Inl e \<Rightarrow> Some (Inl e)
       | Inr s \<Rightarrow> read_sections packet sects s
     }"

partial_function (option) alias_loop ::
    "(string, rrset) gomap \<Rightarrow> (string, cnameRecord) gomap \<Rightarrow> string \<Rightarrow> cnameRecord \<Rightarrow> u32 \<Rightarrow> string list \<Rightarrow>
     (string, rrset) gomap option" where
  "alias_loop records cnames alias target chainTTL seen =
     (case map_of records (cname_target target) of
        Some rrs \<Rightarrow>
          Some (fold (\<lambda>ip records. appendRecord records alias ip (minDNSTTL chainTTL (rr_ttl rrs))) (rr_ips rrs) records)
      | None \<Rightarrow>
          (case map_of cnames (cname_target target) of
             None \<Rightarrow> Some records
           | Some nxt \<Rightarrow>
               if cname_target nxt \<in> set seen then Some records
               else alias_loop records cnames alias nxt (minDNSTTL chainTTL (cname_ttl nxt)) (cname_target nxt # seen)))"

declare alias_loop.simps [code]

primrec resolve_aliases ::
    "(string, cnameRecord) gomap \<Rightarrow> (string \<times> cnameRecord) list \<Rightarrow> (string, rrset) gomap \<Rightarrow> (string, rrset) gomap option" where
  "resolve_aliases cnames [] records = Some records"
| "resolve_aliases cnames (a # as) records =
     do {
       records \<leftarrow> alias_loop records cnames (fst a) (snd a) (cname_ttl (snd a)) [fst a];
       resolve_aliases cnames as records
     }"

definition dnsRecords :: "(string, rrset) gomap \<Rightarrow> time \<Rightarrow> DNSRecord list" where
  "dnsRecords records observedAt =
     map (\<lambda>name.
         let rrs = gomap_get zero_rrset records name;
             ips = sort_SliceStable (\<lambda>a b. addr_String a < addr_String b) (rr_ips rrs)
         in \<lparr>dns_Name = name, dns_IPs = ips,
             dns_TTLSeconds = (if rr_ttl rrs > 0 then rr_ttl rrs else 0),
             dns_ObservedAt = (if rr_ttl rrs > 0 then observedAt else zero_time)\<rparr>)
       (sort_Strings (map fst (filter (\<lambda>(name, rrs). rr_ips rrs \<noteq> []) records)))"

definition RecordsFromResponse :: "u8 list \<Rightarrow> time \<Rightarrow> DNSRecord list result option" where
  "RecordsFromResponse packet observedAt =
     (if length packet < 12 then Some (Inl (Errorf ''dns response too short'' []))
      else if uint16_at packet 2 AND 0x8000 = 0 then Some (Inl (Errorf ''dns packet is not a response'' []))
      else
        do {
          r \<leftarrow> read_questions packet (unat (uint16_at packet 4)) 0 12;
          case r of
            Inl e \<Rightarrow> Some (Inl e)
          | Inr offset \<Rightarrow>
              do {
                r \<leftarrow> read_sections packet
                      [(''answer'', unat (uint16_at packet 6)),
                       (''authority'', unat (uint16_at packet 8)),
                       (''additional'', unat (uint16_at packet 10))] (offset, [], []);
                case r of
                  Inl e \<Rightarrow> Some (Inl e)
                | Inr (_, records, cnames) \<Rightarrow>
                    do {
                      records \<leftarrow> resolve_aliases cnames cnames records;
                      Some (Inr (dnsRecords records observedAt))
                    }
              }
        })"


section \<open>The parser always returns\<close>

lemma parseResourceRecord_returns:
  "\<exists>r. parseResourceRecord packet offset sect index maps = Some r \<and>
     (\<forall>n maps'. r = Inr (n, maps') \<longrightarrow> offset < n \<and> n \<le> length packet)"
proof -
  obtain records cnames where maps: "maps = (records, cnames)" by fastforce
  obtain r where r: "readName packet offset = Some r"
    and bound: "\<And>name n. r = Inr (name, n) \<Longrightarrow> offset < n \<and> n \<le> length packet"
    using readName_returns [of packet offset] by blast
  show ?thesis
  proof (cases r)
    case (Inr p)
    obtain name nxt where p: "p = (name, nxt)" by fastforce
    obtain r' where "readName packet (nxt + 10) = Some r'" using readName_returns [of packet "nxt + 10"] by blast
    with r Inr p bound [of name nxt] show ?thesis
      by (auto simp: parseResourceRecord_def maps Let_def split: sum.splits)
  qed (simp add: parseResourceRecord_def maps r)
qed

text \<open>A loop over a map of aliases ends since every step takes an alias whose target is new.\<close>

lemma alias_loop_returns: "\<exists>r. alias_loop records cnames alias target ttl seen = Some r"
proof (induction "card (cname_target ` snd ` set cnames - set seen)" arbitrary: target ttl seen rule: less_induct)
  case less
  show ?case
  proof (cases "map_of cnames (cname_target target)")
    case None
    then show ?thesis by (subst alias_loop.simps) (simp split: option.splits)
  next
    case (Some nxt)
    show ?thesis
    proof (cases "cname_target nxt \<in> set seen")
      case True
      with Some show ?thesis by (subst alias_loop.simps) (simp split: option.splits)
    next
      case False
      have "nxt \<in> snd ` set cnames" using map_of_SomeD [OF Some] by force
      with False have "card (cname_target ` snd ` set cnames - set (cname_target nxt # seen))
          < card (cname_target ` snd ` set cnames - set seen)"
        by (intro psubset_card_mono) auto
      from less [OF this] Some False show ?thesis
        by (subst alias_loop.simps) (simp split: option.splits)
    qed
  qed
qed

lemma resolve_aliases_returns: "\<exists>r. resolve_aliases cnames as records = Some r"
proof (induction as arbitrary: records)
  case (Cons a as)
  then show ?case
    using alias_loop_returns [of records cnames "fst a" "snd a" "cname_ttl (snd a)" "[fst a]"] by auto
qed simp

lemma read_questions_returns: "\<exists>r. read_questions packet n i offset = Some r"
proof (induction n arbitrary: i offset)
  case (Suc n)
  obtain r where "readName packet offset = Some r" using readName_returns [of packet offset] by blast
  with Suc show ?case by (auto split: sum.splits)
qed simp

lemma read_section_returns: "\<exists>r. read_section packet sect n i s = Some r"
proof (induction n arbitrary: i s)
  case (Suc n)
  obtain r where "parseResourceRecord packet (fst s) sect i (snd s) = Some r"
    using parseResourceRecord_returns by blast
  with Suc show ?case by (auto split: sum.splits)
qed simp

lemma read_sections_returns: "\<exists>r. read_sections packet sects s = Some r"
proof (induction sects arbitrary: s)
  case (Cons sect sects)
  obtain r where "read_section packet (fst sect) (snd sect) 0 s = Some r"
    using read_section_returns by blast
  with Cons show ?case by (auto split: sum.splits)
qed simp

text \<open>
  C21. Parsing returns for every packet: whatever compression pointers and aliases the sender of a
  response chose, loops of them included, the parser answers with records or an error.
\<close>

theorem RecordsFromResponse_returns: "\<exists>r. RecordsFromResponse packet observedAt = Some r"
proof -
  obtain q where q: "read_questions packet (unat (uint16_at packet 4)) 0 12 = Some q"
    using read_questions_returns by blast
  have sections: "\<exists>r. read_sections packet sects s = Some r" and aliases: "\<exists>r. resolve_aliases c c' m = Some r"
    for sects s c c' m
    by (rule read_sections_returns resolve_aliases_returns)+
  show ?thesis
  proof (cases q)
    case (Inr offset)
    obtain r where r: "read_sections packet
        [(''answer'', unat (uint16_at packet 6)), (''authority'', unat (uint16_at packet 8)),
         (''additional'', unat (uint16_at packet 10))] (offset, [], []) = Some r"
      using sections by blast
    show ?thesis
    proof (cases r)
      case Inr': (Inr s)
      obtain n records cnames where s: "s = (n, records, cnames)" by (metis prod_cases3)
      obtain m where "resolve_aliases cnames cnames records = Some m" using aliases by blast
      with q Inr r Inr' s show ?thesis by (simp add: RecordsFromResponse_def del: read_sections.simps)
    qed (simp add: RecordsFromResponse_def q Inr r del: read_sections.simps)
  qed (simp add: RecordsFromResponse_def q)
qed


section \<open>Names are read as they are written\<close>

text \<open>
  The wire format of RFC 1035: every label with its length, then the empty label, or a pointer to
  the offset of an earlier name that continues it.
\<close>

definition encode_labels :: "string list \<Rightarrow> u8 list" where
  "encode_labels labels = concat (map (\<lambda>l. of_nat (length l) # string_bytes l) labels)"

definition encode_name :: "string list \<Rightarrow> u8 list" where
  "encode_name labels = encode_labels labels @ [0]"

definition encode_compressed :: "string list \<Rightarrow> nat \<Rightarrow> u8 list" where
  "encode_compressed labels p = encode_labels labels @ [of_nat (192 + p div 256), of_nat (p mod 256)]"

definition dns_labels :: "string list \<Rightarrow> bool" where
  "dns_labels labels \<longleftrightarrow> list_all (\<lambda>l. 0 < length l \<and> length l < 64) labels"

lemma bytes_string_string_bytes [simp]: "bytes_string (string_bytes s) = s"
proof -
  have "char_of (unat (of_char c :: u8)) = c" for c :: char
  proof -
    have "unat (of_char c :: u8) = of_char c"
      by (rule of_nat_inverse [OF of_nat_of_char]) (simp add: nat_of_char_less_256)
    then show ?thesis by simp
  qed
  then show ?thesis by (induction s) (simp_all add: bytes_string_def string_bytes_def)
qed

lemma low_bits_zero: "n < 64 \<Longrightarrow> n AND 0xc0 = (0 :: nat)"
proof -
  assume "n < 64"
  then have "n = n AND mask 6" by (simp add: take_bit_eq_mask [symmetric] take_bit_nat_eq_self)
  then have "n AND 0xc0 = n AND (mask 6 AND 0xc0)" by (metis and.assoc)
  also have "mask 6 AND 0xc0 = (0 :: nat)" by (simp add: mask_eq_exp_minus_1)
  finally show ?thesis by simp
qed

lemma length_string_bytes [simp]: "length (string_bytes s) = length s"
  by (simp add: string_bytes_def)

lemma encode_labels_simps [simp]:
  "encode_labels [] = []"
  "encode_labels (l # labels) = of_nat (length l) # string_bytes l @ encode_labels labels"
  by (simp_all add: encode_labels_def)

lemma readName_loop_labels:
  assumes "dns_labels labels"
  shows "readName_loop (pre @ encode_labels labels @ rest) (length pre) acc nxt jumped seen =
    readName_loop (pre @ encode_labels labels @ rest) (length (pre @ encode_labels labels)) (acc @ labels) nxt jumped seen"
  using assms
proof (induction labels arbitrary: pre acc)
  case Nil
  then show ?case by simp
next
  case (Cons l labels)
  let ?pre = "pre @ of_nat (length l) # string_bytes l"
  have enc: "pre @ encode_labels (l # labels) @ rest = ?pre @ encode_labels labels @ rest"
    by simp
  have len: "unat (of_nat (length l) :: u8) = length l" "0 < length l" "length l AND 0xc0 = 0"
    using Cons.prems low_bits_zero by (auto simp: dns_labels_def unat_of_nat)
  have "readName_loop (?pre @ encode_labels labels @ rest) (length pre) acc nxt jumped seen =
      readName_loop (?pre @ encode_labels labels @ rest) (length ?pre) (acc @ [l]) nxt jumped seen"
    using len by (subst readName_loop.simps) (simp add: nth_append Let_def)
  with Cons.IH [of ?pre "acc @ [l]"] Cons.prems show ?case
    by (simp add: enc dns_labels_def)
qed

lemma readName_encode_name:
  assumes "dns_labels labels"
  shows "readName_loop (pre @ encode_name labels @ rest) (length pre) acc nxt jumped seen =
    Some (Inr (strings_Join (acc @ labels) ''.'', if jumped then nxt else length pre + length (encode_name labels)))"
  unfolding encode_name_def append.assoc readName_loop_labels [OF assms, where rest = "[0] @ rest"]
  by (subst readName_loop.simps) (simp add: nth_append Let_def)

lemma pointer_bits:
  assumes "d < 64"
  shows "(192 + d) AND 0xc0 = (0xc0 :: nat) \<and> (192 + d) AND 0x3f = d"
proof
  have "192 + d = 192 OR d"
    using low_bits_zero [OF assms] by (intro disjunctive_add_eq_or) (simp add: and.commute)
  moreover have "(192 OR d) AND 192 = 192"
    by (rule bit_eqI) (simp only: bit_and_iff bit_or_iff, blast)
  ultimately show "(192 + d) AND 0xc0 = (0xc0 :: nat)" by simp
  have "(192 + d) AND 0x3f = take_bit 6 (192 + d)" by (simp add: take_bit_eq_mask mask_eq_exp_minus_1)
  also have "\<dots> = d" using assms by (simp add: take_bit_eq_mod mod_add_left_eq [symmetric])
  finally show "(192 + d) AND 0x3f = d" .
qed

lemma compression_pointer_encode:
  assumes "p < 16384"
  shows "compression_pointer (192 + p div 256) (p mod 256) = p"
proof -
  have "p div 256 < 64" using assms by auto
  then have "compression_pointer (192 + p div 256) (p mod 256) = push_bit 8 (p div 256) OR take_bit 8 p"
    by (simp add: compression_pointer_def pointer_bits take_bit_eq_mod)
  also have "\<dots> = p"
  proof -
    have "push_bit 8 q AND take_bit 8 p = 0" for q
      by (rule bit_eqI) (simp only: bit_and_iff bit_push_bit_iff_nat bit_take_bit_iff bit_0_eq, auto)
    then show ?thesis
      using bits_ident [of 8 p] by (simp add: disjunctive_add_eq_or [symmetric] drop_bit_eq_div)
  qed
  finally show ?thesis .
qed

text \<open>
  C22. Reading a name gives back the labels that were written: an uncompressed name anywhere in a
  packet, and a compressed one whose pointer refers to such a name, yield their labels joined by
  dots and the offset of what follows them in the packet.
\<close>

theorem readName_roundtrip:
  assumes "dns_labels labels" and "dns_labels suffix" and "length pre < 16384"
  shows "readName (pre @ encode_name labels @ rest) (length pre) =
      Some (Inr (strings_Join labels ''.'', length (pre @ encode_name labels))) \<and>
    readName (pre @ encode_name suffix @ mid @ encode_compressed labels (length pre) @ rest)
        (length (pre @ encode_name suffix @ mid)) =
      Some (Inr (strings_Join (labels @ suffix) ''.'',
        length (pre @ encode_name suffix @ mid @ encode_compressed labels (length pre))))"
proof
  show "readName (pre @ encode_name labels @ rest) (length pre) =
      Some (Inr (strings_Join labels ''.'', length (pre @ encode_name labels)))"
    by (simp add: readName_def readName_encode_name [OF assms(1)])
  let ?p = "length pre"
  let ?pre = "pre @ encode_name suffix @ mid"
  let ?ptr = "[of_nat (192 + ?p div 256), of_nat (?p mod 256)] :: u8 list"
  let ?packet = "?pre @ encode_labels labels @ ?ptr @ rest"
  let ?at = "length (?pre @ encode_labels labels)"
  have high: "?p div 256 < 64" using assms(3) by auto
  have bytes: "unat (?packet ! ?at) = 192 + ?p div 256" "unat (?packet ! (?at + 1)) = ?p mod 256"
  proof -
    let ?q = "?pre @ encode_labels labels"
    have "?packet ! ?at = (?q @ of_nat (192 + ?p div 256) # of_nat (?p mod 256) # rest) ! length ?q" by simp
    also have "\<dots> = of_nat (192 + ?p div 256)" by (rule nth_append_length)
    finally show "unat (?packet ! ?at) = 192 + ?p div 256" using high by (simp only: unat_of_nat) simp
    have "?packet ! (?at + 1) =
        ((?q @ [of_nat (192 + ?p div 256)]) @ of_nat (?p mod 256) # rest) ! length (?q @ [of_nat (192 + ?p div 256) :: u8])"
      by simp
    also have "\<dots> = of_nat (?p mod 256)" by (rule nth_append_length)
    finally show "unat (?packet ! (?at + 1)) = ?p mod 256" by (simp add: unat_of_nat)
  qed
  have "readName ?packet (length ?pre) = readName_loop ?packet ?at ([] @ labels) (length ?pre) False []"
    unfolding readName_def by (rule readName_loop_labels [OF assms(1)])
  also have "\<dots> = readName_loop ?packet ?p labels (?at + 2) True [?p]"
    using bytes pointer_bits [OF high] compression_pointer_encode [OF assms(3)]
    by (subst readName_loop.simps) (simp add: Let_def)
  also have "?packet = pre @ encode_name suffix @ (mid @ encode_labels labels @ ?ptr @ rest)" by simp
  also have "readName_loop \<dots> ?p labels (?at + 2) True [?p] = Some (Inr (strings_Join (labels @ suffix) ''.'', ?at + 2))"
    by (subst readName_encode_name [OF assms(2)]) simp
  finally show "readName (pre @ encode_name suffix @ mid @ encode_compressed labels (length pre) @ rest)
        (length (pre @ encode_name suffix @ mid)) =
      Some (Inr (strings_Join (labels @ suffix) ''.'',
        length (pre @ encode_name suffix @ mid @ encode_compressed labels (length pre))))"
    by (simp add: encode_compressed_def)
qed

theorem readName_roundtrip_witness:
  "readName ([1, 2] @ encode_name [''example'', ''com''] @ [9] @ encode_compressed [''www''] 2 @ [7]) 16 =
     Some (Inr (''www.example.com'', 22))"
proof -
  have "length (encode_name [''example'', ''com'']) = 13" "length (encode_compressed [''www''] 2) = 6"
    by code_simp+
  then show ?thesis
    using readName_roundtrip [of "[''www'']" "[''example'', ''com'']" "[1, 2]" "[7]" "[9]"]
    by (simp add: dns_labels_def numeral_2_eq_2)
qed

section \<open>Answers that must not be cached\<close>

text \<open>
  An answer with a time to live of zero, which a resolver must not keep, becomes a record without
  expiry, which the compiler honours forever; beside an answer with a positive time to live it
  takes that one instead of the shortest.
\<close>

theorem zero_ttl_answer_never_expires:
  "dnsRecords (appendRecord [] name ip 0) observedAt =
     [\<lparr>dns_Name = name, dns_IPs = [ip], dns_TTLSeconds = 0, dns_ObservedAt = zero_time\<rparr>] \<and>
   \<not> DNSRecord_IsExpired \<lparr>dns_Name = name, dns_IPs = [ip], dns_TTLSeconds = 0, dns_ObservedAt = zero_time\<rparr> now clock \<and>
   (ip \<noteq> ip' \<longrightarrow> rr_ttl (gomap_get zero_rrset (appendRecord (appendRecord [] name ip 0) name ip' 60) name) = 60)"
  by (auto simp: dnsRecords_def appendRecord_def gomap_get_def zero_rrset_def sort_SliceStable_def sort_Strings_def
      DNSRecord_IsExpired_def Let_def)

end
