(* ===== verification/AddrText.thy ===== *)
theory AddrText
  imports Netip Strings
begin

text \<open>
  The text of an address determines the address: \<open>Addr.String\<close> of \<open>net/netip\<close> is injective, for IPv4
  addresses, for IPv6 addresses with the longest run of zero groups left out, and with zones. The maps
  of the program that are indexed by printed addresses rest on it.
\<close>

section \<open>Digits\<close>

definition hex_char :: "char \<Rightarrow> bool" where
  "hex_char c \<longleftrightarrow> is_digit c \<or> 97 \<le> (of_char c :: nat) \<and> (of_char c :: nat) \<le> 102"

definition digit_value :: "char \<Rightarrow> nat" where
  "digit_value c = (if is_digit c then of_char c - 48 else of_char c - 87)"

lemma digit_char_value: "d < 16 \<Longrightarrow> digit_value (digit_char d) = d \<and> hex_char (digit_char d)"
  by (simp add: digit_value_def hex_char_def is_digit_def digit_char_def of_char_mod_256)

lemma hex_digits:
  "foldl (\<lambda>n c. n * 16 + digit_value c) 0 (digits_base 16 n) = n \<and> list_all hex_char (digits_base 16 n) \<and> digits_base 16 n \<noteq> []"
proof (induction n rule: less_induct)
  case (less n)
  show ?case
  proof (cases "n < 16")
    case True
    then show ?thesis using digit_char_value [of n] by (subst (1 2 3) digits_base.simps) simp
  next
    case False
    then have "n div 16 < n" by simp
    from less [OF this] False digit_char_value [of "n mod 16"] show ?thesis
      by (subst (1 2 3) digits_base.simps) simp
  qed
qed

lemma hex_digits_inj: "digits_base 16 m = digits_base 16 n \<longleftrightarrow> m = n"
  using hex_digits [of m] hex_digits [of n] by metis

lemma hex_digits_nonempty: "digits_base 16 n \<noteq> []" "[] \<noteq> digits_base 16 n"
  using hex_digits by metis+

lemma hex_char_seps: "\<not> hex_char (CHR '':'')" "\<not> hex_char (CHR ''.'')" "\<not> hex_char (CHR ''%'')" "\<not> hex_char (CHR '','')" "\<not> hex_char (CHR ''/'')"
  "\<not> hex_char (CHR ''|'')" "\<not> hex_char (CHR '' '')"
  by (simp_all add: hex_char_def is_digit_def)

lemma hex_digits_sep: "CHR '':'' \<notin> set (digits_base 16 n)"
  using hex_digits [of n] hex_char_seps(1) by (auto simp: list_all_iff)

section \<open>Groups\<close>

definition group_fields :: "nat list \<Rightarrow> string list" where
  "group_fields gs = (if gs = [] then [[]] else map (digits_base 16) gs)"

lemma split_hex_groups: "strings_Split (hex_groups gs) (CHR '':'') = group_fields gs"
  using hex_digits_sep strings_Split_Join [of "map (digits_base 16) gs" "CHR '':''"]
  by (auto simp: hex_groups_def group_fields_def)

lemma group_fields_inj: "group_fields xs = group_fields ys \<longleftrightarrow> xs = ys"
proof
  assume "group_fields xs = group_fields ys"
  then show "xs = ys"
    using hex_digits_nonempty inj_map_eq_map [of "digits_base 16" xs ys]
    by (cases xs; cases ys) (auto simp: group_fields_def hex_digits_inj inj_def)
qed simp

lemma split_compressed:
  "strings_Split (hex_groups xs @ ''::'' @ hex_groups ys) (CHR '':'') = group_fields xs @ [] # group_fields ys"
  by (simp add: strings_Split_append_sep split_hex_groups)

lemma compressed_inj:
  assumes "group_fields xs @ [] # group_fields ys = group_fields xs' @ [] # group_fields ys'"
  shows "xs = xs' \<and> ys = ys'"
proof (cases "xs = [] \<or> xs' = []")
  case True
  with assms have "xs = xs'"
    by (cases xs; cases xs') (auto simp: group_fields_def hex_digits_nonempty)
  with assms show ?thesis by (simp add: group_fields_inj)
next
  case False
  have nonempty: "takeWhile (\<lambda>t. t \<noteq> []) (map (digits_base 16) gs @ [] # r) = map (digits_base 16) gs" for gs r
    by (induction gs) (simp_all add: hex_digits_nonempty)
  have "map (digits_base 16) xs = map (digits_base 16) xs'"
    using False arg_cong [OF assms, of "takeWhile (\<lambda>t. t \<noteq> [])"] by (simp add: group_fields_def nonempty)
  then have "group_fields xs = group_fields xs'" using False by (simp add: group_fields_def)
  with assms show ?thesis by (simp add: group_fields_inj)
qed

lemma zero_run_zeros: "zero_run gs \<le> length gs \<and> take (zero_run gs) gs = replicate (zero_run gs) 0"
  by (induction gs) auto

lemma longest_zero_run_zeros:
  assumes "longest_zero_run gs = (s, e)" and "length gs = 8"
  shows "(s, e) = (255, 255) \<or> s \<le> e \<and> e \<le> 8 \<and> gs = take s gs @ replicate (e - s) 0 @ drop e gs"
proof -
  let ?ok = "\<lambda>(s, e). (s, e) = (255, 255) \<or> s \<le> e \<and> e \<le> 8 \<and> gs = take s gs @ replicate (e - s) 0 @ drop e gs"
  have run: "gs = take i gs @ replicate (zero_run (drop i gs)) 0 @ drop (i + zero_run (drop i gs)) gs \<and> i + zero_run (drop i gs) \<le> 8" if "i < 8" for i
  proof -
    have "drop i gs = replicate (zero_run (drop i gs)) 0 @ drop (zero_run (drop i gs)) (drop i gs)"
      using zero_run_zeros [of "drop i gs"] append_take_drop_id [of "zero_run (drop i gs)" "drop i gs"] by simp
    moreover have "i + zero_run (drop i gs) \<le> 8" using zero_run_zeros [of "drop i gs"] assms(2) that by auto
    ultimately show ?thesis using append_take_drop_id [of i gs] by (metis add.commute drop_drop)
  qed
  have "?ok (fold (better_zero_run gs) is best)" if "?ok best" "\<forall>i \<in> set is. i < 8" for "is" best
    using that
  proof (induction "is" arbitrary: best)
    case (Cons i "is")
    have "?ok (better_zero_run gs i best)"
      using Cons.prems run [of i] by (auto simp: better_zero_run_def Let_def)
    then show ?case using Cons by simp
  qed simp
  from this [of "(255, 255)" "[0..<8]"] assms(1) show ?thesis by (simp add: longest_zero_run_def)
qed

lemma v6_groups_inj: "v6_groups w = v6_groups w' \<longleftrightarrow> w = w'"
proof
  assume "v6_groups w = v6_groups w'"
  then have same: "(ucast (drop_bit (16 * k) w) :: u16) = ucast (drop_bit (16 * k) w')" if "k < 8" for k
    using that by (simp add: v6_groups_def word_unat_eq_iff)
  show "w = w'"
  proof (rule bit_word_eqI)
    fix n
    assume "n < LENGTH(128)"
    then have "n div 16 < 8" by simp
    from arg_cong [OF same [OF this], of "\<lambda>v. bit v (n mod 16)"] show "bit w n = bit w' n"
      by (simp add: bit_ucast_iff bit_drop_bit_eq)
  qed
qed simp

definition v6_fields :: "128 word \<Rightarrow> string list" where
  "v6_fields w = strings_Split (v6_String w) (CHR '':'')"

lemma v6_fields_cases:
  obtains (full) "v6_fields w = group_fields (v6_groups w)"
  | (compressed) s e where "v6_fields w = group_fields (take s (v6_groups w)) @ [] # group_fields (drop e (v6_groups w))"
      and "s \<le> e" "e \<le> 8" "v6_groups w = take s (v6_groups w) @ replicate (e - s) 0 @ drop e (v6_groups w)"
proof -
  obtain s e where run: "longest_zero_run (v6_groups w) = (s, e)" by (cases "longest_zero_run (v6_groups w)")
  have len: "length (v6_groups w) = 8" by (simp add: v6_groups_def)
  show thesis
  proof (cases "s = 255")
    case True
    then show ?thesis using run full by (simp add: v6_fields_def v6_String_def split_hex_groups)
  next
    case False
    then show ?thesis
      using run longest_zero_run_zeros [OF run len] compressed [of s e]
      by (simp add: v6_fields_def v6_String_def Let_def split_compressed [simplified])
  qed
qed

lemma full_no_empty_field: "[] \<notin> set (group_fields (v6_groups w))"
  by (auto simp: group_fields_def v6_groups_def hex_digits_nonempty)

lemma v6_String_inj:
  assumes "v6_String w = v6_String w'"
  shows "w = w'"
proof -
  have same: "v6_fields w = v6_fields w'" using assms by (simp add: v6_fields_def)
  have len: "length (v6_groups v) = 8" for v by (simp add: v6_groups_def)
  have "v6_groups w = v6_groups w'"
  proof (cases rule: v6_fields_cases [of w])
    case full
    then show ?thesis
      using same full_no_empty_field [of w]
      by (cases rule: v6_fields_cases [of w']) (simp_all add: group_fields_inj, metis in_set_conv_decomp)
  next
    case left: (compressed s e)
    show ?thesis
    proof (cases rule: v6_fields_cases [of w'])
      case full
      then show ?thesis using same left(1) full_no_empty_field [of w'] by (metis in_set_conv_decomp)
    next
      case (compressed s' e')
      then have parts: "take s (v6_groups w) = take s' (v6_groups w')" "drop e (v6_groups w) = drop e' (v6_groups w')"
        using same left(1) compressed_inj by metis+
      have "s = s'" using arg_cong [OF parts(1), of length] left(2,3) compressed(2,3) by (simp add: len)
      moreover have "e = e'" using arg_cong [OF parts(2), of length] left(3) compressed(3) by (simp add: len)
      ultimately show ?thesis using parts left(4) compressed(4) by metis
    qed
  qed
  then show ?thesis by (simp add: v6_groups_inj)
qed

section \<open>Addresses\<close>

lemma word_bytes_inj: "word_bytes (w :: u32) = word_bytes w' \<longleftrightarrow> w = w'"
proof
  assume "word_bytes w = word_bytes w'"
  then have "(bytes_word (word_bytes w) :: u32) = bytes_word (word_bytes w')" by simp
  then show "w = w'" by simp
qed simp

lemma nat_Itoa_no_dot: "CHR ''.'' \<notin> set (nat_Itoa n)"
  using nat_Itoa_chars [of "CHR ''.''" n] by (auto simp: is_digit_def)

lemma v4_String_inj: "v4_String w = v4_String w' \<longleftrightarrow> w = w'"
proof
  assume "v4_String w = v4_String w'"
  then have "map (\<lambda>b. nat_Itoa (unat b)) (word_bytes w) = map (\<lambda>b. nat_Itoa (unat b)) (word_bytes w')"
    unfolding v4_String_def by (rule strings_Join_inj) (use nat_Itoa_decimal in \<open>auto simp: nat_Itoa_no_dot\<close>)
  then have "word_bytes w = word_bytes w'"
    by (rule list.inj_map_strong [rotated]) (simp add: nat_Itoa_inj word_unat_eq_iff)
  then show "w = w'" by (simp add: word_bytes_inj)
qed simp

lemma strings_Join_chars: "set (strings_Join xs s) \<subseteq> \<Union> (set ` set xs) \<union> set s"
  by (induction xs s rule: strings_Join.induct) auto

lemma v4_String_chars: "set (v4_String w) \<subseteq> Collect is_digit \<union> {CHR ''.''}"
  using strings_Join_chars [of "map (\<lambda>b. nat_Itoa (unat b)) (word_bytes w)" "''.''"] nat_Itoa_chars
  unfolding v4_String_def by fastforce

lemma v4_String_dot: "CHR ''.'' \<in> set (v4_String w)"
  by (simp add: v4_String_def word_bytes_def upt_rec)

lemma hex_groups_chars: "set (hex_groups gs) \<subseteq> Collect hex_char \<union> {CHR '':''}"
  using strings_Join_chars [of "map (digits_base 16) gs" "'':''"] hex_digits
  unfolding hex_groups_def by (fastforce simp: list_all_iff)

lemma v6_String_chars: "set (v6_String w) \<subseteq> Collect hex_char \<union> {CHR '':''}"
  using hex_groups_chars by (auto simp: v6_String_def Let_def split: prod.splits if_splits)

text \<open>An address without its zone, and the zone after it.\<close>

definition v6_body :: "128 word \<Rightarrow> string" where
  "v6_body w = (if addr_Is4In6 (V6 w []) then ''::ffff:'' @ v4_String (ucast w) else v6_String w)"

lemma v6_body_inj:
  assumes "v6_body w = v6_body w'"
  shows "w = w'"
proof -
  have plain: "CHR ''.'' \<notin> set (v6_String v)" for v
    using v6_String_chars [of v] hex_char_seps by auto
  have dotted: "CHR ''.'' \<in> set (v6_body v) \<longleftrightarrow> drop_bit 32 v = 65535" for v
    using plain [of v] v4_String_dot by (simp add: v6_body_def)
  consider "drop_bit 32 w = 65535" "drop_bit 32 w' = 65535" | "drop_bit 32 w \<noteq> 65535" "drop_bit 32 w' \<noteq> 65535"
    using assms dotted [of w] dotted [of w'] by auto
  then show ?thesis
  proof cases
    case 1
    then have "(ucast w :: u32) = ucast w'" using assms by (simp add: v6_body_def v4_String_inj)
    then have low: "bit w n = bit w' n" if "n < 32" for n
      using that bit_ucast_iff [of w n, where ?'a = 32] bit_ucast_iff [of w' n, where ?'a = 32] by simp
    from 1 have "drop_bit 32 w = drop_bit 32 w'" by simp
    then have high: "bit w n = bit w' n" if "32 \<le> n" for n
      using that bit_drop_bit_eq [of 32 w] bit_drop_bit_eq [of 32 w'] by (auto dest: fun_cong [of _ _ "n - 32"])
    show ?thesis
    proof (rule bit_word_eqI)
      fix n show "bit w n = bit w' n" using low [of n] high [of n] by linarith
    qed
  next
    case 2
    then show ?thesis using assms v6_String_inj by (simp add: v6_body_def)
  qed
qed

lemma v6_body_chars: "set (v6_body w) \<subseteq> Collect hex_char \<union> {CHR '':'', CHR ''.''}"
  using v6_String_chars [of w] v4_String_chars [of "ucast w"]
  by (auto simp: v6_body_def hex_char_def)

lemma v6_body_colon: "CHR '':'' \<in> set (v6_body w)"
  by (cases "longest_zero_run (v6_groups w)")
    (auto simp: v6_body_def v6_String_def Let_def hex_groups_def, simp add: v6_groups_def upt_rec)

definition zone_text :: "string \<Rightarrow> string" where
  "zone_text z = (if z = [] then [] else CHR ''%'' # z)"

lemma addr_String_V6: "addr_String (V6 w z) = v6_body w @ zone_text z"
  by (simp add: v6_body_def zone_text_def)

lemma before_zone: "takeWhile (\<lambda>c. c \<noteq> CHR ''%'') (v6_body w @ zone_text z) = v6_body w"
  using v6_body_chars [of w] hex_char_seps by (subst takeWhile_append2) (auto simp: zone_text_def)

lemma addr_String_kind:
  "CHR '':'' \<notin> set (v4_String w)" "CHR '' '' \<notin> set (v4_String w)" "hd (v6_body v @ zone_text z) \<noteq> CHR ''i''"
proof -
  show "CHR '':'' \<notin> set (v4_String w)" "CHR '' '' \<notin> set (v4_String w)"
    using v4_String_chars [of w] by (auto simp: is_digit_def)
  have "hd (v6_body v) \<in> set (v6_body v)" using v6_body_colon [of v] by (cases "v6_body v") auto
  moreover have "CHR ''i'' \<notin> set (v6_body v)" using v6_body_chars [of v] by (auto simp: hex_char_def is_digit_def)
  ultimately show "hd (v6_body v @ zone_text z) \<noteq> CHR ''i''"
    using v6_body_colon [of v] by (cases "v6_body v") auto
qed

lemma addr_String_apart:
  "addr_String ZeroAddr \<noteq> addr_String (V4 w)" "addr_String ZeroAddr \<noteq> addr_String (V6 v z)"
  "addr_String (V4 w) \<noteq> addr_String (V6 v z)"
proof -
  show "addr_String ZeroAddr \<noteq> addr_String (V4 w)"
    using addr_String_kind(2) [of w] by (metis addr_String.simps(1,2) list.set_intros)
  show "addr_String ZeroAddr \<noteq> addr_String (V6 v z)"
    using addr_String_kind(3) [of v z] by (metis addr_String.simps(1) addr_String_V6 list.sel(1))
  show "addr_String (V4 w) \<noteq> addr_String (V6 v z)"
    using addr_String_kind(1) [of w] v6_body_colon [of v]
    by (metis Un_iff addr_String.simps(2) addr_String_V6 set_append)
qed

lemma addr_String_V4: "addr_String (V4 w) = addr_String (V4 w') \<longleftrightarrow> w = w'"
  by (simp add: v4_String_inj)

theorem addr_String_inj: "addr_String a = addr_String b \<longleftrightarrow> a = b"
proof
  assume same: "addr_String a = addr_String b"
  show "a = b"
  proof (cases a; cases b)
    fix w z w' z'
    assume ab: "a = V6 w z" "b = V6 w' z'"
    have "v6_body w = v6_body w'"
      using same before_zone [of w z] before_zone [of w' z'] ab addr_String_V6 by metis
    then have "w = w'" by (rule v6_body_inj)
    moreover from this have "z = z'"
      using same ab by (auto simp: addr_String_V6 zone_text_def simp del: addr_String.simps split: if_splits)
    ultimately show "a = b" using ab by simp
  qed (use same in \<open>simp_all only: addr_String_apart addr_String_apart [symmetric] addr_String_V4\<close>)
qed simp

lemma addr_String_nonempty: "addr_String a \<noteq> []"
proof (cases a)
  case (V4 w)
  then show ?thesis using v4_String_dot [of w] by auto
next
  case (V6 w z)
  then show ?thesis using v6_body_colon [of w] by (auto simp: addr_String_V6 simp del: addr_String.simps)
qed simp

text \<open>Only a zone brings other characters into the text of a valid address.\<close>

lemma addr_String_chars:
  assumes "addr_IsValid a" and "addr_Zone a = []"
  shows "set (addr_String a) \<subseteq> Collect hex_char \<union> {CHR '':'', CHR ''.''}"
proof (cases a)
  case (V4 w)
  then show ?thesis using v4_String_chars [of w] by (auto simp: hex_char_def)
next
  case (V6 w z)
  then show ?thesis
    using v6_body_chars [of w] assms by (simp add: addr_String_V6 zone_text_def del: addr_String.simps)
qed (use assms in \<open>simp add: addr_IsValid_def\<close>)

end
