(* ===== verification/Observations.thy ===== *)
theory Observations
  imports Validate AddrText
begin

text \<open>
  Observed DNS records, \<open>internal/control/dns_observation.go\<close>: validation, merging with the records
  of the desired state and pruning of expired ones. The JSON documents they travel in are not
  modelled; the functions here take and return the decoded records.
\<close>

section \<open>Merging\<close>

definition canonicalDNSName :: "string \<Rightarrow> string" where
  "canonicalDNSName name = strings_TrimSuffix (strings_ToLower (strings_TrimSpace name)) ''.''"

definition canonicalDNSRecordKey :: "DNSRecord \<Rightarrow> string" where
  "canonicalDNSRecordKey record =
     canonicalDNSName (dns_Name record) @ ''|'' @
     strings_Join (sort_Strings (map addr_String (dns_IPs record))) '',''"

definition preferredDNSRecord :: "DNSRecord \<Rightarrow> DNSRecord \<Rightarrow> DNSRecord" where
  "preferredDNSRecord current candidate =
     (if dns_TTLSeconds current = 0 then current
      else if dns_TTLSeconds candidate = 0 then candidate
      else if dns_ObservedAt candidate > dns_ObservedAt current then candidate
      else current)"

definition validateDNSRecords :: "DNSRecord list \<Rightarrow> DNSRecord list result" where
  "validateDNSRecords records =
     bind_result
       (range_check (\<lambda>i r. wrap_error (Wrapf ''dns record %d: %w'' [nat_Itoa i]) (DNSRecord_Validate r)) records)
       (\<lambda>_. Inr records)"

text \<open>
  A loop that keeps the first record of every key at its place and replaces it by the preferred one
  of it and every later record with the same key; records of names and identity groups are both
  compacted by it.
\<close>

definition compact_step ::
    "('a \<Rightarrow> string) \<Rightarrow> ('a \<Rightarrow> 'a \<Rightarrow> 'a) \<Rightarrow> 'a \<Rightarrow> (string, nat) gomap \<times> 'a list \<Rightarrow> (string, nat) gomap \<times> 'a list" where
  "compact_step key pick record s =
     (case s of (index, out) \<Rightarrow>
      case map_of index (key record) of
        Some pos \<Rightarrow> (index, out[pos := pick (out ! pos) record])
      | None \<Rightarrow> (AList.update (key record) (length out) index, out @ [record]))"

definition compact_by :: "('a \<Rightarrow> string) \<Rightarrow> ('a \<Rightarrow> 'a \<Rightarrow> 'a) \<Rightarrow> 'a list \<Rightarrow> 'a list" where
  "compact_by key pick records = snd (fold (compact_step key pick) records ([], []))"

definition compactDNSRecords :: "DNSRecord list \<Rightarrow> DNSRecord list" where
  "compactDNSRecords records = compact_by canonicalDNSRecordKey preferredDNSRecord records"

definition dns_record_less :: "DNSRecord \<Rightarrow> DNSRecord \<Rightarrow> bool" where
  "dns_record_less a b =
     (let left = canonicalDNSName (dns_Name a); right = canonicalDNSName (dns_Name b)
      in if left \<noteq> right then left < right else dns_ObservedAt a < dns_ObservedAt b)"

definition MergeDNSRecords :: "DNSRecord list \<Rightarrow> DNSRecord list \<Rightarrow> DNSRecord list result" where
  "MergeDNSRecords base observed =
     bind_result (validateDNSRecords base) (\<lambda>base.
     bind_result (validateDNSRecords observed) (\<lambda>observed.
       Inr (sort_SliceStable dns_record_less (compactDNSRecords (base @ observed)))))"

definition PruneExpiredDNSRecords :: "DNSRecord list \<Rightarrow> time \<Rightarrow> time \<Rightarrow> DNSRecord list result" where
  "PruneExpiredDNSRecords records now clock =
     bind_result (validateDNSRecords records) (\<lambda>validated.
       let now = (if time_IsZero now then clock else now)
       in Inr (filter (\<lambda>record. \<not> DNSRecord_IsExpired record now clock) validated))"


section \<open>What is kept of several records for the same name and addresses\<close>

text \<open>An index maps the key of every element of a list to its position; the keys are then distinct.\<close>

definition index_ok :: "('a \<Rightarrow> 'k) \<Rightarrow> ('k, nat) gomap \<Rightarrow> 'a list \<Rightarrow> bool" where
  "index_ok key index out \<longleftrightarrow> (\<forall>k pos. map_of index k = Some pos \<longleftrightarrow> pos < length out \<and> key (out ! pos) = k)"

lemma index_okD: "index_ok key index out \<Longrightarrow> map_of index k = Some pos \<longleftrightarrow> pos < length out \<and> key (out ! pos) = k"
  by (simp add: index_ok_def)

lemma index_ok_distinct: "index_ok key index out \<Longrightarrow> distinct (map key out)"
  unfolding distinct_conv_nth index_ok_def by auto (metis option.inject)

lemma index_ok_new:
  assumes ok: "index_ok key index out" and "map_of index (key r) = None"
  shows "index_ok key (AList.update (key r) (length out) index) (out @ [r])"
  unfolding index_ok_def
proof (intro allI)
  fix k pos
  have "key (out ! i) \<noteq> key r" if "i < length out" for i
    using assms(2) index_okD [OF ok] that by (metis option.distinct(1))
  then show "map_of (AList.update (key r) (length out) index) k = Some pos \<longleftrightarrow>
      pos < length (out @ [r]) \<and> key ((out @ [r]) ! pos) = k"
    using index_okD [OF ok, of k pos] by (cases "pos = length out") (auto simp: update_conv' nth_append)
qed

lemma index_ok_update:
  assumes ok: "index_ok key index out" and "\<And>i. i = pos \<Longrightarrow> i < length out \<Longrightarrow> key r = key (out ! i)"
  shows "index_ok key index (out[pos := r])"
  unfolding index_ok_def
proof (intro allI)
  fix k i
  have "key (out[pos := r] ! i) = key (out ! i)" if "i < length out"
    using that assms(2) [of i] by (cases "i = pos") auto
  with index_okD [OF ok, of k i] show "map_of index k = Some i \<longleftrightarrow> i < length (out[pos := r]) \<and> key (out[pos := r] ! i) = k"
    by auto
qed

text \<open>
  The contract of a preference: it chooses one of the two elements, and the one chosen is at least
  as good as both, in a preorder on the elements of a key.
\<close>

locale preference =
  fixes pick :: "'a \<Rightarrow> 'a \<Rightarrow> 'a" and at_least :: "'a \<Rightarrow> 'a \<Rightarrow> bool"
  assumes pick_cases: "pick a b \<in> {a, b}"
    and pick_at_least: "at_least (pick a b) a" "at_least (pick a b) b"
    and at_least_refl: "at_least a a"
    and at_least_trans: "at_least a b \<Longrightarrow> at_least b c \<Longrightarrow> at_least a c"
begin

text \<open>
  The invariant of the loop after the records \<open>handled\<close>: the index maps the key of every record
  kept to its position, and the record kept for a key is one of the records handled that no other
  one beats.
\<close>

definition compact_inv :: "('a \<Rightarrow> string) \<Rightarrow> 'a list \<Rightarrow> (string, nat) gomap \<times> 'a list \<Rightarrow> bool" where
  "compact_inv key handled s \<longleftrightarrow>
     index_ok key (fst s) (snd s) \<and>
     set (snd s) \<subseteq> set handled \<and>
     (\<forall>r \<in> set handled. \<exists>pos < length (snd s). key (snd s ! pos) = key r \<and> at_least (snd s ! pos) r)"

lemma compact_invI:
  assumes "index_ok key index out"
    and "set out \<subseteq> set handled"
    and "\<And>r. r \<in> set handled \<Longrightarrow> \<exists>pos < length out. key (out ! pos) = key r \<and> at_least (out ! pos) r"
  shows "compact_inv key handled (index, out)"
  using assms by (simp add: compact_inv_def)

lemma compact_inv_new:
  assumes inv: "compact_inv key handled (index, out)" and None: "map_of index (key r) = None"
  shows "compact_inv key (handled @ [r]) (AList.update (key r) (length out) index, out @ [r])"
proof (rule compact_invI)
  from inv have ok: "index_ok key index out"
    and sub: "set out \<subseteq> set handled"
    and best: "\<And>x. x \<in> set handled \<Longrightarrow> \<exists>pos < length out. key (out ! pos) = key x \<and> at_least (out ! pos) x"
    by (auto simp: compact_inv_def)
  show "index_ok key (AList.update (key r) (length out) index) (out @ [r])"
    using ok None by (rule index_ok_new)
  show "set (out @ [r]) \<subseteq> set (handled @ [r])" using sub by auto
  show "\<exists>pos < length (out @ [r]). key ((out @ [r]) ! pos) = key x \<and> at_least ((out @ [r]) ! pos) x"
    if "x \<in> set (handled @ [r])" for x
  proof (cases "x \<in> set handled")
    case True
    from best [OF this] obtain pos where "pos < length out" "key (out ! pos) = key x" "at_least (out ! pos) x" by auto
    then show ?thesis by (intro exI [of _ pos]) (simp add: nth_append)
  next
    case False
    with that have "x = r" by simp
    then show ?thesis using at_least_refl by (intro exI [of _ "length out"]) (simp add: nth_append)
  qed
qed

lemma compact_inv_again:
  assumes inv: "compact_inv key handled (index, out)" and Some: "map_of index (key r) = Some pos"
  shows "compact_inv key (handled @ [r]) (index, out[pos := pick (out ! pos) r])"
proof (rule compact_invI)
  let ?p = "pick (out ! pos) r"
  from inv have ok: "index_ok key index out"
    and sub: "set out \<subseteq> set handled"
    and best: "\<And>x. x \<in> set handled \<Longrightarrow> \<exists>pos < length out. key (out ! pos) = key x \<and> at_least (out ! pos) x"
    by (auto simp: compact_inv_def)
  from Some ok have pos: "pos < length out" "key (out ! pos) = key r" by (auto dest: index_okD)
  then have key: "key (out[pos := ?p] ! i) = key (out ! i)" if "i < length out" for i
    using that pick_cases [of "out ! pos" r] by (cases "i = pos") auto
  have better: "at_least (out[pos := ?p] ! i) (out ! i)" if "i < length out" for i
    using that pick_at_least(1) at_least_refl by (cases "i = pos") auto
  show "index_ok key index (out[pos := ?p])"
    using pos pick_cases [of "out ! pos" r] by (intro index_ok_update [OF ok]) auto
  show "set (out[pos := ?p]) \<subseteq> set (handled @ [r])"
    using set_update_subset_insert [of out pos ?p] pick_cases [of "out ! pos" r] pos(1) sub by auto
  show "\<exists>i < length (out[pos := ?p]). key (out[pos := ?p] ! i) = key x \<and> at_least (out[pos := ?p] ! i) x"
    if "x \<in> set (handled @ [r])" for x
  proof (cases "x \<in> set handled")
    case True
    from best [OF this] obtain i where "i < length out" "key (out ! i) = key x" "at_least (out ! i) x" by auto
    then show ?thesis using key at_least_trans [OF better] by (intro exI [of _ i]) auto
  next
    case False
    with that have "x = r" by simp
    then show ?thesis using pos key [OF pos(1)] pick_at_least(2) by (intro exI [of _ pos]) simp
  qed
qed

lemma compact_inv_step:
  assumes "compact_inv key handled s"
  shows "compact_inv key (handled @ [r]) (compact_step key pick r s)"
proof -
  obtain index out where s: "s = (index, out)" by fastforce
  with assms compact_inv_new [of key handled index out r] compact_inv_again [of key handled index out r] show ?thesis
    by (cases "map_of index (key r)") (simp_all add: compact_step_def)
qed

lemma compact_inv_fold:
  "compact_inv key handled s \<Longrightarrow> compact_inv key (handled @ records) (fold (compact_step key pick) records s)"
proof (induction records arbitrary: handled s)
  case (Cons r records)
  from Cons.IH [OF compact_inv_step [OF Cons.prems, of r]] show ?case by simp
qed simp

lemma compact_result:
  "distinct (map key (compact_by key pick records)) \<and> set (compact_by key pick records) \<subseteq> set records \<and>
   (\<forall>r \<in> set records. \<exists>m \<in> set (compact_by key pick records). key m = key r \<and> at_least m r)"
proof -
  let ?out = "compact_by key pick records"
  obtain index where "fold (compact_step key pick) records ([], []) = (index, ?out)"
    by (cases "fold (compact_step key pick) records ([], [])") (simp add: compact_by_def)
  with compact_inv_fold [of key "[]" "([], [])" records] have "compact_inv key records (index, ?out)"
    by (simp add: compact_inv_def index_ok_def)
  then have idx: "index_ok key index ?out"
    and rest: "set ?out \<subseteq> set records"
      "\<And>r. r \<in> set records \<Longrightarrow> \<exists>pos < length ?out. key (?out ! pos) = key r \<and> at_least (?out ! pos) r"
    by (simp_all add: compact_inv_def)
  show ?thesis using index_ok_distinct [OF idx] rest nth_mem by blast
qed

end

text \<open>A record without expiry before all others, then the one observed last.\<close>

definition fresher :: "u32 \<Rightarrow> time \<Rightarrow> u32 \<Rightarrow> time \<Rightarrow> bool" where
  "fresher ttl observed ttl' observed' \<longleftrightarrow> ttl = 0 \<or> (ttl' \<noteq> 0 \<and> observed' \<le> observed)"

interpretation dns_preference: preference preferredDNSRecord
  "\<lambda>m r. fresher (dns_TTLSeconds m) (dns_ObservedAt m) (dns_TTLSeconds r) (dns_ObservedAt r)"
  by unfold_locales (auto simp: preferredDNSRecord_def fresher_def)

interpretation dns_order: strict_weak_order dns_record_less
  unfolding dns_record_less_def Let_def by (rule lexicographic_strict_weak_order)

lemma validateDNSRecords_Inr: "validateDNSRecords records = Inr out \<longleftrightarrow> out = records \<and> is_ok (validateDNSRecords records)"
  by (auto simp: validateDNSRecords_def bind_result_def is_ok_def split: sum.splits)

text \<open>
  Two names are the same host when, without the space around them and without a final dot, they
  differ at most in the case of ASCII letters; two records are the same entry when they give the same
  host the same addresses, in any order.
\<close>

definition same_letter :: "char \<Rightarrow> char \<Rightarrow> bool" where
  "same_letter c d \<longleftrightarrow> c = d \<or> (\<exists>k < 26. {c, d} = {char_of (65 + k :: nat), char_of (97 + k :: nat)})"

definition bare_host :: "string \<Rightarrow> string" where
  "bare_host name = strip_root (strings_TrimSpace name)"

definition same_host :: "string \<Rightarrow> string \<Rightarrow> bool" where
  "same_host a b \<longleftrightarrow> list_all2 same_letter (bare_host a) (bare_host b)"

definition same_entry :: "DNSRecord \<Rightarrow> DNSRecord \<Rightarrow> bool" where
  "same_entry a b \<longleftrightarrow> same_host (dns_Name a) (dns_Name b) \<and> set (dns_IPs a) = set (dns_IPs b)"

lemma char_eq_code: "(c :: char) = d \<longleftrightarrow> (of_char c :: nat) = of_char d"
  by simp

lemma to_lower_char_code:
  "(of_char (to_lower_char c) :: nat) = (if 65 \<le> (of_char c :: nat) \<and> (of_char c :: nat) \<le> 90 then of_char c + 32 else of_char c)"
  by (simp add: to_lower_char_def of_char_mod_256)

lemma to_lower_char_same: "to_lower_char c = to_lower_char d \<longleftrightarrow> same_letter c d"
proof -
  have upper: "(\<exists>k < 26. c = char_of (65 + k :: nat) \<and> d = char_of (97 + k :: nat)) \<longleftrightarrow>
      65 \<le> (of_char c :: nat) \<and> (of_char c :: nat) \<le> 90 \<and> (of_char d :: nat) = of_char c + 32" for c d
    unfolding char_eq_code by (auto simp: of_char_mod_256 intro!: exI [of _ "of_char c - 65 :: nat"] simp del: of_char_eq_iff)
  have "same_letter c d \<longleftrightarrow> c = d \<or> (\<exists>k < 26. c = char_of (65 + k :: nat) \<and> d = char_of (97 + k :: nat)) \<or>
      (\<exists>k < 26. d = char_of (65 + k :: nat) \<and> c = char_of (97 + k :: nat))"
    by (auto simp: same_letter_def doubleton_eq_iff)
  moreover have "((if 65 \<le> x \<and> x \<le> 90 then x + 32 else x) = (if 65 \<le> y \<and> y \<le> 90 then y + 32 else y)) \<longleftrightarrow>
      x = y \<or> (65 \<le> x \<and> x \<le> 90 \<and> y = x + 32) \<or> (65 \<le> y \<and> y \<le> 90 \<and> x = y + 32)" for x y :: nat
    by auto
  ultimately show ?thesis by (simp only: upper char_eq_code [of "to_lower_char c"] to_lower_char_code of_char_eq_iff)
qed

lemma to_lower_char_dot: "to_lower_char c = CHR ''.'' \<longleftrightarrow> c = CHR ''.''"
  unfolding char_eq_code to_lower_char_code by (auto simp del: of_char_eq_iff)

lemma canonicalDNSName_bare: "canonicalDNSName name = strings_ToLower (bare_host name)"
proof -
  have "strings_TrimSuffix (strings_ToLower s) ''.'' = strings_ToLower (strip_root s)" for s
    by (cases s rule: rev_cases)
      (auto simp: strip_root_def strings_TrimSuffix_def strings_HasSuffix_def strings_ToLower_def to_lower_char_dot)
  then show ?thesis by (simp add: canonicalDNSName_def bare_host_def)
qed

lemma canonicalDNSName_same_host: "canonicalDNSName a = canonicalDNSName b \<longleftrightarrow> same_host a b"
  by (auto simp: canonicalDNSName_bare same_host_def strings_ToLower_def list_eq_iff_nth_eq list_all2_conv_all_nth to_lower_char_same)

lemma sort_Strings_unique:
  assumes "distinct xs" and "distinct ys"
  shows "sort_Strings xs = sort_Strings ys \<longleftrightarrow> set xs = set ys"
proof
  show "set xs = set ys" if "sort_Strings xs = sort_Strings ys" using that by (metis set_sort_Strings)
  show "sort_Strings xs = sort_Strings ys" if "set xs = set ys"
    using that assms by (intro sorted_distinct_set_unique) (simp_all add: sort_Strings_sorted, simp_all add: sort_Strings_def)
qed

text \<open>The key of a record is its entry, where the addresses carry no zone.\<close>

definition plain_addresses :: "DNSRecord \<Rightarrow> bool" where
  "plain_addresses r \<longleftrightarrow> (\<forall>ip \<in> set (dns_IPs r). addr_Zone ip = '''')"

lemma canonicalDNSRecordKey_same_entry:
  assumes "is_ok (DNSRecord_Validate a)" "is_ok (DNSRecord_Validate b)" "plain_addresses a" "plain_addresses b"
  shows "canonicalDNSRecordKey a = canonicalDNSRecordKey b \<longleftrightarrow> same_entry a b"
proof -
  let ?texts = "\<lambda>r. sort_Strings (map addr_String (dns_IPs r))"
  have valid: "distinct (dns_IPs r) \<and> (\<forall>ip \<in> set (dns_IPs r). addr_IsValid ip \<and> addr_Zone ip = [])" if "r \<in> {a, b}" for r
    using that assms by (auto simp: DNSRecord_Validate_ok plain_addresses_def)
  have chars: "set t \<subseteq> Collect hex_char \<union> {CHR '':'', CHR ''.''} \<and> t \<noteq> []"
    if "t \<in> set (?texts r)" "r \<in> {a, b}" for t r
  proof -
    from that(1) obtain ip where ip: "ip \<in> set (dns_IPs r)" "t = addr_String ip" by auto
    with valid [OF that(2)] have "addr_IsValid ip" "addr_Zone ip = []" by auto
    with ip(2) addr_String_chars addr_String_nonempty show ?thesis by simp
  qed
  have comma: "CHR '','' \<notin> set t \<and> t \<noteq> []" if "t \<in> set (?texts r)" "r \<in> {a, b}" for t r
    using chars [OF that] hex_char_seps by auto
  have bar: "CHR ''|'' \<notin> set (strings_Join (?texts r) '','')" if "r \<in> {a, b}" for r
  proof
    assume "CHR ''|'' \<in> set (strings_Join (?texts r) '','')"
    from subsetD [OF strings_Join_chars this] obtain t where "t \<in> set (?texts r)" "CHR ''|'' \<in> set t" by auto
    with chars [OF this(1) that] hex_char_seps show False by auto
  qed
  have "canonicalDNSRecordKey a = canonicalDNSRecordKey b \<longleftrightarrow>
      canonicalDNSName (dns_Name a) = canonicalDNSName (dns_Name b) \<and> ?texts a = ?texts b"
  proof
    assume "canonicalDNSRecordKey a = canonicalDNSRecordKey b"
    then have "canonicalDNSName (dns_Name a) @ CHR ''|'' # strings_Join (?texts a) '','' =
        canonicalDNSName (dns_Name b) @ CHR ''|'' # strings_Join (?texts b) '',''"
      by (simp add: canonicalDNSRecordKey_def)
    from append_sep_inj [OF this] bar have parts: "canonicalDNSName (dns_Name a) = canonicalDNSName (dns_Name b)"
        "strings_Join (?texts a) '','' = strings_Join (?texts b) '',''"
      by simp_all
    have "?texts a = ?texts b" by (rule strings_Join_inj [OF parts(2)]) (use comma in blast)
    with parts(1) show "canonicalDNSName (dns_Name a) = canonicalDNSName (dns_Name b) \<and> ?texts a = ?texts b" by simp
  qed (simp add: canonicalDNSRecordKey_def)
  moreover have "?texts a = ?texts b \<longleftrightarrow> set (dns_IPs a) = set (dns_IPs b)"
    using valid [of a] valid [of b]
    by (simp add: sort_Strings_unique distinct_map inj_on_def addr_String_inj inj_image_eq_iff [of addr_String])
  ultimately show ?thesis by (simp add: same_entry_def canonicalDNSName_same_host)
qed

lemma distinct_map_apart: "distinct (map f xs) \<longleftrightarrow> sorted_wrt (\<lambda>a b. f a \<noteq> f b) xs"
  by (induction xs) auto

lemma validateDNSRecords_ok: "is_ok (validateDNSRecords records) \<longleftrightarrow> (\<forall>r \<in> set records. is_ok (DNSRecord_Validate r))"
proof -
  have "is_ok (range_check (\<lambda>i r. wrap_error (Wrapf ''dns record %d: %w'' [nat_Itoa i]) (DNSRecord_Validate r)) records) \<longleftrightarrow>
      (\<forall>r \<in> set records. is_ok (DNSRecord_Validate r))"
    by (rule is_ok_range_check) simp
  then show ?thesis by (auto simp: validateDNSRecords_def bind_result_def is_ok_def split: sum.splits)
qed

text \<open>
  C37. Merging observed records into those of the desired state, with addresses that carry no zone,
  keeps exactly one record for every host and set of addresses, whatever the case of the name, a
  final dot or the order of the addresses: one of the records given, without expiry if there is such
  a record, and otherwise one observed last. Records of different hosts, and records that give the
  same host different addresses, are all kept. The result is ordered by the name in lower case, and
  records of the same host by the time of observation.
\<close>

theorem MergeDNSRecords_result:
  assumes "MergeDNSRecords base observed = Inr merged"
    and "\<And>r. r \<in> set base \<union> set observed \<Longrightarrow> plain_addresses r"
  shows "sorted_wrt (\<lambda>a b. \<not> same_entry a b) merged \<and> set merged \<subseteq> set base \<union> set observed \<and>
    (\<forall>r \<in> set base \<union> set observed. \<exists>m \<in> set merged. same_entry m r \<and>
       (dns_TTLSeconds m = 0 \<or> dns_TTLSeconds r \<noteq> 0 \<and> dns_ObservedAt r \<le> dns_ObservedAt m)) \<and>
    sorted_wrt (\<lambda>a b. strings_ToLower (bare_host (dns_Name a)) < strings_ToLower (bare_host (dns_Name b)) \<or>
       same_host (dns_Name a) (dns_Name b) \<and> dns_ObservedAt a \<le> dns_ObservedAt b) merged"
proof -
  from assms(1) have merged: "merged = sort_SliceStable dns_record_less (compactDNSRecords (base @ observed))"
      and valid: "\<And>r. r \<in> set base \<union> set observed \<Longrightarrow> is_ok (DNSRecord_Validate r)"
    by (auto simp: MergeDNSRecords_def bind_result_Inr validateDNSRecords_Inr validateDNSRecords_ok)
  have kept: "distinct (map canonicalDNSRecordKey merged)" "set merged \<subseteq> set base \<union> set observed"
      "\<And>r. r \<in> set base \<union> set observed \<Longrightarrow> \<exists>m \<in> set merged. canonicalDNSRecordKey m = canonicalDNSRecordKey r \<and>
         fresher (dns_TTLSeconds m) (dns_ObservedAt m) (dns_TTLSeconds r) (dns_ObservedAt r)"
    using dns_preference.compact_result [of canonicalDNSRecordKey "base @ observed"]
    unfolding merged compactDNSRecords_def by simp_all
  have key: "canonicalDNSRecordKey a = canonicalDNSRecordKey b \<longleftrightarrow> same_entry a b"
    if "a \<in> set base \<union> set observed" "b \<in> set base \<union> set observed" for a b
    using canonicalDNSRecordKey_same_entry [OF valid valid assms(2) assms(2)] that by blast
  have "sorted_wrt (\<lambda>a b. canonicalDNSRecordKey a \<noteq> canonicalDNSRecordKey b) merged"
    using kept(1) by (simp add: distinct_map_apart)
  then have "sorted_wrt (\<lambda>a b. \<not> same_entry a b) merged"
    by (rule sorted_wrt_mono_rel [rotated]) (use kept(2) key in blast)
  moreover have "sorted_wrt (\<lambda>a b. \<not> dns_record_less b a) merged"
    unfolding merged by (rule dns_order.sorted_sort_SliceStable)
  then have "sorted_wrt (\<lambda>a b. strings_ToLower (bare_host (dns_Name a)) < strings_ToLower (bare_host (dns_Name b)) \<or>
       same_host (dns_Name a) (dns_Name b) \<and> dns_ObservedAt a \<le> dns_ObservedAt b) merged"
    by (rule sorted_wrt_mono_rel [rotated])
      (auto simp: dns_record_less_def Let_def not_less simp flip: canonicalDNSName_bare canonicalDNSName_same_host split: if_splits)
  ultimately show ?thesis using kept(2,3) key unfolding fresher_def by (metis subsetD)
qed

definition example_record :: DNSRecord where
  "example_record = \<lparr>dns_Name = ''api.example.com'', dns_IPs = [V4 0x0A000001], dns_TTLSeconds = 60, dns_ObservedAt = 5\<rparr>"

definition example_observed :: DNSRecord where
  "example_observed = example_record\<lparr>dns_Name := ''API.example.com.'', dns_ObservedAt := 9\<rparr>"

theorem MergeDNSRecords_result_witness:
  "\<exists>merged. MergeDNSRecords [example_record] [example_observed] = Inr merged \<and>
     (\<exists>m \<in> set merged. same_entry m example_observed \<and> 9 \<le> dns_ObservedAt m)"
proof -
  have "is_ok (MergeDNSRecords [example_record] [example_observed])"
    by code_simp
  then obtain merged where merged: "MergeDNSRecords [example_record] [example_observed] = Inr merged"
    by (auto simp: is_ok_def split: sum.splits)
  have "plain_addresses r" if "r \<in> set [example_record] \<union> set [example_observed]" for r
    using that by (auto simp: plain_addresses_def example_record_def example_observed_def)
  from MergeDNSRecords_result [OF merged this] merged show ?thesis
    by (auto simp: example_record_def example_observed_def)
qed

end
