(* ===== verification/IdentityFeed.thy ===== *)
theory IdentityFeed
  imports Observations DesiredState
begin

text \<open>
  Identity groups observed from feeds, \<open>internal/control/identity_observation.go\<close>: merging and
  pruning, patches of a cached snapshot, the cache of the last good feed and its backoff. The HTTP
  client, the decoder of JSON documents and \<open>net/url\<close> are arguments; \<open>'w\<close> is the state of the network,
  \<open>'c\<close> the type of clients and \<open>'b\<close> that of response bodies.
\<close>

section \<open>Merging, pruning\<close>

definition observed_group_key :: "IdentityGroup \<Rightarrow> string" where
  "observed_group_key g = igroup_VPC g @ NUL @ igroup_Name g"

definition preferredIdentityGroup :: "IdentityGroup \<Rightarrow> IdentityGroup \<Rightarrow> IdentityGroup" where
  "preferredIdentityGroup current candidate =
     (if igroup_TTLSeconds current = 0 then current
      else if igroup_TTLSeconds candidate = 0 then candidate
      else if igroup_ObservedAt candidate > igroup_ObservedAt current then candidate
      else current)"

definition compactIdentityGroups :: "IdentityGroup list \<Rightarrow> IdentityGroup list" where
  "compactIdentityGroups groups = compact_by observed_group_key preferredIdentityGroup groups"

definition validateIdentityGroups :: "IdentityGroup list \<Rightarrow> IdentityGroup list result" where
  "validateIdentityGroups groups =
     bind_result
       (range_check (\<lambda>i g. wrap_error (Wrapf ''identity group %d: %w'' [nat_Itoa i]) (IdentityGroup_Validate g)) groups)
       (\<lambda>_. Inr groups)"

definition identity_group_less :: "IdentityGroup \<Rightarrow> IdentityGroup \<Rightarrow> bool" where
  "identity_group_less a b =
     (if igroup_VPC a \<noteq> igroup_VPC b then igroup_VPC a < igroup_VPC b else igroup_Name a < igroup_Name b)"

definition MergeIdentityGroups :: "IdentityGroup list \<Rightarrow> IdentityGroup list \<Rightarrow> IdentityGroup list result" where
  "MergeIdentityGroups base observed =
     bind_result (validateIdentityGroups base) (\<lambda>base.
     bind_result (validateIdentityGroups observed) (\<lambda>observed.
       Inr (sort_SliceStable identity_group_less (compactIdentityGroups (base @ observed)))))"

definition PruneExpiredIdentityGroups :: "IdentityGroup list \<Rightarrow> time \<Rightarrow> time \<Rightarrow> IdentityGroup list result" where
  "PruneExpiredIdentityGroups groups now clock =
     bind_result (validateIdentityGroups groups) (\<lambda>validated.
       let now = (if time_IsZero now then clock else now)
       in Inr (filter (\<lambda>g. \<not> IdentityGroup_Expired g now) validated))"


section \<open>Patches\<close>

record IdentityGroupObservationPatch =
  patch_Op :: string
  patch_VPC :: string
  patch_Name :: string
  patch_Group :: IdentityGroup

definition normalizedIdentityGroupPatchOp :: "string \<Rightarrow> string" where
  "normalizedIdentityGroupPatchOp op =
     (let op = strings_ToLower (strings_TrimSpace op)
      in if op \<in> set [''add'', ''replace'', ''update'', ''upsert''] then ''upsert''
         else if op \<in> set [''delete'', ''remove''] then ''delete''
         else op)"

definition identityGroupPatchTarget :: "IdentityGroupObservationPatch \<Rightarrow> string \<times> string" where
  "identityGroupPatchTarget patch =
     (let vpc = strings_TrimSpace (patch_VPC patch);
          name = strings_TrimSpace (patch_Name patch)
      in (if vpc = '''' then igroup_VPC (patch_Group patch) else vpc,
          if name = '''' then igroup_Name (patch_Group patch) else name))"

definition validate_patch :: "nat \<Rightarrow> IdentityGroupObservationPatch \<Rightarrow> IdentityGroupObservationPatch result" where
  "validate_patch i patch =
     (let op = normalizedIdentityGroupPatchOp (patch_Op patch);
          patch = patch\<lparr>patch_Op := op\<rparr>;
          n = nat_Itoa i
      in if op = ''upsert'' then
           bind_result (first_error [
             wrap_error (Wrapf ''identity group patch %d: upsert group: %w'' [n]) (IdentityGroup_Validate (patch_Group patch)),
             fail_if (strings_TrimSpace (patch_VPC patch) \<noteq> '''' \<and>
                      strings_TrimSpace (patch_VPC patch) \<noteq> igroup_VPC (patch_Group patch))
               (Errorf ''identity group patch %d: vpc does not match upsert group'' [n]),
             fail_if (strings_TrimSpace (patch_Name patch) \<noteq> '''' \<and>
                      strings_TrimSpace (patch_Name patch) \<noteq> igroup_Name (patch_Group patch))
               (Errorf ''identity group patch %d: name does not match upsert group'' [n])])
             (\<lambda>_. Inr patch)
         else if op = ''delete'' then
           (let (vpc, name) = identityGroupPatchTarget patch in
            bind_result (first_error [
              fail_if (strings_TrimSpace vpc = '''') (Errorf ''identity group patch %d: delete vpc is required'' [n]),
              fail_if (strings_TrimSpace name = '''') (Errorf ''identity group patch %d: delete name is required'' [n])])
              (\<lambda>_. Inr (patch\<lparr>patch_VPC := strings_TrimSpace vpc, patch_Name := strings_TrimSpace name\<rparr>)))
         else Inl (Errorf ''identity group patch %d: unsupported op %q'' [n, op]))"

definition validateIdentityGroupObservationPatches ::
    "IdentityGroupObservationPatch list \<Rightarrow> IdentityGroupObservationPatch list result" where
  "validateIdentityGroupObservationPatches patches =
     fold_result_idx (\<lambda>i patch out. bind_result (validate_patch i patch) (\<lambda>patch. Inr (out @ [patch]))) 0 patches []"

definition index_groups :: "IdentityGroup list \<Rightarrow> (string, nat) gomap" where
  "index_groups out = fold (\<lambda>(i, g). AList.update (observed_group_key g) i) (enumerate 0 out) []"

definition patch_step ::
    "IdentityGroupObservationPatch \<Rightarrow> (string, nat) gomap \<times> IdentityGroup list \<Rightarrow> (string, nat) gomap \<times> IdentityGroup list" where
  "patch_step patch s =
     (case s of (index, out) \<Rightarrow>
      let op = normalizedIdentityGroupPatchOp (patch_Op patch) in
      if op = ''upsert'' then
        (let key = observed_group_key (patch_Group patch) in
         case map_of index key of
           Some pos \<Rightarrow> (index, out[pos := patch_Group patch])
         | None \<Rightarrow> (AList.update key (length out) index, out @ [patch_Group patch]))
      else if op = ''delete'' then
        (let (vpc, name) = identityGroupPatchTarget patch in
         case map_of index (vpc @ NUL @ name) of
           None \<Rightarrow> (index, out)
         | Some pos \<Rightarrow> (let out = take pos out @ drop (pos + 1) out in (index_groups out, out)))
      else (index, out))"

definition ApplyIdentityGroupObservationPatches ::
    "IdentityGroup list \<Rightarrow> IdentityGroupObservationPatch list \<Rightarrow> IdentityGroup list result" where
  "ApplyIdentityGroupObservationPatches base patches =
     bind_result (validateIdentityGroups base) (\<lambda>groups.
     bind_result (validateIdentityGroupObservationPatches patches) (\<lambda>patches.
       Inr (sort_SliceStable identity_group_less (snd (fold patch_step patches (index_groups groups, groups))))))"

section \<open>Feeds\<close>

record IdentityGroupObservationFeed =
  feed_Snapshot :: bool
  feed_Groups :: "IdentityGroup list"
  feed_Patches :: "IdentityGroupObservationPatch list"

definition zero_feed :: IdentityGroupObservationFeed where
  "zero_feed = \<lparr>feed_Snapshot = False, feed_Groups = [], feed_Patches = []\<rparr>"

text \<open>A decoded document is an array of groups, or an object with groups and patches.\<close>

datatype feed_document =
    GroupArray "IdentityGroup list"
  | GroupObject (doc_IdentityGroups: "IdentityGroup list option") (doc_IdentityPatches: "IdentityGroupObservationPatch list")

definition LoadIdentityGroupObservationFeedJSON ::
    "('b \<Rightarrow> feed_document result) \<Rightarrow> 'b \<Rightarrow> IdentityGroupObservationFeed result" where
  "LoadIdentityGroupObservationFeedJSON decode r =
     bind_result (decode r) (\<lambda>document.
       case document of
         GroupArray groups \<Rightarrow>
           bind_result (validateIdentityGroups groups) (\<lambda>groups. Inr (zero_feed\<lparr>feed_Snapshot := True, feed_Groups := groups\<rparr>))
       | GroupObject identityGroups identityPatches \<Rightarrow>
           if identityGroups = None \<and> identityPatches = [] then
             Inl (Errorf ''identity group observations require identity_groups or identity_group_patches'' [])
           else
             bind_result (validateIdentityGroupObservationPatches identityPatches) (\<lambda>patches.
               case identityGroups of
                 None \<Rightarrow> Inr (zero_feed\<lparr>feed_Patches := patches\<rparr>)
               | Some groups \<Rightarrow>
                   bind_result (validateIdentityGroups groups) (\<lambda>groups.
                   bind_result (if patches \<noteq> [] then ApplyIdentityGroupObservationPatches groups patches else Inr groups)
                     (\<lambda>groups. Inr \<lparr>feed_Snapshot = True, feed_Groups = groups, feed_Patches = patches\<rparr>))))"

definition snapshot_groups :: "IdentityGroupObservationFeed \<Rightarrow> IdentityGroup list result" where
  "snapshot_groups feed =
     (if \<not> feed_Snapshot feed then
        Inl (Errorf ''identity group observations patch feed requires cached groups'' [])
      else Inr (feed_Groups feed))"

definition LoadIdentityGroupObservationsJSON :: "('b \<Rightarrow> feed_document result) \<Rightarrow> 'b \<Rightarrow> IdentityGroup list result" where
  "LoadIdentityGroupObservationsJSON decode r =
     bind_result (LoadIdentityGroupObservationFeedJSON decode r) snapshot_groups"

record 'c identityGroupHTTPOptions =
  http_URL :: string
  http_BearerToken :: string
  http_Timeout :: duration
  http_Client :: "'c option"
  http_IfNoneMatch :: string
  http_IfModifiedSince :: string
  http_TLSCAFile :: string
  http_TLSCertFile :: string
  http_TLSKeyFile :: string

record identityGroupHTTPResult =
  result_NotModified :: bool
  result_ETag :: string
  result_LastModified :: string

record feed_request =
  request_URL :: string
  request_Timeout :: duration
  request_Header :: "(string \<times> string) list"

record 'b feed_response =
  response_StatusCode :: int
  response_ETag :: string
  response_LastModified :: string
  response_Body :: 'b

text \<open>
  What the loader is given from outside: the client of the TLS options, whether a request to a URL can be
  created, the exchange, the decoder, the parsers.
\<close>

record ('w, 'c, 'b) feed_env =
  env_identityGroupHTTPClient :: "'c identityGroupHTTPOptions \<Rightarrow> 'c result"
  env_NewRequest :: "string \<Rightarrow> unit result"
  env_Do :: "'w \<Rightarrow> 'c \<Rightarrow> feed_request \<Rightarrow> 'b feed_response result \<times> 'w"
  env_decode :: "'b \<Rightarrow> feed_document result"
  env_parsers :: Parsers

definition feed_headers :: "'c identityGroupHTTPOptions \<Rightarrow> (string \<times> string) list" where
  "feed_headers opts =
     (if strings_TrimSpace (http_BearerToken opts) \<noteq> ''''
      then [(''Authorization'', ''Bearer '' @ strings_TrimSpace (http_BearerToken opts))] else []) @
     (if strings_TrimSpace (http_IfNoneMatch opts) \<noteq> ''''
      then [(''If-None-Match'', strings_TrimSpace (http_IfNoneMatch opts))] else []) @
     (if strings_TrimSpace (http_IfModifiedSince opts) \<noteq> ''''
      then [(''If-Modified-Since'', strings_TrimSpace (http_IfModifiedSince opts))] else [])"

definition read_response ::
    "('b \<Rightarrow> feed_document result) \<Rightarrow> 'b feed_response \<Rightarrow> (IdentityGroupObservationFeed \<times> identityGroupHTTPResult) result" where
  "read_response decode response =
     (let result = \<lparr>result_NotModified = False, result_ETag = response_ETag response,
                    result_LastModified = response_LastModified response\<rparr>
      in if response_StatusCode response = 304 then Inr (zero_feed, result\<lparr>result_NotModified := True\<rparr>)
         else if response_StatusCode response < 200 \<or> response_StatusCode response \<ge> 300 then
           Inl (Errorf ''fetch identity group observations returned status %d'' [strconv_Itoa (response_StatusCode response)])
         else bind_result (LoadIdentityGroupObservationFeedJSON decode (response_Body response)) (\<lambda>feed. Inr (feed, result)))"

definition loadIdentityGroupObservationsHTTP ::
    "('w, 'c, 'b) feed_env \<Rightarrow> 'w \<Rightarrow> 'c identityGroupHTTPOptions \<Rightarrow>
     (IdentityGroupObservationFeed \<times> identityGroupHTTPResult) result \<times> 'w" where
  "loadIdentityGroupObservationsHTTP env world opts =
     (let feedURL = strings_TrimSpace (http_URL opts) in
      if feedURL = '''' then (Inl (Errorf ''identity group observations url is required'' []), world)
      else case url_Parse (env_parsers env) feedURL of
        None \<Rightarrow> (Inl (Errorf ''parse identity group observations url: %w'' []), world)
      | Some (scheme, host) \<Rightarrow>
          if scheme \<noteq> ''http'' \<and> scheme \<noteq> ''https'' then
            (Inl (Errorf ''identity group observations url scheme %q is not supported'' [scheme]), world)
          else case (case http_Client opts of Some c \<Rightarrow> Inr c | None \<Rightarrow> env_identityGroupHTTPClient env opts) of
            Inl e \<Rightarrow> (Inl e, world)
          | Inr client \<Rightarrow>
            case env_NewRequest env feedURL of
              Inl e \<Rightarrow> (Inl (Wrapf ''create identity group observations request: %w'' [] e), world)
            | Inr _ \<Rightarrow>
              (let (response, world) = env_Do env world client
                     \<lparr>request_URL = feedURL, request_Timeout = max 0 (http_Timeout opts), request_Header = feed_headers opts\<rparr>
               in case response of
                    Inl e \<Rightarrow> (Inl (Wrapf ''fetch identity group observations: %w'' [] e), world)
                  | Inr response \<Rightarrow> (read_response (env_decode env) response, world)))"


section \<open>The cache of the last good feed\<close>

record IdentityGroupObservationCache =
  cache_URL :: string
  cache_ETag :: string
  cache_LastModified :: string
  cache_Groups :: "IdentityGroup list"
  cache_ConsecutiveFailures :: int
  cache_NextAttempt :: time
  cache_LastError :: string

definition zero_cache :: IdentityGroupObservationCache where
  "zero_cache =
     \<lparr>cache_URL = '''', cache_ETag = '''', cache_LastModified = '''', cache_Groups = [],
      cache_ConsecutiveFailures = 0, cache_NextAttempt = zero_time, cache_LastError = ''''\<rparr>"

record 'c IdentityGroupObservationOptions =
  opts_LocalGroups :: "IdentityGroup list"
  opts_URL :: string
  opts_BearerToken :: string
  opts_Timeout :: duration
  opts_Now :: time
  opts_BackoffBase :: duration
  opts_BackoffMax :: duration
  opts_HTTPClient :: "'c option"
  opts_TLSCAFile :: string
  opts_TLSCertFile :: string
  opts_TLSKeyFile :: string

primrec backoff_loop :: "nat \<Rightarrow> duration \<Rightarrow> duration \<Rightarrow> duration" where
  "backoff_loop 0 m backoff = (if backoff > m then m else backoff)"
| "backoff_loop (Suc n) m backoff = (if backoff \<ge> m div 2 then m else backoff_loop n m (backoff * 2))"

definition identityGroupFeedBackoff :: "duration \<Rightarrow> duration \<Rightarrow> int \<Rightarrow> duration" where
  "identityGroupFeedBackoff base m failures =
     (let base = (if base \<le> 0 then second else base);
          m = (if m \<le> 0 then 60 * second else m);
          m = (if m < base then base else m);
          failures = (if failures < 1 then 1 else failures)
      in backoff_loop (nat (failures - 1)) m base)"

definition recordIdentityGroupFeedSuccess ::
    "IdentityGroupObservationCache \<Rightarrow> string \<Rightarrow> identityGroupHTTPResult \<Rightarrow> IdentityGroup list \<Rightarrow> IdentityGroupObservationCache" where
  "recordIdentityGroupFeedSuccess cache url result groups =
     cache\<lparr>cache_URL := url, cache_ETag := result_ETag result, cache_LastModified := result_LastModified result,
           cache_Groups := groups, cache_ConsecutiveFailures := 0, cache_NextAttempt := zero_time, cache_LastError := ''''\<rparr>"

definition recordIdentityGroupFeedFailure ::
    "IdentityGroupObservationCache \<Rightarrow> time \<Rightarrow> 'c IdentityGroupObservationOptions \<Rightarrow> error \<Rightarrow> IdentityGroupObservationCache" where
  "recordIdentityGroupFeedFailure cache now opts err =
     (let failures = cache_ConsecutiveFailures cache + 1
      in cache\<lparr>cache_ConsecutiveFailures := failures, cache_LastError := error_Error err,
               cache_NextAttempt := now + identityGroupFeedBackoff (opts_BackoffBase opts) (opts_BackoffMax opts) failures\<rparr>)"

text \<open>The part of the loader that follows an answer of the feed; the cache is absent when none is configured.\<close>

definition after_fetch ::
    "'c IdentityGroupObservationOptions \<Rightarrow> time \<Rightarrow> string \<Rightarrow> IdentityGroupObservationCache option \<Rightarrow>
     (IdentityGroupObservationFeed \<times> identityGroupHTTPResult) result \<Rightarrow>
     IdentityGroup list result \<times> IdentityGroupObservationCache option" where
  "after_fetch opts now url cache answer =
     (case answer of
        Inl err \<Rightarrow>
          (case cache of
             Some c \<Rightarrow> if cache_Groups c \<noteq> [] then (Inr (cache_Groups c), Some (recordIdentityGroupFeedFailure c now opts err))
                       else (Inl err, cache)
           | None \<Rightarrow> (Inl err, cache))
      | Inr (feed, result) \<Rightarrow>
          if result_NotModified result then
            (case cache of
               None \<Rightarrow> (Inl (Errorf ''identity group observations returned 304 without cached groups'' []), cache)
             | Some c \<Rightarrow> (Inr (cache_Groups c), Some (recordIdentityGroupFeedSuccess c url result (cache_Groups c))))
          else
            (let groups =
               (if \<not> feed_Snapshot feed then
                  (if (case cache of None \<Rightarrow> True | Some c \<Rightarrow> cache_Groups c = []) then
                     Inl (Errorf ''identity group observations patch feed requires cached groups'' [])
                   else ApplyIdentityGroupObservationPatches (cache_Groups (the cache)) (feed_Patches feed))
                else Inr (feed_Groups feed))
             in case groups of
                  Inl err \<Rightarrow> (Inl err, cache)
                | Inr groups \<Rightarrow> (Inr groups, map_option (\<lambda>c. recordIdentityGroupFeedSuccess c url result groups) cache)))"

definition loadIdentityGroupObservationsURL ::
    "('w, 'c, 'b) feed_env \<Rightarrow> 'w \<Rightarrow> time \<Rightarrow> 'c IdentityGroupObservationOptions \<Rightarrow> IdentityGroupObservationCache option \<Rightarrow>
     IdentityGroup list result \<times> IdentityGroupObservationCache option \<times> 'w" where
  "loadIdentityGroupObservationsURL env world clock opts cache =
     (let now = (if time_IsZero (opts_Now opts) then clock else opts_Now opts);
          url = strings_TrimSpace (opts_URL opts);
          cache = map_option (\<lambda>c. (if cache_URL c \<noteq> '''' \<and> cache_URL c \<noteq> url then zero_cache else c)\<lparr>cache_URL := url\<rparr>) cache
      in if (case cache of None \<Rightarrow> False | Some c \<Rightarrow> \<not> time_IsZero (cache_NextAttempt c) \<and> now < cache_NextAttempt c) then
           (Inr (cache_Groups (the cache)), cache, world)
         else
           (let (answer, world) = loadIdentityGroupObservationsHTTP env world
                  \<lparr>http_URL = url, http_BearerToken = opts_BearerToken opts, http_Timeout = opts_Timeout opts,
                   http_Client = opts_HTTPClient opts,
                   http_IfNoneMatch = (case cache of None \<Rightarrow> '''' | Some c \<Rightarrow> cache_ETag c),
                   http_IfModifiedSince = (case cache of None \<Rightarrow> '''' | Some c \<Rightarrow> cache_LastModified c),
                   http_TLSCAFile = opts_TLSCAFile opts, http_TLSCertFile = opts_TLSCertFile opts,
                   http_TLSKeyFile = opts_TLSKeyFile opts\<rparr>;
                (groups, cache) = after_fetch opts now url cache answer
            in (groups, cache, world)))"

definition MergeIdentityGroupObservations ::
    "('w, 'c, 'b) feed_env \<Rightarrow> 'w \<Rightarrow> time \<Rightarrow> DesiredState \<Rightarrow> 'c IdentityGroupObservationOptions \<Rightarrow>
     IdentityGroupObservationCache option \<Rightarrow> DesiredState result \<times> IdentityGroupObservationCache option \<times> 'w" where
  "MergeIdentityGroupObservations env world clock state opts cache =
     (case (if opts_LocalGroups opts \<noteq> [] then MergeIdentityGroups (desired_IdentityGroups state) (opts_LocalGroups opts)
            else Inr (desired_IdentityGroups state)) of
        Inl e \<Rightarrow> (Inl e, cache, world)
      | Inr groups \<Rightarrow>
          (let (groups, cache, world) =
             (if strings_TrimSpace (opts_URL opts) \<noteq> '''' then
                (let (observed, cache, world) = loadIdentityGroupObservationsURL env world clock opts cache
                 in (bind_result observed (MergeIdentityGroups groups), cache, world))
              else (Inr groups, cache, world))
           in (bind_result groups (\<lambda>groups.
                 bind_result (PruneExpiredIdentityGroups groups (opts_Now opts) clock) (\<lambda>pruned.
                   Inr (state\<lparr>desired_IdentityGroups := pruned\<rparr>))), cache, world)))"


section \<open>Merged groups\<close>

interpretation identity_preference: preference preferredIdentityGroup
  "\<lambda>m r. fresher (igroup_TTLSeconds m) (igroup_ObservedAt m) (igroup_TTLSeconds r) (igroup_ObservedAt r)"
  by unfold_locales (auto simp: preferredIdentityGroup_def fresher_def)

interpretation identity_order: strict_weak_order identity_group_less
  unfolding identity_group_less_def by (rule lexicographic_strict_weak_order)

lemma validateIdentityGroups_Inr:
  "validateIdentityGroups groups = Inr out \<longleftrightarrow> out = groups \<and> is_ok (validateIdentityGroups groups)"
  by (auto simp: validateIdentityGroups_def bind_result_def is_ok_def split: sum.splits)

text \<open>Merging keeps one group for every VPC and name, chosen as for DNS records.\<close>

lemma MergeIdentityGroups_result:
  assumes "MergeIdentityGroups base observed = Inr merged"
  shows "distinct (map observed_group_key merged) \<and> set merged \<subseteq> set base \<union> set observed \<and>
    (\<forall>r \<in> set base \<union> set observed. \<exists>m \<in> set merged. observed_group_key m = observed_group_key r \<and>
       fresher (igroup_TTLSeconds m) (igroup_ObservedAt m) (igroup_TTLSeconds r) (igroup_ObservedAt r)) \<and>
    sorted_wrt (\<lambda>a b. \<not> identity_group_less b a) merged"
proof -
  from assms have merged: "merged = sort_SliceStable identity_group_less (compactIdentityGroups (base @ observed))"
    by (auto simp: MergeIdentityGroups_def bind_result_Inr validateIdentityGroups_Inr)
  show ?thesis
    using identity_preference.compact_result [of observed_group_key "base @ observed"]
      identity_order.sorted_sort_SliceStable
    unfolding merged compactIdentityGroups_def by simp
qed


section \<open>Backoff\<close>

lemma backoff_loop_bounds: "0 < b \<Longrightarrow> b \<le> m \<Longrightarrow> b \<le> backoff_loop n m b \<and> backoff_loop n m b \<le> m"
proof (induction n arbitrary: b)
  case (Suc n)
  show ?case
  proof (cases "b \<ge> m div 2")
    case False
    then have "b * 2 \<le> m" by linarith
    with Suc.IH [of "b * 2"] Suc.prems False show ?thesis by simp
  qed (use Suc.prems in simp)
qed simp

lemma backoff_loop_power:
  assumes "even m" and "0 < b" and "b \<le> m"
  shows "backoff_loop n m b = min m (b * 2 ^ n)"
  using assms(2,3)
proof (induction n arbitrary: b)
  case (Suc n)
  show ?case
  proof (cases "b \<ge> m div 2")
    case True
    with assms(1) have "m \<le> b * 2" by auto
    moreover have "b * 2 \<le> b * 2 ^ Suc n" using Suc.prems(1) by simp
    ultimately show ?thesis using True by simp
  next
    case False
    then have "b * 2 \<le> m" by linarith
    with Suc.IH [of "b * 2"] Suc.prems False show ?thesis by (simp add: mult.assoc)
  qed
qed (auto simp: min_def)

text \<open>
  The time until the next attempt after failed polls starts at the base, never exceeds the
  maximum, and doubles with every further failure until it reaches the maximum: for a maximum that
  is an even number of nanoseconds it is the base times \<open>2\<close> to the number of further failures, cut off
  at the maximum.
\<close>

theorem identityGroupFeedBackoff_doubles:
  assumes "0 < base" and "base \<le> m" and "1 \<le> failures"
  shows "base \<le> identityGroupFeedBackoff base m failures \<and> identityGroupFeedBackoff base m failures \<le> m \<and>
    (even m \<longrightarrow> identityGroupFeedBackoff base m failures = min m (base * 2 ^ nat (failures - 1)))"
  using assms backoff_loop_bounds [of base m "nat (failures - 1)"] backoff_loop_power [of m base "nat (failures - 1)"]
  by (simp add: identityGroupFeedBackoff_def)

theorem identityGroupFeedBackoff_doubles_witness:
  "identityGroupFeedBackoff second (60 * second) 4 = 8 * second"
proof -
  have "nat (4 - 1) = 3" by simp
  with identityGroupFeedBackoff_doubles [of second "60 * second" 4] show ?thesis
    by (simp add: second_def)
qed

section \<open>Patches change the cached groups as a map\<close>

text \<open>The groups of a feed by VPC and name, and what a patch means for them.\<close>

definition groups_map :: "IdentityGroup list \<Rightarrow> (string \<rightharpoonup> IdentityGroup)" where
  "groups_map groups = map_of (map (\<lambda>g. (observed_group_key g, g)) groups)"

definition patch_map :: "IdentityGroupObservationPatch \<Rightarrow> (string \<rightharpoonup> IdentityGroup) \<Rightarrow> (string \<rightharpoonup> IdentityGroup)" where
  "patch_map patch m =
     (let op = normalizedIdentityGroupPatchOp (patch_Op patch); (vpc, name) = identityGroupPatchTarget patch
      in if op = ''upsert'' then m(observed_group_key (patch_Group patch) \<mapsto> patch_Group patch)
         else if op = ''delete'' then m(vpc @ NUL @ name := None)
         else m)"

lemma index_groups_ok:
  assumes "distinct (map observed_group_key out)"
  shows "index_ok observed_group_key (index_groups out) out"
  using assms
proof (induction out rule: rev_induct)
  case Nil
  then show ?case by (simp add: index_groups_def index_ok_def)
next
  case (snoc g out)
  then have ok: "index_ok observed_group_key (index_groups out) out" by simp
  have "map_of (index_groups out) (observed_group_key g) = None"
  proof (rule ccontr)
    assume "map_of (index_groups out) (observed_group_key g) \<noteq> None"
    then obtain pos where "pos < length out" "observed_group_key (out ! pos) = observed_group_key g"
      using index_okD [OF ok] by blast
    with snoc.prems show False by (metis distinct_append imageI map_append set_map nth_mem
          disjoint_iff list.set_intros(1) list.simps(9))
  qed
  with index_ok_new [OF ok] show ?case
    by (simp add: index_groups_def enumerate_append_eq)
qed

lemma groups_map_Cons [simp]: "groups_map (g # groups) = (groups_map groups)(observed_group_key g \<mapsto> g)"
  by (simp add: groups_map_def)

lemma groups_map_Some:
  assumes "groups_map out k = Some g"
  shows "\<exists>i < length out. out ! i = g \<and> observed_group_key (out ! i) = k"
proof -
  have "g \<in> set out" "observed_group_key g = k"
    using assms by (auto simp: groups_map_def dest!: map_of_SomeD)
  then show ?thesis by (auto simp: in_set_conv_nth)
qed

lemma groups_map_split:
  "distinct (map observed_group_key (xs @ g # ys)) \<Longrightarrow>
   groups_map (xs @ g # ys) = (groups_map (xs @ ys))(observed_group_key g \<mapsto> g)"
proof (induction xs)
  case (Cons x xs)
  then have "observed_group_key x \<noteq> observed_group_key g" by auto
  with Cons show ?case by (auto simp: fun_eq_iff)
qed simp

lemma patch_step_refines:
  assumes "index_ok observed_group_key index out" and "patch_step patch (index, out) = (index', out')"
  shows "index_ok observed_group_key index' out' \<and> groups_map out' = patch_map patch (groups_map out)"
proof -
  note ok = assms(1)
  have dist: "distinct (map observed_group_key out)" using ok by (rule index_ok_distinct)
  obtain vpc name where target: "identityGroupPatchTarget patch = (vpc, name)" by fastforce
  let ?op = "normalizedIdentityGroupPatchOp (patch_Op patch)" and ?g = "patch_Group patch"
  consider "?op = ''upsert''" "map_of index (observed_group_key ?g) = None"
    | pos where "?op = ''upsert''" "map_of index (observed_group_key ?g) = Some pos"
    | "?op = ''delete''" "map_of index (vpc @ NUL @ name) = None"
    | pos where "?op = ''delete''" "map_of index (vpc @ NUL @ name) = Some pos"
    | "?op \<noteq> ''upsert''" "?op \<noteq> ''delete''"
    by (metis not_None_eq)
  then show ?thesis
  proof cases
    case 1
    with assms(2) have eq: "index' = AList.update (observed_group_key ?g) (length out) index" "out' = out @ [?g]"
      by (auto simp: patch_step_def)
    from index_ok_new [OF ok 1(2)] have ok': "index_ok observed_group_key index' out'" by (simp add: eq)
    from index_ok_distinct [OF this] groups_map_split [of out ?g "[]"] ok' 1(1) show ?thesis
      by (simp add: eq patch_map_def target)
  next
    case 2
    with assms(2) have eq: "index' = index" "out' = out[pos := ?g]" by (auto simp: patch_step_def)
    from 2(2) index_okD [OF ok] have pos: "pos < length out" "observed_group_key (out ! pos) = observed_group_key ?g" by auto
    have ok': "index_ok observed_group_key index' out'"
      unfolding eq using pos by (intro index_ok_update [OF ok]) auto
    have "out' = take pos out @ ?g # drop (Suc pos) out" "out = take pos out @ out ! pos # drop (Suc pos) out"
      using pos(1) by (simp_all add: eq upd_conv_take_nth_drop id_take_nth_drop [symmetric])
    then have "groups_map out' = (groups_map out)(observed_group_key ?g \<mapsto> ?g)"
      using groups_map_split [of "take pos out" ?g "drop (Suc pos) out"] index_ok_distinct [OF ok'] dist pos(2)
        groups_map_split [of "take pos out" "out ! pos" "drop (Suc pos) out"] by auto
    with ok' 2(1) show ?thesis by (simp add: patch_map_def target)
  next
    case 3
    with assms(2) have eq: "index' = index" "out' = out" by (auto simp: patch_step_def target)
    have "groups_map out (vpc @ NUL @ name) = None"
    proof (rule ccontr)
      assume "groups_map out (vpc @ NUL @ name) \<noteq> None"
      then obtain i where "i < length out" "observed_group_key (out ! i) = vpc @ NUL @ name"
        using groups_map_Some by blast
      with index_okD [OF ok, of "vpc @ NUL @ name" i] 3(2) show False by simp
    qed
    then show ?thesis using ok 3(1) by (auto simp: eq patch_map_def target)
  next
    case 4
    with assms(2) have eq: "index' = index_groups out'" "out' = take pos out @ drop (Suc pos) out"
      by (auto simp: patch_step_def target Let_def)
    from 4(2) index_okD [OF ok] have pos: "pos < length out" "observed_group_key (out ! pos) = vpc @ NUL @ name" by auto
    have out: "out = take pos out @ out ! pos # drop (Suc pos) out" using pos(1) by (simp add: id_take_nth_drop [symmetric])
    with dist have dist': "distinct (map observed_group_key (take pos out @ out ! pos # drop (Suc pos) out))" by simp
    then have "distinct (map observed_group_key out')" by (simp add: eq)
    from index_groups_ok [OF this] have ok': "index_ok observed_group_key index' out'" by (simp add: eq)
    have "groups_map out' (vpc @ NUL @ name) = None"
      using dist' pos(2) by (auto simp: groups_map_def eq map_of_eq_None_iff)
    then have "groups_map out' = (groups_map out)(vpc @ NUL @ name := None)"
      using groups_map_split [OF dist'] out pos(2) by (auto simp: eq fun_eq_iff)
    with ok' 4(1) show ?thesis by (simp add: patch_map_def target)
  next
    case 5
    with assms(2) ok show ?thesis by (auto simp: patch_step_def patch_map_def target)
  qed
qed

lemma fold_patch_step_refines:
  "index_ok observed_group_key index out \<Longrightarrow> fold patch_step patches (index, out) = (index', out') \<Longrightarrow>
   index_ok observed_group_key index' out' \<and> groups_map out' = fold patch_map patches (groups_map out)"
proof (induction patches arbitrary: index out)
  case (Cons patch patches)
  obtain i o' where step: "patch_step patch (index, out) = (i, o')" by fastforce
  from patch_step_refines [OF Cons.prems(1) step] Cons.IH [of i o'] Cons.prems(2) step show ?case by simp
qed simp

lemma groups_map_sort:
  assumes "distinct (map observed_group_key out)"
  shows "groups_map (sort_SliceStable lt out) = groups_map out"
  unfolding groups_map_def using assms
  by (subst map_of_inject_set) (simp_all add: comp_def)

text \<open>
  C38. A feed of patches changes the cached snapshot as a map from VPC and name to groups would
  change: every upsert sets the group of its key, every delete removes that of its target, in the
  order of the patches; no group is lost or duplicated by the positions the code keeps in its index.
\<close>

theorem ApplyIdentityGroupObservationPatches_refines:
  assumes "ApplyIdentityGroupObservationPatches base patches = Inr out"
    and "validateIdentityGroupObservationPatches patches = Inr validated"
    and "distinct (map observed_group_key base)"
  shows "distinct (map observed_group_key out) \<and> groups_map out = fold patch_map validated (groups_map base)"
proof -
  obtain index' out' where run: "fold patch_step validated (index_groups base, base) = (index', out')" by fastforce
  with assms(1,2) have out: "out = sort_SliceStable identity_group_less out'"
    by (auto simp: ApplyIdentityGroupObservationPatches_def bind_result_Inr validateIdentityGroups_Inr)
  from fold_patch_step_refines [OF index_groups_ok [OF assms(3)] run]
  have "distinct (map observed_group_key out')" "groups_map out' = fold patch_map validated (groups_map base)"
    by (auto dest: index_ok_distinct)
  then show ?thesis by (simp add: out groups_map_sort)
qed

definition example_group :: IdentityGroup where
  "example_group =
     \<lparr>igroup_Name = ''db'', igroup_VPC = ''prod'', igroup_Source = ''cmdb'', igroup_ObservedAt = 5, igroup_TTLSeconds = 0,
      igroup_EndpointIDs = [''pod-a''], igroup_EndpointSelector = [], igroup_EndpointExpressions = []\<rparr>"

definition example_patch :: "string \<Rightarrow> IdentityGroup \<Rightarrow> IdentityGroupObservationPatch" where
  "example_patch op g = \<lparr>patch_Op = op, patch_VPC = '''', patch_Name = '''', patch_Group = g\<rparr>"

theorem ApplyIdentityGroupObservationPatches_refines_witness:
  "\<exists>out. ApplyIdentityGroupObservationPatches [example_group]
       [example_patch ''Add'' (example_group\<lparr>igroup_Name := ''web''\<rparr>), example_patch ''remove'' example_group] = Inr out \<and>
     groups_map out (''prod'' @ NUL @ ''db'') = None \<and> groups_map out (''prod'' @ NUL @ ''web'') \<noteq> None"
proof -
  let ?web = "example_group\<lparr>igroup_Name := ''web''\<rparr>"
  let ?ps = "[example_patch ''Add'' ?web, example_patch ''remove'' example_group]"
  let ?validated = "[example_patch ''upsert'' ?web,
    (example_patch ''delete'' example_group)\<lparr>patch_VPC := ''prod'', patch_Name := ''db''\<rparr>]"
  have valid: "validateIdentityGroupObservationPatches ?ps = Inr ?validated" by code_simp
  have "is_ok (ApplyIdentityGroupObservationPatches [example_group] ?ps)" by code_simp
  then obtain out where out: "ApplyIdentityGroupObservationPatches [example_group] ?ps = Inr out"
    by (auto simp: is_ok_def split: sum.splits)
  have ops: "normalizedIdentityGroupPatchOp ''upsert'' = ''upsert''" "normalizedIdentityGroupPatchOp ''delete'' = ''delete''"
      "strings_TrimSpace ''prod'' = ''prod''" "strings_TrimSpace ''db'' = ''db''"
    by code_simp+
  from ApplyIdentityGroupObservationPatches_refines [OF out valid] out ops show ?thesis
    by (simp add: patch_map_def identityGroupPatchTarget_def example_patch_def example_group_def observed_group_key_def
        groups_map_def)
qed


section \<open>A failing feed keeps its last good groups\<close>

text \<open>
  While the feed fails, and until the time of its next attempt, the loader answers with the
  groups of the last good feed: with groups cached, a failed exchange returns them, keeps them in the
  cache, counts the failure and postpones the next attempt by the backoff; before that time a poll
  returns them without any exchange. A good answer afterwards replaces them and resets the backoff.
\<close>

theorem feed_keeps_last_good:
  assumes "cache_URL c = strings_TrimSpace (opts_URL opts)" and "cache_Groups c \<noteq> []"
    and "\<not> time_IsZero (opts_Now opts)" and "cache_URL c \<noteq> ''''"
    and "loadIdentityGroupObservationsURL env world clock opts (Some c) = (groups, cache', world')"
  shows "(opts_Now opts < cache_NextAttempt c \<and> cache_NextAttempt c \<noteq> zero_time \<longrightarrow>
      groups = Inr (cache_Groups c) \<and> cache' = Some c \<and> world' = world) \<and>
    (\<exists>answer. (\<not> (opts_Now opts < cache_NextAttempt c \<and> cache_NextAttempt c \<noteq> zero_time) \<longrightarrow>
      loadIdentityGroupObservationsHTTP env world
        \<lparr>http_URL = cache_URL c, http_BearerToken = opts_BearerToken opts, http_Timeout = opts_Timeout opts,
         http_Client = opts_HTTPClient opts, http_IfNoneMatch = cache_ETag c, http_IfModifiedSince = cache_LastModified c,
         http_TLSCAFile = opts_TLSCAFile opts, http_TLSCertFile = opts_TLSCertFile opts,
         http_TLSKeyFile = opts_TLSKeyFile opts\<rparr> = (answer, world') \<and>
      (case answer of
         Inl err \<Rightarrow> groups = Inr (cache_Groups c) \<and>
           (\<exists>c'. cache' = Some c' \<and> cache_Groups c' = cache_Groups c \<and>
              cache_ConsecutiveFailures c' = cache_ConsecutiveFailures c + 1 \<and>
              cache_NextAttempt c' = opts_Now opts +
                identityGroupFeedBackoff (opts_BackoffBase opts) (opts_BackoffMax opts) (cache_ConsecutiveFailures c + 1))
       | Inr _ \<Rightarrow> \<forall>gs. groups = Inr gs \<longrightarrow>
           (\<exists>c'. cache' = Some c' \<and> cache_Groups c' = gs \<and> cache_ConsecutiveFailures c' = 0 \<and>
              cache_NextAttempt c' = zero_time))))"
  using assms
  by (auto simp: loadIdentityGroupObservationsURL_def after_fetch_def recordIdentityGroupFeedFailure_def
      recordIdentityGroupFeedSuccess_def time_IsZero_def Let_def split: sum.splits prod.splits if_splits)

end
