(* ===== verification/Resolver.thy ===== *)
theory Resolver
  imports DesiredState PrefixRange
begin

text \<open>
  The topology resolver, \<open>internal/topology/resolver.go\<close>: what happens to a packet of a VPC, decided by
  endpoints, destination NAT, load balancers, policy routes and route tables, in this order, and
  completed with source NAT and a gateway. The maps of the state are association lists in the order
  in which \<open>range\<close> visits them.
\<close>

section \<open>State, packets, decisions\<close>

record State =
  topo_VPCs :: "(string, VPC) gomap"
  topo_Subnets :: "(string, Subnet) gomap"
  topo_Endpoints :: "(string, Endpoint) gomap"
  topo_RouteTables :: "(string, RouteTable) gomap"
  topo_PolicyRoutes :: "PolicyRoute list"
  topo_Gateways :: "(string, Gateway) gomap"
  topo_NATRules :: "(string, NATRule) gomap"
  topo_LoadBalancers :: "(string, LoadBalancer) gomap"
  topo_DNSRecords :: "DNSRecord list"

record RoutedPacket =
  rp_SourcePort :: u16
  rp_VPC :: string
  rp_Source :: addr
  rp_Dest :: addr
  rp_Protocol :: Protocol
  rp_DestPort :: u16

record PolicyRouteSelection =
  prs_VPC :: string
  prs_Name :: string
  prs_Priority :: int
  prs_Action :: Action
  prs_Match :: RouteMatch
  prs_NextHops :: "addr list"
  prs_SelectedNextHop :: addr
  prs_ContinuesTo :: string

record RouteTableSelection =
  rts_VPC :: string
  rts_Name :: string
  rts_Destination :: prefix
  rts_Action :: Action
  rts_NextHops :: "addr list"
  rts_SelectedNextHop :: addr

record RouteDecision =
  rd_Action :: Action
  rd_NextHop :: addr
  rd_NextHops :: "addr list"
  rd_Gateway :: string
  rd_Translated :: addr
  rd_TranslatedPort :: u16
  rd_MatchedBy :: string
  rd_Destination :: string
  rd_PolicyRoute :: "PolicyRouteSelection option"
  rd_RouteTable :: "RouteTableSelection option"

definition zero_RouteDecision :: RouteDecision where
  "zero_RouteDecision =
     \<lparr>rd_Action = '''', rd_NextHop = ZeroAddr, rd_NextHops = [], rd_Gateway = '''', rd_Translated = ZeroAddr,
      rd_TranslatedPort = 0, rd_MatchedBy = '''', rd_Destination = '''', rd_PolicyRoute = None, rd_RouteTable = None\<rparr>"


section \<open>Endpoints and destination NAT\<close>

definition findEndpoint :: "State \<Rightarrow> string \<Rightarrow> addr \<Rightarrow> Endpoint option" where
  "findEndpoint state vpc dest = List.find (\<lambda>e. ep_VPC e = vpc \<and> ep_IP e = dest) (map snd (topo_Endpoints state))"

text \<open>\<open>findEndpoint\<close> returns the endpoint with its key, which is the empty string when there is none.\<close>

definition endpoint_key :: "Endpoint option \<Rightarrow> string" where
  "endpoint_key e = (case e of None \<Rightarrow> '''' | Some e \<Rightarrow> EndpointKey (ep_VPC e) (ep_ID e))"

definition dnatPortMatches :: "NATRule \<Rightarrow> RoutedPacket \<Rightarrow> bool" where
  "dnatPortMatches rule packet =
     (if nat_ExternalPort rule = 0 then True
      else (let protocol = (if nat_Protocol rule = '''' then ProtocolAny else nat_Protocol rule)
            in protocol = rp_Protocol packet \<and> rp_DestPort packet = nat_ExternalPort rule))"

definition dnat_applies :: "RoutedPacket \<Rightarrow> NATRule \<Rightarrow> bool" where
  "dnat_applies packet rule \<longleftrightarrow>
     nat_VPC rule = rp_VPC packet \<and> (nat_Type rule = ActionDNAT \<or> nat_Type rule = ActionDNATSNAT) \<and>
     nat_ExternalIP rule = rp_Dest packet \<and> dnatPortMatches rule packet"

definition resolveDNAT :: "State \<Rightarrow> RoutedPacket \<Rightarrow> RouteDecision option" where
  "resolveDNAT state packet =
     (case List.find (dnat_applies packet) (map snd (topo_NATRules state)) of
        None \<Rightarrow> None
      | Some rule \<Rightarrow>
          (let endpointID = endpoint_key (findEndpoint state (rp_VPC packet) (nat_TargetIP rule))
           in Some (zero_RouteDecision
             \<lparr>rd_Action := ActionAllow, rd_Translated := nat_TargetIP rule,
              rd_TranslatedPort := (if nat_TargetPort rule \<noteq> 0 then nat_TargetPort rule else 0),
              rd_MatchedBy := ''nat/'' @ nat_Name rule,
              rd_Destination := (if endpointID \<noteq> '''' then endpointID else addr_String (nat_TargetIP rule))\<rparr>)))"


section \<open>Load balancers\<close>

definition findEndpointByIP :: "State \<Rightarrow> string \<Rightarrow> addr \<Rightarrow> Endpoint option" where
  "findEndpointByIP state vpc ip = List.find (\<lambda>e. ep_VPC e = vpc \<and> ep_IP e = ip) (map snd (topo_Endpoints state))"

definition subnetContainsSource :: "State \<Rightarrow> string \<Rightarrow> string \<Rightarrow> addr \<Rightarrow> bool" where
  "subnetContainsSource state vpc subnet source =
     (if \<not> addr_IsValid source then False
      else list_ex (\<lambda>candidate. subnet_VPC candidate = vpc \<and> subnet_Name candidate = subnet \<and>
             prefix_Contains (subnet_CIDR candidate) source) (map snd (topo_Subnets state)))"

text \<open>The endpoint of the source is the zero value, whose ID is empty, when there is none.\<close>

definition loadBalancerAllowsSourceSubnet :: "State \<Rightarrow> LoadBalancer \<Rightarrow> Endpoint option \<Rightarrow> addr \<Rightarrow> bool" where
  "loadBalancerAllowsSourceSubnet state lb endpoint source =
     list_ex (\<lambda>subnet.
       (case endpoint of None \<Rightarrow> False | Some e \<Rightarrow> ep_ID e \<noteq> '''' \<and> ep_Subnet e = subnet) \<or>
       subnetContainsSource state (lb_VPC lb) subnet source) (lb_Subnets lb)"

definition healthyLoadBalancerBackends :: "LoadBalancerBackend list \<Rightarrow> LoadBalancerBackend list" where
  "healthyLoadBalancerBackends candidates = filter IsHealthy candidates"

definition loadBalancerSelectionValue :: "string \<Rightarrow> RoutedPacket \<Rightarrow> string" where
  "loadBalancerSelectionValue field packet =
     (if field \<in> set [''ip_src'', ''ipv6_src''] then addr_String (rp_Source packet)
      else if field \<in> set [''ip_dst'', ''ipv6_dst''] then addr_String (rp_Dest packet)
      else if field = ''tp_src'' then u16_String (rp_SourcePort packet)
      else if field = ''tp_dst'' then u16_String (rp_DestPort packet)
      else '''')"

definition loadBalancerBackendScore :: "LoadBalancerBackend \<Rightarrow> RoutedPacket \<Rightarrow> string list \<Rightarrow> u32" where
  "loadBalancerBackendScore backend packet selectionFields =
     fnv_New32a (string_bytes
       (if selectionFields \<noteq> [] then
          strings_Join [rp_VPC packet, addr_String (backend_IP backend), u16_String (backend_Port backend)] ''|'' @
          concat (map (\<lambda>field. ''|'' @ field @ ''='' @ loadBalancerSelectionValue field packet) selectionFields)
        else
          strings_Join [rp_VPC packet, addr_String (rp_Source packet), u16_String (rp_SourcePort packet),
            addr_String (rp_Dest packet), rp_Protocol packet, u16_String (rp_DestPort packet),
            addr_String (backend_IP backend), u16_String (backend_Port backend)] ''|''))"

definition compareLoadBalancerBackend :: "LoadBalancerBackend \<Rightarrow> LoadBalancerBackend \<Rightarrow> int" where
  "compareLoadBalancerBackend a b =
     (let cmp = addr_Compare (backend_IP a) (backend_IP b)
      in if cmp \<noteq> 0 then cmp
         else if backend_Port a < backend_Port b then - 1
         else if backend_Port a > backend_Port b then 1
         else 0)"

text \<open>
  Both selections of the resolver keep the element with the highest score, and among those the least
  one: a loop that replaces the selected element by a better one, the first element being selected
  at the start.
\<close>

definition better_backend :: "RoutedPacket \<Rightarrow> string list \<Rightarrow> LoadBalancerBackend \<Rightarrow> LoadBalancerBackend \<Rightarrow> bool" where
  "better_backend packet selectionFields backend selected \<longleftrightarrow>
     (let score = loadBalancerBackendScore backend packet selectionFields;
          selectedScore = loadBalancerBackendScore selected packet selectionFields
      in score > selectedScore \<or> (score = selectedScore \<and> compareLoadBalancerBackend backend selected < 0))"

definition selectLoadBalancerBackend :: "LoadBalancer \<Rightarrow> LoadBalancerBackend list \<Rightarrow> RoutedPacket \<Rightarrow> LoadBalancerBackend option" where
  "selectLoadBalancerBackend lb backends packet =
     select_best (better_backend packet (EffectiveSelectionFields lb)) backends"

definition frontend_applies :: "State \<Rightarrow> RoutedPacket \<Rightarrow> Endpoint option \<Rightarrow> LoadBalancer \<times> LoadBalancerFrontend \<Rightarrow> bool" where
  "frontend_applies state packet sourceEndpoint lf \<longleftrightarrow>
     (case lf of (lb, frontend) \<Rightarrow>
       front_VIP frontend = rp_Dest packet \<and> front_Port frontend = rp_DestPort packet \<and>
       front_Protocol frontend = rp_Protocol packet \<and>
       (lb_Subnets lb \<noteq> [] \<longrightarrow> loadBalancerAllowsSourceSubnet state lb sourceEndpoint (rp_Source packet)) \<and>
       healthyLoadBalancerBackends (front_Backends frontend) \<noteq> [])"

text \<open>The frontends of the load balancers of a VPC, in the order of the two loops.\<close>

definition vpc_frontends :: "State \<Rightarrow> string \<Rightarrow> (LoadBalancer \<times> LoadBalancerFrontend) list" where
  "vpc_frontends state vpc =
     concat (map (\<lambda>lb. map (Pair lb) (Frontends lb)) (filter (\<lambda>lb. lb_VPC lb = vpc) (map snd (topo_LoadBalancers state))))"

definition resolveLoadBalancer :: "State \<Rightarrow> RoutedPacket \<Rightarrow> RouteDecision option" where
  "resolveLoadBalancer state packet =
     (let sourceEndpoint = findEndpointByIP state (rp_VPC packet) (rp_Source packet) in
      case List.find (frontend_applies state packet sourceEndpoint) (vpc_frontends state (rp_VPC packet)) of
        None \<Rightarrow> None
      | Some (lb, frontend) \<Rightarrow>
          (case selectLoadBalancerBackend lb (healthyLoadBalancerBackends (front_Backends frontend)) packet of
             None \<Rightarrow> None
           | Some backend \<Rightarrow> Some (zero_RouteDecision
               \<lparr>rd_Action := ActionAllow, rd_Translated := backend_IP backend, rd_TranslatedPort := backend_Port backend,
                rd_MatchedBy := ''load-balancer/'' @ lb_Name lb, rd_Destination := addr_String (backend_IP backend)\<rparr>)))"

section \<open>Equal-cost next hops\<close>

definition ecmpNextHopScore :: "string \<Rightarrow> addr \<Rightarrow> RoutedPacket \<Rightarrow> u32" where
  "ecmpNextHopScore scope nextHop packet =
     fnv_New32a (string_bytes
       (strings_Join [scope, rp_VPC packet, addr_String (rp_Source packet), u16_String (rp_SourcePort packet),
          addr_String (rp_Dest packet), rp_Protocol packet, u16_String (rp_DestPort packet), addr_String nextHop] ''|''))"

definition better_next_hop :: "string \<Rightarrow> RoutedPacket \<Rightarrow> addr \<Rightarrow> addr \<Rightarrow> bool" where
  "better_next_hop scope packet nextHop selected \<longleftrightarrow>
     (let score = ecmpNextHopScore scope nextHop packet;
          selectedScore = ecmpNextHopScore scope selected packet
      in score > selectedScore \<or> (score = selectedScore \<and> addr_Compare nextHop selected < 0))"

definition selectECMPNextHop :: "string \<Rightarrow> addr list \<Rightarrow> RoutedPacket \<Rightarrow> addr option" where
  "selectECMPNextHop scope nextHops packet = select_best (better_next_hop scope packet) nextHops"

text \<open>The address left zero when there are no next hops.\<close>

definition selected_next_hop :: "string \<Rightarrow> addr list \<Rightarrow> RoutedPacket \<Rightarrow> addr" where
  "selected_next_hop scope nextHops packet =
     (case selectECMPNextHop scope nextHops packet of None \<Rightarrow> ZeroAddr | Some nextHop \<Rightarrow> nextHop)"


section \<open>Policy routes\<close>

definition topology_portRangesContain :: "PortRange list \<Rightarrow> u16 \<Rightarrow> bool" where
  "topology_portRangesContain ports port = list_ex (\<lambda>p. port \<ge> port_From p \<and> port \<le> port_To p) ports"

definition routeMatch :: "RouteMatch \<Rightarrow> RoutedPacket \<Rightarrow> bool" where
  "routeMatch m packet =
     (if prefix_IsValid (match_Source m) \<and> \<not> prefix_Contains (match_Source m) (rp_Source packet) then False
      else if prefix_IsValid (match_Destination m) \<and> \<not> prefix_Contains (match_Destination m) (rp_Dest packet) then False
      else if match_Protocol m \<noteq> '''' \<and> match_Protocol m \<noteq> ProtocolAny \<and> match_Protocol m \<noteq> rp_Protocol packet then False
      else if match_SrcPorts m \<noteq> [] \<and> \<not> topology_portRangesContain (match_SrcPorts m) (rp_SourcePort packet) then False
      else if match_DstPorts m \<noteq> [] \<and> \<not> topology_portRangesContain (match_DstPorts m) (rp_DestPort packet) then False
      else True)"

definition policy_route_applies :: "RoutedPacket \<Rightarrow> PolicyRoute \<Rightarrow> bool" where
  "policy_route_applies packet route \<longleftrightarrow> proute_VPC route = rp_VPC packet \<and> routeMatch (proute_Match route) packet"

definition higher_priority :: "PolicyRoute \<Rightarrow> PolicyRoute \<Rightarrow> bool" where
  "higher_priority a b \<longleftrightarrow> proute_Priority a > proute_Priority b"

definition resolvePolicyRoute :: "PolicyRoute list \<Rightarrow> RoutedPacket \<Rightarrow> RouteDecision option" where
  "resolvePolicyRoute routes packet =
     (case List.find (policy_route_applies packet) (sort_SliceStable higher_priority routes) of
        None \<Rightarrow> None
      | Some route \<Rightarrow>
          (let nextHops = RerouteNextHops (proute_Action route);
               nextHop = selected_next_hop (proute_Name route) nextHops packet
           in Some (zero_RouteDecision
             \<lparr>rd_Action := action_Type (proute_Action route), rd_NextHops := nextHops, rd_NextHop := nextHop,
              rd_MatchedBy := ''policy-route/'' @ proute_Name route,
              rd_PolicyRoute := Some
                \<lparr>prs_VPC = proute_VPC route, prs_Name = proute_Name route, prs_Priority = proute_Priority route,
                 prs_Action = action_Type (proute_Action route), prs_Match = proute_Match route, prs_NextHops = nextHops,
                 prs_SelectedNextHop = nextHop, prs_ContinuesTo = ''''\<rparr>\<rparr>)))"


section \<open>Route tables\<close>

text \<open>The routes of the tables of a VPC, with the names of their tables, in the order of the two loops.\<close>

definition vpc_routes :: "(string, RouteTable) gomap \<Rightarrow> string \<Rightarrow> (string \<times> Route) list" where
  "vpc_routes tables vpc =
     concat (map (\<lambda>t. map (Pair (table_Name t)) (table_Routes t)) (filter (\<lambda>t. table_VPC t = vpc) (map snd tables)))"

definition longer_route :: "string \<times> Route \<Rightarrow> string \<times> Route \<Rightarrow> bool" where
  "longer_route a b \<longleftrightarrow> prefix_Bits (route_Destination (snd a)) > prefix_Bits (route_Destination (snd b))"

definition selected_route :: "(string, RouteTable) gomap \<Rightarrow> RoutedPacket \<Rightarrow> (string \<times> Route) option" where
  "selected_route tables packet =
     select_best longer_route
       (filter (\<lambda>(_, route). prefix_Contains (route_Destination route) (rp_Dest packet)) (vpc_routes tables (rp_VPC packet)))"

definition resolveRouteTables :: "(string, RouteTable) gomap \<Rightarrow> RoutedPacket \<Rightarrow> RouteDecision option" where
  "resolveRouteTables tables packet =
     (case selected_route tables packet of
        None \<Rightarrow> None
      | Some (selectedName, selected) \<Rightarrow>
          Some (if route_Blackhole selected then
            zero_RouteDecision
              \<lparr>rd_Action := ActionDrop, rd_MatchedBy := ''route-table/'' @ selectedName,
               rd_RouteTable := Some
                 \<lparr>rts_VPC = rp_VPC packet, rts_Name = selectedName, rts_Destination = route_Destination selected,
                  rts_Action = ActionDrop, rts_NextHops = [], rts_SelectedNextHop = ZeroAddr\<rparr>\<rparr>
          else
            (let nextHops = RouteNextHops selected;
                 nextHop = selected_next_hop (selectedName @ ''/'' @ prefix_String (route_Destination selected)) nextHops packet
             in zero_RouteDecision
               \<lparr>rd_Action := ActionReroute, rd_NextHops := nextHops, rd_NextHop := nextHop,
                rd_MatchedBy := ''route-table/'' @ selectedName,
                rd_RouteTable := Some
                  \<lparr>rts_VPC = rp_VPC packet, rts_Name = selectedName, rts_Destination = route_Destination selected,
                   rts_Action = ActionReroute, rts_NextHops = nextHops, rts_SelectedNextHop = nextHop\<rparr>\<rparr>)))"


section \<open>Source NAT and gateways\<close>

definition sorted_values :: "(string, 'v) gomap \<Rightarrow> 'v list" where
  "sorted_values m = List.map_filter (map_of m) (sort_Strings (map fst m))"

definition sortedNATRules :: "(string, NATRule) gomap \<Rightarrow> NATRule list" where
  "sortedNATRules rules = sorted_values rules"

definition sortedGateways :: "(string, Gateway) gomap \<Rightarrow> Gateway list" where
  "sortedGateways gateways = sorted_values gateways"

definition applyNATAndGateway :: "State \<Rightarrow> RoutedPacket \<Rightarrow> RouteDecision \<Rightarrow> RouteDecision" where
  "applyNATAndGateway state packet decision =
     (if rd_Action decision = ActionDrop \<or> rd_Action decision = ActionReject then decision
      else
        (let decision = (if rd_Action decision = '''' then decision\<lparr>rd_Action := ActionAllow\<rparr> else decision);
             decision =
               (case List.find (\<lambda>rule. nat_VPC rule = rp_VPC packet \<and> nat_Type rule = ActionSNAT \<and>
                        prefix_Contains (nat_MatchCIDR rule) (rp_Source packet)) (sortedNATRules (topo_NATRules state)) of
                  None \<Rightarrow> decision
                | Some rule \<Rightarrow> decision\<lparr>rd_Translated := nat_ExternalIP rule\<rparr>);
             gateways = filter (\<lambda>g. gw_VPC g = rp_VPC packet) (sortedGateways (topo_Gateways state))
         in case List.find (\<lambda>g. \<not> (addr_IsValid (rd_NextHop decision) \<and> gw_LANIP g \<noteq> rd_NextHop decision)) gateways of
              Some g \<Rightarrow> decision\<lparr>rd_Gateway := gw_Name g\<rparr>
            | None \<Rightarrow>
                (case gateways of
                   [] \<Rightarrow> decision
                 | g # _ \<Rightarrow> decision\<lparr>rd_Gateway := gw_Name g\<rparr>)))"


section \<open>Resolution\<close>

definition continue_to_table :: "RouteDecision \<Rightarrow> RouteDecision \<Rightarrow> RouteDecision" where
  "continue_to_table decision routed =
     (let routed = routed\<lparr>rd_MatchedBy := rd_MatchedBy decision, rd_PolicyRoute := rd_PolicyRoute decision\<rparr>
      in case (rd_PolicyRoute routed, rd_RouteTable routed) of
           (Some p, Some t) \<Rightarrow> routed\<lparr>rd_PolicyRoute := Some (p\<lparr>prs_ContinuesTo := ''route-table/'' @ rts_Name t\<rparr>)\<rparr>
         | _ \<Rightarrow> routed)"

definition Resolve :: "State \<Rightarrow> RoutedPacket \<Rightarrow> RouteDecision result" where
  "Resolve state packet =
     (if rp_VPC packet = '''' then Inl (Errorf ''packet vpc is required'' [])
      else if \<not> addr_IsValid (rp_Source packet) \<or> \<not> addr_IsValid (rp_Dest packet) then
        Inl (Errorf ''packet source and destination are required'' [])
      else
        (let packet = (if rp_Protocol packet = '''' then packet\<lparr>rp_Protocol := ProtocolAny\<rparr> else packet);
             endpointID = endpoint_key (findEndpoint state (rp_VPC packet) (rp_Dest packet))
         in if endpointID \<noteq> '''' then
              Inr (zero_RouteDecision\<lparr>rd_Action := ActionAllow, rd_MatchedBy := ''endpoint'', rd_Destination := endpointID\<rparr>)
            else case resolveDNAT state packet of
              Some decision \<Rightarrow> Inr decision
            | None \<Rightarrow>
            case resolveLoadBalancer state packet of
              Some decision \<Rightarrow> Inr decision
            | None \<Rightarrow>
            case resolvePolicyRoute (topo_PolicyRoutes state) packet of
              Some decision \<Rightarrow>
                (if rd_Action decision = ActionAllow then
                   (case resolveRouteTables (topo_RouteTables state) packet of
                      Some routed \<Rightarrow> Inr (applyNATAndGateway state packet (continue_to_table decision routed))
                    | None \<Rightarrow> Inr (applyNATAndGateway state packet decision))
                 else Inr (applyNATAndGateway state packet decision))
            | None \<Rightarrow>
            case resolveRouteTables (topo_RouteTables state) packet of
              Some decision \<Rightarrow> Inr (applyNATAndGateway state packet decision)
            | None \<Rightarrow> Inr (zero_RouteDecision\<lparr>rd_Action := ActionDrop, rd_MatchedBy := ''no-route''\<rparr>)))"

section \<open>The route with the longest prefix, the policy route with the highest priority\<close>

interpretation longer_route_order: strict_weak_order longer_route
  by unfold_locales (auto simp: longer_route_def)

interpretation priority_order: strict_weak_order higher_priority
  by unfold_locales (auto simp: higher_priority_def)

lemma set_vpc_routes:
  "(n, r) \<in> set (vpc_routes tables vpc) \<longleftrightarrow>
     (\<exists>k t. (k, t) \<in> set tables \<and> table_VPC t = vpc \<and> table_Name t = n \<and> r \<in> set (table_Routes t))"
  by (force simp: vpc_routes_def)

lemma selected_route_longest:
  assumes "selected_route tables packet = Some (n, r)"
  shows "(n, r) \<in> set (vpc_routes tables (rp_VPC packet)) \<and> prefix_Contains (route_Destination r) (rp_Dest packet) \<and>
    (\<forall>(n', r') \<in> set (vpc_routes tables (rp_VPC packet)). prefix_Contains (route_Destination r') (rp_Dest packet) \<longrightarrow>
       prefix_Bits (route_Destination r') \<le> prefix_Bits (route_Destination r))"
  using assms select_best_mem [of longer_route] longer_route_order.select_best_max
  by (fastforce simp: selected_route_def longer_route_def)

lemma selected_route_None:
  "selected_route tables packet = None \<longleftrightarrow>
     (\<forall>(n, r) \<in> set (vpc_routes tables (rp_VPC packet)). \<not> prefix_Contains (route_Destination r) (rp_Dest packet))"
  by (auto simp: selected_route_def filter_empty_conv)

lemma find_sorted_best:
  assumes "strict_weak_order lt" and "List.find P (sort_SliceStable lt xs) = Some x"
  shows "x \<in> set xs \<and> P x \<and> (\<forall>y \<in> set xs. P y \<longrightarrow> \<not> lt y x)"
proof -
  let ?s = "sort_SliceStable lt xs"
  have sorted: "sorted_wrt (\<lambda>a b. \<not> lt b a) ?s"
    using strict_weak_order.sorted_sort_SliceStable [OF assms(1)] .
  from assms(2) obtain i where i: "i < length ?s" "?s ! i = x" "P x" "\<forall>j < i. \<not> P (?s ! j)"
    by (auto simp: find_Some_iff)
  have "\<not> lt y x" if "y \<in> set xs" "P y" for y
  proof -
    from that(1) obtain j where j: "j < length ?s" "?s ! j = y"
      by (metis in_set_conv_nth set_sort_SliceStable)
    with i(4) that(2) have "i \<le> j" by (metis linorder_not_less)
    then show ?thesis
      using sorted i(1,2) j strict_weak_order.swo_irrefl [OF assms(1)]
      by (cases "i = j") (auto simp: sorted_wrt_iff_nth_less)
  qed
  moreover have "x \<in> set xs" using i(1,2) by (metis nth_mem set_sort_SliceStable)
  ultimately show ?thesis using i(3) by blast
qed

text \<open>Equal-cost next hops: the highest score, and among equal scores the least address.\<close>

lemma addr_Compare_strict_weak_order: "strict_weak_order (\<lambda>a b. addr_Compare a b < 0)"
  unfolding less_addr_def [symmetric] by unfold_locales auto

lemma score_strict_weak_order:
  fixes score :: "'a \<Rightarrow> 'k::linorder"
  assumes "strict_weak_order lt"
  shows "strict_weak_order (\<lambda>a b. score a > score b \<or> (score a = score b \<and> lt a b))"
proof
  fix x y z
  show "score x > score y \<or> (score x = score y \<and> lt x y) \<Longrightarrow> \<not> (score y > score x \<or> (score y = score x \<and> lt y x))"
    using strict_weak_order.swo_asym [OF assms, of x y] by auto
  assume "\<not> (score x > score y \<or> (score x = score y \<and> lt x y))" "\<not> (score y > score z \<or> (score y = score z \<and> lt y z))"
  then show "\<not> (score x > score z \<or> (score x = score z \<and> lt x z))"
    using strict_weak_order.swo_ntrans [OF assms, of x y z] by (cases "score x = score y") auto
qed

interpretation next_hop_order: strict_weak_order "better_next_hop scope packet" for scope packet
  unfolding better_next_hop_def Let_def by (rule score_strict_weak_order [OF addr_Compare_strict_weak_order])

definition best_hop :: "string \<Rightarrow> RoutedPacket \<Rightarrow> addr list \<Rightarrow> addr \<Rightarrow> bool" where
  "best_hop scope packet hops h \<longleftrightarrow>
     (if hops = [] then h = ZeroAddr
      else h \<in> set hops \<and>
        (\<forall>h' \<in> set hops. ecmpNextHopScore scope h' packet \<le> ecmpNextHopScore scope h packet \<and>
           (ecmpNextHopScore scope h' packet = ecmpNextHopScore scope h packet \<longrightarrow> h \<le> h')))"

lemma selected_next_hop_best: "best_hop scope packet hops (selected_next_hop scope hops packet)"
proof (cases "selectECMPNextHop scope hops packet")
  case None
  moreover from this have "hops = []" by (simp add: selectECMPNextHop_def)
  ultimately show ?thesis by (simp add: selected_next_hop_def best_hop_def)
next
  case (Some h)
  then have h: "select_best (better_next_hop scope packet) hops = Some h" by (simp add: selectECMPNextHop_def)
  have "\<not> better_next_hop scope packet h' h" if "h' \<in> set hops" for h'
    using next_hop_order.select_best_max [OF h that] .
  then show ?thesis
    using select_best_mem [OF h] Some
    by (auto simp: selected_next_hop_def best_hop_def better_next_hop_def Let_def not_less less_addr_def [symmetric])
qed

text \<open>
  The first element of a stable sort that satisfies a condition is, of all that do, one with nothing
  before it in the order, and the first of those in the list.
\<close>

definition first_best :: "('a \<Rightarrow> 'a \<Rightarrow> bool) \<Rightarrow> ('a \<Rightarrow> bool) \<Rightarrow> 'a list \<Rightarrow> 'a \<Rightarrow> bool" where
  "first_best lt P xs x \<longleftrightarrow>
     (\<exists>as bs. xs = as @ x # bs \<and> P x \<and> (\<forall>y \<in> set as. P y \<longrightarrow> lt x y) \<and> (\<forall>y \<in> set bs. P y \<longrightarrow> \<not> lt y x))"

lemma find_insert_by:
  assumes "strict_weak_order lt" and "sorted_wrt (\<lambda>a b. \<not> lt b a) ys"
  shows "List.find P (insert_by lt x ys) =
    (if P x then (case List.find P ys of Some y \<Rightarrow> if lt y x then Some y else Some x | None \<Rightarrow> Some x) else List.find P ys)"
  using assms(2)
proof (induction ys)
  case (Cons y ys)
  have after: "\<not> lt z y" if "z \<in> set ys" for z using Cons.prems that by simp
  have "\<not> lt z x" if "\<not> lt y x" "z \<in> set ys" for z
    using strict_weak_order.swo_ntrans [OF assms(1) after [OF that(2)] that(1)] .
  then have "\<not> lt z x" if "\<not> lt y x" "List.find P ys = Some z" for z
    using that by (auto simp: find_Some_iff)
  with Cons show ?case by (auto split: option.splits)
qed simp

lemma find_sorted_first:
  assumes "strict_weak_order lt" and "List.find P (sort_SliceStable lt xs) = Some x"
  shows "first_best lt P xs x"
  using assms(2)
proof (induction xs arbitrary: x)
  case (Cons a xs)
  have sorted: "sorted_wrt (\<lambda>a b. \<not> lt b a) (sort_SliceStable lt xs)"
    using strict_weak_order.sorted_sort_SliceStable [OF assms(1)] .
  note found = Cons.prems [simplified sort_SliceStable_Cons find_insert_by [OF assms(1) sorted]]
  show ?case
  proof (cases "List.find P (sort_SliceStable lt xs)")
    case None
    then have "\<forall>y \<in> set xs. \<not> P y" by (simp add: find_None_iff)
    with found None show ?thesis
      unfolding first_best_def by (intro exI [of _ "[]"] exI [of _ xs]) (auto split: if_splits)
  next
    case (Some y)
    from Cons.IH [OF this] obtain as bs where y: "xs = as @ y # bs" "P y" "\<forall>z \<in> set as. P z \<longrightarrow> lt y z"
      "\<forall>z \<in> set bs. P z \<longrightarrow> \<not> lt z y" by (auto simp: first_best_def)
    show ?thesis
    proof (cases "P a \<and> \<not> lt y a")
      case True
      have "\<not> lt z a" if "z \<in> set xs" "P z" for z
        using that y True strict_weak_order.swo_asym [OF assms(1), of y z] strict_weak_order.swo_ntrans [OF assms(1), of z y a] by auto
      with True found Some show ?thesis
        unfolding first_best_def by (intro exI [of _ "[]"] exI [of _ xs]) auto
    next
      case False
      with y found Some show ?thesis
        unfolding first_best_def by (intro exI [of _ "a # as"] exI [of _ bs]) (auto split: if_splits)
    qed
  qed
qed simp

text \<open>
  What the routing decisions have to be. A policy route covers a packet of its VPC that every given
  part of its match admits.
\<close>

definition in_ranges :: "PortRange list \<Rightarrow> u16 \<Rightarrow> bool" where
  "in_ranges ranges port \<longleftrightarrow> (\<exists>p \<in> set ranges. port_From p \<le> port \<and> port \<le> port_To p)"

definition policy_route_covers :: "RoutedPacket \<Rightarrow> PolicyRoute \<Rightarrow> bool" where
  "policy_route_covers packet route \<longleftrightarrow>
     (let m = proute_Match route in
      proute_VPC route = rp_VPC packet \<and>
      (prefix_IsValid (match_Source m) \<longrightarrow> prefix_Contains (match_Source m) (rp_Source packet)) \<and>
      (prefix_IsValid (match_Destination m) \<longrightarrow> prefix_Contains (match_Destination m) (rp_Dest packet)) \<and>
      match_Protocol m \<in> {'''', ProtocolAny, rp_Protocol packet} \<and>
      (match_SrcPorts m = [] \<or> in_ranges (match_SrcPorts m) (rp_SourcePort packet)) \<and>
      (match_DstPorts m = [] \<or> in_ranges (match_DstPorts m) (rp_DestPort packet)))"

lemma policy_route_applies_covers: "policy_route_applies = policy_route_covers"
proof -
  have "topology_portRangesContain ranges port \<longleftrightarrow> in_ranges ranges port" for ranges port
    by (simp add: topology_portRangesContain_def in_ranges_def list_ex_iff)
  then show ?thesis
    by (auto simp: fun_eq_iff policy_route_applies_def policy_route_covers_def routeMatch_def Let_def)
qed

text \<open>The policy route that decides: the highest priority, and the first in the list among equal ones.\<close>

definition top_policy_route :: "PolicyRoute list \<Rightarrow> RoutedPacket \<Rightarrow> PolicyRoute \<Rightarrow> bool" where
  "top_policy_route routes packet route \<longleftrightarrow>
     (\<exists>before after. routes = before @ route # after \<and> policy_route_covers packet route \<and>
        (\<forall>r \<in> set before. policy_route_covers packet r \<longrightarrow> proute_Priority r < proute_Priority route) \<and>
        (\<forall>r \<in> set after. policy_route_covers packet r \<longrightarrow> proute_Priority r \<le> proute_Priority route))"

text \<open>The routes of the tables that contain the destination, and those with the longest prefix.\<close>

definition table_route :: "(string, RouteTable) gomap \<Rightarrow> RoutedPacket \<Rightarrow> string \<Rightarrow> Route \<Rightarrow> bool" where
  "table_route tables packet n r \<longleftrightarrow>
     (\<exists>t \<in> snd ` set tables. table_VPC t = rp_VPC packet \<and> table_Name t = n \<and> r \<in> set (table_Routes t) \<and>
        prefix_Contains (route_Destination r) (rp_Dest packet))"

definition longest_table_route :: "(string, RouteTable) gomap \<Rightarrow> RoutedPacket \<Rightarrow> string \<Rightarrow> Route \<Rightarrow> bool" where
  "longest_table_route tables packet n r \<longleftrightarrow>
     table_route tables packet n r \<and>
     (\<forall>n' r'. table_route tables packet n' r' \<longrightarrow> prefix_Bits (route_Destination r') \<le> prefix_Bits (route_Destination r))"

text \<open>
  A decision taken from a route of a table: a blackhole drops the packet, any other route sends it to
  the best of its next hops.
\<close>

definition decided_by_table :: "RoutedPacket \<Rightarrow> RouteDecision \<Rightarrow> string \<Rightarrow> Route \<Rightarrow> bool" where
  "decided_by_table packet d n r \<longleftrightarrow>
     (\<exists>t. rd_RouteTable d = Some t \<and> rts_Name t = n \<and> rts_Destination t = route_Destination r) \<and>
     (if route_Blackhole r then rd_Action d = ActionDrop \<and> rd_NextHops d = [] \<and> rd_NextHop d = ZeroAddr
      else rd_Action d = ActionReroute \<and> rd_NextHops d = route_NextHops r \<and>
        best_hop (n @ ''/'' @ prefix_String (route_Destination r)) packet (route_NextHops r) (rd_NextHop d))"

text \<open>
  A decision taken from a policy route alone: its action, which is to allow where none is given, and
  the best of its next hops.
\<close>

definition decided_by_policy :: "RoutedPacket \<Rightarrow> RouteDecision \<Rightarrow> PolicyRoute \<Rightarrow> bool" where
  "decided_by_policy packet d route \<longleftrightarrow>
     rd_RouteTable d = None \<and>
     rd_Action d = (if action_Type (proute_Action route) = '''' then ActionAllow else action_Type (proute_Action route)) \<and>
     rd_NextHops d = action_NextHops (proute_Action route) \<and>
     best_hop (proute_Name route) packet (action_NextHops (proute_Action route)) (rd_NextHop d)"

text \<open>
  The decision when a policy route decides: it goes on to the tables if the route allows the packet
  and they have a route for it. The decision when none does: that of the tables, or to drop.
\<close>

definition policy_decision :: "State \<Rightarrow> RoutedPacket \<Rightarrow> PolicyRoute \<Rightarrow> RouteDecision \<Rightarrow> bool" where
  "policy_decision state packet route d \<longleftrightarrow>
     rd_MatchedBy d = ''policy-route/'' @ proute_Name route \<and>
     (\<exists>p. rd_PolicyRoute d = Some p \<and> prs_Name p = proute_Name route \<and>
        (if action_Type (proute_Action route) = ActionAllow \<and> (\<exists>n r. table_route (topo_RouteTables state) packet n r) then
           \<exists>n r. longest_table_route (topo_RouteTables state) packet n r \<and> decided_by_table packet d n r \<and>
             prs_ContinuesTo p = ''route-table/'' @ n
         else prs_ContinuesTo p = '''' \<and> decided_by_policy packet d route))"

definition table_decision :: "State \<Rightarrow> RoutedPacket \<Rightarrow> RouteDecision \<Rightarrow> bool" where
  "table_decision state packet d \<longleftrightarrow>
     rd_PolicyRoute d = None \<and>
     (if \<exists>n r. table_route (topo_RouteTables state) packet n r then
        \<exists>n r. longest_table_route (topo_RouteTables state) packet n r \<and> decided_by_table packet d n r \<and>
          rd_MatchedBy d = ''route-table/'' @ n
      else rd_RouteTable d = None \<and> rd_Action d = ActionDrop \<and> rd_NextHops d = [] \<and>
        rd_NextHop d = ZeroAddr \<and> rd_MatchedBy d = ''no-route'')"

lemma table_route_vpc_routes:
  "table_route tables packet n r \<longleftrightarrow>
     (n, r) \<in> set (vpc_routes tables (rp_VPC packet)) \<and> prefix_Contains (route_Destination r) (rp_Dest packet)"
  unfolding table_route_def set_vpc_routes by force

lemma resolvePolicyRoute_None:
  "resolvePolicyRoute routes packet = None \<longleftrightarrow> (\<forall>r \<in> set routes. \<not> policy_route_covers packet r)"
proof -
  have "resolvePolicyRoute routes packet = None \<longleftrightarrow>
      List.find (policy_route_applies packet) (sort_SliceStable higher_priority routes) = None"
    by (simp add: resolvePolicyRoute_def Let_def split: option.splits)
  then show ?thesis by (auto simp: find_None_iff policy_route_applies_covers)
qed

lemma resolvePolicyRoute_Some:
  assumes "resolvePolicyRoute routes packet = Some d"
  obtains route p where "top_policy_route routes packet route"
    and "rd_PolicyRoute d = Some p" "prs_Name p = proute_Name route" "prs_ContinuesTo p = ''''"
    and "rd_MatchedBy d = ''policy-route/'' @ proute_Name route" "rd_RouteTable d = None"
    and "rd_Action d = action_Type (proute_Action route)" "rd_NextHops d = action_NextHops (proute_Action route)"
    and "best_hop (proute_Name route) packet (action_NextHops (proute_Action route)) (rd_NextHop d)"
proof -
  from assms obtain route where found: "List.find (policy_route_applies packet) (sort_SliceStable higher_priority routes) = Some route"
    by (auto simp: resolvePolicyRoute_def split: option.splits)
  from find_sorted_first [OF priority_order.strict_weak_order_axioms found] have "top_policy_route routes packet route"
    unfolding first_best_def top_policy_route_def by (simp add: policy_route_applies_covers higher_priority_def not_less)
  with found assms selected_next_hop_best [of "proute_Name route" packet "action_NextHops (proute_Action route)"] show thesis
    by (intro that [of route]) (auto simp: resolvePolicyRoute_def zero_RouteDecision_def RerouteNextHops_def Let_def)
qed

lemma resolveRouteTables_None: "resolveRouteTables tables packet = None \<longleftrightarrow> (\<nexists>n r. table_route tables packet n r)"
  using selected_route_None [of tables packet] by (auto simp: resolveRouteTables_def table_route_vpc_routes split: option.splits)

lemma resolveRouteTables_Some:
  assumes "resolveRouteTables tables packet = Some d"
  obtains n r where "longest_table_route tables packet n r" "decided_by_table packet d n r"
    "rd_PolicyRoute d = None" "rd_MatchedBy d = ''route-table/'' @ n"
proof -
  from assms obtain n r where sel: "selected_route tables packet = Some (n, r)"
    by (auto simp: resolveRouteTables_def split: option.splits)
  from selected_route_longest [OF sel] have "longest_table_route tables packet n r"
    by (auto simp: longest_table_route_def table_route_vpc_routes)
  with sel assms selected_next_hop_best [of "n @ ''/'' @ prefix_String (route_Destination r)" packet "route_NextHops r"] show thesis
    by (intro that [of n r])
      (auto simp: resolveRouteTables_def decided_by_table_def zero_RouteDecision_def RouteNextHops_def Let_def split: if_splits)
qed

lemma applyNATAndGateway_routes [simp]:
  "rd_PolicyRoute (applyNATAndGateway state packet d) = rd_PolicyRoute d"
  "rd_RouteTable (applyNATAndGateway state packet d) = rd_RouteTable d"
  "rd_MatchedBy (applyNATAndGateway state packet d) = rd_MatchedBy d"
  "rd_NextHops (applyNATAndGateway state packet d) = rd_NextHops d"
  "rd_NextHop (applyNATAndGateway state packet d) = rd_NextHop d"
  "rd_Action (applyNATAndGateway state packet d) = (if rd_Action d = '''' then ActionAllow else rd_Action d)"
  by (auto simp: applyNATAndGateway_def Let_def split: option.splits list.splits)

lemma decided_by_table_NAT: "decided_by_table packet d n r \<Longrightarrow> decided_by_table packet (applyNATAndGateway state packet d) n r"
  by (simp add: decided_by_table_def split: if_splits)

lemma decided_by_table_continue:
  assumes "decided_by_table packet r n route" and "rd_PolicyRoute d = Some p"
  shows "decided_by_table packet (continue_to_table d r) n route"
    and "\<exists>p'. rd_PolicyRoute (continue_to_table d r) = Some p' \<and> prs_Name p' = prs_Name p \<and> prs_ContinuesTo p' = ''route-table/'' @ n"
    and "rd_MatchedBy (continue_to_table d r) = rd_MatchedBy d"
  using assms by (auto simp: decided_by_table_def continue_to_table_def Let_def split: option.splits if_splits)

lemma table_decision_resolved:
  assumes "resolveRouteTables (topo_RouteTables state) packet = Some d"
  shows "table_decision state packet (applyNATAndGateway state packet d)"
proof -
  from resolveRouteTables_Some [OF assms] obtain n r where d: "longest_table_route (topo_RouteTables state) packet n r"
    "decided_by_table packet d n r" "rd_PolicyRoute d = None" "rd_MatchedBy d = ''route-table/'' @ n" .
  moreover from d(1) have "table_route (topo_RouteTables state) packet n r" by (simp add: longest_table_route_def)
  ultimately show ?thesis using decided_by_table_NAT [OF d(2)] by (auto simp: table_decision_def)
qed

lemma policy_decision_resolved:
  assumes "resolvePolicyRoute (topo_PolicyRoutes state) packet = Some d"
  shows "\<exists>route. top_policy_route (topo_PolicyRoutes state) packet route \<and>
    policy_decision state packet route (applyNATAndGateway state packet
      (case resolveRouteTables (topo_RouteTables state) packet of
         Some routed \<Rightarrow> if rd_Action d = ActionAllow then continue_to_table d routed else d
       | None \<Rightarrow> d))"
proof -
  from resolvePolicyRoute_Some [OF assms] obtain route p where
    top: "top_policy_route (topo_PolicyRoutes state) packet route"
    and p: "rd_PolicyRoute d = Some p" "prs_Name p = proute_Name route" "prs_ContinuesTo p = ''''"
    and d: "rd_MatchedBy d = ''policy-route/'' @ proute_Name route" "rd_RouteTable d = None"
      "rd_Action d = action_Type (proute_Action route)" "rd_NextHops d = action_NextHops (proute_Action route)"
      "best_hop (proute_Name route) packet (action_NextHops (proute_Action route)) (rd_NextHop d)" .
  have alone: "policy_decision state packet route (applyNATAndGateway state packet d)"
    if "\<not> (action_Type (proute_Action route) = ActionAllow \<and> (\<exists>n r. table_route (topo_RouteTables state) packet n r))"
    using that p d by (auto simp: policy_decision_def decided_by_policy_def)
  have onward: "policy_decision state packet route (applyNATAndGateway state packet (continue_to_table d routed))"
    if "resolveRouteTables (topo_RouteTables state) packet = Some routed" "action_Type (proute_Action route) = ActionAllow" for routed
  proof -
    from resolveRouteTables_Some [OF that(1)] obtain n r where r: "longest_table_route (topo_RouteTables state) packet n r"
      "decided_by_table packet routed n r" .
    note cont = decided_by_table_continue [OF r(2) p(1)]
    from r(1) have "table_route (topo_RouteTables state) packet n r" by (simp add: longest_table_route_def)
    with that(2) r(1) cont(2,3) decided_by_table_NAT [OF cont(1), of state] p(2) d(1) show ?thesis
      unfolding policy_decision_def by auto
  qed
  show ?thesis
    using top alone onward d(3) resolveRouteTables_None [of "topo_RouteTables state" packet]
    by (intro exI [of _ route]) (auto split: option.splits)
qed

text \<open>
  C10. A packet that neither an endpoint, a NAT rule nor a load balancer takes is decided by the
  routes. If policy routes of its VPC cover it, the one with the highest priority decides, the first
  in the list among equals: when it allows the packet and some table of the VPC has a route that
  contains the destination, the packet goes on to the tables, which decide by a route with the
  longest prefix; otherwise the action and the next hops are those of the policy route. If no policy
  route covers the packet, the tables decide by a route with the longest prefix, and if there is no
  such route either, the packet is dropped. A blackhole route drops the packet; next hops of equal
  cost are chosen by the highest score, and by the least address among equal scores.
\<close>

theorem Resolve_routes:
  assumes "rp_VPC packet \<noteq> ''''" and "addr_IsValid (rp_Source packet)" and "addr_IsValid (rp_Dest packet)"
    and "rp_Protocol packet \<noteq> ''''" and "findEndpoint state (rp_VPC packet) (rp_Dest packet) = None"
    and "resolveDNAT state packet = None" and "resolveLoadBalancer state packet = None"
  shows "\<exists>d. Resolve state packet = Inr d \<and>
    (if \<exists>route \<in> set (topo_PolicyRoutes state). policy_route_covers packet route
     then \<exists>route. top_policy_route (topo_PolicyRoutes state) packet route \<and> policy_decision state packet route d
     else table_decision state packet d)"
proof (cases "resolvePolicyRoute (topo_PolicyRoutes state) packet")
  case None
  then have none: "\<not> (\<exists>r \<in> set (topo_PolicyRoutes state). policy_route_covers packet r)"
    by (simp add: resolvePolicyRoute_None)
  show ?thesis
  proof (cases "resolveRouteTables (topo_RouteTables state) packet")
    case missing: None
    then have "table_decision state packet (zero_RouteDecision\<lparr>rd_Action := ActionDrop, rd_MatchedBy := ''no-route''\<rparr>)"
      by (simp add: resolveRouteTables_None table_decision_def zero_RouteDecision_def)
    with none None missing assms show ?thesis by (simp add: Resolve_def endpoint_key_def)
  next
    case (Some d)
    with none None assms table_decision_resolved [OF Some] show ?thesis by (simp add: Resolve_def endpoint_key_def)
  qed
next
  case (Some d)
  then have "\<exists>route \<in> set (topo_PolicyRoutes state). policy_route_covers packet route"
    using resolvePolicyRoute_None [of "topo_PolicyRoutes state" packet] by auto
  moreover have "Resolve state packet = Inr (applyNATAndGateway state packet
      (case resolveRouteTables (topo_RouteTables state) packet of
         Some routed \<Rightarrow> if rd_Action d = ActionAllow then continue_to_table d routed else d
       | None \<Rightarrow> d))"
    using Some assms by (simp add: Resolve_def endpoint_key_def split: option.splits)
  ultimately show ?thesis using policy_decision_resolved [OF Some] by simp
qed

definition example_route :: "prefix \<Rightarrow> bool \<Rightarrow> Route" where
  "example_route destination blackhole =
     \<lparr>route_Destination = destination, route_NextHops = (if blackhole then [] else [V4 0x0A000001]),
      route_Blackhole = blackhole,
      route_BFD = \<lparr>bfd_Enabled = False, bfd_LogicalPort = '''', bfd_MinTx = 0, bfd_MinRx = 0, bfd_DetectMult = 0\<rparr>\<rparr>"

definition example_policy_route :: PolicyRoute where
  "example_policy_route =
     \<lparr>proute_Name = ''web'', proute_VPC = ''prod'', proute_Priority = 10,
      proute_Match = \<lparr>match_Source = Prefix (V4 0x0A000000) 9, match_Destination = Prefix ZeroAddr 0, match_Protocol = ProtocolTCP,
        match_SrcPorts = [], match_DstPorts = []\<rparr>,
      proute_Action = \<lparr>action_Type = ActionAllow, action_NextHops = []\<rparr>\<rparr>"

definition example_topology :: State where
  "example_topology =
     \<lparr>topo_VPCs = [], topo_Subnets = [], topo_Endpoints = [],
      topo_RouteTables = [(''prod'' @ NUL @ ''main'',
        \<lparr>table_Name = ''main'', table_VPC = ''prod'',
         table_Routes = [example_route (Prefix (V4 0) 1) False, example_route (Prefix (V4 0xC0A80000) 17) True]\<rparr>)],
      topo_PolicyRoutes = [example_policy_route], topo_Gateways = [], topo_NATRules = [], topo_LoadBalancers = [],
      topo_DNSRecords = []\<rparr>"

definition example_routed_packet :: RoutedPacket where
  "example_routed_packet =
     \<lparr>rp_SourcePort = 4000, rp_VPC = ''prod'', rp_Source = V4 0x0A000005, rp_Dest = V4 0xC0A80101,
      rp_Protocol = ProtocolTCP, rp_DestPort = 80\<rparr>"

theorem Resolve_routes_witness:
  "\<exists>d. Resolve example_topology example_routed_packet = Inr d \<and> rd_MatchedBy d = ''policy-route/web'' \<and>
     rd_Action d = ActionDrop \<and> (\<exists>p. rd_PolicyRoute d = Some p \<and> prs_ContinuesTo p = ''route-table/main'')"
proof -
  let ?tables = "topo_RouteTables example_topology" and ?r = "example_route (Prefix (V4 0xC0A80000) 17) True"
  have contains: "prefix_Contains (Prefix (V4 0xC0A80000) 17) (V4 0xC0A80101)" "prefix_Contains (Prefix (V4 0) 1) (V4 0xC0A80101)"
      "prefix_Contains (Prefix (V4 0x0A000000) 9) (V4 0x0A000005)" "\<not> prefix_IsValid (Prefix ZeroAddr 0)"
    by code_simp+
  have routes: "table_route ?tables example_routed_packet n r \<longleftrightarrow>
      n = ''main'' \<and> (r = ?r \<or> r = example_route (Prefix (V4 0) 1) False)" for n r
    using contains by (auto simp: table_route_def example_topology_def example_routed_packet_def example_route_def)
  have covers: "policy_route_covers example_routed_packet example_policy_route"
    using contains by (simp add: policy_route_covers_def example_policy_route_def example_routed_packet_def)
  have top: "top_policy_route [example_policy_route] example_routed_packet route \<longleftrightarrow> route = example_policy_route" for route
    using covers by (auto simp: top_policy_route_def Cons_eq_append_conv)
  have policies: "topo_PolicyRoutes example_topology = [example_policy_route]" by (simp add: example_topology_def)
  have "\<exists>d. Resolve example_topology example_routed_packet = Inr d \<and>
    (if \<exists>route \<in> set (topo_PolicyRoutes example_topology). policy_route_covers example_routed_packet route
     then \<exists>route. top_policy_route (topo_PolicyRoutes example_topology) example_routed_packet route \<and>
       policy_decision example_topology example_routed_packet route d
     else table_decision example_topology example_routed_packet d)"
    by (rule Resolve_routes)
      (simp_all add: example_routed_packet_def example_topology_def addr_IsValid_def findEndpoint_def resolveDNAT_def
        resolveLoadBalancer_def vpc_frontends_def Let_def)
  then obtain d where d: "Resolve example_topology example_routed_packet = Inr d"
      "policy_decision example_topology example_routed_packet example_policy_route d"
    using covers by (auto simp: policies top)
  have longest: "longest_table_route ?tables example_routed_packet n r \<longleftrightarrow> n = ''main'' \<and> r = ?r" for n r
  proof -
    have "prefix_Bits (route_Destination ?r) = 16" "prefix_Bits (route_Destination (example_route (Prefix (V4 0) 1) False)) = 0"
      by (simp_all add: example_route_def prefix_Bits_def)
    then show ?thesis unfolding longest_table_route_def routes by fastforce
  qed
  have "action_Type (proute_Action example_policy_route) = ActionAllow" "route_Blackhole ?r"
    by (simp_all add: example_policy_route_def example_route_def)
  moreover have "\<exists>n r. table_route ?tables example_routed_packet n r" by (auto simp: routes)
  ultimately have "rd_MatchedBy d = ''policy-route/'' @ proute_Name example_policy_route \<and> rd_Action d = ActionDrop \<and>
      (\<exists>p. rd_PolicyRoute d = Some p \<and> prs_ContinuesTo p = ''route-table/'' @ ''main'')"
    using d(2) unfolding policy_decision_def longest decided_by_table_def by auto
  with d(1) show ?thesis by (simp add: example_policy_route_def)
qed

section \<open>The order of the maps\<close>

text \<open>
  Every loop over a map stops at the first element it finds, so that the decision depends on the
  order in which Go visits the map, unless at most one element can be found. A state in which this
  holds is unambiguous.
\<close>

definition same_maps :: "State \<Rightarrow> State \<Rightarrow> bool" where
  "same_maps s t \<longleftrightarrow>
     mset (topo_Subnets s) = mset (topo_Subnets t) \<and> mset (topo_Endpoints s) = mset (topo_Endpoints t) \<and>
     mset (topo_RouteTables s) = mset (topo_RouteTables t) \<and> topo_PolicyRoutes s = topo_PolicyRoutes t \<and>
     mset (topo_Gateways s) = mset (topo_Gateways t) \<and> mset (topo_NATRules s) = mset (topo_NATRules t) \<and>
     mset (topo_LoadBalancers s) = mset (topo_LoadBalancers t)"

definition unambiguous :: "State \<Rightarrow> bool" where
  "unambiguous s \<longleftrightarrow>
     distinct (map fst (topo_NATRules s)) \<and> distinct (map fst (topo_Gateways s)) \<and>
     (\<forall>e \<in> snd ` set (topo_Endpoints s). \<forall>e' \<in> snd ` set (topo_Endpoints s).
        ep_VPC e = ep_VPC e' \<and> ep_IP e = ep_IP e' \<longrightarrow> e = e') \<and>
     (\<forall>packet. \<forall>r \<in> snd ` set (topo_NATRules s). \<forall>r' \<in> snd ` set (topo_NATRules s).
        dnat_applies packet r \<and> dnat_applies packet r' \<longrightarrow> r = r') \<and>
     (\<forall>vpc. \<forall>f \<in> set (vpc_frontends s vpc). \<forall>f' \<in> set (vpc_frontends s vpc).
        front_VIP (snd f) = front_VIP (snd f') \<and> front_Port (snd f) = front_Port (snd f') \<and>
        front_Protocol (snd f) = front_Protocol (snd f') \<longrightarrow> f = f') \<and>
     (\<forall>vpc. \<forall>r \<in> set (vpc_routes (topo_RouteTables s) vpc). \<forall>r' \<in> set (vpc_routes (topo_RouteTables s) vpc).
        prefix_Masked (route_Destination (snd r)) = route_Destination (snd r) \<and>
        (route_Destination (snd r) = route_Destination (snd r') \<longrightarrow> r = r'))"

lemma find_unique:
  assumes "set xs = set ys" and "\<And>x y. x \<in> set xs \<Longrightarrow> y \<in> set xs \<Longrightarrow> P x \<Longrightarrow> P y \<Longrightarrow> x = y"
  shows "List.find P xs = List.find P ys"
proof (cases "List.find P xs")
  case None
  with assms(1) show ?thesis by (metis find_None_iff)
next
  case (Some x)
  then have x: "x \<in> set xs" "P x" by (auto simp: find_Some_iff)
  with assms(1) obtain y where y: "List.find P ys = Some y" by (metis find_None_iff not_Some_eq)
  then have "y \<in> set xs" "P y" using assms(1) by (auto simp: find_Some_iff)
  with x assms(2) Some y show ?thesis by metis
qed

lemma select_best_only:
  assumes "strict_weak_order lt" and "set xs = set ys"
    and "\<And>x y. x \<in> set xs \<Longrightarrow> y \<in> set xs \<Longrightarrow> \<not> lt x y \<Longrightarrow> \<not> lt y x \<Longrightarrow> x = y"
  shows "select_best lt xs = select_best lt ys"
proof (cases "select_best lt xs")
  case None
  then have "ys = []" using assms(2) by simp
  with None show ?thesis by (metis select_best_None)
next
  case (Some x)
  then obtain y where y: "select_best lt ys = Some y"
    using assms(2) by (metis empty_set not_None_eq select_best_None set_empty)
  show ?thesis
    using strict_weak_order.select_best_perm [OF assms(1,2) Some y] select_best_mem [OF Some] select_best_mem [OF y]
      assms(2,3) Some y by metis
qed

lemma sort_Strings_perm: "mset xs = mset ys \<Longrightarrow> sort_Strings xs = sort_Strings ys"
proof -
  have "sort_Strings zs = sort zs" for zs
    by (rule properties_for_sort [symmetric]) (simp_all add: sort_Strings_sorted, simp add: sort_Strings_def)
  then show "mset xs = mset ys \<Longrightarrow> ?thesis" by (metis mset_sort properties_for_sort sorted_sort)
qed

lemma sorted_values_perm:
  assumes "mset m = mset m'" and "distinct (map fst m)"
  shows "sorted_values m = sorted_values m'"
proof -
  have "map_of m = map_of m'"
    using assms by (metis map_of_inject_set mset_eq_imp_distinct_iff mset_eq_setD mset_map)
  moreover have "sort_Strings (map fst m) = sort_Strings (map fst m')"
    using assms by (intro sort_Strings_perm) (metis mset_map)
  ultimately show ?thesis by (simp add: sorted_values_def)
qed

lemma same_maps_sets:
  assumes "same_maps s t"
  shows "set (topo_Subnets s) = set (topo_Subnets t)" "set (topo_Endpoints s) = set (topo_Endpoints t)"
    "set (topo_NATRules s) = set (topo_NATRules t)" "set (vpc_frontends s vpc) = set (vpc_frontends t vpc)"
    "set (vpc_routes (topo_RouteTables s) vpc) = set (vpc_routes (topo_RouteTables t) vpc)"
  using assms unfolding same_maps_def vpc_frontends_def vpc_routes_def by (auto dest: mset_eq_setD)

lemma unambiguousD:
  assumes "unambiguous s"
  shows "\<And>e e'. e \<in> snd ` set (topo_Endpoints s) \<Longrightarrow> e' \<in> snd ` set (topo_Endpoints s) \<Longrightarrow>
      ep_VPC e = ep_VPC e' \<Longrightarrow> ep_IP e = ep_IP e' \<Longrightarrow> e = e'"
    and "\<And>r r'. r \<in> snd ` set (topo_NATRules s) \<Longrightarrow> r' \<in> snd ` set (topo_NATRules s) \<Longrightarrow>
      dnat_applies packet r \<Longrightarrow> dnat_applies packet r' \<Longrightarrow> r = r'"
    and "\<And>f f'. f \<in> set (vpc_frontends s vpc) \<Longrightarrow> f' \<in> set (vpc_frontends s vpc) \<Longrightarrow>
      front_VIP (snd f) = front_VIP (snd f') \<Longrightarrow> front_Port (snd f) = front_Port (snd f') \<Longrightarrow>
      front_Protocol (snd f) = front_Protocol (snd f') \<Longrightarrow> f = f'"
    and "\<And>r r'. r \<in> set (vpc_routes (topo_RouteTables s) vpc) \<Longrightarrow> r' \<in> set (vpc_routes (topo_RouteTables s) vpc) \<Longrightarrow>
      route_Destination (snd r) = route_Destination (snd r') \<Longrightarrow> r = r'"
    and "\<And>r. r \<in> set (vpc_routes (topo_RouteTables s) vpc) \<Longrightarrow> prefix_Masked (route_Destination (snd r)) = route_Destination (snd r)"
  using assms unfolding unambiguous_def by blast+

lemma findEndpoint_perm:
  assumes "unambiguous s" and "same_maps s t"
  shows "findEndpoint s vpc ip = findEndpoint t vpc ip"
  unfolding findEndpoint_def
proof (rule find_unique)
  show "set (map snd (topo_Endpoints s)) = set (map snd (topo_Endpoints t))"
    using same_maps_sets(2) [OF assms(2)] by simp
qed (use unambiguousD(1) [OF assms(1)] in auto)

lemma resolveDNAT_perm:
  assumes "unambiguous s" and "same_maps s t"
  shows "resolveDNAT s packet = resolveDNAT t packet"
proof -
  have "List.find (dnat_applies packet) (map snd (topo_NATRules s)) = List.find (dnat_applies packet) (map snd (topo_NATRules t))"
  proof (rule find_unique)
    show "set (map snd (topo_NATRules s)) = set (map snd (topo_NATRules t))"
      using same_maps_sets(3) [OF assms(2)] by simp
  qed (use unambiguousD(2) [OF assms(1)] in simp)
  then show ?thesis unfolding resolveDNAT_def by (simp only: findEndpoint_perm [OF assms])
qed

lemma resolveLoadBalancer_perm:
  assumes "unambiguous s" and "same_maps s t"
  shows "resolveLoadBalancer s packet = resolveLoadBalancer t packet"
proof -
  have source: "findEndpointByIP s vpc ip = findEndpointByIP t vpc ip" for vpc ip
    using findEndpoint_perm [OF assms] by (simp add: findEndpoint_def findEndpointByIP_def)
  have "subnetContainsSource s vpc subnet ip = subnetContainsSource t vpc subnet ip" for vpc subnet ip
    using same_maps_sets(1) [OF assms(2)] by (simp add: subnetContainsSource_def list_ex_iff)
  then have applies: "frontend_applies s packet e = frontend_applies t packet e" for e
    by (simp add: frontend_applies_def loadBalancerAllowsSourceSubnet_def fun_eq_iff)
  have "List.find (frontend_applies t packet e) (vpc_frontends s vpc) = List.find (frontend_applies t packet e) (vpc_frontends t vpc)"
    for e vpc
  proof (rule find_unique)
    show "set (vpc_frontends s vpc) = set (vpc_frontends t vpc)" by (rule same_maps_sets(4) [OF assms(2)])
    fix f f'
    assume "f \<in> set (vpc_frontends s vpc)" "f' \<in> set (vpc_frontends s vpc)"
      "frontend_applies t packet e f" "frontend_applies t packet e f'"
    then show "f = f'"
      by (intro unambiguousD(3) [OF assms(1), of f vpc f']) (auto simp: frontend_applies_def split: prod.splits)
  qed
  then show ?thesis by (simp add: resolveLoadBalancer_def source applies Let_def)
qed

lemma resolveRouteTables_perm:
  assumes "unambiguous s" and "same_maps s t"
  shows "resolveRouteTables (topo_RouteTables s) packet = resolveRouteTables (topo_RouteTables t) packet"
proof -
  let ?rs = "vpc_routes (topo_RouteTables s) (rp_VPC packet)" and ?rt = "vpc_routes (topo_RouteTables t) (rp_VPC packet)"
  let ?P = "\<lambda>(_ :: string, route). prefix_Contains (route_Destination route) (rp_Dest packet)"
  have "select_best longer_route (filter ?P ?rs) = select_best longer_route (filter ?P ?rt)"
  proof (rule select_best_only [OF longer_route_order.strict_weak_order_axioms])
    show "set (filter ?P ?rs) = set (filter ?P ?rt)" using same_maps_sets(5) [OF assms(2)] by simp
    fix x y
    assume x: "x \<in> set (filter ?P ?rs)" and y: "y \<in> set (filter ?P ?rs)"
      and eq: "\<not> longer_route x y" "\<not> longer_route y x"
    have "prefix_Masked (route_Destination (snd x)) = route_Destination (snd x)"
        "prefix_Masked (route_Destination (snd y)) = route_Destination (snd y)"
      using x y unambiguousD(5) [OF assms(1)] by auto
    then have "route_Destination (snd x) = route_Destination (snd y)"
    proof (rule masked_prefix_unique [where x = "rp_Dest packet"])
      show "prefix_Bits (route_Destination (snd x)) = prefix_Bits (route_Destination (snd y))"
        using eq by (simp add: longer_route_def)
    qed (use x y in auto)
    with x y show "x = y" using unambiguousD(4) [OF assms(1), of x _ y] by auto
  qed
  then show ?thesis by (simp add: resolveRouteTables_def selected_route_def)
qed

lemma applyNATAndGateway_perm:
  assumes "unambiguous s" and "same_maps s t"
  shows "applyNATAndGateway s packet d = applyNATAndGateway t packet d"
proof -
  have "sortedNATRules (topo_NATRules s) = sortedNATRules (topo_NATRules t)"
      "sortedGateways (topo_Gateways s) = sortedGateways (topo_Gateways t)"
    using assms sorted_values_perm by (auto simp: sortedNATRules_def sortedGateways_def unambiguous_def same_maps_def)
  then show ?thesis by (simp add: applyNATAndGateway_def)
qed

lemma Resolve_perm:
  assumes "unambiguous s" and "same_maps s t"
  shows "Resolve s packet = Resolve t packet"
proof -
  have "topo_PolicyRoutes s = topo_PolicyRoutes t" using assms(2) by (simp add: same_maps_def)
  then show ?thesis
    unfolding Resolve_def Let_def
    by (simp only: findEndpoint_perm [OF assms] resolveDNAT_perm [OF assms] resolveLoadBalancer_perm [OF assms]
        resolveRouteTables_perm [OF assms] applyNATAndGateway_perm [OF assms])
qed

end
