(* ===== verification/Planner.thy ===== *)
theory Planner
  imports Names Resolver Compiler
begin

text \<open>
  \<open>internal/ovn/planner.go\<close>: the operations on the OVN northbound database that realise an object of
  the topology, as the arguments of \<open>ovn-nbctl\<close>. The planner collects operations and remembers the
  router of every VPC, the subnets and the health checks it planned. Its mutex makes each method one
  step.
\<close>

unbundle bit_operations_syntax

section \<open>Operations and the planner\<close>

record Operation =
  op_Command :: string
  op_Flags :: "string list"
  op_Args :: "string list"

definition Operation_String :: "Operation \<Rightarrow> string" where
  "Operation_String o' = strings_Join (op_Flags o' @ [op_Command o'] @ op_Args o') '' ''"

abbreviation Op :: "string \<Rightarrow> string list \<Rightarrow> string list \<Rightarrow> Operation" where
  "Op command flags args \<equiv> \<lparr>op_Command = command, op_Flags = flags, op_Args = args\<rparr>"

record Planner =
  pl_ops :: "Operation list"
  pl_vpcRouters :: "(string, string) gomap"
  pl_subnets :: "(string, Subnet) gomap"
  pl_healthChecks :: "(string, string) gomap"

definition NewPlanner :: Planner where
  "NewPlanner = \<lparr>pl_ops = [], pl_vpcRouters = [], pl_subnets = [], pl_healthChecks = []\<rparr>"

definition plan_ops :: "Operation list \<Rightarrow> Planner \<Rightarrow> Planner" where
  "plan_ops ops p = p\<lparr>pl_ops := pl_ops p @ ops\<rparr>"

definition setOperation :: "string \<Rightarrow> string \<Rightarrow> string list \<Rightarrow> Operation" where
  "setOperation table record_name pairs = Op ''set'' [] ([table, record_name] @ pairs)"


section \<open>Names and values\<close>

definition logicalRouter :: "string \<Rightarrow> string" where
  "logicalRouter vpc = OVNLogicalRouterName vpc"

definition logicalSwitch :: "string \<Rightarrow> string \<Rightarrow> string" where
  "logicalSwitch vpc subnet = ovnIdentifier (''nl_ls_'' @ OVNSanitize vpc @ ''_'' @ OVNSanitize subnet)"

definition logicalPort :: "string \<Rightarrow> string \<Rightarrow> string" where
  "logicalPort vpc endpoint = OVNLogicalSwitchPortName vpc endpoint"

definition loadBalancerName :: "string \<Rightarrow> string \<Rightarrow> string" where
  "loadBalancerName vpc name = ovnIdentifier (''nl_lb_'' @ OVNSanitize vpc @ ''_'' @ OVNSanitize name)"

definition loadBalancerProtocolName :: "string \<Rightarrow> string \<Rightarrow> Protocol \<Rightarrow> string" where
  "loadBalancerProtocolName vpc name protocol = ovnIdentifier (loadBalancerName vpc name @ ''_'' @ OVNSanitize protocol)"

definition namedUUID :: "string \<Rightarrow> string" where
  "namedUUID name = ''@'' @ ovnIdentifier (strings_ReplaceAll name (CHR ''-'') ''_h'')"

definition natRuleNamedUUID :: "NATRule \<Rightarrow> string" where
  "natRuleNamedUUID rule = namedUUID (''nl_nat_'' @ OVNSanitize (nat_VPC rule) @ ''_'' @ OVNSanitize (nat_Name rule))"

definition routerPortName :: "string \<Rightarrow> string \<Rightarrow> string" where
  "routerPortName router subnet = ovnIdentifier (router @ ''_to_'' @ OVNSanitize subnet)"

definition switchRouterPortName :: "string \<Rightarrow> string \<Rightarrow> string" where
  "switchRouterPortName switchName subnet = ovnIdentifier (switchName @ ''_to_'' @ OVNSanitize subnet @ ''_router'')"

definition localnetPortName :: "string \<Rightarrow> string \<Rightarrow> string" where
  "localnetPortName switchName subnet = ovnIdentifier (switchName @ ''_to_'' @ OVNSanitize subnet @ ''_localnet'')"

definition deterministicMAC :: "Subnet \<Rightarrow> string" where
  "deterministicMAC subnet = SubnetGatewayMAC (subnet_VPC subnet) (subnet_Name subnet) (subnet_Gateway subnet)"

definition ovnStringValue :: "string \<Rightarrow> string" where
  "ovnStringValue value = [CHR 0x22] @ value @ [CHR 0x22]"

definition ovnStringSetValues :: "string list \<Rightarrow> string" where
  "ovnStringSetValues values0 = ''['' @ strings_Join (map ovnStringValue (sort_Strings values0)) '','' @ '']''"

definition subnetStateKey :: "string \<Rightarrow> string \<Rightarrow> string" where
  "subnetStateKey vpc name = vpc @ NUL @ name"

definition gatewayStateKey :: "string \<Rightarrow> string \<Rightarrow> string" where
  "gatewayStateKey vpc name = vpc @ NUL @ name"

definition loadBalancerStateKey :: "LoadBalancer \<Rightarrow> string" where
  "loadBalancerStateKey lb = lb_VPC lb @ NUL @ lb_Name lb"

text \<open>\<open>base64.RawURLEncoding\<close>.\<close>

definition base64_char :: "nat \<Rightarrow> char" where
  "base64_char n = ''ABCDEFGHIJKLMNOPQRSTUVWXYZabcdefghijklmnopqrstuvwxyz0123456789-_'' ! n"

fun base64_RawURL :: "nat list \<Rightarrow> string" where
  "base64_RawURL [] = []"
| "base64_RawURL [a] = [base64_char (a div 4), base64_char (a mod 4 * 16)]"
| "base64_RawURL [a, b] = [base64_char (a div 4), base64_char (a mod 4 * 16 + b div 16), base64_char (b mod 16 * 4)]"
| "base64_RawURL (a # b # c # rest) =
     [base64_char (a div 4), base64_char (a mod 4 * 16 + b div 16), base64_char (b mod 16 * 4 + c div 64), base64_char (c mod 64)] @
     base64_RawURL rest"

definition endpointExternalID :: "string \<Rightarrow> string \<Rightarrow> string" where
  "endpointExternalID vpc endpoint = base64_RawURL (map of_char (EndpointKey vpc endpoint))"

definition routerForVPC :: "string \<Rightarrow> Planner \<Rightarrow> string \<times> Planner" where
  "routerForVPC vpc p =
     (if gomap_get '''' (pl_vpcRouters p) vpc \<noteq> '''' then (gomap_get '''' (pl_vpcRouters p) vpc, p)
      else (logicalRouter vpc, p\<lparr>pl_vpcRouters := AList.update vpc (logicalRouter vpc) (pl_vpcRouters p)\<rparr>))"

section \<open>VPCs and subnets\<close>

definition Planner_EnsureVPC :: "VPC \<Rightarrow> Planner \<Rightarrow> Planner" where
  "Planner_EnsureVPC vpc p =
     (let router = logicalRouter (vpc_Name vpc)
      in plan_ops
           [Op ''lr-add'' [''--may-exist''] [router],
            setOperation ''logical_router'' router
              [''external_ids:netloom_owner=netloom'', ''external_ids:netloom_vpc='' @ vpc_Name vpc]]
           (p\<lparr>pl_vpcRouters := AList.update (vpc_Name vpc) router (pl_vpcRouters p)\<rparr>))"

text \<open>The excluded addresses of an IPv4 subnet, as intervals. The conversion of an address that is not IPv4 panics.\<close>

record ovnIPv4Interval =
  iv_start :: u32
  iv_end :: u32

definition ipv4AddrUint32 :: "addr \<Rightarrow> u32 option" where
  "ipv4AddrUint32 addr =
     map_option (\<lambda>raw. push_bit 24 (ucast (raw ! 0)) OR push_bit 16 (ucast (raw ! 1)) OR push_bit 8 (ucast (raw ! 2)) OR ucast (raw ! 3))
       (addr_As4 addr)"

definition uint32IPv4Addr :: "u32 \<Rightarrow> addr" where
  "uint32IPv4Addr value = addr_AddrFrom4 [ucast (drop_bit 24 value), ucast (drop_bit 16 value), ucast (drop_bit 8 value), ucast value]"

definition ovn_prefixLastAddr :: "prefix \<Rightarrow> addr option" where
  "ovn_prefixLastAddr prefix0 =
     (let addr = prefix_Addr (prefix_Masked prefix0);
          hostBits = 32 - prefix_Bits prefix0
      in case ipv4AddrUint32 addr of
           None \<Rightarrow> None
         | Some value \<Rightarrow>
             if hostBits \<le> 0 then Some addr
             else let mask = push_bit (nat hostBits) (1 :: u32) - 1 in Some (uint32IPv4Addr (value OR mask)))"

definition interval_before :: "ovnIPv4Interval \<Rightarrow> ovnIPv4Interval \<Rightarrow> bool" where
  "interval_before a b = (if iv_start a \<noteq> iv_start b then iv_start a < iv_start b else iv_end a < iv_end b)"

fun merge_intervals :: "ovnIPv4Interval \<Rightarrow> ovnIPv4Interval list \<Rightarrow> ovnIPv4Interval list" where
  "merge_intervals current [] = [current]"
| "merge_intervals current (interval # rest) =
     (if iv_start interval \<le> iv_end current + 1 then
        merge_intervals (if iv_end interval > iv_end current then current\<lparr>iv_end := iv_end interval\<rparr> else current) rest
      else current # merge_intervals interval rest)"

definition mergeIPv4Intervals :: "ovnIPv4Interval list \<Rightarrow> ovnIPv4Interval list" where
  "mergeIPv4Intervals intervals =
     (case sort_SliceStable interval_before intervals of [] \<Rightarrow> [] | current # rest \<Rightarrow> merge_intervals current rest)"

definition exclude_interval :: "prefix \<Rightarrow> ovnIPv4Interval list option" where
  "exclude_interval exclude0 =
     (let exclude = prefix_Masked exclude0
      in if \<not> addr_Is4 (prefix_Addr exclude) then Some []
         else case (ipv4AddrUint32 (prefix_Addr exclude), Option.bind (ovn_prefixLastAddr exclude) ipv4AddrUint32) of
                (Some a, Some b) \<Rightarrow> Some [\<lparr>iv_start = a, iv_end = b\<rparr>]
              | _ \<Rightarrow> None)"

definition exclude_intervals :: "Subnet \<Rightarrow> ovnIPv4Interval list option" where
  "exclude_intervals subnet =
     (case ipv4AddrUint32 (subnet_Gateway subnet) of
        None \<Rightarrow> None
      | Some gateway \<Rightarrow>
          map_option (\<lambda>ivs. \<lparr>iv_start = gateway, iv_end = gateway\<rparr> # concat ivs)
            (those (map exclude_interval (subnet_ExcludeCIDRs subnet))))"

definition interval_String :: "ovnIPv4Interval \<Rightarrow> string" where
  "interval_String iv =
     (let start = addr_String (uint32IPv4Addr (iv_start iv))
      in if iv_start iv = iv_end iv then start
         else start @ ''..'' @ addr_String (uint32IPv4Addr (iv_end iv)))"

definition ovnExcludeIPs :: "Subnet \<Rightarrow> string option" where
  "ovnExcludeIPs subnet =
     (if \<not> addr_Is4 (prefix_Addr (subnet_CIDR subnet)) then Some ''''
      else map_option (\<lambda>ivs. strings_Join (map interval_String (mergeIPv4Intervals ivs)) '' '') (exclude_intervals subnet))"

definition logicalSwitchIPAMOperations :: "string \<Rightarrow> Subnet \<Rightarrow> Operation list option" where
  "logicalSwitchIPAMOperations switchName subnet =
     (if addr_Is4 (prefix_Addr (subnet_CIDR subnet)) then
        map_option (\<lambda>excludeIPs.
          [setOperation ''logical_switch'' switchName [''other_config:subnet='' @ prefix_String (subnet_CIDR subnet)],
           Op ''remove'' [] [''logical_switch'', switchName, ''other_config'', ''ipv6_prefix''],
           if excludeIPs = '''' then Op ''remove'' [] [''logical_switch'', switchName, ''other_config'', ''exclude_ips'']
           else setOperation ''logical_switch'' switchName [''other_config:exclude_ips='' @ ovnStringValue excludeIPs]])
          (ovnExcludeIPs subnet)
      else Some
        [Op ''remove'' [] [''logical_switch'', switchName, ''other_config'', ''subnet''],
         Op ''remove'' [] [''logical_switch'', switchName, ''other_config'', ''exclude_ips''],
         setOperation ''logical_switch'' switchName
           [''other_config:ipv6_prefix='' @ addr_String (prefix_Addr (prefix_Masked (subnet_CIDR subnet)))]])"

definition subnet_ids :: "Subnet \<Rightarrow> string list" where
  "subnet_ids subnet =
     [''external_ids:netloom_owner=netloom'', ''external_ids:netloom_subnet='' @ subnet_Name subnet, ''external_ids:netloom_vpc='' @ subnet_VPC subnet]"

definition localnet_ops :: "string \<Rightarrow> Subnet \<Rightarrow> Operation list" where
  "localnet_ops switchName subnet =
     (let localnetPort = localnetPortName switchName (subnet_Name subnet)
      in if subnet_ProviderNetwork subnet \<noteq> '''' then
           [Op ''lsp-del'' [''--if-exists''] [localnetPort],
            Op ''lsp-add-localnet-port'' [''--may-exist''] [switchName, localnetPort, subnet_ProviderNetwork subnet],
            setOperation ''logical_switch_port'' localnetPort
              (subnet_ids subnet @ [''external_ids:netloom_provider_network='' @ subnet_ProviderNetwork subnet]),
            if subnet_VLAN subnet \<noteq> 0 then setOperation ''logical_switch_port'' localnetPort [''tag='' @ u16_String (subnet_VLAN subnet)]
            else Op ''clear'' [] [''logical_switch_port'', localnetPort, ''tag'']]
         else [Op ''lsp-del'' [''--if-exists''] [localnetPort]])"

definition subnet_ops :: "string \<Rightarrow> Subnet \<Rightarrow> Operation list option" where
  "subnet_ops router subnet =
     (let switchName = logicalSwitch (subnet_VPC subnet) (subnet_Name subnet);
          routerPort = routerPortName router (subnet_Name subnet);
          switchPort = switchRouterPortName switchName (subnet_Name subnet);
          routerMAC = deterministicMAC subnet;
          bits = strconv_Itoa (prefix_Bits (subnet_CIDR subnet))
      in map_option (\<lambda>ipam.
           [Op ''ls-add'' [''--may-exist''] [switchName],
            setOperation ''logical_switch'' switchName (subnet_ids subnet),
            Op ''lrp-add'' [''--may-exist''] [router, routerPort, routerMAC, addr_String (subnet_Gateway subnet) @ ''/'' @ bits],
            setOperation ''logical_router_port'' routerPort (subnet_ids subnet),
            Op ''lsp-add'' [''--may-exist''] [switchName, switchPort],
            Op ''lsp-set-type'' [] [switchPort, ''router''],
            Op ''lsp-set-addresses'' [] [switchPort, routerMAC],
            Op ''lsp-set-options'' [] [switchPort, ''router-port='' @ routerPort],
            setOperation ''logical_switch_port'' switchPort (subnet_ids subnet @ [''external_ids:netloom_role=router''])]
           @ ipam @
           [if dhcp_Enabled (subnet_DHCP subnet) \<and> addr_Is6 (prefix_Addr (subnet_CIDR subnet))
            then setOperation ''logical_router_port'' routerPort [''ipv6_ra_configs:address_mode=dhcpv6_stateful'']
            else Op ''remove'' [] [''logical_router_port'', routerPort, ''ipv6_ra_configs'', ''address_mode'']]
           @ localnet_ops switchName subnet)
         (logicalSwitchIPAMOperations switchName subnet))"

definition Planner_EnsureSubnet :: "Subnet \<Rightarrow> Planner \<Rightarrow> Planner option" where
  "Planner_EnsureSubnet subnet p =
     (case routerForVPC (subnet_VPC subnet) p of (router, p') \<Rightarrow>
        map_option (\<lambda>ops. plan_ops ops (p'\<lparr>pl_subnets := AList.update (subnetStateKey (subnet_VPC subnet) (subnet_Name subnet)) subnet (pl_subnets p')\<rparr>))
          (subnet_ops router subnet))"

section \<open>Endpoints\<close>

definition endpointAddress :: "Endpoint \<Rightarrow> string" where
  "endpointAddress endpoint =
     (let mac = Endpoint_NormalizedMAC endpoint
      in if mac \<noteq> '''' then mac @ '' '' @ addr_String (ep_IP endpoint) else ''dynamic '' @ addr_String (ep_IP endpoint))"

definition dhcpOptionsUUID :: "Endpoint \<Rightarrow> int \<Rightarrow> string" where
  "dhcpOptionsUUID endpoint family =
     (if family = 6 then namedUUID (''nl_dhcp6_'' @ OVNSanitize (ep_VPC endpoint) @ ''_'' @ OVNSanitize (ep_ID endpoint))
      else namedUUID (''nl_dhcp_'' @ OVNSanitize (ep_VPC endpoint) @ ''_'' @ OVNSanitize (ep_ID endpoint)))"

definition dhcpv4DNSOptions :: "Subnet \<Rightarrow> string list" where
  "dhcpv4DNSOptions subnet =
     (let dhcp = subnet_DHCP subnet;
          servers = map addr_String (filter addr_Is4 (dhcp_DNSServers dhcp))
      in (if servers \<noteq> [] then [''options:dns_server='' @ ovnStringSetValues servers] else []) @
         (if dhcp_DomainName dhcp \<noteq> '''' then [''options:domain_name='' @ dhcp_DomainName dhcp] else []) @
         (if dhcp_SearchDomains dhcp \<noteq> [] then [''options:domain_search_list='' @ ovnStringSetValues (dhcp_SearchDomains dhcp)] else []))"

definition dhcpv6SearchDomains :: "DHCPOptions \<Rightarrow> string list" where
  "dhcpv6SearchDomains options =
     (let domains = fold (\<lambda>domain out. if domain \<in> set out then out else out @ [domain]) (dhcp_SearchDomains options) []
      in if dhcp_DomainName options \<noteq> '''' \<and> dhcp_DomainName options \<notin> set domains then domains @ [dhcp_DomainName options] else domains)"

definition dhcpv6DNSOptions :: "Subnet \<Rightarrow> string list" where
  "dhcpv6DNSOptions subnet =
     (let dhcp = subnet_DHCP subnet;
          servers = map addr_String (filter addr_Is6 (dhcp_DNSServers dhcp));
          domains = dhcpv6SearchDomains dhcp
      in (if servers \<noteq> [] then [''options:dns_server='' @ ovnStringSetValues servers] else []) @
         (if domains \<noteq> [] then [''options:domain_search='' @ strings_Join domains '',''] else []))"

definition dhcp_ids :: "Subnet \<Rightarrow> Endpoint \<Rightarrow> string list" where
  "dhcp_ids subnet endpoint =
     [''external_ids:netloom_owner=netloom'', ''external_ids:netloom_subnet='' @ subnet_Name subnet,
      ''external_ids:netloom_endpoint='' @ endpointExternalID (ep_VPC endpoint) (ep_ID endpoint),
      ''external_ids:netloom_vpc='' @ ep_VPC endpoint]"

definition dhcpv4OptionsArgs :: "Subnet \<Rightarrow> Endpoint \<Rightarrow> string list" where
  "dhcpv4OptionsArgs subnet endpoint =
     (let dhcp = subnet_DHCP subnet;
          leaseTime = (if dhcp_LeaseTime dhcp = 0 then 3600 else dhcp_LeaseTime dhcp)
      in [''DHCP_Options'', ''cidr='' @ prefix_String (subnet_CIDR subnet), ''options:server_id='' @ addr_String (subnet_Gateway subnet),
          ''options:server_mac='' @ deterministicMAC subnet, ''options:router='' @ addr_String (subnet_Gateway subnet),
          ''options:lease_time='' @ nat_Itoa (unat leaseTime)] @ dhcp_ids subnet endpoint @
         (if dhcp_MTU dhcp \<noteq> 0 then [''options:mtu='' @ u16_String (dhcp_MTU dhcp)] else []) @
         dhcpv4DNSOptions subnet)"

definition dhcpv6OptionsArgs :: "Subnet \<Rightarrow> Endpoint \<Rightarrow> string list" where
  "dhcpv6OptionsArgs subnet endpoint =
     [''DHCP_Options'', ''cidr='' @ ovnStringValue (prefix_String (subnet_CIDR subnet)), ''options:server_id='' @ deterministicMAC subnet] @
     dhcp_ids subnet endpoint @ dhcpv6DNSOptions subnet"

definition gcDHCPOptionsOperation :: "Endpoint \<Rightarrow> Operation" where
  "gcDHCPOptionsOperation endpoint = Op ''gc-dhcp-options'' [] [endpointExternalID (ep_VPC endpoint) (ep_ID endpoint), ep_VPC endpoint]"

definition dhcp_ops :: "Subnet \<Rightarrow> Endpoint \<Rightarrow> Operation list" where
  "dhcp_ops subnet endpoint =
     (let port = logicalPort (ep_VPC endpoint) (ep_ID endpoint)
      in (if dhcp_Enabled (subnet_DHCP subnet) \<and> addr_Is4 (ep_IP endpoint) then
            [Op ''create'' [''--id='' @ dhcpOptionsUUID endpoint 4] (dhcpv4OptionsArgs subnet endpoint),
             Op ''set'' [] [''logical_switch_port'', port, ''dhcpv4_options='' @ dhcpOptionsUUID endpoint 4]]
          else []) @
         (if dhcp_Enabled (subnet_DHCP subnet) \<and> addr_Is6 (ep_IP endpoint) then
            [Op ''create'' [''--id='' @ dhcpOptionsUUID endpoint 6] (dhcpv6OptionsArgs subnet endpoint),
             Op ''set'' [] [''logical_switch_port'', port, ''dhcpv6_options='' @ dhcpOptionsUUID endpoint 6]]
          else []))"

definition endpoint_ops :: "Subnet option \<Rightarrow> Endpoint \<Rightarrow> Operation list" where
  "endpoint_ops subnet endpoint =
     (let port = logicalPort (ep_VPC endpoint) (ep_ID endpoint)
      in [Op ''lsp-add'' [''--may-exist''] [logicalSwitch (ep_VPC endpoint) (ep_Subnet endpoint), port],
          Op ''lsp-set-addresses'' [] [port, endpointAddress endpoint],
          setOperation ''logical_switch_port'' port
            [''external_ids:netloom_owner=netloom'',
             ''external_ids:netloom_endpoint='' @ endpointExternalID (ep_VPC endpoint) (ep_ID endpoint),
             ''external_ids:netloom_node='' @ ep_Node endpoint, ''external_ids:netloom_vpc='' @ ep_VPC endpoint,
             ''external_ids:netloom_subnet='' @ ep_Subnet endpoint],
          Op ''lsp-set-dhcpv4-options'' [] [port], Op ''lsp-set-dhcpv6-options'' [] [port]] @
         (if subnet \<noteq> None then [gcDHCPOptionsOperation endpoint] else []) @
         [if Endpoint_NormalizedMAC endpoint \<noteq> '''' then Op ''lsp-set-port-security'' [] [port, endpointAddress endpoint]
          else Op ''lsp-set-port-security'' [] [port]] @
         (case subnet of None \<Rightarrow> [] | Some s \<Rightarrow> dhcp_ops s endpoint))"

text \<open>
  The options of DHCPv4 sort the search domains in place: the slice is the one of the stored subnet,
  and of whoever passed the subnet to the planner.
\<close>

definition sort_domains :: "Endpoint \<Rightarrow> Subnet \<Rightarrow> Subnet" where
  "sort_domains endpoint subnet =
     (if dhcp_Enabled (subnet_DHCP subnet) \<and> addr_Is4 (ep_IP endpoint)
      then subnet\<lparr>subnet_DHCP := (subnet_DHCP subnet)\<lparr>dhcp_SearchDomains := sort_Strings (dhcp_SearchDomains (subnet_DHCP subnet))\<rparr>\<rparr>
      else subnet)"

definition Planner_EnsureEndpoint :: "Endpoint \<Rightarrow> Planner \<Rightarrow> Planner" where
  "Planner_EnsureEndpoint endpoint p =
     (let key = subnetStateKey (ep_VPC endpoint) (ep_Subnet endpoint);
          subnet = map_of (pl_subnets p) key
      in plan_ops (endpoint_ops subnet endpoint)
           (case subnet of None \<Rightarrow> p | Some s \<Rightarrow> p\<lparr>pl_subnets := AList.update key (sort_domains endpoint s) (pl_subnets p)\<rparr>))"


section \<open>Routes\<close>

definition route_ops :: "string \<Rightarrow> Route \<Rightarrow> Operation list" where
  "route_ops router route =
     (let destination = prefix_String (route_Destination route);
          nextHops = RouteNextHops route
      in if route_Blackhole route then [Op ''lr-route-add'' [''--may-exist''] [router, destination, ''discard'']]
         else if length nextHops = 1 then [Op ''lr-route-add'' [''--may-exist''] [router, destination, addr_String (hd nextHops)]]
         else map (\<lambda>nextHop. Op ''lr-route-add'' [''--may-exist'', ''--ecmp''] [router, destination, addr_String nextHop]) nextHops)"

definition Planner_EnsureRouteTable :: "RouteTable \<Rightarrow> Planner \<Rightarrow> Planner" where
  "Planner_EnsureRouteTable table p =
     (case routerForVPC (table_VPC table) p of (router, p') \<Rightarrow> plan_ops (concat (map (route_ops router) (table_Routes table))) p')"

definition ipFamily :: "prefix \<Rightarrow> string" where
  "ipFamily prefix0 = (if addr_Is6 (prefix_Addr prefix0) then ''ip6'' else ''ip4'')"

definition port_clause :: "string \<Rightarrow> PortRange \<Rightarrow> string" where
  "port_clause field port =
     (if port_From port = port_To port then field @ '' == '' @ u16_String (port_From port)
      else ''('' @ field @ '' >= '' @ u16_String (port_From port) @ '' && '' @ field @ '' <= '' @ u16_String (port_To port) @ '')'')"

definition policyRoutePortMatch ::"Protocol \<Rightarrow> string \<Rightarrow> PortRange list \<Rightarrow> string" where
  "policyRoutePortMatch protocol direction ports =
     (let field = protocol @ ''.'' @ direction;
          clauses = sort_Strings (map (port_clause field) ports)
      in if ports = [] then ''''
         else if length clauses = 1 then hd clauses
         else ''('' @ strings_Join clauses '' || '' @ '')'')"

definition policyRouteMatch :: "RouteMatch \<Rightarrow> string" where
  "policyRouteMatch m =
     (let src = policyRoutePortMatch (match_Protocol m) ''src'' (match_SrcPorts m);
          dst = policyRoutePortMatch (match_Protocol m) ''dst'' (match_DstPorts m);
          parts = sort_Strings (
            (if prefix_IsValid (match_Source m) then [ipFamily (match_Source m) @ ''.src == '' @ prefix_String (match_Source m)] else []) @
            (if prefix_IsValid (match_Destination m) then [ipFamily (match_Destination m) @ ''.dst == '' @ prefix_String (match_Destination m)] else []) @
            (if match_Protocol m \<noteq> '''' \<and> match_Protocol m \<noteq> ProtocolAny then [match_Protocol m] else []) @
            (if src \<noteq> '''' then [src] else []) @ (if dst \<noteq> '''' then [dst] else []))
      in if parts = [] then ''1 == 1'' else strings_Join parts '' && '')"

definition tagPolicyRouteOperation :: "PolicyRoute \<Rightarrow> string \<Rightarrow> Operation" where
  "tagPolicyRouteOperation route m =
     Op ''tag-policy-route'' [] [proute_VPC route, proute_Name route, strconv_Itoa (proute_Priority route), m]"

definition syncPolicyRouteNexthopOperation :: "PolicyRoute \<Rightarrow> string \<Rightarrow> Operation" where
  "syncPolicyRouteNexthopOperation route m =
     Op ''sync-policy-route-nexthop'' []
       [proute_VPC route, proute_Name route, strconv_Itoa (proute_Priority route), m, addr_String (hd (RerouteNextHops (proute_Action route)))]"

definition ensurePolicyRouteNexthopsOperation :: "PolicyRoute \<Rightarrow> string \<Rightarrow> Operation" where
  "ensurePolicyRouteNexthopsOperation route m =
     Op ''ensure-policy-route-nexthops'' []
       [proute_VPC route, proute_Name route, strconv_Itoa (proute_Priority route), m,
        ovnStringSetValues (sort_Strings (map addr_String (RerouteNextHops (proute_Action route))))]"

definition policy_route_ops :: "string \<Rightarrow> PolicyRoute \<Rightarrow> Operation list" where
  "policy_route_ops router route =
     (let m = policyRouteMatch (proute_Match route);
          action = action_Type (proute_Action route);
          ovnAction = (if action = ActionReject then ActionDrop else action);
          nextHops = RerouteNextHops (proute_Action route);
          priority = strconv_Itoa (proute_Priority route)
      in if action = ActionReroute then
           (if length nextHops = 1 then
              [Op ''lr-policy-add'' [''--may-exist''] [router, priority, m, ''reroute'', addr_String (hd nextHops)],
               tagPolicyRouteOperation route m, syncPolicyRouteNexthopOperation route m]
            else [ensurePolicyRouteNexthopsOperation route m])
         else [Op ''lr-policy-add'' [''--may-exist''] [router, priority, m, ovnAction], tagPolicyRouteOperation route m])"

definition Planner_EnsurePolicyRoute :: "PolicyRoute \<Rightarrow> Planner \<Rightarrow> Planner" where
  "Planner_EnsurePolicyRoute route p =
     (case routerForVPC (proute_VPC route) p of (router, p') \<Rightarrow> plan_ops (policy_route_ops router route) p')"

section \<open>Gateways and NAT rules\<close>

definition gateway_ops :: "string \<Rightarrow> Gateway \<Rightarrow> Operation list" where
  "gateway_ops router gateway =
     [setOperation ''logical_router'' router
        ([''external_ids:netloom_gateway='' @ gw_Name gateway, ''external_ids:netloom_gateway_lan_ip='' @ addr_String (gw_LANIP gateway),
          ''external_ids:netloom_gateway_distributed='' @ bool_String (gw_Distributed gateway)] @
         (if \<not> gw_Distributed gateway then [''options:chassis='' @ gw_Node gateway] else []) @
         (if gw_ExternalIF gateway \<noteq> '''' then [''external_ids:netloom_external_if='' @ gw_ExternalIF gateway] else []) @
         [''external_ids:netloom_owner=netloom''])] @
     (if gw_Distributed gateway then [Op ''remove'' [] [''logical_router'', router, ''options'', ''chassis'']] else [])"

definition Planner_EnsureGateway :: "Gateway \<Rightarrow> Planner \<Rightarrow> Planner" where
  "Planner_EnsureGateway gateway p =
     (case routerForVPC (gw_VPC gateway) p of (router, p') \<Rightarrow> plan_ops (gateway_ops router gateway) p')"

definition natType :: "Action \<Rightarrow> string" where
  "natType action =
     (if action = ActionSNAT then ''snat'' else if action = ActionDNAT then ''dnat''
      else if action = ActionDNATSNAT then ''dnat_and_snat'' else action)"

definition natUsesManagedRecord :: "NATRule \<Rightarrow> bool" where
  "natUsesManagedRecord rule \<longleftrightarrow>
     (nat_Type rule = ActionDNAT \<or> nat_Type rule = ActionDNATSNAT) \<and> nat_ExternalPort rule \<noteq> 0 \<and> nat_TargetPort rule \<noteq> 0"

definition natTagLogicalIP :: "NATRule \<Rightarrow> string" where
  "natTagLogicalIP rule = (if nat_Type rule = ActionSNAT then prefix_String (nat_MatchCIDR rule) else addr_String (nat_TargetIP rule))"

definition tagNATRuleOperation :: "NATRule \<Rightarrow> Operation" where
  "tagNATRuleOperation rule =
     Op ''tag-nat-rule'' [] [nat_Name rule, nat_VPC rule, natType (nat_Type rule), addr_String (nat_ExternalIP rule), natTagLogicalIP rule]"

definition natPortTranslationArgs :: "NATRule \<Rightarrow> string list" where
  "natPortTranslationArgs rule =
     [''NAT'', ''type='' @ natType (nat_Type rule), ''external_ip='' @ addr_String (nat_ExternalIP rule),
      ''logical_ip='' @ addr_String (nat_TargetIP rule), ''external_port_range='' @ u16_String (nat_ExternalPort rule),
      ''logical_port_range='' @ u16_String (nat_TargetPort rule), ''protocol='' @ nat_Protocol rule,
      ''external_ids:netloom_owner=netloom'', ''external_ids:netloom_nat='' @ nat_Name rule, ''external_ids:netloom_vpc='' @ nat_VPC rule] @
     (if nat_Type rule = ActionDNATSNAT \<and> nat_LogicalPort rule \<noteq> ''''
      then [''logical_port='' @ nat_LogicalPort rule, ''external_mac='' @ nat_ExternalMAC rule] else [])"

definition gcNATRuleOperation :: "NATRule \<Rightarrow> Operation" where
  "gcNATRuleOperation rule = Op ''gc-nat-rule'' [] [nat_Name rule, nat_VPC rule]"

definition managed_nat_ops :: "string \<Rightarrow> NATRule \<Rightarrow> Operation list" where
  "managed_nat_ops router rule =
     (let uuid = natRuleNamedUUID rule
      in [gcNATRuleOperation rule, Op ''create'' [''--id='' @ uuid] (natPortTranslationArgs rule),
          Op ''add'' [] [''logical_router'', router, ''nat'', uuid]])"

definition nat_rule_ops :: "string \<Rightarrow> NATRule \<Rightarrow> Operation list" where
  "nat_rule_ops router rule =
     (let external = addr_String (nat_ExternalIP rule); target = addr_String (nat_TargetIP rule)
      in if nat_Type rule = ActionSNAT then
           [Op ''lr-nat-add'' [''--may-exist''] [router, ''snat'', external, prefix_String (nat_MatchCIDR rule)], tagNATRuleOperation rule]
         else if nat_Type rule = ActionDNAT then
           (if natUsesManagedRecord rule then managed_nat_ops router rule
            else
              [if nat_ExternalPort rule \<noteq> 0
               then Op ''lr-nat-add'' [''--portrange'', ''--may-exist''] [router, ''dnat'', external, target, u16_String (nat_ExternalPort rule)]
               else Op ''lr-nat-add'' [''--may-exist''] [router, ''dnat'', external, target],
               tagNATRuleOperation rule])
         else if nat_Type rule = ActionDNATSNAT then
           (if natUsesManagedRecord rule then managed_nat_ops router rule
            else
              [Op ''lr-nat-add'' [''--may-exist'']
                 ([router, ''dnat_and_snat'', external, target] @
                  (if nat_LogicalPort rule \<noteq> '''' then [nat_LogicalPort rule, nat_ExternalMAC rule] else [])),
               tagNATRuleOperation rule])
         else [])"

definition Planner_EnsureNATRule :: "NATRule \<Rightarrow> Planner \<Rightarrow> Planner" where
  "Planner_EnsureNATRule rule p =
     (case routerForVPC (nat_VPC rule) p of (router, p') \<Rightarrow> plan_ops (nat_rule_ops router rule) p')"


section \<open>Load balancers\<close>

definition loadBalancerFrontendVIP :: "LoadBalancerFrontend \<Rightarrow> string" where
  "loadBalancerFrontendVIP frontend = addrport_String (front_VIP frontend) (front_Port frontend)"

definition loadBalancerFrontendBackends :: "LoadBalancerFrontend \<Rightarrow> string" where
  "loadBalancerFrontendBackends frontend =
     strings_Join (sort_Strings (map (\<lambda>b. addrport_String (backend_IP b) (backend_Port b)) (filter IsHealthy (front_Backends frontend)))) '',''"

definition loadBalancerFrontendsByProtocol :: "LoadBalancer \<Rightarrow> (Protocol, LoadBalancerFrontend list) gomap" where
  "loadBalancerFrontendsByProtocol lb = fold (\<lambda>f. gomap_append (front_Protocol f) [f]) (Frontends lb) []"

definition sortedLoadBalancerProtocols :: "(Protocol, 't) gomap \<Rightarrow> Protocol list" where
  "sortedLoadBalancerProtocols m = sort_Strings (map fst m)"

definition loadBalancerProtocolNamesFromFrontends :: "string \<Rightarrow> string \<Rightarrow> (Protocol, LoadBalancerFrontend list) gomap \<Rightarrow> string list" where
  "loadBalancerProtocolNamesFromFrontends vpc lbName m = map (loadBalancerProtocolName vpc lbName) (sortedLoadBalancerProtocols m)"

definition loadBalancerHealthCheckFrontends :: "(Protocol, LoadBalancerFrontend list) gomap \<Rightarrow> LoadBalancerFrontend list" where
  "loadBalancerHealthCheckFrontends m = gomap_get [] m ProtocolTCP"

definition loadBalancerOptions :: "LoadBalancer \<Rightarrow> string list" where
  "loadBalancerOptions lb =
     (let options =
            [''external_ids:netloom_owner=netloom'', ''external_ids:netloom_load_balancer='' @ lb_Name lb, ''external_ids:netloom_vpc='' @ lb_VPC lb,
             ''selection_fields='' @ ovnStringSetValues (EffectiveSelectionFields lb)];
          timeout = (if lb_AffinityTimeout lb = 0 then 10800 else lb_AffinityTimeout lb)
      in if lb_SessionAffinity lb
         then options @ [''options:affinity_timeout='' @ nat_Itoa (unat timeout), ''external_ids:netloom_session_affinity=true'']
         else options @ [''external_ids:netloom_session_affinity=false''])"

definition loadBalancerHealthCheckArgs :: "LoadBalancer \<Rightarrow> LoadBalancerFrontend \<Rightarrow> string list" where
  "loadBalancerHealthCheckArgs lb frontend =
     (let hc = lb_HealthCheck lb; default = (\<lambda>v d. nat_Itoa (unat (if v = 0 then d else v)))
      in [''Load_Balancer_Health_Check'', ''vip='' @ ovnStringValue (loadBalancerFrontendVIP frontend),
          ''options:interval='' @ default (hc_Interval hc) 5, ''options:timeout='' @ default (hc_Timeout hc) 20,
          ''options:success_count='' @ default (hc_SuccessCount hc) 3, ''options:failure_count='' @ default (hc_FailureCount hc) 3,
          ''external_ids:netloom_owner=netloom'', ''external_ids:netloom_load_balancer='' @ lb_Name lb, ''external_ids:netloom_vpc='' @ lb_VPC lb])"

definition loadBalancerHealthCheckSignature :: "LoadBalancer \<Rightarrow> string" where
  "loadBalancerHealthCheckSignature lb =
     (if \<not> hc_Enabled (lb_HealthCheck lb) then ''disabled''
      else strings_Join (sort_Strings (map (\<lambda>f. strings_Join (loadBalancerHealthCheckArgs lb f) ''|'')
             (loadBalancerHealthCheckFrontends (loadBalancerFrontendsByProtocol lb)))) ''||'')"

definition gcLoadBalancerHealthChecksOperation :: "string \<Rightarrow> string \<Rightarrow> Operation" where
  "gcLoadBalancerHealthChecksOperation loadBalancer vpc = Op ''gc-load-balancer-health-checks'' [] [loadBalancer, vpc]"

definition ensureLoadBalancerHealthCheckOperation :: "string \<Rightarrow> string \<Rightarrow> string \<Rightarrow> string list \<Rightarrow> Operation" where
  "ensureLoadBalancerHealthCheckOperation ovnLoadBalancer loadBalancer vpc args =
     Op ''ensure-load-balancer-health-check'' [] ([ovnLoadBalancer, loadBalancer, vpc] @ tl args)"

definition gcStaleLoadBalancerHealthChecksOperation :: "string \<Rightarrow> string \<Rightarrow> string list \<Rightarrow> Operation" where
  "gcStaleLoadBalancerHealthChecksOperation loadBalancer vpc keepVIPs = Op ''gc-stale-load-balancer-health-checks'' [] ([loadBalancer, vpc] @ keepVIPs)"

definition loadBalancerHealthCheckOperations ::
    "LoadBalancer \<Rightarrow> (Protocol, LoadBalancerFrontend list) gomap \<Rightarrow> Planner \<Rightarrow> Operation list \<times> Planner" where
  "loadBalancerHealthCheckOperations lb m p =
     (let names = loadBalancerProtocolNamesFromFrontends (lb_VPC lb) (lb_Name lb) m;
          key = loadBalancerStateKey lb;
          clears = map (\<lambda>name. Op ''clear'' [] [''load_balancer'', name, ''health_check'']) names;
          signature = loadBalancerHealthCheckSignature lb;
          name = loadBalancerProtocolName (lb_VPC lb) (lb_Name lb) ProtocolTCP;
          frontends = loadBalancerHealthCheckFrontends m
      in if \<not> hc_Enabled (lb_HealthCheck lb) then
           (clears @ [gcLoadBalancerHealthChecksOperation (lb_Name lb) (lb_VPC lb)],
            p\<lparr>pl_healthChecks := AList.delete key (pl_healthChecks p)\<rparr>)
         else if gomap_get '''' (pl_healthChecks p) key = signature then ([], p)
         else
           (clears @
            map (\<lambda>f. ensureLoadBalancerHealthCheckOperation name (lb_Name lb) (lb_VPC lb) (loadBalancerHealthCheckArgs lb f)) frontends @
            [gcStaleLoadBalancerHealthChecksOperation (lb_Name lb) (lb_VPC lb) (map loadBalancerFrontendVIP frontends)],
            p\<lparr>pl_healthChecks := AList.update key signature (pl_healthChecks p)\<rparr>))"

definition lb_protocol_ops :: "string \<Rightarrow> LoadBalancer \<Rightarrow> (Protocol, LoadBalancerFrontend list) gomap \<Rightarrow> Protocol \<Rightarrow> Operation list" where
  "lb_protocol_ops router lb m protocol =
     (let name = loadBalancerProtocolName (lb_VPC lb) (lb_Name lb) protocol
      in map (\<lambda>f. Op ''lb-add'' [''--may-exist''] [name, loadBalancerFrontendVIP f, loadBalancerFrontendBackends f, front_Protocol f]) (gomap_get [] m protocol) @
         [setOperation ''load_balancer'' name (loadBalancerOptions lb), Op ''lr-lb-add'' [''--may-exist''] [router, name]] @
         (if \<not> lb_SessionAffinity lb then [Op ''remove'' [] [''load_balancer'', name, ''options'', ''affinity_timeout'']] else []) @
         map (\<lambda>subnet. Op ''ls-lb-add'' [''--may-exist''] [logicalSwitch (lb_VPC lb) subnet, name]) (lb_Subnets lb))"

definition Planner_EnsureLoadBalancer :: "LoadBalancer \<Rightarrow> Planner \<Rightarrow> Planner" where
  "Planner_EnsureLoadBalancer lb p =
     (case routerForVPC (lb_VPC lb) p of (router, p') \<Rightarrow>
      let m = loadBalancerFrontendsByProtocol lb;
          p'' = plan_ops (concat (map (lb_protocol_ops router lb m) (sortedLoadBalancerProtocols m))) p'
      in case loadBalancerHealthCheckOperations lb m p'' of (ops, p''') \<Rightarrow> plan_ops ops p''')"


section \<open>The planned operations\<close>

definition OperationCount :: "Planner \<Rightarrow> nat" where
  "OperationCount p = length (pl_ops p)"

definition OperationsSince :: "int \<Rightarrow> bool \<Rightarrow> Planner \<Rightarrow> Operation list \<times> Planner" where
  "OperationsSince start0 discard p =
     (let start = nat (min (max start0 0) (int (length (pl_ops p))));
          out = drop start (pl_ops p)
      in if \<not> discard then (out, p) else (out, p\<lparr>pl_ops := take start (pl_ops p)\<rparr>))"

definition DiscardOperations :: "int \<Rightarrow> Planner \<Rightarrow> Planner" where
  "DiscardOperations n p = (if n \<le> 0 then p else p\<lparr>pl_ops := drop (nat n) (pl_ops p)\<rparr>)"

definition SyncLoadBalancerHealthChecks :: "(string, LoadBalancer) gomap \<Rightarrow> Planner \<Rightarrow> Planner" where
  "SyncLoadBalancerHealthChecks loadBalancers p =
     p\<lparr>pl_healthChecks := filter (\<lambda>(name, _). map_of loadBalancers name \<noteq> None) (pl_healthChecks p)\<rparr>"

section \<open>The excluded addresses of a subnet\<close>

lemma word_bytes_4: "word_bytes (w :: u32) = [ucast (drop_bit 24 w), ucast (drop_bit 16 w), ucast (drop_bit 8 w), ucast w]"
  by (simp add: word_bytes_def upt_rec)

lemma uint32IPv4Addr_V4 [simp]: "uint32IPv4Addr w = V4 w"
  using bytes_word_word_bytes [of w] by (simp add: uint32IPv4Addr_def addr_AddrFrom4_def word_bytes_4)

lemma ipv4AddrUint32_V4 [simp]: "ipv4AddrUint32 (V4 w) = Some w"
  using bytes_word_word_bytes [of w]
  by (simp add: ipv4AddrUint32_def word_bytes_4 bytes_word_def push_bit_or or.assoc)

lemma ovn_prefixLastAddr_last:
  assumes "prefix_wf p" and "prefix_IsValid p" and "addr_Is4 (prefix_Addr p)"
  shows "ovn_prefixLastAddr p = Some (prefix_last p)"
  using assms
proof (cases p rule: prefix_valid_cases)
  case (V4 w n)
  have "push_bit m (1::u32) - 1 = mask m" for m by (simp add: mask_eq_exp_minus_1)
  with V4 have "ovn_prefixLastAddr p = Some (V4 ((w AND top_mask n) OR mask (32 - n)))"
    by (auto simp: ovn_prefixLastAddr_def nat_diff_distrib Let_def simp del: push_bit_of_1)
  with V4 prefix_last_Masked [OF assms(1,2)] show ?thesis by (simp add: prefix_last_def)
qed simp

interpretation ovn_last: last_addr "\<lambda>p. the (ovn_prefixLastAddr p)" "\<lambda>p. addr_Is4 (prefix_Addr p)"
  by unfold_locales (simp add: ovn_prefixLastAddr_last)

definition in_interval :: "ovnIPv4Interval \<Rightarrow> u32 \<Rightarrow> bool" where
  "in_interval iv x \<longleftrightarrow> iv_start iv \<le> x \<and> x \<le> iv_end iv"

lemma successor_cover:
  fixes e s x :: u32
  assumes "s \<le> e + 1" and "e < m" and "e < x"
  shows "s \<le> x"
proof -
  have "e + 1 \<le> x" using assms(3) by (rule inc_le)
  with assms(1) show ?thesis by (rule order_trans)
qed

lemma merge_intervals_cover:
  "sorted_wrt (\<lambda>a b. iv_start a \<le> iv_start b) (current # rest) \<Longrightarrow>
   list_ex (\<lambda>iv. in_interval iv x) (merge_intervals current rest) \<longleftrightarrow> list_ex (\<lambda>iv. in_interval iv x) (current # rest)"
proof (induction current rest rule: merge_intervals.induct)
  case (2 current interval rest)
  show ?case
  proof (cases "iv_start interval \<le> iv_end current + 1")
    case True
    let ?c = "if iv_end interval > iv_end current then current\<lparr>iv_end := iv_end interval\<rparr> else current"
    have "sorted_wrt (\<lambda>a b. iv_start a \<le> iv_start b) (?c # rest)" using "2.prems" by auto
    moreover have "in_interval ?c x \<longleftrightarrow> in_interval current x \<or> in_interval interval x"
      using "2.prems" True successor_cover [OF True, of "iv_end interval" x]
      by (auto simp: in_interval_def not_less intro: order_trans less_imp_le)
    ultimately show ?thesis using "2.IH"(1) [OF True] True by auto
  next
    case False
    with "2.IH"(2) "2.prems" show ?thesis by auto
  qed
qed simp

interpretation interval_order: strict_weak_order interval_before
  by unfold_locales (auto simp: interval_before_def split: if_splits)

lemma sorted_intervals: "sorted_wrt (\<lambda>a b. iv_start a \<le> iv_start b) (sort_SliceStable interval_before ivs)"
  by (rule sorted_wrt_mono_rel [OF _ interval_order.sorted_sort_SliceStable]) (auto simp: interval_before_def split: if_splits)

lemma mergeIPv4Intervals_cover:
  "list_ex (\<lambda>iv. in_interval iv x) (mergeIPv4Intervals ivs) \<longleftrightarrow> list_ex (\<lambda>iv. in_interval iv x) ivs"
proof -
  note sorted_intervals [of ivs]
  moreover have "list_ex (\<lambda>iv. in_interval iv x) (sort_SliceStable interval_before ivs) \<longleftrightarrow> list_ex (\<lambda>iv. in_interval iv x) ivs"
    by (simp add: list_ex_iff)
  ultimately show ?thesis
    by (cases "sort_SliceStable interval_before ivs") (simp_all add: mergeIPv4Intervals_def merge_intervals_cover)
qed

text \<open>The merged intervals leave a gap between them, as long as none ends at the last address.\<close>

lemma merge_intervals_apart:
  assumes "sorted_wrt (\<lambda>a b. iv_start a \<le> iv_start b) (current # rest)"
    and "\<forall>iv \<in> set (current # rest). iv_start iv \<le> iv_end iv \<and> iv_end iv \<noteq> -1"
  shows "sorted_wrt (\<lambda>a b. iv_end a + 1 < iv_start b) (merge_intervals current rest) \<and>
    (\<forall>iv \<in> set (merge_intervals current rest). iv_start current \<le> iv_start iv \<and> iv_start iv \<le> iv_end iv \<and> iv_end iv \<noteq> -1)"
  using assms
proof (induction current rest rule: merge_intervals.induct)
  case (2 current interval rest)
  show ?case
  proof (cases "iv_start interval \<le> iv_end current + 1")
    case True
    let ?c = "if iv_end interval > iv_end current then current\<lparr>iv_end := iv_end interval\<rparr> else current"
    have "sorted_wrt (\<lambda>a b. iv_start a \<le> iv_start b) (?c # rest)"
      and "\<forall>iv \<in> set (?c # rest). iv_start iv \<le> iv_end iv \<and> iv_end iv \<noteq> -1"
      using "2.prems" by (auto intro: order_trans less_imp_le)
    from "2.IH"(1) [OF True this] True show ?thesis by (auto split: if_splits)
  next
    case False
    with "2.IH"(2) [OF False] "2.prems" show ?thesis by (force intro: order_trans less_le_trans)
  qed
qed auto

lemma mergeIPv4Intervals_apart:
  assumes "\<forall>iv \<in> set ivs. iv_start iv \<le> iv_end iv \<and> iv_end iv \<noteq> -1"
  shows "sorted_wrt (\<lambda>a b. iv_end a + 1 < iv_start b) (mergeIPv4Intervals ivs)"
proof (cases "sort_SliceStable interval_before ivs")
  case (Cons current rest)
  have "set (sort_SliceStable interval_before ivs) = set ivs" by simp
  with Cons assms sorted_intervals [of ivs] have "sorted_wrt (\<lambda>a b. iv_end a + 1 < iv_start b) (merge_intervals current rest)"
    by (intro merge_intervals_apart [THEN conjunct1]) simp_all
  with Cons show ?thesis by (simp add: mergeIPv4Intervals_def)
qed (simp add: mergeIPv4Intervals_def)

lemma exclude_interval_exact:
  assumes "prefix_wf p"
  obtains ivs where "exclude_interval p = Some ivs" and "\<forall>x. list_ex (\<lambda>iv. in_interval iv x) ivs \<longleftrightarrow> prefix_Contains p (V4 x)"
    and "\<forall>iv \<in> set ivs. iv_start iv \<le> iv_end iv \<and> prefix_Contains p (V4 (iv_end iv))"
proof (cases "prefix_IsValid p \<and> addr_Is4 (prefix_Addr p)")
  case True
  then obtain w n where p: "p = Prefix (V4 w) (Suc n)" "n \<le> 32"
    using prefix_valid_cases [OF assms, of thesis] by fastforce
  let ?a = "w AND top_mask n" and ?b = "w OR mask (32 - n)"
  have last: "prefix_last (prefix_Masked p) = V4 ?b"
    using p prefix_last_Masked [OF assms] by (simp add: prefix_last_def)
  have m: "prefix_wf (prefix_Masked p)" "prefix_IsValid (prefix_Masked p)" "prefix_Addr (prefix_Masked p) = V4 ?a"
    using assms True p by (simp_all add: prefix_wf_Masked prefix_Masked_IsValid)
  have iv: "exclude_interval p = Some [\<lparr>iv_start = ?a, iv_end = ?b\<rparr>]"
    using m ovn_prefixLastAddr_last [OF m(1,2)] last by (simp add: exclude_interval_def Let_def)
  have "?a \<le> x \<and> x \<le> ?b \<longleftrightarrow> prefix_Contains p (V4 x)" for x
    using p by (simp add: top_match_interval)
  moreover have "?a \<le> ?b" using word_and_le2 [of w "top_mask n"] le_word_or2 [of w] by (rule order_trans)
  ultimately show ?thesis using iv by (intro that [of "[\<lparr>iv_start = ?a, iv_end = ?b\<rparr>]"]) (auto simp: in_interval_def)
next
  case False
  have "\<not> addr_Is4 (prefix_Addr (prefix_Masked p))"
  proof (cases "prefix_IsValid p")
    case True
    from assms True show ?thesis using False by (cases p rule: prefix_valid_cases) simp_all
  qed (simp add: prefix_Masked_invalid zero_prefix_def)
  then have "exclude_interval p = Some []" by (simp add: exclude_interval_def)
  moreover have "\<not> prefix_Contains p (V4 x)" for x
    using False assms by (cases "prefix_IsValid p") (auto elim: prefix_valid_cases simp: prefix_Contains_invalid)
  ultimately show ?thesis by (intro that [of "[]"]) simp_all
qed

text \<open>The text of a range in OVN's \<open>exclude_ips\<close>: its only address, or its first and last one.\<close>

definition range_text :: "ovnIPv4Interval \<Rightarrow> string" where
  "range_text iv =
     (if iv_start iv = iv_end iv then addr_String (V4 (iv_start iv))
      else addr_String (V4 (iv_start iv)) @ ''..'' @ addr_String (V4 (iv_end iv)))"

lemma interval_text: "interval_String = range_text"
  by (simp add: fun_eq_iff interval_String_def range_text_def Let_def)

text \<open>
  C23. The addresses that OVN is told to leave out of an IPv4 subnet are exactly its gateway and the
  addresses of its excluded prefixes, printed as intervals; the intervals are in order and have gaps between
  them if 255.255.255.255 is not one of those addresses.
\<close>

theorem ovnExcludeIPs_exact:
  assumes "addr_Is4 (prefix_Addr (subnet_CIDR s))" and "subnet_Gateway s = V4 g"
    and "\<forall>p \<in> set (subnet_ExcludeCIDRs s). prefix_wf p"
  shows "\<exists>ivs. ovnExcludeIPs s = Some (strings_Join (map range_text ivs) '' '') \<and>
    (\<forall>x. list_ex (\<lambda>iv. in_interval iv x) ivs \<longleftrightarrow> x = g \<or> (\<exists>p \<in> set (subnet_ExcludeCIDRs s). prefix_Contains p (V4 x))) \<and>
    (g \<noteq> -1 \<and> (\<forall>p \<in> set (subnet_ExcludeCIDRs s). \<not> prefix_Contains p (V4 (-1))) \<longrightarrow>
       sorted_wrt (\<lambda>a b. iv_end a + 1 < iv_start b) ivs)"
proof -
  have "\<exists>ivss. those (map exclude_interval ps) = Some ivss \<and>
      (\<forall>x. list_ex (\<lambda>iv. in_interval iv x) (concat ivss) \<longleftrightarrow> (\<exists>p \<in> set ps. prefix_Contains p (V4 x))) \<and>
      (\<forall>iv \<in> set (concat ivss). iv_start iv \<le> iv_end iv \<and> (\<exists>p \<in> set ps. prefix_Contains p (V4 (iv_end iv))))"
    if "\<forall>p \<in> set ps. prefix_wf p" for ps
    using that
  proof (induction ps)
    case (Cons p ps)
    then obtain ivs where "exclude_interval p = Some ivs" "\<forall>x. list_ex (\<lambda>iv. in_interval iv x) ivs \<longleftrightarrow> prefix_Contains p (V4 x)"
      "\<forall>iv \<in> set ivs. iv_start iv \<le> iv_end iv \<and> prefix_Contains p (V4 (iv_end iv))"
      using exclude_interval_exact [of p] by auto
    with Cons show ?case by auto
  qed simp
  from this [OF assms(3)] obtain ivss where ivss: "those (map exclude_interval (subnet_ExcludeCIDRs s)) = Some ivss"
    "\<forall>x. list_ex (\<lambda>iv. in_interval iv x) (concat ivss) \<longleftrightarrow> (\<exists>p \<in> set (subnet_ExcludeCIDRs s). prefix_Contains p (V4 x))"
    "\<forall>iv \<in> set (concat ivss). iv_start iv \<le> iv_end iv \<and> (\<exists>p \<in> set (subnet_ExcludeCIDRs s). prefix_Contains p (V4 (iv_end iv)))"
    by blast
  let ?ivs = "\<lparr>iv_start = g, iv_end = g\<rparr> # concat ivss"
  have "ovnExcludeIPs s = Some (strings_Join (map range_text (mergeIPv4Intervals ?ivs)) '' '')"
    using assms(1,2) ivss(1) by (simp add: ovnExcludeIPs_def exclude_intervals_def interval_text)
  moreover have "list_ex (\<lambda>iv. in_interval iv x) (mergeIPv4Intervals ?ivs) \<longleftrightarrow>
      x = g \<or> (\<exists>p \<in> set (subnet_ExcludeCIDRs s). prefix_Contains p (V4 x))" for x
    using ivss(2) by (auto simp: mergeIPv4Intervals_cover in_interval_def [of "\<lparr>iv_start = g, iv_end = g\<rparr>"])
  moreover have "sorted_wrt (\<lambda>a b. iv_end a + 1 < iv_start b) (mergeIPv4Intervals ?ivs)"
    if "g \<noteq> -1" and top: "\<forall>p \<in> set (subnet_ExcludeCIDRs s). \<not> prefix_Contains p (V4 (-1))"
  proof (rule mergeIPv4Intervals_apart)
    have "iv_end iv \<noteq> -1" if "iv \<in> set (concat ivss)" for iv using ivss(3) that top by metis
    then show "\<forall>iv \<in> set ?ivs. iv_start iv \<le> iv_end iv \<and> iv_end iv \<noteq> -1" using ivss(3) that(1) by simp
  qed
  ultimately show ?thesis by blast
qed

theorem ovnExcludeIPs_exact_witness:
  "\<exists>ivs. ovnExcludeIPs example_subnet = Some (strings_Join (map range_text ivs) '' '') \<and>
     list_ex (\<lambda>iv. in_interval iv 0x0A000001) ivs"
proof -
  have "addr_Is4 (prefix_Addr (subnet_CIDR example_subnet))" "subnet_Gateway example_subnet = V4 0x0A000001"
    "\<forall>p \<in> set (subnet_ExcludeCIDRs example_subnet). prefix_wf p"
    by (simp_all add: example_subnet_def)
  from ovnExcludeIPs_exact [OF this] show ?thesis by blast
qed

text \<open>
  At the end of the address space the test \<open>interval.start <= current.end+1\<close> wraps around, so that an
  interval inside another one is not merged into it.
\<close>

lemma merge_wraps_at_the_top:
  "mergeIPv4Intervals [\<lparr>iv_start = 0xFFFFFFF0, iv_end = 0xFFFFFFFF\<rparr>, \<lparr>iv_start = 0xFFFFFFF8, iv_end = 0xFFFFFFF8\<rparr>] =
     [\<lparr>iv_start = 0xFFFFFFF0, iv_end = 0xFFFFFFFF\<rparr>, \<lparr>iv_start = 0xFFFFFFF8, iv_end = 0xFFFFFFF8\<rparr>]"
  by code_simp


section \<open>The match of a policy route\<close>

text \<open>
  The expressions of OVN, as far as the planner writes them, with their text and the packets they
  hold for: an address inside a prefix, a protocol, the comparison of a port, the conjunction of two
  expressions and the disjunction of several. The expression of a field implies that the packet has
  the field: \<open>tcp.dst\<close> only TCP packets, \<open>ip6.src\<close> only IPv6 packets. Alternatives are listed in the
  order of their text.
\<close>

datatype ovn_direction = Src | Dst

datatype ovn_relation = Equal | AtLeast | AtMost

datatype ovn_expr =
    AddressIn bool ovn_direction prefix
  | ProtocolIs Protocol
  | PortIs Protocol ovn_direction ovn_relation u16
  | Both ovn_expr ovn_expr
  | AnyOf "ovn_expr list"

fun direction_String :: "ovn_direction \<Rightarrow> string" where
  "direction_String Src = ''src''"
| "direction_String Dst = ''dst''"

fun relation_String :: "ovn_relation \<Rightarrow> string" where
  "relation_String Equal = ''==''"
| "relation_String AtLeast = ''>=''"
| "relation_String AtMost = ''<=''"

fun expr_String :: "ovn_expr \<Rightarrow> string" where
  "expr_String (AddressIn is6 d p) = (if is6 then ''ip6'' else ''ip4'') @ ''.'' @ direction_String d @ '' == '' @ prefix_String p"
| "expr_String (ProtocolIs protocol) = protocol"
| "expr_String (PortIs protocol d r port) = protocol @ ''.'' @ direction_String d @ '' '' @ relation_String r @ '' '' @ u16_String port"
| "expr_String (Both a b) = ''('' @ expr_String a @ '' && '' @ expr_String b @ '')''"
| "expr_String (AnyOf es) =
     (case sort_Strings (map expr_String es) of [t] \<Rightarrow> t | ts \<Rightarrow> ''('' @ strings_Join ts '' || '' @ '')'')"

fun packet_address :: "RoutedPacket \<Rightarrow> ovn_direction \<Rightarrow> addr" where
  "packet_address packet Src = rp_Source packet"
| "packet_address packet Dst = rp_Dest packet"

fun packet_port :: "RoutedPacket \<Rightarrow> ovn_direction \<Rightarrow> u16" where
  "packet_port packet Src = rp_SourcePort packet"
| "packet_port packet Dst = rp_DestPort packet"

fun relates :: "ovn_relation \<Rightarrow> u16 \<Rightarrow> u16 \<Rightarrow> bool" where
  "relates Equal a b \<longleftrightarrow> a = b"
| "relates AtLeast a b \<longleftrightarrow> a \<ge> b"
| "relates AtMost a b \<longleftrightarrow> a \<le> b"

fun expr_holds :: "RoutedPacket \<Rightarrow> ovn_expr \<Rightarrow> bool" where
  "expr_holds packet (AddressIn is6 d p) \<longleftrightarrow> addr_Is6 (packet_address packet d) = is6 \<and> prefix_Contains p (packet_address packet d)"
| "expr_holds packet (ProtocolIs protocol) \<longleftrightarrow> rp_Protocol packet = protocol"
| "expr_holds packet (PortIs protocol d r port) \<longleftrightarrow> rp_Protocol packet = protocol \<and> relates r (packet_port packet d) port"
| "expr_holds packet (Both a b) \<longleftrightarrow> expr_holds packet a \<and> expr_holds packet b"
| "expr_holds packet (AnyOf es) \<longleftrightarrow> list_ex (expr_holds packet) es"

text \<open>What the parts of a route match ask for.\<close>

definition prefix_expr :: "ovn_direction \<Rightarrow> prefix \<Rightarrow> ovn_expr" where
  "prefix_expr d p = AddressIn (addr_Is6 (prefix_Addr p)) d p"

definition range_expr :: "Protocol \<Rightarrow> ovn_direction \<Rightarrow> PortRange \<Rightarrow> ovn_expr" where
  "range_expr protocol d r =
     (if port_From r = port_To r then PortIs protocol d Equal (port_From r)
      else Both (PortIs protocol d AtLeast (port_From r)) (PortIs protocol d AtMost (port_To r)))"

definition match_tests :: "RouteMatch \<Rightarrow> ovn_expr list" where
  "match_tests m =
     (if prefix_IsValid (match_Source m) then [prefix_expr Src (match_Source m)] else []) @
     (if prefix_IsValid (match_Destination m) then [prefix_expr Dst (match_Destination m)] else []) @
     (if match_Protocol m \<noteq> '''' \<and> match_Protocol m \<noteq> ProtocolAny then [ProtocolIs (match_Protocol m)] else []) @
     (if match_SrcPorts m \<noteq> [] then [AnyOf (map (range_expr (match_Protocol m) Src) (match_SrcPorts m))] else []) @
     (if match_DstPorts m \<noteq> [] then [AnyOf (map (range_expr (match_Protocol m) Dst) (match_DstPorts m))] else [])"

lemma sort_Strings_empty: "sort_Strings xs = [] \<longleftrightarrow> xs = []"
  by (metis length_0_conv length_sort_SliceStable sort_Strings_def)

lemma policyRoutePortMatch_empty: "policyRoutePortMatch protocol direction ports = '''' \<longleftrightarrow> ports = []"
proof -
  have "hd (sort_Strings xs) \<noteq> ''''" if "xs \<noteq> []" "'''' \<notin> set xs" for xs
  proof -
    have "hd (sort_Strings xs) \<in> set (sort_Strings xs)" using that(1) by (intro hd_in_set) (simp add: sort_Strings_empty)
    with that(2) show ?thesis by (auto simp: sort_Strings_def)
  qed
  from this [of "map (port_clause (protocol @ ''.'' @ direction)) ports"] show ?thesis
    by (auto simp: policyRoutePortMatch_def port_clause_def Let_def)
qed

lemma port_clause_text: "port_clause (protocol @ ''.'' @ direction_String d) r = expr_String (range_expr protocol d r)"
  by (simp add: port_clause_def range_expr_def)

lemma port_match_text:
  assumes "ports \<noteq> []"
  shows "policyRoutePortMatch protocol (direction_String d) ports = expr_String (AnyOf (map (range_expr protocol d) ports))"
proof -
  have clauses: "map (port_clause (protocol @ ''.'' @ direction_String d)) ports = map expr_String (map (range_expr protocol d) ports)"
    using port_clause_text by (simp del: append.simps)
  show ?thesis
    using assms unfolding policyRoutePortMatch_def Let_def clauses expr_String.simps(5) by (auto split: list.split)
qed

lemma match_tests_text:
  "policyRouteMatch m =
     (if match_tests m = [] then ''1 == 1'' else strings_Join (sort_Strings (map expr_String (match_tests m))) '' && '')"
proof -
  have prefixes: "ipFamily p @ ''.src == '' @ prefix_String p = expr_String (prefix_expr Src p)"
    "ipFamily p @ ''.dst == '' @ prefix_String p = expr_String (prefix_expr Dst p)" for p
    by (simp_all add: ipFamily_def prefix_expr_def)
  note ports = port_match_text [where d = Src, unfolded direction_String.simps] port_match_text [where d = Dst, unfolded direction_String.simps]
  have "(if prefix_IsValid (match_Source m) then [ipFamily (match_Source m) @ ''.src == '' @ prefix_String (match_Source m)] else []) @
      (if prefix_IsValid (match_Destination m) then [ipFamily (match_Destination m) @ ''.dst == '' @ prefix_String (match_Destination m)] else []) @
      (if match_Protocol m \<noteq> '''' \<and> match_Protocol m \<noteq> ProtocolAny then [match_Protocol m] else []) @
      (if policyRoutePortMatch (match_Protocol m) ''src'' (match_SrcPorts m) \<noteq> ''''
       then [policyRoutePortMatch (match_Protocol m) ''src'' (match_SrcPorts m)] else []) @
      (if policyRoutePortMatch (match_Protocol m) ''dst'' (match_DstPorts m) \<noteq> ''''
       then [policyRoutePortMatch (match_Protocol m) ''dst'' (match_DstPorts m)] else []) = map expr_String (match_tests m)"
    unfolding prefixes policyRoutePortMatch_empty match_tests_def by (simp add: ports del: expr_String.simps(5))
  then show ?thesis unfolding policyRouteMatch_def Let_def by (simp only: sort_Strings_empty map_is_Nil_conv)
qed

lemma prefix_expr_holds: "expr_holds packet (prefix_expr d p) \<longleftrightarrow> prefix_Contains p (packet_address packet d)"
  by (cases "prefix_Addr p"; cases "packet_address packet d") (auto simp: prefix_expr_def prefix_Contains_def)

lemma range_expr_holds:
  "expr_holds packet (range_expr protocol d r) \<longleftrightarrow>
     rp_Protocol packet = protocol \<and> port_From r \<le> packet_port packet d \<and> packet_port packet d \<le> port_To r"
  by (auto simp: range_expr_def)

text \<open>
  C14. The match the planner gives OVN for a policy route is the text of a conjunction of OVN
  expressions, in the order of their text, and these hold for exactly the packets that the topology
  resolver matches with the route. The expressions have a text and a meaning of their own,
  independent of the planner.
\<close>

theorem policyRouteMatch_meaning:
  assumes "is_ok (RouteMatch_Validate m)"
  shows "policyRouteMatch m =
      (if match_tests m = [] then ''1 == 1'' else strings_Join (sort_Strings (map expr_String (match_tests m))) '' && '') \<and>
    (\<forall>packet. list_all (expr_holds packet) (match_tests m) \<longleftrightarrow> routeMatch m packet)"
proof (intro conjI allI)
  fix packet
  have "match_Protocol m \<noteq> '''' \<and> match_Protocol m \<noteq> ProtocolAny" if "match_SrcPorts m \<noteq> [] \<or> match_DstPorts m \<noteq> []"
    using assms that by (auto simp: RouteMatch_Validate_def is_ok_first_error port_protocol_def Let_def split: if_splits)
  then show "list_all (expr_holds packet) (match_tests m) \<longleftrightarrow> routeMatch m packet"
    unfolding match_tests_def routeMatch_def topology_portRangesContain_def
    by (auto simp: prefix_expr_holds range_expr_holds list_ex_iff)
qed (rule match_tests_text)

theorem policyRouteMatch_meaning_witness:
  "policyRouteMatch \<lparr>match_Source = zero_prefix, match_Destination = zero_prefix, match_Protocol = ''tcp'',
       match_SrcPorts = [], match_DstPorts = [\<lparr>port_From = 80, port_To = 80\<rparr>]\<rparr> =
     strings_Join (sort_Strings (map expr_String [ProtocolIs ''tcp'', AnyOf [PortIs ''tcp'' Dst Equal 80]])) '' && ''"
proof -
  let ?m = "\<lparr>match_Source = zero_prefix, match_Destination = zero_prefix, match_Protocol = ''tcp'',
    match_SrcPorts = [], match_DstPorts = [\<lparr>port_From = 80, port_To = 80\<rparr>]\<rparr>"
  have "is_ok (RouteMatch_Validate ?m)" by code_simp
  moreover have "match_tests ?m = [ProtocolIs ''tcp'', AnyOf [PortIs ''tcp'' Dst Equal 80]]" by code_simp
  ultimately show ?thesis using policyRouteMatch_meaning [of ?m] by simp
qed


section \<open>Names of endpoints\<close>

text \<open>The identifier of an endpoint in the external ids of a row determines the endpoint's key.\<close>

definition base64_value :: "char \<Rightarrow> nat" where
  "base64_value c = length (takeWhile (\<lambda>d. d \<noteq> c) ''ABCDEFGHIJKLMNOPQRSTUVWXYZabcdefghijklmnopqrstuvwxyz0123456789-_'')"

fun base64_decode :: "nat list \<Rightarrow> nat list" where
  "base64_decode (a # b # c # d # rest) = (a * 4 + b div 16) # (b mod 16 * 16 + c div 4) # (c mod 4 * 64 + d) # base64_decode rest"
| "base64_decode [a, b, c] = [a * 4 + b div 16, b mod 16 * 16 + c div 4]"
| "base64_decode [a, b] = [a * 4 + b div 16]"
| "base64_decode _ = []"

lemma base64_value_char: "n < 64 \<Longrightarrow> base64_value (base64_char n) = n"
proof -
  have "\<forall>n < 64. base64_value (base64_char n) = n" by code_simp
  then show "n < 64 \<Longrightarrow> base64_value (base64_char n) = n" by blast
qed

lemma base64_roundtrip:
  "\<forall>b \<in> set bs. b < 256 \<Longrightarrow> base64_decode (map base64_value (base64_RawURL bs)) = bs"
proof (induction bs rule: base64_RawURL.induct)
  case (2 a)
  then show ?case by (simp add: base64_value_char)
next
  case (3 a b)
  then have "a mod 4 * 16 + b div 16 < 64" "b mod 16 * 4 < 64" "a div 4 < 64" "b div 16 < 16" by auto
  then show ?case by (simp add: base64_value_char)
next
  case (4 a b c rest)
  then have "a mod 4 * 16 + b div 16 < 64" "b mod 16 * 4 + c div 64 < 64" "a div 4 < 64" "b div 16 < 16" "c div 64 < 4" by auto
  with 4 show ?case by (simp add: base64_value_char div_add1_eq mod_add_eq)
qed simp

lemma endpointExternalID_inj:
  assumes "endpointExternalID vpc endpoint = endpointExternalID vpc' endpoint'"
  shows "EndpointKey vpc endpoint = EndpointKey vpc' endpoint'"
proof -
  have bytes: "base64_decode (map base64_value (base64_RawURL (map of_char s))) = map of_char s" for s
    by (rule base64_roundtrip) (simp add: nat_of_char_less_256)
  let ?a = "EndpointKey vpc endpoint" and ?b = "EndpointKey vpc' endpoint'"
  have "base64_decode (map base64_value (base64_RawURL (map of_char ?a))) = base64_decode (map base64_value (base64_RawURL (map of_char ?b)))"
    by (rule arg_cong [OF assms [unfolded endpointExternalID_def]])
  then have "map of_char ?a = (map of_char ?b :: nat list)" unfolding bytes .
  moreover have "inj (of_char :: char \<Rightarrow> nat)" by (rule injI) (rule iffD1 [OF of_char_eq_iff])
  ultimately show ?thesis by (simp only: inj_map_eq_map)
qed

end
