(* ===== verification/Lifecycle.thy ===== *)
theory Lifecycle
  imports Planner
begin

text \<open>
  \<open>internal/ovn/lifecycle.go\<close>: the snapshot of a desired topology, the operations that remove what an
  older snapshot had and a newer one has not, the statistics of such a cleanup, and the signatures by
  which an object is recognised as unchanged. The functions that copy values for a snapshot are the
  identity here.
\<close>

section \<open>Snapshots\<close>

record routeRecord =
  rr_VPC :: string
  rr_Route :: Route

record policyRouteRecord =
  pr_Route :: PolicyRoute
  pr_Match :: string

record desiredSnapshot =
  snap_VPCs :: "(string, VPC) gomap"
  snap_Subnets :: "(string, Subnet) gomap"
  snap_Endpoints :: "(string, Endpoint) gomap"
  snap_Routes :: "(string, routeRecord) gomap"
  snap_PolicyRoutes :: "(string, policyRouteRecord) gomap"
  snap_Gateways :: "(string, Gateway) gomap"
  snap_NATRules :: "(string, NATRule) gomap"
  snap_LoadBalancers :: "(string, LoadBalancer) gomap"

definition empty_snapshot :: desiredSnapshot where
  "empty_snapshot =
     \<lparr>snap_VPCs = [], snap_Subnets = [], snap_Endpoints = [], snap_Routes = [], snap_PolicyRoutes = [], snap_Gateways = [],
      snap_NATRules = [], snap_LoadBalancers = []\<rparr>"

definition routeKey :: "string \<Rightarrow> Route \<Rightarrow> string" where
  "routeKey vpc route = vpc @ ''|'' @ prefix_String (route_Destination route)"

definition policyRouteKey :: "PolicyRoute \<Rightarrow> string" where
  "policyRouteKey route = proute_VPC route @ NUL @ proute_Name route"

definition natRuleStateKey :: "string \<Rightarrow> string \<Rightarrow> string" where
  "natRuleStateKey vpc name = vpc @ NUL @ name"

definition table_records :: "RouteTable \<Rightarrow> routeRecord list" where
  "table_records table = map (\<lambda>route. \<lparr>rr_VPC = table_VPC table, rr_Route = route\<rparr>) (table_Routes table)"

definition record_key :: "routeRecord \<Rightarrow> string" where
  "record_key r = routeKey (rr_VPC r) (rr_Route r)"

definition snapshotDesired :: "State \<Rightarrow> desiredSnapshot" where
  "snapshotDesired state =
     \<lparr>snap_VPCs = topo_VPCs state,
      snap_Subnets = gomap_index (\<lambda>s. subnetStateKey (subnet_VPC s) (subnet_Name s)) (map snd (topo_Subnets state)),
      snap_Endpoints = gomap_index (\<lambda>e. EndpointKey (ep_VPC e) (ep_ID e)) (map snd (topo_Endpoints state)),
      snap_Routes = gomap_index record_key (concat (map (\<lambda>(_, table). table_records table) (topo_RouteTables state))),
      snap_PolicyRoutes = gomap_index (\<lambda>r. policyRouteKey (pr_Route r))
        (map (\<lambda>route. \<lparr>pr_Route = route, pr_Match = policyRouteMatch (proute_Match route)\<rparr>) (topo_PolicyRoutes state)),
      snap_Gateways = gomap_index (\<lambda>g. gatewayStateKey (gw_VPC g) (gw_Name g)) (map snd (topo_Gateways state)),
      snap_NATRules = gomap_index (\<lambda>r. natRuleStateKey (nat_VPC r) (nat_Name r)) (map snd (topo_NATRules state)),
      snap_LoadBalancers = gomap_index loadBalancerStateKey (map snd (topo_LoadBalancers state))\<rparr>"

definition commonKeys :: "(string, 't) gomap \<Rightarrow> (string, 't) gomap \<Rightarrow> string list" where
  "commonKeys old new = sort_Strings (filter (\<lambda>key. map_of new key \<noteq> None) (map fst old))"

definition staleKeys :: "(string, 't) gomap \<Rightarrow> (string, 't) gomap \<Rightarrow> string list" where
  "staleKeys old new = sort_Strings (filter (\<lambda>key. map_of new key = None) (map fst old))"

definition removedStrings :: "string list \<Rightarrow> string list \<Rightarrow> string list" where
  "removedStrings old new = sort_Strings (filter (\<lambda>value. value \<notin> set new) old)"

text \<open>A loop over keys that a map is known to hold.\<close>

definition lookup :: "(string, 't) gomap \<Rightarrow> string \<Rightarrow> 't" where
  "lookup m key = the (map_of m key)"


section \<open>Signatures\<close>

definition sortedRouteNextHops :: "Route \<Rightarrow> string list" where
  "sortedRouteNextHops route = sort_Strings (map addr_String (RouteNextHops route))"

definition u32_String :: "u32 \<Rightarrow> string" where
  "u32_String n = nat_Itoa (unat n)"

definition routeSignature :: "routeRecord \<Rightarrow> string" where
  "routeSignature r =
     (let route = rr_Route r;
          bfd = route_BFD route
      in if route_Blackhole route then routeKey (rr_VPC r) route @ ''|discard''
         else routeKey (rr_VPC r) route @ ''|'' @ strings_Join (sort_Strings (map addr_String (RouteNextHops route))) '','' @
           (if bfd_Enabled bfd
            then ''|bfd='' @ bfd_LogicalPort bfd @ '','' @ u32_String (bfd_MinTx bfd) @ '','' @ u32_String (bfd_MinRx bfd) @ '','' @ u32_String (bfd_DetectMult bfd)
            else ''''))"

definition policyRouteNextHops :: "RouteAction \<Rightarrow> string" where
  "policyRouteNextHops action = strings_Join (sort_Strings (map addr_String (RerouteNextHops action))) '',''"

definition policyRouteSignature :: "PolicyRoute \<Rightarrow> string" where
  "policyRouteSignature route =
     proute_VPC route @ ''|'' @ proute_Name route @ ''|'' @ strconv_Itoa (proute_Priority route) @ ''|'' @
     policyRouteMatch (proute_Match route) @ ''|'' @ action_Type (proute_Action route) @ ''|'' @ policyRouteNextHops (proute_Action route)"

definition natRuleSignature :: "NATRule \<Rightarrow> string" where
  "natRuleSignature rule =
     nat_VPC rule @ ''|'' @ nat_Type rule @ ''|'' @ prefix_String (nat_MatchCIDR rule) @ ''|'' @ addr_String (nat_ExternalIP rule) @ ''|'' @
     addr_String (nat_TargetIP rule) @ ''|'' @ nat_Protocol rule @ ''|'' @ u16_String (nat_ExternalPort rule) @ ''|'' @
     u16_String (nat_TargetPort rule) @ ''|'' @ nat_LogicalPort rule @ ''|'' @ nat_ExternalMAC rule"

definition loadBalancerSignature :: "LoadBalancer \<Rightarrow> string" where
  "loadBalancerSignature lb =
     strings_Join
       [lb_VPC lb,
        strings_Join (sort_Strings (map (\<lambda>f. strings_Join [loadBalancerFrontendVIP f, front_Protocol f, loadBalancerFrontendBackends f] ''|'')
          (Frontends lb))) ''||'',
        strings_Join (loadBalancerOptions lb) ''|'', loadBalancerHealthCheckSignature lb, strings_Join (sort_Strings (lb_Subnets lb)) '','']
       ''###''"

definition named_port_before :: "NamedPort \<Rightarrow> NamedPort \<Rightarrow> bool" where
  "named_port_before a b =
     (if named_Name a \<noteq> named_Name b then named_Name a < named_Name b
      else if named_Protocol a \<noteq> named_Protocol b then named_Protocol a < named_Protocol b
      else named_Port a < named_Port b)"

definition zero_Subnet :: Subnet where
  "zero_Subnet =
     \<lparr>subnet_Name = '''', subnet_VPC = '''', subnet_CIDR = zero_prefix, subnet_Gateway = ZeroAddr, subnet_ExcludeCIDRs = [],
      subnet_ProviderNetwork = '''', subnet_VLAN = 0,
      subnet_DHCP = \<lparr>dhcp_Enabled = False, dhcp_LeaseTime = 0, dhcp_MTU = 0, dhcp_DNSServers = [], dhcp_DomainName = '''', dhcp_SearchDomains = []\<rparr>\<rparr>"

definition subnetForEndpoint :: "(string, Subnet) gomap \<Rightarrow> Endpoint \<Rightarrow> Subnet" where
  "subnetForEndpoint subnets endpoint =
     (case map_of subnets (subnetStateKey (ep_VPC endpoint) (ep_Subnet endpoint)) of None \<Rightarrow> zero_Subnet | Some subnet \<Rightarrow> subnet)"

text \<open>The text whose digest is the signature of an endpoint: the writes to the hash, one after the other.\<close>

definition endpoint_text :: "Endpoint \<Rightarrow> Subnet \<Rightarrow> string" where
  "endpoint_text e s =
     (let dhcp = subnet_DHCP s in
      concat (map (\<lambda>part. part @ ''|'')
        [ep_ID e, ep_VPC e, ep_Subnet e, addr_String (ep_IP e), ep_MAC e, ep_Node e, subnet_Name s, prefix_String (subnet_CIDR s),
         addr_String (subnet_Gateway s), u16_String (subnet_VLAN s), subnet_ProviderNetwork s, bool_String (dhcp_Enabled dhcp),
         u32_String (dhcp_LeaseTime dhcp), u16_String (dhcp_MTU dhcp), strings_Join (sort_Strings (map addr_String (dhcp_DNSServers dhcp))) '','',
         dhcp_DomainName dhcp, strings_Join (sort_Strings (dhcp_SearchDomains dhcp)) '','', strings_Join (sort_Strings (ep_SecurityGroups e)) '','']) @
      concat (map (\<lambda>np. named_Name np @ ''|'' @ named_Protocol np @ ''|'' @ u16_String (named_Port np) @ ''|'')
        (sort_SliceStable named_port_before (ep_NamedPorts e))) @
      ''|'' @ strings_Join (sort_Strings (map (\<lambda>(key, value). key @ ''='' @ value) (ep_Labels e))) '','')"

definition endpointSignature :: "Endpoint \<Rightarrow> Subnet \<Rightarrow> string" where
  "endpointSignature e s = concat (map hex2 (sha256_Sum256 (string_bytes (endpoint_text e s))))"

section \<open>Operations that remove objects\<close>

definition deleteStaticRouteDestinationOperation :: "routeRecord \<Rightarrow> Operation" where
  "deleteStaticRouteDestinationOperation r =
     Op ''lr-route-del'' [''--if-exists''] [logicalRouter (rr_VPC r), prefix_String (route_Destination (rr_Route r))]"

definition deleteStaticRouteNextHopOperation :: "routeRecord \<Rightarrow> string \<Rightarrow> Operation" where
  "deleteStaticRouteNextHopOperation r nextHop =
     Op ''lr-route-del'' [''--if-exists''] [logicalRouter (rr_VPC r), prefix_String (route_Destination (rr_Route r)), nextHop]"

definition routeUpdateCleanupOperations :: "routeRecord \<Rightarrow> routeRecord \<Rightarrow> Operation list" where
  "routeUpdateCleanupOperations old new =
     (let oldNextHops = sortedRouteNextHops (rr_Route old);
          nextNextHops = sortedRouteNextHops (rr_Route new);
          stale = map (deleteStaticRouteNextHopOperation old) (filter (\<lambda>h. h \<notin> set nextNextHops) oldNextHops)
      in if routeSignature old = routeSignature new then []
         else if route_Blackhole (rr_Route old) \<or> route_Blackhole (rr_Route new) then [deleteStaticRouteDestinationOperation old]
         else if length oldNextHops = 1 \<and> length nextNextHops > 1 then
           (if hd oldNextHops \<in> set nextNextHops then [] else [deleteStaticRouteDestinationOperation old])
         else if length oldNextHops > 1 \<and> length nextNextHops = 1 then
           (if list_ex (\<lambda>h. h \<in> set nextNextHops) oldNextHops then stale else [deleteStaticRouteDestinationOperation old])
         else if length oldNextHops = 1 \<and> length nextNextHops = 1 then []
         else stale)"

definition policy_route_reroutes :: "PolicyRoute \<Rightarrow> PolicyRoute \<Rightarrow> bool" where
  "policy_route_reroutes old new \<longleftrightarrow>
     \<not> (proute_VPC old \<noteq> proute_VPC new \<or> proute_Priority old \<noteq> proute_Priority new) \<and>
     policyRouteMatch (proute_Match old) = policyRouteMatch (proute_Match new) \<and>
     \<not> (action_Type (proute_Action old) \<noteq> ActionReroute \<or> action_Type (proute_Action new) \<noteq> ActionReroute)"

definition policyRouteCanBeUpdatedByNexthop :: "PolicyRoute \<Rightarrow> PolicyRoute \<Rightarrow> bool" where
  "policyRouteCanBeUpdatedByNexthop old new \<longleftrightarrow>
     policy_route_reroutes old new \<and>
     \<not> (length (RerouteNextHops (proute_Action old)) \<noteq> 1 \<or> length (RerouteNextHops (proute_Action new)) \<noteq> 1) \<and>
     policyRouteSignature new \<noteq> policyRouteSignature old"

definition policyRouteCanBeUpdatedByNexthops :: "PolicyRoute \<Rightarrow> PolicyRoute \<Rightarrow> bool" where
  "policyRouteCanBeUpdatedByNexthops old new \<longleftrightarrow>
     policy_route_reroutes old new \<and>
     \<not> (length (RerouteNextHops (proute_Action old)) \<le> 1 \<or> length (RerouteNextHops (proute_Action new)) \<le> 1) \<and>
     policyRouteSignature new \<noteq> policyRouteSignature old"

definition policyRouteNexthopSyncOperation :: "policyRouteRecord \<Rightarrow> policyRouteRecord \<Rightarrow> Operation option" where
  "policyRouteNexthopSyncOperation old new =
     (if policyRouteCanBeUpdatedByNexthop (pr_Route old) (pr_Route new)
      then Some (Op ''sync-policy-route-nexthop'' []
             [proute_VPC (pr_Route new), proute_Name (pr_Route new), strconv_Itoa (proute_Priority (pr_Route new)), pr_Match new,
              addr_String (hd (RerouteNextHops (proute_Action (pr_Route new))))])
      else None)"

definition policyRouteNexthopsSyncOperation :: "policyRouteRecord \<Rightarrow> policyRouteRecord \<Rightarrow> Operation option" where
  "policyRouteNexthopsSyncOperation old new =
     (if policyRouteCanBeUpdatedByNexthops (pr_Route old) (pr_Route new)
      then Some (Op ''sync-policy-route-nexthops'' []
             [proute_VPC (pr_Route new), proute_Name (pr_Route new), strconv_Itoa (proute_Priority (pr_Route new)), pr_Match new,
              ovnStringSetValues (sort_Strings (map addr_String (RerouteNextHops (proute_Action (pr_Route new)))))])
      else None)"

definition delete_policy_route :: "policyRouteRecord \<Rightarrow> Operation" where
  "delete_policy_route r =
     Op ''lr-policy-del'' [''--if-exists''] [logicalRouter (proute_VPC (pr_Route r)), strconv_Itoa (proute_Priority (pr_Route r)), pr_Match r]"

definition natDeleteMatch :: "NATRule \<Rightarrow> string" where
  "natDeleteMatch rule = (if nat_Type rule = ActionSNAT then prefix_String (nat_MatchCIDR rule) else addr_String (nat_ExternalIP rule))"

definition natDeleteOperations :: "NATRule \<Rightarrow> Operation list" where
  "natDeleteOperations rule =
     (if natUsesManagedRecord rule then [gcNATRuleOperation rule]
      else [Op ''lr-nat-del'' [''--if-exists''] [logicalRouter (nat_VPC rule), natType (nat_Type rule), natDeleteMatch rule]])"

definition loadBalancerProtocolNames :: "LoadBalancer \<Rightarrow> string list" where
  "loadBalancerProtocolNames lb = loadBalancerProtocolNamesFromFrontends (lb_VPC lb) (lb_Name lb) (loadBalancerFrontendsByProtocol lb)"

definition loadBalancerVIPsByProtocol :: "LoadBalancer \<Rightarrow> (Protocol, string list) gomap" where
  "loadBalancerVIPsByProtocol lb =
     map (\<lambda>(protocol, vips). (protocol, sort_Strings vips))
       (fold (\<lambda>f. gomap_append (front_Protocol f) [loadBalancerFrontendVIP f]) (Frontends lb) [])"

definition loadBalancerFrontendSignaturesByProtocol :: "LoadBalancer \<Rightarrow> (Protocol, (string, string) gomap) gomap" where
  "loadBalancerFrontendSignaturesByProtocol lb =
     fold (\<lambda>f out. AList.update (front_Protocol f)
         (AList.update (loadBalancerFrontendVIP f) (loadBalancerFrontendBackends f) (gomap_get [] out (front_Protocol f))) out)
       (Frontends lb) []"

definition clear_health_check :: "string \<Rightarrow> Operation" where
  "clear_health_check name = Op ''clear'' [] [''load_balancer'', name, ''health_check'']"

definition stale_endpoint_ops :: "(string, Subnet) gomap \<Rightarrow> Endpoint \<Rightarrow> Operation list" where
  "stale_endpoint_ops subnets e =
     (let port = logicalPort (ep_VPC e) (ep_ID e)
      in (case map_of subnets (subnetStateKey (ep_VPC e) (ep_Subnet e)) of
            Some subnet \<Rightarrow>
              (if dhcp_Enabled (subnet_DHCP subnet)
               then [Op ''lsp-set-dhcpv4-options'' [] [port], Op ''lsp-set-dhcpv6-options'' [] [port], gcDHCPOptionsOperation e] else [])
          | None \<Rightarrow> []) @ [Op ''lsp-del'' [''--if-exists''] [port]])"

definition stale_subnet_ops :: "Subnet \<Rightarrow> Operation list" where
  "stale_subnet_ops s =
     (let router = logicalRouter (subnet_VPC s); switchName = logicalSwitch (subnet_VPC s) (subnet_Name s)
      in [Op ''lsp-del'' [''--if-exists''] [localnetPortName switchName (subnet_Name s)],
          Op ''lsp-del'' [''--if-exists''] [switchRouterPortName switchName (subnet_Name s)],
          Op ''lrp-del'' [''--if-exists''] [routerPortName router (subnet_Name s)], Op ''ls-del'' [''--if-exists''] [switchName]])"

definition changed_policy_route_ops :: "policyRouteRecord \<Rightarrow> policyRouteRecord \<Rightarrow> Operation list" where
  "changed_policy_route_ops old new =
     (if policyRouteSignature (pr_Route old) = policyRouteSignature (pr_Route new) then []
      else case policyRouteNexthopSyncOperation old new of
        Some op \<Rightarrow> [op]
      | None \<Rightarrow> (case policyRouteNexthopsSyncOperation old new of Some op \<Rightarrow> [op] | None \<Rightarrow> [delete_policy_route old]))"

definition stale_lb_ops :: "LoadBalancer \<Rightarrow> Operation list" where
  "stale_lb_ops lb =
     (let names = loadBalancerProtocolNames lb
      in map clear_health_check names @ [gcLoadBalancerHealthChecksOperation (lb_Name lb) (lb_VPC lb)] @
         concat (map (\<lambda>name.
           [Op ''lr-lb-del'' [''--if-exists''] [logicalRouter (lb_VPC lb), name]] @
           map (\<lambda>subnet. Op ''ls-lb-del'' [''--if-exists''] [logicalSwitch (lb_VPC lb) subnet, name]) (lb_Subnets lb) @
           [Op ''lb-del'' [''--if-exists''] [name]]) names))"

definition removed_vip_ops :: "LoadBalancer \<Rightarrow> LoadBalancer \<Rightarrow> Operation list" where
  "removed_vip_ops old new =
     (let oldVIPs = loadBalancerVIPsByProtocol old; newVIPs = loadBalancerVIPsByProtocol new
      in concat (map (\<lambda>protocol.
           case map_of newVIPs protocol of
             None \<Rightarrow> []
           | Some vips \<Rightarrow>
               map (\<lambda>vip. Op ''lb-del'' [''--if-exists''] [loadBalancerProtocolName (lb_VPC old) (lb_Name old) protocol, vip])
                 (removedStrings (gomap_get [] oldVIPs protocol) vips))
         (sortedLoadBalancerProtocols oldVIPs)))"

definition changed_vip_ops :: "LoadBalancer \<Rightarrow> LoadBalancer \<Rightarrow> Operation list" where
  "changed_vip_ops old new =
     (let oldSigs = loadBalancerFrontendSignaturesByProtocol old; newSigs = loadBalancerFrontendSignaturesByProtocol new
      in concat (map (\<lambda>protocol.
           case map_of newSigs protocol of
             None \<Rightarrow> []
           | Some sigs \<Rightarrow>
               map (\<lambda>vip. Op ''lb-del'' [''--if-exists''] [loadBalancerProtocolName (lb_VPC old) (lb_Name old) protocol, vip])
                 (filter (\<lambda>vip. gomap_get '''' (gomap_get [] oldSigs protocol) vip \<noteq> gomap_get '''' sigs vip)
                   (commonKeys (gomap_get [] oldSigs protocol) sigs)))
         (sortedLoadBalancerProtocols oldSigs)))"

definition changed_lb_ops :: "LoadBalancer \<Rightarrow> LoadBalancer \<Rightarrow> Operation list" where
  "changed_lb_ops old new =
     (let oldNames = loadBalancerProtocolNames old;
          removedNames = removedStrings oldNames (loadBalancerProtocolNames new);
          removedSubnets = removedStrings (lb_Subnets old) (lb_Subnets new);
          unbind = (\<lambda>name. Op ''lr-lb-del'' [''--if-exists''] [logicalRouter (lb_VPC old), name]);
          detach = (\<lambda>subnet name. Op ''ls-lb-del'' [''--if-exists''] [logicalSwitch (lb_VPC old) subnet, name])
      in map clear_health_check removedNames @
         (if removedNames \<noteq> [] then [gcLoadBalancerHealthChecksOperation (lb_Name old) (lb_VPC old)] else []) @
         (if lb_VPC old \<noteq> lb_VPC new then map unbind oldNames else []) @
         removed_vip_ops old new @ changed_vip_ops old new @
         concat (map (\<lambda>subnet. map (detach subnet) oldNames) removedSubnets) @
         concat (map (\<lambda>name.
           (if lb_VPC old = lb_VPC new then [unbind name] else []) @
           map (\<lambda>subnet. detach subnet name) (filter (\<lambda>subnet. subnet \<notin> set removedSubnets) (lb_Subnets old)) @
           [Op ''lb-del'' [''--if-exists''] [name]]) removedNames))"

definition stale_gateway_ops :: "Gateway \<Rightarrow> Operation list" where
  "stale_gateway_ops g =
     (let router = logicalRouter (gw_VPC g); remove = (\<lambda>column key. Op ''remove'' [] [''logical_router'', router, column, key])
      in [remove ''external_ids'' ''netloom_gateway'', remove ''external_ids'' ''netloom_external_if'',
          remove ''external_ids'' ''netloom_gateway_lan_ip'', remove ''external_ids'' ''netloom_gateway_distributed'',
          remove ''options'' ''chassis''])"

text \<open>The loops over the objects only the old snapshot has, and over those both have.\<close>

definition for_stale :: "('t \<Rightarrow> Operation list) \<Rightarrow> (string, 't) gomap \<Rightarrow> (string, 't) gomap \<Rightarrow> Operation list" where
  "for_stale f old new = concat (map (\<lambda>key. f (lookup old key)) (staleKeys old new))"

definition for_common :: "('t \<Rightarrow> 't \<Rightarrow> Operation list) \<Rightarrow> (string, 't) gomap \<Rightarrow> (string, 't) gomap \<Rightarrow> Operation list" where
  "for_common f old new = concat (map (\<lambda>key. f (lookup old key) (lookup new key)) (commonKeys old new))"

definition cleanupOperations :: "desiredSnapshot \<Rightarrow> desiredSnapshot \<Rightarrow> Operation list" where
  "cleanupOperations old new =
     for_stale (stale_endpoint_ops (snap_Subnets old)) (snap_Endpoints old) (snap_Endpoints new) @
     for_stale stale_subnet_ops (snap_Subnets old) (snap_Subnets new) @
     for_stale (\<lambda>r. [deleteStaticRouteDestinationOperation r]) (snap_Routes old) (snap_Routes new) @
     for_common routeUpdateCleanupOperations (snap_Routes old) (snap_Routes new) @
     for_stale (\<lambda>r. [delete_policy_route r]) (snap_PolicyRoutes old) (snap_PolicyRoutes new) @
     for_common changed_policy_route_ops (snap_PolicyRoutes old) (snap_PolicyRoutes new) @
     for_stale natDeleteOperations (snap_NATRules old) (snap_NATRules new) @
     for_common (\<lambda>o' n. if natRuleSignature o' = natRuleSignature n then [] else natDeleteOperations o') (snap_NATRules old) (snap_NATRules new) @
     for_stale stale_lb_ops (snap_LoadBalancers old) (snap_LoadBalancers new) @
     for_common changed_lb_ops (snap_LoadBalancers old) (snap_LoadBalancers new) @
     for_stale stale_gateway_ops (snap_Gateways old) (snap_Gateways new) @
     concat (map (\<lambda>key. [Op ''lr-del'' [''--if-exists''] [logicalRouter key]]) (staleKeys (snap_VPCs old) (snap_VPCs new)))"

section \<open>Statistics and unchanged objects\<close>

record CleanupStats =
  cs_Operations :: int
  cs_FirstReconcileGC :: bool
  cs_StaleVPCs :: int
  cs_StaleSubnets :: int
  cs_StaleEndpoints :: int
  cs_StaleRoutes :: int
  cs_StaleBFDs :: int
  cs_ChangedRoutes :: int
  cs_StalePolicyRoutes :: int
  cs_ChangedPolicyRoutes :: int
  cs_StaleGateways :: int
  cs_StaleNATRules :: int
  cs_ChangedNATRules :: int
  cs_StaleLoadBalancers :: int
  cs_ChangedLoadBalancers :: int
  cs_StaleLoadBalancerSubnets :: int
  cs_StaleLoadBalancerVIPs :: int
  cs_StaleLogicalSwitchPorts :: int
  cs_StaleLogicalRouterPorts :: int
  cs_StaleDHCPOptions :: int
  cs_StaleLBHealthChecks :: int

definition zero_CleanupStats :: CleanupStats where
  "zero_CleanupStats =
     \<lparr>cs_Operations = 0, cs_FirstReconcileGC = False, cs_StaleVPCs = 0, cs_StaleSubnets = 0, cs_StaleEndpoints = 0, cs_StaleRoutes = 0,
      cs_StaleBFDs = 0, cs_ChangedRoutes = 0, cs_StalePolicyRoutes = 0, cs_ChangedPolicyRoutes = 0, cs_StaleGateways = 0,
      cs_StaleNATRules = 0, cs_ChangedNATRules = 0, cs_StaleLoadBalancers = 0, cs_ChangedLoadBalancers = 0, cs_StaleLoadBalancerSubnets = 0,
      cs_StaleLoadBalancerVIPs = 0, cs_StaleLogicalSwitchPorts = 0, cs_StaleLogicalRouterPorts = 0, cs_StaleDHCPOptions = 0,
      cs_StaleLBHealthChecks = 0\<rparr>"

definition TotalStaleObjects :: "CleanupStats \<Rightarrow> int" where
  "TotalStaleObjects s =
     cs_StaleVPCs s + cs_StaleSubnets s + cs_StaleEndpoints s + cs_StaleRoutes s + cs_StaleBFDs s + cs_StalePolicyRoutes s +
     cs_StaleGateways s + cs_StaleNATRules s + cs_StaleLoadBalancers s + cs_StaleLoadBalancerSubnets s + cs_StaleLoadBalancerVIPs s +
     cs_StaleLogicalSwitchPorts s + cs_StaleLogicalRouterPorts s + cs_StaleDHCPOptions s + cs_StaleLBHealthChecks s"

definition TotalChangedObjects :: "CleanupStats \<Rightarrow> int" where
  "TotalChangedObjects s = cs_ChangedRoutes s + cs_ChangedPolicyRoutes s + cs_ChangedNATRules s + cs_ChangedLoadBalancers s"

definition count_changed :: "('t \<Rightarrow> string) \<Rightarrow> (string, 't) gomap \<Rightarrow> (string, 't) gomap \<Rightarrow> int" where
  "count_changed sig old new = int (length (filter (\<lambda>key. sig (lookup old key) \<noteq> sig (lookup new key)) (commonKeys old new)))"

definition sum_common :: "('t \<Rightarrow> 't \<Rightarrow> int) \<Rightarrow> (string, 't) gomap \<Rightarrow> (string, 't) gomap \<Rightarrow> int" where
  "sum_common f old new = sum_list (map (\<lambda>key. f (lookup old key) (lookup new key)) (commonKeys old new))"

definition removed_vips :: "LoadBalancer \<Rightarrow> LoadBalancer \<Rightarrow> int" where
  "removed_vips old new =
     (let oldVIPs = loadBalancerVIPsByProtocol old; newVIPs = loadBalancerVIPsByProtocol new
      in sum_list (map (\<lambda>protocol. int (length (removedStrings (gomap_get [] oldVIPs protocol) (gomap_get [] newVIPs protocol))))
           (sortedLoadBalancerProtocols oldVIPs)))"

definition cleanupStats :: "desiredSnapshot \<Rightarrow> desiredSnapshot \<Rightarrow> bool \<Rightarrow> int \<Rightarrow> CleanupStats" where
  "cleanupStats old new firstReconcileGC operations = zero_CleanupStats
     \<lparr>cs_Operations := operations, cs_FirstReconcileGC := firstReconcileGC,
      cs_StaleVPCs := int (length (staleKeys (snap_VPCs old) (snap_VPCs new))),
      cs_StaleSubnets := int (length (staleKeys (snap_Subnets old) (snap_Subnets new))),
      cs_StaleEndpoints := int (length (staleKeys (snap_Endpoints old) (snap_Endpoints new))),
      cs_StaleRoutes := int (length (staleKeys (snap_Routes old) (snap_Routes new))),
      cs_StalePolicyRoutes := int (length (staleKeys (snap_PolicyRoutes old) (snap_PolicyRoutes new))),
      cs_StaleGateways := int (length (staleKeys (snap_Gateways old) (snap_Gateways new))),
      cs_StaleNATRules := int (length (staleKeys (snap_NATRules old) (snap_NATRules new))),
      cs_StaleLoadBalancers := int (length (staleKeys (snap_LoadBalancers old) (snap_LoadBalancers new))),
      cs_ChangedRoutes := count_changed routeSignature (snap_Routes old) (snap_Routes new),
      cs_ChangedPolicyRoutes := count_changed (\<lambda>r. policyRouteSignature (pr_Route r)) (snap_PolicyRoutes old) (snap_PolicyRoutes new),
      cs_ChangedNATRules := count_changed natRuleSignature (snap_NATRules old) (snap_NATRules new),
      cs_ChangedLoadBalancers := count_changed loadBalancerSignature (snap_LoadBalancers old) (snap_LoadBalancers new),
      cs_StaleLoadBalancerSubnets := sum_common (\<lambda>o' n. int (length (removedStrings (lb_Subnets o') (lb_Subnets n))))
        (snap_LoadBalancers old) (snap_LoadBalancers new),
      cs_StaleLoadBalancerVIPs := sum_common removed_vips (snap_LoadBalancers old) (snap_LoadBalancers new)\<rparr>"

text \<open>The signatures of the objects that a run need not plan again, by key.\<close>

definition unchanged_by :: "('t \<Rightarrow> string) \<Rightarrow> ('t \<Rightarrow> 't \<Rightarrow> bool) \<Rightarrow> (string, 't) gomap \<Rightarrow> (string, 't) gomap \<Rightarrow> (string, string) gomap" where
  "unchanged_by sig same old new =
     map (\<lambda>key. (key, sig (lookup new key))) (filter (\<lambda>key. same (lookup old key) (lookup new key)) (commonKeys old new))"

definition unchangedNATRules :: "desiredSnapshot \<Rightarrow> desiredSnapshot \<Rightarrow> (string, string) gomap" where
  "unchangedNATRules old new =
     fold (\<lambda>key out.
         let rule = lookup (snap_NATRules new) key; signature = natRuleSignature rule
         in if natRuleSignature (lookup (snap_NATRules old) key) = signature
            then AList.update (natRuleStateKey (nat_VPC rule) (nat_Name rule)) signature out else out)
       (commonKeys (snap_NATRules old) (snap_NATRules new)) []"

definition unchangedLoadBalancers :: "desiredSnapshot \<Rightarrow> desiredSnapshot \<Rightarrow> (string, string) gomap" where
  "unchangedLoadBalancers old new =
     fold (\<lambda>key out.
         let lb = lookup (snap_LoadBalancers new) key; signature = loadBalancerSignature lb
         in if loadBalancerSignature (lookup (snap_LoadBalancers old) key) = signature
            then AList.update (loadBalancerStateKey lb) signature out else out)
       (commonKeys (snap_LoadBalancers old) (snap_LoadBalancers new)) []"

definition unchangedPolicyRoutes :: "desiredSnapshot \<Rightarrow> desiredSnapshot \<Rightarrow> (string, string) gomap" where
  "unchangedPolicyRoutes old new =
     unchanged_by (\<lambda>r. policyRouteSignature (pr_Route r))
       (\<lambda>o' n. policyRouteSignature (pr_Route o') = policyRouteSignature (pr_Route n) \<or>
          policyRouteCanBeUpdatedByNexthop (pr_Route o') (pr_Route n) \<or> policyRouteCanBeUpdatedByNexthops (pr_Route o') (pr_Route n))
       (snap_PolicyRoutes old) (snap_PolicyRoutes new)"

definition unchangedRoutes :: "desiredSnapshot \<Rightarrow> desiredSnapshot \<Rightarrow> (string, string) gomap" where
  "unchangedRoutes old new =
     map (\<lambda>(key, r). (key, routeSignature r))
       (filter (\<lambda>(key, r). case map_of (snap_Routes old) key of None \<Rightarrow> False | Some o' \<Rightarrow> routeSignature o' = routeSignature r)
         (snap_Routes new))"

definition unchangedEndpoints :: "desiredSnapshot \<Rightarrow> desiredSnapshot \<Rightarrow> (string, string) gomap" where
  "unchangedEndpoints old new =
     unchanged_by (\<lambda>e. endpointSignature e (subnetForEndpoint (snap_Subnets new) e))
       (\<lambda>o' n. endpointSignature o' (subnetForEndpoint (snap_Subnets old) o') = endpointSignature n (subnetForEndpoint (snap_Subnets new) n))
       (snap_Endpoints old) (snap_Endpoints new)"

definition gcStaleNATRulesOperation :: "(string, NATRule) gomap \<Rightarrow> Operation" where
  "gcStaleNATRulesOperation rules =
     Op ''gc-stale-nat-rules'' [] (concat (map (\<lambda>key. [nat_VPC (lookup rules key), nat_Name (lookup rules key)]) (sort_Strings (map fst rules))))"

definition gcStalePolicyRoutesOperation :: "(string, policyRouteRecord) gomap \<Rightarrow> Operation" where
  "gcStalePolicyRoutesOperation routes =
     Op ''gc-stale-policy-routes'' []
       (concat (map (\<lambda>key. let route = pr_Route (lookup routes key) in [proute_VPC route, proute_Name route]) (sort_Strings (map fst routes))))"

definition gcStaleDHCPOptionsOperation :: "(string, Endpoint) gomap \<Rightarrow> (string, Subnet) gomap \<Rightarrow> Operation" where
  "gcStaleDHCPOptionsOperation endpoints subnets =
     Op ''gc-stale-dhcp-options'' []
       (concat (map (\<lambda>key.
          let e = lookup endpoints key
          in case map_of subnets (subnetStateKey (ep_VPC e) (ep_Subnet e)) of
               None \<Rightarrow> []
             | Some s \<Rightarrow> if dhcp_Enabled (subnet_DHCP s) then [endpointExternalID (ep_VPC e) (ep_ID e), ep_VPC e] else [])
        (sort_Strings (map fst endpoints))))"

section \<open>Cleaning up after nothing changed\<close>

lemma set_commonKeys_self: "set (commonKeys m m) = fst ` set m"
  by (auto simp: commonKeys_def sort_Strings_def map_of_eq_None_iff)

lemma staleKeys_self [simp]: "staleKeys m m = []"
  by (auto simp: staleKeys_def sort_Strings_def filter_empty_conv map_of_eq_None_iff)

lemma removedStrings_self [simp]: "removedStrings xs xs = []"
  by (simp add: removedStrings_def sort_Strings_def)

lemma for_stale_self [simp]: "for_stale f m m = []"
  by (simp add: for_stale_def)

lemma for_common_self: "(\<And>x. f x x = []) \<Longrightarrow> for_common f m m = []"
  by (simp add: for_common_def)

lemma changed_lb_ops_self [simp]: "changed_lb_ops lb lb = []"
proof -
  have "removed_vip_ops lb lb = []" "changed_vip_ops lb lb = []"
    by (auto simp: removed_vip_ops_def changed_vip_ops_def gomap_get_def Let_def split: option.splits)
  then show ?thesis by (simp add: changed_lb_ops_def Let_def)
qed

lemma cleanupOperations_self: "cleanupOperations s s = []"
  by (simp add: cleanupOperations_def for_common_self routeUpdateCleanupOperations_def changed_policy_route_ops_def Let_def)

section \<open>Objects that did not change\<close>

lemma map_of_unchanged_by:
  assumes "\<And>x. same x x"
  shows "map_of (unchanged_by sig same m m) k = map_option sig (map_of m k)"
proof -
  have *: "map_of (map (\<lambda>key. (key, g key)) ks) k = (if k \<in> set ks then Some (g k) else None)" for g :: "string \<Rightarrow> string" and ks
    by (induction ks) auto
  show ?thesis
    using assms by (cases "map_of m k") (force simp: unchanged_by_def * set_commonKeys_self lookup_def map_of_eq_None_iff dest: map_of_SomeD)+
qed

lemma map_of_index:
  assumes "map_of (gomap_index key xs) k = Some v"
  shows "key v = k"
proof -
  have "\<forall>(k, v) \<in> set (fold (\<lambda>x. AList.update (key x) x) xs m). key v = k" if "\<forall>(k, v) \<in> set m. key v = k" for m
    using that
  proof (induction xs arbitrary: m)
    case (Cons x xs)
    have "\<forall>(k, v) \<in> set (AList.update (key x) x m). key v = k"
      using Cons.prems by (induction m) auto
    then show ?case using Cons.IH by simp
  qed simp
  from this [of "[]"] map_of_SomeD [OF assms] show ?thesis by (auto simp: gomap_index_def)
qed

lemma map_of_unchanged_fold:
  assumes "m = gomap_index key xs"
  shows "map_of (fold (\<lambda>k out. AList.update (key (lookup m k)) (sig (lookup m k)) out) (commonKeys m m) []) = (\<lambda>k. map_option sig (map_of m k))"
proof -
  have "map_of (fold (\<lambda>k out. AList.update (key (lookup m k)) (sig (lookup m k)) out) ks out) k =
      (if k \<in> set ks then map_option sig (map_of m k) else map_of out k)" if "set ks \<subseteq> fst ` set m" for ks out k
    using that
  proof (induction ks arbitrary: out)
    case (Cons k' ks)
    then obtain v where "map_of m k' = Some v" by (metis list.set_intros(1) map_of_eq_None_iff not_None_eq subsetD)
    with map_of_index [of key xs k' v] assms Cons show ?case by (simp add: lookup_def update_conv)
  qed simp
  from this [of "commonKeys m m" "[]"] show ?thesis
    by (auto simp: set_commonKeys_self fun_eq_iff map_of_eq_None_iff)
qed

lemma unchanged_self:
  shows "map_of (unchangedNATRules (snapshotDesired t) (snapshotDesired t)) k =
      map_option natRuleSignature (map_of (snap_NATRules (snapshotDesired t)) k)"
    and "map_of (unchangedLoadBalancers (snapshotDesired t) (snapshotDesired t)) k =
      map_option loadBalancerSignature (map_of (snap_LoadBalancers (snapshotDesired t)) k)"
    and "map_of (unchangedPolicyRoutes (snapshotDesired t) (snapshotDesired t)) k =
      map_option (\<lambda>r. policyRouteSignature (pr_Route r)) (map_of (snap_PolicyRoutes (snapshotDesired t)) k)"
    and "map_of (unchangedRoutes (snapshotDesired t) (snapshotDesired t)) k =
      map_option routeSignature (map_of (snap_Routes (snapshotDesired t)) k)"
    and "map_of (unchangedEndpoints (snapshotDesired t) (snapshotDesired t)) k =
      map_option (\<lambda>e. endpointSignature e (subnetForEndpoint (snap_Subnets (snapshotDesired t)) e)) (map_of (snap_Endpoints (snapshotDesired t)) k)"
proof -
  show "map_of (unchangedNATRules (snapshotDesired t) (snapshotDesired t)) k =
      map_option natRuleSignature (map_of (snap_NATRules (snapshotDesired t)) k)"
    using map_of_unchanged_fold [where sig = natRuleSignature, OF refl, of "\<lambda>r. natRuleStateKey (nat_VPC r) (nat_Name r)" "map snd (topo_NATRules t)"]
    by (simp add: unchangedNATRules_def Let_def snapshotDesired_def)
  show "map_of (unchangedLoadBalancers (snapshotDesired t) (snapshotDesired t)) k =
      map_option loadBalancerSignature (map_of (snap_LoadBalancers (snapshotDesired t)) k)"
    using map_of_unchanged_fold [where sig = loadBalancerSignature, OF refl, of loadBalancerStateKey "map snd (topo_LoadBalancers t)"]
    by (simp add: unchangedLoadBalancers_def Let_def snapshotDesired_def)
  have "distinct (map fst (snap_Routes (snapshotDesired t)))" by (simp add: snapshotDesired_def distinct_gomap_index)
  then have all: "filter (\<lambda>(key, r). case map_of (snap_Routes (snapshotDesired t)) key of None \<Rightarrow> False | Some o' \<Rightarrow> routeSignature o' = routeSignature r)
      (snap_Routes (snapshotDesired t)) = snap_Routes (snapshotDesired t)"
    by (auto simp: filter_id_conv)
  show "map_of (unchangedRoutes (snapshotDesired t) (snapshotDesired t)) k =
      map_option routeSignature (map_of (snap_Routes (snapshotDesired t)) k)"
    unfolding unchangedRoutes_def all by (simp add: map_of_map)
qed (simp_all add: unchangedPolicyRoutes_def unchangedEndpoints_def map_of_unchanged_by)

end
