(* ===== verification/Conflicts.thy ===== *)
theory Conflicts
  imports Resolver
begin

text \<open>
  The checks of \<open>internal/control/controller.go\<close> that no two objects of the desired state compete for
  the same traffic: NAT rules, load balancers, both of them for an address, route tables and policy
  routes. What they establish is that at most one of them applies to a packet.
\<close>

section \<open>Overlap\<close>

definition prefixesOverlap :: "prefix \<Rightarrow> prefix \<Rightarrow> bool" where
  "prefixesOverlap left right =
     (let left = prefix_Masked left; right = prefix_Masked right
      in if \<not> prefix_IsValid left \<or> \<not> prefix_IsValid right \<or>
            addr_Is4 (prefix_Addr left) \<noteq> addr_Is4 (prefix_Addr right) then False
         else prefix_Contains left (prefix_Addr right) \<or> prefix_Contains right (prefix_Addr left))"

definition setHostBits :: "u8 list \<Rightarrow> int \<Rightarrow> nat \<Rightarrow> u8 list" where
  "setHostBits bytes prefixBits totalBits = fold (or_bit 0) [nat prefixBits..<totalBits] bytes"

definition prefixLastAddress :: "prefix \<Rightarrow> addr" where
  "prefixLastAddress p =
     (let addr = prefix_Addr (prefix_Masked p) in
      case addr of
        V4 w \<Rightarrow> addr_AddrFrom4 (setHostBits (word_bytes w) (prefix_Bits p) 32)
      | _ \<Rightarrow> addr_AddrFrom16 (setHostBits (addr_As16 addr) (prefix_Bits p) 128))"

definition prefixesMayOverlap :: "prefix \<Rightarrow> prefix \<Rightarrow> bool" where
  "prefixesMayOverlap left right =
     (if \<not> prefix_IsValid left \<or> \<not> prefix_IsValid right then True else prefixesOverlap left right)"

definition protocolsMayOverlap :: "Protocol \<Rightarrow> Protocol \<Rightarrow> bool" where
  "protocolsMayOverlap left right =
     (if left = '''' \<or> left = ProtocolAny \<or> right = '''' \<or> right = ProtocolAny then True else left = right)"

definition portRangesMayOverlap :: "PortRange list \<Rightarrow> PortRange list \<Rightarrow> bool" where
  "portRangesMayOverlap left right =
     (if left = [] \<or> right = [] then True
      else list_ex (\<lambda>l. list_ex (\<lambda>r. port_From l \<le> port_To r \<and> port_From r \<le> port_To l) right) left)"

definition routeMatchesOverlap :: "RouteMatch \<Rightarrow> RouteMatch \<Rightarrow> bool" where
  "routeMatchesOverlap left right \<longleftrightarrow>
     prefixesMayOverlap (match_Source left) (match_Source right) \<and>
     prefixesMayOverlap (match_Destination left) (match_Destination right) \<and>
     protocolsMayOverlap (match_Protocol left) (match_Protocol right) \<and>
     portRangesMayOverlap (match_SrcPorts left) (match_SrcPorts right) \<and>
     portRangesMayOverlap (match_DstPorts left) (match_DstPorts right)"

definition routeMatchPortKey :: "PortRange list \<Rightarrow> string" where
  "routeMatchPortKey ranges =
     strings_Join (sort_Strings (map (\<lambda>p. u16_String (port_From p) @ ''-'' @ u16_String (port_To p)) ranges)) '',''"

definition routeMatchKey :: "RouteMatch \<Rightarrow> string" where
  "routeMatchKey m =
     (let protocol = (if match_Protocol m = '''' then ProtocolAny else match_Protocol m)
      in ''src='' @ prefix_String (match_Source m) @ ''|dst='' @ prefix_String (match_Destination m) @
         ''|proto='' @ protocol @ ''|sports='' @ routeMatchPortKey (match_SrcPorts m) @
         ''|dports='' @ routeMatchPortKey (match_DstPorts m))"


section \<open>NAT rules\<close>

record nat_seen =
  seen_names :: "string list"
  seen_snat :: "(string \<times> string \<times> prefix) list"
  seen_allPorts :: "(string, string) gomap"
  seen_portKeys :: "(string, string) gomap"

definition nat_base_key :: "string \<Rightarrow> addr \<Rightarrow> string" where
  "nat_base_key vpc ip = vpc @ ''|'' @ addr_String ip"

definition nat_port_key :: "string \<Rightarrow> addr \<Rightarrow> Protocol \<Rightarrow> u16 \<Rightarrow> string" where
  "nat_port_key vpc ip protocol port = nat_base_key vpc ip @ ''|'' @ protocol @ ''|'' @ u16_String port"

definition inboundPortKeysPrefix :: "(string, string) gomap \<Rightarrow> string \<Rightarrow> string" where
  "inboundPortKeysPrefix keys p =
     (case List.find (\<lambda>(key, _). strings_HasPrefix key (p @ ''|'')) keys of None \<Rightarrow> '''' | Some (_, name) \<Rightarrow> name)"

definition check_nat_rule :: "NATRule \<Rightarrow> nat_seen \<Rightarrow> nat_seen result" where
  "check_nat_rule rule s =
     (let nameKey = natRuleKey (nat_VPC rule) (nat_Name rule);
          s' = s\<lparr>seen_names := nameKey # seen_names s\<rparr>;
          base = nat_base_key (nat_VPC rule) (nat_ExternalIP rule);
          portKey = nat_port_key (nat_VPC rule) (nat_ExternalIP rule) (nat_Protocol rule) (nat_ExternalPort rule);
          ip = addr_String (nat_ExternalIP rule);
          conflict = (\<lambda>prev. Errorf ''nat rule %q conflicts with %q on external ip %s'' [nat_Name rule, prev, ip])
      in bind_result (NATRule_Validate rule) (\<lambda>_.
         if nameKey \<in> set (seen_names s) then
           Inl (Errorf ''duplicate nat rule name %q in vpc %q'' [nat_Name rule, nat_VPC rule])
         else if nat_Type rule = ActionSNAT then
           (case List.find (\<lambda>(_, vpc, cidr). vpc = nat_VPC rule \<and> prefixesOverlap cidr (nat_MatchCIDR rule)) (seen_snat s) of
              Some (name, _) \<Rightarrow> Inl (Errorf ''snat rule %q conflicts with %q on overlapping cidr %s in vpc %s''
                [nat_Name rule, name, prefix_String (nat_MatchCIDR rule), nat_VPC rule])
            | None \<Rightarrow> Inr (s'\<lparr>seen_snat := seen_snat s @ [(nat_Name rule, nat_VPC rule, nat_MatchCIDR rule)]\<rparr>))
         else if nat_ExternalPort rule = 0 then
           (let prev = gomap_get '''' (seen_allPorts s) base; prev' = inboundPortKeysPrefix (seen_portKeys s) base in
            if prev \<noteq> '''' then Inl (conflict prev)
            else if prev' \<noteq> '''' then Inl (conflict prev')
            else Inr (s'\<lparr>seen_allPorts := AList.update base (nat_Name rule) (seen_allPorts s)\<rparr>))
         else
           (let prev = gomap_get '''' (seen_allPorts s) base; prev' = gomap_get '''' (seen_portKeys s) portKey in
            if prev \<noteq> '''' then Inl (conflict prev)
            else if prev' \<noteq> '''' then
              Inl (Errorf ''nat rule %q conflicts with %q on %s/%s:%d''
                [nat_Name rule, prev', ip, nat_Protocol rule, u16_String (nat_ExternalPort rule)])
            else Inr (s'\<lparr>seen_portKeys := AList.update portKey (nat_Name rule) (seen_portKeys s)\<rparr>))))"

definition validateNATRules :: "NATRule list \<Rightarrow> unit result" where
  "validateNATRules rules =
     wrap_error id (fold_result check_nat_rule rules \<lparr>seen_names = [], seen_snat = [], seen_allPorts = [], seen_portKeys = []\<rparr>)"


section \<open>Load balancers\<close>

definition check_frontend_vip :: "LoadBalancer \<Rightarrow> LoadBalancerFrontend \<Rightarrow> (string, string) gomap \<Rightarrow> (string, string) gomap result" where
  "check_frontend_vip lb frontend vips =
     (let key = nat_port_key (lb_VPC lb) (front_VIP frontend) (front_Protocol frontend) (front_Port frontend);
          prev = gomap_get '''' vips key
      in if prev \<noteq> '''' then
           Inl (Errorf ''load balancer %q conflicts with %q on %s/%s:%d''
             [lb_Name lb, prev, addr_String (front_VIP frontend), front_Protocol frontend, u16_String (front_Port frontend)])
         else Inr (AList.update key (lb_Name lb) vips))"

definition check_load_balancer :: "LoadBalancer \<Rightarrow> string list \<times> (string, string) gomap \<Rightarrow> (string list \<times> (string, string) gomap) result" where
  "check_load_balancer lb s =
     (case s of (names, vips) \<Rightarrow>
      let nameKey = loadBalancerKey (lb_VPC lb) (lb_Name lb) in
      bind_result (LoadBalancer_Validate lb) (\<lambda>_.
        if nameKey \<in> set names then
          Inl (Errorf ''duplicate load balancer name %q in vpc %q'' [lb_Name lb, lb_VPC lb])
        else
          bind_result (fold_result (check_frontend_vip lb) (Frontends lb) vips) (\<lambda>vips. Inr (nameKey # names, vips))))"

definition validateLoadBalancers :: "LoadBalancer list \<Rightarrow> unit result" where
  "validateLoadBalancers loadBalancers = wrap_error id (fold_result check_load_balancer loadBalancers ([], []))"

definition inbound_nats :: "NATRule list \<Rightarrow> (string, string) gomap \<times> (string, string) gomap" where
  "inbound_nats natRules =
     fold (\<lambda>rule (allPortNATs, portNATs).
         if nat_Type rule = ActionSNAT then (allPortNATs, portNATs)
         else if nat_ExternalPort rule = 0 then
           (AList.update (nat_base_key (nat_VPC rule) (nat_ExternalIP rule)) (nat_Name rule) allPortNATs, portNATs)
         else
           (allPortNATs,
            AList.update (nat_port_key (nat_VPC rule) (nat_ExternalIP rule) (nat_Protocol rule) (nat_ExternalPort rule))
              (nat_Name rule) portNATs))
       natRules ([], [])"

definition validateInboundVIPConflicts :: "NATRule list \<Rightarrow> LoadBalancer list \<Rightarrow> unit result" where
  "validateInboundVIPConflicts natRules loadBalancers =
     (let (allPortNATs, portNATs) = inbound_nats natRules in
      range_check (\<lambda>_ lb.
        range_check (\<lambda>_ frontend.
          let prev = gomap_get '''' allPortNATs (nat_base_key (lb_VPC lb) (front_VIP frontend));
              prev' = gomap_get '''' portNATs
                (nat_port_key (lb_VPC lb) (front_VIP frontend) (front_Protocol frontend) (front_Port frontend))
          in first_error [
               fail_if (prev \<noteq> '''')
                 (Errorf ''load balancer %q conflicts with nat rule %q on external ip %s''
                   [lb_Name lb, prev, addr_String (front_VIP frontend)]),
               fail_if (prev' \<noteq> '''')
                 (Errorf ''load balancer %q conflicts with nat rule %q on %s:%d''
                   [lb_Name lb, prev', addr_String (front_VIP frontend), u16_String (front_Port frontend)])])
          (Frontends lb)) loadBalancers)"


section \<open>Route tables and policy routes\<close>

definition check_table_route :: "RouteTable \<Rightarrow> Route \<Rightarrow> (string, string) gomap \<Rightarrow> (string, string) gomap result" where
  "check_table_route table route destinations =
     (let key = table_VPC table @ ''|'' @ prefix_String (route_Destination route);
          prev = gomap_get '''' destinations key
      in if prev \<noteq> '''' then
           Inl (Errorf ''route table %q conflicts with %q on %s in vpc %s''
             [table_Name table, prev, prefix_String (route_Destination route), table_VPC table])
         else Inr (AList.update key (table_Name table) destinations))"

definition check_route_table :: "RouteTable \<Rightarrow> string list \<times> (string, string) gomap \<Rightarrow> (string list \<times> (string, string) gomap) result" where
  "check_route_table table s =
     (case s of (names, destinations) \<Rightarrow>
      let nameKey = routeTableKey (table_VPC table) (table_Name table) in
      bind_result (RouteTable_Validate table) (\<lambda>_.
        if nameKey \<in> set names then
          Inl (Errorf ''duplicate route table name %q in vpc %q'' [table_Name table, table_VPC table])
        else
          bind_result (fold_result (check_table_route table) (table_Routes table) destinations)
            (\<lambda>destinations. Inr (nameKey # names, destinations))))"

definition validateRouteTables :: "RouteTable list \<Rightarrow> unit result" where
  "validateRouteTables tables = wrap_error id (fold_result check_route_table tables ([], []))"

definition check_policy_route :: "PolicyRoute \<Rightarrow> string list \<times> PolicyRoute list \<Rightarrow> (string list \<times> PolicyRoute list) result" where
  "check_policy_route route s =
     (case s of (names, records) \<Rightarrow>
      let nameKey = proute_VPC route @ NUL @ proute_Name route in
      bind_result (PolicyRoute_Validate route) (\<lambda>_.
        if nameKey \<in> set names then
          Inl (Errorf ''duplicate policy route name %q in vpc %q'' [proute_Name route, proute_VPC route])
        else case List.find (\<lambda>e. proute_VPC e = proute_VPC route \<and> proute_Priority e = proute_Priority route \<and>
                     routeMatchesOverlap (proute_Match e) (proute_Match route)) records of
          Some e \<Rightarrow> Inl (Errorf ''policy route %q conflicts with %q on overlapping priority %d match %s in vpc %s''
            [proute_Name route, proute_Name e, strconv_Itoa (proute_Priority route), routeMatchKey (proute_Match route), proute_VPC route])
        | None \<Rightarrow> Inr (nameKey # names, records @ [route])))"

definition validatePolicyRoutes :: "PolicyRoute list \<Rightarrow> unit result" where
  "validatePolicyRoutes routes = wrap_error id (fold_result check_policy_route routes ([], []))"

section \<open>What overlap means\<close>

lemma prefixesOverlap_iff:
  assumes "prefix_wf p" and "prefix_wf q"
  shows "prefixesOverlap p q \<longleftrightarrow> (\<exists>x. prefix_Contains p x \<and> prefix_Contains q x)"
proof
  assume "prefixesOverlap p q"
  then have "prefix_IsValid p" "prefix_IsValid q"
    "prefix_Contains p (prefix_Addr (prefix_Masked q)) \<or> prefix_Contains q (prefix_Addr (prefix_Masked p))"
    using assms by (auto simp: prefixesOverlap_def Let_def split: if_splits)
  moreover have "prefix_Contains r (prefix_Addr (prefix_Masked r))" if "prefix_wf r" "prefix_IsValid r" for r
    using that prefix_Contains_own_addr [of "prefix_Masked r"] prefix_Contains_Masked prefix_Masked_IsValid prefix_wf_Masked
    by metis
  ultimately show "\<exists>x. prefix_Contains p x \<and> prefix_Contains q x" using assms by blast
next
  assume "\<exists>x. prefix_Contains p x \<and> prefix_Contains q x"
  then obtain x where x: "prefix_Contains p x" "prefix_Contains q x" by blast
  then have valid: "prefix_IsValid p" "prefix_IsValid q" using prefix_Contains_invalid by blast+
  have masked: "prefix_Contains (prefix_Masked p) x" "prefix_Contains (prefix_Masked q) x" using x assms by simp_all
  have "addr_Is4 (prefix_Addr (prefix_Masked p)) = addr_Is4 (prefix_Addr (prefix_Masked q))"
    using prefix_Contains_family [OF _ masked(1)] prefix_Contains_family [OF _ masked(2)] by simp
  moreover have "prefix_Contains (prefix_Masked p) (prefix_Addr (prefix_Masked q)) \<or>
      prefix_Contains (prefix_Masked q) (prefix_Addr (prefix_Masked p))"
    using prefix_Contains_coarser [OF _ _ masked] prefix_Contains_coarser [OF _ _ masked(2,1)] prefix_wf_Masked
    by (metis linear)
  ultimately show "prefixesOverlap p q" using valid assms by (simp add: prefixesOverlap_def)
qed

lemma prefixLastAddress_last:
  assumes "prefix_wf p" and "prefix_IsValid p"
  shows "prefixLastAddress p = prefix_last p"
proof -
  have "prefixLastAddress p = prefix_last (prefix_Masked p)"
    using assms
  proof (cases p rule: prefix_valid_cases)
    case (V4 w n)
    with fold_or_bit_word_bytes [of n "w AND top_mask n"] show ?thesis
      by (simp add: prefixLastAddress_def setHostBits_def prefix_last_def addr_AddrFrom4_def)
  next
    case (V6 w n)
    with fold_or_bit_word_bytes [of n "w AND top_mask n"] show ?thesis
      by (simp add: prefixLastAddress_def setHostBits_def prefix_last_def addr_AddrFrom16_def)
  qed
  then show ?thesis using assms by (simp add: prefix_last_Masked)
qed

interpretation controller_last: last_addr prefixLastAddress "\<lambda>p. True"
  by unfold_locales (simp add: prefixLastAddress_last)

lemma portRangesMayOverlapI:
  "topology_portRangesContain ps port \<Longrightarrow> topology_portRangesContain qs port \<Longrightarrow> portRangesMayOverlap ps qs"
  by (force simp: topology_portRangesContain_def portRangesMayOverlap_def list_ex_iff)

lemma routeMatchesOverlapI:
  assumes "routeMatch m packet" and "routeMatch m' packet"
    and "\<And>p. p \<in> {match_Source m, match_Destination m, match_Source m', match_Destination m'} \<Longrightarrow> prefix_wf p"
  shows "routeMatchesOverlap m m'"
proof -
  have prefixes: "prefixesMayOverlap p q"
    if "prefix_wf p" "prefix_wf q" "prefix_IsValid p \<longrightarrow> prefix_Contains p x" "prefix_IsValid q \<longrightarrow> prefix_Contains q x" for p q x
    using that by (auto simp: prefixesMayOverlap_def prefixesOverlap_iff)
  have "prefixesMayOverlap (match_Source m) (match_Source m')"
    using assms by (intro prefixes [where x = "rp_Source packet"]) (auto simp: routeMatch_def split: if_splits)
  moreover have "prefixesMayOverlap (match_Destination m) (match_Destination m')"
    using assms by (intro prefixes [where x = "rp_Dest packet"]) (auto simp: routeMatch_def split: if_splits)
  moreover have "protocolsMayOverlap (match_Protocol m) (match_Protocol m')"
    using assms(1,2) by (auto simp: routeMatch_def protocolsMayOverlap_def split: if_splits)
  moreover have "portRangesMayOverlap (match_SrcPorts m) (match_SrcPorts m')"
    using assms(1,2) portRangesMayOverlapI
    by (cases "match_SrcPorts m = [] \<or> match_SrcPorts m' = []")
      (auto simp: routeMatch_def portRangesMayOverlap_def split: if_splits)
  moreover have "portRangesMayOverlap (match_DstPorts m) (match_DstPorts m')"
    using assms(1,2) portRangesMayOverlapI
    by (cases "match_DstPorts m = [] \<or> match_DstPorts m' = []")
      (auto simp: routeMatch_def portRangesMayOverlap_def split: if_splits)
  ultimately show ?thesis by (simp add: routeMatchesOverlap_def)
qed

section \<open>Accepted NAT rules do not compete\<close>

text \<open>Two rules that may apply to the same packet.\<close>

definition nat_conflict :: "NATRule \<Rightarrow> NATRule \<Rightarrow> bool" where
  "nat_conflict r r' \<longleftrightarrow>
     nat_VPC r = nat_VPC r' \<and>
     (nat_Type r = ActionSNAT \<and> nat_Type r' = ActionSNAT \<and> prefixesOverlap (nat_MatchCIDR r) (nat_MatchCIDR r') \<or>
      nat_Type r \<noteq> ActionSNAT \<and> nat_Type r' \<noteq> ActionSNAT \<and> nat_ExternalIP r = nat_ExternalIP r' \<and>
        (nat_ExternalPort r = 0 \<or> nat_ExternalPort r' = 0 \<or>
         nat_Protocol r = nat_Protocol r' \<and> nat_ExternalPort r = nat_ExternalPort r'))"

definition nat_rule_key :: "NATRule \<Rightarrow> string" where
  "nat_rule_key r = natRuleKey (nat_VPC r) (nat_Name r)"

definition rule_base :: "NATRule \<Rightarrow> string" where
  "rule_base r = nat_base_key (nat_VPC r) (nat_ExternalIP r)"

definition rule_port_key :: "NATRule \<Rightarrow> string" where
  "rule_port_key r = nat_port_key (nat_VPC r) (nat_ExternalIP r) (nat_Protocol r) (nat_ExternalPort r)"

definition nat_recorded :: "NATRule list \<Rightarrow> nat_seen \<Rightarrow> bool" where
  "nat_recorded handled s \<longleftrightarrow>
     (\<forall>r \<in> set handled.
        nat_rule_key r \<in> set (seen_names s) \<and>
        (if nat_Type r = ActionSNAT then (nat_Name r, nat_VPC r, nat_MatchCIDR r) \<in> set (seen_snat s)
         else if nat_ExternalPort r = 0 then gomap_get '''' (seen_allPorts s) (rule_base r) \<noteq> ''''
         else gomap_get '''' (seen_portKeys s) (rule_port_key r) \<noteq> '''')) \<and>
     (\<forall>(k, v) \<in> set (seen_portKeys s). v \<noteq> '''')"

definition nat_accepted :: "NATRule list \<Rightarrow> bool" where
  "nat_accepted rules \<longleftrightarrow>
     (\<forall>r \<in> set rules. is_ok (NATRule_Validate r)) \<and> distinct (map nat_rule_key rules) \<and>
     sorted_wrt (\<lambda>r r'. \<not> nat_conflict r r') rules"

lemma gomap_get_nonempty: "gomap_get '''' m k \<noteq> '''' \<Longrightarrow> (k, gomap_get '''' m k) \<in> set m"
  by (auto simp: gomap_get_def split: option.splits dest: map_of_SomeD)

lemma inboundPortKeysPrefix_found:
  assumes "gomap_get '''' m (rule_port_key r) \<noteq> ''''" and "\<forall>(k, v) \<in> set m. v \<noteq> ''''"
  shows "inboundPortKeysPrefix m (rule_base r) \<noteq> ''''"
proof -
  let ?P = "\<lambda>(key, _ :: string). strings_HasPrefix key (rule_base r @ ''|'')"
  have "?P (rule_port_key r, gomap_get '''' m (rule_port_key r))"
    by (simp add: rule_port_key_def rule_base_def nat_port_key_def strings_HasPrefix_def)
  with gomap_get_nonempty [OF assms(1)] have "List.find ?P m \<noteq> None" by (metis find_None_iff)
  then obtain k v where kv: "List.find ?P m = Some (k, v)" by fastforce
  then have "(k, v) \<in> set m" by (metis find_Some_iff nth_mem)
  with assms(2) kv show ?thesis by (auto simp: inboundPortKeysPrefix_def)
qed

lemma NATRule_Validate_name: "is_ok (NATRule_Validate r) \<Longrightarrow> nat_Name r \<noteq> ''''"
  by (auto simp: NATRule_Validate_def Let_def)

lemma nat_recorded_conflict:
  assumes "nat_recorded handled s" and "check_nat_rule rule s = Inr s'" and "r \<in> set handled"
  shows "nat_rule_key r \<noteq> nat_rule_key rule \<and> \<not> nat_conflict r rule"
proof -
  from assms(2) have name: "nat_rule_key rule \<notin> set (seen_names s)"
    by (auto simp: check_nat_rule_def nat_rule_key_def bind_result_Inr Let_def split: if_splits)
  with assms(1,3) have "nat_rule_key r \<noteq> nat_rule_key rule" by (auto simp: nat_recorded_def)
  moreover have "\<not> nat_conflict r rule"
  proof
    assume conflict: "nat_conflict r rule"
    show False
    proof (cases "nat_Type rule = ActionSNAT")
      case True
      with conflict assms(1,3) have "(nat_Name r, nat_VPC r, nat_MatchCIDR r) \<in> set (seen_snat s)"
        by (auto simp: nat_conflict_def nat_recorded_def)
      moreover have "(\<lambda>(_, vpc, cidr). vpc = nat_VPC rule \<and> prefixesOverlap cidr (nat_MatchCIDR rule))
          (nat_Name r, nat_VPC r, nat_MatchCIDR r)"
        using conflict True by (simp add: nat_conflict_def)
      ultimately have "List.find (\<lambda>(_, vpc, cidr). vpc = nat_VPC rule \<and> prefixesOverlap cidr (nat_MatchCIDR rule)) (seen_snat s) \<noteq> None"
        unfolding find_None_iff by blast
      with assms(2) True show False
        by (auto simp: check_nat_rule_def bind_result_Inr Let_def split: if_splits option.splits)
    next
      case False
      with conflict have r: "nat_Type r \<noteq> ActionSNAT" and base: "rule_base r = rule_base rule"
        and ports: "nat_ExternalPort r = 0 \<or> nat_ExternalPort rule = 0 \<or> rule_port_key r = rule_port_key rule"
        by (auto simp: nat_conflict_def rule_base_def rule_port_key_def)
      show False
      proof (cases "nat_ExternalPort r = 0")
        case True
        with assms(1,3) r base have "gomap_get '''' (seen_allPorts s) (rule_base rule) \<noteq> ''''"
          by (force simp: nat_recorded_def)
        with assms(2) False show False
          by (auto simp: check_nat_rule_def rule_base_def bind_result_Inr Let_def split: if_splits)
      next
        case port: False
        with assms(1,3) r have rec: "gomap_get '''' (seen_portKeys s) (rule_port_key r) \<noteq> ''''"
          "\<forall>(k, v) \<in> set (seen_portKeys s). v \<noteq> ''''"
          by (force simp: nat_recorded_def)+
        show False
        proof (cases "nat_ExternalPort rule = 0")
          case True
          from inboundPortKeysPrefix_found [OF rec] base assms(2) False True show False
            by (auto simp: check_nat_rule_def rule_base_def bind_result_Inr Let_def split: if_splits)
        next
          case False
          with ports port rec(1) have "gomap_get '''' (seen_portKeys s) (rule_port_key rule) \<noteq> ''''" by auto
          with assms(2) \<open>nat_Type rule \<noteq> ActionSNAT\<close> False show False
            by (auto simp: check_nat_rule_def rule_port_key_def bind_result_Inr Let_def split: if_splits)
        qed
      qed
    qed
  qed
  ultimately show ?thesis by blast
qed

lemma check_nat_rule_recorded:
  assumes "nat_recorded handled s" and "check_nat_rule rule s = Inr s'"
  shows "nat_recorded (handled @ [rule]) s'"
proof -
  have name: "nat_Name rule \<noteq> ''''"
    using assms(2) NATRule_Validate_name [of rule] by (auto simp: check_nat_rule_def bind_result_Inr Let_def is_ok_def)
  let ?s = "s\<lparr>seen_names := nat_rule_key rule # seen_names s\<rparr>"
  consider (snat) "nat_Type rule = ActionSNAT"
      "s' = ?s\<lparr>seen_snat := seen_snat s @ [(nat_Name rule, nat_VPC rule, nat_MatchCIDR rule)]\<rparr>"
    | (all) "nat_Type rule \<noteq> ActionSNAT" "nat_ExternalPort rule = 0"
      "s' = ?s\<lparr>seen_allPorts := AList.update (rule_base rule) (nat_Name rule) (seen_allPorts s)\<rparr>"
    | (port) "nat_Type rule \<noteq> ActionSNAT" "nat_ExternalPort rule \<noteq> 0"
      "s' = ?s\<lparr>seen_portKeys := AList.update (rule_port_key rule) (nat_Name rule) (seen_portKeys s)\<rparr>"
    using assms(2)
    by (auto simp: check_nat_rule_def nat_rule_key_def rule_base_def rule_port_key_def bind_result_Inr Let_def
        split: if_splits option.splits)
  then show ?thesis
  proof cases
    case snat
    with assms(1) show ?thesis by (auto simp: nat_recorded_def)
  next
    case all
    with assms(1) name show ?thesis by (auto simp: nat_recorded_def gomap_get_update)
  next
    case port
    have "\<forall>(k, v) \<in> set (AList.update k' v' m). v \<noteq> ''''" if "\<forall>(k, v) \<in> set m. v \<noteq> ''''" "v' \<noteq> ''''"
      for k' v' :: string and m
      using that by (induction m) auto
    moreover have "\<forall>(k, v) \<in> set (seen_portKeys s). v \<noteq> ''''"
      using assms(1) unfolding nat_recorded_def by blast
    ultimately have "\<forall>(k, v) \<in> set (seen_portKeys s'). v \<noteq> ''''" using port name by simp
    moreover have "\<forall>r \<in> set handled. nat_rule_key r \<in> set (seen_names s) \<and>
        (if nat_Type r = ActionSNAT then (nat_Name r, nat_VPC r, nat_MatchCIDR r) \<in> set (seen_snat s)
         else if nat_ExternalPort r = 0 then gomap_get '''' (seen_allPorts s) (rule_base r) \<noteq> ''''
         else gomap_get '''' (seen_portKeys s) (rule_port_key r) \<noteq> '''')"
      using assms(1) unfolding nat_recorded_def by blast
    ultimately show ?thesis using port name unfolding nat_recorded_def by (simp add: gomap_get_update)
  qed
qed

lemma validateNATRules_sound:
  assumes "is_ok (validateNATRules rules)"
  shows "nat_accepted rules"
proof -
  let ?s = "\<lparr>seen_names = [], seen_snat = [], seen_allPorts = [], seen_portKeys = []\<rparr>"
  from assms obtain s' where run: "fold_result check_nat_rule rules ?s = Inr s'"
    by (cases "fold_result check_nat_rule rules ?s") (simp_all add: validateNATRules_def)
  have "nat_recorded rules s' \<and> nat_accepted rules"
  proof (rule fold_result_history [where I = "\<lambda>handled s. nat_recorded handled s \<and> nat_accepted handled", OF run])
    show "nat_recorded [] ?s \<and> nat_accepted []" by (simp add: nat_recorded_def nat_accepted_def)
    fix handled rule s s'
    assume inv: "nat_recorded handled s \<and> nat_accepted handled" and step: "check_nat_rule rule s = Inr s'"
    have "is_ok (NATRule_Validate rule)"
      using step by (auto simp: check_nat_rule_def bind_result_Inr Let_def)
    moreover have "nat_rule_key r \<noteq> nat_rule_key rule" "\<not> nat_conflict r rule" if "r \<in> set handled" for r
      using inv that nat_recorded_conflict [OF _ step] by blast+
    ultimately show "nat_recorded (handled @ [rule]) s' \<and> nat_accepted (handled @ [rule])"
      using inv check_nat_rule_recorded [OF _ step] by (simp add: nat_accepted_def sorted_wrt_append) (metis imageE)
  qed
  then show ?thesis by blast
qed

lemma sorted_wrt_pair:
  assumes "sorted_wrt (\<lambda>x y. \<not> P x y) xs" and "x \<in> set xs" and "y \<in> set xs" and "P x y" and "P y x"
  shows "x = y"
  using assms by (auto simp: in_set_conv_nth sorted_wrt_iff_nth_less) (metis linorder_neqE_nat)

text \<open>At most one accepted rule translates the destination of a packet.\<close>

lemma NATRule_Validate_port:
  assumes "is_ok (NATRule_Validate r)" and "nat_Type r \<noteq> ActionSNAT" and "nat_ExternalPort r \<noteq> 0"
  shows "nat_Protocol r \<noteq> ''''"
  using assms by (auto simp: NATRule_Validate_def validate_dnat_def port_protocol_def Let_def split: if_splits)

lemma nat_accepted_unique:
  assumes "nat_accepted rules" and "r \<in> set rules" and "r' \<in> set rules"
    and "dnat_applies packet r" and "dnat_applies packet r'"
  shows "r = r'"
proof -
  have port: "nat_Protocol x = rp_Protocol packet \<and> nat_ExternalPort x = rp_DestPort packet"
    if "x \<in> set rules" "dnat_applies packet x" "nat_ExternalPort x \<noteq> 0" for x
    using assms(1) that NATRule_Validate_port [of x]
    by (auto simp: nat_accepted_def dnat_applies_def dnatPortMatches_def)
  have "nat_conflict x y" if "x \<in> set rules" "y \<in> set rules" "dnat_applies packet x" "dnat_applies packet y" for x y
    using that port [OF that(1,3)] port [OF that(2,4)] by (auto simp: nat_conflict_def dnat_applies_def)
  with assms sorted_wrt_pair [of nat_conflict rules r r'] show ?thesis by (auto simp: nat_accepted_def)
qed

section \<open>Loops that claim a key for every item of every object\<close>

text \<open>
  \<open>validateLoadBalancers\<close> and \<open>validateRouteTables\<close> share their shape: each object is validated, its
  name must be new, and each of its items claims a key of one map, in which a claimed key holds
  the name of its owner. The contract is what one round of the loop does.
\<close>

locale claim_registry =
  fixes visit :: "'a \<Rightarrow> string list \<times> (string, string) gomap \<Rightarrow> (string list \<times> (string, string) gomap) result"
    and claim :: "'a \<Rightarrow> 'b \<Rightarrow> (string, string) gomap \<Rightarrow> (string, string) gomap result"
    and name_key :: "'a \<Rightarrow> string"
    and valid :: "'a \<Rightarrow> bool"
    and items :: "'a \<Rightarrow> 'b list"
    and key :: "'a \<Rightarrow> 'b \<Rightarrow> string"
  assumes visit_ok: "visit x (names, m) = Inr (names', m') \<Longrightarrow>
      valid x \<and> name_key x \<notin> set names \<and> names' = name_key x # names \<and> fold_result (claim x) (items x) m = Inr m'"
    and claim_ok: "valid x \<Longrightarrow> claim x i m = Inr m' \<Longrightarrow>
      gomap_get '''' m (key x i) = '''' \<and> (\<exists>owner. owner \<noteq> '''' \<and> m' = AList.update (key x i) owner m)"
begin

definition claimed :: "string list \<Rightarrow> (string, string) gomap \<Rightarrow> bool" where
  "claimed ks m \<longleftrightarrow> distinct ks \<and> (\<forall>k. gomap_get '''' m k \<noteq> '''' \<longleftrightarrow> k \<in> set ks)"

definition item_keys :: "'a list \<Rightarrow> string list" where
  "item_keys xs = concat (map (\<lambda>x. map (key x) (items x)) xs)"

lemma claimed_items:
  assumes "fold_result (claim x) is m = Inr m'" and "claimed ks m" and "valid x"
  shows "claimed (ks @ map (key x) is) m'"
proof (rule fold_result_history [where I = "\<lambda>done m. claimed (ks @ map (key x) done) m", OF assms(1)])
  show "claimed (ks @ map (key x) []) m" using assms(2) by simp
next
  fix handled i and s s' :: "(string, string) gomap"
  assume inv: "claimed (ks @ map (key x) handled) s" and step: "claim x i s = Inr s'"
  from claim_ok [OF assms(3) step] obtain owner where
    new: "gomap_get '''' s (key x i) = ''''" "owner \<noteq> ''''" "s' = AList.update (key x i) owner s" by blast
  have keys: "gomap_get '''' s k \<noteq> '''' \<longleftrightarrow> k \<in> set (ks @ map (key x) handled)" for k
    using inv by (simp add: claimed_def)
  with new(1) have "key x i \<notin> set (ks @ map (key x) handled)" by blast
  moreover have "gomap_get '''' s' k \<noteq> '''' \<longleftrightarrow> k \<in> set (ks @ map (key x) (handled @ [i]))" for k
    using keys [of k] new by (auto simp: gomap_get_update)
  moreover have "distinct (ks @ map (key x) handled)" using inv by (simp add: claimed_def)
  ultimately show "claimed (ks @ map (key x) (handled @ [i])) s'" by (auto simp: claimed_def)
qed

lemma visits_sound:
  assumes "fold_result visit xs ([], []) = Inr s"
  shows "(\<forall>x \<in> set xs. valid x) \<and> distinct (map name_key xs) \<and> distinct (item_keys xs)"
proof -
  have "(\<forall>x \<in> set xs. valid x) \<and> distinct (map name_key xs) \<and> set (fst s) = name_key ` set xs \<and>
      claimed (item_keys xs) (snd s)"
  proof (rule fold_result_history [where I = "\<lambda>xs s. (\<forall>x \<in> set xs. valid x) \<and> distinct (map name_key xs) \<and>
      set (fst s) = name_key ` set xs \<and> claimed (item_keys xs) (snd s)", OF assms])
    show "(\<forall>x \<in> set []. valid x) \<and> distinct (map name_key []) \<and>
        set (fst ([], [])) = name_key ` set [] \<and> claimed (item_keys []) (snd ([], []))"
      by (simp add: claimed_def item_keys_def gomap_get_def)
  next
    fix handled x s s'
    assume inv: "(\<forall>x \<in> set handled. valid x) \<and> distinct (map name_key handled) \<and>
        set (fst s) = name_key ` set handled \<and> claimed (item_keys handled) (snd s)"
      and step: "visit x s = Inr s'"
    obtain names m names' m' where s: "s = (names, m)" "s' = (names', m')" by (cases s, cases s') blast
    note new = visit_ok [OF step [unfolded s]]
    then have "claimed (item_keys (handled @ [x])) m'"
      using inv s claimed_items [of x "items x" m m' "item_keys handled"] by (simp add: item_keys_def)
    with inv new s show "(\<forall>x \<in> set (handled @ [x]). valid x) \<and> distinct (map name_key (handled @ [x])) \<and>
        set (fst s') = name_key ` set (handled @ [x]) \<and> claimed (item_keys (handled @ [x])) (snd s')"
      by auto
  qed
  then show ?thesis by (simp add: claimed_def)
qed

end

text \<open>Two items with the same key are the same item of the same object.\<close>

lemma distinct_concat_owner:
  assumes "distinct (concat (map (\<lambda>x. map (key x) (items x)) xs))"
    and "x \<in> set xs" and "x' \<in> set xs" and "i \<in> set (items x)" and "i' \<in> set (items x')" and "key x i = key x' i'"
  shows "x = x' \<and> i = i'"
  using assms
proof (induction xs)
  case (Cons y ys)
  have other: "key y j \<noteq> key z j'" if "z \<in> set ys" "j \<in> set (items y)" "j' \<in> set (items z)" for z j j'
    using Cons.prems(1) that by auto
  have same: "j = j'" if "j \<in> set (items y)" "j' \<in> set (items y)" "key y j = key y j'" for j j'
    using Cons.prems(1) that by (auto simp: distinct_map inj_on_def)
  show ?case
    using Cons other [of x i'] other [of x' i] other [of x' i'] other [of x i] same by (cases "x = y"; cases "x' = y") (auto, metis+)
qed simp

definition vip_key :: "LoadBalancer \<Rightarrow> LoadBalancerFrontend \<Rightarrow> string" where
  "vip_key lb frontend = nat_port_key (lb_VPC lb) (front_VIP frontend) (front_Protocol frontend) (front_Port frontend)"

definition destination_key :: "RouteTable \<Rightarrow> Route \<Rightarrow> string" where
  "destination_key table route = table_VPC table @ ''|'' @ prefix_String (route_Destination route)"

interpretation vip_claims: claim_registry check_load_balancer check_frontend_vip "\<lambda>lb. loadBalancerKey (lb_VPC lb) (lb_Name lb)"
  "\<lambda>lb. is_ok (LoadBalancer_Validate lb)" Frontends vip_key
proof
  fix lb names m names' m'
  assume "check_load_balancer lb (names, m) = Inr (names', m')"
  then show "is_ok (LoadBalancer_Validate lb) \<and> loadBalancerKey (lb_VPC lb) (lb_Name lb) \<notin> set names \<and>
      names' = loadBalancerKey (lb_VPC lb) (lb_Name lb) # names \<and>
      fold_result (check_frontend_vip lb) (Frontends lb) m = Inr m'"
    by (auto simp: check_load_balancer_def bind_result_Inr Let_def split: if_splits)
next
  fix lb frontend m m'
  assume "is_ok (LoadBalancer_Validate lb)" and "check_frontend_vip lb frontend m = Inr m'"
  moreover from this(1) have "lb_Name lb \<noteq> ''''" by (simp add: LoadBalancer_Validate_def Let_def)
  ultimately show "gomap_get '''' m (vip_key lb frontend) = '''' \<and>
      (\<exists>owner. owner \<noteq> '''' \<and> m' = AList.update (vip_key lb frontend) owner m)"
    by (auto simp: check_frontend_vip_def vip_key_def Let_def split: if_splits)
qed

interpretation destination_claims: claim_registry check_route_table check_table_route "\<lambda>t. routeTableKey (table_VPC t) (table_Name t)"
  "\<lambda>t. is_ok (RouteTable_Validate t)" table_Routes destination_key
proof
  fix t names m names' m'
  assume "check_route_table t (names, m) = Inr (names', m')"
  then show "is_ok (RouteTable_Validate t) \<and> routeTableKey (table_VPC t) (table_Name t) \<notin> set names \<and>
      names' = routeTableKey (table_VPC t) (table_Name t) # names \<and>
      fold_result (check_table_route t) (table_Routes t) m = Inr m'"
    by (auto simp: check_route_table_def bind_result_Inr Let_def split: if_splits)
next
  fix t route m m'
  assume "is_ok (RouteTable_Validate t)" and "check_table_route t route m = Inr m'"
  moreover from this(1) have "table_Name t \<noteq> ''''" by (simp add: RouteTable_Validate_def Let_def)
  ultimately show "gomap_get '''' m (destination_key t route) = '''' \<and>
      (\<exists>owner. owner \<noteq> '''' \<and> m' = AList.update (destination_key t route) owner m)"
    by (auto simp: check_table_route_def destination_key_def Let_def split: if_splits)
qed

lemma validateLoadBalancers_sound:
  assumes "is_ok (validateLoadBalancers lbs)"
  shows "distinct (map (\<lambda>lb. loadBalancerKey (lb_VPC lb) (lb_Name lb)) lbs)"
    and "\<lbrakk>lb \<in> set lbs; lb' \<in> set lbs; f \<in> set (Frontends lb); f' \<in> set (Frontends lb');
      lb_VPC lb = lb_VPC lb'; front_VIP f = front_VIP f'; front_Protocol f = front_Protocol f'; front_Port f = front_Port f'\<rbrakk> \<Longrightarrow>
      lb = lb' \<and> f = f'"
proof -
  from assms obtain s where "fold_result check_load_balancer lbs ([], []) = Inr s"
    by (cases "fold_result check_load_balancer lbs ([], [])") (simp_all add: validateLoadBalancers_def)
  note sound = vip_claims.visits_sound [OF this, unfolded vip_claims.item_keys_def]
  from sound show "distinct (map (\<lambda>lb. loadBalancerKey (lb_VPC lb) (lb_Name lb)) lbs)" by blast
  show "lb = lb' \<and> f = f'" if "lb \<in> set lbs" "lb' \<in> set lbs" "f \<in> set (Frontends lb)" "f' \<in> set (Frontends lb')"
    "lb_VPC lb = lb_VPC lb'" "front_VIP f = front_VIP f'" "front_Protocol f = front_Protocol f'" "front_Port f = front_Port f'"
    using distinct_concat_owner [of vip_key Frontends lbs lb lb' f f'] sound that by (simp add: vip_key_def)
qed

lemma validateRouteTables_sound:
  assumes "is_ok (validateRouteTables tables)"
  shows "distinct (map (\<lambda>t. routeTableKey (table_VPC t) (table_Name t)) tables)"
    and "\<lbrakk>t \<in> set tables; t' \<in> set tables; r \<in> set (table_Routes t); r' \<in> set (table_Routes t');
      table_VPC t = table_VPC t'; route_Destination r = route_Destination r'\<rbrakk> \<Longrightarrow> t = t' \<and> r = r'"
    and "\<lbrakk>t \<in> set tables; r \<in> set (table_Routes t)\<rbrakk> \<Longrightarrow>
      prefix_IsValid (route_Destination r) \<and> prefix_Masked (route_Destination r) = route_Destination r"
proof -
  from assms obtain s where "fold_result check_route_table tables ([], []) = Inr s"
    by (cases "fold_result check_route_table tables ([], [])") (simp_all add: validateRouteTables_def)
  note sound = destination_claims.visits_sound [OF this, unfolded destination_claims.item_keys_def]
  from sound show "distinct (map (\<lambda>t. routeTableKey (table_VPC t) (table_Name t)) tables)" by blast
  show "t = t' \<and> r = r'" if "t \<in> set tables" "t' \<in> set tables" "r \<in> set (table_Routes t)" "r' \<in> set (table_Routes t')"
    "table_VPC t = table_VPC t'" "route_Destination r = route_Destination r'"
    using distinct_concat_owner [of destination_key table_Routes tables t t' r r'] sound that by (simp add: destination_key_def)
  show "prefix_IsValid (route_Destination r) \<and> prefix_Masked (route_Destination r) = route_Destination r"
    if "t \<in> set tables" "r \<in> set (table_Routes t)"
  proof -
    from sound that(1) have "is_ok (RouteTable_Validate t)" by blast
    with that(2) have "is_ok (Route_Validate r)"
      by (auto simp: RouteTable_Validate_def dest: is_ok_range_checkD)
    then show ?thesis by (simp add: Route_Validate_def validateMaskedPrefix_def)
  qed
qed

lemma validateRouteTables_keys:
  assumes "is_ok (validateRouteTables tables)"
  shows "distinct (concat (map (\<lambda>t. map (destination_key t) (table_Routes t)) tables))"
proof -
  from assms obtain s where "fold_result check_route_table tables ([], []) = Inr s"
    by (cases "fold_result check_route_table tables ([], [])") (simp_all add: validateRouteTables_def)
  from destination_claims.visits_sound [OF this, unfolded destination_claims.item_keys_def] show ?thesis by simp
qed

section \<open>Accepted policy routes do not compete\<close>

definition proute_conflict :: "PolicyRoute \<Rightarrow> PolicyRoute \<Rightarrow> bool" where
  "proute_conflict r r' \<longleftrightarrow> proute_VPC r = proute_VPC r' \<and> proute_Priority r = proute_Priority r' \<and>
     routeMatchesOverlap (proute_Match r) (proute_Match r')"

lemma validatePolicyRoutes_sound:
  assumes "is_ok (validatePolicyRoutes routes)"
  shows "sorted_wrt (\<lambda>r r'. \<not> proute_conflict r r') routes"
proof -
  from assms obtain s where run: "fold_result check_policy_route routes ([], []) = Inr s"
    by (cases "fold_result check_policy_route routes ([], [])") (simp_all add: validatePolicyRoutes_def)
  have "snd s = routes \<and> sorted_wrt (\<lambda>r r'. \<not> proute_conflict r r') routes"
  proof (rule fold_result_history [where I = "\<lambda>handled s. snd s = handled \<and> sorted_wrt (\<lambda>r r'. \<not> proute_conflict r r') handled", OF run])
    fix handled r s s'
    assume inv: "snd s = handled \<and> sorted_wrt (\<lambda>r r'. \<not> proute_conflict r r') handled"
      and step: "check_policy_route r s = Inr s'"
    obtain names where s: "s = (names, handled)" using inv by (cases s) simp
    from step have "List.find (\<lambda>e. proute_VPC e = proute_VPC r \<and> proute_Priority e = proute_Priority r \<and>
        routeMatchesOverlap (proute_Match e) (proute_Match r)) handled = None" and "snd s' = handled @ [r]"
      by (auto simp: s check_policy_route_def bind_result_Inr Let_def split: if_splits option.splits)
    with inv show "snd s' = handled @ [r] \<and> sorted_wrt (\<lambda>r r'. \<not> proute_conflict r r') (handled @ [r])"
      by (auto simp: sorted_wrt_append find_None_iff proute_conflict_def)
  qed simp
  then show ?thesis by blast
qed

text \<open>Parsed routes hold well-formed prefixes only.\<close>

definition match_wf :: "RouteMatch \<Rightarrow> bool" where
  "match_wf m \<longleftrightarrow> prefix_wf (match_Source m) \<and> prefix_wf (match_Destination m)"

lemma policy_route_unique:
  assumes "sorted_wrt (\<lambda>r r'. \<not> proute_conflict r r') routes" and "\<forall>r \<in> set routes. match_wf (proute_Match r)"
    and "r \<in> set routes" and "r' \<in> set routes" and "policy_route_applies packet r" and "policy_route_applies packet r'"
    and "proute_Priority r = proute_Priority r'"
  shows "r = r'"
proof -
  have "proute_conflict x y" if "x \<in> {r, r'}" "y \<in> {r, r'}" for x y
    using that assms(2-7) routeMatchesOverlapI [of "proute_Match x" packet "proute_Match y"]
    by (auto simp: proute_conflict_def policy_route_applies_def match_wf_def)
  with assms(1,3,4) sorted_wrt_pair [of proute_conflict routes r r'] show ?thesis by simp
qed

lemma priority_order: "strict_weak_order higher_priority"
  by unfold_locales (auto simp: higher_priority_def)

lemma resolvePolicyRoute_perm:
  assumes "is_ok (validatePolicyRoutes routes)" and "\<forall>r \<in> set routes. match_wf (proute_Match r)"
    and "set routes' = set routes"
  shows "resolvePolicyRoute routes' packet = resolvePolicyRoute routes packet"
proof -
  let ?find = "\<lambda>rs. List.find (policy_route_applies packet) (sort_SliceStable higher_priority rs)"
  note best = find_sorted_best [OF priority_order, of "policy_route_applies packet"]

  have "?find routes' = ?find routes"
  proof (cases "?find routes")
    case None
    then have "\<forall>r \<in> set routes'. \<not> policy_route_applies packet r"
      using assms(3) by (simp add: find_None_iff)
    then have "?find routes' = None" by (auto simp: find_None_iff)
    with None show ?thesis by simp
  next
    case (Some r)
    then have "?find routes' \<noteq> None" using assms(3) best [OF Some] by (auto simp: find_None_iff)
    then obtain r' where r': "?find routes' = Some r'" by blast
    from best [OF Some] best [OF r'] assms(3) have "proute_Priority r = proute_Priority r'"
      by (auto simp: higher_priority_def) (meson linorder_less_linear)
    then have "r = r'"
      using policy_route_unique [OF validatePolicyRoutes_sound [OF assms(1)] assms(2), of r r' packet] best [OF Some] best [OF r'] assms(3)
      by blast
    with Some r' show ?thesis by simp
  qed
  then show ?thesis by (simp add: resolvePolicyRoute_def)
qed

end
