(* ===== verification/Tenants.thy ===== *)
theory Tenants
  imports Conflicts
begin

text \<open>
  What \<open>internal/control/controller.go\<close> checks of the tenants of provider networks: no interface of
  a node belongs to two networks, no two traffic queues of a tenant compete for the same traffic,
  and no tenant exceeds its quotas. Sets of keys are lists; the usage of a tenant is counted in a
  map of maps, as in the code.
\<close>

section \<open>Interfaces\<close>

definition providerNodeInterfaces :: "ProviderNetworkNode \<Rightarrow> string list" where
  "providerNodeInterfaces node = (if pnode_Interface node \<noteq> '''' then [pnode_Interface node] else pnode_Interfaces node)"

text \<open>The interfaces a provider network claims, in the order of the two inner loops.\<close>

definition provider_interfaces :: "ProviderNetwork \<Rightarrow> (string \<times> string) list" where
  "provider_interfaces provider =
     concat (map (\<lambda>node. map (Pair (pnode_Node node)) (providerNodeInterfaces node)) (pnet_Nodes provider))"

definition claim_interface :: "ProviderNetwork \<Rightarrow> string \<times> string \<Rightarrow> (string, string) gomap \<Rightarrow> (string, string) gomap result" where
  "claim_interface provider ni owned =
     (case ni of (node, iface) \<Rightarrow>
      let key = node @ NUL @ iface in
      case map_of owned key of
        Some previous \<Rightarrow>
          if previous \<noteq> pnet_Name provider then
            Inl (Errorf ''provider networks %q and %q both claim interface %s on node %s''
              [previous, pnet_Name provider, iface, node])
          else Inr (AList.update key (pnet_Name provider) owned)
      | None \<Rightarrow> Inr (AList.update key (pnet_Name provider) owned))"

definition validateProviderNetworkNodeInterfaceClaims :: "(string, ProviderNetwork) gomap \<Rightarrow> unit result" where
  "validateProviderNetworkNodeInterfaceClaims providerNetworks =
     wrap_error id (fold_result (\<lambda>provider. fold_result (claim_interface provider) (provider_interfaces provider))
       (sorted_values providerNetworks) [])"


section \<open>Tenant queues of provider networks\<close>

text \<open>Looking up an endpoint that the map does not hold gives the zero endpoint.\<close>

definition zero_Endpoint :: Endpoint where
  "zero_Endpoint =
     \<lparr>ep_ID = '''', ep_VPC = '''', ep_Subnet = '''', ep_IP = ZeroAddr, ep_MAC = '''', ep_Node = '''',
      ep_SecurityGroups = [], ep_NamedPorts = [], ep_Labels = []\<rparr>"

definition identityGroupMatchesEndpoint :: "IdentityGroup \<Rightarrow> Endpoint \<Rightarrow> bool" where
  "identityGroupMatchesEndpoint g e =
     (if igroup_VPC g \<noteq> ep_VPC e then False
      else if list_ex (\<lambda>endpointID. endpointID = ep_ID e) (igroup_EndpointIDs g) then True
      else Labels_MatchesSelector (ep_Labels e) (igroup_EndpointSelector g) (igroup_EndpointExpressions g))"

definition providerTenantQueueMatchesAnyIdentityGroup ::
    "ProviderNetworkTenantQueuePolicy \<Rightarrow> (string, IdentityGroup) gomap \<Rightarrow> Endpoint \<Rightarrow> bool" where
  "providerTenantQueueMatchesAnyIdentityGroup q groups e =
     list_ex (\<lambda>groupName. case map_of groups (identityGroupKey (queue_Tenant q) groupName) of
         None \<Rightarrow> False | Some g \<Rightarrow> identityGroupMatchesEndpoint g e) (queue_IdentityGroups q)"

definition providerTenantQueueMatchesEndpoint ::
    "ProviderNetworkTenantQueuePolicy \<Rightarrow> (string, IdentityGroup) gomap \<Rightarrow> Endpoint \<Rightarrow> bool" where
  "providerTenantQueueMatchesEndpoint q groups e =
     (if (queue_EndpointSelector q \<noteq> [] \<or> queue_EndpointExpressions q \<noteq> []) \<and>
         \<not> Labels_MatchesSelector (ep_Labels e) (queue_EndpointSelector q) (queue_EndpointExpressions q) then False
      else if queue_IdentityGroups q \<noteq> [] \<and> \<not> providerTenantQueueMatchesAnyIdentityGroup q groups e then False
      else if (queue_IdentitySelector q \<noteq> [] \<or> queue_IdentityExpressions q \<noteq> []) \<and>
         \<not> Labels_MatchesSelector (ep_Labels e) (queue_IdentitySelector q) (queue_IdentityExpressions q) then False
      else True)"

definition providerTenantQueuePolicySubnetScoped :: "ProviderNetworkTenantQueuePolicy \<Rightarrow> bool" where
  "providerTenantQueuePolicySubnetScoped q \<longleftrightarrow>
     queue_EndpointSelector q = [] \<and> queue_EndpointExpressions q = [] \<and> queue_IdentityGroups q = [] \<and>
     queue_IdentitySelector q = [] \<and> queue_IdentityExpressions q = []"

definition providerTenantQueueSubnetPriority :: "ProviderNetworkTenantQueuePolicy \<Rightarrow> int" where
  "providerTenantQueueSubnetPriority q = (if queue_Ports q \<noteq> [] then 220 else if queue_Protocol q \<noteq> '''' then 215 else 210)"

definition providerTenantQueueEndpointPriority :: "ProviderNetworkTenantQueuePolicy \<Rightarrow> int" where
  "providerTenantQueueEndpointPriority q = (if queue_Ports q \<noteq> [] then 240 else if queue_Protocol q \<noteq> '''' then 235 else 230)"

text \<open>Sets of endpoint keys are lists without order.\<close>

definition providerTenantQueueEndpointScope ::
    "string \<Rightarrow> string \<Rightarrow> (string, Subnet) gomap \<Rightarrow> (string, Endpoint) gomap \<Rightarrow> string list" where
  "providerTenantQueueEndpointScope providerNetwork tenant subnets endpoints =
     map fst (filter (\<lambda>(_, e). ep_VPC e = tenant \<and>
       (case map_of subnets (subnetKey (ep_VPC e) (ep_Subnet e)) of
          None \<Rightarrow> False
        | Some subnet \<Rightarrow> subnet_ProviderNetwork subnet = providerNetwork \<and> subnet_VLAN subnet \<noteq> 0)) endpoints)"

definition providerTenantHasProviderSubnet :: "string \<Rightarrow> string \<Rightarrow> (string, Subnet) gomap \<Rightarrow> bool" where
  "providerTenantHasProviderSubnet providerNetwork tenant subnets =
     list_ex (\<lambda>s. subnet_VPC s = tenant \<and> subnet_ProviderNetwork s = providerNetwork \<and> subnet_VLAN s \<noteq> 0) (map snd subnets)"

definition providerTenantQueueMatchingEndpoints ::
    "ProviderNetworkTenantQueuePolicy \<Rightarrow> (string, IdentityGroup) gomap \<Rightarrow> (string, Endpoint) gomap \<Rightarrow> string list \<Rightarrow> string list" where
  "providerTenantQueueMatchingEndpoints q groups endpoints scope =
     map fst (filter (\<lambda>(key, e). key \<in> set scope \<and> ep_VPC e = queue_Tenant q \<and> providerTenantQueueMatchesEndpoint q groups e) endpoints)"

definition providerTenantQueueIdentityGroupEndpoints ::
    "ProviderNetworkTenantQueuePolicy \<Rightarrow> (string, IdentityGroup) gomap \<Rightarrow> (string, Endpoint) gomap \<Rightarrow> string list \<Rightarrow> string list" where
  "providerTenantQueueIdentityGroupEndpoints q groups endpoints scope =
     concat (map (\<lambda>groupName. case map_of groups (identityGroupKey (queue_Tenant q) groupName) of
         None \<Rightarrow> []
       | Some g \<Rightarrow> map fst (filter (\<lambda>(key, e). key \<in> set scope \<and> identityGroupMatchesEndpoint g e) endpoints)) (queue_IdentityGroups q))"

definition firstSharedEndpointKey :: "string list \<Rightarrow> string list \<Rightarrow> string option" where
  "firstSharedEndpointKey left right =
     (let keys = filter (\<lambda>key. key \<in> set right) left in if keys = [] then None else Some (hd (sort_Strings keys)))"

text \<open>The two nested loops over the queues of one network: each queue with every later one.\<close>

primrec check_pairs :: "('a \<Rightarrow> 'a \<Rightarrow> unit result) \<Rightarrow> 'a list \<Rightarrow> unit result" where
  "check_pairs f [] = Inr ()"
| "check_pairs f (x # xs) = bind_result (range_check (\<lambda>_. f x) xs) (\<lambda>_. check_pairs f xs)"

definition queue_id :: "ProviderNetworkTenantQueuePolicy \<Rightarrow> string" where
  "queue_id q = strconv_Itoa (queue_QueueID q)"

definition same_traffic :: "ProviderNetworkTenantQueuePolicy \<Rightarrow> ProviderNetworkTenantQueuePolicy \<Rightarrow> bool" where
  "same_traffic left right \<longleftrightarrow>
     protocolsMayOverlap (queue_Protocol left) (queue_Protocol right) \<and> portRangesMayOverlap (queue_Ports left) (queue_Ports right)"

definition check_subnet_queues :: "(string, Subnet) gomap \<Rightarrow> string \<Rightarrow> ProviderNetworkTenantQueuePolicy \<Rightarrow> ProviderNetworkTenantQueuePolicy \<Rightarrow> unit result" where
  "check_subnet_queues subnets name left right =
     fail_if (providerTenantQueuePolicySubnetScoped left \<and> providerTenantHasProviderSubnet name (queue_Tenant left) subnets \<and>
         queue_Tenant left = queue_Tenant right \<and> providerTenantQueuePolicySubnetScoped right \<and>
         providerTenantQueueSubnetPriority left = providerTenantQueueSubnetPriority right \<and> same_traffic left right)
       (Errorf ''provider network %q tenant %q subnet queues %d and %d conflict on priority %d overlapping protocol/ports''
         [name, queue_Tenant left, queue_id left, queue_id right, strconv_Itoa (providerTenantQueueSubnetPriority left)])"

definition validateProviderTenantQueueSubnetConflicts :: "(string, ProviderNetwork) gomap \<Rightarrow> (string, Subnet) gomap \<Rightarrow> unit result" where
  "validateProviderTenantQueueSubnetConflicts providerNetworks subnets =
     range_check (\<lambda>_ pnet. check_pairs (check_subnet_queues subnets (pnet_Name pnet)) (pnet_TenantQueues pnet)) (sorted_values providerNetworks)"

definition check_identity_group_queues ::
    "(string, IdentityGroup) gomap \<Rightarrow> (string, Endpoint) gomap \<Rightarrow> (string, Subnet) gomap \<Rightarrow> string \<Rightarrow>
     ProviderNetworkTenantQueuePolicy \<Rightarrow> ProviderNetworkTenantQueuePolicy \<Rightarrow> unit result" where
  "check_identity_group_queues groups endpoints subnets name left right =
     (let leftEndpoints = providerTenantQueueIdentityGroupEndpoints left groups endpoints
            (providerTenantQueueEndpointScope name (queue_Tenant left) subnets endpoints);
          rightEndpoints = providerTenantQueueIdentityGroupEndpoints right groups endpoints
            (providerTenantQueueEndpointScope name (queue_Tenant right) subnets endpoints)
      in if queue_IdentityGroups left = [] \<or> leftEndpoints = [] \<or> queue_Tenant left \<noteq> queue_Tenant right \<or> queue_IdentityGroups right = [] \<or>
            providerTenantQueueEndpointPriority left \<noteq> providerTenantQueueEndpointPriority right \<or> \<not> same_traffic left right then Inr ()
         else case firstSharedEndpointKey leftEndpoints rightEndpoints of
           None \<Rightarrow> Inr ()
         | Some endpointKey \<Rightarrow> Inl (Errorf ''provider network %q tenant %q identity group queues %d and %d both match endpoint %q''
             [name, queue_Tenant left, queue_id left, queue_id right, ep_ID (gomap_get zero_Endpoint endpoints endpointKey)]))"

definition validateProviderTenantQueueIdentityGroupConflicts ::
    "(string, ProviderNetwork) gomap \<Rightarrow> (string, IdentityGroup) gomap \<Rightarrow> (string, Endpoint) gomap \<Rightarrow> (string, Subnet) gomap \<Rightarrow> unit result" where
  "validateProviderTenantQueueIdentityGroupConflicts providerNetworks groups endpoints subnets =
     range_check (\<lambda>_ pnet. check_pairs (check_identity_group_queues groups endpoints subnets (pnet_Name pnet)) (pnet_TenantQueues pnet))
       (sorted_values providerNetworks)"

definition check_endpoint_queues ::
    "(string, IdentityGroup) gomap \<Rightarrow> (string, Endpoint) gomap \<Rightarrow> (string, Subnet) gomap \<Rightarrow> string \<Rightarrow>
     ProviderNetworkTenantQueuePolicy \<Rightarrow> ProviderNetworkTenantQueuePolicy \<Rightarrow> unit result" where
  "check_endpoint_queues groups endpoints subnets name left right =
     (let leftEndpoints = providerTenantQueueMatchingEndpoints left groups endpoints
            (providerTenantQueueEndpointScope name (queue_Tenant left) subnets endpoints);
          rightEndpoints = providerTenantQueueMatchingEndpoints right groups endpoints
            (providerTenantQueueEndpointScope name (queue_Tenant right) subnets endpoints);
          priority = providerTenantQueueEndpointPriority left
      in if providerTenantQueuePolicySubnetScoped left \<or> leftEndpoints = [] \<or> queue_Tenant left \<noteq> queue_Tenant right \<or>
            providerTenantQueuePolicySubnetScoped right \<or> priority \<noteq> providerTenantQueueEndpointPriority right \<or> \<not> same_traffic left right
         then Inr ()
         else case firstSharedEndpointKey leftEndpoints rightEndpoints of
           None \<Rightarrow> Inr ()
         | Some endpointKey \<Rightarrow>
             Inl (Errorf ''provider network %q tenant %q endpoint queues %d and %d conflict on endpoint %q priority %d overlapping protocol/ports''
               [name, queue_Tenant left, queue_id left, queue_id right, ep_ID (gomap_get zero_Endpoint endpoints endpointKey), strconv_Itoa priority]))"

definition validateProviderTenantQueueEndpointConflicts ::
    "(string, ProviderNetwork) gomap \<Rightarrow> (string, IdentityGroup) gomap \<Rightarrow> (string, Endpoint) gomap \<Rightarrow> (string, Subnet) gomap \<Rightarrow> unit result" where
  "validateProviderTenantQueueEndpointConflicts providerNetworks groups endpoints subnets =
     range_check (\<lambda>_ pnet. check_pairs (check_endpoint_queues groups endpoints subnets (pnet_Name pnet)) (pnet_TenantQueues pnet))
       (sorted_values providerNetworks)"


section \<open>Quotas of tenants\<close>

record providerTenantUsage =
  usage_subnets :: int
  usage_endpoints :: int
  usage_loadBalancers :: int
  usage_natRules :: int
  usage_policyRoutes :: int
  usage_securityGroups :: int
  usage_securityGroupRules :: int

definition zero_usage :: providerTenantUsage where
  "zero_usage =
     \<lparr>usage_subnets = 0, usage_endpoints = 0, usage_loadBalancers = 0, usage_natRules = 0, usage_policyRoutes = 0,
      usage_securityGroups = 0, usage_securityGroupRules = 0\<rparr>"

type_synonym usage_map = "(string, (string, providerTenantUsage) gomap) gomap"

definition providerTenantUsageFor :: "usage_map \<Rightarrow> string \<Rightarrow> string \<Rightarrow> providerTenantUsage" where
  "providerTenantUsageFor usage provider tenant = gomap_get zero_usage (gomap_get [] usage provider) tenant"

definition setProviderTenantUsage :: "usage_map \<Rightarrow> string \<Rightarrow> string \<Rightarrow> providerTenantUsage \<Rightarrow> usage_map" where
  "setProviderTenantUsage usage provider tenant v =
     AList.update provider (AList.update tenant v (gomap_get [] usage provider)) usage"

text \<open>Reading the usage of a tenant, changing it and writing it back.\<close>

definition count_usage :: "string \<Rightarrow> string \<Rightarrow> (providerTenantUsage \<Rightarrow> providerTenantUsage) \<Rightarrow> usage_map \<Rightarrow> usage_map" where
  "count_usage provider tenant f usage =
     setProviderTenantUsage usage provider tenant (f (providerTenantUsageFor usage provider tenant))"

definition usage_of_subnet :: "string \<times> Subnet \<Rightarrow> usage_map \<Rightarrow> usage_map" where
  "usage_of_subnet ks usage =
     (let s = snd ks in
      if subnet_ProviderNetwork s = '''' then usage
      else count_usage (subnet_ProviderNetwork s) (subnet_VPC s) (usage_subnets_update (\<lambda>n. n + 1)) usage)"

definition subnetProviders :: "(string, Subnet) gomap \<Rightarrow> (string, string) gomap" where
  "subnetProviders subnets =
     fold (\<lambda>(key, s) providers. if subnet_ProviderNetwork s = '''' then providers else AList.update key (subnet_ProviderNetwork s) providers) subnets []"

definition tenantProviders :: "(string, Subnet) gomap \<Rightarrow> (string, string list) gomap" where
  "tenantProviders subnets =
     fold (\<lambda>(key, s) providers.
         if subnet_ProviderNetwork s = '''' then providers
         else AList.update (subnet_VPC s) (List.insert (subnet_ProviderNetwork s) (gomap_get [] providers (subnet_VPC s))) providers)
       subnets []"

definition usage_of_endpoint :: "(string, string) gomap \<Rightarrow> Endpoint \<Rightarrow> usage_map \<Rightarrow> usage_map" where
  "usage_of_endpoint providers e usage =
     (let providerName = gomap_get '''' providers (subnetKey (ep_VPC e) (ep_Subnet e)) in
      if providerName = '''' then usage
      else count_usage providerName (ep_VPC e) (usage_endpoints_update (\<lambda>n. n + 1)) usage)"

definition usage_of_lb_subnet ::
    "(string, string) gomap \<Rightarrow> LoadBalancer \<Rightarrow> string \<Rightarrow> string list \<times> usage_map \<Rightarrow> string list \<times> usage_map" where
  "usage_of_lb_subnet providers lb subnetName su =
     (case su of (seenLoadBalancers, usage) \<Rightarrow>
      let providerName = gomap_get '''' providers (subnetKey (lb_VPC lb) subnetName);
          key = providerName @ NUL @ lb_VPC lb @ NUL @ lb_Name lb
      in if providerName = '''' then su
         else if key \<in> set seenLoadBalancers then su
         else (key # seenLoadBalancers, count_usage providerName (lb_VPC lb) (usage_loadBalancers_update (\<lambda>n. n + 1)) usage))"

definition usage_of_load_balancers :: "(string, string) gomap \<Rightarrow> LoadBalancer list \<Rightarrow> usage_map \<Rightarrow> usage_map" where
  "usage_of_load_balancers providers loadBalancers usage =
     snd (fold (\<lambda>lb. fold (usage_of_lb_subnet providers lb) (lb_Subnets lb)) loadBalancers ([], usage))"

text \<open>An object of a VPC counts for every provider network the VPC has a subnet on.\<close>

definition usage_of_object ::
    "(string, string list) gomap \<Rightarrow> ('a \<Rightarrow> string) \<Rightarrow> ('a \<Rightarrow> providerTenantUsage \<Rightarrow> providerTenantUsage) \<Rightarrow> 'a \<Rightarrow> usage_map \<Rightarrow> usage_map" where
  "usage_of_object providers vpc f x usage =
     fold (\<lambda>providerName. count_usage providerName (vpc x) (f x)) (gomap_get [] providers (vpc x)) usage"

definition providerNetworkTenantUsage ::
    "(string, Subnet) gomap \<Rightarrow> Endpoint list \<Rightarrow> LoadBalancer list \<Rightarrow> NATRule list \<Rightarrow> PolicyRoute list \<Rightarrow> SecurityGroup list \<Rightarrow> usage_map" where
  "providerNetworkTenantUsage subnets endpoints loadBalancers natRules policyRoutes securityGroups =
     (let usage = fold usage_of_subnet subnets [];
          usage = fold (usage_of_endpoint (subnetProviders subnets)) endpoints usage;
          usage = usage_of_load_balancers (subnetProviders subnets) loadBalancers usage;
          usage = fold (usage_of_object (tenantProviders subnets) nat_VPC (\<lambda>_. usage_natRules_update (\<lambda>n. n + 1))) natRules usage;
          usage = fold (usage_of_object (tenantProviders subnets) proute_VPC (\<lambda>_. usage_policyRoutes_update (\<lambda>n. n + 1))) policyRoutes usage
      in fold (usage_of_object (tenantProviders subnets) sg_VPC
             (\<lambda>g u. u\<lparr>usage_securityGroups := usage_securityGroups u + 1,
                      usage_securityGroupRules := usage_securityGroupRules u + int (length (sg_Rules g))\<rparr>))
           securityGroups usage)"

definition check_limit :: "string \<Rightarrow> string \<Rightarrow> string \<Rightarrow> string \<Rightarrow> int \<Rightarrow> int \<Rightarrow> unit result" where
  "check_limit provider tenant what field_name used limit =
     fail_if (limit > 0 \<and> used > limit)
       (Errorf (''provider network %q tenant %q uses %d '' @ what @ '', exceeds '' @ field_name @ '' %d'')
         [provider, tenant, strconv_Itoa used, strconv_Itoa limit])"

definition check_quota :: "string \<Rightarrow> (string, providerTenantUsage) gomap \<Rightarrow> ProviderNetworkTenantQuota \<Rightarrow> unit result" where
  "check_quota providerName providerUsage quota =
     (let u = gomap_get zero_usage providerUsage (quota_Tenant quota);
          check = check_limit providerName (quota_Tenant quota)
      in first_error [
           check ''subnets'' ''max_subnets'' (usage_subnets u) (quota_MaxSubnets quota),
           check ''endpoints'' ''max_endpoints'' (usage_endpoints u) (quota_MaxEndpoints quota),
           check ''load balancers'' ''max_load_balancers'' (usage_loadBalancers u) (quota_MaxLoadBalancers quota),
           check ''nat rules'' ''max_nat_rules'' (usage_natRules u) (quota_MaxNATRules quota),
           check ''policy routes'' ''max_policy_routes'' (usage_policyRoutes u) (quota_MaxPolicyRoutes quota),
           check ''security groups'' ''max_security_groups'' (usage_securityGroups u) (quota_MaxSecurityGroups quota),
           check ''security group rules'' ''max_security_group_rules'' (usage_securityGroupRules u) (quota_MaxSecurityGroupRules quota)])"

definition validateProviderNetworkTenantQuotas ::
    "(string, ProviderNetwork) gomap \<Rightarrow> (string, Subnet) gomap \<Rightarrow> Endpoint list \<Rightarrow> LoadBalancer list \<Rightarrow> NATRule list \<Rightarrow>
     PolicyRoute list \<Rightarrow> SecurityGroup list \<Rightarrow> unit result" where
  "validateProviderNetworkTenantQuotas providerNetworks subnets endpoints loadBalancers natRules policyRoutes securityGroups =
     (let usage = providerNetworkTenantUsage subnets endpoints loadBalancers natRules policyRoutes securityGroups
      in range_check (\<lambda>_ (providerName, provider).
           range_check (\<lambda>_. check_quota providerName (gomap_get [] usage providerName)) (pnet_TenantQuotas provider))
         providerNetworks)"

section \<open>What the queue checks establish\<close>

lemma is_ok_check_pairs: "is_ok (check_pairs f xs) \<longleftrightarrow> sorted_wrt (\<lambda>x y. is_ok (f x y)) xs"
proof (induction xs)
  case (Cons x xs)
  have "is_ok (range_check (\<lambda>_. f x) xs) \<longleftrightarrow> (\<forall>y \<in> set xs. is_ok (f x y))" by (rule is_ok_range_check) simp
  with Cons show ?case by (cases "range_check (\<lambda>_. f x) xs") simp_all
qed simp

lemma firstSharedEndpointKey_None:
  "firstSharedEndpointKey left right = None \<longleftrightarrow> set left \<inter> set right = {}"
  by (auto simp: firstSharedEndpointKey_def Let_def filter_empty_conv)

text \<open>The traffic a queue takes of the endpoints it matches.\<close>

definition queue_takes :: "ProviderNetworkTenantQueuePolicy \<Rightarrow> Protocol \<Rightarrow> u16 \<Rightarrow> bool" where
  "queue_takes q protocol port \<longleftrightarrow>
     (queue_Protocol q = '''' \<or> queue_Protocol q = ProtocolAny \<or> queue_Protocol q = protocol) \<and>
     (queue_Ports q = [] \<or> topology_portRangesContain (queue_Ports q) port)"

lemma queue_takes_same_traffic:
  "queue_takes q protocol port \<Longrightarrow> queue_takes q' protocol port \<Longrightarrow> same_traffic q q'"
  using portRangesMayOverlapI
  by (cases "queue_Ports q = [] \<or> queue_Ports q' = []")
    (auto simp: queue_takes_def same_traffic_def protocolsMayOverlap_def portRangesMayOverlap_def)

lemma sorted_values_mem: "map_of m k = Some v \<Longrightarrow> v \<in> set (sorted_values m)"
proof -
  assume found: "map_of m k = Some v"
  then have "k \<in> set (sort_Strings (map fst m))"
    by (metis domI dom_map_of_conv_image_fst set_map set_sort_Strings)
  with found have "the (map_of m k) \<in> set (sorted_values m)"
    unfolding sorted_values_def List.map_filter_def set_map set_filter by (intro image_eqI [where x = k]) simp_all
  with found show ?thesis by simp
qed

text \<open>
  C39. When the checks of the tenant queues pass, two different queues of a tenant on one provider
  network that have the same priority never take the same traffic: not of an endpoint in the scope
  of the network that both match, where both select endpoints, and not of the tenant's subnets,
  where both are for whole subnets and the tenant has one on the network.
\<close>

theorem queues_do_not_compete:
  assumes "is_ok (validateProviderTenantQueueSubnetConflicts providerNetworks subnets)"
    and "is_ok (validateProviderTenantQueueEndpointConflicts providerNetworks groups endpoints subnets)"
    and "map_of providerNetworks name = Some pnet" and "pnet_Name pnet = name"
    and "i < j" and "j < length (pnet_TenantQueues pnet)"
    and "q = pnet_TenantQueues pnet ! i" and "q' = pnet_TenantQueues pnet ! j" and "queue_Tenant q = queue_Tenant q'"
    and "queue_takes q protocol port" and "queue_takes q' protocol port"
  shows "(\<not> providerTenantQueuePolicySubnetScoped q \<and> \<not> providerTenantQueuePolicySubnetScoped q' \<and>
          (key, e) \<in> set endpoints \<and> ep_VPC e = queue_Tenant q \<and>
          key \<in> set (providerTenantQueueEndpointScope name (queue_Tenant q) subnets endpoints) \<and>
          providerTenantQueueMatchesEndpoint q groups e \<and> providerTenantQueueMatchesEndpoint q' groups e \<longrightarrow>
          providerTenantQueueEndpointPriority q \<noteq> providerTenantQueueEndpointPriority q') \<and>
         (providerTenantQueuePolicySubnetScoped q \<and> providerTenantQueuePolicySubnetScoped q' \<and>
          providerTenantHasProviderSubnet name (queue_Tenant q) subnets \<longrightarrow>
          providerTenantQueueSubnetPriority q \<noteq> providerTenantQueueSubnetPriority q')"
proof -
  have traffic: "same_traffic q q'" using assms(10,11) by (rule queue_takes_same_traffic)
  have pnet: "pnet \<in> set (sorted_values providerNetworks)" using assms(3) by (rule sorted_values_mem)
  have "is_ok (check_pairs (check_endpoint_queues groups endpoints subnets name) (pnet_TenantQueues pnet))"
    using is_ok_range_checkD [OF assms(2) [unfolded validateProviderTenantQueueEndpointConflicts_def] pnet] assms(4) by auto
  then have endpoints_ok: "is_ok (check_endpoint_queues groups endpoints subnets name q q')"
    using assms(5-8) by (simp add: is_ok_check_pairs sorted_wrt_iff_nth_less)
  have "is_ok (check_pairs (check_subnet_queues subnets name) (pnet_TenantQueues pnet))"
    using is_ok_range_checkD [OF assms(1) [unfolded validateProviderTenantQueueSubnetConflicts_def] pnet] assms(4) by auto
  then have "is_ok (check_subnet_queues subnets name q q')"
    using assms(5-8) by (simp add: is_ok_check_pairs sorted_wrt_iff_nth_less)
  then have subnet_queues: "providerTenantQueueSubnetPriority q \<noteq> providerTenantQueueSubnetPriority q'"
    if "providerTenantQueuePolicySubnetScoped q" "providerTenantQueuePolicySubnetScoped q'"
      "providerTenantHasProviderSubnet name (queue_Tenant q) subnets"
    using that assms(9) traffic by (simp add: check_subnet_queues_def)
  have endpoint_queues: "providerTenantQueueEndpointPriority q \<noteq> providerTenantQueueEndpointPriority q'"
    if "\<not> providerTenantQueuePolicySubnetScoped q" "\<not> providerTenantQueuePolicySubnetScoped q'"
      "(key, e) \<in> set endpoints" "ep_VPC e = queue_Tenant q"
      "key \<in> set (providerTenantQueueEndpointScope name (queue_Tenant q) subnets endpoints)"
      "providerTenantQueueMatchesEndpoint q groups e" "providerTenantQueueMatchesEndpoint q' groups e"
  proof
    assume same: "providerTenantQueueEndpointPriority q = providerTenantQueueEndpointPriority q'"
    let ?scope = "providerTenantQueueEndpointScope name (queue_Tenant q) subnets endpoints"
    have "key \<in> set (providerTenantQueueMatchingEndpoints q groups endpoints ?scope)"
      "key \<in> set (providerTenantQueueMatchingEndpoints q' groups endpoints ?scope)"
      using that assms(9) by (force simp: providerTenantQueueMatchingEndpoints_def)+
    moreover from this endpoints_ok same that(1,2) assms(9) traffic
    have "firstSharedEndpointKey (providerTenantQueueMatchingEndpoints q groups endpoints ?scope)
        (providerTenantQueueMatchingEndpoints q' groups endpoints ?scope) = None"
      by (auto simp: check_endpoint_queues_def Let_def split: if_splits option.splits)
    ultimately show False by (auto simp: firstSharedEndpointKey_None)
  qed
  from subnet_queues endpoint_queues show ?thesis by blast
qed

definition example_queue :: "PortRange list \<Rightarrow> ProviderNetworkTenantQueuePolicy" where
  "example_queue ports =
     \<lparr>queue_Tenant = ''blue'', queue_QueueID = 1, queue_Protocol = ''tcp'', queue_Ports = ports,
      queue_EndpointSelector = [(''app'', ''web'')], queue_EndpointExpressions = [], queue_IdentityGroups = [],
      queue_IdentitySelector = [], queue_IdentityExpressions = [], queue_MinRateBPS = 0, queue_MaxRateBPS = 0, queue_BurstBPS = 0\<rparr>"

definition example_network :: ProviderNetwork where
  "example_network =
     \<lparr>pnet_Name = ''p'', pnet_Nodes = [], pnet_Isolation = '''', pnet_ControllerTargets = [],
      pnet_QoS = \<lparr>qos_EgressRateBPS = 0, qos_EgressBurstBPS = 0\<rparr>, pnet_TenantQuotas = [],
      pnet_TenantQueues = [example_queue [], example_queue [\<lparr>port_From = 80, port_To = 90\<rparr>]]\<rparr>"

definition example_tenant_endpoint :: Endpoint where
  "example_tenant_endpoint = zero_Endpoint\<lparr>ep_ID := ''e'', ep_VPC := ''blue'', ep_Subnet := ''s'', ep_Labels := [(''app'', ''web'')]\<rparr>"

definition example_vlan_subnet :: Subnet where
  "example_vlan_subnet = example_subnet\<lparr>subnet_Name := ''s'', subnet_VPC := ''blue'', subnet_ProviderNetwork := ''p'', subnet_VLAN := 7\<rparr>"

theorem queues_do_not_compete_witness:
  "providerTenantQueueEndpointPriority (example_queue []) \<noteq>
   providerTenantQueueEndpointPriority (example_queue [\<lparr>port_From = 80, port_To = 90\<rparr>])"
proof -
  let ?subnets = "[(subnetKey ''blue'' ''s'', example_vlan_subnet)]"
  let ?endpoints = "[(''k'', example_tenant_endpoint)]"
  have subnets: "is_ok (validateProviderTenantQueueSubnetConflicts [(''p'', example_network)] ?subnets)"
    by (simp add: validateProviderTenantQueueSubnetConflicts_def sorted_values_def sort_Strings_def range_check_def
        example_network_def check_subnet_queues_def providerTenantQueuePolicySubnetScoped_def example_queue_def fail_if_def)
  have "is_ok (validateProviderTenantQueueEndpointConflicts [(''p'', example_network)] [] ?endpoints ?subnets)"
    by (simp add: validateProviderTenantQueueEndpointConflicts_def sorted_values_def sort_Strings_def range_check_def
        example_network_def check_endpoint_queues_def providerTenantQueueEndpointPriority_def example_queue_def)
  from queues_do_not_compete [OF subnets this, of "''p''" example_network 0 1 _ _ "''tcp''" 80 "''k''" example_tenant_endpoint]
  show ?thesis
    by (simp add: example_network_def example_tenant_endpoint_def example_vlan_subnet_def zero_Endpoint_def queue_takes_def
        topology_portRangesContain_def providerTenantQueuePolicySubnetScoped_def providerTenantQueueEndpointScope_def subnetKey_def
        providerTenantQueueMatchesEndpoint_def Labels_MatchesSelector_def Labels_Matches_def labels_get_def example_queue_def)
qed

section \<open>What the quota check counts\<close>

text \<open>
  The usage of a tenant on a provider network, counted object by object: subnets and endpoints on
  the network, load balancers with a subnet on it, and, where the tenant has a subnet on it, its
  NAT rules, policy routes, security groups and their rules.
\<close>

definition on_provider :: "(string, Subnet) gomap \<Rightarrow> string \<Rightarrow> string \<Rightarrow> string \<Rightarrow> bool" where
  "on_provider subnets provider vpc subnet \<longleftrightarrow>
     (\<exists>s. map_of subnets (subnetKey vpc subnet) = Some s \<and> subnet_ProviderNetwork s = provider)"

definition tenant_on :: "(string, Subnet) gomap \<Rightarrow> string \<Rightarrow> string \<Rightarrow> bool" where
  "tenant_on subnets provider tenant \<longleftrightarrow>
     (\<exists>s \<in> snd ` set subnets. subnet_VPC s = tenant \<and> subnet_ProviderNetwork s = provider)"

definition objects_on :: "(string, Subnet) gomap \<Rightarrow> string \<Rightarrow> string \<Rightarrow> ('a \<Rightarrow> string) \<Rightarrow> 'a list \<Rightarrow> 'a list" where
  "objects_on subnets provider tenant vpc xs = (if tenant_on subnets provider tenant then filter (\<lambda>x. vpc x = tenant) xs else [])"

definition counted_usage ::
    "(string, Subnet) gomap \<Rightarrow> Endpoint list \<Rightarrow> LoadBalancer list \<Rightarrow> NATRule list \<Rightarrow> PolicyRoute list \<Rightarrow> SecurityGroup list \<Rightarrow>
     string \<Rightarrow> string \<Rightarrow> providerTenantUsage" where
  "counted_usage subnets endpoints loadBalancers natRules policyRoutes securityGroups provider tenant =
      \<lparr>usage_subnets = int (length (filter (\<lambda>s. subnet_VPC s = tenant \<and> subnet_ProviderNetwork s = provider) (map snd subnets))),
       usage_endpoints = int (length (filter (\<lambda>e. ep_VPC e = tenant \<and> on_provider subnets provider tenant (ep_Subnet e)) endpoints)),
       usage_loadBalancers = int (length (filter (\<lambda>lb. lb_VPC lb = tenant \<and> (\<exists>n \<in> set (lb_Subnets lb). on_provider subnets provider tenant n)) loadBalancers)),
       usage_natRules = int (length (objects_on subnets provider tenant nat_VPC natRules)),
       usage_policyRoutes = int (length (objects_on subnets provider tenant proute_VPC policyRoutes)),
       usage_securityGroups = int (length (objects_on subnets provider tenant sg_VPC securityGroups)),
       usage_securityGroupRules = int (sum_list (map (\<lambda>g. length (sg_Rules g)) (objects_on subnets provider tenant sg_VPC securityGroups)))\<rparr>"

lemma providerTenantUsageFor_count_usage:
  "providerTenantUsageFor (count_usage provider tenant f usage) p t =
     (if p = provider \<and> t = tenant then f (providerTenantUsageFor usage p t) else providerTenantUsageFor usage p t)"
  by (simp add: providerTenantUsageFor_def count_usage_def setProviderTenantUsage_def gomap_get_update)

text \<open>A loop that changes the usage of a tenant for some of its elements folds over these elements.\<close>

lemma usage_fold:
  assumes "\<And>x usage. x \<in> set xs \<Longrightarrow> providerTenantUsageFor (step x usage) p t =
      (if P x then f x (providerTenantUsageFor usage p t) else providerTenantUsageFor usage p t)"
  shows "providerTenantUsageFor (fold step xs usage) p t = fold f (filter P xs) (providerTenantUsageFor usage p t)"
  using assms by (induction xs arbitrary: usage) auto

lemma usage_of_object_eq:
  assumes "distinct (gomap_get [] providers (vpc x))"
  shows "providerTenantUsageFor (usage_of_object providers vpc f x usage) p t =
    (if vpc x = t \<and> p \<in> set (gomap_get [] providers t) then f x (providerTenantUsageFor usage p t) else providerTenantUsageFor usage p t)"
proof -
  have "providerTenantUsageFor (fold (\<lambda>providerName. count_usage providerName (vpc x) (f x)) ps usage) p t =
      (if vpc x = t \<and> p \<in> set ps then f x (providerTenantUsageFor usage p t) else providerTenantUsageFor usage p t)"
    if "distinct ps" for ps
    using that by (induction ps arbitrary: usage) (auto simp: providerTenantUsageFor_count_usage)
  with assms show ?thesis by (auto simp: usage_of_object_def)
qed

lemma tenantProviders_eq:
  "distinct (gomap_get [] (tenantProviders subnets) t)"
  "p \<in> set (gomap_get [] (tenantProviders subnets) t) \<longleftrightarrow> p \<noteq> '''' \<and> tenant_on subnets p t"
proof -
  let ?step = "\<lambda>(key, s) providers.
      if subnet_ProviderNetwork s = '''' then providers
      else AList.update (subnet_VPC s) (List.insert (subnet_ProviderNetwork s) (gomap_get [] providers (subnet_VPC s))) providers"
  have "(\<forall>t. distinct (gomap_get [] m t)) \<Longrightarrow>
      distinct (gomap_get [] (fold ?step subnets m) t) \<and>
      (p \<in> set (gomap_get [] (fold ?step subnets m) t) \<longleftrightarrow>
        p \<in> set (gomap_get [] m t) \<or> p \<noteq> '''' \<and> tenant_on subnets p t)" for m
  proof (induction subnets arbitrary: m)
    case (Cons x subnets)
    obtain k s where x: "x = (k, s)" by (cases x)
    have "\<forall>t. distinct (gomap_get [] (?step x m) t)" using Cons.prems by (auto simp: x gomap_get_update)
    from Cons.IH [OF this] show ?case by (auto simp: x gomap_get_update tenant_on_def)
  qed (simp add: tenant_on_def)
  from this [of "[]"] show "distinct (gomap_get [] (tenantProviders subnets) t)"
    "p \<in> set (gomap_get [] (tenantProviders subnets) t) \<longleftrightarrow> p \<noteq> '''' \<and> tenant_on subnets p t"
    by (simp_all add: tenantProviders_def gomap_get_def)
qed

lemma gomap_get_Nil [simp]: "gomap_get z [] k = z"
  by (simp add: gomap_get_def)

lemma subnetProviders_eq:
  assumes "distinct (map fst subnets)"
  shows "gomap_get '''' (subnetProviders subnets) k =
    (case map_of subnets k of None \<Rightarrow> '''' | Some s \<Rightarrow> subnet_ProviderNetwork s)"
proof -
  let ?step = "\<lambda>(key, s) providers. if subnet_ProviderNetwork s = '''' then providers else AList.update key (subnet_ProviderNetwork s) providers"
  have "\<forall>k \<in> fst ` set subnets. gomap_get '''' m k = '''' \<Longrightarrow>
    gomap_get '''' (fold ?step subnets m) k = (case map_of subnets k of None \<Rightarrow> gomap_get '''' m k | Some s \<Rightarrow> subnet_ProviderNetwork s)" for m
    using assms
  proof (induction subnets arbitrary: m)
    case (Cons x subnets)
    obtain k' s where x: "x = (k', s)" by (cases x)
    have "\<forall>k \<in> fst ` set subnets. gomap_get '''' (?step x m) k = ''''" using Cons.prems by (auto simp: x gomap_get_update)
    moreover have "map_of subnets k' = None" using Cons.prems by (simp add: x map_of_eq_None_iff)
    ultimately show ?case using Cons.IH [of "?step x m"] Cons.prems
      by (cases "k = k'") (simp_all add: x gomap_get_update split: option.splits)
  qed simp
  from this [of "[]"] show ?thesis by (simp add: subnetProviders_def cong: option.case_cong)
qed

lemma provider_of_subnet:
  assumes "distinct (map fst subnets)" and "p \<noteq> ''''"
  shows "gomap_get '''' (subnetProviders subnets) (subnetKey vpc n) = p \<longleftrightarrow> on_provider subnets p vpc n"
  using assms by (cases "map_of subnets (subnetKey vpc n)") (simp_all add: subnetProviders_eq on_provider_def)

text \<open>
  A load balancer is counted once for each network one of its subnets is on. The keys that record
  this are distinct for distinct load balancers; names of networks without a zero byte keep the
  keys of different networks apart.
\<close>

definition lb_counted_key :: "string \<Rightarrow> LoadBalancer \<Rightarrow> string" where
  "lb_counted_key provider lb = provider @ NUL @ lb_VPC lb @ NUL @ lb_Name lb"

lemma usage_of_lb_subnet_eq:
  assumes "distinct (map fst subnets)" and "p \<noteq> ''''"
  shows "usage_of_lb_subnet (subnetProviders subnets) lb n (seen, usage) = (seen', usage') \<Longrightarrow>
    providerTenantUsageFor usage' p t =
      (if t = lb_VPC lb \<and> on_provider subnets p t n \<and> lb_counted_key p lb \<notin> set seen
       then usage_loadBalancers_update (\<lambda>n. n + 1) (providerTenantUsageFor usage p t) else providerTenantUsageFor usage p t) \<and>
    (lb_counted_key p lb \<in> set seen' \<longleftrightarrow> lb_counted_key p lb \<in> set seen \<or> on_provider subnets p (lb_VPC lb) n)"
  using provider_of_subnet [OF assms, of "lb_VPC lb" n] assms(2)
  by (auto simp: usage_of_lb_subnet_def Let_def lb_counted_key_def providerTenantUsageFor_count_usage split: if_splits)

lemma usage_of_lb_eq:
  assumes "distinct (map fst subnets)" and "p \<noteq> ''''"
  shows "fold (usage_of_lb_subnet (subnetProviders subnets) lb) ns (seen, usage) = (seen', usage') \<Longrightarrow>
    providerTenantUsageFor usage' p t =
      (if t = lb_VPC lb \<and> (\<exists>n \<in> set ns. on_provider subnets p t n) \<and> lb_counted_key p lb \<notin> set seen
       then usage_loadBalancers_update (\<lambda>n. n + 1) (providerTenantUsageFor usage p t) else providerTenantUsageFor usage p t) \<and>
    (lb_counted_key p lb \<in> set seen' \<longleftrightarrow> lb_counted_key p lb \<in> set seen \<or> (\<exists>n \<in> set ns. on_provider subnets p (lb_VPC lb) n))"
proof (induction ns arbitrary: seen usage)
  case (Cons n ns)
  obtain seen1 usage1 where step: "usage_of_lb_subnet (subnetProviders subnets) lb n (seen, usage) = (seen1, usage1)"
    by fastforce
  from Cons.prems step have rest: "fold (usage_of_lb_subnet (subnetProviders subnets) lb) ns (seen1, usage1) = (seen', usage')" by simp
  show ?case using usage_of_lb_subnet_eq [OF assms step, of t] Cons.IH [OF rest] by auto
qed simp

definition no_NUL :: "string \<Rightarrow> bool" where
  "no_NUL s \<longleftrightarrow> set NUL \<inter> set s = {}"

lemma lb_counted_key_inj:
  assumes "no_NUL p" and "no_NUL q" and "lb_counted_key p lb = lb_counted_key q lb'"
  shows "loadBalancerKey (lb_VPC lb) (lb_Name lb) = loadBalancerKey (lb_VPC lb') (lb_Name lb')"
proof -
  have "x = y \<and> u = v" if "x @ c # u = y @ c # v" "c \<notin> set x" "c \<notin> set y" for x y u v :: string and c
    using that by (auto simp: append_eq_append_conv2 append_eq_Cons_conv Cons_eq_append_conv)
  from this [of p _ _ q] assms show ?thesis by (simp add: lb_counted_key_def no_NUL_def loadBalancerKey_def)
qed

lemma usage_of_lb_seen:
  assumes "distinct (map fst subnets)" and "\<forall>s \<in> snd ` set subnets. no_NUL (subnet_ProviderNetwork s)"
    and "fold (usage_of_lb_subnet (subnetProviders subnets) lb) ns (seen, usage) = (seen', usage')"
  shows "set seen' \<subseteq> set seen \<union> {lb_counted_key q lb |q. no_NUL q}"
  using assms(3)
proof (induction ns arbitrary: seen usage)
  case (Cons n ns)
  obtain seen1 usage1 where step: "usage_of_lb_subnet (subnetProviders subnets) lb n (seen, usage) = (seen1, usage1)"
    by fastforce
  have "no_NUL (gomap_get '''' (subnetProviders subnets) k)" for k
    using assms(2) by (cases "map_of subnets k") (force simp: subnetProviders_eq [OF assms(1)] no_NUL_def dest: map_of_SomeD)+
  with step have "set seen1 \<subseteq> set seen \<union> {lb_counted_key q lb |q. no_NUL q}"
    by (auto simp: usage_of_lb_subnet_def Let_def lb_counted_key_def split: if_splits)
  with Cons.IH [of seen1 usage1] Cons.prems step show ?case by auto
qed simp

lemma usage_of_load_balancers_eq:
  assumes "distinct (map fst subnets)" and "p \<noteq> ''''" and "no_NUL p"
    and "\<forall>s \<in> snd ` set subnets. no_NUL (subnet_ProviderNetwork s)"
    and "distinct (map (\<lambda>lb. loadBalancerKey (lb_VPC lb) (lb_Name lb)) lbs)"
  shows "providerTenantUsageFor (usage_of_load_balancers (subnetProviders subnets) lbs usage) p t =
    fold (\<lambda>_. usage_loadBalancers_update (\<lambda>n. n + 1))
      (filter (\<lambda>lb. lb_VPC lb = t \<and> (\<exists>n \<in> set (lb_Subnets lb). on_provider subnets p t n)) lbs) (providerTenantUsageFor usage p t)"
proof -
  let ?f = "\<lambda>lb. fold (usage_of_lb_subnet (subnetProviders subnets) lb) (lb_Subnets lb)"
  let ?P = "\<lambda>lb. lb_VPC lb = t \<and> (\<exists>n \<in> set (lb_Subnets lb). on_provider subnets p t n)"
  have "\<forall>lb \<in> set lbs. lb_counted_key p lb \<notin> set seen \<Longrightarrow>
    providerTenantUsageFor (snd (fold ?f lbs (seen, usage))) p t =
      fold (\<lambda>_. usage_loadBalancers_update (\<lambda>n. n + 1)) (filter ?P lbs) (providerTenantUsageFor usage p t)" for seen
    using assms(5)
  proof (induction lbs arbitrary: seen usage)
    case (Cons lb lbs)
    obtain seen1 usage1 where step: "?f lb (seen, usage) = (seen1, usage1)" by fastforce
    have "lb_counted_key p lb' \<notin> set seen1" if "lb' \<in> set lbs" for lb'
    proof
      assume "lb_counted_key p lb' \<in> set seen1"
      moreover have "lb_counted_key p lb' \<notin> set seen" using Cons.prems(1) that by simp
      ultimately obtain q where "no_NUL q" "lb_counted_key p lb' = lb_counted_key q lb"
        using usage_of_lb_seen [OF assms(1,4) step] by blast
      then have "loadBalancerKey (lb_VPC lb') (lb_Name lb') = loadBalancerKey (lb_VPC lb) (lb_Name lb)"
        using lb_counted_key_inj [OF assms(3)] by blast
      with Cons.prems(2) that show False by (metis (mono_tags, lifting) distinct.simps(2) image_eqI list.simps(9) set_map)
    qed
    then have "providerTenantUsageFor (snd (fold ?f lbs (seen1, usage1))) p t =
        fold (\<lambda>_. usage_loadBalancers_update (\<lambda>n. n + 1)) (filter ?P lbs) (providerTenantUsageFor usage1 p t)"
      using Cons.prems by (intro Cons.IH) auto
    with usage_of_lb_eq [OF assms(1,2) step, of t] Cons.prems step show ?case by auto
  qed simp
  from this [of "[]"] show ?thesis by (simp add: usage_of_load_balancers_def)
qed

lemma fold_counters:
  "fold (\<lambda>_. usage_subnets_update (\<lambda>n. n + 1)) xs u = u\<lparr>usage_subnets := usage_subnets u + int (length xs)\<rparr>"
  "fold (\<lambda>_. usage_endpoints_update (\<lambda>n. n + 1)) ys u = u\<lparr>usage_endpoints := usage_endpoints u + int (length ys)\<rparr>"
  "fold (\<lambda>_. usage_loadBalancers_update (\<lambda>n. n + 1)) zs u = u\<lparr>usage_loadBalancers := usage_loadBalancers u + int (length zs)\<rparr>"
  "fold (\<lambda>_. usage_natRules_update (\<lambda>n. n + 1)) ns u = u\<lparr>usage_natRules := usage_natRules u + int (length ns)\<rparr>"
  "fold (\<lambda>_. usage_policyRoutes_update (\<lambda>n. n + 1)) ps u = u\<lparr>usage_policyRoutes := usage_policyRoutes u + int (length ps)\<rparr>"
  "fold (\<lambda>g u. u\<lparr>usage_securityGroups := usage_securityGroups u + 1,
        usage_securityGroupRules := usage_securityGroupRules u + int (length (sg_Rules g))\<rparr>) gs u =
     u\<lparr>usage_securityGroups := usage_securityGroups u + int (length gs),
       usage_securityGroupRules := usage_securityGroupRules u + int (sum_list (map (\<lambda>g. length (sg_Rules g)) gs))\<rparr>"
  by (induction xs arbitrary: u, simp_all) (induction ys arbitrary: u, simp_all, induction zs arbitrary: u, simp_all,
    induction ns arbitrary: u, simp_all, induction ps arbitrary: u, simp_all, induction gs arbitrary: u, simp_all)

lemma usage_of_objects:
  assumes "p \<noteq> ''''"
  shows "providerTenantUsageFor (fold (usage_of_object (tenantProviders subnets) vpc f) xs usage) p t =
    fold f (objects_on subnets p t vpc xs) (providerTenantUsageFor usage p t)"
  using usage_fold [of xs "usage_of_object (tenantProviders subnets) vpc f" p t "\<lambda>x. vpc x = t \<and> tenant_on subnets p t" f usage] assms
  by (simp add: usage_of_object_eq tenantProviders_eq objects_on_def)

lemma providerNetworkTenantUsage_counts:
  assumes "distinct (map fst subnets)" and "p \<noteq> ''''" and "no_NUL p"
    and "\<forall>s \<in> snd ` set subnets. no_NUL (subnet_ProviderNetwork s)"
    and "distinct (map (\<lambda>lb. loadBalancerKey (lb_VPC lb) (lb_Name lb)) loadBalancers)"
  shows "providerTenantUsageFor (providerNetworkTenantUsage subnets endpoints loadBalancers natRules policyRoutes securityGroups) p t =
    counted_usage subnets endpoints loadBalancers natRules policyRoutes securityGroups p t"
proof -
  let ?u1 = "fold usage_of_subnet subnets []"
  let ?u2 = "fold (usage_of_endpoint (subnetProviders subnets)) endpoints ?u1"
  have "providerTenantUsageFor ?u1 p t =
      fold (\<lambda>_. usage_subnets_update (\<lambda>n. n + 1)) (filter (\<lambda>ks. subnet_VPC (snd ks) = t \<and> subnet_ProviderNetwork (snd ks) = p) subnets) zero_usage"
    using usage_fold [of subnets usage_of_subnet p t "\<lambda>ks. subnet_VPC (snd ks) = t \<and> subnet_ProviderNetwork (snd ks) = p"
      "\<lambda>_. usage_subnets_update (\<lambda>n. n + 1)" "[]"] assms(2)
    by (auto simp: usage_of_subnet_def Let_def providerTenantUsageFor_count_usage providerTenantUsageFor_def [of "[]"])
  moreover have "providerTenantUsageFor ?u2 p t =
      fold (\<lambda>_. usage_endpoints_update (\<lambda>n. n + 1)) (filter (\<lambda>e. ep_VPC e = t \<and> on_provider subnets p t (ep_Subnet e)) endpoints)
        (providerTenantUsageFor ?u1 p t)"
  proof (rule usage_fold)
    fix e usage
    show "providerTenantUsageFor (usage_of_endpoint (subnetProviders subnets) e usage) p t =
      (if ep_VPC e = t \<and> on_provider subnets p t (ep_Subnet e)
       then usage_endpoints_update (\<lambda>n. n + 1) (providerTenantUsageFor usage p t) else providerTenantUsageFor usage p t)"
      using provider_of_subnet [OF assms(1,2), of "ep_VPC e" "ep_Subnet e"] assms(2)
      by (auto simp: usage_of_endpoint_def Let_def providerTenantUsageFor_count_usage)
  qed
  moreover have "length (filter (\<lambda>ks. P (snd ks)) subnets) = length (filter P (map snd subnets))" for P :: "Subnet \<Rightarrow> bool"
    by (simp add: filter_map comp_def)
  ultimately show ?thesis
    by (simp add: providerNetworkTenantUsage_def Let_def usage_of_objects [OF assms(2)] usage_of_load_balancers_eq [OF assms]
      fold_counters counted_usage_def zero_usage_def)
qed

definition within_quota :: "ProviderNetworkTenantQuota \<Rightarrow> providerTenantUsage \<Rightarrow> bool" where
  "within_quota quota u \<longleftrightarrow>
     list_all (\<lambda>(limit, used). limit > 0 \<longrightarrow> used \<le> limit)
       [(quota_MaxSubnets quota, usage_subnets u), (quota_MaxEndpoints quota, usage_endpoints u),
        (quota_MaxLoadBalancers quota, usage_loadBalancers u), (quota_MaxNATRules quota, usage_natRules u),
        (quota_MaxPolicyRoutes quota, usage_policyRoutes u), (quota_MaxSecurityGroups quota, usage_securityGroups u),
        (quota_MaxSecurityGroupRules quota, usage_securityGroupRules u)]"

text \<open>
  C40. When the quota check passes, every tenant with a quota on a provider network stays within
  it: each limit that is set bounds the number of the tenant's objects that count for the network,
  counted one by one. The maps the code counts in have distinct keys; that names of networks hold no
  zero byte keeps the keys under which load balancers are counted apart.
\<close>

theorem quotas_respected:
  assumes "is_ok (validateProviderNetworkTenantQuotas providerNetworks subnets endpoints loadBalancers natRules policyRoutes securityGroups)"
    and "(name, pnet) \<in> set providerNetworks" and "quota \<in> set (pnet_TenantQuotas pnet)" and "name \<noteq> ''''" and "no_NUL name"
    and "distinct (map fst subnets)" and "\<forall>s \<in> snd ` set subnets. no_NUL (subnet_ProviderNetwork s)"
    and "distinct (map (\<lambda>lb. loadBalancerKey (lb_VPC lb) (lb_Name lb)) loadBalancers)"
  shows "within_quota quota (counted_usage subnets endpoints loadBalancers natRules policyRoutes securityGroups name (quota_Tenant quota))"
proof -
  let ?usage = "providerNetworkTenantUsage subnets endpoints loadBalancers natRules policyRoutes securityGroups"
  from is_ok_range_checkD [OF assms(1) [unfolded validateProviderNetworkTenantQuotas_def Let_def] assms(2)]
  have "is_ok (range_check (\<lambda>_. check_quota name (gomap_get [] ?usage name)) (pnet_TenantQuotas pnet))" by simp
  from is_ok_range_checkD [OF this assms(3)] have "is_ok (check_quota name (gomap_get [] ?usage name) quota)" by simp
  then have "within_quota quota (providerTenantUsageFor ?usage name (quota_Tenant quota))"
    by (simp add: check_quota_def Let_def check_limit_def within_quota_def providerTenantUsageFor_def) linarith
  then show ?thesis using providerNetworkTenantUsage_counts [OF assms(6,4,5,7,8)] by simp
qed

theorem quotas_respected_witness:
  "within_quota
     \<lparr>quota_Tenant = ''blue'', quota_MaxSubnets = 0, quota_MaxEndpoints = 1, quota_MaxLoadBalancers = 0, quota_MaxNATRules = 0,
      quota_MaxPolicyRoutes = 0, quota_MaxSecurityGroups = 0, quota_MaxSecurityGroupRules = 0\<rparr>
     (counted_usage [(subnetKey ''blue'' ''s'', example_vlan_subnet)] [example_tenant_endpoint] [] [] [] [] ''p'' ''blue'')"
proof -
  let ?quota = "\<lparr>quota_Tenant = ''blue'', quota_MaxSubnets = 0, quota_MaxEndpoints = 1, quota_MaxLoadBalancers = 0, quota_MaxNATRules = 0,
      quota_MaxPolicyRoutes = 0, quota_MaxSecurityGroups = 0, quota_MaxSecurityGroupRules = 0\<rparr>"
  let ?pnet = "example_network\<lparr>pnet_TenantQuotas := [?quota]\<rparr>"
  let ?subnets = "[(subnetKey ''blue'' ''s'', example_vlan_subnet)]"
  have "is_ok (validateProviderNetworkTenantQuotas [(''p'', ?pnet)] ?subnets [example_tenant_endpoint] [] [] [] [])"
    by (simp add: validateProviderNetworkTenantQuotas_def providerNetworkTenantUsage_def range_check_def check_quota_def check_limit_def
        fail_if_def usage_of_load_balancers_def usage_of_subnet_def usage_of_endpoint_def subnetProviders_def example_vlan_subnet_def
        example_tenant_endpoint_def count_usage_def setProviderTenantUsage_def providerTenantUsageFor_def gomap_get_def zero_usage_def first_error.simps Let_def)
  from quotas_respected [OF this, of "''p''" ?pnet ?quota] show ?thesis by (simp add: no_NUL_def example_vlan_subnet_def)
qed

end
