(* ===== verification/Graph.thy ===== *)
theory Graph
  imports Tenants
begin

text \<open>
  The validation of a desired state as a whole, \<open>validateObjectGraph\<close> of
  \<open>internal/control/controller.go\<close>: every object is valid, names are unique, references lead to
  objects of the same VPC, addresses lie in the subnets they must lie in, quotas are respected and
  no two tenant queues of a provider network compete for the same traffic. Each loop body is one
  definition; a map the function builds on the way is threaded through its loop. Messages are built
  from a subject, a format with its arguments, as the code does with \<open>fmt.Sprintf\<close>. What the
  clock returns to the \<open>i\<close>-th identity group is \<open>now i\<close>; how a time is printed in a message is an
  argument.
\<close>

section \<open>Looking up subnets\<close>

type_synonym subject = "string \<times> string list"

definition subnetContainingAddress :: "(string, Subnet) gomap \<Rightarrow> string \<Rightarrow> addr \<Rightarrow> Subnet option" where
  "subnetContainingAddress subnets vpc ip =
     List.find (\<lambda>s. subnet_VPC s = vpc \<and> prefix_Contains (subnet_CIDR s) ip) (map snd subnets)"

definition subnetContainingPrefix :: "(string, Subnet) gomap \<Rightarrow> string \<Rightarrow> prefix \<Rightarrow> Subnet option" where
  "subnetContainingPrefix subnets vpc p =
     (let first = prefix_Addr (prefix_Masked p); last = prefixLastAddress p
      in List.find (\<lambda>s. subnet_VPC s = vpc \<and> prefix_Contains (subnet_CIDR s) first \<and> prefix_Contains (subnet_CIDR s) last)
           (map snd subnets))"

definition prefixOverlapsSubnetExclude :: "Subnet \<Rightarrow> prefix \<Rightarrow> prefix option" where
  "prefixOverlapsSubnetExclude subnet p =
     List.find (\<lambda>exclude. prefixesOverlap (prefix_Masked p) exclude) (map prefix_Masked (subnet_ExcludeCIDRs subnet))"

definition validateAddressOutsideVPCSubnets :: "(string, Subnet) gomap \<Rightarrow> string \<Rightarrow> addr \<Rightarrow> subject \<Rightarrow> unit result" where
  "validateAddressOutsideVPCSubnets subnets vpc ip subject =
     (case subnetContainingAddress subnets vpc ip of
        Some subnet \<Rightarrow> Inl (Errorf (fst subject @ '' is inside subnet %q in vpc %q'') (snd subject @ [subnet_Name subnet, vpc]))
      | None \<Rightarrow> Inr ())"

definition validateAddressInVPCSubnets :: "(string, Subnet) gomap \<Rightarrow> string \<Rightarrow> addr \<Rightarrow> subject \<Rightarrow> unit result" where
  "validateAddressInVPCSubnets subnets vpc ip subject =
     (case subnetContainingAddress subnets vpc ip of
        None \<Rightarrow> Inl (Errorf (fst subject @ '' is outside vpc %q subnets'') (snd subject @ [vpc]))
      | Some subnet \<Rightarrow>
          fail_if (Subnet_Excludes subnet ip)
            (Errorf (fst subject @ '' is excluded by subnet %q'') (snd subject @ [subnet_Name subnet])))"

definition validatePrefixInVPCSubnets :: "(string, Subnet) gomap \<Rightarrow> string \<Rightarrow> prefix \<Rightarrow> subject \<Rightarrow> unit result" where
  "validatePrefixInVPCSubnets subnets vpc p subject =
     (case subnetContainingPrefix subnets vpc p of
        None \<Rightarrow> Inl (Errorf (fst subject @ '' is outside vpc %q subnets'') (snd subject @ [vpc]))
      | Some subnet \<Rightarrow>
          (case prefixOverlapsSubnetExclude subnet p of
             Some exclude \<Rightarrow> Inl (Errorf (fst subject @ '' overlaps excluded cidr %s in subnet %q'')
               (snd subject @ [prefix_String exclude, subnet_Name subnet]))
           | None \<Rightarrow> Inr ()))"


section \<open>VPCs, identity groups and provider networks\<close>

definition check_vpc :: "VPC \<Rightarrow> string list \<Rightarrow> string list result" where
  "check_vpc vpc vpcs =
     bind_result (first_error [
       VPC_Validate vpc,
       fail_if (vpc_Name vpc \<in> set vpcs) (Errorf ''duplicate vpc name %q'' [vpc_Name vpc])])
     (\<lambda>_. Inr (vpc_Name vpc # vpcs))"

definition check_identity_group ::
    "(nat \<Rightarrow> time) \<Rightarrow> (time \<Rightarrow> string) \<Rightarrow> string list \<Rightarrow> nat \<Rightarrow> IdentityGroup \<Rightarrow> (string, IdentityGroup) gomap \<Rightarrow>
     (string, IdentityGroup) gomap result" where
  "check_identity_group now format_time vpcs i g groups =
     (let key = identityGroupKey (igroup_VPC g) (igroup_Name g) in
      bind_result (first_error [
        IdentityGroup_Validate g,
        fail_if (IdentityGroup_Expired g (now i))
          (Errorf ''identity group %q in vpc %q expired at %s''
            [igroup_Name g, igroup_VPC g, format_time (IdentityGroup_ExpiresAt g)]),
        fail_if (key \<in> fst ` set groups) (Errorf ''duplicate identity group name %q in vpc %q'' [igroup_Name g, igroup_VPC g]),
        fail_if (igroup_VPC g \<notin> set vpcs) (Errorf ''identity group %q references unknown vpc %q'' [igroup_Name g, igroup_VPC g])])
      (\<lambda>_. Inr (AList.update key g groups)))"

definition check_tenant_queue :: "string list \<Rightarrow> (string, IdentityGroup) gomap \<Rightarrow> string \<Rightarrow> ProviderNetworkTenantQueuePolicy \<Rightarrow> unit result" where
  "check_tenant_queue vpcs identityGroups name q =
     first_error [
       fail_if (queue_Tenant q \<notin> set vpcs)
         (Errorf ''provider network %q tenant queue references unknown tenant vpc %q'' [name, queue_Tenant q]),
       range_check (\<lambda>_ groupName.
         fail_if (identityGroupKey (queue_Tenant q) groupName \<notin> fst ` set identityGroups)
           (Errorf ''provider network %q tenant queue references unknown identity group %q in vpc %q''
             [name, groupName, queue_Tenant q]))
         (queue_IdentityGroups q)]"

definition check_provider_network ::
    "string list \<Rightarrow> (string, IdentityGroup) gomap \<Rightarrow> ProviderNetwork \<Rightarrow> (string, ProviderNetwork) gomap \<Rightarrow>
     (string, ProviderNetwork) gomap result" where
  "check_provider_network vpcs identityGroups pnet providerNetworks =
     bind_result (first_error [
       ProviderNetwork_Validate pnet,
       fail_if (pnet_Name pnet \<in> fst ` set providerNetworks) (Errorf ''duplicate provider network name %q'' [pnet_Name pnet]),
       range_check (\<lambda>_. check_tenant_queue vpcs identityGroups (pnet_Name pnet)) (pnet_TenantQueues pnet)])
     (\<lambda>_. Inr (AList.update (pnet_Name pnet) pnet providerNetworks))"


section \<open>Subnets, load balancers and groups\<close>

definition check_subnet ::
    "string list \<Rightarrow> (string, ProviderNetwork) gomap \<Rightarrow> Subnet \<Rightarrow> (string, Subnet) gomap \<Rightarrow> (string, Subnet) gomap result" where
  "check_subnet vpcs providerNetworks subnet subnets =
     (let key = subnetKey (subnet_VPC subnet) (subnet_Name subnet) in
      bind_result (first_error [
        Subnet_Validate subnet,
        fail_if (key \<in> fst ` set subnets)
          (Errorf ''duplicate subnet name %q in vpc %q'' [subnet_Name subnet, subnet_VPC subnet]),
        fail_if (subnet_VPC subnet \<notin> set vpcs)
          (Errorf ''subnet %q references unknown vpc %q'' [subnet_Name subnet, subnet_VPC subnet]),
        fail_if (subnet_ProviderNetwork subnet \<noteq> '''' \<and> subnet_ProviderNetwork subnet \<notin> fst ` set providerNetworks)
          (Errorf ''subnet %q references unknown provider network %q'' [subnet_Name subnet, subnet_ProviderNetwork subnet]),
        (case List.find (\<lambda>e. subnet_VPC e = subnet_VPC subnet \<and> prefixesOverlap (subnet_CIDR e) (subnet_CIDR subnet)) (map snd subnets) of
           Some e \<Rightarrow> Inl (Errorf ''subnet %q cidr %s overlaps with subnet %q cidr %s in vpc %q''
             [subnet_Name subnet, prefix_String (subnet_CIDR subnet), subnet_Name e, prefix_String (subnet_CIDR e), subnet_VPC subnet])
         | None \<Rightarrow> Inr ())])
      (\<lambda>_. Inr (AList.update key subnet subnets)))"

definition check_lb_subnet :: "(string, Subnet) gomap \<Rightarrow> LoadBalancer \<Rightarrow> string \<Rightarrow> unit result" where
  "check_lb_subnet subnets lb subnetName =
     (case map_of subnets (subnetKey (lb_VPC lb) subnetName) of
        None \<Rightarrow> Inl (Errorf ''load balancer %q references unknown subnet %q'' [lb_Name lb, subnetName])
      | Some subnet \<Rightarrow>
          fail_if (subnet_VPC subnet \<noteq> lb_VPC lb)
            (Errorf ''load balancer %q references subnet %q in vpc %q, want %q''
              [lb_Name lb, subnetName, subnet_VPC subnet, lb_VPC lb]))"

definition check_lb_frontend :: "(string, Subnet) gomap \<Rightarrow> LoadBalancer \<Rightarrow> LoadBalancerFrontend \<Rightarrow> unit result" where
  "check_lb_frontend subnets lb frontend =
     first_error [
       validateAddressOutsideVPCSubnets subnets (lb_VPC lb) (front_VIP frontend)
         (''load balancer %q vip %s'', [lb_Name lb, addr_String (front_VIP frontend)]),
       range_check (\<lambda>_ backend. validateAddressInVPCSubnets subnets (lb_VPC lb) (backend_IP backend)
           (''load balancer %q backend %s'', [lb_Name lb, addrport_String (backend_IP backend) (backend_Port backend)]))
         (front_Backends frontend)]"

definition check_lb_references ::
    "string list \<Rightarrow> (string, Subnet) gomap \<Rightarrow> LoadBalancer \<Rightarrow> (string, LoadBalancer) gomap \<Rightarrow> (string, LoadBalancer) gomap result" where
  "check_lb_references vpcs subnets lb loadBalancers =
     (let key = loadBalancerKey (lb_VPC lb) (lb_Name lb) in
      bind_result (first_error [
        LoadBalancer_Validate lb,
        fail_if (key \<in> fst ` set loadBalancers) (Errorf ''duplicate load balancer name %q in vpc %q'' [lb_Name lb, lb_VPC lb]),
        fail_if (lb_VPC lb \<notin> set vpcs) (Errorf ''load balancer %q references unknown vpc %q'' [lb_Name lb, lb_VPC lb]),
        range_check (\<lambda>_. check_lb_subnet subnets lb) (lb_Subnets lb),
        range_check (\<lambda>_. check_lb_frontend subnets lb) (Frontends lb)])
      (\<lambda>_. Inr (AList.update key lb loadBalancers)))"

definition check_cidr_group :: "string list \<Rightarrow> CIDRGroup \<Rightarrow> (string, CIDRGroup) gomap \<Rightarrow> (string, CIDRGroup) gomap result" where
  "check_cidr_group vpcs g cidrGroups =
     (let key = cidrGroupKey (cidrg_VPC g) (cidrg_Name g) in
      bind_result (first_error [
        CIDRGroup_Validate g,
        fail_if (key \<in> fst ` set cidrGroups) (Errorf ''duplicate cidr group name %q in vpc %q'' [cidrg_Name g, cidrg_VPC g]),
        fail_if (cidrg_VPC g \<notin> set vpcs) (Errorf ''cidr group %q references unknown vpc %q'' [cidrg_Name g, cidrg_VPC g])])
      (\<lambda>_. Inr (AList.update key g cidrGroups)))"

definition check_security_group :: "string list \<Rightarrow> SecurityGroup \<Rightarrow> (string, SecurityGroup) gomap \<Rightarrow> (string, SecurityGroup) gomap result" where
  "check_security_group vpcs g securityGroups =
     (let key = securityGroupKey (sg_VPC g) (sg_Name g) in
      bind_result (first_error [
        SecurityGroup_Validate g,
        fail_if (key \<in> fst ` set securityGroups) (Errorf ''duplicate security group name %q in vpc %q'' [sg_Name g, sg_VPC g]),
        fail_if (sg_VPC g \<notin> set vpcs) (Errorf ''security group %q references unknown vpc %q'' [sg_Name g, sg_VPC g])])
      (\<lambda>_. Inr (AList.update key g securityGroups)))"

definition effectiveProtocol :: "Protocol \<Rightarrow> Protocol" where
  "effectiveProtocol protocol = (if protocol = '''' then ProtocolAny else protocol)"

definition loadBalancerHasMatchingFrontendProtocol :: "LoadBalancer \<Rightarrow> Protocol \<Rightarrow> bool" where
  "loadBalancerHasMatchingFrontendProtocol lb protocol =
     list_ex (\<lambda>frontend. effectiveProtocol protocol = ProtocolAny \<or> front_Protocol frontend = effectiveProtocol protocol) (Frontends lb)"

definition control_portRangesContain :: "PortRange list \<Rightarrow> u16 \<Rightarrow> bool" where
  "control_portRangesContain ranges port = list_ex (\<lambda>p. port_From p \<le> port \<and> port \<le> port_To p) ranges"

definition control_portRangesKey :: "PortRange list \<Rightarrow> string" where
  "control_portRangesKey ranges = strings_Join (map (\<lambda>p. u16_String (port_From p) @ ''-'' @ u16_String (port_To p)) ranges) '',''"

definition loadBalancerHasMatchingFrontendPort :: "LoadBalancer \<Rightarrow> Protocol \<Rightarrow> PortRange list \<Rightarrow> bool" where
  "loadBalancerHasMatchingFrontendPort lb protocol ports =
     list_ex (\<lambda>frontend. (effectiveProtocol protocol = ProtocolAny \<or> front_Protocol frontend = effectiveProtocol protocol) \<and>
         control_portRangesContain ports (front_Port frontend)) (Frontends lb)"

definition check_rule_references ::
    "(string, SecurityGroup) gomap \<Rightarrow> (string, CIDRGroup) gomap \<Rightarrow> (string, LoadBalancer) gomap \<Rightarrow> string \<Rightarrow> SecurityGroupRule \<Rightarrow> unit result" where
  "check_rule_references securityGroups cidrGroups loadBalancers vpc rule =
     first_error [
       fail_if (sgr_RemoteGroup rule \<noteq> '''' \<and> securityGroupKey vpc (sgr_RemoteGroup rule) \<notin> fst ` set securityGroups)
         (Errorf ''security group rule %q references unknown remote group %q'' [sgr_ID rule, sgr_RemoteGroup rule]),
       fail_if (sgr_RemoteCIDRGroup rule \<noteq> '''' \<and> cidrGroupKey vpc (sgr_RemoteCIDRGroup rule) \<notin> fst ` set cidrGroups)
         (Errorf ''security group rule %q references unknown remote cidr group %q'' [sgr_ID rule, sgr_RemoteCIDRGroup rule]),
       (if sgr_RemoteService rule \<noteq> '''' then
          (case map_of loadBalancers (loadBalancerKey vpc (sgr_RemoteService rule)) of
             None \<Rightarrow> Inl (Errorf ''security group rule %q references unknown remote service %q'' [sgr_ID rule, sgr_RemoteService rule])
           | Some service \<Rightarrow>
               first_error [
                 fail_if (\<not> loadBalancerHasMatchingFrontendProtocol service (sgr_Protocol rule))
                   (Errorf ''security group rule %q references remote service %q without matching %s frontend''
                     [sgr_ID rule, sgr_RemoteService rule, effectiveProtocol (sgr_Protocol rule)]),
                 fail_if (sgr_Ports rule \<noteq> [] \<and> \<not> loadBalancerHasMatchingFrontendPort service (sgr_Protocol rule) (sgr_Ports rule))
                   (Errorf ''security group rule %q references remote service %q without matching %s frontend port %s''
                     [sgr_ID rule, sgr_RemoteService rule, effectiveProtocol (sgr_Protocol rule), control_portRangesKey (sgr_Ports rule)])])
        else Inr ())]"

definition check_group_references ::
    "(string, SecurityGroup) gomap \<Rightarrow> (string, CIDRGroup) gomap \<Rightarrow> (string, LoadBalancer) gomap \<Rightarrow> unit result" where
  "check_group_references securityGroups cidrGroups loadBalancers =
     range_check (\<lambda>_ g. range_check (\<lambda>_. check_rule_references securityGroups cidrGroups loadBalancers (sg_VPC g)) (sg_Rules g))
       (map snd securityGroups)"


section \<open>Endpoints\<close>

record endpoints_seen =
  seen_endpoints :: "(string, Endpoint) gomap"
  seen_IPs :: "(string, string) gomap"
  seen_MACs :: "(string, string) gomap"

definition ip_key :: "string \<Rightarrow> addr \<Rightarrow> string" where
  "ip_key vpc ip = vpc @ ''|'' @ addr_String ip"

definition check_endpoint_mac :: "Subnet \<Rightarrow> Endpoint \<Rightarrow> (string, string) gomap \<Rightarrow> (string, string) gomap result" where
  "check_endpoint_mac subnet e macs =
     (let mac = Endpoint_NormalizedMAC e in
      if mac \<noteq> '''' then
        (let macKey = subnetKey (ep_VPC e) (ep_Subnet e) @ ''|'' @ mac;
             previous = gomap_get '''' macs macKey
         in bind_result (first_error [
              fail_if (mac = SubnetGatewayMAC (subnet_VPC subnet) (subnet_Name subnet) (subnet_Gateway subnet))
                (Errorf ''endpoint %q mac %s conflicts with subnet %q gateway mac'' [ep_ID e, mac, ep_Subnet e]),
              fail_if (previous \<noteq> '''')
                (Errorf ''endpoint %q conflicts with %q on mac %s in subnet %s'' [ep_ID e, previous, mac, ep_Subnet e])])
            (\<lambda>_. Inr (AList.update macKey (ep_ID e) macs)))
      else Inr macs)"

definition check_endpoint_subnet :: "Subnet \<Rightarrow> Endpoint \<Rightarrow> unit result" where
  "check_endpoint_subnet subnet e =
     first_error [
       fail_if (subnet_VPC subnet \<noteq> ep_VPC e)
         (Errorf ''endpoint %q references subnet %q in vpc %q, want %q'' [ep_ID e, ep_Subnet e, subnet_VPC subnet, ep_VPC e]),
       fail_if (\<not> prefix_Contains (subnet_CIDR subnet) (ep_IP e))
         (Errorf ''endpoint %q ip %s is outside subnet %q cidr %s''
           [ep_ID e, addr_String (ep_IP e), ep_Subnet e, prefix_String (subnet_CIDR subnet)]),
       fail_if (Subnet_Excludes subnet (ep_IP e))
         (Errorf ''endpoint %q ip %s is excluded by subnet %q'' [ep_ID e, addr_String (ep_IP e), ep_Subnet e]),
       fail_if (ep_IP e = subnet_Gateway subnet)
         (Errorf ''endpoint %q ip %s conflicts with subnet %q gateway ip'' [ep_ID e, addr_String (ep_IP e), ep_Subnet e])]"

definition check_endpoint ::
    "string list \<Rightarrow> (string, Subnet) gomap \<Rightarrow> (string, SecurityGroup) gomap \<Rightarrow> Endpoint \<Rightarrow> endpoints_seen \<Rightarrow> endpoints_seen result" where
  "check_endpoint vpcs subnets securityGroups e s =
     (let key = EndpointKey (ep_VPC e) (ep_ID e); ipKey = ip_key (ep_VPC e) (ep_IP e);
          previous = gomap_get '''' (seen_IPs s) ipKey
      in bind_result (first_error [
           Endpoint_Validate e,
           fail_if (key \<in> fst ` set (seen_endpoints s)) (Errorf ''duplicate endpoint id %q in vpc %q'' [ep_ID e, ep_VPC e]),
           fail_if (ep_VPC e \<notin> set vpcs) (Errorf ''endpoint %q references unknown vpc %q'' [ep_ID e, ep_VPC e])]) (\<lambda>_.
         case map_of subnets (subnetKey (ep_VPC e) (ep_Subnet e)) of
           None \<Rightarrow> Inl (Errorf ''endpoint %q references unknown subnet %q'' [ep_ID e, ep_Subnet e])
         | Some subnet \<Rightarrow>
             bind_result (check_endpoint_subnet subnet e) (\<lambda>_.
             bind_result (check_endpoint_mac subnet e (seen_MACs s)) (\<lambda>macs.
             bind_result (first_error [
               range_check (\<lambda>_ groupName.
                 fail_if (securityGroupKey (ep_VPC e) groupName \<notin> fst ` set securityGroups)
                   (Errorf ''endpoint %q references unknown security group %q'' [ep_ID e, groupName])) (ep_SecurityGroups e),
               fail_if (previous \<noteq> '''')
                 (Errorf ''endpoint %q conflicts with %q on ip %s in vpc %s'' [ep_ID e, previous, addr_String (ep_IP e), ep_VPC e])])
             (\<lambda>_. Inr \<lparr>seen_endpoints = AList.update key e (seen_endpoints s),
                       seen_IPs = AList.update ipKey (ep_ID e) (seen_IPs s), seen_MACs = macs\<rparr>)))))"

definition validateIdentityGroupEndpointReferences :: "(string, IdentityGroup) gomap \<Rightarrow> (string, Endpoint) gomap \<Rightarrow> unit result" where
  "validateIdentityGroupEndpointReferences groups endpoints =
     range_check (\<lambda>_ g. range_check (\<lambda>_ endpointID.
         fail_if (EndpointKey (igroup_VPC g) endpointID \<notin> fst ` set endpoints)
           (Errorf ''identity group %q references unknown endpoint %q in vpc %q'' [igroup_Name g, endpointID, igroup_VPC g]))
       (igroup_EndpointIDs g)) (map snd groups)"


section \<open>Named ports and remote entities\<close>

definition endpointDefinesNamedPort :: "Endpoint \<Rightarrow> Protocol \<Rightarrow> string \<Rightarrow> bool" where
  "endpointDefinesNamedPort e protocol name =
     list_ex (\<lambda>port. named_Protocol port = protocol \<and> named_Name port = name) (ep_NamedPorts e)"

definition validateEndpointNamedPorts :: "SecurityGroupRule \<Rightarrow> Endpoint \<Rightarrow> unit result" where
  "validateEndpointNamedPorts rule e =
     range_check (\<lambda>_ name.
       fail_if (\<not> endpointDefinesNamedPort e (sgr_Protocol rule) name)
         (Errorf ''security group rule %q named port %s/%s is not defined on endpoint %q'' [sgr_ID rule, sgr_Protocol rule, name, ep_ID e]))
       (sgr_NamedPorts rule)"

definition endpointHasSecurityGroup :: "Endpoint \<Rightarrow> string \<Rightarrow> bool" where
  "endpointHasSecurityGroup e groupName = list_ex (\<lambda>attached. attached = groupName) (ep_SecurityGroups e)"

definition endpointsInSecurityGroup :: "Endpoint \<Rightarrow> Endpoint list \<Rightarrow> string \<Rightarrow> Endpoint list" where
  "endpointsInSecurityGroup e endpoints groupName =
     filter (\<lambda>candidate. \<not> (ep_ID candidate = ep_ID e \<or> ep_VPC candidate \<noteq> ep_VPC e) \<and> endpointHasSecurityGroup candidate groupName) endpoints"

definition endpointsMatchingSelector :: "Endpoint \<Rightarrow> Endpoint list \<Rightarrow> Labels \<Rightarrow> LabelExpr list \<Rightarrow> Endpoint list" where
  "endpointsMatchingSelector e endpoints selector expressions =
     filter (\<lambda>candidate. \<not> (ep_ID candidate = ep_ID e \<or> ep_VPC candidate \<noteq> ep_VPC e) \<and>
         Labels_MatchesSelector (ep_Labels candidate) selector expressions) endpoints"

definition egressNamedPortMembers :: "SecurityGroupRule \<Rightarrow> Endpoint \<Rightarrow> Endpoint list \<Rightarrow> Endpoint list result" where
  "egressNamedPortMembers rule e endpoints =
     (if sgr_RemoteGroup rule \<noteq> '''' then Inr (endpointsInSecurityGroup e endpoints (sgr_RemoteGroup rule))
      else if sgr_RemoteEndpointSelector rule \<noteq> [] \<or> sgr_RemoteEndpointExprs rule \<noteq> [] then
        Inr (endpointsMatchingSelector e endpoints (sgr_RemoteEndpointSelector rule) (sgr_RemoteEndpointExprs rule))
      else Inl (Errorf ''security group rule %q named ports require remote_group or remote_endpoint_selector for egress rules'' [sgr_ID rule]))"

definition check_named_ports :: "Endpoint list \<Rightarrow> Endpoint \<Rightarrow> SecurityGroupRule \<Rightarrow> unit result" where
  "check_named_ports endpoints e rule =
     (if sgr_NamedPorts rule = [] then Inr ()
      else if sgr_Direction rule = DirectionIngress then validateEndpointNamedPorts rule e
      else if sgr_Direction rule = DirectionEgress then
        bind_result (egressNamedPortMembers rule e endpoints)
          (range_check (\<lambda>_ member.
             wrap_error (Wrapf ''security group rule %q remote endpoint %q: %w'' [sgr_ID rule, ep_ID member])
               (validateEndpointNamedPorts rule member)))
      else Inr ())"

text \<open>The rules of the groups an endpoint is attached to, as both loops visit them; an unknown group has none.\<close>

definition attached_rules :: "(string, SecurityGroup) gomap \<Rightarrow> Endpoint \<Rightarrow> SecurityGroupRule list" where
  "attached_rules groupByName e =
     concat (map (\<lambda>groupName. case map_of groupByName (securityGroupKey (ep_VPC e) groupName) of None \<Rightarrow> [] | Some g \<Rightarrow> sg_Rules g)
       (ep_SecurityGroups e))"

definition validateSecurityGroupNamedPortReferences ::
    "SecurityGroup list \<Rightarrow> Endpoint list \<Rightarrow> (string, SecurityGroup) gomap \<Rightarrow> unit result" where
  "validateSecurityGroupNamedPortReferences groups endpoints groupByName =
     range_check (\<lambda>_ e. range_check (\<lambda>_. check_named_ports endpoints e) (attached_rules groupByName e)) endpoints"

definition hasRemoteGatewayNode :: "string list \<Rightarrow> string \<Rightarrow> bool" where
  "hasRemoteGatewayNode nodes localNode = list_ex (\<lambda>node. node \<noteq> localNode) nodes"

definition gatewayNodesByVPC :: "(string, Gateway) gomap \<Rightarrow> (string, string list) gomap" where
  "gatewayNodesByVPC gateways =
     fold (\<lambda>g nodes. AList.update (gw_VPC g) (List.insert (gw_Node g) (gomap_get [] nodes (gw_VPC g))) nodes) (map snd gateways) []"

definition check_entity :: "(string, string list) gomap \<Rightarrow> (string, bool) gomap \<Rightarrow> Endpoint \<Rightarrow> SecurityGroupRule \<Rightarrow> string \<Rightarrow> unit result" where
  "check_entity gatewayNodes hasSubnet e rule entity =
     (if entity \<in> set [''cluster'', ''world'', ''world-ipv4'', ''world-ipv6''] then
        fail_if (\<not> gomap_get False hasSubnet (ep_VPC e))
          (Errorf ''security group rule %q remote entity %s requires at least one subnet in vpc %q'' [sgr_ID rule, entity, ep_VPC e])
      else if entity = ''host'' then
        fail_if (gomap_get [] gatewayNodes (ep_VPC e) = [])
          (Errorf ''security group rule %q remote entity host requires at least one gateway in vpc %q'' [sgr_ID rule, ep_VPC e])
      else if entity = ''remote-node'' then
        fail_if (\<not> hasRemoteGatewayNode (gomap_get [] gatewayNodes (ep_VPC e)) (ep_Node e))
          (Errorf ''security group rule %q remote entity remote-node requires at least one gateway on a different node in vpc %q''
            [sgr_ID rule, ep_VPC e])
      else Inr ())"

definition validateSecurityGroupRemoteEntities ::
    "SecurityGroup list \<Rightarrow> Endpoint list \<Rightarrow> (string, SecurityGroup) gomap \<Rightarrow> (string, Gateway) gomap \<Rightarrow> (string, Subnet) gomap \<Rightarrow> unit result" where
  "validateSecurityGroupRemoteEntities groups endpoints groupByName gateways subnets =
     (if groups = [] \<or> endpoints = [] then Inr ()
      else
        (let gatewayNodes = gatewayNodesByVPC gateways;
             hasSubnet = fold (\<lambda>s. AList.update (subnet_VPC s) True) (map snd subnets) []
         in range_check (\<lambda>_ e. range_check (\<lambda>_ rule.
                range_check (\<lambda>_. check_entity gatewayNodes hasSubnet e rule) (sgr_RemoteEntities rule))
              (attached_rules groupByName e)) endpoints))"


section \<open>Gateways, routes and NAT rules\<close>

record gateways_seen =
  seen_gateways :: "(string, Gateway) gomap"
  seen_gatewayIPs :: "(string, string) gomap"
  seen_interfaces :: "(string, string) gomap"

definition check_gateway ::
    "string list \<Rightarrow> (string, Subnet) gomap \<Rightarrow> (string, string) gomap \<Rightarrow> Gateway \<Rightarrow> gateways_seen \<Rightarrow> gateways_seen result" where
  "check_gateway vpcs subnets endpointIPs g s =
     (let key = gatewayKey (gw_VPC g) (gw_Name g);
          ip = addr_String (gw_LANIP g);
          ipKey = ip_key (gw_VPC g) (gw_LANIP g);
          ifKey = gw_Node g @ ''|'' @ gw_ExternalIF g;
          endpoint = gomap_get '''' endpointIPs ipKey;
          previous = gomap_get '''' (seen_gatewayIPs s) ipKey;
          owner = gomap_get '''' (seen_interfaces s) ifKey
      in bind_result (first_error [
           Gateway_Validate g,
           fail_if (key \<in> fst ` set (seen_gateways s)) (Errorf ''duplicate gateway name %q in vpc %q'' [gw_Name g, gw_VPC g]),
           fail_if (gw_VPC g \<notin> set vpcs) (Errorf ''gateway %q references unknown vpc %q'' [gw_Name g, gw_VPC g]),
           validateAddressInVPCSubnets subnets (gw_VPC g) (gw_LANIP g) (''gateway %q lan ip %s'', [gw_Name g, ip]),
           (case subnetContainingAddress subnets (gw_VPC g) (gw_LANIP g) of
              Some subnet \<Rightarrow> fail_if (gw_LANIP g = subnet_Gateway subnet)
                (Errorf ''gateway %q lan ip %s conflicts with subnet %q gateway ip'' [gw_Name g, ip, subnet_Name subnet])
            | None \<Rightarrow> Inr ()),
           fail_if (endpoint \<noteq> '''')
             (Errorf ''gateway %q lan ip %s conflicts with endpoint %q in vpc %s'' [gw_Name g, ip, endpoint, gw_VPC g]),
           fail_if (previous \<noteq> '''')
             (Errorf ''gateway %q conflicts with %q on lan ip %s in vpc %s'' [gw_Name g, previous, ip, gw_VPC g]),
           fail_if (owner \<noteq> '''')
             (Errorf ''gateway %q conflicts with %q on external_if %s on node %s'' [gw_Name g, owner, gw_ExternalIF g, gw_Node g])])
         (\<lambda>_. Inr \<lparr>seen_gateways = AList.update key g (seen_gateways s),
                   seen_gatewayIPs = AList.update ipKey (gw_Name g) (seen_gatewayIPs s),
                   seen_interfaces = AList.update ifKey (gw_Name g) (seen_interfaces s)\<rparr>))"

definition routeBFDLogicalPorts :: "(string, Subnet) gomap \<Rightarrow> string \<Rightarrow> string list" where
  "routeBFDLogicalPorts subnets vpc =
     map (\<lambda>s. OVNLogicalRouterPortName (subnet_VPC s) (subnet_Name s)) (filter (\<lambda>s. subnet_VPC s = vpc) (map snd subnets))"

definition check_route_references :: "(string, Subnet) gomap \<Rightarrow> RouteTable \<Rightarrow> Route \<Rightarrow> unit result" where
  "check_route_references subnets table route =
     (if route_Blackhole route then Inr ()
      else first_error [
        range_check (\<lambda>_ nextHop. validateAddressInVPCSubnets subnets (table_VPC table) nextHop
          (''route table %q next hop %s'', [table_Name table, addr_String nextHop])) (RouteNextHops route),
        fail_if (bfd_Enabled (route_BFD route) \<and>
            strings_TrimSpace (bfd_LogicalPort (route_BFD route)) \<notin> set (routeBFDLogicalPorts subnets (table_VPC table)))
          (Errorf ''route table %q bfd logical port %q does not reference a subnet router port in vpc %q''
            [table_Name table, bfd_LogicalPort (route_BFD route), table_VPC table])])"

definition check_table_references :: "string list \<Rightarrow> (string, Subnet) gomap \<Rightarrow> RouteTable \<Rightarrow> unit result" where
  "check_table_references vpcs subnets table =
     first_error [
       RouteTable_Validate table,
       fail_if (table_VPC table \<notin> set vpcs) (Errorf ''route table %q references unknown vpc %q'' [table_Name table, table_VPC table]),
       range_check (\<lambda>_. check_route_references subnets table) (table_Routes table)]"

definition check_policy_route_references :: "string list \<Rightarrow> (string, Subnet) gomap \<Rightarrow> PolicyRoute \<Rightarrow> unit result" where
  "check_policy_route_references vpcs subnets route =
     first_error [
       PolicyRoute_Validate route,
       fail_if (proute_VPC route \<notin> set vpcs) (Errorf ''policy route %q references unknown vpc %q'' [proute_Name route, proute_VPC route]),
       (if prefix_IsValid (match_Source (proute_Match route)) then
          validatePrefixInVPCSubnets subnets (proute_VPC route) (match_Source (proute_Match route))
            (''policy route %q source %s'', [proute_Name route, prefix_String (match_Source (proute_Match route))])
        else Inr ()),
       (if action_Type (proute_Action route) = ActionReroute then
          range_check (\<lambda>_ nextHop. validateAddressInVPCSubnets subnets (proute_VPC route) nextHop
            (''policy route %q next hop %s'', [proute_Name route, addr_String nextHop])) (RerouteNextHops (proute_Action route))
        else Inr ())]"

definition validateDistributedNATEndpoint :: "NATRule \<Rightarrow> (string, Endpoint) gomap \<Rightarrow> (string, string) gomap \<Rightarrow> unit result" where
  "validateDistributedNATEndpoint rule endpoints endpointIPs =
     (if strings_TrimSpace (nat_LogicalPort rule) = '''' then Inr ()
      else
        (let endpointID = gomap_get '''' endpointIPs (ip_key (nat_VPC rule) (nat_TargetIP rule));
             e = gomap_get zero_Endpoint endpoints (EndpointKey (nat_VPC rule) endpointID);
             expectedPort = OVNLogicalSwitchPortName (nat_VPC rule) (ep_ID e);
             expectedMAC = (if Endpoint_NormalizedMAC e = '''' then GatewayMAC (ep_IP e) else Endpoint_NormalizedMAC e)
         in first_error [
              fail_if (endpointID = '''')
                (Errorf ''nat rule %q logical_port requires target ip %s to reference an endpoint in vpc %q''
                  [nat_Name rule, addr_String (nat_TargetIP rule), nat_VPC rule]),
              fail_if (nat_LogicalPort rule \<noteq> expectedPort)
                (Errorf ''nat rule %q logical_port %q does not match endpoint %q logical port %q''
                  [nat_Name rule, nat_LogicalPort rule, ep_ID e, expectedPort]),
              fail_if (strings_ToLower (nat_ExternalMAC rule) \<noteq> expectedMAC)
                (Errorf ''nat rule %q external_mac %q does not match endpoint %q mac %q''
                  [nat_Name rule, nat_ExternalMAC rule, ep_ID e, expectedMAC])]))"

definition check_nat_references ::
    "string list \<Rightarrow> (string, Subnet) gomap \<Rightarrow> (string, Endpoint) gomap \<Rightarrow> (string, string) gomap \<Rightarrow> NATRule \<Rightarrow> unit result" where
  "check_nat_references vpcs subnets endpoints endpointIPs rule =
     first_error [
       NATRule_Validate rule,
       fail_if (nat_VPC rule \<notin> set vpcs) (Errorf ''nat rule %q references unknown vpc %q'' [nat_Name rule, nat_VPC rule]),
       validateAddressOutsideVPCSubnets subnets (nat_VPC rule) (nat_ExternalIP rule)
         (''nat rule %q external ip %s'', [nat_Name rule, addr_String (nat_ExternalIP rule)]),
       (if nat_Type rule = ActionSNAT then
          validatePrefixInVPCSubnets subnets (nat_VPC rule) (nat_MatchCIDR rule)
            (''nat rule %q match cidr %s'', [nat_Name rule, prefix_String (nat_MatchCIDR rule)])
        else Inr ()),
       (if nat_Type rule = ActionDNAT \<or> nat_Type rule = ActionDNATSNAT then
          validateAddressInVPCSubnets subnets (nat_VPC rule) (nat_TargetIP rule)
            (''nat rule %q target ip %s'', [nat_Name rule, addr_String (nat_TargetIP rule)])
        else Inr ()),
       validateDistributedNATEndpoint rule endpoints endpointIPs]"

section \<open>The whole graph\<close>

definition no_endpoints_seen :: endpoints_seen where
  "no_endpoints_seen = \<lparr>seen_endpoints = [], seen_IPs = [], seen_MACs = []\<rparr>"

definition no_gateways_seen :: gateways_seen where
  "no_gateways_seen = \<lparr>seen_gateways = [], seen_gatewayIPs = [], seen_interfaces = []\<rparr>"

definition validateObjectGraph :: "(nat \<Rightarrow> time) \<Rightarrow> (time \<Rightarrow> string) \<Rightarrow> DesiredState \<Rightarrow> unit result" where
  "validateObjectGraph now format_time state =
     bind_result (fold_result check_vpc (desired_VPCs state) []) (\<lambda>vpcs.
     bind_result (fold_result_idx (check_identity_group now format_time vpcs) 0 (desired_IdentityGroups state) []) (\<lambda>identityGroups.
     bind_result (fold_result (check_provider_network vpcs identityGroups) (desired_ProviderNetworks state) []) (\<lambda>providerNetworks.
     bind_result (validateProviderNetworkNodeInterfaceClaims providerNetworks) (\<lambda>_.
     bind_result (fold_result (check_subnet vpcs providerNetworks) (desired_Subnets state) []) (\<lambda>subnets.
     bind_result (fold_result (check_lb_references vpcs subnets) (desired_LoadBalancers state) []) (\<lambda>loadBalancers.
     bind_result (fold_result (check_cidr_group vpcs) (desired_CIDRGroups state) []) (\<lambda>cidrGroups.
     bind_result (fold_result (check_security_group vpcs) (desired_SecurityGroups state) []) (\<lambda>securityGroups.
     bind_result (check_group_references securityGroups cidrGroups loadBalancers) (\<lambda>_.
     bind_result (fold_result (check_endpoint vpcs subnets securityGroups) (desired_Endpoints state) no_endpoints_seen) (\<lambda>seen.
     let endpoints = seen_endpoints seen in
     bind_result (first_error [
       validateProviderNetworkTenantQuotas providerNetworks subnets (desired_Endpoints state) (desired_LoadBalancers state)
         (desired_NATRules state) (desired_PolicyRoutes state) (desired_SecurityGroups state),
       validateIdentityGroupEndpointReferences identityGroups endpoints,
       validateProviderTenantQueueSubnetConflicts providerNetworks subnets,
       validateProviderTenantQueueIdentityGroupConflicts providerNetworks identityGroups endpoints subnets,
       validateProviderTenantQueueEndpointConflicts providerNetworks identityGroups endpoints subnets,
       validateSecurityGroupNamedPortReferences (desired_SecurityGroups state) (desired_Endpoints state) securityGroups]) (\<lambda>_.
     bind_result (fold_result (check_gateway vpcs subnets (seen_IPs seen)) (desired_Gateways state) no_gateways_seen) (\<lambda>gateways.
     first_error [
       validateSecurityGroupRemoteEntities (desired_SecurityGroups state) (desired_Endpoints state) securityGroups (seen_gateways gateways) subnets,
       range_check (\<lambda>_. check_table_references vpcs subnets) (desired_RouteTables state),
       range_check (\<lambda>_. check_policy_route_references vpcs subnets) (desired_PolicyRoutes state),
       range_check (\<lambda>_. check_nat_references vpcs subnets endpoints (seen_IPs seen)) (desired_NATRules state),
       range_check (\<lambda>_. DNSRecord_Validate) (desired_DNSRecords state)]))))))))))))"

definition ValidateDesiredState :: "(nat \<Rightarrow> time) \<Rightarrow> (time \<Rightarrow> string) \<Rightarrow> DesiredState \<Rightarrow> unit result" where
  "ValidateDesiredState now format_time state = validateObjectGraph now format_time state"

section \<open>Loops that register objects under their key\<close>

text \<open>
  Subnets, load balancers, groups and provider networks are visited by loops of one shape: an object
  whose key is new and that passes its checks against the objects registered so far is registered.
\<close>

lemma update_new: "k \<notin> fst ` set m \<Longrightarrow> AList.update k v m = m @ [(k, v)]"
  by (induction m) auto

locale registry =
  fixes visit :: "'a \<Rightarrow> (string, 'a) gomap \<Rightarrow> (string, 'a) gomap result"
    and key :: "'a \<Rightarrow> string"
    and accepts :: "'a \<Rightarrow> 'a list \<Rightarrow> bool"
  assumes visit_ok: "visit x m = Inr m' \<Longrightarrow>
      key x \<notin> fst ` set m \<and> m' = AList.update (key x) x m \<and> accepts x (map snd m)"
begin

definition registered :: "'a list \<Rightarrow> (string, 'a) gomap" where
  "registered xs = map (\<lambda>x. (key x, x)) xs"

lemma registered_simps [simp]:
  "map snd (registered xs) = xs" "map fst (registered xs) = map key xs" "snd ` set (registered xs) = set xs"
  by (simp_all add: registered_def comp_def image_image)

lemma visits_ok:
  assumes "fold_result visit xs [] = Inr m"
  shows "m = registered xs \<and> distinct (map key xs) \<and> (\<forall>i < length xs. accepts (xs ! i) (take i xs))"
proof (rule fold_result_history [where I = "\<lambda>xs m. m = registered xs \<and> distinct (map key xs) \<and>
    (\<forall>i < length xs. accepts (xs ! i) (take i xs))", OF assms])
  fix handled x s s'
  assume inv: "s = registered handled \<and> distinct (map key handled) \<and> (\<forall>i < length handled. accepts (handled ! i) (take i handled))"
    and step: "visit x s = Inr s'"
  have new: "key x \<notin> key ` set handled" "s' = registered (handled @ [x])" "accepts x handled"
    using visit_ok [OF step] inv by (auto simp: registered_def comp_def image_image update_new)
  then show "s' = registered (handled @ [x]) \<and> distinct (map key (handled @ [x])) \<and>
      (\<forall>i < length (handled @ [x]). accepts ((handled @ [x]) ! i) (take i (handled @ [x])))"
    using inv by (auto simp: nth_append)
qed (simp add: registered_def)

lemma visits_accept:
  assumes "fold_result visit xs [] = Inr m" and "x \<in> set xs"
  shows "\<exists>earlier. accepts x earlier"
  using visits_ok [OF assms(1)] assms(2) by (metis in_set_conv_nth)

end

definition subnet_accepted :: "Subnet \<Rightarrow> Subnet list \<Rightarrow> bool" where
  "subnet_accepted s earlier \<longleftrightarrow>
     is_ok (Subnet_Validate s) \<and> (\<forall>e \<in> set earlier. \<not> (subnet_VPC e = subnet_VPC s \<and> prefixesOverlap (subnet_CIDR e) (subnet_CIDR s)))"

definition lb_accepted :: "(string, Subnet) gomap \<Rightarrow> LoadBalancer \<Rightarrow> bool" where
  "lb_accepted subnets lb \<longleftrightarrow>
     (\<forall>f \<in> set (Frontends lb). subnetContainingAddress subnets (lb_VPC lb) (front_VIP f) = None)"

lemma bind_checks: "bind_result (r :: unit result) (\<lambda>_. Inr y) = Inr z \<longleftrightarrow> is_ok r \<and> z = y"
  by (cases r) auto

lemma bind_unit: "bind_result (r :: unit result) f = Inr z \<longleftrightarrow> is_ok r \<and> f () = Inr z"
  by (cases r) auto

interpretation subnet_registry: registry "check_subnet vpcs pnets" "\<lambda>s. subnetKey (subnet_VPC s) (subnet_Name s)" subnet_accepted for vpcs pnets
  by unfold_locales (auto simp: check_subnet_def Let_def bind_checks subnet_accepted_def find_None_iff split: option.splits)

interpretation lb_registry: registry "check_lb_references vpcs subnets" "\<lambda>lb. loadBalancerKey (lb_VPC lb) (lb_Name lb)"
  "\<lambda>lb _. lb_accepted subnets lb" for vpcs subnets
  by unfold_locales
    (auto simp: check_lb_references_def Let_def bind_checks lb_accepted_def check_lb_frontend_def validateAddressOutsideVPCSubnets_def
      dest: is_ok_range_checkD split: option.splits)

interpretation security_group_registry: registry "check_security_group vpcs" "\<lambda>g. securityGroupKey (sg_VPC g) (sg_Name g)"
  "\<lambda>g _. is_ok (SecurityGroup_Validate g) \<and> sg_VPC g \<in> set vpcs" for vpcs
  by unfold_locales (auto simp: check_security_group_def Let_def bind_checks)

interpretation cidr_group_registry: registry "check_cidr_group vpcs" "\<lambda>g. cidrGroupKey (cidrg_VPC g) (cidrg_Name g)"
  "\<lambda>g _. is_ok (CIDRGroup_Validate g) \<and> cidrg_VPC g \<in> set vpcs" for vpcs
  by unfold_locales (auto simp: check_cidr_group_def Let_def bind_checks)

interpretation provider_registry: registry "check_provider_network vpcs identityGroups" pnet_Name
  "\<lambda>p _. is_ok (ProviderNetwork_Validate p)" for vpcs identityGroups
  by unfold_locales (auto simp: check_provider_network_def bind_checks)

section \<open>Endpoints and gateways of an accepted graph\<close>

definition endpoint_placed :: "(string, Subnet) gomap \<Rightarrow> Endpoint \<Rightarrow> bool" where
  "endpoint_placed subnets e \<longleftrightarrow>
     (\<exists>s. map_of subnets (subnetKey (ep_VPC e) (ep_Subnet e)) = Some s \<and> subnet_VPC s = ep_VPC e \<and>
        prefix_Contains (subnet_CIDR s) (ep_IP e) \<and> \<not> Subnet_Excludes s (ep_IP e) \<and> ep_IP e \<noteq> subnet_Gateway s)"

abbreviation endpoint_ip_key :: "Endpoint \<Rightarrow> string" where
  "endpoint_ip_key e \<equiv> ip_key (ep_VPC e) (ep_IP e)"

definition endpoints_ok :: "(string, Subnet) gomap \<Rightarrow> Endpoint list \<Rightarrow> endpoints_seen \<Rightarrow> bool" where
  "endpoints_ok subnets es seen \<longleftrightarrow>
     seen_endpoints seen = map (\<lambda>e. (EndpointKey (ep_VPC e) (ep_ID e), e)) es \<and>
     distinct (map (\<lambda>e. EndpointKey (ep_VPC e) (ep_ID e)) es) \<and>
     (\<forall>e \<in> set es. is_ok (Endpoint_Validate e) \<and> endpoint_placed subnets e) \<and>
     distinct (map endpoint_ip_key es) \<and> (\<forall>k. gomap_get '''' (seen_IPs seen) k \<noteq> '''' \<longleftrightarrow> k \<in> endpoint_ip_key ` set es)"

lemma check_endpoint_step:
  assumes "check_endpoint vpcs subnets sgs e s = Inr s'"
  shows "is_ok (Endpoint_Validate e) \<and> EndpointKey (ep_VPC e) (ep_ID e) \<notin> fst ` set (seen_endpoints s) \<and> endpoint_placed subnets e \<and>
    gomap_get '''' (seen_IPs s) (endpoint_ip_key e) = '''' \<and>
    seen_endpoints s' = AList.update (EndpointKey (ep_VPC e) (ep_ID e)) e (seen_endpoints s) \<and>
    seen_IPs s' = AList.update (endpoint_ip_key e) (ep_ID e) (seen_IPs s)"
  using assms
  by (auto simp: check_endpoint_def Let_def bind_unit bind_result_Inr [where r = "check_endpoint_mac x e m" for x e m] endpoint_placed_def
      check_endpoint_subnet_def split: option.splits)

lemma Endpoint_Validate_ID: "is_ok (Endpoint_Validate e) \<Longrightarrow> ep_ID e \<noteq> ''''"
  by (simp add: Endpoint_Validate_def)

lemma check_endpoints_ok:
  assumes "fold_result (check_endpoint vpcs subnets sgs) es no_endpoints_seen = Inr seen"
  shows "endpoints_ok subnets es seen"
proof (rule fold_result_history [where I = "endpoints_ok subnets", OF assms])
  show "endpoints_ok subnets [] no_endpoints_seen" by (simp add: endpoints_ok_def no_endpoints_seen_def)
next
  fix handled e s s'
  assume inv: "endpoints_ok subnets handled s" and step: "check_endpoint vpcs subnets sgs e s = Inr s'"
  note new = check_endpoint_step [OF step]
  have keys: "gomap_get '''' (seen_IPs s) k \<noteq> '''' \<longleftrightarrow> k \<in> endpoint_ip_key ` set handled" for k
    using inv by (simp add: endpoints_ok_def)
  have "endpoint_ip_key e \<notin> endpoint_ip_key ` set handled" using new keys by blast
  moreover have "gomap_get '''' (seen_IPs s') k \<noteq> '''' \<longleftrightarrow> k \<in> endpoint_ip_key ` set (handled @ [e])" for k
    using new keys [of k] Endpoint_Validate_ID [of e] by (auto simp: gomap_get_update)
  moreover have "EndpointKey (ep_VPC e) (ep_ID e) \<notin> (\<lambda>e. EndpointKey (ep_VPC e) (ep_ID e)) ` set handled"
    using new inv by (auto simp: endpoints_ok_def image_image)
  moreover have "seen_endpoints s' = map (\<lambda>e. (EndpointKey (ep_VPC e) (ep_ID e), e)) (handled @ [e])"
    using new inv by (simp add: endpoints_ok_def update_new)
  ultimately show "endpoints_ok subnets (handled @ [e]) s'"
    using new inv by (auto simp: endpoints_ok_def)
qed

definition gateways_ok :: "(string, Subnet) gomap \<Rightarrow> (string, string) gomap \<Rightarrow> Gateway list \<Rightarrow> gateways_seen \<Rightarrow> bool" where
  "gateways_ok subnets endpointIPs gs seen \<longleftrightarrow>
     seen_gateways seen = map (\<lambda>g. (gatewayKey (gw_VPC g) (gw_Name g), g)) gs \<and>
     distinct (map (\<lambda>g. gatewayKey (gw_VPC g) (gw_Name g)) gs) \<and>
     (\<forall>g \<in> set gs. is_ok (Gateway_Validate g) \<and> subnetContainingAddress subnets (gw_VPC g) (gw_LANIP g) \<noteq> None \<and>
        gomap_get '''' endpointIPs (ip_key (gw_VPC g) (gw_LANIP g)) = '''')"

lemma check_gateways_ok:
  assumes "fold_result (check_gateway vpcs subnets endpointIPs) gs no_gateways_seen = Inr seen"
  shows "gateways_ok subnets endpointIPs gs seen"
proof (rule fold_result_history [where I = "gateways_ok subnets endpointIPs", OF assms])
  show "gateways_ok subnets endpointIPs [] no_gateways_seen" by (simp add: gateways_ok_def no_gateways_seen_def)
next
  fix handled g s s'
  assume inv: "gateways_ok subnets endpointIPs handled s" and step: "check_gateway vpcs subnets endpointIPs g s = Inr s'"
  then have new: "gatewayKey (gw_VPC g) (gw_Name g) \<notin> fst ` set (seen_gateways s)"
    "seen_gateways s' = AList.update (gatewayKey (gw_VPC g) (gw_Name g)) g (seen_gateways s)"
    "is_ok (Gateway_Validate g)" "subnetContainingAddress subnets (gw_VPC g) (gw_LANIP g) \<noteq> None"
    "gomap_get '''' endpointIPs (ip_key (gw_VPC g) (gw_LANIP g)) = ''''"
    by (auto simp: check_gateway_def Let_def bind_checks validateAddressInVPCSubnets_def)
  with inv show "gateways_ok subnets endpointIPs (handled @ [g]) s'"
    by (auto simp: gateways_ok_def image_image update_new)
qed

lemma check_vpcs_ok:
  assumes "fold_result check_vpc vs [] = Inr names"
  shows "distinct (map vpc_Name vs) \<and> (\<forall>v \<in> set vs. is_ok (VPC_Validate v))"
proof -
  have "set names = vpc_Name ` set vs \<and> distinct (map vpc_Name vs) \<and> (\<forall>v \<in> set vs. is_ok (VPC_Validate v))"
    by (rule fold_result_history [where I = "\<lambda>vs names. set names = vpc_Name ` set vs \<and> distinct (map vpc_Name vs) \<and>
        (\<forall>v \<in> set vs. is_ok (VPC_Validate v))", OF assms])
      (auto simp: check_vpc_def bind_checks)
  then show ?thesis by blast
qed

section \<open>The address plan of an accepted graph\<close>

lemma first_error_Inr: "first_error rs = Inr u \<longleftrightarrow> (\<forall>r \<in> set rs. is_ok r)"
  using is_ok_first_error [of rs] by (cases "first_error rs") auto

lemma validateObjectGraph_runs:
  assumes "is_ok (validateObjectGraph now format_time state)"
  obtains vpcs identityGroups pnets subnets lbs securityGroups seen gateways where
    "fold_result check_vpc (desired_VPCs state) [] = Inr vpcs"
    "fold_result (check_provider_network vpcs identityGroups) (desired_ProviderNetworks state) [] = Inr pnets"
    "fold_result (check_subnet vpcs pnets) (desired_Subnets state) [] = Inr subnets"
    "fold_result (check_lb_references vpcs subnets) (desired_LoadBalancers state) [] = Inr lbs"
    "fold_result (check_endpoint vpcs subnets securityGroups) (desired_Endpoints state) no_endpoints_seen = Inr seen"
    "fold_result (check_gateway vpcs subnets (seen_IPs seen)) (desired_Gateways state) no_gateways_seen = Inr gateways"
    "is_ok (validateProviderNetworkTenantQuotas pnets subnets (desired_Endpoints state) (desired_LoadBalancers state)
       (desired_NATRules state) (desired_PolicyRoutes state) (desired_SecurityGroups state))"
    "is_ok (range_check (\<lambda>_. check_nat_references vpcs subnets (seen_endpoints seen) (seen_IPs seen)) (desired_NATRules state))"
  using assms unfolding validateObjectGraph_def Let_def is_ok_bind_result first_error_Inr is_ok_first_error
  by (elim exE conjE) (rule that, assumption+, simp_all)

lemma sorted_wrt_take:
  assumes "\<And>j x. j < length xs \<Longrightarrow> x \<in> set (take j xs) \<Longrightarrow> R x (xs ! j)"
  shows "sorted_wrt R xs"
  unfolding sorted_wrt_iff_nth_less
proof (intro allI impI)
  fix i j
  assume "i < j" "j < length xs"
  then have "take j xs ! i \<in> set (take j xs)" by (intro nth_mem) simp
  with \<open>i < j\<close> \<open>j < length xs\<close> assms [of j "xs ! i"] show "R (xs ! i) (xs ! j)" by simp
qed

text \<open>The subnet that holds an address of a VPC is the only one.\<close>

lemma accepted_subnets_disjoint:
  assumes "fold_result (check_subnet vpcs pnets) ss [] = Inr subnets" and "\<forall>s \<in> set ss. prefix_wf (subnet_CIDR s)"
    and "s \<in> set ss" and "s' \<in> set ss" and "subnet_VPC s = subnet_VPC s'"
    and "prefix_Contains (subnet_CIDR s) ip" and "prefix_Contains (subnet_CIDR s') ip"
  shows "s = s'"
proof -
  let ?P = "\<lambda>s s'. subnet_VPC s = subnet_VPC s' \<and> prefixesOverlap (subnet_CIDR s) (subnet_CIDR s')"
  have "sorted_wrt (\<lambda>s s'. \<not> ?P s s') ss"
    using subnet_registry.visits_ok [OF assms(1)] by (intro sorted_wrt_take) (auto simp: subnet_accepted_def)
  moreover have "?P s s'" "?P s' s" using assms(2-7) by (auto simp: prefixesOverlap_iff)
  ultimately show ?thesis using sorted_wrt_pair [of ?P ss s s'] assms(3,4) by blast
qed

lemma subnetContainingAddress_None:
  "subnetContainingAddress (subnet_registry.registered ss) vpc ip = None \<longleftrightarrow>
     (\<forall>s \<in> set ss. subnet_VPC s = vpc \<longrightarrow> \<not> prefix_Contains (subnet_CIDR s) ip)"
  by (auto simp: subnetContainingAddress_def find_None_iff)

lemma endpoint_place:
  assumes subnets: "fold_result (check_subnet vpcs pnets) ss [] = Inr subnets" and wf: "\<forall>s \<in> set ss. prefix_wf (subnet_CIDR s)"
    and "endpoint_placed subnets e"
  shows "\<exists>s \<in> set ss. subnet_VPC s = ep_VPC e \<and> subnet_Name s = ep_Subnet e \<and> \<not> Subnet_Excludes s (ep_IP e) \<and>
    ep_IP e \<noteq> subnet_Gateway s \<and> (\<forall>s' \<in> set ss. subnet_VPC s' = ep_VPC e \<and> prefix_Contains (subnet_CIDR s') (ep_IP e) \<longleftrightarrow> s' = s)"
proof -
  have reg: "subnets = subnet_registry.registered ss" using subnet_registry.visits_ok [OF subnets] by blast
  from assms(3) obtain s where s: "map_of subnets (subnetKey (ep_VPC e) (ep_Subnet e)) = Some s" "subnet_VPC s = ep_VPC e"
    "prefix_Contains (subnet_CIDR s) (ep_IP e)" "\<not> Subnet_Excludes s (ep_IP e)" "ep_IP e \<noteq> subnet_Gateway s"
    by (auto simp: endpoint_placed_def)
  from s(1) have "(subnetKey (ep_VPC e) (ep_Subnet e), s) \<in> set (subnet_registry.registered ss)"
    unfolding reg by (rule map_of_SomeD)
  then have mem: "s \<in> set ss" "subnetKey (ep_VPC e) (ep_Subnet e) = subnetKey (subnet_VPC s) (subnet_Name s)"
    by (auto simp: subnet_registry.registered_def)
  with s(2) have "subnet_Name s = ep_Subnet e" by (simp add: subnetKey_def)
  moreover have "\<forall>s' \<in> set ss. subnet_VPC s' = ep_VPC e \<and> prefix_Contains (subnet_CIDR s') (ep_IP e) \<longleftrightarrow> s' = s"
    using accepted_subnets_disjoint [OF subnets wf mem(1), of _ "ep_IP e"] s(2,3) by auto
  ultimately show ?thesis using mem(1) s(2,4,5) by blast
qed

lemma gateway_place:
  assumes "endpoints_ok subnets es seen" and "gateways_ok (subnet_registry.registered ss) (seen_IPs seen) gs gateways" and "g \<in> set gs"
  shows "(\<exists>s \<in> set ss. subnet_VPC s = gw_VPC g \<and> prefix_Contains (subnet_CIDR s) (gw_LANIP g)) \<and>
    (\<forall>e \<in> set es. ep_VPC e = gw_VPC g \<longrightarrow> ep_IP e \<noteq> gw_LANIP g)"
proof
  from assms(2,3) have g: "subnetContainingAddress (subnet_registry.registered ss) (gw_VPC g) (gw_LANIP g) \<noteq> None"
    "gomap_get '''' (seen_IPs seen) (ip_key (gw_VPC g) (gw_LANIP g)) = ''''"
    by (simp_all add: gateways_ok_def)
  from g(1) show "\<exists>s \<in> set ss. subnet_VPC s = gw_VPC g \<and> prefix_Contains (subnet_CIDR s) (gw_LANIP g)"
    unfolding subnetContainingAddress_None by blast
  from assms(1) have "gomap_get '''' (seen_IPs seen) k \<noteq> '''' \<longleftrightarrow> k \<in> endpoint_ip_key ` set es" for k
    by (simp add: endpoints_ok_def)
  with g(2) have "ip_key (gw_VPC g) (gw_LANIP g) \<notin> endpoint_ip_key ` set es" by blast
  then show "\<forall>e \<in> set es. ep_VPC e = gw_VPC g \<longrightarrow> ep_IP e \<noteq> gw_LANIP g" by force
qed

text \<open>
  C9. In an accepted desired state every address of a VPC has one role. An endpoint's address lies
  in its own subnet and in no other, outside the excluded ranges and apart from the gateway of the
  subnet; different endpoints of a VPC have different addresses; the address of a gateway lies in a
  subnet of its VPC and is no endpoint's; frontends of load balancers and external addresses of NAT
  rules lie in no subnet of their VPC. Prefixes are well-formed, as parsing leaves them.
\<close>

theorem accepted_addresses:
  assumes "is_ok (validateObjectGraph now format_time state)"
    and "\<forall>s \<in> set (desired_Subnets state). prefix_wf (subnet_CIDR s)"
  shows "(\<forall>e \<in> set (desired_Endpoints state). \<exists>s \<in> set (desired_Subnets state).
            subnet_VPC s = ep_VPC e \<and> subnet_Name s = ep_Subnet e \<and>
            \<not> Subnet_Excludes s (ep_IP e) \<and> ep_IP e \<noteq> subnet_Gateway s \<and>
            (\<forall>s' \<in> set (desired_Subnets state).
               subnet_VPC s' = ep_VPC e \<and> prefix_Contains (subnet_CIDR s') (ep_IP e) \<longleftrightarrow> s' = s)) \<and>
         (\<forall>e \<in> set (desired_Endpoints state). \<forall>e' \<in> set (desired_Endpoints state).
            ep_VPC e = ep_VPC e' \<and> ep_IP e = ep_IP e' \<longrightarrow> e = e') \<and>
         (\<forall>g \<in> set (desired_Gateways state).
            (\<exists>s \<in> set (desired_Subnets state). subnet_VPC s = gw_VPC g \<and> prefix_Contains (subnet_CIDR s) (gw_LANIP g)) \<and>
            (\<forall>e \<in> set (desired_Endpoints state). ep_VPC e = gw_VPC g \<longrightarrow> ep_IP e \<noteq> gw_LANIP g)) \<and>
         (\<forall>s \<in> set (desired_Subnets state).
            (\<forall>lb \<in> set (desired_LoadBalancers state). \<forall>f \<in> set (Frontends lb).
               lb_VPC lb = subnet_VPC s \<longrightarrow> \<not> prefix_Contains (subnet_CIDR s) (front_VIP f)) \<and>
            (\<forall>r \<in> set (desired_NATRules state).
               nat_VPC r = subnet_VPC s \<longrightarrow> \<not> prefix_Contains (subnet_CIDR s) (nat_ExternalIP r)))"
proof -
  from assms(1) obtain vpcs pnets subnets lbs securityGroups seen gateways where
    subnets: "fold_result (check_subnet vpcs pnets) (desired_Subnets state) [] = Inr subnets"
    and lbs: "fold_result (check_lb_references vpcs subnets) (desired_LoadBalancers state) [] = Inr lbs"
    and endpoints: "fold_result (check_endpoint vpcs subnets securityGroups) (desired_Endpoints state) no_endpoints_seen = Inr seen"
    and gateways: "fold_result (check_gateway vpcs subnets (seen_IPs seen)) (desired_Gateways state) no_gateways_seen = Inr gateways"
    and nats: "is_ok (range_check (\<lambda>_. check_nat_references vpcs subnets (seen_endpoints seen) (seen_IPs seen)) (desired_NATRules state))"
    by (rule validateObjectGraph_runs)
  have reg: "subnets = subnet_registry.registered (desired_Subnets state)"
    using subnet_registry.visits_ok [OF subnets] by blast
  note es = check_endpoints_ok [OF endpoints]
  have placed: "\<exists>s \<in> set (desired_Subnets state). subnet_VPC s = ep_VPC e \<and> subnet_Name s = ep_Subnet e \<and>
      \<not> Subnet_Excludes s (ep_IP e) \<and> ep_IP e \<noteq> subnet_Gateway s \<and>
      (\<forall>s' \<in> set (desired_Subnets state). subnet_VPC s' = ep_VPC e \<and> prefix_Contains (subnet_CIDR s') (ep_IP e) \<longleftrightarrow> s' = s)"
    if "e \<in> set (desired_Endpoints state)" for e
    using es that by (intro endpoint_place [OF subnets assms(2)]) (simp add: endpoints_ok_def)
  have apart: "e = e'" if "e \<in> set (desired_Endpoints state)" "e' \<in> set (desired_Endpoints state)" "ep_VPC e = ep_VPC e'" "ep_IP e = ep_IP e'" for e e'
    using es that by (auto simp: endpoints_ok_def distinct_map inj_on_def)
  note gateway = gateway_place [OF es check_gateways_ok [OF gateways, unfolded reg]]
  have vip: "\<not> prefix_Contains (subnet_CIDR s) (front_VIP f)"
    if "s \<in> set (desired_Subnets state)" "lb \<in> set (desired_LoadBalancers state)" "f \<in> set (Frontends lb)" "lb_VPC lb = subnet_VPC s" for s lb f
    using lb_registry.visits_accept [OF lbs that(2)] that subnetContainingAddress_None [of "desired_Subnets state" "lb_VPC lb" "front_VIP f"]
    by (auto simp: lb_accepted_def reg)
  have external: "\<not> prefix_Contains (subnet_CIDR s) (nat_ExternalIP r)"
    if "s \<in> set (desired_Subnets state)" "r \<in> set (desired_NATRules state)" "nat_VPC r = subnet_VPC s" for s r
    using is_ok_range_checkD [OF nats that(2)] that subnetContainingAddress_None [of "desired_Subnets state" "nat_VPC r" "nat_ExternalIP r"]
    by (auto simp: check_nat_references_def validateAddressOutsideVPCSubnets_def reg split: option.splits)
  from placed apart gateway vip external show ?thesis by (intro conjI ballI impI) simp_all
qed

definition example_accepted :: DesiredState where
  "example_accepted = empty_DesiredState
     \<lparr>desired_VPCs := [\<lparr>vpc_Name = ''blue''\<rparr>],
      desired_Subnets := [example_subnet\<lparr>subnet_ExcludeCIDRs := []\<rparr>],
      desired_Endpoints := [\<lparr>ep_ID = ''vm1'', ep_VPC = ''blue'', ep_Subnet = ''front'', ep_IP = V4 0x0A000005, ep_MAC = [], ep_Node = ''n1'',
        ep_SecurityGroups = [], ep_NamedPorts = [], ep_Labels = []\<rparr>]\<rparr>"

lemma example_graph_ok: "is_ok (validateObjectGraph now format_time example_accepted)"
proof -
  have cidr: "prefix_Masked (Prefix (V4 0x0A000000) 25) = Prefix (V4 0x0A000000) 25" "prefix_IsValid (Prefix (V4 0x0A000000) 25)"
    "prefix_Contains (Prefix (V4 0x0A000000) 25) (V4 0x0A000001)" "prefix_Contains (Prefix (V4 0x0A000000) 25) (V4 0x0A000005)"
    by code_simp+
  show ?thesis
    by (simp add: validateObjectGraph_def example_accepted_def empty_DesiredState_def check_vpc_def VPC_Validate_def check_subnet_def
        Subnet_Validate_def example_subnet_def DHCPOptions_Validate_def range_seen_def range_check_def first_error.simps fail_if_def wrap_error_def
        validateMaskedPrefix_def cidr addr_IsUnspecified_def addr_IsValid_def check_group_references_def no_endpoints_seen_def no_gateways_seen_def
        validateProviderNetworkNodeInterfaceClaims_def sorted_values_def sort_Strings_def check_endpoint_def Endpoint_Validate_def
        check_endpoint_subnet_def check_endpoint_mac_def Endpoint_NormalizedMAC_def Subnet_Excludes_def Labels_Validate_def
        strings_TrimSpace_def validateProviderNetworkTenantQuotas_def validateIdentityGroupEndpointReferences_def
        validateProviderTenantQueueSubnetConflicts_def validateProviderTenantQueueIdentityGroupConflicts_def
        validateProviderTenantQueueEndpointConflicts_def validateSecurityGroupNamedPortReferences_def attached_rules_def
        validateSecurityGroupRemoteEntities_def Let_def)
qed

theorem accepted_addresses_witness:
  "\<exists>s \<in> set (desired_Subnets example_accepted). subnet_Name s = ''front'' \<and>
     ep_IP (hd (desired_Endpoints example_accepted)) \<noteq> subnet_Gateway s"
  using accepted_addresses [OF example_graph_ok]
  by (simp add: example_accepted_def example_subnet_def)

end
