(* ===== verification/Controller.thy ===== *)
theory Controller
  imports Graph Compiler
begin

text \<open>
  The controller of \<open>internal/control/controller.go\<close>: the topology state of a desired state, the
  backends it drives and \<open>Reconcile\<close>. A backend is an interface of the code: a record of methods over
  a state \<open>'w\<close> of its own, which a method may change even where it returns an error. The methods the
  code finds by a type assertion, of the lifecycle and of DNS, are optional. The mutex makes
  \<open>Reconcile\<close> one step.
\<close>

section \<open>The desired topology\<close>

definition desiredTopologyState :: "DesiredState \<Rightarrow> State" where
  "desiredTopologyState state =
     \<lparr>topo_VPCs = gomap_index vpc_Name (desired_VPCs state),
      topo_Subnets = gomap_index (\<lambda>s. subnetKey (subnet_VPC s) (subnet_Name s)) (desired_Subnets state),
      topo_Endpoints = gomap_index (\<lambda>e. EndpointKey (ep_VPC e) (ep_ID e)) (desired_Endpoints state),
      topo_RouteTables = gomap_index (\<lambda>t. routeTableKey (table_VPC t) (table_Name t)) (desired_RouteTables state),
      topo_PolicyRoutes = desired_PolicyRoutes state,
      topo_Gateways = gomap_index (\<lambda>g. gatewayKey (gw_VPC g) (gw_Name g)) (desired_Gateways state),
      topo_NATRules = gomap_index (\<lambda>r. natRuleKey (nat_VPC r) (nat_Name r)) (desired_NATRules state),
      topo_LoadBalancers = gomap_index (\<lambda>lb. loadBalancerKey (lb_VPC lb) (lb_Name lb)) (desired_LoadBalancers state),
      topo_DNSRecords = desired_DNSRecords state\<rparr>"


section \<open>Backends\<close>

type_synonym 'w call = "'w \<Rightarrow> unit result \<times> 'w"

definition no_call :: "'w call" where
  "no_call w = (Inr (), w)"

definition then_call :: "'w call \<Rightarrow> 'w call \<Rightarrow> 'w call" where
  "then_call f g w = (case f w of (Inl e, w') \<Rightarrow> (Inl e, w') | (Inr _, w') \<Rightarrow> g w')"

definition check_call :: "unit result \<Rightarrow> 'w call" where
  "check_call r w = (r, w)"

definition wrap_call :: "string \<Rightarrow> string list \<Rightarrow> 'w call \<Rightarrow> 'w call" where
  "wrap_call fmt args f w = (case f w of (r, w') \<Rightarrow> (wrap_error (Wrapf fmt args) r, w'))"

primrec for_each :: "('a \<Rightarrow> 'w call) \<Rightarrow> 'a list \<Rightarrow> 'w call" where
  "for_each f [] = no_call"
| "for_each f (x # xs) = then_call (f x) (for_each f xs)"

record 'w TopologyLifecycleBackend =
  BeginTopologyReconcile :: "State \<Rightarrow> 'w call"
  CleanupTopology :: "State \<Rightarrow> 'w call"

type_synonym 'w TopologyDNSBackend = "Subnet list \<Rightarrow> DNSRecord list \<Rightarrow> 'w call"

record 'w TopologyBackend =
  EnsureVPC :: "VPC \<Rightarrow> 'w call"
  EnsureSubnet :: "Subnet \<Rightarrow> 'w call"
  EnsureEndpoint :: "Endpoint \<Rightarrow> 'w call"
  EnsureRouteTable :: "RouteTable \<Rightarrow> 'w call"
  EnsurePolicyRoute :: "PolicyRoute \<Rightarrow> 'w call"
  EnsureGateway :: "Gateway \<Rightarrow> 'w call"
  EnsureNATRule :: "NATRule \<Rightarrow> 'w call"
  EnsureLoadBalancer :: "LoadBalancer \<Rightarrow> 'w call"
  lifecycle_of :: "'w TopologyLifecycleBackend option"
  dns_of :: "'w TopologyDNSBackend option"

record 'w PolicyBackend =
  backend_ApplyEndpointProgram :: "Program \<Rightarrow> 'w call"
  CleanupPolicy_of :: "(DesiredState \<Rightarrow> 'w call) option"


section \<open>Several backends as one\<close>

definition Multi_BeginTopologyReconcile :: "'w TopologyBackend list \<Rightarrow> State \<Rightarrow> 'w call" where
  "Multi_BeginTopologyReconcile m state =
     for_each (\<lambda>backend. case lifecycle_of backend of Some lifecycle \<Rightarrow> BeginTopologyReconcile lifecycle state | None \<Rightarrow> no_call) m"

definition Multi_CleanupTopology :: "'w TopologyBackend list \<Rightarrow> State \<Rightarrow> 'w call" where
  "Multi_CleanupTopology m state =
     for_each (\<lambda>backend. case lifecycle_of backend of Some lifecycle \<Rightarrow> CleanupTopology lifecycle state | None \<Rightarrow> no_call) m"

definition Multi_SyncDNSRecords :: "'w TopologyBackend list \<Rightarrow> Subnet list \<Rightarrow> DNSRecord list \<Rightarrow> 'w call" where
  "Multi_SyncDNSRecords m subnets records =
     for_each (\<lambda>backend. case dns_of backend of Some SyncDNSRecords \<Rightarrow> SyncDNSRecords subnets records | None \<Rightarrow> no_call) m"

definition Multi_EnsureVPC :: "'w TopologyBackend list \<Rightarrow> VPC \<Rightarrow> 'w call" where
  "Multi_EnsureVPC m vpc = for_each (\<lambda>backend. EnsureVPC backend vpc) m"

definition Multi_EnsureSubnet :: "'w TopologyBackend list \<Rightarrow> Subnet \<Rightarrow> 'w call" where
  "Multi_EnsureSubnet m subnet = for_each (\<lambda>backend. EnsureSubnet backend subnet) m"

definition Multi_EnsureEndpoint :: "'w TopologyBackend list \<Rightarrow> Endpoint \<Rightarrow> 'w call" where
  "Multi_EnsureEndpoint m endpoint = for_each (\<lambda>backend. EnsureEndpoint backend endpoint) m"

definition Multi_EnsureRouteTable :: "'w TopologyBackend list \<Rightarrow> RouteTable \<Rightarrow> 'w call" where
  "Multi_EnsureRouteTable m table = for_each (\<lambda>backend. EnsureRouteTable backend table) m"

definition Multi_EnsurePolicyRoute :: "'w TopologyBackend list \<Rightarrow> PolicyRoute \<Rightarrow> 'w call" where
  "Multi_EnsurePolicyRoute m route = for_each (\<lambda>backend. EnsurePolicyRoute backend route) m"

definition Multi_EnsureGateway :: "'w TopologyBackend list \<Rightarrow> Gateway \<Rightarrow> 'w call" where
  "Multi_EnsureGateway m gateway = for_each (\<lambda>backend. EnsureGateway backend gateway) m"

definition Multi_EnsureNATRule :: "'w TopologyBackend list \<Rightarrow> NATRule \<Rightarrow> 'w call" where
  "Multi_EnsureNATRule m rule = for_each (\<lambda>backend. EnsureNATRule backend rule) m"

definition Multi_EnsureLoadBalancer :: "'w TopologyBackend list \<Rightarrow> LoadBalancer \<Rightarrow> 'w call" where
  "Multi_EnsureLoadBalancer m lb = for_each (\<lambda>backend. EnsureLoadBalancer backend lb) m"

definition MultiTopologyBackend :: "'w TopologyBackend list \<Rightarrow> 'w TopologyBackend" where
  "MultiTopologyBackend m =
     \<lparr>EnsureVPC = Multi_EnsureVPC m, EnsureSubnet = Multi_EnsureSubnet m, EnsureEndpoint = Multi_EnsureEndpoint m,
      EnsureRouteTable = Multi_EnsureRouteTable m, EnsurePolicyRoute = Multi_EnsurePolicyRoute m, EnsureGateway = Multi_EnsureGateway m,
      EnsureNATRule = Multi_EnsureNATRule m, EnsureLoadBalancer = Multi_EnsureLoadBalancer m,
      lifecycle_of = Some \<lparr>BeginTopologyReconcile = Multi_BeginTopologyReconcile m, CleanupTopology = Multi_CleanupTopology m\<rparr>,
      dns_of = Some (Multi_SyncDNSRecords m)\<rparr>"


section \<open>Reconciling\<close>

text \<open>
  The surroundings of a run: the readings of the clock by the validation of identity groups and by
  the compilation of each endpoint, the printing of times, and the parsers of the standard library.
\<close>

record surroundings =
  env_now :: "nat \<Rightarrow> time"
  env_compile_now :: "nat \<Rightarrow> time"
  env_format_time :: "time \<Rightarrow> string"
  env_parsers :: Parsers

record Controller =
  ctl_identityResolver :: "IdentityCache option"

definition NewController :: Controller where
  "NewController = \<lparr>ctl_identityResolver = Some NewIdentityCache\<rparr>"

definition validate_desired :: "surroundings \<Rightarrow> DesiredState \<Rightarrow> unit result" where
  "validate_desired env state =
     first_error [
       validateObjectGraph (env_now env) (env_format_time env) state,
       validateNATRules (desired_NATRules state),
       validateLoadBalancers (desired_LoadBalancers state),
       validateInboundVIPConflicts (desired_NATRules state) (desired_LoadBalancers state),
       validatePolicyRollouts (env_parsers env) (desired_PolicyRollouts state),
       validateRouteTables (desired_RouteTables state),
       validatePolicyRoutes (desired_PolicyRoutes state)]"

definition begin_reconcile :: "'w TopologyBackend \<Rightarrow> State \<Rightarrow> 'w call" where
  "begin_reconcile topology topologyState =
     (case lifecycle_of topology of
        None \<Rightarrow> no_call
      | Some lifecycle \<Rightarrow>
          then_call (wrap_call ''begin topology reconcile: %w'' [] (BeginTopologyReconcile lifecycle topologyState))
            (wrap_call ''cleanup topology: %w'' [] (CleanupTopology lifecycle topologyState)))"

text \<open>One object of a loop: it is validated again and handed to the backend.\<close>

definition ensure_checked :: "('a \<Rightarrow> unit result) \<Rightarrow> string \<Rightarrow> ('a \<Rightarrow> string) \<Rightarrow> ('a \<Rightarrow> 'w call) \<Rightarrow> 'a \<Rightarrow> 'w call" where
  "ensure_checked validate fmt name ensure x = then_call (check_call (validate x)) (wrap_call fmt [name x] (ensure x))"

definition compile_context :: "DesiredState \<Rightarrow> IdentityCache option \<Rightarrow> IdentityCache CompileContext" where
  "compile_context state resolver =
     \<lparr>ctx_Endpoints = Some (desired_Endpoints state), ctx_Subnets = desired_Subnets state, ctx_Gateways = desired_Gateways state,
      ctx_Services = desired_LoadBalancers state, ctx_DNSRecords = desired_DNSRecords state, ctx_FQDNMaxIPsPerHostname = 0,
      ctx_CIDRGroups = desired_CIDRGroups state, ctx_IdentityResolver = resolver, ctx_Now = zero_time\<rparr>"

definition on_backend :: "'w call \<Rightarrow> (Controller \<times> 'w) call" where
  "on_backend f = (\<lambda>(c, w). case f w of (r, w') \<Rightarrow> (r, c, w'))"

text \<open>
  The body of the loop over the endpoints. A compilation that fails has no resolver in its result: the
  cache is kept as it was, which no later compilation can tell apart, since its entries are only a
  copy of what the identity function computes.
\<close>

definition compile_endpoint :: "surroundings \<Rightarrow> DesiredState \<Rightarrow> nat \<Rightarrow> Endpoint \<Rightarrow> Controller \<Rightarrow> (Program \<times> Controller) result" where
  "compile_endpoint env state i endpoint c =
     (let groups = securityGroupsForVPC (desired_SecurityGroups state) (ep_VPC endpoint);
          resolver = (case ctl_identityResolver c of None \<Rightarrow> NewIdentityCache | Some r \<Rightarrow> r)
      in case CompileForEndpointWithContext IdentityCache_Identity endpoint (map_of groups)
                (compile_context state (Some resolver)) (env_compile_now env i) of
           Inl e \<Rightarrow> Inl e
         | Inr (program, resolver') \<Rightarrow>
             Inr (program, if ctl_identityResolver c = None then c else c\<lparr>ctl_identityResolver := resolver'\<rparr>))"

definition install_policy :: "surroundings \<Rightarrow> 'w PolicyBackend \<Rightarrow> DesiredState \<Rightarrow> nat \<Rightarrow> Endpoint \<Rightarrow> (Controller \<times> 'w) call" where
  "install_policy env policy state i endpoint = (\<lambda>(c, w).
     case compile_endpoint env state i endpoint c of
       Inl e \<Rightarrow> (Inl e, c, w)
     | Inr (program, c') \<Rightarrow>
         on_backend (wrap_call ''apply policy program for endpoint %s: %w'' [ep_ID endpoint]
           (backend_ApplyEndpointProgram policy program)) (c', w))"

definition reconcile_endpoint ::
    "surroundings \<Rightarrow> 'w TopologyBackend \<Rightarrow> 'w PolicyBackend \<Rightarrow> DesiredState \<Rightarrow> nat \<times> Endpoint \<Rightarrow> (Controller \<times> 'w) call" where
  "reconcile_endpoint env topology policy state = (\<lambda>(i, endpoint).
     then_call (on_backend (ensure_checked Endpoint_Validate ''ensure endpoint %s: %w'' ep_ID (EnsureEndpoint topology) endpoint))
       (install_policy env policy state i endpoint))"

definition reconcile_networks :: "'w TopologyBackend \<Rightarrow> DesiredState \<Rightarrow> 'w call" where
  "reconcile_networks topology state =
     then_call (begin_reconcile topology (desiredTopologyState state))
     (then_call (for_each (ensure_checked VPC_Validate ''ensure vpc %s: %w'' vpc_Name (EnsureVPC topology)) (desired_VPCs state))
     (then_call (for_each (ensure_checked Subnet_Validate ''ensure subnet %s: %w'' subnet_Name (EnsureSubnet topology)) (desired_Subnets state))
     (then_call
       (case dns_of topology of
          None \<Rightarrow> no_call
        | Some SyncDNSRecords \<Rightarrow> wrap_call ''sync dns records: %w'' [] (SyncDNSRecords (desired_Subnets state) (desired_DNSRecords state)))
     (then_call (for_each (ensure_checked RouteTable_Validate ''ensure route table %s: %w'' table_Name (EnsureRouteTable topology)) (desired_RouteTables state))
     (then_call
       (for_each (ensure_checked PolicyRoute_Validate ''ensure policy route %s: %w'' proute_Name (EnsurePolicyRoute topology))
         (sort_SliceStable higher_priority (desired_PolicyRoutes state)))
       (for_each (ensure_checked Gateway_Validate ''ensure gateway %s: %w'' gw_Name (EnsureGateway topology)) (desired_Gateways state)))))))"

definition reconcile_services :: "'w TopologyBackend \<Rightarrow> 'w PolicyBackend \<Rightarrow> DesiredState \<Rightarrow> 'w call" where
  "reconcile_services topology policy state =
     then_call (for_each (\<lambda>rule. wrap_call ''ensure nat rule %s: %w'' [nat_Name rule] (EnsureNATRule topology rule)) (desired_NATRules state))
     (then_call (for_each (\<lambda>lb. wrap_call ''ensure load balancer %s: %w'' [lb_Name lb] (EnsureLoadBalancer topology lb)) (desired_LoadBalancers state))
       (case CleanupPolicy_of policy of
          None \<Rightarrow> no_call
        | Some CleanupPolicy \<Rightarrow> wrap_call ''cleanup policy: %w'' [] (CleanupPolicy state)))"

definition Reconcile ::
    "surroundings \<Rightarrow> 'w TopologyBackend \<Rightarrow> 'w PolicyBackend \<Rightarrow> DesiredState \<Rightarrow> (Controller \<times> 'w) call" where
  "Reconcile env topology policy state =
     then_call (check_call (validate_desired env state))
     (then_call (on_backend (reconcile_networks topology state))
     (then_call (for_each (reconcile_endpoint env topology policy state) (List.enumerate 0 (desired_Endpoints state)))
       (on_backend (reconcile_services topology policy state))))"

section \<open>Sequences of calls\<close>

lemma then_call_Inr:
  "then_call f g w = (Inr (), w'') \<longleftrightarrow> (\<exists>w'. f w = (Inr (), w') \<and> g w' = (Inr (), w''))"
  by (auto simp: then_call_def split: prod.splits sum.splits)

lemma then_call_done [simp]: "f w = (Inr (), w') \<Longrightarrow> then_call f g w = g w'"
  by (simp add: then_call_def)

lemma then_call_failed [simp]: "f w = (Inl e, w') \<Longrightarrow> then_call f g w = (Inl e, w')"
  by (simp add: then_call_def)

lemma check_call_Inr [simp]: "check_call r w = (Inr (), w') \<longleftrightarrow> is_ok r \<and> w' = w"
  by (cases r) (auto simp: check_call_def)

lemma wrap_call_Inr [simp]: "wrap_call fmt args f w = (Inr (), w') \<longleftrightarrow> f w = (Inr (), w')"
  by (auto simp: wrap_call_def wrap_error_def split: prod.splits sum.splits)

lemma no_call_apply [simp]: "no_call w = (Inr (), w)"
  by (simp add: no_call_def)

lemma on_backend_apply [simp]: "on_backend f (c, w) = (case f w of (r, w') \<Rightarrow> (r, c, w'))"
  by (simp add: on_backend_def)

lemma on_backend_Inr: "on_backend f (c, w) = (Inr (), c', w') \<longleftrightarrow> c' = c \<and> f w = (Inr (), w')"
  by (auto split: prod.splits)

lemma ensure_checked_Inr:
  "ensure_checked validate fmt name ensure x w = (Inr (), w') \<longleftrightarrow> is_ok (validate x) \<and> ensure x w = (Inr (), w')"
  by (auto simp: ensure_checked_def then_call_Inr)

text \<open>Calls that leave the backend as it is, one after the other.\<close>

lemma for_each_stable:
  assumes "\<And>x. x \<in> set xs \<Longrightarrow> f x w = (Inr (), w)"
  shows "for_each f xs w = (Inr (), w)"
  using assms by (induction xs) simp_all


section \<open>An accepted desired state\<close>

lemma validate_desired_ok:
  assumes "is_ok (validate_desired env state)"
  shows "is_ok (validateObjectGraph (env_now env) (env_format_time env) state)"
    and "is_ok (validateNATRules (desired_NATRules state))"
    and "is_ok (validateLoadBalancers (desired_LoadBalancers state))"
    and "is_ok (validateRouteTables (desired_RouteTables state))"
    and "is_ok (validatePolicyRoutes (desired_PolicyRoutes state))"
  using assms by (simp_all add: validate_desired_def is_ok_first_error)

lemma accepted_names:
  assumes "is_ok (validate_desired env state)"
  shows "distinct (map vpc_Name (desired_VPCs state))"
    and "distinct (map (\<lambda>s. subnetKey (subnet_VPC s) (subnet_Name s)) (desired_Subnets state))"
    and "distinct (map (\<lambda>e. EndpointKey (ep_VPC e) (ep_ID e)) (desired_Endpoints state))"
    and "distinct (map (\<lambda>g. gatewayKey (gw_VPC g) (gw_Name g)) (desired_Gateways state))"
    and "distinct (map (\<lambda>t. routeTableKey (table_VPC t) (table_Name t)) (desired_RouteTables state))"
    and "distinct (map (\<lambda>r. natRuleKey (nat_VPC r) (nat_Name r)) (desired_NATRules state))"
    and "distinct (map (\<lambda>lb. loadBalancerKey (lb_VPC lb) (lb_Name lb)) (desired_LoadBalancers state))"
    and "distinct (map endpoint_ip_key (desired_Endpoints state))"
proof -
  note ok = validate_desired_ok [OF assms]
  from ok(1) obtain vpcs pnets subnets securityGroups seen gateways where
    vpcs: "fold_result check_vpc (desired_VPCs state) [] = Inr vpcs"
    and subnets: "fold_result (check_subnet vpcs pnets) (desired_Subnets state) [] = Inr subnets"
    and endpoints: "fold_result (check_endpoint vpcs subnets securityGroups) (desired_Endpoints state) no_endpoints_seen = Inr seen"
    and gateways: "fold_result (check_gateway vpcs subnets (seen_IPs seen)) (desired_Gateways state) no_gateways_seen = Inr gateways"
    by (rule validateObjectGraph_runs)
  show "distinct (map vpc_Name (desired_VPCs state))" using check_vpcs_ok [OF vpcs] by blast
  show "distinct (map (\<lambda>s. subnetKey (subnet_VPC s) (subnet_Name s)) (desired_Subnets state))"
    using subnet_registry.visits_ok [OF subnets] by blast
  show "distinct (map (\<lambda>e. EndpointKey (ep_VPC e) (ep_ID e)) (desired_Endpoints state))"
    "distinct (map endpoint_ip_key (desired_Endpoints state))"
    using check_endpoints_ok [OF endpoints] by (simp_all add: endpoints_ok_def)
  show "distinct (map (\<lambda>g. gatewayKey (gw_VPC g) (gw_Name g)) (desired_Gateways state))"
    using check_gateways_ok [OF gateways] by (simp add: gateways_ok_def)
  show "distinct (map (\<lambda>t. routeTableKey (table_VPC t) (table_Name t)) (desired_RouteTables state))"
    by (rule validateRouteTables_sound(1) [OF ok(4)])
  show "distinct (map (\<lambda>lb. loadBalancerKey (lb_VPC lb) (lb_Name lb)) (desired_LoadBalancers state))"
    by (rule validateLoadBalancers_sound(1) [OF ok(3)])
  show "distinct (map (\<lambda>r. natRuleKey (nat_VPC r) (nat_Name r)) (desired_NATRules state))"
    using validateNATRules_sound [OF ok(2)] by (simp add: nat_accepted_def nat_rule_key_def [abs_def])
qed

text \<open>No object that the graph accepts fails its own validation again inside the loops.\<close>

lemma accepted_valid:
  assumes "is_ok (validate_desired env state)"
  shows "\<forall>v \<in> set (desired_VPCs state). is_ok (VPC_Validate v)"
    and "\<forall>s \<in> set (desired_Subnets state). is_ok (Subnet_Validate s)"
    and "\<forall>e \<in> set (desired_Endpoints state). is_ok (Endpoint_Validate e)"
    and "\<forall>g \<in> set (desired_Gateways state). is_ok (Gateway_Validate g)"
proof -
  from validate_desired_ok(1) [OF assms] obtain vpcs pnets subnets securityGroups seen gateways where
    vpcs: "fold_result check_vpc (desired_VPCs state) [] = Inr vpcs"
    and subnets: "fold_result (check_subnet vpcs pnets) (desired_Subnets state) [] = Inr subnets"
    and endpoints: "fold_result (check_endpoint vpcs subnets securityGroups) (desired_Endpoints state) no_endpoints_seen = Inr seen"
    and gateways: "fold_result (check_gateway vpcs subnets (seen_IPs seen)) (desired_Gateways state) no_gateways_seen = Inr gateways"
    by (rule validateObjectGraph_runs)
  show "\<forall>v \<in> set (desired_VPCs state). is_ok (VPC_Validate v)" using check_vpcs_ok [OF vpcs] by blast
  show "\<forall>s \<in> set (desired_Subnets state). is_ok (Subnet_Validate s)"
    using subnet_registry.visits_accept [OF subnets] by (auto simp: subnet_accepted_def)
  show "\<forall>e \<in> set (desired_Endpoints state). is_ok (Endpoint_Validate e)"
    using check_endpoints_ok [OF endpoints] by (auto simp: endpoints_ok_def)
  show "\<forall>g \<in> set (desired_Gateways state). is_ok (Gateway_Validate g)"
    using check_gateways_ok [OF gateways] by (auto simp: gateways_ok_def)
qed

lemma accepted_routes_valid:
  assumes "is_ok (validate_desired env state)"
  shows "\<forall>t \<in> set (desired_RouteTables state). is_ok (RouteTable_Validate t)"
    and "\<forall>r \<in> set (desired_PolicyRoutes state). is_ok (PolicyRoute_Validate r)"
proof -
  from validate_desired_ok(4) [OF assms] obtain s where tables: "fold_result check_route_table (desired_RouteTables state) ([], []) = Inr s"
    by (cases "fold_result check_route_table (desired_RouteTables state) ([], [])") (simp_all add: validateRouteTables_def)
  show "\<forall>t \<in> set (desired_RouteTables state). is_ok (RouteTable_Validate t)"
    by (rule fold_result_history [where I = "\<lambda>ts _. \<forall>t \<in> set ts. is_ok (RouteTable_Validate t)", OF tables])
      (auto simp: check_route_table_def bind_result_Inr Let_def split: prod.splits)
  from validate_desired_ok(5) [OF assms] obtain s where routes: "fold_result check_policy_route (desired_PolicyRoutes state) ([], []) = Inr s"
    by (cases "fold_result check_policy_route (desired_PolicyRoutes state) ([], [])") (simp_all add: validatePolicyRoutes_def)
  show "\<forall>r \<in> set (desired_PolicyRoutes state). is_ok (PolicyRoute_Validate r)"
    by (rule fold_result_history [where I = "\<lambda>rs _. \<forall>r \<in> set rs. is_ok (PolicyRoute_Validate r)", OF routes])
      (auto simp: check_policy_route_def bind_result_Inr Let_def split: prod.splits)
qed

section \<open>The topology of an accepted state is unambiguous\<close>

lemma gomap_index_values: "snd ` set (gomap_index key xs) \<subseteq> set xs"
proof -
  have "snd ` set (fold (\<lambda>x. AList.update (key x) x) xs m) \<subseteq> set xs \<union> snd ` set m" for m
  proof (induction xs arbitrary: m)
    case (Cons x xs)
    have "snd ` set (AList.update (key x) x m) \<subseteq> insert x (snd ` set m)"
      by (induction m) auto
    with Cons [of "AList.update (key x) x m"] show ?case by auto
  qed simp
  from this [of "[]"] show ?thesis by (simp add: gomap_index_def)
qed

lemma accepted_unambiguous:
  assumes "is_ok (validate_desired env state)"
  shows "unambiguous (desiredTopologyState state)"
proof -
  note ok = validate_desired_ok [OF assms]
  note names = accepted_names [OF assms]
  have subs: "snd ` set (topo_Endpoints (desiredTopologyState state)) \<subseteq> set (desired_Endpoints state)"
    "snd ` set (topo_NATRules (desiredTopologyState state)) \<subseteq> set (desired_NATRules state)"
    by (simp_all add: desiredTopologyState_def gomap_index_values)
  have endpoints: "e = e'" if "e \<in> set (desired_Endpoints state)" "e' \<in> set (desired_Endpoints state)"
    "ep_VPC e = ep_VPC e'" "ep_IP e = ep_IP e'" for e e'
    using inj_onD [of endpoint_ip_key _ e e'] names(8) that by (simp add: distinct_map) blast
  have nats: "r = r'" if "r \<in> set (desired_NATRules state)" "r' \<in> set (desired_NATRules state)"
    "dnat_applies packet r" "dnat_applies packet r'" for packet r r'
    using nat_accepted_unique [OF validateNATRules_sound [OF ok(2)]] that by blast
  have frontends: "f = f'" if "f \<in> set (vpc_frontends (desiredTopologyState state) vpc)" "f' \<in> set (vpc_frontends (desiredTopologyState state) vpc)"
    "front_VIP (snd f) = front_VIP (snd f')" "front_Port (snd f) = front_Port (snd f')" "front_Protocol (snd f) = front_Protocol (snd f')" for f f' vpc
    using validateLoadBalancers_sound(2) [OF ok(3)] that
    by (fastforce simp: vpc_frontends_def desiredTopologyState_def gomap_index_distinct [OF names(7)])
  have routes: "prefix_Masked (route_Destination (snd r)) = route_Destination (snd r)"
    "route_Destination (snd r) = route_Destination (snd r') \<Longrightarrow> r = r'"
    if "r \<in> set (vpc_routes (topo_RouteTables (desiredTopologyState state)) vpc)"
      "r' \<in> set (vpc_routes (topo_RouteTables (desiredTopologyState state)) vpc)" for r r' vpc
  proof -
    from that obtain t t' where "t \<in> set (desired_RouteTables state)" "snd r \<in> set (table_Routes t)" "fst r = table_Name t" "table_VPC t = vpc"
      "t' \<in> set (desired_RouteTables state)" "snd r' \<in> set (table_Routes t')" "fst r' = table_Name t'" "table_VPC t' = vpc"
      by (auto simp: vpc_routes_def desiredTopologyState_def gomap_index_distinct [OF names(5)])
    then show "prefix_Masked (route_Destination (snd r)) = route_Destination (snd r)"
      "route_Destination (snd r) = route_Destination (snd r') \<Longrightarrow> r = r'"
      using validateRouteTables_sound(2) [OF ok(4), of t t' "snd r" "snd r'"] validateRouteTables_sound(3) [OF ok(4), of t "snd r"]
      by (auto simp: prod_eq_iff)
  qed
  show ?thesis
    unfolding unambiguous_def
  proof (intro conjI allI ballI impI)
    fix e e' packet r r'
    assume "e \<in> snd ` set (topo_Endpoints (desiredTopologyState state))" "e' \<in> snd ` set (topo_Endpoints (desiredTopologyState state))"
      "ep_VPC e = ep_VPC e' \<and> ep_IP e = ep_IP e'"
    then show "e = e'" using endpoints subs(1) by blast
  next
    fix packet r r'
    assume "r \<in> snd ` set (topo_NATRules (desiredTopologyState state))" "r' \<in> snd ` set (topo_NATRules (desiredTopologyState state))"
      "dnat_applies packet r \<and> dnat_applies packet r'"
    then show "r = r'" using nats subs(2) by blast
  next
    show "distinct (map fst (topo_NATRules (desiredTopologyState state)))" "distinct (map fst (topo_Gateways (desiredTopologyState state)))"
      by (simp_all add: desiredTopologyState_def distinct_gomap_index)
  qed (use frontends routes in blast)+
qed

section \<open>Two backends driven as one\<close>

text \<open>
  Two backends with a state each, as one list of backends over the pair of the states. The policy
  backend shares the state of the first.
\<close>

definition lift_fst :: "'a call \<Rightarrow> ('a \<times> 'b) call" where
  "lift_fst f = (\<lambda>(a, b). case f a of (r, a') \<Rightarrow> (r, a', b))"

definition lift_snd :: "'b call \<Rightarrow> ('a \<times> 'b) call" where
  "lift_snd f = (\<lambda>(a, b). case f b of (r, b') \<Rightarrow> (r, a, b'))"

definition lift_backend :: "('a call \<Rightarrow> 'w call) \<Rightarrow> 'a TopologyBackend \<Rightarrow> 'w TopologyBackend" where
  "lift_backend lift t =
     \<lparr>EnsureVPC = lift \<circ> EnsureVPC t, EnsureSubnet = lift \<circ> EnsureSubnet t, EnsureEndpoint = lift \<circ> EnsureEndpoint t,
      EnsureRouteTable = lift \<circ> EnsureRouteTable t, EnsurePolicyRoute = lift \<circ> EnsurePolicyRoute t,
      EnsureGateway = lift \<circ> EnsureGateway t, EnsureNATRule = lift \<circ> EnsureNATRule t, EnsureLoadBalancer = lift \<circ> EnsureLoadBalancer t,
      lifecycle_of = map_option (\<lambda>l. \<lparr>BeginTopologyReconcile = lift \<circ> BeginTopologyReconcile l, CleanupTopology = lift \<circ> CleanupTopology l\<rparr>)
        (lifecycle_of t),
      dns_of = map_option (\<lambda>d subnets records. lift (d subnets records)) (dns_of t)\<rparr>"

definition lift_policy :: "'a PolicyBackend \<Rightarrow> ('a \<times> 'b) PolicyBackend" where
  "lift_policy p =
     \<lparr>backend_ApplyEndpointProgram = lift_fst \<circ> backend_ApplyEndpointProgram p,
      CleanupPolicy_of = map_option (\<lambda>cleanup. lift_fst \<circ> cleanup) (CleanupPolicy_of p)\<rparr>"

definition idle_policy :: "'b PolicyBackend" where
  "idle_policy = \<lparr>backend_ApplyEndpointProgram = \<lambda>_. no_call, CleanupPolicy_of = None\<rparr>"

text \<open>
  A call over the pair that succeeds when one call to each part does and then has done these; for a
  run, the controller after it depends on the controller before it only.
\<close>

definition splits_call :: "('a \<times> 'b) call \<Rightarrow> 'a call \<Rightarrow> 'b call \<Rightarrow> bool" where
  "splits_call c c1 c2 \<longleftrightarrow>
     (\<forall>a b a' b'. c (a, b) = (Inr (), a', b') \<longleftrightarrow> c1 a = (Inr (), a') \<and> c2 b = (Inr (), b'))"

definition splits_with ::
    "(Controller \<Rightarrow> Controller) \<Rightarrow> (Controller \<times> 'a \<times> 'b) call \<Rightarrow> (Controller \<times> 'a) call \<Rightarrow> (Controller \<times> 'b) call \<Rightarrow> bool" where
  "splits_with K c c1 c2 \<longleftrightarrow>
     (\<forall>k a b k' a' b'. c (k, a, b) = (Inr (), k', a', b') \<longleftrightarrow> c1 (k, a) = (Inr (), k', a') \<and> c2 (k, b) = (Inr (), k', b')) \<and>
     (\<forall>k a k' a'. c1 (k, a) = (Inr (), k', a') \<longrightarrow> k' = K k) \<and>
     (\<forall>k b k' b'. c2 (k, b) = (Inr (), k', b') \<longrightarrow> k' = K k)"

definition splits_run :: "(Controller \<times> 'a \<times> 'b) call \<Rightarrow> (Controller \<times> 'a) call \<Rightarrow> (Controller \<times> 'b) call \<Rightarrow> bool" where
  "splits_run c c1 c2 \<longleftrightarrow> (\<exists>K. splits_with K c c1 c2)"

named_theorems splits

lemma splits_no_call [splits]: "splits_call no_call no_call no_call"
  by (simp add: splits_call_def)

lemma splits_check [splits]: "splits_call (check_call r) (check_call r) (check_call r)"
  by (auto simp: splits_call_def)

lemma splits_wrap [splits]: "splits_call c c1 c2 \<Longrightarrow> splits_call (wrap_call fmt args c) (wrap_call fmt args c1) (wrap_call fmt args c2)"
  by (simp add: splits_call_def)

lemma splits_then [splits]:
  "\<lbrakk>splits_call c c1 c2; splits_call d d1 d2\<rbrakk> \<Longrightarrow> splits_call (then_call c d) (then_call c1 d1) (then_call c2 d2)"
  by (auto simp: splits_call_def then_call_Inr)

lemma splits_for_each [splits]:
  "(\<And>x. splits_call (f x) (f1 x) (f2 x)) \<Longrightarrow> splits_call (for_each f xs) (for_each f1 xs) (for_each f2 xs)"
  by (induction xs) (simp_all add: splits)

lemma splits_ensure [splits]:
  "(\<And>x. splits_call (f x) (f1 x) (f2 x)) \<Longrightarrow>
   splits_call (ensure_checked v fmt name f x) (ensure_checked v fmt name f1 x) (ensure_checked v fmt name f2 x)"
  unfolding ensure_checked_def by (intro splits)

lemma splits_pair: "splits_call (then_call (lift_fst c) (then_call (lift_snd d) no_call)) c d"
  by (auto simp: splits_call_def then_call_Inr lift_fst_def lift_snd_def split: prod.splits)

lemma splits_with_then:
  assumes "splits_with K c c1 c2" and "splits_with L d d1 d2"
  shows "splits_with (\<lambda>k. L (K k)) (then_call c d) (then_call c1 d1) (then_call c2 d2)"
proof -
  note c = assms(1) [unfolded splits_with_def]
  note d = assms(2) [unfolded splits_with_def]
  note K = c [THEN conjunct2, THEN conjunct1, rule_format] c [THEN conjunct2, THEN conjunct2, rule_format]
  note L = d [THEN conjunct2, THEN conjunct1, rule_format] d [THEN conjunct2, THEN conjunct2, rule_format]
  show ?thesis
    unfolding splits_with_def
  proof (intro conjI allI impI)
    fix k a b k' a' b'
    show "then_call c d (k, a, b) = (Inr (), k', a', b') \<longleftrightarrow>
        then_call c1 d1 (k, a) = (Inr (), k', a') \<and> then_call c2 d2 (k, b) = (Inr (), k', b')"
    proof
      assume "then_call c1 d1 (k, a) = (Inr (), k', a') \<and> then_call c2 d2 (k, b) = (Inr (), k', b')"
      then obtain k1 a1 k2 b2 where "c1 (k, a) = (Inr (), k1, a1)" "d1 (k1, a1) = (Inr (), k', a')"
        "c2 (k, b) = (Inr (), k2, b2)" "d2 (k2, b2) = (Inr (), k', b')"
        by (auto simp: then_call_Inr)
      moreover from this have "k2 = k1" using c by blast
      ultimately have "c (k, a, b) = (Inr (), k1, a1, b2)" "d (k1, a1, b2) = (Inr (), k', a', b')" using c d by auto
      then show "then_call c d (k, a, b) = (Inr (), k', a', b')" by (auto simp: then_call_Inr)
    qed (use c d in \<open>auto simp: then_call_Inr\<close>)
  next
    fix k a k' a'
    assume "then_call c1 d1 (k, a) = (Inr (), k', a')"
    then obtain k1 a1 where "c1 (k, a) = (Inr (), k1, a1)" "d1 (k1, a1) = (Inr (), k', a')" by (auto simp: then_call_Inr)
    from K(1) [OF this(1)] L(1) [OF this(2)] show "k' = L (K k)" by simp
  next
    fix k b k' b'
    assume "then_call c2 d2 (k, b) = (Inr (), k', b')"
    then obtain k1 b1 where "c2 (k, b) = (Inr (), k1, b1)" "d2 (k1, b1) = (Inr (), k', b')" by (auto simp: then_call_Inr)
    from K(2) [OF this(1)] L(2) [OF this(2)] show "k' = L (K k)" by simp
  qed
qed

lemma splits_run_then:
  "\<lbrakk>splits_run c c1 c2; splits_run d d1 d2\<rbrakk> \<Longrightarrow> splits_run (then_call c d) (then_call c1 d1) (then_call c2 d2)"
  unfolding splits_run_def using splits_with_then by blast

lemma splits_run_check: "splits_run (check_call r) (check_call r) (check_call r)"
  unfolding splits_run_def splits_with_def by (intro exI [of _ id]) auto

lemma splits_run_no_call: "splits_run no_call no_call no_call"
  unfolding splits_run_def splits_with_def by (intro exI [of _ id]) auto

lemma splits_run_for_each:
  "(\<And>x. splits_run (f x) (f1 x) (f2 x)) \<Longrightarrow> splits_run (for_each f xs) (for_each f1 xs) (for_each f2 xs)"
  by (induction xs) (simp_all add: splits_run_then splits_run_no_call)

lemma splits_run_on_backend: "splits_call c c1 c2 \<Longrightarrow> splits_run (on_backend c) (on_backend c1) (on_backend c2)"
  unfolding splits_call_def splits_run_def splits_with_def
  by (intro exI [of _ id]) (auto simp: on_backend_Inr simp del: on_backend_apply)

abbreviation two_backends :: "'a TopologyBackend \<Rightarrow> 'b TopologyBackend \<Rightarrow> ('a \<times> 'b) TopologyBackend" where
  "two_backends t1 t2 \<equiv> MultiTopologyBackend [lift_backend lift_fst t1, lift_backend lift_snd t2]"

lemma splits_methods [splits]:
  "splits_call (EnsureVPC (two_backends t1 t2) vpc) (EnsureVPC t1 vpc) (EnsureVPC t2 vpc)"
  "splits_call (EnsureSubnet (two_backends t1 t2) subnet) (EnsureSubnet t1 subnet) (EnsureSubnet t2 subnet)"
  "splits_call (EnsureEndpoint (two_backends t1 t2) endpoint) (EnsureEndpoint t1 endpoint) (EnsureEndpoint t2 endpoint)"
  "splits_call (EnsureRouteTable (two_backends t1 t2) table) (EnsureRouteTable t1 table) (EnsureRouteTable t2 table)"
  "splits_call (EnsurePolicyRoute (two_backends t1 t2) route) (EnsurePolicyRoute t1 route) (EnsurePolicyRoute t2 route)"
  "splits_call (EnsureGateway (two_backends t1 t2) gateway) (EnsureGateway t1 gateway) (EnsureGateway t2 gateway)"
  "splits_call (EnsureNATRule (two_backends t1 t2) rule) (EnsureNATRule t1 rule) (EnsureNATRule t2 rule)"
  "splits_call (EnsureLoadBalancer (two_backends t1 t2) lb) (EnsureLoadBalancer t1 lb) (EnsureLoadBalancer t2 lb)"
  by (simp_all add: MultiTopologyBackend_def lift_backend_def Multi_EnsureVPC_def Multi_EnsureSubnet_def Multi_EnsureEndpoint_def
      Multi_EnsureRouteTable_def Multi_EnsurePolicyRoute_def Multi_EnsureGateway_def Multi_EnsureNATRule_def
      Multi_EnsureLoadBalancer_def splits_pair)

lemma splits_begin [splits]:
  "splits_call (begin_reconcile (two_backends t1 t2) state) (begin_reconcile t1 state) (begin_reconcile t2 state)"
  by (cases "lifecycle_of t1"; cases "lifecycle_of t2")
    (auto simp: begin_reconcile_def MultiTopologyBackend_def lift_backend_def Multi_BeginTopologyReconcile_def Multi_CleanupTopology_def
      splits_call_def then_call_Inr lift_fst_def lift_snd_def split: prod.splits)

lemma splits_dns [splits]:
  "splits_call
     (case dns_of (two_backends t1 t2) of None \<Rightarrow> no_call | Some sync \<Rightarrow> wrap_call fmt args (sync subnets records))
     (case dns_of t1 of None \<Rightarrow> no_call | Some sync \<Rightarrow> wrap_call fmt args (sync subnets records))
     (case dns_of t2 of None \<Rightarrow> no_call | Some sync \<Rightarrow> wrap_call fmt args (sync subnets records))"
  by (cases "dns_of t1"; cases "dns_of t2")
    (auto simp: MultiTopologyBackend_def lift_backend_def Multi_SyncDNSRecords_def
      splits_call_def then_call_Inr lift_fst_def lift_snd_def split: prod.splits)

lemma splits_networks [splits]:
  "splits_call (reconcile_networks (two_backends t1 t2) state) (reconcile_networks t1 state) (reconcile_networks t2 state)"
  unfolding reconcile_networks_def by (intro splits)

lemma splits_cleanup [splits]:
  "splits_call
     (case CleanupPolicy_of (lift_policy p) of None \<Rightarrow> no_call | Some cleanup \<Rightarrow> wrap_call fmt args (cleanup state))
     (case CleanupPolicy_of p of None \<Rightarrow> no_call | Some cleanup \<Rightarrow> wrap_call fmt args (cleanup state))
     (case CleanupPolicy_of idle_policy of None \<Rightarrow> no_call | Some cleanup \<Rightarrow> wrap_call fmt args (cleanup state))"
  by (auto simp: splits_call_def idle_policy_def lift_policy_def lift_fst_def split: prod.splits option.splits)

lemma splits_services [splits]:
  "splits_call (reconcile_services (two_backends t1 t2) (lift_policy p) state)
     (reconcile_services t1 p state) (reconcile_services t2 idle_policy state)"
  unfolding reconcile_services_def by (intro splits)

lemma splits_install:
  "splits_run (install_policy env (lift_policy p) state i e) (install_policy env p state i e) (install_policy env idle_policy state i e)"
proof -
  let ?K = "\<lambda>c. case compile_endpoint env state i e c of Inl _ \<Rightarrow> c | Inr (_, c') \<Rightarrow> c'"
  have apply_split: "backend_ApplyEndpointProgram (lift_policy p) program (a, b) = (Inr (), a', b') \<longleftrightarrow>
      backend_ApplyEndpointProgram p program a = (Inr (), a') \<and> backend_ApplyEndpointProgram idle_policy program b = (Inr (), b')"
    for program a b a' b'
    by (cases "backend_ApplyEndpointProgram p program a") (auto simp: lift_policy_def idle_policy_def lift_fst_def)
  have "splits_with ?K (install_policy env (lift_policy p) state i e) (install_policy env p state i e)
      (install_policy env idle_policy state i e)"
    unfolding splits_with_def install_policy_def
    by (auto simp: on_backend_Inr apply_split simp del: on_backend_apply split: sum.splits)
  then show ?thesis unfolding splits_run_def by blast
qed

lemma splits_endpoints:
  "splits_run (reconcile_endpoint env (two_backends t1 t2) (lift_policy p) state ie)
     (reconcile_endpoint env t1 p state ie) (reconcile_endpoint env t2 idle_policy state ie)"
  by (cases ie) (auto simp: reconcile_endpoint_def intro!: splits_run_then splits_run_on_backend splits splits_install)

text \<open>
  C15. Driving two topology backends as one does to each what driving it alone does: the run over the
  pair succeeds exactly if the run over the first with the policy backend and the run over the second
  without one succeed, and it leaves both backends and the controller in the same state.
\<close>

theorem Reconcile_MultiTopologyBackend:
  "Reconcile env (MultiTopologyBackend [lift_backend lift_fst t1, lift_backend lift_snd t2]) (lift_policy p) state (c, w1, w2) =
     (Inr (), c', w1', w2') \<longleftrightarrow>
   Reconcile env t1 p state (c, w1) = (Inr (), c', w1') \<and> Reconcile env t2 idle_policy state (c, w2) = (Inr (), c', w2')"
proof -
  have "splits_run (Reconcile env (two_backends t1 t2) (lift_policy p) state) (Reconcile env t1 p state) (Reconcile env t2 idle_policy state)"
    unfolding Reconcile_def
    by (intro splits_run_then splits_run_check splits_run_for_each splits_run_on_backend splits splits_endpoints)
  then show ?thesis by (auto simp: splits_run_def splits_with_def)
qed

end
