(* ===== verification/MemoryBackend.thy ===== *)
theory MemoryBackend
  imports Controller
begin

text \<open>
  \<open>internal/control/memory.go\<close>: the backend that keeps the topology and the policy programs in maps,
  and what \<open>Reconcile\<close> over it gives. The values of the model have no shared memory, so that the
  \<open>clone\<close> functions are the identity here. Its methods return no error.
\<close>

section \<open>The backend\<close>

record MemoryBackend =
  mem_VPCs :: "(string, VPC) gomap"
  mem_Subnets :: "(string, Subnet) gomap"
  mem_Endpoints :: "(string, Endpoint) gomap"
  mem_RouteTables :: "(string, RouteTable) gomap"
  mem_PolicyRoutes :: "PolicyRoute list"
  mem_Gateways :: "(string, Gateway) gomap"
  mem_NATRules :: "(string, NATRule) gomap"
  mem_LoadBalancers :: "(string, LoadBalancer) gomap"
  mem_PolicyProgram :: "(string, Program) gomap"

definition NewMemoryBackend :: MemoryBackend where
  "NewMemoryBackend =
     \<lparr>mem_VPCs = [], mem_Subnets = [], mem_Endpoints = [], mem_RouteTables = [], mem_PolicyRoutes = [], mem_Gateways = [],
      mem_NATRules = [], mem_LoadBalancers = [], mem_PolicyProgram = []\<rparr>"

definition Memory_EnsureVPC :: "VPC \<Rightarrow> MemoryBackend call" where
  "Memory_EnsureVPC vpc m = (Inr (), m\<lparr>mem_VPCs := AList.update (vpc_Name vpc) vpc (mem_VPCs m)\<rparr>)"

definition Memory_EnsureSubnet :: "Subnet \<Rightarrow> MemoryBackend call" where
  "Memory_EnsureSubnet subnet m =
     (Inr (), m\<lparr>mem_Subnets := AList.update (subnetKey (subnet_VPC subnet) (subnet_Name subnet)) subnet (mem_Subnets m)\<rparr>)"

definition Memory_EnsureEndpoint :: "Endpoint \<Rightarrow> MemoryBackend call" where
  "Memory_EnsureEndpoint endpoint m =
     (Inr (), m\<lparr>mem_Endpoints := AList.update (EndpointKey (ep_VPC endpoint) (ep_ID endpoint)) endpoint (mem_Endpoints m)\<rparr>)"

definition Memory_EnsureRouteTable :: "RouteTable \<Rightarrow> MemoryBackend call" where
  "Memory_EnsureRouteTable table m =
     (Inr (), m\<lparr>mem_RouteTables := AList.update (routeTableKey (table_VPC table) (table_Name table)) table (mem_RouteTables m)\<rparr>)"

definition Memory_EnsurePolicyRoute :: "PolicyRoute \<Rightarrow> MemoryBackend call" where
  "Memory_EnsurePolicyRoute route m = (Inr (), m\<lparr>mem_PolicyRoutes := mem_PolicyRoutes m @ [route]\<rparr>)"

definition Memory_EnsureGateway :: "Gateway \<Rightarrow> MemoryBackend call" where
  "Memory_EnsureGateway gateway m =
     (Inr (), m\<lparr>mem_Gateways := AList.update (gatewayKey (gw_VPC gateway) (gw_Name gateway)) gateway (mem_Gateways m)\<rparr>)"

definition Memory_EnsureNATRule :: "NATRule \<Rightarrow> MemoryBackend call" where
  "Memory_EnsureNATRule rule m =
     (Inr (), m\<lparr>mem_NATRules := AList.update (natRuleKey (nat_VPC rule) (nat_Name rule)) rule (mem_NATRules m)\<rparr>)"

definition Memory_EnsureLoadBalancer :: "LoadBalancer \<Rightarrow> MemoryBackend call" where
  "Memory_EnsureLoadBalancer lb m =
     (Inr (), m\<lparr>mem_LoadBalancers := AList.update (loadBalancerKey (lb_VPC lb) (lb_Name lb)) lb (mem_LoadBalancers m)\<rparr>)"

definition Memory_BeginTopologyReconcile :: "State \<Rightarrow> MemoryBackend call" where
  "Memory_BeginTopologyReconcile state m = (Inr (), m\<lparr>mem_PolicyRoutes := []\<rparr>)"

definition Memory_CleanupTopology :: "State \<Rightarrow> MemoryBackend call" where
  "Memory_CleanupTopology state m =
     (Inr (), m\<lparr>mem_VPCs := topo_VPCs state, mem_Subnets := topo_Subnets state, mem_Endpoints := topo_Endpoints state,
                mem_RouteTables := topo_RouteTables state, mem_Gateways := topo_Gateways state, mem_NATRules := topo_NATRules state,
                mem_LoadBalancers := topo_LoadBalancers state\<rparr>)"

definition Memory_ApplyEndpointProgram :: "Program \<Rightarrow> MemoryBackend call" where
  "Memory_ApplyEndpointProgram program m =
     (Inr (), m\<lparr>mem_PolicyProgram := AList.update (prog_EndpointID program) program (mem_PolicyProgram m)\<rparr>)"

definition Memory_CleanupPolicy :: "DesiredState \<Rightarrow> MemoryBackend call" where
  "Memory_CleanupPolicy state m =
     (let keep = map (\<lambda>e. EndpointKey (ep_VPC e) (ep_ID e)) (desired_Endpoints state)
      in (Inr (), m\<lparr>mem_PolicyProgram := filter (\<lambda>(endpointID, _). endpointID \<in> set keep) (mem_PolicyProgram m)\<rparr>))"

definition Memory_TopologyState :: "MemoryBackend \<Rightarrow> State" where
  "Memory_TopologyState m =
     \<lparr>topo_VPCs = mem_VPCs m, topo_Subnets = mem_Subnets m, topo_Endpoints = mem_Endpoints m, topo_RouteTables = mem_RouteTables m,
      topo_PolicyRoutes = mem_PolicyRoutes m, topo_Gateways = mem_Gateways m, topo_NATRules = mem_NATRules m,
      topo_LoadBalancers = mem_LoadBalancers m, topo_DNSRecords = []\<rparr>"

text \<open>The methods as the interfaces of the controller; there is none for DNS.\<close>

definition memory_topology :: "MemoryBackend TopologyBackend" where
  "memory_topology =
     \<lparr>EnsureVPC = Memory_EnsureVPC, EnsureSubnet = Memory_EnsureSubnet, EnsureEndpoint = Memory_EnsureEndpoint,
      EnsureRouteTable = Memory_EnsureRouteTable, EnsurePolicyRoute = Memory_EnsurePolicyRoute, EnsureGateway = Memory_EnsureGateway,
      EnsureNATRule = Memory_EnsureNATRule, EnsureLoadBalancer = Memory_EnsureLoadBalancer,
      lifecycle_of = Some \<lparr>BeginTopologyReconcile = Memory_BeginTopologyReconcile, CleanupTopology = Memory_CleanupTopology\<rparr>,
      dns_of = None\<rparr>"

definition memory_policy :: "MemoryBackend PolicyBackend" where
  "memory_policy = \<lparr>backend_ApplyEndpointProgram = Memory_ApplyEndpointProgram, CleanupPolicy_of = Some Memory_CleanupPolicy\<rparr>"

lemmas memory_methods =
  memory_topology_def memory_policy_def Memory_EnsureVPC_def Memory_EnsureSubnet_def Memory_EnsureEndpoint_def Memory_EnsureRouteTable_def
  Memory_EnsurePolicyRoute_def Memory_EnsureGateway_def Memory_EnsureNATRule_def Memory_EnsureLoadBalancer_def
  Memory_BeginTopologyReconcile_def Memory_CleanupTopology_def Memory_ApplyEndpointProgram_def Memory_CleanupPolicy_def


section \<open>The loops over objects that are there already\<close>

text \<open>A topology as the backend holds it after the cleanup.\<close>

definition holds_topology :: "State \<Rightarrow> MemoryBackend \<Rightarrow> bool" where
  "holds_topology s m \<longleftrightarrow>
     mem_VPCs m = topo_VPCs s \<and> mem_Subnets m = topo_Subnets s \<and> mem_Endpoints m = topo_Endpoints s \<and>
     mem_RouteTables m = topo_RouteTables s \<and> mem_Gateways m = topo_Gateways s \<and> mem_NATRules m = topo_NATRules s \<and>
     mem_LoadBalancers m = topo_LoadBalancers s"

lemma update_present: "map_of m k = Some v \<Longrightarrow> AList.update k v m = m"
  by (induction m) (auto split: if_splits)

lemma update_indexed:
  assumes "distinct (map key xs)" and "x \<in> set xs"
  shows "AList.update (key x) x (gomap_index key xs) = gomap_index key xs"
  using assms by (intro update_present) (simp add: gomap_index_distinct map_of_map_restrict comp_def map_of_eq_Some_iff image_iff)

lemma memory_ensure_stable:
  assumes "is_ok (validate_desired env state)" and "holds_topology (desiredTopologyState state) m"
  shows "v \<in> set (desired_VPCs state) \<Longrightarrow> Memory_EnsureVPC v m = (Inr (), m)"
    and "s \<in> set (desired_Subnets state) \<Longrightarrow> Memory_EnsureSubnet s m = (Inr (), m)"
    and "e \<in> set (desired_Endpoints state) \<Longrightarrow> Memory_EnsureEndpoint e m = (Inr (), m)"
    and "t \<in> set (desired_RouteTables state) \<Longrightarrow> Memory_EnsureRouteTable t m = (Inr (), m)"
    and "g \<in> set (desired_Gateways state) \<Longrightarrow> Memory_EnsureGateway g m = (Inr (), m)"
    and "r \<in> set (desired_NATRules state) \<Longrightarrow> Memory_EnsureNATRule r m = (Inr (), m)"
    and "lb \<in> set (desired_LoadBalancers state) \<Longrightarrow> Memory_EnsureLoadBalancer lb m = (Inr (), m)"
  using assms(2) accepted_names(1-7) [OF assms(1), THEN update_indexed]
  by (simp_all add: memory_methods holds_topology_def desiredTopologyState_def)

definition memory_networks :: "DesiredState \<Rightarrow> MemoryBackend \<Rightarrow> MemoryBackend" where
  "memory_networks state m =
     (snd (Memory_CleanupTopology (desiredTopologyState state) m))
       \<lparr>mem_PolicyRoutes := sort_SliceStable higher_priority (desired_PolicyRoutes state)\<rparr>"

lemma memory_policy_routes:
  "\<forall>r \<in> set rs. is_ok (PolicyRoute_Validate r) \<Longrightarrow>
   for_each (ensure_checked PolicyRoute_Validate fmt name Memory_EnsurePolicyRoute) rs m =
     (Inr (), m\<lparr>mem_PolicyRoutes := mem_PolicyRoutes m @ rs\<rparr>)"
proof (induction rs arbitrary: m)
  case (Cons r rs)
  have "ensure_checked PolicyRoute_Validate fmt name Memory_EnsurePolicyRoute r m = (Inr (), m\<lparr>mem_PolicyRoutes := mem_PolicyRoutes m @ [r]\<rparr>)"
    using Cons.prems by (simp add: ensure_checked_Inr Memory_EnsurePolicyRoute_def)
  with Cons show ?case by simp
qed simp

lemma for_each_ensured:
  assumes "\<forall>x \<in> set xs. is_ok (validate x)" and "\<And>x. x \<in> set xs \<Longrightarrow> ensure x m = (Inr (), m)"
  shows "for_each (ensure_checked validate fmt name ensure) xs m = (Inr (), m)"
  using assms by (intro for_each_stable) (simp add: ensure_checked_Inr)

lemma memory_reconcile_networks:
  assumes "is_ok (validate_desired env state)"
  shows "reconcile_networks memory_topology state m = (Inr (), memory_networks state m)"
    and "holds_topology (desiredTopologyState state) (memory_networks state m)"
proof -
  let ?m = "(snd (Memory_CleanupTopology (desiredTopologyState state) m))\<lparr>mem_PolicyRoutes := []\<rparr>"
  have holds: "holds_topology (desiredTopologyState state) ?m" "holds_topology (desiredTopologyState state) (memory_networks state m)"
    by (simp_all add: holds_topology_def memory_networks_def Memory_CleanupTopology_def)
  note stable = memory_ensure_stable [OF assms holds(1)] memory_ensure_stable [OF assms holds(2)]
  have routes: "for_each (ensure_checked PolicyRoute_Validate fmt name Memory_EnsurePolicyRoute)
      (sort_SliceStable higher_priority (desired_PolicyRoutes state)) ?m = (Inr (), memory_networks state m)" for fmt name
    using accepted_routes_valid(2) [OF assms] by (simp add: memory_policy_routes memory_networks_def)
  have cleaned: "begin_reconcile memory_topology (desiredTopologyState state) m = (Inr (), ?m)"
    by (simp add: begin_reconcile_def then_call_Inr memory_methods)
  have "for_each (ensure_checked VPC_Validate fmt name (EnsureVPC memory_topology)) (desired_VPCs state) ?m = (Inr (), ?m)"
    "for_each (ensure_checked Subnet_Validate fmt name' (EnsureSubnet memory_topology)) (desired_Subnets state) ?m = (Inr (), ?m)"
    "for_each (ensure_checked RouteTable_Validate fmt name'' (EnsureRouteTable memory_topology)) (desired_RouteTables state) ?m = (Inr (), ?m)"
    "for_each (ensure_checked Gateway_Validate fmt name''' (EnsureGateway memory_topology)) (desired_Gateways state) (memory_networks state m) =
      (Inr (), memory_networks state m)" for fmt name name' name'' name'''
    using accepted_valid [OF assms] accepted_routes_valid(1) [OF assms] stable
    by (simp_all add: for_each_ensured memory_topology_def)
  then show "reconcile_networks memory_topology state m = (Inr (), memory_networks state m)"
    unfolding reconcile_networks_def using cleaned routes by (simp add: memory_topology_def)
  show "holds_topology (desiredTopologyState state) (memory_networks state m)" by (rule holds(2))
qed

lemma memory_reconcile_services:
  assumes "is_ok (validate_desired env state)" and "holds_topology (desiredTopologyState state) m"
  shows "reconcile_services memory_topology memory_policy state m = Memory_CleanupPolicy state m"
proof -
  note stable = memory_ensure_stable [OF assms]
  have "for_each (\<lambda>rule. wrap_call fmt [nat_Name rule] (EnsureNATRule memory_topology rule)) (desired_NATRules state) m = (Inr (), m)"
    "for_each (\<lambda>lb. wrap_call fmt [lb_Name lb] (EnsureLoadBalancer memory_topology lb)) (desired_LoadBalancers state) m = (Inr (), m)" for fmt
    using stable by (auto intro!: for_each_stable simp: memory_topology_def)
  moreover have "wrap_call fmt args (Memory_CleanupPolicy state) m = Memory_CleanupPolicy state m" for fmt args
    by (simp add: wrap_call_def wrap_error_def Memory_CleanupPolicy_def Let_def)
  ultimately show ?thesis unfolding reconcile_services_def by (simp add: memory_policy_def)
qed

section \<open>The loop over the endpoints\<close>

text \<open>The program of an endpoint, compiled with no cache.\<close>

definition endpoint_program :: "surroundings \<Rightarrow> DesiredState \<Rightarrow> nat \<times> Endpoint \<Rightarrow> Program result" where
  "endpoint_program env state = (\<lambda>(i, e).
     bind_result (CompileForEndpointWithContext IdentityCache_Identity e (map_of (securityGroupsForVPC (desired_SecurityGroups state) (ep_VPC e)))
         (compile_context state None) (env_compile_now env i))
       (\<lambda>(program, _). Inr program))"

definition controller_ok :: "Controller \<Rightarrow> bool" where
  "controller_ok c \<longleftrightarrow> (\<forall>r. ctl_identityResolver c = Some r \<longrightarrow> cache_valid r)"

definition install_programs :: "Program list \<Rightarrow> MemoryBackend \<Rightarrow> MemoryBackend" where
  "install_programs ps m = m\<lparr>mem_PolicyProgram := fold (\<lambda>p. AList.update (prog_EndpointID p) p) ps (mem_PolicyProgram m)\<rparr>"

lemma install_programs_Cons [simp]:
  "install_programs [] m = m"
  "install_programs (p # ps) m = install_programs ps (snd (Memory_ApplyEndpointProgram p m))"
  by (simp_all add: install_programs_def Memory_ApplyEndpointProgram_def)

lemma endpoint_program_ID:
  assumes "endpoint_program env state (i, e) = Inr p"
  shows "prog_EndpointID p = EndpointKey (ep_VPC e) (ep_ID e)"
proof -
  from assms obtain r where
    "CompileForEndpointWithContext IdentityCache_Identity e (map_of (securityGroupsForVPC (desired_SecurityGroups state) (ep_VPC e)))
       (compile_context state None) (env_compile_now env i) = Inr (p, r)"
    by (auto simp: endpoint_program_def bind_result_Inr)
  then show ?thesis
    by (rule compiled_program) (simp_all add: compile_context_def sort_program_def extend_program_def)
qed

lemma install_policy_compiles:
  assumes "controller_ok c"
  shows "case endpoint_program env state (i, e) of
      Inl err \<Rightarrow> install_policy env policy state i e (c, w) = (Inl err, c, w)
    | Inr p \<Rightarrow> \<exists>c'. controller_ok c' \<and> install_policy env policy state i e (c, w) =
        on_backend (wrap_call ''apply policy program for endpoint %s: %w'' [ep_ID e] (backend_ApplyEndpointProgram policy p)) (c', w)"
proof -
  let ?r = "case ctl_identityResolver c of None \<Rightarrow> NewIdentityCache | Some r \<Rightarrow> r"
  have "cache_valid ?r" using assms by (auto simp: controller_ok_def split: option.splits)
  then have "case CompileForEndpointWithContext IdentityCache_Identity e (map_of (securityGroupsForVPC (desired_SecurityGroups state) (ep_VPC e)))
        (compile_context state (Some ?r)) (env_compile_now env i) of
      Inl err \<Rightarrow> endpoint_program env state (i, e) = Inl err
    | Inr (p, resolver) \<Rightarrow> endpoint_program env state (i, e) = Inr p \<and> (\<exists>c'. resolver = Some c' \<and> cache_valid c')"
    using compile_cached [of "compile_context state (Some ?r)" ?r e "map_of (securityGroupsForVPC (desired_SecurityGroups state) (ep_VPC e))"
        "env_compile_now env i"]
    by (auto simp: endpoint_program_def compile_context_def split: sum.splits)
  with assms show ?thesis
    by (auto simp: install_policy_def compile_endpoint_def controller_ok_def Let_def simp del: on_backend_apply split: sum.splits)
      (rule exI, rule conjI [rotated], rule refl, simp)
qed

lemma memory_install_policy:
  assumes "controller_ok c"
  shows "case endpoint_program env state (i, e) of
      Inl err \<Rightarrow> install_policy env memory_policy state i e (c, m) = (Inl err, c, m)
    | Inr p \<Rightarrow> \<exists>c'. controller_ok c' \<and> install_policy env memory_policy state i e (c, m) =
        (Inr (), c', snd (Memory_ApplyEndpointProgram p m))"
  using install_policy_compiles [OF assms, where policy = memory_policy and w = m and env = env and state = state and i = i and e = e]
  by (auto simp: memory_policy_def wrap_call_def wrap_error_def Memory_ApplyEndpointProgram_def split: sum.splits)

lemma memory_endpoints:
  assumes "is_ok (validate_desired env state)" and "holds_topology (desiredTopologyState state) m" and "controller_ok c"
    and "snd ` set ies \<subseteq> set (desired_Endpoints state)"
  shows "(\<exists>ps c'. list_all2 (\<lambda>ie p. endpoint_program env state ie = Inr p) ies ps \<and> controller_ok c' \<and>
            for_each (reconcile_endpoint env memory_topology memory_policy state) ies (c, m) = (Inr (), c', install_programs ps m)) \<or>
         (\<exists>ie \<in> set ies. \<exists>err w. endpoint_program env state ie = Inl err \<and>
            for_each (reconcile_endpoint env memory_topology memory_policy state) ies (c, m) = (Inl err, w))"
  using assms(2-4)
proof (induction ies arbitrary: c m)
  case (Cons ie ies)
  obtain i e where ie: "ie = (i, e)" by (cases ie)
  have e: "e \<in> set (desired_Endpoints state)" using Cons.prems(3) ie by auto
  have "on_backend (ensure_checked Endpoint_Validate ''ensure endpoint %s: %w'' ep_ID (EnsureEndpoint memory_topology) e) (c, m) = (Inr (), c, m)"
  proof -
    have "ensure_checked Endpoint_Validate ''ensure endpoint %s: %w'' ep_ID (EnsureEndpoint memory_topology) e m = (Inr (), m)"
      using memory_ensure_stable(3) [OF assms(1) Cons.prems(1) e] accepted_valid(3) [OF assms(1)] e
      by (simp add: ensure_checked_Inr memory_topology_def)
    then show ?thesis by simp
  qed
  then have step: "reconcile_endpoint env memory_topology memory_policy state ie (c, m) = install_policy env memory_policy state i e (c, m)"
    by (simp add: reconcile_endpoint_def ie)
  show ?case
  proof (cases "endpoint_program env state (i, e)")
    case (Inl err)
    with memory_install_policy [OF Cons.prems(2), of env state i e m] step show ?thesis by (auto simp: ie)
  next
    case (Inr p)
    with memory_install_policy [OF Cons.prems(2), of env state i e m] obtain c' where
      c': "controller_ok c'" "install_policy env memory_policy state i e (c, m) = (Inr (), c', snd (Memory_ApplyEndpointProgram p m))"
      by auto
    have "holds_topology (desiredTopologyState state) (snd (Memory_ApplyEndpointProgram p m))"
      using Cons.prems(1) by (simp add: holds_topology_def Memory_ApplyEndpointProgram_def)
    from Cons.IH [OF this c'(1)] Cons.prems(3) step c'(2) Inr show ?thesis
      by (auto simp: ie list_all2_Cons1)
  qed
qed simp

section \<open>A whole run\<close>

definition reconciled :: "DesiredState \<Rightarrow> Program list \<Rightarrow> MemoryBackend \<Rightarrow> MemoryBackend" where
  "reconciled state ps m = snd (Memory_CleanupPolicy state (install_programs ps (memory_networks state m)))"

lemma memory_run:
  assumes "is_ok (validate_desired env state)" and "controller_ok c"
  shows "(\<exists>ps c'. list_all2 (\<lambda>ie p. endpoint_program env state ie = Inr p) (List.enumerate 0 (desired_Endpoints state)) ps \<and>
            controller_ok c' \<and> Reconcile env memory_topology memory_policy state (c, m) = (Inr (), c', reconciled state ps m)) \<or>
         (\<exists>ie \<in> set (List.enumerate 0 (desired_Endpoints state)). \<exists>err w. endpoint_program env state ie = Inl err \<and>
            Reconcile env memory_topology memory_policy state (c, m) = (Inl err, w))"
proof -
  note networks = memory_reconcile_networks [OF assms(1), of m]
  have "check_call (validate_desired env state) (c, m) = (Inr (), c, m)" using assms(1) by simp
  then have run: "Reconcile env memory_topology memory_policy state (c, m) =
      then_call (for_each (reconcile_endpoint env memory_topology memory_policy state) (List.enumerate 0 (desired_Endpoints state)))
        (on_backend (reconcile_services memory_topology memory_policy state)) (c, memory_networks state m)"
    using networks(1) by (simp add: Reconcile_def)
  have "snd ` set (List.enumerate 0 (desired_Endpoints state)) \<subseteq> set (desired_Endpoints state)"
    by (simp add: set_map [symmetric] del: set_map)
  from memory_endpoints [OF assms(1) networks(2) assms(2) this]
  show ?thesis
  proof (elim disjE exE bexE conjE)
    fix ps c'
    assume *: "list_all2 (\<lambda>ie p. endpoint_program env state ie = Inr p) (List.enumerate 0 (desired_Endpoints state)) ps" "controller_ok c'"
      "for_each (reconcile_endpoint env memory_topology memory_policy state) (List.enumerate 0 (desired_Endpoints state)) (c, memory_networks state m) =
        (Inr (), c', install_programs ps (memory_networks state m))"
    have "holds_topology (desiredTopologyState state) (install_programs ps (memory_networks state m))"
      using networks(2) by (simp add: holds_topology_def install_programs_def)
    from memory_reconcile_services [OF assms(1) this]
    have "Reconcile env memory_topology memory_policy state (c, m) = (Inr (), c', reconciled state ps m)"
      using run *(3) by (simp add: reconciled_def Memory_CleanupPolicy_def Let_def)
    with * show ?thesis by blast
  qed (use run in auto)
qed

lemma reconciled_topology:
  "Memory_TopologyState (reconciled state ps m) =
     (desiredTopologyState state)\<lparr>topo_PolicyRoutes := sort_SliceStable higher_priority (desired_PolicyRoutes state), topo_DNSRecords := []\<rparr>"
  by (simp add: Memory_TopologyState_def reconciled_def memory_networks_def install_programs_def Memory_CleanupPolicy_def
      Memory_CleanupTopology_def desiredTopologyState_def Let_def)

lemma map_of_updates:
  assumes "distinct (map key xs)"
  shows "map_of (fold (\<lambda>x. AList.update (key x) x) xs m) k =
     (case List.find (\<lambda>x. key x = k) xs of Some x \<Rightarrow> Some x | None \<Rightarrow> map_of m k)"
  using assms
proof (induction xs arbitrary: m)
  case (Cons x xs)
  from Cons.prems have "List.find (\<lambda>y. key y = k) xs = None" if "key x = k"
    using that by (auto simp: find_None_iff image_iff)
  with Cons show ?case by (auto simp: update_conv' split: option.splits)
qed simp

lemma map_of_kept: "map_of (filter (\<lambda>(k, _). k \<in> K) m) k = (if k \<in> K then map_of m k else None)"
  by (induction m) auto

lemma find_by_key:
  assumes "distinct (map key xs)"
  shows "List.find (\<lambda>x. key x = k) xs = Some y \<longleftrightarrow> y \<in> set xs \<and> key y = k"
  using assms by (induction xs) auto

lemma reconciled_programs:
  assumes "list_all2 (\<lambda>ie p. endpoint_program env state ie = Inr p) (List.enumerate 0 (desired_Endpoints state)) ps"
    and "distinct (map (\<lambda>e. EndpointKey (ep_VPC e) (ep_ID e)) (desired_Endpoints state))"
  shows "map_of (mem_PolicyProgram (reconciled state ps m)) k = Some p \<longleftrightarrow>
    (\<exists>i < length (desired_Endpoints state). let e = desired_Endpoints state ! i in
       k = EndpointKey (ep_VPC e) (ep_ID e) \<and> endpoint_program env state (i, e) = Inr p)"
proof -
  let ?es = "desired_Endpoints state"
  let ?key = "\<lambda>e. EndpointKey (ep_VPC e) (ep_ID e)"
  have n: "length ps = length ?es" using assms(1) by (auto dest: list_all2_lengthD)
  have at: "endpoint_program env state (i, ?es ! i) = Inr (ps ! i)" if "i < length ?es" for i
    using list_all2_nthD [OF assms(1), of i] that by (simp add: nth_enumerate_eq)
  have keys: "map prog_EndpointID ps = map ?key ?es"
    by (rule nth_equalityI) (use n endpoint_program_ID [OF at] in auto)
  have "map_of (mem_PolicyProgram (reconciled state ps m)) k =
      (if k \<in> ?key ` set ?es then map_of (fold (\<lambda>p. AList.update (prog_EndpointID p) p) ps (mem_PolicyProgram (memory_networks state m))) k else None)"
    by (simp add: reconciled_def Memory_CleanupPolicy_def install_programs_def Let_def map_of_kept)
  also have "\<dots> = List.find (\<lambda>p. prog_EndpointID p = k) ps"
  proof -
    have "List.find (\<lambda>p. prog_EndpointID p = k) ps = None \<longleftrightarrow> k \<notin> ?key ` set ?es"
      using keys by (metis (mono_tags, lifting) find_None_iff image_iff set_map)
    then show ?thesis using assms(2) keys by (auto simp: map_of_updates split: option.splits)
  qed
  finally have "map_of (mem_PolicyProgram (reconciled state ps m)) k = Some p \<longleftrightarrow> p \<in> set ps \<and> prog_EndpointID p = k"
    using assms(2) keys by (simp add: find_by_key)
  also have "\<dots> \<longleftrightarrow> (\<exists>i < length ?es. k = ?key (?es ! i) \<and> endpoint_program env state (i, ?es ! i) = Inr p)"
    using n at endpoint_program_ID [OF at] by (auto simp: in_set_conv_nth)
  finally show ?thesis by (simp add: Let_def)
qed

text \<open>
  C2. Reconciling over the memory backend, from whatever state an earlier run left: a desired state
  that is rejected changes nothing; an accepted one fails only where the policy of an endpoint does
  not compile; otherwise the backend holds the topology of the desired state and no other object, its
  policy routes in order of priority, and for every endpoint, and for no other key, the program that
  compiling it gives.
\<close>

theorem Reconcile_memory:
  assumes "controller_ok c"
  shows "case Reconcile env memory_topology memory_policy state (c, m) of
      (Inl err, c', m') \<Rightarrow>
        (validate_desired env state = Inl err \<and> c' = c \<and> m' = m) \<or>
        (is_ok (validate_desired env state) \<and>
         (\<exists>i < length (desired_Endpoints state). endpoint_program env state (i, desired_Endpoints state ! i) = Inl err))
    | (Inr _, c', m') \<Rightarrow>
        is_ok (validate_desired env state) \<and> controller_ok c' \<and>
        Memory_TopologyState m' = (desiredTopologyState state)
          \<lparr>topo_PolicyRoutes := sort_SliceStable higher_priority (desired_PolicyRoutes state), topo_DNSRecords := []\<rparr> \<and>
        (\<forall>k p. map_of (mem_PolicyProgram m') k = Some p \<longleftrightarrow>
           (\<exists>i < length (desired_Endpoints state). let e = desired_Endpoints state ! i in
              k = EndpointKey (ep_VPC e) (ep_ID e) \<and> endpoint_program env state (i, e) = Inr p))"
proof (cases "validate_desired env state")
  case (Inl err)
  then have "check_call (validate_desired env state) (c, m) = (Inl err, c, m)" by (simp add: check_call_def)
  then have "Reconcile env memory_topology memory_policy state (c, m) = (Inl err, c, m)" unfolding Reconcile_def by simp
  with Inl show ?thesis by simp
next
  case (Inr u)
  then have ok: "is_ok (validate_desired env state)" by simp
  have at: "\<exists>i < length (desired_Endpoints state). ie = (i, desired_Endpoints state ! i)"
    if "ie \<in> set (List.enumerate 0 (desired_Endpoints state))" for ie
    using that by (auto simp: in_set_conv_nth nth_enumerate_eq)
  from memory_run [OF ok assms, of m] show ?thesis
  proof (elim disjE exE conjE bexE)
    fix ps c'
    assume "list_all2 (\<lambda>ie p. endpoint_program env state ie = Inr p) (List.enumerate 0 (desired_Endpoints state)) ps" "controller_ok c'"
      "Reconcile env memory_topology memory_policy state (c, m) = (Inr (), c', reconciled state ps m)"
    then show ?thesis using ok reconciled_programs [OF _ accepted_names(3) [OF ok]] by (simp add: reconciled_topology)
  next
    fix ie err w
    assume "ie \<in> set (List.enumerate 0 (desired_Endpoints state))" "endpoint_program env state ie = Inl err"
      "Reconcile env memory_topology memory_policy state (c, m) = (Inl err, w)"
    then show ?thesis using ok at [of ie] by (cases w) fastforce
  qed
qed

text \<open>The order of the policy routes and the other fields of a state that routing does not read.\<close>

lemma Resolve_sorted_routes:
  "Resolve (s\<lparr>topo_PolicyRoutes := sort_SliceStable higher_priority (topo_PolicyRoutes s), topo_DNSRecords := ds\<rparr>) packet = Resolve s packet"
proof -
  let ?s = "s\<lparr>topo_PolicyRoutes := sort_SliceStable higher_priority (topo_PolicyRoutes s), topo_DNSRecords := ds\<rparr>"
  have ends: "findEndpoint ?s = findEndpoint s" "findEndpointByIP ?s = findEndpointByIP s" "vpc_frontends ?s = vpc_frontends s"
    "applyNATAndGateway ?s = applyNATAndGateway s" "subnetContainsSource ?s = subnetContainsSource s"
    by (simp_all add: fun_eq_iff findEndpoint_def findEndpointByIP_def applyNATAndGateway_def subnetContainsSource_def vpc_frontends_def)
  then have "frontend_applies ?s = frontend_applies s"
    unfolding frontend_applies_def loadBalancerAllowsSourceSubnet_def fun_eq_iff by simp
  with ends have "resolveDNAT ?s p = resolveDNAT s p" "resolveLoadBalancer ?s p = resolveLoadBalancer s p" for p
    unfolding resolveDNAT_def resolveLoadBalancer_def by (simp_all split: option.split)
  moreover note ends
  moreover have "resolvePolicyRoute (topo_PolicyRoutes ?s) = resolvePolicyRoute (topo_PolicyRoutes s)"
    by (simp add: fun_eq_iff resolvePolicyRoute_def priority_order.sort_SliceStable_idem [OF priority_order.sorted_sort_SliceStable])
  ultimately show ?thesis unfolding Resolve_def Let_def by (simp split: option.split)
qed

lemma unambiguous_sorted_routes:
  "unambiguous (s\<lparr>topo_PolicyRoutes := rs, topo_DNSRecords := ds\<rparr>) = unambiguous s"
  by (simp add: unambiguous_def vpc_frontends_def)

text \<open>
  C11. After a successful run the backend routes every packet as the desired state does, in whatever
  order Go visits the maps that the backend hands out: the conflicts that validation rejects are all
  those on which the order could matter.
\<close>

theorem Reconcile_routes:
  assumes "controller_ok c" and "Reconcile env memory_topology memory_policy state (c, m) = (Inr (), c', m')"
    and "same_maps (Memory_TopologyState m') visited"
  shows "Resolve visited packet = Resolve (desiredTopologyState state) packet"
proof -
  have ok: "is_ok (validate_desired env state)" using assms(2) by (simp add: Reconcile_def then_call_Inr)
  with memory_run [OF ok assms(1), of m] assms(2) obtain ps where "m' = reconciled state ps m" by auto
  then have t: "Memory_TopologyState m' = (desiredTopologyState state)
      \<lparr>topo_PolicyRoutes := sort_SliceStable higher_priority (topo_PolicyRoutes (desiredTopologyState state)), topo_DNSRecords := []\<rparr>"
    by (simp add: reconciled_topology desiredTopologyState_def)
  have "unambiguous (Memory_TopologyState m')"
    using accepted_unambiguous [OF ok] by (simp add: t unambiguous_sorted_routes)
  from Resolve_perm [OF this assms(3), of packet] show ?thesis by (simp add: t Resolve_sorted_routes)
qed

section \<open>A concrete run\<close>

definition example_env :: surroundings where
  "example_env = \<lparr>env_now = \<lambda>_. 0, env_compile_now = \<lambda>_. 0, env_format_time = \<lambda>_. [],
     env_parsers = \<lparr>url_Parse = \<lambda>_. None, time_ParseRFC3339 = \<lambda>_. None\<rparr>\<rparr>"

lemma example_validated: "is_ok (validate_desired example_env example_accepted)"
proof -
  have "is_ok (validateObjectGraph (env_now example_env) (env_format_time example_env) example_accepted)"
    by (rule example_graph_ok)
  then show ?thesis
    by (simp add: validate_desired_def is_ok_first_error example_accepted_def empty_DesiredState_def validateNATRules_def
        validateLoadBalancers_def validateInboundVIPConflicts_def inbound_nats_def validatePolicyRollouts_def validateRouteTables_def
        validatePolicyRoutes_def range_check_def range_seen_def wrap_error_def)
qed

lemma example_program_compiles: "\<exists>p. endpoint_program example_env example_accepted (0, desired_Endpoints example_accepted ! 0) = Inr p"
proof -
  obtain e s where e: "desired_Endpoints example_accepted = [e]" "ep_SecurityGroups e = []" "desired_Subnets example_accepted = [s]"
    by (simp add: example_accepted_def)
  have "Endpoint_Validate e = Inr ()" "Subnet_Validate s = Inr ()"
    using accepted_valid [OF example_validated] by (simp_all add: e is_ok_Inr)
  then show ?thesis
    by (simp add: endpoint_program_def CompileForEndpointWithContext_def compile_with_def compile_index_def e compile_context_def
        indexRemoteGroupMembers_def indexEndpointSelectorMembers_def indexDNSRecords_def indexCIDRGroups_def indexServices_def
        indexSubnetsByVPC_def indexGatewayCIDRsByVPC_def appendDefaultAllowRules_def defaultDenyDisabledForDirection_def
        securityGroupsForVPC_def Let_def)
      (simp add: example_accepted_def empty_DesiredState_def)
qed

lemma example_reconciles:
  obtains c' m' where "Reconcile example_env memory_topology memory_policy example_accepted (NewController, NewMemoryBackend) = (Inr (), c', m')"
proof -
  have "controller_ok NewController" by (simp add: controller_ok_def NewController_def)
  moreover have "set (List.enumerate 0 (desired_Endpoints example_accepted)) = {(0, desired_Endpoints example_accepted ! 0)}"
    by (simp add: example_accepted_def)
  ultimately show ?thesis
    using memory_run [OF example_validated, of NewController NewMemoryBackend] example_program_compiles that by fastforce
qed

theorem Reconcile_memory_witness:
  "\<exists>c' m' p. Reconcile example_env memory_topology memory_policy example_accepted (NewController, NewMemoryBackend) = (Inr (), c', m') \<and>
     map_of (mem_PolicyProgram m') (EndpointKey ''blue'' ''vm1'') = Some p"
proof -
  obtain c' m' where run: "Reconcile example_env memory_topology memory_policy example_accepted (NewController, NewMemoryBackend) = (Inr (), c', m')"
    by (rule example_reconciles)
  have "controller_ok NewController" by (simp add: controller_ok_def NewController_def)
  from Reconcile_memory [OF this, of example_env example_accepted NewMemoryBackend] run example_program_compiles
  have "\<exists>p. map_of (mem_PolicyProgram m') (EndpointKey ''blue'' ''vm1'') = Some p"
    by (simp add: Let_def) (simp add: example_accepted_def)
  with run show ?thesis by blast
qed

theorem Reconcile_routes_witness:
  "\<exists>c' m'. Reconcile example_env memory_topology memory_policy example_accepted (NewController, NewMemoryBackend) = (Inr (), c', m') \<and>
     (\<forall>packet. Resolve (Memory_TopologyState m') packet = Resolve (desiredTopologyState example_accepted) packet)"
proof -
  obtain c' m' where run: "Reconcile example_env memory_topology memory_policy example_accepted (NewController, NewMemoryBackend) = (Inr (), c', m')"
    by (rule example_reconciles)
  have "controller_ok NewController" by (simp add: controller_ok_def NewController_def)
  moreover have "same_maps (Memory_TopologyState m') (Memory_TopologyState m')" by (simp add: same_maps_def)
  ultimately show ?thesis using Reconcile_routes [OF _ run] run by blast
qed

end
