(* ===== verification/OvnBackend.thy ===== *)
theory OvnBackend
  imports Lifecycle MemoryBackend
begin

text \<open>
  \<open>internal/ovn/backend.go\<close>: the topology backend that plans operations for OVN and hands them to an
  executor, and what reconciling over it executes. The executor is an argument with a state of its
  own; without one the operations stay in the planner. A panic of the planner ends the run and is an
  error here. The mutex makes each method one step.
\<close>

section \<open>The backend\<close>

record Backend =
  bk_planner :: Planner
  bk_last :: desiredSnapshot
  bk_lastCleanup :: CleanupStats
  bk_history :: "Operation list"
  bk_skipNAT :: "(string, string) gomap"
  bk_skipLB :: "(string, string) gomap"
  bk_skipPR :: "(string, string) gomap"
  bk_skipRT :: "(string, string) gomap"
  bk_skipEP :: "(string, string) gomap"
  bk_seen :: bool

type_synonym 'x Executor = "Operation list \<Rightarrow> 'x call"

abbreviation operationHistoryLimit :: nat where
  "operationHistoryLimit \<equiv> 4096"

definition NewBackend :: Backend where
  "NewBackend =
     \<lparr>bk_planner = NewPlanner, bk_last = empty_snapshot, bk_lastCleanup = zero_CleanupStats, bk_history = [], bk_skipNAT = [], bk_skipLB = [],
      bk_skipPR = [], bk_skipRT = [], bk_skipEP = [], bk_seen = False\<rparr>"

definition recordOperationsLocked :: "Operation list \<Rightarrow> Backend \<Rightarrow> Backend" where
  "recordOperationsLocked ops b =
     (let history = bk_history b @ ops
      in b\<lparr>bk_history := if length history > operationHistoryLimit then drop (length history - operationHistoryLimit) history else history\<rparr>)"

definition Backend_apply :: "'x Executor option \<Rightarrow> (Planner \<Rightarrow> Planner option) \<Rightarrow> (Backend \<times> 'x) call" where
  "Backend_apply executor plan = (\<lambda>(b, x).
     let before = int (OperationCount (bk_planner b)) in
     case plan (bk_planner b) of
       None \<Rightarrow> (Inl (Errorf ''panic'' []), b, x)
     | Some p \<Rightarrow>
         (let b' = b\<lparr>bk_planner := p\<rparr> in
          case executor of
            None \<Rightarrow> (Inr (), b', x)
          | Some Execute \<Rightarrow>
              (let ops = fst (OperationsSince before False p) in
               if ops = [] then (Inr (), b', x)
               else case Execute ops x of
                      (Inl e, x') \<Rightarrow> (Inl e, b', x')
                    | (Inr _, x') \<Rightarrow> (Inr (), (recordOperationsLocked ops b')\<lparr>bk_planner := snd (OperationsSince before True p)\<rparr>, x'))))"

definition RestoreTopologyState :: "State \<Rightarrow> Backend \<Rightarrow> Backend" where
  "RestoreTopologyState state b =
     (let new = snapshotDesired state
      in b\<lparr>bk_last := new, bk_skipNAT := unchangedNATRules new new, bk_skipLB := unchangedLoadBalancers new new,
           bk_skipPR := unchangedPolicyRoutes new new, bk_skipRT := unchangedRoutes new new, bk_skipEP := unchangedEndpoints new new,
           bk_seen := True, bk_lastCleanup := zero_CleanupStats,
           bk_planner := SyncLoadBalancerHealthChecks (snap_LoadBalancers new) (bk_planner b)\<rparr>)"

definition skipUnchangedNATRuleLocked :: "NATRule \<Rightarrow> Backend \<Rightarrow> bool" where
  "skipUnchangedNATRuleLocked rule b \<longleftrightarrow> map_of (bk_skipNAT b) (natRuleStateKey (nat_VPC rule) (nat_Name rule)) = Some (natRuleSignature rule)"

definition skipUnchangedLoadBalancerLocked :: "LoadBalancer \<Rightarrow> Backend \<Rightarrow> bool" where
  "skipUnchangedLoadBalancerLocked lb b \<longleftrightarrow> map_of (bk_skipLB b) (loadBalancerStateKey lb) = Some (loadBalancerSignature lb)"

definition skipUnchangedPolicyRouteLocked :: "PolicyRoute \<Rightarrow> Backend \<Rightarrow> bool" where
  "skipUnchangedPolicyRouteLocked route b \<longleftrightarrow> map_of (bk_skipPR b) (policyRouteKey route) = Some (policyRouteSignature route)"

definition skipUnchangedRouteTableLocked :: "RouteTable \<Rightarrow> Backend \<Rightarrow> bool" where
  "skipUnchangedRouteTableLocked table b \<longleftrightarrow>
     bk_skipRT b \<noteq> [] \<and> table_Routes table \<noteq> [] \<and>
     list_all (\<lambda>r. map_of (bk_skipRT b) (record_key r) = Some (routeSignature r)) (table_records table)"

definition skipUnchangedEndpointLocked :: "Endpoint \<Rightarrow> Backend \<Rightarrow> bool" where
  "skipUnchangedEndpointLocked endpoint b \<longleftrightarrow>
     map_of (bk_skipEP b) (EndpointKey (ep_VPC endpoint) (ep_ID endpoint)) =
       Some (endpointSignature endpoint (subnetForEndpoint (snap_Subnets (bk_last b)) endpoint))"

definition plan_unless :: "bool \<Rightarrow> (Planner \<Rightarrow> Planner) \<Rightarrow> Planner \<Rightarrow> Planner option" where
  "plan_unless skip plan p = Some (if skip then p else plan p)"

definition Backend_EnsureVPC :: "'x Executor option \<Rightarrow> VPC \<Rightarrow> (Backend \<times> 'x) call" where
  "Backend_EnsureVPC executor vpc = Backend_apply executor (\<lambda>p. Some (Planner_EnsureVPC vpc p))"

definition Backend_EnsureSubnet :: "'x Executor option \<Rightarrow> Subnet \<Rightarrow> (Backend \<times> 'x) call" where
  "Backend_EnsureSubnet executor subnet = Backend_apply executor (Planner_EnsureSubnet subnet)"

definition Backend_EnsureEndpoint :: "'x Executor option \<Rightarrow> Endpoint \<Rightarrow> (Backend \<times> 'x) call" where
  "Backend_EnsureEndpoint executor endpoint = (\<lambda>(b, x).
     Backend_apply executor (plan_unless (skipUnchangedEndpointLocked endpoint b) (Planner_EnsureEndpoint endpoint)) (b, x))"

definition Backend_EnsureRouteTable :: "'x Executor option \<Rightarrow> RouteTable \<Rightarrow> (Backend \<times> 'x) call" where
  "Backend_EnsureRouteTable executor table = (\<lambda>(b, x).
     Backend_apply executor (plan_unless (skipUnchangedRouteTableLocked table b) (Planner_EnsureRouteTable table)) (b, x))"

definition Backend_EnsurePolicyRoute :: "'x Executor option \<Rightarrow> PolicyRoute \<Rightarrow> (Backend \<times> 'x) call" where
  "Backend_EnsurePolicyRoute executor route = (\<lambda>(b, x).
     Backend_apply executor (plan_unless (skipUnchangedPolicyRouteLocked route b) (Planner_EnsurePolicyRoute route)) (b, x))"

definition Backend_EnsureGateway :: "'x Executor option \<Rightarrow> Gateway \<Rightarrow> (Backend \<times> 'x) call" where
  "Backend_EnsureGateway executor gateway = Backend_apply executor (\<lambda>p. Some (Planner_EnsureGateway gateway p))"

definition Backend_EnsureNATRule :: "'x Executor option \<Rightarrow> NATRule \<Rightarrow> (Backend \<times> 'x) call" where
  "Backend_EnsureNATRule executor rule = (\<lambda>(b, x).
     Backend_apply executor (plan_unless (skipUnchangedNATRuleLocked rule b) (Planner_EnsureNATRule rule)) (b, x))"

definition Backend_EnsureLoadBalancer :: "'x Executor option \<Rightarrow> LoadBalancer \<Rightarrow> (Backend \<times> 'x) call" where
  "Backend_EnsureLoadBalancer executor lb = (\<lambda>(b, x).
     Backend_apply executor (plan_unless (skipUnchangedLoadBalancerLocked lb b) (Planner_EnsureLoadBalancer lb)) (b, x))"

definition Backend_BeginTopologyReconcile :: "State \<Rightarrow> (Backend \<times> 'x) call" where
  "Backend_BeginTopologyReconcile state = (\<lambda>(b, x).
     (Inr (), b\<lparr>bk_skipNAT := [], bk_skipLB := [], bk_skipPR := [], bk_skipRT := [], bk_skipEP := []\<rparr>, x))"

definition adopt_snapshot :: "desiredSnapshot \<Rightarrow> CleanupStats \<Rightarrow> Backend \<Rightarrow> Backend" where
  "adopt_snapshot new stats b =
     b\<lparr>bk_lastCleanup := stats, bk_skipNAT := unchangedNATRules (bk_last b) new, bk_skipLB := unchangedLoadBalancers (bk_last b) new,
       bk_skipPR := unchangedPolicyRoutes (bk_last b) new, bk_skipRT := unchangedRoutes (bk_last b) new,
       bk_skipEP := unchangedEndpoints (bk_last b) new, bk_last := new, bk_seen := True,
       bk_planner := SyncLoadBalancerHealthChecks (snap_LoadBalancers new) (bk_planner b)\<rparr>"

definition Backend_CleanupTopology :: "'x Executor option \<Rightarrow> State \<Rightarrow> (Backend \<times> 'x) call" where
  "Backend_CleanupTopology executor state = (\<lambda>(b, x).
     let new = snapshotDesired state;
         ops0 = cleanupOperations (bk_last b) new;
         ops = (if bk_seen b then ops0
                else [gcStaleDHCPOptionsOperation (snap_Endpoints new) (snap_Subnets new), gcStaleNATRulesOperation (snap_NATRules new),
                      gcStalePolicyRoutesOperation (snap_PolicyRoutes new)] @ ops0);
         stats = (cleanupStats (bk_last b) new (\<not> bk_seen b) (int (length ops0)))\<lparr>cs_Operations := int (length ops)\<rparr>
     in if ops = [] then (Inr (), adopt_snapshot new stats b, x)
        else case executor of
          None \<Rightarrow> (Inr (), adopt_snapshot new stats (b\<lparr>bk_planner := plan_ops ops (bk_planner b)\<rparr>), x)
        | Some Execute \<Rightarrow>
            (case Execute ops x of
               (Inl e, x') \<Rightarrow> (Inl e, b\<lparr>bk_lastCleanup := stats\<rparr>, x')
             | (Inr _, x') \<Rightarrow> (Inr (), adopt_snapshot new stats (recordOperationsLocked ops b), x')))"

definition Backend_Operations :: "Backend \<Rightarrow> Operation list" where
  "Backend_Operations b = bk_history b @ pl_ops (bk_planner b)"

definition ovn_topology :: "'x Executor option \<Rightarrow> (Backend \<times> 'x) TopologyBackend" where
  "ovn_topology executor =
     \<lparr>EnsureVPC = Backend_EnsureVPC executor, EnsureSubnet = Backend_EnsureSubnet executor, EnsureEndpoint = Backend_EnsureEndpoint executor,
      EnsureRouteTable = Backend_EnsureRouteTable executor, EnsurePolicyRoute = Backend_EnsurePolicyRoute executor,
      EnsureGateway = Backend_EnsureGateway executor, EnsureNATRule = Backend_EnsureNATRule executor,
      EnsureLoadBalancer = Backend_EnsureLoadBalancer executor,
      lifecycle_of = Some \<lparr>BeginTopologyReconcile = Backend_BeginTopologyReconcile, CleanupTopology = Backend_CleanupTopology executor\<rparr>,
      dns_of = None\<rparr>"

text \<open>\<open>RecorderExecutor\<close> of \<open>internal/ovn/executor.go\<close>.\<close>

definition Recorder_Execute :: "(Operation list) Executor" where
  "Recorder_Execute ops recorded = (Inr (), recorded @ ops)"

section \<open>The history\<close>

lemma recordOperationsLocked_keeps:
  "bk_last (recordOperationsLocked ops b) = bk_last b" "bk_seen (recordOperationsLocked ops b) = bk_seen b"
  "bk_planner (recordOperationsLocked ops b) = bk_planner b" "bk_skipNAT (recordOperationsLocked ops b) = bk_skipNAT b"
  "bk_skipLB (recordOperationsLocked ops b) = bk_skipLB b" "bk_skipPR (recordOperationsLocked ops b) = bk_skipPR b"
  "bk_skipRT (recordOperationsLocked ops b) = bk_skipRT b" "bk_skipEP (recordOperationsLocked ops b) = bk_skipEP b"
  by (simp_all add: recordOperationsLocked_def Let_def)

lemma OperationsSince_fields [simp]:
  "pl_vpcRouters (snd (OperationsSince n d p)) = pl_vpcRouters p"
  "fst (OperationsSince (int (OperationCount p)) d (p'\<lparr>pl_ops := pl_ops p @ ops\<rparr>)) = ops"
  by (simp_all add: OperationsSince_def OperationCount_def Let_def)

section \<open>Planning\<close>

text \<open>The planner knows a router only by the name the VPC gives it.\<close>

definition routers_ok :: "Planner \<Rightarrow> bool" where
  "routers_ok p \<longleftrightarrow> (\<forall>vpc r. map_of (pl_vpcRouters p) vpc = Some r \<longrightarrow> r = logicalRouter vpc)"

definition plans :: "(Planner \<Rightarrow> Planner option) \<Rightarrow> Operation list \<Rightarrow> bool" where
  "plans plan ops \<longleftrightarrow> (\<forall>p. routers_ok p \<longrightarrow> (\<exists>p'. plan p = Some p' \<and> routers_ok p' \<and> pl_ops p' = pl_ops p @ ops))"

definition keeps_routers :: "(Planner \<Rightarrow> Planner option) \<Rightarrow> bool" where
  "keeps_routers plan \<longleftrightarrow> (\<forall>p p'. routers_ok p \<longrightarrow> plan p = Some p' \<longrightarrow> routers_ok p')"

lemma plans_keeps: "plans plan ops \<Longrightarrow> keeps_routers plan"
  by (fastforce simp: plans_def keeps_routers_def)

lemma routers_ok_more [simp]:
  "routers_ok (p\<lparr>pl_ops := ops\<rparr>) = routers_ok p" "routers_ok (p\<lparr>pl_subnets := subnets\<rparr>) = routers_ok p"
  "routers_ok (p\<lparr>pl_healthChecks := checks\<rparr>) = routers_ok p" "routers_ok (plan_ops ops p) = routers_ok p"
  "routers_ok (SyncLoadBalancerHealthChecks lbs p) = routers_ok p"
  by (simp_all add: routers_ok_def plan_ops_def SyncLoadBalancerHealthChecks_def)

lemma routers_ok_update: "routers_ok p \<Longrightarrow> routers_ok (p\<lparr>pl_vpcRouters := AList.update vpc (logicalRouter vpc) (pl_vpcRouters p)\<rparr>)"
  by (simp add: routers_ok_def update_conv)

lemma routerForVPC_ok:
  assumes "routers_ok p"
  obtains p' where "routerForVPC vpc p = (logicalRouter vpc, p')" "routers_ok p'" "pl_ops p' = pl_ops p"
proof (cases "gomap_get '''' (pl_vpcRouters p) vpc = ''''")
  case True
  with that routers_ok_update [OF assms] show ?thesis by (simp add: routerForVPC_def)
next
  case False
  moreover from False have "gomap_get '''' (pl_vpcRouters p) vpc = logicalRouter vpc"
    using assms by (auto simp: gomap_get_def routers_ok_def split: option.splits)
  ultimately show ?thesis using that [of p] assms by (simp add: routerForVPC_def)
qed

definition vpc_ops :: "VPC \<Rightarrow> Operation list" where
  "vpc_ops vpc =
     [Op ''lr-add'' [''--may-exist''] [logicalRouter (vpc_Name vpc)],
      setOperation ''logical_router'' (logicalRouter (vpc_Name vpc))
        [''external_ids:netloom_owner=netloom'', ''external_ids:netloom_vpc='' @ vpc_Name vpc]]"

lemma plans_vpc: "plans (\<lambda>p. Some (Planner_EnsureVPC vpc p)) (vpc_ops vpc)"
  by (simp add: plans_def Planner_EnsureVPC_def vpc_ops_def plan_ops_def routers_ok_update Let_def)

lemma plans_router:
  assumes "\<And>p. plan p = (case routerForVPC vpc p of (router, p') \<Rightarrow> Some (plan_ops (ops router) p'))"
  shows "plans plan (ops (logicalRouter vpc))"
  unfolding plans_def
proof (intro allI impI)
  fix p
  assume "routers_ok p"
  then show "\<exists>p'. plan p = Some p' \<and> routers_ok p' \<and> pl_ops p' = pl_ops p @ ops (logicalRouter vpc)"
    by (rule routerForVPC_ok [where vpc = vpc]) (simp add: assms, simp add: plan_ops_def)
qed

lemma plans_gateway: "plans (\<lambda>p. Some (Planner_EnsureGateway g p)) (gateway_ops (logicalRouter (gw_VPC g)) g)"
  by (rule plans_router) (simp add: Planner_EnsureGateway_def split: prod.splits)

lemma plans_route_table:
  "plans (\<lambda>p. Some (Planner_EnsureRouteTable t p)) (concat (map (route_ops (logicalRouter (table_VPC t))) (table_Routes t)))"
  by (rule plans_router) (simp add: Planner_EnsureRouteTable_def split: prod.splits)

lemma plans_policy_route: "plans (\<lambda>p. Some (Planner_EnsurePolicyRoute r p)) (policy_route_ops (logicalRouter (proute_VPC r)) r)"
  by (rule plans_router) (simp add: Planner_EnsurePolicyRoute_def split: prod.splits)

lemma plans_nat_rule: "plans (\<lambda>p. Some (Planner_EnsureNATRule r p)) (nat_rule_ops (logicalRouter (nat_VPC r)) r)"
  by (rule plans_router) (simp add: Planner_EnsureNATRule_def split: prod.splits)

lemma plans_subnet:
  assumes "subnet_ops (logicalRouter (subnet_VPC s)) s = Some ops"
  shows "plans (Planner_EnsureSubnet s) ops"
  unfolding plans_def
proof (intro allI impI)
  fix p
  assume "routers_ok p"
  then show "\<exists>p'. Planner_EnsureSubnet s p = Some p' \<and> routers_ok p' \<and> pl_ops p' = pl_ops p @ ops"
    by (rule routerForVPC_ok [where vpc = "subnet_VPC s"]) (simp add: Planner_EnsureSubnet_def assms, simp add: plan_ops_def)
qed

lemma plans_nothing: "plans Some []"
  by (simp add: plans_def)

lemma keeps_routers_subnet: "keeps_routers (Planner_EnsureSubnet s)"
  unfolding keeps_routers_def
proof (intro allI impI)
  fix p p'
  assume ok: "routers_ok p" and run: "Planner_EnsureSubnet s p = Some p'"
  from ok show "routers_ok p'"
    by (rule routerForVPC_ok [where vpc = "subnet_VPC s", of p]) (use run in \<open>auto simp: Planner_EnsureSubnet_def\<close>)
qed

lemma keeps_routers_endpoint: "keeps_routers (\<lambda>p. Some (Planner_EnsureEndpoint e p))"
  by (simp add: keeps_routers_def Planner_EnsureEndpoint_def Let_def split: option.splits)

lemma health_checks_routers: "routers_ok (snd (loadBalancerHealthCheckOperations lb m p)) = routers_ok p"
  by (simp add: loadBalancerHealthCheckOperations_def Let_def split: option.splits)

lemma keeps_routers_lb: "keeps_routers (\<lambda>p. Some (Planner_EnsureLoadBalancer lb p))"
  unfolding keeps_routers_def
proof (intro allI impI)
  fix p p'
  assume "routers_ok p" and run: "Some (Planner_EnsureLoadBalancer lb p) = Some p'"
  from \<open>routers_ok p\<close> show "routers_ok p'"
  proof (rule routerForVPC_ok [where vpc = "lb_VPC lb"])
    fix q
    assume "routerForVPC (lb_VPC lb) p = (logicalRouter (lb_VPC lb), q)" "routers_ok q"
    with run show "routers_ok p'"
      by (auto simp: Planner_EnsureLoadBalancer_def Let_def health_checks_routers split: prod.splits dest: arg_cong [of _ _ "\<lambda>x. routers_ok (snd x)"])
  qed
qed

section \<open>What a call keeps\<close>

text \<open>A call keeps \<open>I\<close> when \<open>I\<close> holds after it wherever it held before, also where the call fails.\<close>

definition keeps :: "('w \<Rightarrow> bool) \<Rightarrow> 'w call \<Rightarrow> bool" where
  "keeps I f \<longleftrightarrow> (\<forall>w. I w \<longrightarrow> I (snd (f w)))"

named_theorems keeps_intros

lemma keeps_no_call [keeps_intros]: "keeps I no_call"
  by (simp add: keeps_def)

lemma keeps_check [keeps_intros]: "keeps I (check_call r)"
  by (simp add: keeps_def check_call_def)

lemma keeps_wrap [keeps_intros]: "keeps I f \<Longrightarrow> keeps I (wrap_call fmt args f)"
  by (auto simp: keeps_def wrap_call_def split: prod.splits)

lemma keeps_then [keeps_intros]: "keeps I f \<Longrightarrow> keeps I g \<Longrightarrow> keeps I (then_call f g)"
  by (auto simp: keeps_def then_call_def split: prod.splits sum.splits)

lemma keeps_for_each [keeps_intros]: "(\<And>x. keeps I (f x)) \<Longrightarrow> keeps I (for_each f xs)"
  by (induction xs) (simp_all add: keeps_intros)

lemma keeps_ensure [keeps_intros]: "keeps I (ensure x) \<Longrightarrow> keeps I (ensure_checked validate fmt name ensure x)"
  by (simp add: ensure_checked_def keeps_intros)

lemma keeps_on_backend [keeps_intros]: "keeps I f \<Longrightarrow> keeps (\<lambda>(c, w). controller_ok c \<and> I w) (on_backend f)"
  by (auto simp: keeps_def on_backend_def split: prod.splits)

lemma keeps_install [keeps_intros]: "keeps (\<lambda>(c, w). controller_ok c \<and> I w) (install_policy env idle_policy state i e)"
  unfolding keeps_def
proof (clarify, intro conjI)
  fix c w c' w'
  assume c: "controller_ok c" "I w" and run: "snd (install_policy env idle_policy state i e (c, w)) = (c', w')"
  then have "controller_ok c' \<and> w' = w"
    using install_policy_compiles [OF c(1), where policy = idle_policy and w = w and env = env and state = state and i = i and e = e]
    by (auto simp: idle_policy_def wrap_call_def no_call_def split: sum.splits prod.splits)
  with c show "controller_ok c'" "I w'" by simp_all
qed

lemma then_call_keeps:
  assumes "fst (f w) = Inr ()" and "I (snd (f w))" and "keeps I g"
  shows "I (snd (then_call f g w))"
  using assms by (auto simp: then_call_def keeps_def split: prod.splits)

text \<open>A topology backend whose methods keep \<open>I\<close>, and what a whole run then keeps.\<close>

locale keeping_backend =
  fixes topology :: "'w TopologyBackend" and I :: "'w \<Rightarrow> bool"
  assumes ensure_keeps: "keeps I (EnsureVPC topology v)" "keeps I (EnsureSubnet topology sn)" "keeps I (EnsureEndpoint topology e)"
      "keeps I (EnsureRouteTable topology t)" "keeps I (EnsurePolicyRoute topology pr)" "keeps I (EnsureGateway topology g)"
      "keeps I (EnsureNATRule topology r)" "keeps I (EnsureLoadBalancer topology lb)"
    and dns_keeps: "dns_of topology = Some SyncDNSRecords \<Longrightarrow> keeps I (SyncDNSRecords subnets records)"
begin

lemma endpoint_keeps: "keeps (\<lambda>(c, w). controller_ok c \<and> I w) (reconcile_endpoint env topology idle_policy state ie)"
  by (cases ie) (simp add: reconcile_endpoint_def keeps_intros ensure_keeps)

lemma services_keep: "keeps I (reconcile_services topology idle_policy state)"
  by (simp add: reconcile_services_def idle_policy_def keeps_intros ensure_keeps)

lemma networks_keep:
  assumes "fst (begin_reconcile topology (desiredTopologyState state) w) = Inr ()" and "I (snd (begin_reconcile topology (desiredTopologyState state) w))"
  shows "I (snd (reconcile_networks topology state w))"
  unfolding reconcile_networks_def
  by (rule then_call_keeps [where I = I], fact assms(1), fact assms(2)) (simp add: keeps_intros ensure_keeps dns_keeps split: option.split)

lemma run_keeps:
  assumes "is_ok (validate_desired env state)" and "controller_ok c"
    and "fst (begin_reconcile topology (desiredTopologyState state) w) = Inr ()" and "I (snd (begin_reconcile topology (desiredTopologyState state) w))"
    and "Reconcile env topology idle_policy state (c, w) = (r, c', w')"
  shows "controller_ok c' \<and> I w'"
proof -
  let ?I = "\<lambda>(c, w). controller_ok c \<and> I w"
  let ?rest = "then_call (for_each (reconcile_endpoint env topology idle_policy state) (List.enumerate 0 (desired_Endpoints state)))
    (on_backend (reconcile_services topology idle_policy state))"
  have rest: "keeps ?I ?rest" by (intro keeps_intros endpoint_keeps services_keep)
  have run: "Reconcile env topology idle_policy state (c, w) = then_call (on_backend (reconcile_networks topology state)) ?rest (c, w)"
    using assms(1) by (simp add: Reconcile_def)
  obtain q v where q: "reconcile_networks topology state w = (q, v)" by (cases "reconcile_networks topology state w")
  with networks_keep [OF assms(3,4)] assms(2) have I: "?I (c, v)" by simp
  have "?I (snd (Reconcile env topology idle_policy state (c, w)))"
  proof (cases q)
    case (Inl e)
    with q I show ?thesis by (simp add: run)
  next
    case (Inr u)
    with q I show ?thesis unfolding run by (intro then_call_keeps [where I = ?I] rest) simp_all
  qed
  with assms(5) show ?thesis by simp
qed

end

text \<open>What a run over the backend never forgets: the snapshot it adopted.\<close>

definition adopted :: "desiredSnapshot \<Rightarrow> Backend \<times> 'x \<Rightarrow> bool" where
  "adopted s = (\<lambda>(b, x). bk_last b = s \<and> bk_seen b \<and> routers_ok (bk_planner b))"

lemma keeps_apply:
  assumes "keeps_routers plan"
  shows "keeps (adopted s) (Backend_apply executor plan)"
  unfolding keeps_def adopted_def
  using assms
  by (auto simp: Backend_apply_def Let_def recordOperationsLocked_keeps keeps_routers_def OperationsSince_def split: option.splits prod.splits sum.splits)

lemma keeps_plan_unless:
  assumes "\<And>p. routers_ok p \<Longrightarrow> routers_ok (plan p)"
  shows "keeps_routers (plan_unless skip plan)"
  using assms by (auto simp: keeps_routers_def plan_unless_def)

lemma keeps_skipping:
  assumes "keeps_routers (\<lambda>p. Some (plan p))"
  shows "keeps (adopted s) (\<lambda>(b, x). Backend_apply executor (plan_unless (skip b) plan) (b, x))"
proof -
  have "keeps (adopted s) (Backend_apply executor (plan_unless sk plan))" for sk
    by (rule keeps_apply, rule keeps_plan_unless) (use assms in \<open>simp add: keeps_routers_def\<close>)
  then show ?thesis by (auto simp: keeps_def)
qed

lemma keeps_methods [keeps_intros]:
  "keeps (adopted s) (Backend_EnsureVPC executor v)" "keeps (adopted s) (Backend_EnsureSubnet executor sn)"
  "keeps (adopted s) (Backend_EnsureEndpoint executor e)" "keeps (adopted s) (Backend_EnsureRouteTable executor t)"
  "keeps (adopted s) (Backend_EnsurePolicyRoute executor pr)" "keeps (adopted s) (Backend_EnsureGateway executor g)"
  "keeps (adopted s) (Backend_EnsureNATRule executor r)" "keeps (adopted s) (Backend_EnsureLoadBalancer executor lb)"
  by (simp_all add: Backend_EnsureVPC_def Backend_EnsureSubnet_def Backend_EnsureEndpoint_def Backend_EnsureRouteTable_def
      Backend_EnsurePolicyRoute_def Backend_EnsureGateway_def Backend_EnsureNATRule_def Backend_EnsureLoadBalancer_def
      keeps_apply keeps_skipping keeps_routers_subnet keeps_routers_endpoint keeps_routers_lb
      plans_keeps [OF plans_vpc] plans_keeps [OF plans_gateway] plans_keeps [OF plans_route_table] plans_keeps [OF plans_policy_route]
      plans_keeps [OF plans_nat_rule])

section \<open>What a call executes\<close>

text \<open>A call that succeeds, keeps \<open>I\<close> and hands exactly \<open>ops\<close> to the executor.\<close>

definition executes :: "(Backend \<Rightarrow> bool) \<Rightarrow> (Backend \<times> Operation list) call \<Rightarrow> Operation list \<Rightarrow> bool" where
  "executes I f ops \<longleftrightarrow> (\<forall>b xs. I b \<longrightarrow> (\<exists>b'. I b' \<and> f (b, xs) = (Inr (), b', xs @ ops)))"

lemma executes_no_call: "executes I no_call []"
  by (simp add: executes_def)

lemma executes_wrap: "executes I f ops \<Longrightarrow> executes I (wrap_call fmt args f) ops"
  by (simp add: executes_def)

lemma executes_then:
  assumes "executes I f ops" and "executes I g ops'"
  shows "executes I (then_call f g) (ops @ ops')"
  unfolding executes_def
proof (intro allI impI)
  fix b xs
  assume "I b"
  with assms(1) obtain b' where "I b'" "f (b, xs) = (Inr (), b', xs @ ops)" unfolding executes_def by blast
  moreover from this(1) assms(2) obtain b'' where "I b''" "g (b', xs @ ops) = (Inr (), b'', (xs @ ops) @ ops')" unfolding executes_def by blast
  ultimately show "\<exists>b'. I b' \<and> then_call f g (b, xs) = (Inr (), b', xs @ ops @ ops')" by simp
qed

lemma executes_after:
  assumes "executes I g ops" and "f (b, xs) = (Inr (), c, xs)" and "I c"
  shows "\<exists>b'. I b' \<and> then_call f g (b, xs) = (Inr (), b', xs @ ops)"
  using assms unfolding executes_def by simp

lemma executes_for_each:
  assumes "\<And>x. x \<in> set xs \<Longrightarrow> executes I (f x) (g x)"
  shows "executes I (for_each f xs) (concat (map g xs))"
  using assms by (induction xs) (simp_all add: executes_no_call executes_then)

lemma executes_ensure: "is_ok (validate x) \<Longrightarrow> executes I (ensure x) ops \<Longrightarrow> executes I (ensure_checked validate fmt name ensure x) ops"
  by (simp add: executes_def ensure_checked_Inr)

section \<open>A backend that has adopted the desired state\<close>

definition settled :: "desiredSnapshot \<Rightarrow> Backend \<Rightarrow> bool" where
  "settled s b \<longleftrightarrow>
     bk_last b = s \<and> bk_seen b \<and> routers_ok (bk_planner b) \<and> bk_skipNAT b = unchangedNATRules s s \<and> bk_skipLB b = unchangedLoadBalancers s s \<and>
     bk_skipPR b = unchangedPolicyRoutes s s \<and> bk_skipRT b = unchangedRoutes s s \<and> bk_skipEP b = unchangedEndpoints s s"

lemma executes_apply:
  assumes "plans plan ops"
  shows "executes (settled s) (Backend_apply (Some Recorder_Execute) plan) ops"
  unfolding executes_def
proof (intro allI impI)
  fix b xs
  assume b: "settled s b"
  then obtain p where p: "plan (bk_planner b) = Some p" "routers_ok p" "pl_ops p = pl_ops (bk_planner b) @ ops"
    using assms unfolding plans_def settled_def by blast
  then have since: "OperationsSince (int (OperationCount (bk_planner b))) d p = (ops, if d then p\<lparr>pl_ops := pl_ops (bk_planner b)\<rparr> else p)" for d
    by (simp add: OperationsSince_def OperationCount_def Let_def)
  show "\<exists>b'. settled s b' \<and> Backend_apply (Some Recorder_Execute) plan (b, xs) = (Inr (), b', xs @ ops)"
    using b p by (auto simp: Backend_apply_def since Recorder_Execute_def Let_def settled_def recordOperationsLocked_keeps)
qed

lemma executes_skipping:
  assumes "\<And>b. settled s b \<Longrightarrow> skip b \<or> plans (\<lambda>p. Some (plan p)) []"
  shows "executes (settled s) (\<lambda>(b, x). Backend_apply (Some Recorder_Execute) (plan_unless (skip b) plan) (b, x)) []"
  unfolding executes_def
proof (intro allI impI)
  fix b xs
  assume b: "settled s b"
  have "plans (plan_unless (skip b) plan) []"
    using assms [OF b] plans_nothing by (cases "skip b") (simp_all add: plan_unless_def [abs_def])
  from executes_apply [OF this] b
  show "\<exists>b'. settled s b' \<and> (\<lambda>(b, x). Backend_apply (Some Recorder_Execute) (plan_unless (skip b) plan) (b, x)) (b, xs) = (Inr (), b', xs @ [])"
    unfolding executes_def by simp
qed

lemma begin_settles:
  assumes "adopted (snapshotDesired t) (b, xs)"
  shows "\<exists>b'. settled (snapshotDesired t) b' \<and> begin_reconcile (ovn_topology (Some Recorder_Execute)) t (b, xs) = (Inr (), b', xs)"
proof -
  let ?b = "b\<lparr>bk_skipNAT := [], bk_skipLB := [], bk_skipPR := [], bk_skipRT := [], bk_skipEP := []\<rparr>"
  obtain stats where "Backend_CleanupTopology (Some Recorder_Execute) t (?b, xs) = (Inr (), adopt_snapshot (snapshotDesired t) stats ?b, xs)"
    using assms by (simp add: Backend_CleanupTopology_def adopted_def cleanupOperations_self Let_def)
  moreover have "settled (snapshotDesired t) (adopt_snapshot (snapshotDesired t) stats ?b)"
    using assms by (simp add: settled_def adopted_def adopt_snapshot_def)
  ultimately show ?thesis
    by (simp add: begin_reconcile_def ovn_topology_def then_call_Inr Backend_BeginTopologyReconcile_def)
qed

section \<open>What is skipped\<close>

lemma gomap_index_lookup: "distinct (map key xs) \<Longrightarrow> x \<in> set xs \<Longrightarrow> map_of (gomap_index key xs) (key x) = Some x"
  by (simp add: gomap_index_distinct o_def)

lemma accepted_policy_route_names:
  assumes "is_ok (validate_desired env state)"
  shows "distinct (map policyRouteKey (desired_PolicyRoutes state))"
proof -
  from validate_desired_ok(5) [OF assms] obtain s where routes: "fold_result check_policy_route (desired_PolicyRoutes state) ([], []) = Inr s"
    by (cases "fold_result check_policy_route (desired_PolicyRoutes state) ([], [])") (simp_all add: validatePolicyRoutes_def)
  have "set (fst s) = set (map policyRouteKey (desired_PolicyRoutes state)) \<and> distinct (map policyRouteKey (desired_PolicyRoutes state))"
    by (rule fold_result_history [where I = "\<lambda>rs s. set (fst s) = set (map policyRouteKey rs) \<and> distinct (map policyRouteKey rs)", OF routes])
      (auto simp: check_policy_route_def policyRouteKey_def bind_result_Inr Let_def split: prod.splits if_splits option.splits)
  then show ?thesis by blast
qed

definition all_records :: "DesiredState \<Rightarrow> routeRecord list" where
  "all_records state = concat (map table_records (desired_RouteTables state))"

text \<open>The validation of route tables and the snapshot use the same keys for routes.\<close>

lemma accepted_record_keys:
  assumes "is_ok (validate_desired env state)"
  shows "distinct (map record_key (all_records state))"
proof -
  have "map record_key (all_records state) = concat (map (\<lambda>t. map (destination_key t) (table_Routes t)) (desired_RouteTables state))"
    by (simp add: all_records_def table_records_def record_key_def routeKey_def destination_key_def [abs_def] map_concat o_def)
  with validateRouteTables_keys [OF validate_desired_ok(4) [OF assms]] show ?thesis by simp
qed

lemma snapshot_lookup:
  assumes "is_ok (validate_desired env state)"
  shows "e \<in> set (desired_Endpoints state) \<Longrightarrow>
      map_of (snap_Endpoints (snapshotDesired (desiredTopologyState state))) (EndpointKey (ep_VPC e) (ep_ID e)) = Some e"
    and "r \<in> set (desired_NATRules state) \<Longrightarrow>
      map_of (snap_NATRules (snapshotDesired (desiredTopologyState state))) (natRuleStateKey (nat_VPC r) (nat_Name r)) = Some r"
    and "lb \<in> set (desired_LoadBalancers state) \<Longrightarrow>
      map_of (snap_LoadBalancers (snapshotDesired (desiredTopologyState state))) (loadBalancerStateKey lb) = Some lb"
    and "p \<in> set (desired_PolicyRoutes state) \<Longrightarrow>
      map_of (snap_PolicyRoutes (snapshotDesired (desiredTopologyState state))) (policyRouteKey p) =
        Some \<lparr>pr_Route = p, pr_Match = policyRouteMatch (proute_Match p)\<rparr>"
    and "distinct (map record_key (all_records state)) \<Longrightarrow> rr \<in> set (all_records state) \<Longrightarrow>
      map_of (snap_Routes (snapshotDesired (desiredTopologyState state))) (record_key rr) = Some rr"
proof -
  note names = accepted_names [OF assms]
  have same: "natRuleStateKey = natRuleKey" "loadBalancerStateKey = (\<lambda>lb. loadBalancerKey (lb_VPC lb) (lb_Name lb))"
    by (simp_all add: fun_eq_iff natRuleStateKey_def natRuleKey_def loadBalancerStateKey_def loadBalancerKey_def)
  show "map_of (snap_Endpoints (snapshotDesired (desiredTopologyState state))) (EndpointKey (ep_VPC e) (ep_ID e)) = Some e"
    if "e \<in> set (desired_Endpoints state)"
    using gomap_index_lookup [OF names(3) that] by (simp add: snapshotDesired_def desiredTopologyState_def gomap_index_distinct [OF names(3)] o_def)
  show "map_of (snap_NATRules (snapshotDesired (desiredTopologyState state))) (natRuleStateKey (nat_VPC r) (nat_Name r)) = Some r"
    if "r \<in> set (desired_NATRules state)"
    using gomap_index_lookup [OF names(6) that] by (simp add: snapshotDesired_def desiredTopologyState_def gomap_index_distinct [OF names(6)] o_def same)
  show "map_of (snap_LoadBalancers (snapshotDesired (desiredTopologyState state))) (loadBalancerStateKey lb) = Some lb"
    if "lb \<in> set (desired_LoadBalancers state)"
    using gomap_index_lookup [OF names(7) that] by (simp add: snapshotDesired_def desiredTopologyState_def gomap_index_distinct [OF names(7)] o_def same)
  show "map_of (snap_PolicyRoutes (snapshotDesired (desiredTopologyState state))) (policyRouteKey p) =
      Some \<lparr>pr_Route = p, pr_Match = policyRouteMatch (proute_Match p)\<rparr>"
    if "p \<in> set (desired_PolicyRoutes state)"
  proof -
    let ?rs = "map (\<lambda>route. \<lparr>pr_Route = route, pr_Match = policyRouteMatch (proute_Match route)\<rparr>) (desired_PolicyRoutes state)"
    have "distinct (map (\<lambda>r. policyRouteKey (pr_Route r)) ?rs)"
      using accepted_policy_route_names [OF assms] by (simp add: o_def)
    from gomap_index_lookup [OF this, of "\<lparr>pr_Route = p, pr_Match = policyRouteMatch (proute_Match p)\<rparr>"] that
    show ?thesis by (simp add: snapshotDesired_def desiredTopologyState_def)
  qed
  show "map_of (snap_Routes (snapshotDesired (desiredTopologyState state))) (record_key rr) = Some rr"
    if "distinct (map record_key (all_records state))" "rr \<in> set (all_records state)"
    using gomap_index_lookup [OF that] by (simp add: snapshotDesired_def desiredTopologyState_def gomap_index_distinct [OF names(5)] all_records_def o_def)
qed

lemma ensure_nothing:
  fixes state
  defines "s \<equiv> snapshotDesired (desiredTopologyState state)"
  assumes "is_ok (validate_desired env state)"
  shows "r \<in> set (desired_NATRules state) \<Longrightarrow> executes (settled s) (Backend_EnsureNATRule (Some Recorder_Execute) r) []"
    and "lb \<in> set (desired_LoadBalancers state) \<Longrightarrow> executes (settled s) (Backend_EnsureLoadBalancer (Some Recorder_Execute) lb) []"
    and "p \<in> set (desired_PolicyRoutes state) \<Longrightarrow> executes (settled s) (Backend_EnsurePolicyRoute (Some Recorder_Execute) p) []"
    and "e \<in> set (desired_Endpoints state) \<Longrightarrow> executes (settled s) (Backend_EnsureEndpoint (Some Recorder_Execute) e) []"
  unfolding Backend_EnsureNATRule_def Backend_EnsureLoadBalancer_def Backend_EnsurePolicyRoute_def Backend_EnsureEndpoint_def s_def
  by (auto intro!: executes_skipping simp: skipUnchangedNATRuleLocked_def skipUnchangedLoadBalancerLocked_def skipUnchangedPolicyRouteLocked_def
      skipUnchangedEndpointLocked_def settled_def unchanged_self snapshot_lookup [OF assms(2)])

lemma ensure_route_table_nothing:
  fixes state
  defines "s \<equiv> snapshotDesired (desiredTopologyState state)"
  assumes "is_ok (validate_desired env state)" and "distinct (map record_key (all_records state))" and "t \<in> set (desired_RouteTables state)"
  shows "executes (settled s) (Backend_EnsureRouteTable (Some Recorder_Execute) t) []"
  unfolding Backend_EnsureRouteTable_def
proof (rule executes_skipping)
  fix b
  assume b: "settled s b"
  show "skipUnchangedRouteTableLocked t b \<or> plans (\<lambda>p. Some (Planner_EnsureRouteTable t p)) []"
  proof (cases "table_Routes t = []")
    case True
    with plans_route_table [of t] show ?thesis by simp
  next
    case False
    have known: "map_of (bk_skipRT b) (record_key r) = Some (routeSignature r)" if "r \<in> set (table_records t)" for r
    proof -
      from that assms(4) have "r \<in> set (all_records state)" by (auto simp: all_records_def)
      from snapshot_lookup(5) [OF assms(2,3) this] b show ?thesis by (simp add: settled_def unchanged_self s_def)
    qed
    moreover from False obtain r where "r \<in> set (table_records t)" by (cases "table_Routes t") (auto simp: table_records_def)
    with known have "bk_skipRT b \<noteq> []" by fastforce
    ultimately show ?thesis using False by (simp add: skipUnchangedRouteTableLocked_def list_all_iff)
  qed
qed

section \<open>A second run\<close>

text \<open>The operations every run executes: those of the VPCs, the subnets and the gateways.\<close>

definition standing_ops :: "DesiredState \<Rightarrow> Operation list" where
  "standing_ops state =
     concat (map vpc_ops (desired_VPCs state)) @
     concat (map (\<lambda>s. the (subnet_ops (logicalRouter (subnet_VPC s)) s)) (desired_Subnets state)) @
     concat (map (\<lambda>g. gateway_ops (logicalRouter (gw_VPC g)) g) (desired_Gateways state))"

definition subnets_planned :: "DesiredState \<Rightarrow> bool" where
  "subnets_planned state \<longleftrightarrow> list_all (\<lambda>s. subnet_ops (logicalRouter (subnet_VPC s)) s \<noteq> None) (desired_Subnets state)"

lemma executes_nothing_each: "(\<And>x. x \<in> set xs \<Longrightarrow> executes I (f x) []) \<Longrightarrow> executes I (for_each f xs) []"
  using executes_for_each [of xs I f "\<lambda>_. []"] by (simp add: concat_eq_Nil_conv map_replicate_const)

lemma networks_executes:
  fixes state
  defines "s \<equiv> snapshotDesired (desiredTopologyState state)"
  assumes ok: "is_ok (validate_desired env state)" and "distinct (map record_key (all_records state))" and "subnets_planned state"
    and "adopted s (b, xs)"
  shows "\<exists>b'. settled s b' \<and>
    reconcile_networks (ovn_topology (Some Recorder_Execute)) state (b, xs) = (Inr (), b', xs @ standing_ops state)"
proof -
  let ?t = "ovn_topology (Some Recorder_Execute)"
  note valid = accepted_valid [OF ok] accepted_routes_valid [OF ok]
  have vpcs: "executes (settled s) (for_each (ensure_checked VPC_Validate ''ensure vpc %s: %w'' vpc_Name (EnsureVPC ?t)) (desired_VPCs state))
      (concat (map vpc_ops (desired_VPCs state)))"
    using valid(1) by (intro executes_for_each executes_ensure) (simp_all add: ovn_topology_def Backend_EnsureVPC_def executes_apply plans_vpc)
  have subnets: "executes (settled s) (for_each (ensure_checked Subnet_Validate ''ensure subnet %s: %w'' subnet_Name (EnsureSubnet ?t)) (desired_Subnets state))
      (concat (map (\<lambda>s. the (subnet_ops (logicalRouter (subnet_VPC s)) s)) (desired_Subnets state)))"
    using valid(2) assms(4) by (intro executes_for_each executes_ensure)
      (auto simp: ovn_topology_def Backend_EnsureSubnet_def subnets_planned_def list_all_iff intro!: executes_apply plans_subnet)
  have tables: "executes (settled s)
      (for_each (ensure_checked RouteTable_Validate ''ensure route table %s: %w'' table_Name (EnsureRouteTable ?t)) (desired_RouteTables state)) []"
    using valid(5) ensure_route_table_nothing [OF ok assms(3)]
    by (intro executes_nothing_each executes_ensure) (simp_all add: ovn_topology_def s_def)
  have policies: "executes (settled s)
      (for_each (ensure_checked PolicyRoute_Validate ''ensure policy route %s: %w'' proute_Name (EnsurePolicyRoute ?t))
        (sort_SliceStable higher_priority (desired_PolicyRoutes state))) []"
    using valid(6) ensure_nothing(3) [OF ok]
    by (intro executes_nothing_each executes_ensure) (simp_all add: ovn_topology_def s_def)
  have gateways: "executes (settled s) (for_each (ensure_checked Gateway_Validate ''ensure gateway %s: %w'' gw_Name (EnsureGateway ?t)) (desired_Gateways state))
      (concat (map (\<lambda>g. gateway_ops (logicalRouter (gw_VPC g)) g) (desired_Gateways state)))"
    using valid(4) by (intro executes_for_each executes_ensure) (simp_all add: ovn_topology_def Backend_EnsureGateway_def executes_apply plans_gateway)
  have dns: "executes (settled s) (case dns_of ?t of None \<Rightarrow> no_call
      | Some SyncDNSRecords \<Rightarrow> wrap_call ''sync dns records: %w'' [] (SyncDNSRecords (desired_Subnets state) (desired_DNSRecords state))) []"
    by (simp add: ovn_topology_def executes_no_call)
  obtain b1 where b1: "settled s b1" "begin_reconcile ?t (desiredTopologyState state) (b, xs) = (Inr (), b1, xs)"
    using begin_settles assms(5) unfolding s_def by blast
  have "\<exists>b'. settled s b' \<and> reconcile_networks ?t state (b, xs) = (Inr (), b', xs @
      (concat (map vpc_ops (desired_VPCs state)) @ concat (map (\<lambda>s. the (subnet_ops (logicalRouter (subnet_VPC s)) s)) (desired_Subnets state)) @
       [] @ [] @ [] @ concat (map (\<lambda>g. gateway_ops (logicalRouter (gw_VPC g)) g) (desired_Gateways state))))"
    unfolding reconcile_networks_def
    by (rule executes_after [where f = "begin_reconcile ?t (desiredTopologyState state)" and I = "settled s" and c = b1], intro executes_then)
      (fact vpcs subnets dns tables policies gateways b1)+
  then show ?thesis by (simp add: standing_ops_def)
qed

lemma endpoints_executes:
  fixes state
  defines "s \<equiv> snapshotDesired (desiredTopologyState state)"
  assumes ok: "is_ok (validate_desired env state)" and "snd ` set ies \<subseteq> set (desired_Endpoints state)"
    and "\<forall>ie \<in> set ies. is_ok (endpoint_program env state ie)" and "controller_ok c" and "settled s b"
  shows "\<exists>c' b'. controller_ok c' \<and> settled s b' \<and>
    for_each (reconcile_endpoint env (ovn_topology (Some Recorder_Execute)) idle_policy state) ies (c, b, xs) = (Inr (), c', b', xs)"
  using assms(3-6)
proof (induction ies arbitrary: c b)
  case (Cons ie ies)
  obtain i e where ie: "ie = (i, e)" by (cases ie)
  with Cons.prems have e: "e \<in> set (desired_Endpoints state)" by auto
  have "executes (settled s) (ensure_checked Endpoint_Validate ''ensure endpoint %s: %w'' ep_ID (EnsureEndpoint (ovn_topology (Some Recorder_Execute))) e) []"
    using accepted_valid(3) [OF ok] e ensure_nothing(4) [OF ok e] by (intro executes_ensure) (simp_all add: ovn_topology_def s_def)
  with Cons.prems(4) obtain b1 where b1: "settled s b1"
    "ensure_checked Endpoint_Validate ''ensure endpoint %s: %w'' ep_ID (EnsureEndpoint (ovn_topology (Some Recorder_Execute))) e (b, xs) = (Inr (), b1, xs)"
    unfolding executes_def by fastforce
  from Cons.prems(2) ie obtain p where "endpoint_program env state (i, e) = Inr p" by (auto simp: is_ok_Inr)
  with install_policy_compiles [OF Cons.prems(3), where policy = idle_policy and w = "(b1, xs)" and env = env and state = state and i = i and e = e]
  obtain c1 where c1: "controller_ok c1" "install_policy env idle_policy state i e (c, b1, xs) = (Inr (), c1, b1, xs)"
    by (auto simp: idle_policy_def wrap_call_def wrap_error_def no_call_def)
  have "reconcile_endpoint env (ovn_topology (Some Recorder_Execute)) idle_policy state ie (c, b, xs) = (Inr (), c1, b1, xs)"
    using b1(2) c1(2) by (simp add: reconcile_endpoint_def ie then_call_Inr)
  with Cons.IH [OF _ _ c1(1) b1(1)] Cons.prems show ?case by simp
qed auto

lemma services_executes:
  fixes state
  defines "s \<equiv> snapshotDesired (desiredTopologyState state)"
  assumes ok: "is_ok (validate_desired env state)"
  shows "executes (settled s) (reconcile_services (ovn_topology (Some Recorder_Execute)) idle_policy state) []"
proof -
  let ?t = "ovn_topology (Some Recorder_Execute)"
  have nats: "executes (settled s) (for_each (\<lambda>rule. wrap_call ''ensure nat rule %s: %w'' [nat_Name rule] (EnsureNATRule ?t rule)) (desired_NATRules state)) []"
    using ensure_nothing(1) [OF ok] by (intro executes_nothing_each executes_wrap) (simp add: ovn_topology_def s_def)
  have lbs: "executes (settled s) (for_each (\<lambda>lb. wrap_call ''ensure load balancer %s: %w'' [lb_Name lb] (EnsureLoadBalancer ?t lb)) (desired_LoadBalancers state)) []"
    using ensure_nothing(2) [OF ok] by (intro executes_nothing_each executes_wrap) (simp add: ovn_topology_def s_def)
  have "executes (settled s) (case CleanupPolicy_of idle_policy of None \<Rightarrow> no_call
      | Some CleanupPolicy \<Rightarrow> wrap_call ''cleanup policy: %w'' [] (CleanupPolicy state)) []"
    by (simp add: idle_policy_def executes_no_call executes_wrap split: option.split)
  from executes_then [OF nats executes_then [OF lbs this]] show ?thesis by (simp add: reconcile_services_def)
qed

lemma adopted_run:
  fixes state
  defines "s \<equiv> snapshotDesired (desiredTopologyState state)"
  assumes ok: "is_ok (validate_desired env state)" and "distinct (map record_key (all_records state))" and "subnets_planned state"
    and "\<forall>ie \<in> set (List.enumerate 0 (desired_Endpoints state)). is_ok (endpoint_program env state ie)" and "controller_ok c" and "adopted s (b, xs)"
  shows "\<exists>c' b'. Reconcile env (ovn_topology (Some Recorder_Execute)) idle_policy state (c, b, xs) = (Inr (), c', b', xs @ standing_ops state)"
proof -
  obtain b1 where b1: "settled s b1"
    "reconcile_networks (ovn_topology (Some Recorder_Execute)) state (b, xs) = (Inr (), b1, xs @ standing_ops state)"
    using networks_executes [OF ok assms(3,4)] assms(7) unfolding s_def by blast
  have "snd ` set (List.enumerate 0 (desired_Endpoints state)) \<subseteq> set (desired_Endpoints state)"
    by (simp add: set_map [symmetric] del: set_map)
  from endpoints_executes [OF ok this assms(5,6)] b1(1) obtain c2 b2 where b2: "settled s b2"
    "for_each (reconcile_endpoint env (ovn_topology (Some Recorder_Execute)) idle_policy state) (List.enumerate 0 (desired_Endpoints state))
       (c, b1, xs @ standing_ops state) = (Inr (), c2, b2, xs @ standing_ops state)"
    unfolding s_def by blast
  from services_executes [OF ok] b2(1) obtain b3 where
    "reconcile_services (ovn_topology (Some Recorder_Execute)) idle_policy state (b2, xs @ standing_ops state) = (Inr (), b3, xs @ standing_ops state)"
    unfolding s_def executes_def by fastforce
  with b1(2) b2(2) ok show ?thesis by (simp add: Reconcile_def then_call_Inr)
qed

section \<open>After a run that got past its cleanup\<close>

lemma begin_adopts:
  assumes "routers_ok (bk_planner b)" and "fst (begin_reconcile (ovn_topology executor) t (b, x)) = Inr ()"
  shows "adopted (snapshotDesired t) (snd (begin_reconcile (ovn_topology executor) t (b, x)))"
  using assms
  by (auto simp: begin_reconcile_def ovn_topology_def then_call_def wrap_call_def wrap_error_def Backend_BeginTopologyReconcile_def Backend_CleanupTopology_def
      adopted_def adopt_snapshot_def recordOperationsLocked_keeps Let_def split: prod.splits sum.splits option.splits if_splits)

lemma ovn_methods [simp]:
  "EnsureVPC (ovn_topology executor) = Backend_EnsureVPC executor" "EnsureSubnet (ovn_topology executor) = Backend_EnsureSubnet executor"
  "EnsureEndpoint (ovn_topology executor) = Backend_EnsureEndpoint executor" "EnsureRouteTable (ovn_topology executor) = Backend_EnsureRouteTable executor"
  "EnsurePolicyRoute (ovn_topology executor) = Backend_EnsurePolicyRoute executor" "EnsureGateway (ovn_topology executor) = Backend_EnsureGateway executor"
  "EnsureNATRule (ovn_topology executor) = Backend_EnsureNATRule executor" "EnsureLoadBalancer (ovn_topology executor) = Backend_EnsureLoadBalancer executor"
  "dns_of (ovn_topology executor) = None"
  by (simp_all add: ovn_topology_def)

interpretation ovn_keeping: keeping_backend "ovn_topology executor" "adopted s" for executor s
  by unfold_locales (simp_all add: keeps_intros)

lemmas run_adopts = ovn_keeping.run_keeps [OF _ _ _ begin_adopts]

text \<open>The history stays within its limit, whatever the executor does.\<close>

definition history_ok :: "Backend \<times> 'x \<Rightarrow> bool" where
  "history_ok = (\<lambda>(b, x). length (bk_history b) \<le> operationHistoryLimit)"

lemma record_bounded: "length (bk_history (recordOperationsLocked ops b)) \<le> operationHistoryLimit"
  by (auto simp: recordOperationsLocked_def Let_def)

lemma apply_history: "keeps history_ok (Backend_apply executor plan)"
  using record_bounded
  by (auto simp: keeps_def history_ok_def Backend_apply_def Let_def split: option.splits prod.splits sum.splits)

lemma skipping_history: "keeps history_ok (\<lambda>(b, x). Backend_apply executor (plan_unless (skip b) plan) (b, x))"
  using apply_history [of executor] by (auto simp: keeps_def)

interpretation history_keeping: keeping_backend "ovn_topology executor" history_ok for executor
  by unfold_locales
    (simp_all add: Backend_EnsureVPC_def Backend_EnsureSubnet_def Backend_EnsureEndpoint_def Backend_EnsureRouteTable_def
      Backend_EnsurePolicyRoute_def Backend_EnsureGateway_def Backend_EnsureNATRule_def Backend_EnsureLoadBalancer_def apply_history skipping_history)

lemma Backend_history_bounded:
  assumes "is_ok (validate_desired env state)" and "controller_ok c" and "length (bk_history b) \<le> operationHistoryLimit"
    and "fst (begin_reconcile (ovn_topology executor) (desiredTopologyState state) (b, x)) = Inr ()"
    and "Reconcile env (ovn_topology executor) idle_policy state (c, b, x) = (r, c', b', x')"
  shows "length (bk_history b') \<le> operationHistoryLimit"
proof -
  have "history_ok (snd (begin_reconcile (ovn_topology executor) (desiredTopologyState state) (b, x)))"
    using assms(3) record_bounded
    by (auto simp: begin_reconcile_def ovn_topology_def then_call_def wrap_call_def Backend_BeginTopologyReconcile_def Backend_CleanupTopology_def
        history_ok_def adopt_snapshot_def Let_def split: prod.splits sum.splits option.splits)
  from history_keeping.run_keeps [OF assms(1,2,4) this assms(5)] show ?thesis by (simp add: history_ok_def)
qed

lemma subnets_planned_wf:
  assumes "is_ok (validate_desired env state)" and "\<forall>s \<in> set (desired_Subnets state). \<forall>p \<in> set (subnet_ExcludeCIDRs s). prefix_wf p"
  shows "subnets_planned state"
proof -
  have "subnet_ops router s \<noteq> None" if s: "s \<in> set (desired_Subnets state)" for router s
  proof (cases "addr_Is4 (prefix_Addr (subnet_CIDR s))")
    case True
    have "is_ok (Subnet_Validate s)" using accepted_valid(2) [OF assms(1)] s by blast
    then have "prefix_Contains (subnet_CIDR s) (subnet_Gateway s)" by (simp add: Subnet_Validate_def is_ok_first_error is_ok_fail_if)
    with True obtain g where g: "subnet_Gateway s = V4 g"
      by (cases "prefix_Addr (subnet_CIDR s)"; cases "subnet_Gateway s") (auto simp: prefix_Contains_def split: if_splits)
    have "those (map exclude_interval ps) \<noteq> None" if "\<forall>p \<in> set ps. prefix_wf p" for ps
      using that by (induction ps) (auto elim!: exclude_interval_exact)
    with assms(2) s have "those (map exclude_interval (subnet_ExcludeCIDRs s)) \<noteq> None" by blast
    with g show ?thesis
      by (auto simp: subnet_ops_def logicalSwitchIPAMOperations_def ovnExcludeIPs_def exclude_intervals_def Let_def)
  qed (simp add: subnet_ops_def logicalSwitchIPAMOperations_def Let_def)
  then show ?thesis by (simp add: subnets_planned_def list_all_iff)
qed

text \<open>
  C4. Take a backend whose run over an accepted desired state got past its cleanup, whether the run then
  succeeded or failed, with any executor or none. A further run over the same state succeeds, whatever
  the clock shows as long as the state is still accepted and its endpoints compile, and hands the
  executor exactly the operations of the VPCs, the subnets and the gateways: nothing is deleted, and
  nothing is planned for an endpoint, a route, a policy route, a NAT rule or a load balancer. So a
  run over an unchanged state is cheap; and what a failed run left undone for those objects is not
  made up for. Prefixes are as \<open>net/netip\<close> builds them.
\<close>

theorem Reconcile_ovn_again:
  assumes "is_ok (validate_desired env state)" and "controller_ok c" and "routers_ok (bk_planner b)"
    and "fst (begin_reconcile (ovn_topology executor) (desiredTopologyState state) (b, x)) = Inr ()"
    and "Reconcile env (ovn_topology executor) idle_policy state (c, b, x) = (r, c', b', x')"
    and "is_ok (validate_desired env' state)"
    and "\<forall>ie \<in> set (List.enumerate 0 (desired_Endpoints state)). is_ok (endpoint_program env' state ie)"
    and "\<forall>s \<in> set (desired_Subnets state). \<forall>p \<in> set (subnet_ExcludeCIDRs s). prefix_wf p"
  shows "\<exists>c'' b''. Reconcile env' (ovn_topology (Some Recorder_Execute)) idle_policy state (c', b', recorded) =
    (Inr (), c'', b'', recorded @ standing_ops state)"
proof -
  have "controller_ok c' \<and> adopted (snapshotDesired (desiredTopologyState state)) (b', recorded)"
    using run_adopts [OF assms(1,2,4,3,4,5)] by (simp add: adopted_def)
  then show ?thesis
    using adopted_run [OF assms(6) accepted_record_keys [OF assms(6)] subnets_planned_wf [OF assms(6,8)] assms(7)] by blast
qed

text \<open>An executor that serves one call and is then out of service.\<close>

definition outage_Execute :: "nat Executor" where
  "outage_Execute ops served = (if served = 0 then (Inr (), 1) else (Inl (Errorf ''connection refused'' []), served))"

lemma routers_ok_new: "routers_ok (bk_planner NewBackend)"
  by (simp add: routers_ok_def NewBackend_def NewPlanner_def)

lemma outage_begins:
  obtains b where "begin_reconcile (ovn_topology (Some outage_Execute)) t (NewBackend, 0) = (Inr (), b, 1)" and "routers_ok (bk_planner b)"
proof -
  obtain b where run: "begin_reconcile (ovn_topology (Some outage_Execute)) t (NewBackend, 0) = (Inr (), b, 1)"
    by (simp add: begin_reconcile_def ovn_topology_def then_call_Inr Backend_BeginTopologyReconcile_def Backend_CleanupTopology_def
        NewBackend_def outage_Execute_def Let_def)
  with begin_adopts [OF routers_ok_new, of "Some outage_Execute" t 0] that show ?thesis by (simp add: adopted_def)
qed

lemma outage_fails:
  "fst (Reconcile example_env (ovn_topology (Some outage_Execute)) idle_policy example_accepted (NewController, NewBackend, 0)) \<noteq> Inr ()"
proof
  assume "fst (Reconcile example_env (ovn_topology (Some outage_Execute)) idle_policy example_accepted (NewController, NewBackend, 0)) = Inr ()"
  then obtain c' w' where "Reconcile example_env (ovn_topology (Some outage_Execute)) idle_policy example_accepted (NewController, NewBackend, 0) = (Inr (), c', w')"
    by (metis prod.collapse)
  then obtain w where w: "reconcile_networks (ovn_topology (Some outage_Execute)) example_accepted (NewBackend, 0) = (Inr (), w)"
    by (auto simp: Reconcile_def then_call_Inr split: prod.splits)
  obtain b where b: "begin_reconcile (ovn_topology (Some outage_Execute)) (desiredTopologyState example_accepted) (NewBackend, 0) = (Inr (), b, 1)"
    "routers_ok (bk_planner b)"
    by (rule outage_begins)
  with w obtain w1 where "Backend_EnsureVPC (Some outage_Execute) \<lparr>vpc_Name = ''blue''\<rparr> (b, 1) = (Inr (), w1)"
    by (auto simp: reconcile_networks_def then_call_Inr ensure_checked_Inr example_accepted_def)
  then show False
    by (simp add: Backend_EnsureVPC_def Backend_apply_def Planner_EnsureVPC_def plan_ops_def OperationsSince_def OperationCount_def outage_Execute_def Let_def)
qed

theorem Reconcile_ovn_again_witness:
  "\<exists>e c' b' x' c'' b''.
     Reconcile example_env (ovn_topology (Some outage_Execute)) idle_policy example_accepted (NewController, NewBackend, 0) = (Inl e, c', b', x') \<and>
     Reconcile example_env (ovn_topology (Some Recorder_Execute)) idle_policy example_accepted (c', b', []) =
       (Inr (), c'', b'', standing_ops example_accepted)"
proof -
  obtain r c' b' x' where run:
    "Reconcile example_env (ovn_topology (Some outage_Execute)) idle_policy example_accepted (NewController, NewBackend, 0) = (r, c', b', x')"
    by (cases "Reconcile example_env (ovn_topology (Some outage_Execute)) idle_policy example_accepted (NewController, NewBackend, 0)") auto
  with outage_fails obtain e where "r = Inl e" by (cases r) auto
  moreover have begins: "fst (begin_reconcile (ovn_topology (Some outage_Execute)) (desiredTopologyState example_accepted) (NewBackend, 0)) = Inr ()"
    by (rule outage_begins [of "desiredTopologyState example_accepted"]) simp
  have "controller_ok NewController" by (simp add: controller_ok_def NewController_def)
  moreover have "\<forall>ie \<in> set (List.enumerate 0 (desired_Endpoints example_accepted)). is_ok (endpoint_program example_env example_accepted ie)"
    using example_program_compiles by (auto simp: example_accepted_def is_ok_Inr)
  moreover have "\<forall>s \<in> set (desired_Subnets example_accepted). \<forall>p \<in> set (subnet_ExcludeCIDRs s). prefix_wf p"
    by (simp add: example_accepted_def empty_DesiredState_def)
  ultimately show ?thesis
    using Reconcile_ovn_again [OF example_validated _ routers_ok_new begins run example_validated, of "[]"] run by auto
qed

end
