(* ===== verification/Spec2Isabelle.thy ===== *)
theory Spec2Isabelle
  imports Ipam RuleCompact Fqdn Recorder Pipeline Health DnsParser IdentityFeed OvnBackend
begin

text \<open>
  \<^bold>\<open>netloom\<close> is a network controller written in Go. A desired state (VPCs, subnets, endpoints, routes,
  gateways, NAT rules, load balancers, security groups) is validated and reconciled: a topology
  backend builds the virtual network in OVN, and a policy backend installs, for every endpoint, the
  program compiled from its security groups. An agent on each node enforces these programs in eBPF;
  a software evaluator defines what a program means. This library models the pure and the stateful
  core of the program and leaves its I/O out.

  \<^bold>\<open>Conventions.\<close> A Go struct is a record and its methods are functions named \<open>Type_Method\<close> or, where
  that is unambiguous, \<open>Method\<close>. Integers of a fixed width are words; \<open>int\<close> is unbounded where the
  code only counts with it. Strings are byte strings. An \<open>error\<close> is a value of the sum type \<open>'a result\<close>
  with the format and the arguments of the code, so every early return is a branch. A panic is
  \<open>None\<close> or a value of its own. A Go map is an association list with distinct keys; where the order of
  an iteration could matter, it is the order of the list and the theorems hold for every list. A
  mutex makes a method one step. Clocks, parsers of the standard library that are not modelled,
  probes, feeds, byte order and executors are arguments of the definitions that use them.

  \<^bold>\<open>The theories\<close>, in the order in which they build on each other.

  \<^item> \<open>Prelude\<close>, \<open>Strings\<close>, \<open>Utf8\<close>: results and loops that stop at an error, Go's \<open>strings\<close>, \<open>sort\<close> and
    \<open>strconv\<close>, stable sorting with the interfaces \<open>strict_weak_order\<close> and \<open>strict_total_order\<close>, the choice
    of a best element, keys joined of strings, the decoding of runes.
  \<^item> \<open>Netip\<close>, \<open>PrefixRange\<close>, \<open>AddrText\<close>: \<open>net/netip\<close> addresses and prefixes as words; prefixes as ranges,
    with the interface \<open>last_addr\<close> that all five copies of \<open>prefixLastAddr\<close> in the repository implement;
    the text of an address, which determines it.
  \<^item> \<open>ModelTypes\<close>, \<open>Validate\<close>, \<open>ValidateNet\<close>, \<open>Names\<close>: \<open>internal/model/model.go\<close>. The structs, every
    \<open>Validate\<close> method, label matching, SHA-256 and the OVN identifiers derived from names. The lemmas
    say exactly when an object is accepted, in terms of its fields and not of the checks.
  \<^item> \<open>Ipam\<close>: \<open>internal/ipam/allocator.go\<close>. The allocator and its reachable states: no address is
    given twice, the lowest usable one is given, and where the arithmetic panics.
  \<^item> \<open>Cidr\<close>, \<open>Compact\<close>, \<open>Ports\<close>, \<open>Policy\<close>, \<open>Expand\<close>, \<open>Fqdn\<close>, \<open>Compiler\<close>, \<open>RuleCompact\<close>:
    \<open>internal/policy\<close>. Subtraction and merging of prefixes, blocks of ports, identities and
    precedence, the expansion of a rule for every kind of remote, the FQDN patterns and the
    regular expression built for them, and \<open>CompileForEndpointWithContext\<close>. The lemmas relate each
    routine to the set of addresses, ports, names or packets it stands for.
  \<^item> \<open>PolicyMap\<close>, \<open>PolicyStore\<close>, \<open>PolicyUpdate\<close>: \<open>internal/dataplane/policymap.go\<close> and
    \<open>ebpf_store_capacity.go\<close>. Map entries, update plans and the store with its failures: an update
    replaces the policy of one endpoint as a whole or leaves everything, and never exceeds the
    capacity of the map on the way.
  \<^item> \<open>Evaluator\<close>, \<open>Recorder\<close>, \<open>Pipeline\<close>: \<open>internal/dataplane/evaluator.go\<close>. The deciding entry of a packet,
    connection tracking as an \<open>inductive\<close> relation of runs, explanations, counters and events.
    \<open>Pipeline\<close> composes compiler, store and evaluator: the verdict about a packet is that of the best
    rule of the endpoint's security groups.
  \<^item> \<open>DesiredState\<close>, \<open>Resolver\<close>, \<open>Conflicts\<close>, \<open>Tenants\<close>, \<open>Graph\<close>: the desired state of
    \<open>internal/control/controller.go\<close> and its validation, and \<open>internal/topology/resolver.go\<close>. One
    definition per loop of \<open>validateObjectGraph\<close>; the interfaces \<open>registry\<close> and \<open>claim_registry\<close> stand for
    loops that reject an object whose name or claim was seen before. The lemmas say what an
    accepted state has: unique names, addresses with one role, quotas kept, queues and routes that do
    not compete, and hence a resolver whose decision does not depend on the order of a map. What the
    resolver decides by policy routes, route tables and next hops is specified apart from it.
  \<^item> \<open>Controller\<close>, \<open>MemoryBackend\<close>: \<open>Reconcile\<close> over backends given as records of methods that pass a state,
    several backends driven as one, and the backend of \<open>internal/control/memory.go\<close>, which after a
    run holds exactly the desired topology and programs.
  \<^item> \<open>Planner\<close>, \<open>Lifecycle\<close>, \<open>OvnBackend\<close>: \<open>internal/ovn/planner.go\<close>, \<open>lifecycle.go\<close> and \<open>backend.go\<close>. The
    operations planned for each object, the cleanup between two snapshots, and the backend that
    skips what did not change. The match expression of a policy route means what the resolver
    computes; a further run over an adopted state executes only the operations every run has. The
    interface \<open>keeping_backend\<close> carries an invariant of the methods to a whole run.
  \<^item> \<open>Health\<close>, \<open>DnsParser\<close>, \<open>Observations\<close>, \<open>IdentityFeed\<close>: \<open>internal/control/lb_health.go\<close>,
    \<open>internal/dnsobserver/parser.go\<close>, \<open>dns_observation.go\<close> and \<open>identity_observation.go\<close>. Thresholds of
    health checks and the verdict of a round on each backend by the result of its probe, DNS names with
    compression pointers, the merging of observed records and groups through the interface
    \<open>preference\<close>, one record per host and set of addresses, feeds with their cache and back-off.

  \<^bold>\<open>Loops.\<close> Loops over slices are structural recursion. The others are functions with a measure: the
  distance to the end of a range of addresses or ports, the number of prefixes, the length of a
  string. The two loops of the DNS parser that follow pointers and aliases end only because of the
  sets of what was visited; they are partial functions and are proved to return for every packet.
  No definition uses fuel.

  \<^bold>\<open>What the theorems assume.\<close> Prefixes and addresses are as \<open>net/netip\<close> builds them (\<open>prefix_wf\<close>). The
  identity resolver, the connection table, the policy store, the orders and the preferences are
  interfaces whose laws are proved for the definitions of the code. Merged records have addresses
  without zones, since a zone may hold the separators of the key; the backends of a round of health
  checks with a tracker have keys of their own.

  \<^bold>\<open>Not modelled.\<close> The executors, readers and the audit of \<open>internal/ovn\<close>, which speak to OVN through
  processes and the libovsdb client, and the generated OVSDB record types; \<open>internal/agent\<close>,
  \<open>internal/linuxdatapath\<close> and the eBPF code of \<open>internal/dataplane\<close> (\<open>tcx.go\<close> and the kernel maps of
  \<open>ebpf_store.go\<close>), which act on the host; reading and writing of JSON and state files
  (\<open>statefile.go\<close>, parts of \<open>dns_observation.go\<close>); the commands under \<open>cmd\<close>, which are flags, servers,
  metrics and loops around the parts above; cancellation through contexts, and concurrency inside
  a method. Copies of values that the code makes to avoid sharing are the identity; where sharing
  shows, as in the sorting of search domains by the planner, it is written out.
\<close>

end
